(* ===== verification/Prelude.thy ===== *)
theory Prelude
  imports Main
begin

text \<open>
  What every component of the model shares: the representation of Go's clock values,
  the collections of simplification rules, counting lemmas for lists of goroutines, and
  the generic notion of reachable states with the interface \<open>invariant_system\<close> through
  which each component lifts a one-step invariant to all its runs.
\<close>

section \<open>Collections\<close>

named_theorems gostr \<open>evaluation rules for Go string operations\<close>
named_theorems count_simps \<open>counting the entries of an updated list\<close>

section \<open>Clock values\<close>

text \<open>
  A \<^verbatim>\<open>time.Time\<close> is the number of nanoseconds since Go's zero time (1 January of year 1),
  a \<^verbatim>\<open>time.Duration\<close> is a number of nanoseconds. The zero time, which the code uses as
  "not set" and tests with \<^verbatim>\<open>IsZero\<close>, is therefore \<open>0\<close>; \<^verbatim>\<open>a.Before(b)\<close> is \<open>a < b\<close>.
  A \<^verbatim>\<open>Duration\<close> is an \<^verbatim>\<open>int64\<close>: where the code multiplies durations, the wrap-around is
  written out with \<open>wrap64\<close>.
\<close>

type_synonym gotime = int
type_synonym duration = int

definition millisecond :: duration where
  "millisecond = 1000000"

definition second :: duration where
  "second = 1000000000"

definition minute :: duration where
  "minute = 60 * second"

lemmas duration_defs = millisecond_def second_def minute_def

lemma second_pos [simp]: "0 < second"
  by (simp add: second_def)

text \<open>Two's complement wrap-around of a 64-bit signed integer.\<close>

definition wrap64 :: "int \<Rightarrow> int" where
  "wrap64 x = (x + 2 ^ 63) mod 2 ^ 64 - 2 ^ 63"

lemma wrap64_id: "- (2 ^ 63) \<le> x \<Longrightarrow> x < 2 ^ 63 \<Longrightarrow> wrap64 x = x"
  by (simp add: wrap64_def)

lemma wrap64_bounds: "- (2 ^ 63) \<le> wrap64 x \<and> wrap64 x < 2 ^ 63"
proof -
  have "0 \<le> (x + 2 ^ 63) mod 2 ^ 64" and "(x + 2 ^ 63) mod 2 ^ 64 < (2 :: int) ^ 64"
    by simp_all
  then show ?thesis
    by (simp add: wrap64_def)
qed

section \<open>Counting goroutines\<close>

definition count_if :: "('a \<Rightarrow> bool) \<Rightarrow> 'a list \<Rightarrow> nat" where
  "count_if P xs = length (filter P xs)"

lemma count_if_Nil [simp]: "count_if P [] = 0"
  by (simp add: count_if_def)

lemma count_if_Cons [simp]: "count_if P (x # xs) = (if P x then Suc (count_if P xs) else count_if P xs)"
  by (simp add: count_if_def)

lemma count_if_append [simp]: "count_if P (xs @ ys) = count_if P xs + count_if P ys"
  by (simp add: count_if_def)

lemma count_if_update [count_simps]:
  "i < length xs \<Longrightarrow>
   int (count_if P (xs[i := x])) = int (count_if P xs) + of_bool (P x) - of_bool (P (xs ! i))"
proof (induction xs arbitrary: i)
  case Nil
  then show ?case by simp
next
  case (Cons y ys)
  show ?case
  proof (cases i)
    case 0
    then show ?thesis by simp
  next
    case (Suc j)
    with Cons.prems Cons.IH [of j] show ?thesis by simp
  qed
qed

lemma count_if_pos: "i < length xs \<Longrightarrow> P (xs ! i) \<Longrightarrow> 0 < count_if P xs"
  by (auto simp: count_if_def filter_empty_conv)

lemma count_if_zero_iff: "count_if P xs = 0 \<longleftrightarrow> (\<forall>x \<in> set xs. \<not> P x)"
  by (simp add: count_if_def filter_empty_conv)

lemma count_if_replicate: "\<not> P x \<Longrightarrow> count_if P (replicate n x) = 0"
  by (simp add: count_if_def)

lemma count_if_le_length: "count_if P xs \<le> length xs"
  by (simp add: count_if_def)

lemma count_if_mono: "(\<And>x. x \<in> set xs \<Longrightarrow> P x \<Longrightarrow> Q x) \<Longrightarrow> count_if P xs \<le> count_if Q xs"
  by (induction xs) auto

lemma count_if_cong:
  "(\<And>x. x \<in> set xs \<Longrightarrow> P x = Q x) \<Longrightarrow> count_if P xs = count_if Q xs"
  by (induction xs) auto

section \<open>Lists\<close>

lemma find_SomeD: "find P xs = Some x \<Longrightarrow> x \<in> set xs \<and> P x"
  by (induction xs) (auto split: if_splits)

lemma mod_shift_inj:
  fixes a k m n :: nat
  assumes "k < n" "m < n" "(a + k) mod n = (a + m) mod n"
  shows "k = m"
proof -
  have "int (a + k) mod int n = int (a + m) mod int n"
    using assms(3) by (simp only: zmod_int [symmetric])
  then have "int n dvd int k - int m"
    by (simp add: mod_eq_dvd_iff)
  then show ?thesis
    using assms(1,2) zdvd_imp_le [of "int n" "int k - int m"] zdvd_imp_le [of "int n" "int m - int k"]
    by (cases k m rule: linorder_cases) (auto simp: dvd_diff_commute)
qed

section \<open>Reachable states\<close>

inductive reach :: "('s \<Rightarrow> bool) \<Rightarrow> ('s \<Rightarrow> 's \<Rightarrow> bool) \<Rightarrow> 's \<Rightarrow> bool"
  for init :: "'s \<Rightarrow> bool" and step :: "'s \<Rightarrow> 's \<Rightarrow> bool"
where
  reach_init: "init s \<Longrightarrow> reach init step s"
| reach_step: "reach init step s \<Longrightarrow> step s t \<Longrightarrow> reach init step t"

text \<open>A run given as the list of its states\<close>

lemma reach_path: "reach init step s \<Longrightarrow> successively step (s # xs) \<Longrightarrow> reach init step (last (s # xs))"
proof (induction xs arbitrary: s)
  case (Cons a xs)
  then have "reach init step a" "successively step (a # xs)"
    by (auto intro: reach.reach_step)
  then show ?case
    using Cons.IH [of a] by simp
qed simp

text \<open>
  The interface between a component and the properties of its runs: the component gives
  its initial states, its steps and an invariant, and promises that the invariant holds at
  the start and is kept by every step.
\<close>

locale invariant_system =
  fixes init :: "'s \<Rightarrow> bool"
    and step :: "'s \<Rightarrow> 's \<Rightarrow> bool"
    and inv :: "'s \<Rightarrow> bool"
  assumes inv_init: "init s \<Longrightarrow> inv s"
    and inv_step: "inv s \<Longrightarrow> step s t \<Longrightarrow> inv t"
begin

lemma reach_inv: "reach init step s \<Longrightarrow> inv s"
  by (induction rule: reach.induct) (auto intro: inv_init inv_step)

lemma reach_inv_next: "reach init step s \<Longrightarrow> step s t \<Longrightarrow> inv t"
  by (blast intro: inv_step reach_inv)

end

section \<open>Tables of pointers\<close>

text \<open>
  The interface of a table that maps keys to heap objects and creates a missing object on
  first use (\<^verbatim>\<open>turnScheduler.stateLocked\<close>, \<^verbatim>\<open>getLinkCache\<close>): \<open>get\<close> returns the pointer
  and the new state, \<open>view\<close> is the table, \<open>wf\<close> the well-formedness of the heap. The laws:
  a key that is present keeps its pointer, a created object is a new pointer, and no other
  key is touched. Its clients need that a pointer taken earlier is still the table's.
\<close>

locale pointer_table =
  fixes get :: "'k \<Rightarrow> 's \<Rightarrow> nat \<times> 's"
    and view :: "'s \<Rightarrow> 'k \<Rightarrow> nat option"
    and wf :: "'s \<Rightarrow> bool"
  assumes get_present: "view s k = Some l \<Longrightarrow> get k s = (l, s)"
    and get_view: "get k s = (l, s') \<Longrightarrow> view s' k = Some l"
    and get_other: "get k s = (l, s') \<Longrightarrow> k' \<noteq> k \<Longrightarrow> view s' k' = view s k'"
    and get_wf: "wf s \<Longrightarrow> get k s = (l, s') \<Longrightarrow> wf s'"
    and wf_inj: "wf s \<Longrightarrow> view s k = Some l \<Longrightarrow> view s k' = Some l \<Longrightarrow> k = k'"
begin

lemma get_mono: "get k s = (l, s') \<Longrightarrow> view s k' = Some l' \<Longrightarrow> view s' k' = Some l'"
  by (metis get_other get_present get_view old.prod.inject)

lemma get_idem: "get k s = (l, s') \<Longrightarrow> get k s' = (l, s')"
  by (rule get_present) (rule get_view)

lemma get_stable:
  "get k s = (l, s1) \<Longrightarrow> get k' s1 = (l', s2) \<Longrightarrow> fst (get k s2) = l"
  by (metis fst_conv get_mono get_present get_view)

lemma get_separate:
  "wf s \<Longrightarrow> get k s = (l, s1) \<Longrightarrow> get k' s1 = (l', s2) \<Longrightarrow> k \<noteq> k' \<Longrightarrow> l \<noteq> l'"
  by (metis get_mono get_view get_wf wf_inj)

end

section \<open>Registries\<close>

text \<open>
  The interface of a list of pointers to which an object is appended and from which its
  first occurrence is removed (\<^verbatim>\<open>Dispatcher.Register\<close>/\<^verbatim>\<open>Unregister\<close>,
  \<^verbatim>\<open>registerActiveHttpClient\<close>/\<^verbatim>\<open>unregisterActiveHttpClient\<close>). Its clients register an
  object once and need that the others keep their order and that removing it twice, or
  removing one that was never there, is harmless.
\<close>

locale registry =
  fixes add :: "'a \<Rightarrow> 's \<Rightarrow> 's"
    and del :: "'a \<Rightarrow> 's \<Rightarrow> 's"
    and elems :: "'s \<Rightarrow> 'a list"
  assumes elems_add: "elems (add x s) = elems s @ [x]"
    and elems_del: "elems (del x s) = remove1 x (elems s)"
begin

lemma add_distinct: "distinct (elems s) \<Longrightarrow> x \<notin> set (elems s) \<Longrightarrow> distinct (elems (add x s))"
  by (simp add: elems_add)

lemma del_distinct: "distinct (elems s) \<Longrightarrow> distinct (elems (del x s))"
  by (simp add: elems_del)

lemma del_gone: "distinct (elems s) \<Longrightarrow> x \<notin> set (elems (del x s))"
  by (simp add: elems_del)

lemma del_absent: "x \<notin> set (elems s) \<Longrightarrow> elems (del x s) = elems s"
  by (simp add: elems_del remove1_idem)

lemma del_twice: "distinct (elems s) \<Longrightarrow> elems (del x (del x s)) = elems (del x s)"
  by (simp add: elems_del remove1_idem)

lemma del_others: "distinct (elems s) \<Longrightarrow> elems (del x s) = filter (\<lambda>y. y \<noteq> x) (elems s)"
  by (simp add: elems_del distinct_remove1_removeAll removeAll_filter_not_eq)
    (metis (mono_tags))

lemma add_del: "x \<notin> set (elems s) \<Longrightarrow> elems (del x (add x s)) = elems s"
  by (simp add: elems_add elems_del remove1_append)

lemma del_commute: "elems (del x (del y s)) = elems (del y (del x s))"
  by (simp add: elems_del remove1_commute)

end

end
