(* ===== verification/GoStrings.thy ===== *)
theory GoStrings
  imports Prelude "HOL-Library.Sublist"
begin

text \<open>
  The parts of Go's \<^verbatim>\<open>strings\<close>, \<^verbatim>\<open>strconv\<close> and \<^verbatim>\<open>net\<close> packages that the client uses.
  A Go string is its list of bytes (\<open>string\<close>, one \<open>char\<close> per byte). Case folding and the
  trimming of white space act on ASCII bytes: every word the client searches or compares
  after folding is ASCII, and bytes above 127 are left as they are.
\<close>

section \<open>Bytes\<close>

definition byte_of :: "char \<Rightarrow> nat" where
  "byte_of c = of_char c"

definition lower_char :: "char \<Rightarrow> char" where
  "lower_char c = (if 65 \<le> byte_of c \<and> byte_of c \<le> 90 then char_of (byte_of c + 32) else c)"

definition to_lower :: "string \<Rightarrow> string" where
  "to_lower = map lower_char"

lemma byte_of_less [simp]: "byte_of c < 256"
  by (simp add: byte_of_def)

lemma byte_of_char_of [simp]: "n < 256 \<Longrightarrow> byte_of (char_of n) = n"
  by (simp add: byte_of_def)

lemma lower_char_idem [simp]: "lower_char (lower_char c) = lower_char c"
  by (auto simp: lower_char_def)

lemma to_lower_idem [simp]: "to_lower (to_lower s) = to_lower s"
  by (simp add: to_lower_def)

lemma to_lower_append [simp]: "to_lower (s @ t) = to_lower s @ to_lower t"
  by (simp add: to_lower_def)

lemma length_to_lower [simp]: "length (to_lower s) = length s"
  by (simp add: to_lower_def)

lemma to_lower_Nil_iff [simp]: "to_lower s = [] \<longleftrightarrow> s = []"
  by (simp add: to_lower_def)

text \<open>\<^verbatim>\<open>strings.EqualFold\<close>\<close>

definition equal_fold :: "string \<Rightarrow> string \<Rightarrow> bool" where
  "equal_fold s t \<longleftrightarrow> to_lower s = to_lower t"

section \<open>Searching\<close>

text \<open>\<^verbatim>\<open>strings.HasPrefix\<close>, \<^verbatim>\<open>strings.HasSuffix\<close>, \<^verbatim>\<open>strings.Contains\<close>; the text comes first.\<close>

fun has_prefix :: "string \<Rightarrow> string \<Rightarrow> bool" where
  "has_prefix s [] \<longleftrightarrow> True"
| "has_prefix [] (p # ps) \<longleftrightarrow> False"
| "has_prefix (c # s) (p # ps) \<longleftrightarrow> c = p \<and> has_prefix s ps"

definition has_suffix :: "string \<Rightarrow> string \<Rightarrow> bool" where
  "has_suffix s p \<longleftrightarrow> has_prefix (rev s) (rev p)"

fun contains :: "string \<Rightarrow> string \<Rightarrow> bool" where
  "contains [] w \<longleftrightarrow> w = []"
| "contains (c # s) w \<longleftrightarrow> has_prefix (c # s) w \<or> contains s w"

lemma has_prefix_iff: "has_prefix s p \<longleftrightarrow> prefix p s"
  by (induction s p rule: has_prefix.induct) auto

lemma has_prefix_append [simp]: "has_prefix (p @ s) p"
  by (simp add: has_prefix_iff)

lemma contains_iff: "contains s w \<longleftrightarrow> sublist w s"
  by (induction s) (auto simp: has_prefix_iff sublist_Cons_right)

lemma contains_appendI1: "contains s w \<Longrightarrow> contains (s @ t) w"
  by (simp add: contains_iff sublist_append)

lemma contains_appendI2: "contains t w \<Longrightarrow> contains (s @ t) w"
  by (simp add: contains_iff sublist_append)

lemma contains_self [simp]: "contains w w"
  by (simp add: contains_iff)

text \<open>\<^verbatim>\<open>strings.Index\<close>, with \<open>None\<close> for \<open>-1\<close>\<close>

fun index_of :: "string \<Rightarrow> string \<Rightarrow> nat option" where
  "index_of [] w = (if w = [] then Some 0 else None)"
| "index_of (c # s) w =
     (if has_prefix (c # s) w then Some 0 else map_option Suc (index_of s w))"

text \<open>\<^verbatim>\<open>strings.IndexAny\<close> and \<^verbatim>\<open>strings.IndexByte\<close>\<close>

fun index_char :: "(char \<Rightarrow> bool) \<Rightarrow> string \<Rightarrow> nat option" where
  "index_char P [] = None"
| "index_char P (c # s) = (if P c then Some 0 else map_option Suc (index_char P s))"

definition last_index_char :: "(char \<Rightarrow> bool) \<Rightarrow> string \<Rightarrow> nat option" where
  "last_index_char P s =
     map_option (\<lambda>j. length s - 1 - j) (index_char P (rev s))"

section \<open>Trimming and splitting\<close>

definition is_space :: "char \<Rightarrow> bool" where
  "is_space c \<longleftrightarrow> (let n = byte_of c in n = 32 \<or> 9 \<le> n \<and> n \<le> 13)"

definition trim_with :: "(char \<Rightarrow> bool) \<Rightarrow> string \<Rightarrow> string" where
  "trim_with P s = rev (dropWhile P (rev (dropWhile P s)))"

definition trim_space :: "string \<Rightarrow> string" where
  "trim_space = trim_with is_space"

text \<open>\<^verbatim>\<open>strings.Trim(s, cutset)\<close>\<close>

definition trim_set :: "string \<Rightarrow> string \<Rightarrow> string" where
  "trim_set cs = trim_with (\<lambda>c. c \<in> set cs)"

definition trim_prefix :: "string \<Rightarrow> string \<Rightarrow> string" where
  "trim_prefix s p = (if has_prefix s p then drop (length p) s else s)"

text \<open>\<^verbatim>\<open>strings.Split\<close> at a one-byte separator; the result is never empty.\<close>

fun split_at :: "char \<Rightarrow> string \<Rightarrow> string list" where
  "split_at d [] = [[]]"
| "split_at d (c # s) =
     (if c = d then [] # split_at d s
      else (case split_at d s of [] \<Rightarrow> [[c]] | w # ws \<Rightarrow> (c # w) # ws))"

text \<open>\<^verbatim>\<open>strings.Cut(s, sep)\<close> at a one-byte separator, and \<^verbatim>\<open>strings.Join\<close>\<close>

fun cut_at :: "char \<Rightarrow> string \<Rightarrow> (string \<times> string) option" where
  "cut_at d [] = None"
| "cut_at d (c # s) =
     (if c = d then Some ([], s) else map_option (\<lambda>(a, b). (c # a, b)) (cut_at d s))"

fun join :: "string \<Rightarrow> string list \<Rightarrow> string" where
  "join sep [] = []"
| "join sep [w] = w"
| "join sep (w # v # ws) = w @ sep @ join sep (v # ws)"

text \<open>\<^verbatim>\<open>strings.FieldsFunc\<close>: the maximal non-empty runs of bytes that fail the predicate.\<close>

fun fields_acc :: "(char \<Rightarrow> bool) \<Rightarrow> string \<Rightarrow> string \<Rightarrow> string list" where
  "fields_acc P acc [] = (if acc = [] then [] else [rev acc])"
| "fields_acc P acc (c # s) =
     (if P c then (if acc = [] then fields_acc P [] s else rev acc # fields_acc P [] s)
      else fields_acc P (c # acc) s)"

definition fields_func :: "(char \<Rightarrow> bool) \<Rightarrow> string \<Rightarrow> string list" where
  "fields_func P = fields_acc P []"

text \<open>\<^verbatim>\<open>strings.ReplaceAll\<close> of one byte by another\<close>

definition replace_char :: "char \<Rightarrow> char \<Rightarrow> string \<Rightarrow> string" where
  "replace_char a b = map (\<lambda>c. if c = a then b else c)"

lemma split_at_not_Nil [simp]: "split_at d s \<noteq> []"
  by (induction s) (auto split: list.splits)

lemma join_split_at: "join [d] (split_at d s) = s"
proof (induction s)
  case Nil
  then show ?case by simp
next
  case (Cons c s)
  show ?case
    using Cons.IH by (cases "split_at d s"; cases "tl (split_at d s)") auto
qed

lemma split_at_no_sep: "w \<in> set (split_at d s) \<Longrightarrow> d \<notin> set w"
  by (induction s arbitrary: w) (auto split: if_splits list.splits)

lemma split_at_id: "d \<notin> set s \<Longrightarrow> split_at d s = [s]"
  by (induction s) auto

lemma split_at_append: "d \<notin> set a \<Longrightarrow> split_at d (a @ d # s) = a # split_at d s"
  by (induction a) auto

lemma split_at_join:
  "ws \<noteq> [] \<Longrightarrow> \<forall>w \<in> set ws. d \<notin> set w \<Longrightarrow> split_at d (join [d] ws) = ws"
proof (induction ws)
  case Nil
  then show ?case by simp
next
  case (Cons w ws)
  then show ?case by (cases ws) (simp_all add: split_at_id split_at_append)
qed

lemma cut_at_Some_iff:
  "cut_at d s = Some (a, b) \<longleftrightarrow> s = a @ d # b \<and> d \<notin> set a"
proof (induction s arbitrary: a)
  case Nil
  then show ?case by simp
next
  case (Cons c s)
  show ?case
  proof (cases a)
    case Nil
    then show ?thesis by (auto split: option.splits)
  next
    case (Cons e a')
    then show ?thesis
      using Cons.IH [of a'] by auto
  qed
qed

lemma cut_at_None_iff: "cut_at d s = None \<longleftrightarrow> d \<notin> set s"
  by (induction s) auto

lemma fields_acc_nonempty: "w \<in> set (fields_acc P acc s) \<Longrightarrow> w \<noteq> []"
  by (induction P acc s rule: fields_acc.induct) (auto split: if_splits)

lemma fields_acc_clean:
  "w \<in> set (fields_acc P acc s) \<Longrightarrow> list_all (\<lambda>c. \<not> P c) acc \<Longrightarrow> list_all (\<lambda>c. \<not> P c) w"
proof (induction s arbitrary: acc)
  case Nil
  then show ?case by (simp split: if_splits)
next
  case (Cons c s)
  then show ?case by (cases "P c"; cases "acc = []") auto
qed

lemma trim_with_set: "set (trim_with P s) \<subseteq> set s"
  by (auto simp: trim_with_def dest!: set_dropWhileD)

lemma trim_with_ends:
  "trim_with P s \<noteq> [] \<Longrightarrow> \<not> P (hd (trim_with P s)) \<and> \<not> P (last (trim_with P s))"
proof -
  let ?t = "dropWhile P s"
  let ?u = "dropWhile P (rev ?t)"
  assume ne: "trim_with P s \<noteq> []"
  then have u: "?u \<noteq> []" by (simp add: trim_with_def)
  then have last: "\<not> P (last (rev ?u))"
    by (simp add: last_rev hd_dropWhile)
  obtain zs where t: "?t = rev ?u @ zs"
    by (metis rev_append rev_rev_ident takeWhile_dropWhile_id)
  then have "?t \<noteq> []" using u by (metis append_is_Nil_conv rev_is_Nil_conv)
  then have "\<not> P (hd ?t)" by (rule hd_dropWhile)
  moreover have "hd ?t = hd (rev ?u)" using t u by (metis hd_append2 rev_is_Nil_conv)
  ultimately show ?thesis using last by (simp add: trim_with_def)
qed

lemma trim_with_id:
  "s = [] \<or> \<not> P (hd s) \<and> \<not> P (last s) \<Longrightarrow> trim_with P s = s"
proof (cases "s = []")
  case False
  assume "s = [] \<or> \<not> P (hd s) \<and> \<not> P (last s)"
  with False have h: "\<not> P (hd s)" and l: "\<not> P (last s)" by auto
  have "dropWhile P s = s"
    using False h by (cases s) auto
  moreover have "dropWhile P (rev s) = rev s"
    using False l by (cases "rev s") (auto simp: last_snoc dest: arg_cong [where f = rev])
  ultimately show ?thesis by (simp add: trim_with_def)
qed (simp add: trim_with_def)

lemma trim_with_idem [simp]: "trim_with P (trim_with P s) = trim_with P s"
  by (metis trim_with_id trim_with_ends)

lemma trim_space_idem [simp]: "trim_space (trim_space s) = trim_space s"
  by (simp add: trim_space_def)

section \<open>Numbers\<close>

definition is_digit :: "char \<Rightarrow> bool" where
  "is_digit c \<longleftrightarrow> 48 \<le> byte_of c \<and> byte_of c \<le> 57"

definition digit_val :: "char \<Rightarrow> int" where
  "digit_val c = int (byte_of c) - 48"

definition digits_val :: "string \<Rightarrow> int" where
  "digits_val s = foldl (\<lambda>n c. 10 * n + digit_val c) 0 s"

text \<open>
  \<^verbatim>\<open>strconv.Atoi\<close> on a 64-bit platform: the value and whether the error is \<^verbatim>\<open>nil\<close>. A syntax
  error gives 0, a range error the nearest \<^verbatim>\<open>int64\<close>, as the library does.
\<close>

definition atoi :: "string \<Rightarrow> int \<times> bool" where
  "atoi s =
     (let neg = has_prefix s ''-'';
          ds = (if neg \<or> has_prefix s ''+'' then tl s else s)
      in if ds = [] \<or> \<not> list_all is_digit ds then (0, False)
         else let v = (if neg then - digits_val ds else digits_val ds)
              in if v < - (2 ^ 63) then (- (2 ^ 63), False)
                 else if 2 ^ 63 \<le> v then (2 ^ 63 - 1, False)
                 else (v, True))"

fun nat_digits :: "nat \<Rightarrow> string" where
  "nat_digits n = (if n < 10 then [char_of (48 + n)] else nat_digits (n div 10) @ [char_of (48 + n mod 10)])"

declare nat_digits.simps [simp del]

text \<open>\<^verbatim>\<open>strconv.Itoa\<close> and the verb \<^verbatim>\<open>%d\<close>\<close>

definition itoa :: "int \<Rightarrow> string" where
  "itoa i = (if i < 0 then ''-'' @ nat_digits (nat (- i)) else nat_digits (nat i))"

lemma digits_val_append: "digits_val (s @ [c]) = 10 * digits_val s + digit_val c"
  by (simp add: digits_val_def)

lemma byte_of_digit: "d < 10 \<Longrightarrow> byte_of (char_of (48 + d)) = 48 + d"
  by (rule byte_of_char_of) simp

lemma nat_digits_correct:
  "nat_digits n \<noteq> [] \<and> list_all is_digit (nat_digits n) \<and> digits_val (nat_digits n) = int n"
proof (induction n rule: nat_digits.induct)
  case (1 n)
  show ?case
  proof (cases "n < 10")
    case True
    then show ?thesis
      by (subst (1 2 3) nat_digits.simps)
        (simp add: is_digit_def digits_val_def digit_val_def byte_of_digit del: byte_of_char_of)
  next
    case False
    with "1.IH" have IH: "list_all is_digit (nat_digits (n div 10))"
      "digits_val (nat_digits (n div 10)) = int (n div 10)" by auto
    have d: "n mod 10 < 10" by simp
    have "int n = 10 * int (n div 10) + int (n mod 10)"
      by (metis mult_div_mod_eq of_nat_add of_nat_mult of_nat_numeral)
    with False IH show ?thesis
      by (subst (1 2 3) nat_digits.simps)
        (simp add: digits_val_append is_digit_def digit_val_def byte_of_digit [OF d]
           del: byte_of_char_of)
  qed
qed

lemma nat_digits_hd: "is_digit (hd (nat_digits n))"
  using nat_digits_correct [of n] by (cases "nat_digits n") auto

lemma nat_digits_no_sign: "\<not> has_prefix (nat_digits n) ''-'' \<and> \<not> has_prefix (nat_digits n) ''+''"
  using nat_digits_hd [of n] nat_digits_correct [of n]
  by (cases "nat_digits n") (auto simp: is_digit_def byte_of_def)

lemma atoi_itoa: "- (2 ^ 63) \<le> i \<Longrightarrow> i < 2 ^ 63 \<Longrightarrow> atoi (itoa i) = (i, True)"
  using nat_digits_correct [of "nat i"] nat_digits_no_sign [of "nat i"]
    nat_digits_correct [of "nat (- i)"]
  by (auto simp: atoi_def itoa_def Let_def)

section \<open>Host and port\<close>

text \<open>
  \<^verbatim>\<open>net.SplitHostPort\<close>, with the reason of the \<^verbatim>\<open>AddrError\<close> on the left, and
  \<^verbatim>\<open>net.JoinHostPort\<close>.
\<close>

definition missing_port :: string where
  "missing_port = ''missing port in address''"

definition too_many_colons :: string where
  "too_many_colons = ''too many colons in address''"

definition split_host_port :: "string \<Rightarrow> string + (string \<times> string)" where
  "split_host_port hp =
     (case last_index_char (\<lambda>c. c = CHR '':'') hp of
        None \<Rightarrow> Inl missing_port
      | Some i \<Rightarrow>
          if has_prefix hp ''['' then
            (case index_char (\<lambda>c. c = CHR '']'') hp of
               None \<Rightarrow> Inl ''missing ']' in address''
             | Some e \<Rightarrow>
                 if e + 1 = length hp then Inl missing_port
                 else if e + 1 \<noteq> i then
                   (if hp ! (e + 1) = CHR '':'' then Inl too_many_colons else Inl missing_port)
                 else if CHR ''['' \<in> set (drop 1 hp) then Inl ''unexpected '[' in address''
                 else if CHR '']'' \<in> set (drop (e + 1) hp) then Inl ''unexpected ']' in address''
                 else Inr (take (e - 1) (drop 1 hp), drop (i + 1) hp))
          else if CHR '':'' \<in> set (take i hp) then Inl too_many_colons
          else if CHR ''['' \<in> set hp then Inl ''unexpected '[' in address''
          else if CHR '']'' \<in> set hp then Inl ''unexpected ']' in address''
          else Inr (take i hp, drop (i + 1) hp))"

text \<open>\<^verbatim>\<open>AddrError.Error\<close>\<close>

definition addr_error_text :: "string \<Rightarrow> string \<Rightarrow> string" where
  "addr_error_text addr why = (if addr \<noteq> [] then ''address '' @ addr @ '': '' @ why else why)"

text \<open>The verb \<^verbatim>\<open>%q\<close>, for text without control characters\<close>

definition go_quote :: "string \<Rightarrow> string" where
  "go_quote s =
     [CHR 0x22] @
     concat (map (\<lambda>c. if c = CHR 0x22 \<or> c = CHR 0x5C then [CHR 0x5C, c] else [c]) s) @
     [CHR 0x22]"

definition join_host_port :: "string \<Rightarrow> string \<Rightarrow> string" where
  "join_host_port h p =
     (if CHR '':'' \<in> set h then ''['' @ h @ '']:'' @ p else h @ '':'' @ p)"

lemma index_char_append:
  "index_char P (s @ t) =
     (case index_char P s of Some i \<Rightarrow> Some i
      | None \<Rightarrow> map_option (\<lambda>i. length s + i) (index_char P t))"
  by (induction s; cases "index_char P t") (auto split: option.splits)

lemma index_char_None: "index_char P s = None \<longleftrightarrow> (\<forall>c \<in> set s. \<not> P c)"
  by (induction s) auto

lemma index_char_hit: "\<forall>c \<in> set s. \<not> P c \<Longrightarrow> P d \<Longrightarrow> index_char P (s @ d # t) = Some (length s)"
  by (simp add: index_char_append index_char_None [THEN iffD2])

lemma last_index_char_hit:
  "\<forall>c \<in> set t. \<not> P c \<Longrightarrow> P d \<Longrightarrow> last_index_char P (s @ d # t) = Some (length s)"
  using index_char_hit [of "rev t" P d "rev s"]
  by (simp add: last_index_char_def)

lemma split_join_host_port:
  assumes "CHR ''['' \<notin> set h" "CHR '']'' \<notin> set h"
    and "CHR '':'' \<notin> set p" "CHR ''['' \<notin> set p" "CHR '']'' \<notin> set p"
  shows "split_host_port (join_host_port h p) = Inr (h, p)"
proof (cases "CHR '':'' \<in> set h")
  case True
  have li: "last_index_char (\<lambda>c. c = CHR '':'') ((''['' @ h @ '']'') @ CHR '':'' # p) = Some (length h + 2)"
    using assms(3) by (subst last_index_char_hit) auto
  have ri: "index_char (\<lambda>c. c = CHR '']'') ((''['' @ h) @ CHR '']'' # '':'' @ p) = Some (length h + 1)"
    using assms(2) by (subst index_char_hit) auto
  show ?thesis
    using True assms li ri by (simp add: split_host_port_def join_host_port_def)
next
  case False
  have li: "last_index_char (\<lambda>c. c = CHR '':'') (h @ CHR '':'' # p) = Some (length h)"
    using assms(3) by (subst last_index_char_hit) auto
  have np: "\<not> has_prefix (h @ CHR '':'' # p) ''[''"
    using assms(1) by (cases h) auto
  show ?thesis
    using False assms li np by (simp add: split_host_port_def join_host_port_def)
qed

end
