(* ===== verification/GoErrors.thy ===== *)
theory GoErrors
  imports GoStrings
begin

text \<open>
  Error values. A Go \<^verbatim>\<open>error\<close> is a value of \<open>goerr\<close>: the error types the client declares
  (\<^verbatim>\<open>turn_scheduler.go\<close>, \<^verbatim>\<open>flood_gate.go\<close>, \<^verbatim>\<open>handshake_classification.go\<close>, \<^verbatim>\<open>creds.go\<close>,
  \<^verbatim>\<open>creds_vkcalls.go\<close>), the errors of the \<^verbatim>\<open>context\<close> package, values of other packages that
  implement \<^verbatim>\<open>net.Error\<close>, STUN/TURN error replies, and what \<^verbatim>\<open>errors.New\<close> and
  \<^verbatim>\<open>fmt.Errorf\<close> build. \<open>err_text\<close> is \<^verbatim>\<open>Error()\<close>, \<open>unwrap\<close> is \<^verbatim>\<open>Unwrap()\<close>,
  \<open>errors_as\<close> and \<open>errors_is\<close> walk the chain of wrapped errors. A nil error is \<open>None\<close>.
\<close>

section \<open>The values\<close>

datatype goerr =
    ErrText string                             \<comment> \<open>an error that is only a text\<close>
  | Sentinel string                            \<comment> \<open>a package-level error variable\<close>
  | ErrWrap string goerr string                \<comment> \<open>\<^verbatim>\<open>fmt.Errorf("..%w..", err)\<close>\<close>
  | CtxCanceled
  | CtxDeadlineExceeded
  | NetError string bool                       \<comment> \<open>a \<^verbatim>\<open>net.Error\<close>: its text, its \<^verbatim>\<open>Timeout()\<close>\<close>
  | StunTurnError int string                   \<comment> \<open>\<^verbatim>\<open>*stun.TurnError\<close>: error code, text\<close>
  | StunAttributeNotFound                      \<comment> \<open>\<^verbatim>\<open>stun.ErrAttributeNotFound\<close>\<close>
  | DTLSHandshakeTimeoutError string string "goerr option"
  | SessionTeardownError "goerr option" "goerr option"
  | FloodControlError "goerr option" duration
  | CallUnavailableError int string
  | VkCallsFailure string string "goerr option"
  | VkCallsVKAPIError int string
  | VkCallsOKAPIError int string
  | VkCaptchaError string                      \<comment> \<open>captcha challenge: its text\<close>

section \<open>Texts\<close>

text \<open>\<^verbatim>\<open>Duration.String\<close>, used by the verb \<^verbatim>\<open>%v\<close>\<close>

definition pad_left :: "nat \<Rightarrow> string \<Rightarrow> string" where
  "pad_left n s = replicate (n - length s) (CHR ''0'') @ s"

definition frac_string :: "nat \<Rightarrow> nat \<Rightarrow> string" where
  "frac_string prec v =
     (let ds = rev (dropWhile (\<lambda>c. c = CHR ''0'') (rev (pad_left prec (nat_digits v))))
      in if ds = [] then [] else ''.'' @ ds)"

definition duration_string :: "duration \<Rightarrow> string" where
  "duration_string d =
     (let u = nat (abs d); sign = (if d < 0 then ''-'' else []) in
      sign @
      (if u = 0 then ''0s''
       else if u < 1000 then nat_digits u @ ''ns''
       else if u < 1000000 then
         nat_digits (u div 1000) @ frac_string 3 (u mod 1000) @ [CHR 0xC2, CHR 0xB5] @ ''s''
       else if u < 1000000000 then
         nat_digits (u div 1000000) @ frac_string 6 (u mod 1000000) @ ''ms''
       else
         (let s = u div 1000000000; fr = frac_string 9 (u mod 1000000000);
              secs = nat_digits (s mod 60) @ fr @ ''s''; m = s div 60 in
          if m = 0 then secs
          else if m div 60 = 0 then nat_digits (m mod 60) @ ''m'' @ secs
          else nat_digits (m div 60) @ ''h'' @ nat_digits (m mod 60) @ ''m'' @ secs)))"

text \<open>\<^verbatim>\<open>%v\<close> of an error that may be nil\<close>

definition nil_text :: string where
  "nil_text = ''<nil>''"

definition dtls_timeout_text :: "string \<Rightarrow> string" where
  "dtls_timeout_text e = ''DTLS_TIMEOUT: '' @ e"

definition flood_text :: "duration \<Rightarrow> string \<Rightarrow> string" where
  "flood_text retryAfter e =
     (if retryAfter > 0
      then ''flood control active (retry after '' @ duration_string retryAfter @ ''): '' @ e
      else ''flood control: '' @ e)"

text \<open>The Russian words for "inner end of the session" and "cause"\<close>

definition teardown_word :: string where
  "teardown_word = [CHR 0xD0, CHR 0xB2, CHR 0xD0, CHR 0xBD, CHR 0xD1, CHR 0x83, CHR 0xD1, CHR 0x82, CHR 0xD1, CHR 0x80, CHR 0xD0, CHR 0xB5, CHR 0xD0, CHR 0xBD, CHR 0xD0, CHR 0xBD, CHR 0xD0, CHR 0xB5, CHR 0xD0, CHR 0xB5] @ '' '' @ [CHR 0xD0, CHR 0xB7, CHR 0xD0, CHR 0xB0, CHR 0xD0, CHR 0xB2, CHR 0xD0, CHR 0xB5, CHR 0xD1, CHR 0x80, CHR 0xD1, CHR 0x88, CHR 0xD0, CHR 0xB5, CHR 0xD0, CHR 0xBD, CHR 0xD0, CHR 0xB8, CHR 0xD0, CHR 0xB5] @ '' '' @ [CHR 0xD1, CHR 0x81, CHR 0xD0, CHR 0xB5, CHR 0xD1, CHR 0x81, CHR 0xD1, CHR 0x81, CHR 0xD0, CHR 0xB8, CHR 0xD0, CHR 0xB8]"

definition cause_word :: string where
  "cause_word = [CHR 0xD0, CHR 0xBF, CHR 0xD1, CHR 0x80, CHR 0xD0, CHR 0xB8, CHR 0xD1, CHR 0x87, CHR 0xD0, CHR 0xB8, CHR 0xD0, CHR 0xBD, CHR 0xD0, CHR 0xB0]"

definition teardown_text :: "string option \<Rightarrow> string option \<Rightarrow> string" where
  "teardown_text handshake cause =
     (case (handshake, cause) of
        (Some h, Some c) \<Rightarrow> teardown_word @ '': '' @ h @ '' ('' @ cause_word @ '': '' @ c @ '')''
      | (None, Some c) \<Rightarrow> teardown_word @ '': '' @ c
      | (Some h, None) \<Rightarrow> teardown_word @ '': '' @ h
      | (None, None) \<Rightarrow> teardown_word)"

definition call_unavailable_text :: "int \<Rightarrow> string \<Rightarrow> string" where
  "call_unavailable_text code msg =
     (if msg \<noteq> [] then ''VK returns error: '' @ msg @ '' (error_code='' @ itoa code @ '')''
      else ''VK call is unavailable (error_code='' @ itoa code @ '')'')"

definition vkcalls_failure_text :: "string \<Rightarrow> string \<Rightarrow> string option \<Rightarrow> string" where
  "vkcalls_failure_text stp kind e =
     (case e of
        None \<Rightarrow> ''step='' @ stp @ '' kind='' @ kind
      | Some t \<Rightarrow> ''step='' @ stp @ '' kind='' @ kind @ '': '' @ t)"

definition vkapi_error_text :: "int \<Rightarrow> string \<Rightarrow> string" where
  "vkapi_error_text code msg =
     (if msg = [] then ''error_code='' @ itoa code else ''error_code='' @ itoa code @ '' '' @ msg)"

definition okapi_error_text :: "int \<Rightarrow> string \<Rightarrow> string" where
  "okapi_error_text code msg =
     (if msg = [] then ''error_code='' @ itoa code else ''error_code='' @ itoa code @ '' '' @ msg)"

fun err_text :: "goerr \<Rightarrow> string" where
  "err_text (ErrText s) = s"
| "err_text (Sentinel s) = s"
| "err_text (ErrWrap pre e post) = pre @ err_text e @ post"
| "err_text CtxCanceled = ''context canceled''"
| "err_text CtxDeadlineExceeded = ''context deadline exceeded''"
| "err_text (NetError s t) = s"
| "err_text (StunTurnError c s) = s"
| "err_text StunAttributeNotFound = ''attribute not found''"
| "err_text (DTLSHandshakeTimeoutError ep url e) =
     dtls_timeout_text (case e of None \<Rightarrow> nil_text | Some x \<Rightarrow> err_text x)"
| "err_text (SessionTeardownError h c) =
     teardown_text (map_option err_text h) (map_option err_text c)"
| "err_text (FloodControlError e d) =
     flood_text d (case e of None \<Rightarrow> nil_text | Some x \<Rightarrow> err_text x)"
| "err_text (CallUnavailableError code msg) = call_unavailable_text code msg"
| "err_text (VkCallsFailure stp kind e) = vkcalls_failure_text stp kind (map_option err_text e)"
| "err_text (VkCallsVKAPIError code msg) = vkapi_error_text code msg"
| "err_text (VkCallsOKAPIError code msg) = okapi_error_text code msg"
| "err_text (VkCaptchaError s) = s"

section \<open>Chains\<close>

text \<open>\<^verbatim>\<open>SessionTeardownError.Unwrap\<close> gives the cause when there is one.\<close>

definition teardown_unwrap :: "goerr option \<Rightarrow> goerr option \<Rightarrow> goerr option" where
  "teardown_unwrap handshake cause = (if cause \<noteq> None then cause else handshake)"

fun unwrap :: "goerr \<Rightarrow> goerr option" where
  "unwrap (ErrWrap pre e post) = Some e"
| "unwrap (DTLSHandshakeTimeoutError ep url e) = e"
| "unwrap (SessionTeardownError h c) = teardown_unwrap h c"
| "unwrap (FloodControlError e d) = e"
| "unwrap (VkCallsFailure stp kind e) = e"
| "unwrap _ = None"

lemma unwrap_size: "unwrap e = Some e' \<Longrightarrow> size e' < size e"
  by (cases e) (auto simp: teardown_unwrap_def split: if_splits)

function chain :: "goerr \<Rightarrow> goerr list" where
  "chain e = e # (case unwrap e of None \<Rightarrow> [] | Some e' \<Rightarrow> chain e')"
  by pat_completeness auto
termination
  by (relation "measure size") (auto simp: unwrap_size)

declare chain.simps [simp del]

text \<open>\<^verbatim>\<open>errors.As\<close> finds the first error of the chain of the wanted type.\<close>

definition errors_as :: "(goerr \<Rightarrow> bool) \<Rightarrow> goerr option \<Rightarrow> goerr option" where
  "errors_as P e = (case e of None \<Rightarrow> None | Some x \<Rightarrow> find P (chain x))"

definition errors_is :: "goerr option \<Rightarrow> goerr \<Rightarrow> bool" where
  "errors_is e target = (case e of None \<Rightarrow> False | Some x \<Rightarrow> target \<in> set (chain x))"

lemma chain_self: "e \<in> set (chain e)"
  by (subst chain.simps) simp

lemma chain_wrap: "chain (ErrWrap pre e post) = ErrWrap pre e post # chain e"
  by (subst chain.simps) simp

lemma errors_as_Some:
  "errors_as P e = Some x \<Longrightarrow> \<exists>y. e = Some y \<and> x \<in> set (chain y) \<and> P x"
  by (auto simp: errors_as_def find_Some_iff split: option.splits)

lemma errors_as_self: "P e \<Longrightarrow> errors_as P (Some e) = Some e"
  by (subst errors_as_def, simp, subst chain.simps) simp

lemma errors_as_wrap:
  "\<not> P (ErrWrap pre e post) \<Longrightarrow> errors_as P (Some (ErrWrap pre e post)) = errors_as P (Some e)"
  by (simp add: errors_as_def chain_wrap)

lemma err_text_wrap_contains: "contains (err_text e) w \<Longrightarrow> contains (err_text (ErrWrap pre e post)) w"
  by (simp add: contains_appendI1 contains_appendI2)

section \<open>Type tests\<close>

fun is_net_error :: "goerr \<Rightarrow> bool" where
  "is_net_error CtxDeadlineExceeded = True"
| "is_net_error (NetError s t) = True"
| "is_net_error (DTLSHandshakeTimeoutError ep url e) = True"
| "is_net_error _ = False"

fun net_timeout :: "goerr \<Rightarrow> bool" where
  "net_timeout CtxDeadlineExceeded = True"
| "net_timeout (NetError s t) = t"
| "net_timeout (DTLSHandshakeTimeoutError ep url e) = True"
| "net_timeout _ = False"

fun is_flood_error :: "goerr \<Rightarrow> bool" where
  "is_flood_error (FloodControlError e d) = True"
| "is_flood_error _ = False"

fun is_call_error :: "goerr \<Rightarrow> bool" where
  "is_call_error (CallUnavailableError c m) = True"
| "is_call_error _ = False"

fun is_turn_error :: "goerr \<Rightarrow> bool" where
  "is_turn_error (StunTurnError c s) = True"
| "is_turn_error _ = False"

fun is_dtls_timeout :: "goerr \<Rightarrow> bool" where
  "is_dtls_timeout (DTLSHandshakeTimeoutError ep url e) = True"
| "is_dtls_timeout _ = False"

fun is_captcha_error :: "goerr \<Rightarrow> bool" where
  "is_captcha_error (VkCaptchaError s) = True"
| "is_captcha_error _ = False"

definition asCallUnavailableError :: "goerr option \<Rightarrow> goerr option" where
  "asCallUnavailableError e = errors_as is_call_error e"

text \<open>\<^verbatim>\<open>isTimeoutError\<close>: a network timeout, \<^verbatim>\<open>context.DeadlineExceeded\<close> included.\<close>

definition isTimeoutError :: "goerr option \<Rightarrow> bool" where
  "isTimeoutError e =
     (case e of
        None \<Rightarrow> False
      | Some x \<Rightarrow>
          (case errors_as is_net_error e of Some ne \<Rightarrow> net_timeout ne | None \<Rightarrow> False)
          \<or> errors_is e CtxDeadlineExceeded
          \<or> contains (to_lower (err_text x)) ''deadline''
          \<or> contains (to_lower (err_text x)) ''timeout'')"

end
