(* ===== verification/TurnScheduler.thy ===== *)
theory TurnScheduler
  imports GoErrors
begin

text \<open>
  \<^verbatim>\<open>go_client/turn_scheduler.go\<close>: the process-wide planner of TURN handshakes. A state is
  the number of tokens in the global handshake channel, the table of endpoint states (a map
  from keys to heap objects, because \<^verbatim>\<open>Acquire\<close> keeps a pointer across the mutex), and the
  number of times the notification channel has been closed and replaced. Every function is
  one critical section of the source; the goroutines that run them concurrently are in
  \<open>TurnSystem\<close>.
\<close>

section \<open>Data\<close>

definition turnEndpointFailureLimit :: int where
  "turnEndpointFailureLimit = 2"

definition turnEndpointPause :: duration where
  "turnEndpointPause = 60 * second"

definition HandshakeConcurrency :: nat where
  "HandshakeConcurrency = 3"

record turnEndpointCandidate =
  c_URL :: string
  c_Endpoint :: string

datatype turnHandshakeOutcome =
  turnOutcomeOther | turnOutcomeSuccess | turnOutcomeTimeout | turnOutcomeCanceled

record turnEndpointState =
  ep_endpoint :: string
  ep_active :: int
  ep_failures :: int
  ep_lastUsed :: gotime
  ep_pausedUntil :: gotime
  ep_probing :: bool

record turnScheduler =
  ts_global :: nat
  ts_endpoints :: "(string \<times> nat) list"
  ts_heap :: "nat \<Rightarrow> turnEndpointState"
  ts_next :: nat
  ts_notify :: nat

definition new_endpoint_state :: "string \<Rightarrow> turnEndpointState" where
  "new_endpoint_state e =
     \<lparr>ep_endpoint = e, ep_active = 0, ep_failures = 0, ep_lastUsed = 0, ep_pausedUntil = 0,
      ep_probing = False\<rparr>"

definition newTurnScheduler :: turnScheduler where
  "newTurnScheduler =
     \<lparr>ts_global = 0, ts_endpoints = [], ts_heap = (\<lambda>_. new_endpoint_state []), ts_next = 0,
      ts_notify = 0\<rparr>"

definition turnEndpointKey :: "string \<Rightarrow> string" where
  "turnEndpointKey e = ''udp|'' @ to_lower e"

abbreviation cand_key :: "turnEndpointCandidate \<Rightarrow> string" where
  "cand_key c \<equiv> turnEndpointKey (c_Endpoint c)"

section \<open>Critical sections\<close>

definition ts_get :: "string \<Rightarrow> string \<Rightarrow> turnScheduler \<Rightarrow> nat \<times> turnScheduler" where
  "ts_get e key s =
     (case map_of (ts_endpoints s) key of
        Some l \<Rightarrow> (l, s)
      | None \<Rightarrow>
          (ts_next s,
           s\<lparr>ts_endpoints := (key, ts_next s) # ts_endpoints s,
             ts_heap := (ts_heap s)(ts_next s := new_endpoint_state e),
             ts_next := Suc (ts_next s)\<rparr>))"

definition stateLocked :: "string \<Rightarrow> turnScheduler \<Rightarrow> nat \<times> turnScheduler" where
  "stateLocked e s = ts_get e (turnEndpointKey e) s"

definition signalLocked :: "turnScheduler \<Rightarrow> turnScheduler" where
  "signalLocked s = s\<lparr>ts_notify := Suc (ts_notify s)\<rparr>"

definition set_state :: "nat \<Rightarrow> turnEndpointState \<Rightarrow> turnScheduler \<Rightarrow> turnScheduler" where
  "set_state l st s = s\<lparr>ts_heap := (ts_heap s)(l := st)\<rparr>"

text \<open>
  What \<^verbatim>\<open>pickLocked\<close> does to the state of one candidate: a pause for timeouts that were
  collected while the group had no alternative, and the mark of the probe when a pause has
  run out.
\<close>

definition refresh_state :: "gotime \<Rightarrow> turnEndpointState \<Rightarrow> turnEndpointState" where
  "refresh_state now st =
     (let st1 = (if ep_failures st \<ge> turnEndpointFailureLimit \<and> ep_pausedUntil st = 0
                 then st\<lparr>ep_pausedUntil := now + turnEndpointPause, ep_probing := False\<rparr>
                 else st)
      in if ep_failures st1 \<ge> turnEndpointFailureLimit \<and> ep_pausedUntil st1 \<noteq> 0
           \<and> \<not> now < ep_pausedUntil st1 \<and> \<not> ep_probing st1
         then st1\<lparr>ep_probing := True\<rparr> else st1)"

fun pick_scan ::
  "gotime \<Rightarrow> turnEndpointCandidate list \<Rightarrow> turnScheduler \<Rightarrow> turnEndpointCandidate list \<Rightarrow> gotime \<Rightarrow>
   turnScheduler \<times> turnEndpointCandidate list \<times> gotime"
where
  "pick_scan now [] s eligible earliest = (s, eligible, earliest)"
| "pick_scan now (c # cs) s eligible earliest =
     (let (l, s1) = stateLocked (c_Endpoint c) s;
          st = refresh_state now (ts_heap s1 l);
          s2 = set_state l st s1
      in if now < ep_pausedUntil st then
           pick_scan now cs s2 eligible
             (if earliest = 0 \<or> ep_pausedUntil st < earliest then ep_pausedUntil st else earliest)
         else if ep_active st > 0 then pick_scan now cs s2 eligible earliest
         else pick_scan now cs s2 (eligible @ [c]) earliest)"

text \<open>
  \<^verbatim>\<open>stateLocked(best.Endpoint).lastUsed\<close>: after the scan every candidate has a state, so the
  lookup creates nothing.
\<close>

definition last_used :: "turnScheduler \<Rightarrow> turnEndpointCandidate \<Rightarrow> gotime" where
  "last_used s c = (let (l, s') = stateLocked (c_Endpoint c) s in ep_lastUsed (ts_heap s' l))"

fun pick_best ::
  "turnScheduler \<Rightarrow> turnEndpointCandidate \<Rightarrow> turnEndpointCandidate list \<Rightarrow> turnEndpointCandidate"
where
  "pick_best s best [] = best"
| "pick_best s best (c # cs) =
     (if last_used s c < last_used s best then pick_best s c cs else pick_best s best cs)"

definition pickLocked ::
  "string \<Rightarrow> turnEndpointCandidate list \<Rightarrow> gotime \<Rightarrow> turnScheduler \<Rightarrow>
   turnScheduler \<times> turnEndpointCandidate option \<times> gotime"
where
  "pickLocked preferredKey cands now s =
     (if length cands = 1 then (s, Some (hd cands), 0)
      else
        (case pick_scan now cands s [] 0 of (s', eligible, earliestPause) \<Rightarrow>
           if eligible = [] then (s', None, earliestPause)
           else
             (case (if preferredKey = [] then None
                    else find (\<lambda>c. cand_key c = preferredKey) eligible) of
                Some c \<Rightarrow> (s', Some c, 0)
              | None \<Rightarrow> (s', Some (pick_best s' (hd eligible) (tl eligible)), 0))))"

definition preferred_key :: "string \<Rightarrow> turnEndpointCandidate list \<Rightarrow> string" where
  "preferred_key preferredURL cands =
     (case find (\<lambda>c. c_URL c = preferredURL) cands of
        Some c \<Rightarrow> cand_key c
      | None \<Rightarrow> [])"

text \<open>
  One turn of the loop of \<^verbatim>\<open>Acquire\<close> under the mutex: an endpoint is reserved (its pointer is
  kept), or the goroutine must wait for the notification channel it has read, and for a time
  when some candidate is paused.
\<close>

datatype acquire_turn =
    AcqReserved turnEndpointCandidate nat
  | AcqWait nat gotime

definition acquire_turn ::
  "string \<Rightarrow> turnEndpointCandidate list \<Rightarrow> gotime \<Rightarrow> turnScheduler \<Rightarrow> turnScheduler \<times> acquire_turn"
where
  "acquire_turn preferredURL cands now s =
     (case pickLocked (preferred_key preferredURL cands) cands now s of
        (s1, Some c, w) \<Rightarrow>
          (let (l, s2) = stateLocked (c_Endpoint c) s1;
               st = ts_heap s2 l
           in (set_state l (st\<lparr>ep_active := ep_active st + 1, ep_lastUsed := now\<rparr>) s2,
               AcqReserved c l))
      | (s1, None, w) \<Rightarrow> (s1, AcqWait (ts_notify s1) w))"

text \<open>The send to the global channel, \<open>None\<close> while it is full.\<close>

definition acquire_slot :: "turnScheduler \<Rightarrow> turnScheduler option" where
  "acquire_slot s =
     (if ts_global s < HandshakeConcurrency then Some (s\<lparr>ts_global := Suc (ts_global s)\<rparr>) else None)"

text \<open>The branch of \<^verbatim>\<open>ctx.Done()\<close> after the reservation, through the kept pointer.\<close>

definition acquire_cancel :: "nat \<Rightarrow> turnScheduler \<Rightarrow> turnScheduler" where
  "acquire_cancel l s =
     (let st = ts_heap s l in signalLocked (set_state l (st\<lparr>ep_active := ep_active st - 1\<rparr>) s))"

text \<open>\<^verbatim>\<open>finish\<close>: the receive from the global channel (\<open>None\<close> while it is empty), then the update.\<close>

definition finish_release :: "turnScheduler \<Rightarrow> turnScheduler option" where
  "finish_release s = (if ts_global s = 0 then None else Some (s\<lparr>ts_global := ts_global s - 1\<rparr>))"

definition outcome_update ::
  "gotime \<Rightarrow> bool \<Rightarrow> turnHandshakeOutcome \<Rightarrow> turnEndpointState \<Rightarrow> turnEndpointState"
where
  "outcome_update now hasAlternatives outcome st =
     (case outcome of
        turnOutcomeSuccess \<Rightarrow> st\<lparr>ep_failures := 0, ep_pausedUntil := 0, ep_probing := False\<rparr>
      | turnOutcomeTimeout \<Rightarrow>
          (let st1 = st\<lparr>ep_failures := ep_failures st + 1\<rparr>
           in if hasAlternatives \<and> ep_failures st1 \<ge> turnEndpointFailureLimit
              then st1\<lparr>ep_pausedUntil := now + turnEndpointPause, ep_probing := False\<rparr>
              else st1\<lparr>ep_probing := False\<rparr>)
      | turnOutcomeCanceled \<Rightarrow> st\<lparr>ep_probing := False\<rparr>
      | turnOutcomeOther \<Rightarrow>
          (if ep_probing st \<and> hasAlternatives
           then st\<lparr>ep_pausedUntil := now + turnEndpointPause, ep_probing := False\<rparr>
           else st\<lparr>ep_probing := False\<rparr>))"

definition finish_locked ::
  "string \<Rightarrow> bool \<Rightarrow> turnHandshakeOutcome \<Rightarrow> gotime \<Rightarrow> turnScheduler \<Rightarrow> turnScheduler"
where
  "finish_locked endpoint hasAlternatives outcome now s =
     (let (l, s1) = stateLocked endpoint s;
          st = ts_heap s1 l;
          st1 = (if ep_active st > 0 then st\<lparr>ep_active := ep_active st - 1\<rparr> else st)
      in signalLocked (set_state l (outcome_update now hasAlternatives outcome st1) s1))"

definition finish ::
  "string \<Rightarrow> bool \<Rightarrow> turnHandshakeOutcome \<Rightarrow> gotime \<Rightarrow> turnScheduler \<Rightarrow> turnScheduler option"
where
  "finish endpoint hasAlternatives outcome now s =
     map_option (finish_locked endpoint hasAlternatives outcome now) (finish_release s)"

text \<open>\<^verbatim>\<open>turnPermit.Finish\<close>: \<^verbatim>\<open>sync.Once\<close> is the flag \<open>p_done\<close>.\<close>

record turnPermit =
  p_candidate :: turnEndpointCandidate
  p_hasAlternatives :: bool
  p_done :: bool

definition permit_Finish ::
  "turnHandshakeOutcome \<Rightarrow> gotime \<Rightarrow> turnPermit \<Rightarrow> turnScheduler \<Rightarrow> (turnPermit \<times> turnScheduler) option"
where
  "permit_Finish outcome now p s =
     (if p_done p then Some (p, s)
      else map_option (\<lambda>s'. (p\<lparr>p_done := True\<rparr>, s'))
             (finish (c_Endpoint (p_candidate p)) (p_hasAlternatives p) outcome now s))"

text \<open>\<^verbatim>\<open>Reset\<close> keeps the objects that are in use, with their scores cleared.\<close>

definition reset_state :: "turnEndpointState \<Rightarrow> turnEndpointState" where
  "reset_state st = st\<lparr>ep_failures := 0, ep_pausedUntil := 0, ep_probing := False\<rparr>"

definition in_use :: "turnScheduler \<Rightarrow> string \<times> nat \<Rightarrow> bool" where
  "in_use s kl \<longleftrightarrow> ep_active (ts_heap s (snd kl)) > 0"

definition ts_Reset :: "turnScheduler \<Rightarrow> turnScheduler" where
  "ts_Reset s =
     signalLocked
       (s\<lparr>ts_endpoints := filter (in_use s) (ts_endpoints s),
          ts_heap := (\<lambda>l. if l \<in> snd ` set (filter (in_use s) (ts_endpoints s))
                          then reset_state (ts_heap s l) else ts_heap s l)\<rparr>)"

section \<open>The endpoint table as a table of pointers\<close>

definition ts_view :: "turnScheduler \<Rightarrow> string \<Rightarrow> nat option" where
  "ts_view s k = map_of (ts_endpoints s) k"

definition ts_wf :: "turnScheduler \<Rightarrow> bool" where
  "ts_wf s \<longleftrightarrow>
     distinct (map fst (ts_endpoints s)) \<and> distinct (map snd (ts_endpoints s))
     \<and> (\<forall>l \<in> snd ` set (ts_endpoints s). l < ts_next s)"

lemma ts_view_Some_iff:
  "ts_wf s \<Longrightarrow> ts_view s k = Some l \<longleftrightarrow> (k, l) \<in> set (ts_endpoints s)"
  by (simp add: ts_wf_def ts_view_def)

lemma ts_view_fresh: "ts_wf s \<Longrightarrow> ts_view s k = Some l \<Longrightarrow> l < ts_next s"
  using ts_view_Some_iff [of s k l] by (force simp: ts_wf_def)

lemma ts_view_inj: "ts_wf s \<Longrightarrow> ts_view s k = Some l \<Longrightarrow> ts_view s k' = Some l \<Longrightarrow> k = k'"
  using ts_view_Some_iff [of s k l] ts_view_Some_iff [of s k' l]
  by (force simp: ts_wf_def distinct_map inj_on_def)

lemma ts_get_wf: "ts_wf s \<Longrightarrow> ts_get e k s = (l, s') \<Longrightarrow> ts_wf s'"
  by (fastforce simp: ts_get_def ts_wf_def map_of_eq_None_iff less_Suc_eq split: option.splits)

interpretation ep_table: pointer_table "ts_get e" ts_view ts_wf
proof unfold_locales
  fix s k l assume "ts_view s k = Some l"
  then show "ts_get e k s = (l, s)" by (simp add: ts_get_def ts_view_def)
next
  fix s k l s' assume "ts_get e k s = (l, s')"
  then show "ts_view s' k = Some l"
    by (auto simp: ts_get_def ts_view_def split: option.splits)
next
  fix s k l s' k' assume "ts_get e k s = (l, s')" "k' \<noteq> k"
  then show "ts_view s' k' = ts_view s k'"
    by (auto simp: ts_get_def ts_view_def split: option.splits)
qed (fact ts_get_wf, fact ts_view_inj)

end
