(* ===== verification/TurnPick.thy ===== *)
theory TurnPick
  imports TurnScheduler
begin

text \<open>
  What \<^verbatim>\<open>pickLocked\<close> of \<^verbatim>\<open>turn_scheduler.go\<close> selects. The table is read as a map from
  keys to endpoint states (\<open>ts_state\<close>); the scan is shown to be the pointwise refresh of the
  candidates' states, its list of eligible candidates to be the available ones in order, and
  its wait the earliest end of a pause. The choice, the quarantine after timeouts and the
  wait of a goroutine that finds nothing follow.
\<close>

section \<open>States by key\<close>

definition ts_state :: "turnScheduler \<Rightarrow> string \<Rightarrow> turnEndpointState option" where
  "ts_state s k = map_option (ts_heap s) (ts_view s k)"

definition visit :: "gotime \<Rightarrow> turnEndpointCandidate \<Rightarrow> turnScheduler \<Rightarrow> turnScheduler" where
  "visit now c s =
     (let (l, s1) = stateLocked (c_Endpoint c) s
      in set_state l (refresh_state now (ts_heap s1 l)) s1)"

definition paused_at :: "gotime \<Rightarrow> turnEndpointState \<Rightarrow> bool" where
  "paused_at now st \<longleftrightarrow> now < ep_pausedUntil st"

definition available :: "gotime \<Rightarrow> turnEndpointState \<Rightarrow> bool" where
  "available now st \<longleftrightarrow> \<not> paused_at now st \<and> \<not> ep_active st > 0"

definition cand_state :: "turnScheduler \<Rightarrow> turnEndpointCandidate \<Rightarrow> turnEndpointState" where
  "cand_state s c = the (ts_state s (cand_key c))"

lemma ts_state_set_state:
  "ts_wf s \<Longrightarrow> ts_view s k0 = Some l \<Longrightarrow>
   ts_state (set_state l st s) k = (if k = k0 then Some st else ts_state s k)"
  using ts_view_inj [of s k l k0]
  by (cases "ts_view s k") (auto simp: ts_state_def set_state_def ts_view_def)

lemma ts_view_set_state [simp]: "ts_view (set_state l st s) = ts_view s"
  by (simp add: fun_eq_iff ts_view_def set_state_def)

lemma ts_wf_set_state [simp]: "ts_wf (set_state l st s) = ts_wf s"
  by (simp add: ts_wf_def set_state_def)

lemma ts_wf_signal [simp]: "ts_wf (signalLocked s) = ts_wf s"
  by (simp add: ts_wf_def signalLocked_def)

lemma ts_state_signal [simp]: "ts_state (signalLocked s) = ts_state s"
  by (simp add: fun_eq_iff ts_state_def ts_view_def signalLocked_def)

lemma ts_view_signal [simp]: "ts_view (signalLocked s) = ts_view s"
  by (simp add: fun_eq_iff ts_view_def signalLocked_def)

lemma stateLocked_view: "stateLocked e s = (l, s') \<Longrightarrow> ts_view s' (turnEndpointKey e) = Some l"
  unfolding stateLocked_def by (rule ep_table.get_view)

lemma stateLocked_wf: "ts_wf s \<Longrightarrow> stateLocked e s = (l, s') \<Longrightarrow> ts_wf s'"
  unfolding stateLocked_def by (rule ep_table.get_wf)

lemma stateLocked_mono:
  "stateLocked e s = (l, s') \<Longrightarrow> ts_view s k = Some l' \<Longrightarrow> ts_view s' k = Some l'"
  unfolding stateLocked_def by (rule ep_table.get_mono)

lemma stateLocked_frame:
  "stateLocked e s = (l, s') \<Longrightarrow> ts_global s' = ts_global s \<and> ts_notify s' = ts_notify s"
  by (auto simp: stateLocked_def ts_get_def split: option.splits)

lemma stateLocked_state:
  assumes "ts_wf s" "stateLocked e s = (l, s')"
  shows "ts_state s' k =
    (if k = turnEndpointKey e \<and> ts_state s k = None then Some (new_endpoint_state e) else ts_state s k)"
proof (cases "ts_view s (turnEndpointKey e)")
  case None
  then have s': "s' = s\<lparr>ts_endpoints := (turnEndpointKey e, ts_next s) # ts_endpoints s,
      ts_heap := (ts_heap s)(ts_next s := new_endpoint_state e), ts_next := Suc (ts_next s)\<rparr>"
    using assms(2) by (auto simp: stateLocked_def ts_get_def ts_view_def)
  have "\<And>m. ts_view s k = Some m \<Longrightarrow> m \<noteq> ts_next s"
    using assms(1) ts_view_fresh by blast
  then show ?thesis
    using None by (auto simp: s' ts_state_def ts_view_def map_option_case split: option.splits)
next
  case (Some m)
  then show ?thesis
    using assms(2) by (auto simp: stateLocked_def ts_get_def ts_state_def ts_view_def)
qed

lemma stateLocked_heap:
  assumes "ts_wf s" "stateLocked e s = (l, s')"
  shows "ts_heap s' l = (case ts_state s (turnEndpointKey e) of
            Some st \<Rightarrow> st | None \<Rightarrow> new_endpoint_state e)"
  using stateLocked_state [OF assms, of "turnEndpointKey e"] stateLocked_view [OF assms(2)]
  by (auto simp: ts_state_def split: option.splits if_splits)

text \<open>The effect of a visit on the map of states\<close>

definition state_or_new :: "turnScheduler \<Rightarrow> turnEndpointCandidate \<Rightarrow> turnEndpointState" where
  "state_or_new s c = (case ts_state s (cand_key c) of
     Some st \<Rightarrow> st | None \<Rightarrow> new_endpoint_state (c_Endpoint c))"

lemma visit_state:
  assumes "ts_wf s"
  shows "ts_state (visit now c s) k =
    (if k = cand_key c then Some (refresh_state now (state_or_new s c)) else ts_state s k)"
proof -
  obtain l s1 where st: "stateLocked (c_Endpoint c) s = (l, s1)"
    by (cases "stateLocked (c_Endpoint c) s")
  show ?thesis
    using assms stateLocked_view [OF st] stateLocked_wf [OF assms st]
      stateLocked_heap [OF assms st] stateLocked_state [OF assms st, of k]
    by (simp add: visit_def st ts_state_set_state state_or_new_def)
qed

lemma visit_wf: "ts_wf s \<Longrightarrow> ts_wf (visit now c s)"
  by (auto simp: visit_def split: prod.splits intro: stateLocked_wf)

lemma visit_frame: "ts_global (visit now c s) = ts_global s \<and> ts_notify (visit now c s) = ts_notify s"
  using stateLocked_frame by (auto simp: visit_def set_state_def split: prod.splits)

lemma visit_mono: "ts_view s k = Some l \<Longrightarrow> ts_view (visit now c s) k = Some l"
  by (auto simp: visit_def split: prod.splits intro: stateLocked_mono)

lemma refresh_idem:
  "0 < now \<Longrightarrow> refresh_state now (refresh_state now st) = refresh_state now st"
  by (auto simp: refresh_state_def turnEndpointPause_def second_def Let_def)

lemma refresh_frame [simp]:
  "ep_active (refresh_state now st) = ep_active st"
  "ep_failures (refresh_state now st) = ep_failures st"
  "ep_lastUsed (refresh_state now st) = ep_lastUsed st"
  "ep_endpoint (refresh_state now st) = ep_endpoint st"
  by (simp_all add: refresh_state_def Let_def)

lemma refresh_paused:
  "ep_pausedUntil (refresh_state now st) =
     (if ep_failures st \<ge> turnEndpointFailureLimit \<and> ep_pausedUntil st = 0
      then now + turnEndpointPause else ep_pausedUntil st)"
  by (auto simp: refresh_state_def Let_def)

lemma refresh_new: "refresh_state now (new_endpoint_state e) = new_endpoint_state e"
  by (simp add: refresh_state_def new_endpoint_state_def turnEndpointFailureLimit_def)

section \<open>The scan\<close>

lemma pick_scan_Cons:
  assumes "ts_wf s"
  shows "pick_scan now (c # cs) s eligible earliest =
     (let s2 = visit now c s; st = cand_state s2 c
      in if paused_at now st then
           pick_scan now cs s2 eligible
             (if earliest = 0 \<or> ep_pausedUntil st < earliest then ep_pausedUntil st else earliest)
         else if ep_active st > 0 then pick_scan now cs s2 eligible earliest
         else pick_scan now cs s2 (eligible @ [c]) earliest)"
proof -
  obtain l s1 where st: "stateLocked (c_Endpoint c) s = (l, s1)"
    by (cases "stateLocked (c_Endpoint c) s")
  have v: "visit now c s = set_state l (refresh_state now (ts_heap s1 l)) s1"
    by (simp add: visit_def st)
  have "cand_state (visit now c s) c = refresh_state now (ts_heap s1 l)"
    using visit_state [OF assms, of now c "cand_key c"] stateLocked_heap [OF assms st]
    by (simp add: cand_state_def state_or_new_def)
  then show ?thesis
    by (simp only: pick_scan.simps st v paused_at_def Let_def prod.case)
qed

declare pick_scan.simps(2) [simp del]

fun visit_all :: "gotime \<Rightarrow> turnEndpointCandidate list \<Rightarrow> turnScheduler \<Rightarrow> turnScheduler" where
  "visit_all now [] s = s"
| "visit_all now (c # cs) s = visit_all now cs (visit now c s)"

lemma visit_all_wf: "ts_wf s \<Longrightarrow> ts_wf (visit_all now cs s)"
  by (induction cs arbitrary: s) (auto intro: visit_wf)

lemma visit_all_frame:
  "ts_global (visit_all now cs s) = ts_global s \<and> ts_notify (visit_all now cs s) = ts_notify s"
  using visit_frame by (induction cs arbitrary: s) auto

lemma visit_all_mono: "ts_view s k = Some l \<Longrightarrow> ts_view (visit_all now cs s) k = Some l"
  by (induction cs arbitrary: s) (auto intro: visit_mono)

lemma visit_all_other:
  "ts_wf s \<Longrightarrow> k \<notin> cand_key ` set cs \<Longrightarrow> ts_state (visit_all now cs s) k = ts_state s k"
  by (induction cs arbitrary: s) (auto simp: visit_state visit_wf)

lemma visit_all_refreshed:
  "ts_wf s \<Longrightarrow> ts_state s k = Some st \<Longrightarrow> refresh_state now st = st \<Longrightarrow>
   ts_state (visit_all now cs s) k = Some st"
proof (induction cs arbitrary: s)
  case Nil
  then show ?case by simp
next
  case (Cons c cs)
  have "ts_state (visit now c s) k = Some st"
    using Cons.prems by (auto simp: visit_state state_or_new_def)
  then show ?case
    using Cons.IH [of "visit now c s"] Cons.prems by (simp add: visit_wf)
qed

lemma visit_all_state:
  assumes "ts_wf s" "0 < now" "ts_state s k = Some st"
  shows "ts_state (visit_all now cs s) k =
    Some (if k \<in> cand_key ` set cs then refresh_state now st else st)"
  using assms
proof (induction cs arbitrary: s)
  case Nil
  then show ?case by simp
next
  case (Cons c cs)
  show ?case
  proof (cases "k = cand_key c")
    case True
    then have "ts_state (visit now c s) k = Some (refresh_state now st)"
      using Cons.prems by (simp add: visit_state state_or_new_def)
    then show ?thesis
      using True Cons.prems
        visit_all_refreshed [of "visit now c s" k "refresh_state now st" now cs]
      by (simp add: refresh_idem visit_wf)
  next
    case False
    then show ?thesis
      using Cons by (simp add: visit_state visit_wf)
  qed
qed

lemma visit_all_new:
  assumes "ts_wf s" "0 < now" "ts_state s k = None" "k \<in> cand_key ` set cs"
  shows "\<exists>e. ts_state (visit_all now cs s) k = Some (new_endpoint_state e)"
  using assms
proof (induction cs arbitrary: s)
  case Nil
  then show ?case by simp
next
  case (Cons c cs)
  show ?case
  proof (cases "k = cand_key c")
    case True
    then have "ts_state (visit now c s) k = Some (new_endpoint_state (c_Endpoint c))"
      using Cons.prems by (simp add: visit_state state_or_new_def refresh_new)
    then show ?thesis
      using Cons.prems visit_all_refreshed [of "visit now c s" k _ now cs]
      by (auto simp: refresh_new visit_wf)
  next
    case False
    then show ?thesis
      using Cons by (auto simp: visit_state visit_wf)
  qed
qed

lemma visit_all_present:
  assumes "ts_wf s" "0 < now" "c \<in> set cs"
  shows "\<exists>st. ts_state (visit_all now cs s) (cand_key c) = Some st \<and> refresh_state now st = st"
proof (cases "ts_state s (cand_key c)")
  case None
  then show ?thesis
    using visit_all_new [OF assms(1,2), of "cand_key c" cs] assms(3) refresh_new by force
next
  case (Some st)
  then show ?thesis
    using visit_all_state [OF assms(1,2) Some, of cs] assms(2,3) by (auto simp: refresh_idem)
qed

lemma cand_state_visit_all:
  assumes "ts_wf s" "0 < now"
  shows "cand_state (visit_all now (c # cs) s) c = cand_state (visit now c s) c"
proof -
  have "ts_state (visit now c s) (cand_key c) = Some (refresh_state now (state_or_new s c))"
    using assms(1) by (simp add: visit_state)
  then show ?thesis
    using visit_all_refreshed [of "visit now c s" "cand_key c" _ now cs] assms
    by (simp add: cand_state_def refresh_idem visit_wf)
qed

definition earliest_of :: "gotime \<Rightarrow> gotime \<Rightarrow> gotime" where
  "earliest_of a b = (if a = 0 \<or> b < a then b else a)"

definition fold_pauses :: "gotime \<Rightarrow> turnScheduler \<Rightarrow> gotime \<Rightarrow> turnEndpointCandidate list \<Rightarrow> gotime" where
  "fold_pauses now s =
     foldl (\<lambda>a c. if paused_at now (cand_state s c)
                  then earliest_of a (ep_pausedUntil (cand_state s c)) else a)"

lemma pick_scan_eq:
  assumes "ts_wf s" "0 < now"
  shows "pick_scan now cs s eligible earliest =
    (visit_all now cs s,
     eligible @ filter (\<lambda>c. available now (cand_state (visit_all now cs s) c)) cs,
     fold_pauses now (visit_all now cs s) earliest cs)"
  using assms
proof (induction cs arbitrary: s eligible earliest)
  case Nil
  then show ?case by (simp add: fold_pauses_def)
next
  case (Cons c cs)
  have cs: "cand_state (visit_all now cs (visit now c s)) c = cand_state (visit now c s) c"
    using cand_state_visit_all [OF Cons.prems, of c cs] by simp
  show ?case
    using Cons.IH [OF visit_wf [OF Cons.prems(1)] Cons.prems(2)] cs Cons.prems
    by (simp add: pick_scan_Cons Let_def available_def fold_pauses_def earliest_of_def)
qed

section \<open>The choice\<close>

lemma last_used_eq:
  assumes "ts_wf s" "ts_state s (cand_key c) = Some st"
  shows "last_used s c = ep_lastUsed st"
proof -
  obtain l s1 where st: "stateLocked (c_Endpoint c) s = (l, s1)"
    by (cases "stateLocked (c_Endpoint c) s")
  show ?thesis
    using stateLocked_heap [OF assms(1) st] assms(2) by (simp add: last_used_def st)
qed

lemma pick_best_spec:
  "pick_best s b cs \<in> set (b # cs) \<and> (\<forall>c \<in> set (b # cs). last_used s (pick_best s b cs) \<le> last_used s c)"
proof (induction cs arbitrary: b)
  case Nil
  then show ?case by simp
next
  case (Cons c cs)
  show ?case
    using Cons.IH [of b] Cons.IH [of c] by (cases "last_used s c < last_used s b") force+
qed

lemma fold_pauses_pos:
  "0 < now \<Longrightarrow> 0 \<le> a \<Longrightarrow> 0 \<le> fold_pauses now s a cs"
  by (induction cs arbitrary: a) (auto simp: fold_pauses_def earliest_of_def paused_at_def)

lemma fold_pauses_spec:
  assumes "0 < now" "0 \<le> a"
  shows "(fold_pauses now s a cs = 0 \<longleftrightarrow> a = 0 \<and> (\<forall>c \<in> set cs. \<not> paused_at now (cand_state s c)))
    \<and> (a \<noteq> 0 \<longrightarrow> fold_pauses now s a cs \<le> a)
    \<and> (\<forall>c \<in> set cs. paused_at now (cand_state s c) \<longrightarrow>
          fold_pauses now s a cs \<le> ep_pausedUntil (cand_state s c))
    \<and> (fold_pauses now s a cs = a \<or> (\<exists>c \<in> set cs. paused_at now (cand_state s c) \<and>
          fold_pauses now s a cs = ep_pausedUntil (cand_state s c)))"
  using assms(2)
proof (induction cs arbitrary: a)
  case Nil
  then show ?case by (simp add: fold_pauses_def)
next
  case (Cons c cs)
  let ?b = "if paused_at now (cand_state s c)
            then earliest_of a (ep_pausedUntil (cand_state s c)) else a"
  have b: "0 \<le> ?b" "paused_at now (cand_state s c) \<longrightarrow> 0 < ?b \<and> ?b \<le> ep_pausedUntil (cand_state s c)"
    "a \<noteq> 0 \<longrightarrow> ?b \<le> a \<and> ?b \<noteq> 0" "?b = a \<or> paused_at now (cand_state s c) \<and> ?b = ep_pausedUntil (cand_state s c)"
    using Cons.prems assms(1) by (auto simp: earliest_of_def paused_at_def)
  have eq: "fold_pauses now s a (c # cs) = fold_pauses now s ?b cs"
    by (simp add: fold_pauses_def)
  show ?case
    unfolding eq using Cons.IH [OF b(1)] b by (auto split: if_splits)
qed

lemma cand_state_present:
  assumes "ts_wf s" "0 < now" "c \<in> set cs"
  shows "ts_state (visit_all now cs s) (cand_key c) = Some (cand_state (visit_all now cs s) c)"
  using visit_all_present [OF assms] by (auto simp: cand_state_def)

lemma last_used_visited:
  assumes "ts_wf s" "0 < now" "c \<in> set cs"
  shows "last_used (visit_all now cs s) c = ep_lastUsed (cand_state (visit_all now cs s) c)"
  using last_used_eq [OF visit_all_wf cand_state_present] assms by blast

lemma pickLocked_many:
  assumes "ts_wf s" "0 < now" "length cands \<noteq> 1"
  shows "pickLocked pk cands now s =
    (let s' = visit_all now cands s;
         eligible = filter (\<lambda>c. available now (cand_state s' c)) cands
     in if eligible = [] then (s', None, fold_pauses now s' 0 cands)
        else (case (if pk = [] then None else find (\<lambda>c. cand_key c = pk) eligible) of
                Some c \<Rightarrow> (s', Some c, 0)
              | None \<Rightarrow> (s', Some (pick_best s' (hd eligible) (tl eligible)), 0)))"
  using assms by (simp add: pickLocked_def pick_scan_eq Let_def)

lemma pick_best_least_recent:
  assumes "ts_wf s" "0 < now" "eligible \<noteq> []" "set eligible \<subseteq> set cands"
  defines "s' \<equiv> visit_all now cands s"
  defines "b \<equiv> pick_best s' (hd eligible) (tl eligible)"
  shows "b \<in> set eligible
    \<and> (\<forall>c \<in> set eligible. ep_lastUsed (cand_state s' b) \<le> ep_lastUsed (cand_state s' c))"
proof -
  have "b \<in> set eligible \<and> (\<forall>c \<in> set eligible. last_used s' b \<le> last_used s' c)"
    using pick_best_spec [of s' "hd eligible" "tl eligible"] assms(3) by (simp add: b_def)
  moreover have "\<And>c. c \<in> set eligible \<Longrightarrow> last_used s' c = ep_lastUsed (cand_state s' c)"
    unfolding s'_def using assms(1,2,4) by (intro last_used_visited) auto
  ultimately show ?thesis by metis
qed

lemma pick_selected:
  assumes "ts_wf s" "0 < now" "length cands \<noteq> 1" "pickLocked pk cands now s = (s', Some c, w)"
  shows "s' = visit_all now cands s" "c \<in> set cands" "available now (cand_state s' c)"
proof -
  let ?s = "visit_all now cands s"
  let ?el = "filter (\<lambda>c. available now (cand_state ?s c)) cands"
  have "s' = ?s \<and> c \<in> set ?el"
  proof (cases "if pk = [] then None else find (\<lambda>c. cand_key c = pk) ?el")
    case None
    then show ?thesis
      using assms(4) pick_best_least_recent [OF assms(1,2), of ?el cands]
      unfolding pickLocked_many [OF assms(1-3)] Let_def by (auto split: if_splits)
  next
    case (Some d)
    then have "d \<in> set ?el"
      by (auto split: if_splits dest: find_SomeD)
    then show ?thesis
      using assms(4) Some unfolding pickLocked_many [OF assms(1-3)] Let_def by (auto split: if_splits)
  qed
  then show "s' = visit_all now cands s" "c \<in> set cands" "available now (cand_state s' c)"
    by auto
qed

lemma pick_nothing:
  assumes "ts_wf s" "0 < now" "length cands \<noteq> 1" "pickLocked pk cands now s = (s', None, w)"
  shows "s' = visit_all now cands s" "\<forall>c \<in> set cands. \<not> available now (cand_state s' c)"
    "w = fold_pauses now s' 0 cands"
  using assms(4) unfolding pickLocked_many [OF assms(1-3)] Let_def
  by (auto split: if_splits option.splits simp: filter_empty_conv)

text \<open>
  C29. The choice of an endpoint: with several candidates, \<^verbatim>\<open>pickLocked\<close> selects a candidate
  that has no handshake in progress and no running pause; it is the candidate of the
  preferred key when that one is free, and otherwise the one that was used least recently
  among all free candidates.
\<close>

theorem pick_choice:
  assumes "ts_wf s" "0 < now" "length cands \<noteq> 1" "pickLocked pk cands now s = (s', Some c, w)"
  shows "c \<in> set cands \<and> \<not> ep_active (cand_state s' c) > 0
    \<and> \<not> now < ep_pausedUntil (cand_state s' c) \<and> w = 0
    \<and> ((pk \<noteq> [] \<and> cand_key c = pk)
       \<or> ((pk = [] \<or> (\<forall>d \<in> set cands. cand_key d = pk \<longrightarrow> \<not> available now (cand_state s' d)))
          \<and> (\<forall>d \<in> set cands. available now (cand_state s' d) \<longrightarrow>
               ep_lastUsed (cand_state s' c) \<le> ep_lastUsed (cand_state s' d))))"
proof -
  let ?s = "visit_all now cands s"
  let ?el = "filter (\<lambda>c. available now (cand_state ?s c)) cands"
  have eq: "pickLocked pk cands now s = (?s, Some c, w)" and el: "?el \<noteq> []"
    using assms(4) pick_selected [OF assms] by (auto simp: filter_empty_conv)
  show ?thesis
  proof (cases "if pk = [] then None else find (\<lambda>c. cand_key c = pk) ?el")
    case None
    then have pk: "pk = [] \<or> (\<forall>d \<in> set cands. cand_key d = pk \<longrightarrow> \<not> available now (cand_state ?s d))"
      by (auto simp: find_None_iff split: if_splits)
    have "c = pick_best ?s (hd ?el) (tl ?el)" "w = 0"
      using eq None el unfolding pickLocked_many [OF assms(1-3)] Let_def by simp_all
    then show ?thesis
      using pk pick_best_least_recent [OF assms(1,2) el, of cands] pick_selected [OF assms]
      by (auto simp: available_def paused_at_def)
  next
    case (Some d)
    then have "c = d \<and> w = 0 \<and> pk \<noteq> [] \<and> cand_key d = pk"
      using eq el unfolding pickLocked_many [OF assms(1-3)] Let_def
      by (auto split: if_splits dest: find_SomeD)
    then show ?thesis
      using pick_selected [OF assms] by (auto simp: available_def paused_at_def)
  qed
qed

text \<open>
  Nothing to select: \<^verbatim>\<open>pickLocked\<close> returns no candidate only when every candidate is busy
  or paused; the returned time is zero exactly when none of them is paused, and otherwise
  it is the earliest end of a pause, in the future.
\<close>

theorem pick_wait:
  assumes "ts_wf s" "0 < now" "length cands \<noteq> 1" "pickLocked pk cands now s = (s', None, w)"
  shows "(\<forall>c \<in> set cands. now < ep_pausedUntil (cand_state s' c) \<or> ep_active (cand_state s' c) > 0)
    \<and> (w = 0 \<longleftrightarrow> (\<forall>c \<in> set cands. \<not> now < ep_pausedUntil (cand_state s' c)))
    \<and> (w \<noteq> 0 \<longrightarrow> now < w
         \<and> (\<exists>c \<in> set cands. ep_pausedUntil (cand_state s' c) = w)
         \<and> (\<forall>c \<in> set cands. now < ep_pausedUntil (cand_state s' c) \<longrightarrow>
              w \<le> ep_pausedUntil (cand_state s' c)))"
proof -
  have busy: "\<forall>c \<in> set cands. now < ep_pausedUntil (cand_state s' c) \<or> ep_active (cand_state s' c) > 0"
    using pick_nothing(2) [OF assms] by (auto simp: available_def paused_at_def)
  have w: "w = fold_pauses now s' 0 cands"
    using pick_nothing(3) [OF assms] .
  have "(w = 0 \<longleftrightarrow> (\<forall>c \<in> set cands. \<not> paused_at now (cand_state s' c)))
    \<and> (\<forall>c \<in> set cands. paused_at now (cand_state s' c) \<longrightarrow> w \<le> ep_pausedUntil (cand_state s' c))
    \<and> (w = 0 \<or> (\<exists>c \<in> set cands. paused_at now (cand_state s' c) \<and> w = ep_pausedUntil (cand_state s' c)))"
    unfolding w using fold_pauses_spec [OF assms(2), of 0 s' cands] by auto
  then show ?thesis
    using busy by (auto simp: paused_at_def)
qed

section \<open>Scores\<close>

lemma finish_locked_state:
  assumes "ts_wf s"
  shows "ts_state (finish_locked e alt outcome now s) k =
    (if k = turnEndpointKey e then
       (let st = (case ts_state s k of Some st \<Rightarrow> st | None \<Rightarrow> new_endpoint_state e)
        in Some (outcome_update now alt outcome
             (if ep_active st > 0 then st\<lparr>ep_active := ep_active st - 1\<rparr> else st)))
     else ts_state s k)"
proof -
  obtain l s1 where st: "stateLocked e s = (l, s1)"
    by (cases "stateLocked e s")
  show ?thesis
    using assms stateLocked_view [OF st] stateLocked_wf [OF assms st]
      stateLocked_heap [OF assms st] stateLocked_state [OF assms st, of k]
    by (simp add: finish_locked_def st ts_state_set_state Let_def)
qed

lemma finish_locked_wf: "ts_wf s \<Longrightarrow> ts_wf (finish_locked e alt outcome now s)"
  by (auto simp: finish_locked_def Let_def split: prod.splits intro: stateLocked_wf)

definition two_candidates :: "turnEndpointCandidate list" where
  "two_candidates = [\<lparr>c_URL = ''turn:a:1'', c_Endpoint = ''a:1''\<rparr>, \<lparr>c_URL = ''turn:b:1'', c_Endpoint = ''b:1''\<rparr>]"

lemma two_keys: "turnEndpointKey ''a:1'' = ''udp|a:1''" "turnEndpointKey ''b:1'' = ''udp|b:1''"
  by code_simp+

lemmas sched_eval = two_keys pickLocked_def two_candidates_def pick_scan.simps stateLocked_def
  ts_get_def newTurnScheduler_def refresh_state_def new_endpoint_state_def set_state_def Let_def
  turnEndpointFailureLimit_def last_used_def acquire_turn_def preferred_key_def finish_locked_def
  outcome_update_def signalLocked_def ts_state_def ts_view_def turnEndpointPause_def second_def

theorem pick_choice_witness:
  "\<exists>s' c w. pickLocked [] two_candidates 5 newTurnScheduler = (s', Some c, w)
     \<and> c \<in> set two_candidates \<and> w = 0"
proof -
  have wf: "ts_wf newTurnScheduler"
    by (simp add: ts_wf_def newTurnScheduler_def)
  obtain s' c w where p: "pickLocked [] two_candidates 5 newTurnScheduler = (s', Some c, w)"
    by (simp add: sched_eval)
  show ?thesis
    using p pick_choice [OF wf _ _ p] by (auto simp: two_candidates_def)
qed

definition acquire_state :: "turnEndpointCandidate list \<Rightarrow> gotime \<Rightarrow> turnScheduler \<Rightarrow> turnScheduler" where
  "acquire_state cands now s = fst (acquire_turn [] cands now s)"

lemma newTurnScheduler_wf [simp]: "ts_wf newTurnScheduler"
  by (simp add: ts_wf_def newTurnScheduler_def)

lemma pickLocked_wf:
  assumes "ts_wf s" "0 < now" "pickLocked pk cands now s = (s', r)"
  shows "ts_wf s'"
proof (cases "length cands = 1")
  case True
  then show ?thesis using assms by (simp add: pickLocked_def)
next
  case False
  then have "s' = visit_all now cands s"
    using assms(3) unfolding pickLocked_many [OF assms(1,2) False] Let_def
    by (auto split: option.splits if_splits)
  then show ?thesis by (simp add: visit_all_wf assms(1))
qed

lemma acquire_turn_wf:
  assumes "ts_wf s" "0 < now" "acquire_turn pref cands now s = (s', r)"
  shows "ts_wf s'"
  using assms pickLocked_wf [OF assms(1,2)] stateLocked_wf
  by (fastforce simp: acquire_turn_def Let_def split: prod.splits option.splits)

lemma acquire_state_wf: "ts_wf s \<Longrightarrow> 0 < now \<Longrightarrow> ts_wf (acquire_state cands now s)"
  unfolding acquire_state_def by (metis acquire_turn_wf prod.collapse)

theorem pick_wait_witness:
  "\<exists>s'. pickLocked [] two_candidates 7
      (acquire_state two_candidates 6 (acquire_state two_candidates 5 newTurnScheduler)) = (s', None, 0)
    \<and> (\<forall>c \<in> set two_candidates. ep_active (cand_state s' c) > 0)"
proof -
  let ?s = "acquire_state two_candidates 6 (acquire_state two_candidates 5 newTurnScheduler)"
  have wf: "ts_wf ?s"
    by (simp add: acquire_state_wf)
  have "snd (pickLocked [] two_candidates 7 ?s) = (None, 0)"
    by (simp add: acquire_state_def sched_eval)
  then obtain s' where p: "pickLocked [] two_candidates 7 ?s = (s', None, 0)"
    by (metis prod.collapse)
  show ?thesis
    using p pick_wait [OF wf _ _ p] by (auto simp: two_candidates_def)
qed

text \<open>
  The critical sections of the scheduler, as operations that goroutines may run in any order: \<open>OpAcquire\<close> is one turn of
  \<^verbatim>\<open>Acquire\<close>, \<open>OpCancel\<close> its branch for a cancelled context, \<open>OpFinish\<close> the end of \<^verbatim>\<open>finish\<close> with the time it reads.
\<close>

datatype sched_op =
    OpAcquire string "turnEndpointCandidate list" gotime
  | OpCancel nat
  | OpSlot
  | OpRelease
  | OpFinish string bool turnHandshakeOutcome gotime
  | OpReset
  | OpSignal

fun apply_op :: "sched_op \<Rightarrow> turnScheduler \<Rightarrow> turnScheduler" where
  "apply_op (OpAcquire preferred cands now) s = fst (acquire_turn preferred cands now s)"
| "apply_op (OpCancel l) s = acquire_cancel l s"
| "apply_op OpSlot s = (case acquire_slot s of Some s' \<Rightarrow> s' | None \<Rightarrow> s)"
| "apply_op OpRelease s = (case finish_release s of Some s' \<Rightarrow> s' | None \<Rightarrow> s)"
| "apply_op (OpFinish e alt outcome now) s = finish_locked e alt outcome now s"
| "apply_op OpReset s = ts_Reset s"
| "apply_op OpSignal s = signalLocked s"

text \<open>The operations after the time \<open>t\<close> that do not clear the score of an endpoint: no reset and no success of its own\<close>

fun keeps_score :: "string \<Rightarrow> gotime \<Rightarrow> sched_op \<Rightarrow> bool" where
  "keeps_score e t (OpAcquire preferred cands now) \<longleftrightarrow> 0 < now"
| "keeps_score e t (OpFinish e' alt outcome now) \<longleftrightarrow>
     t \<le> now \<and> \<not> (turnEndpointKey e' = turnEndpointKey e \<and> outcome = turnOutcomeSuccess)"
| "keeps_score e t OpReset \<longleftrightarrow> False"
| "keeps_score e t op \<longleftrightarrow> True"

definition paused_for :: "string \<Rightarrow> gotime \<Rightarrow> turnScheduler \<Rightarrow> bool" where
  "paused_for k u s \<longleftrightarrow> ts_wf s \<and> (\<exists>st. ts_state s k = Some st \<and> u \<le> ep_pausedUntil st)"

lemma paused_forI: "ts_wf s \<Longrightarrow> ts_state s k = Some st \<Longrightarrow> u \<le> ep_pausedUntil st \<Longrightarrow> paused_for k u s"
  by (auto simp: paused_for_def)

lemma paused_for_global: "paused_for k u (s\<lparr>ts_global := n\<rparr>) = paused_for k u s"
  by (simp add: paused_for_def ts_wf_def ts_state_def ts_view_def)

lemma paused_for_signal: "paused_for k u (signalLocked s) = paused_for k u s"
  by (simp add: paused_for_def)

lemma paused_for_visit:
  assumes "paused_for k u s" "0 < u" "0 < now"
  shows "paused_for k u (visit_all now cands s)"
proof -
  obtain st where st: "ts_wf s" "ts_state s k = Some st" "u \<le> ep_pausedUntil st"
    using assms(1) by (auto simp: paused_for_def)
  then show ?thesis
    using visit_all_state [OF st(1) assms(3) st(2), of cands] assms(2) visit_all_wf [OF st(1), of now cands]
    by (auto simp: refresh_paused intro!: paused_forI)
qed

lemma paused_for_pick:
  assumes "paused_for k u s" "0 < u" "0 < now" "pickLocked pk cands now s = (s', r)"
  shows "paused_for k u s'"
proof (cases "length cands = 1")
  case True
  then show ?thesis
    using assms by (simp add: pickLocked_def)
next
  case False
  have wf: "ts_wf s"
    using assms(1) by (simp add: paused_for_def)
  have "s' = visit_all now cands s"
    using assms(4) unfolding pickLocked_many [OF wf assms(3) False] Let_def by (auto split: option.splits if_splits)
  then show ?thesis
    using paused_for_visit assms by simp
qed

lemma paused_for_reserve:
  assumes "paused_for k u s" "stateLocked e s = (l, s1)"
  shows "paused_for k u (set_state l ((ts_heap s1 l)\<lparr>ep_active := n, ep_lastUsed := now\<rparr>) s1)"
proof -
  obtain st where st: "ts_wf s" "ts_state s k = Some st" "u \<le> ep_pausedUntil st"
    using assms(1) by (auto simp: paused_for_def)
  have wf: "ts_wf s1" and v: "ts_view s1 (turnEndpointKey e) = Some l" and k: "ts_state s1 k = Some st"
    using stateLocked_wf [OF st(1) assms(2)] stateLocked_view [OF assms(2)] stateLocked_state [OF st(1) assms(2), of k] st(2)
    by auto
  show ?thesis
  proof (cases "k = turnEndpointKey e")
    case True
    then have "ts_heap s1 l = st"
      using k v by (simp add: ts_state_def)
    then show ?thesis
      using True st(3) wf by (simp add: paused_for_def ts_state_set_state [OF wf v])
  next
    case False
    then show ?thesis
      using st(3) k wf by (simp add: paused_for_def ts_state_set_state [OF wf v])
  qed
qed

lemma paused_for_op:
  assumes "paused_for (turnEndpointKey e) (t + turnEndpointPause) s" "0 < t" "keeps_score e t op"
  shows "paused_for (turnEndpointKey e) (t + turnEndpointPause) (apply_op op s)"
proof (cases op)
  case (OpAcquire preferred cands now)
  obtain s1 r where p: "pickLocked (preferred_key preferred cands) cands now s = (s1, r)"
    by (cases "pickLocked (preferred_key preferred cands) cands now s")
  have s1: "paused_for (turnEndpointKey e) (t + turnEndpointPause) s1"
    by (rule paused_for_pick [OF assms(1) _ _ p]) (use OpAcquire assms(2,3) in \<open>simp_all add: turnEndpointPause_def second_def\<close>)
  show ?thesis
    using OpAcquire s1 paused_for_reserve [OF s1] p
    by (auto simp: acquire_turn_def Let_def split: prod.splits option.splits)
next
  case (OpCancel l)
  have wf: "ts_wf (acquire_cancel l s)"
    using assms(1) by (simp add: acquire_cancel_def Let_def paused_for_def)
  obtain z where z: "ts_view s (turnEndpointKey e) = Some z" "t + turnEndpointPause \<le> ep_pausedUntil (ts_heap s z)"
    using assms(1) by (auto simp: paused_for_def ts_state_def)
  have "ts_state (acquire_cancel l s) (turnEndpointKey e) = Some (ts_heap (acquire_cancel l s) z)"
    using z(1) by (simp add: ts_state_def acquire_cancel_def Let_def signalLocked_def set_state_def ts_view_def)
  moreover have "ep_pausedUntil (ts_heap (acquire_cancel l s) z) = ep_pausedUntil (ts_heap s z)"
    by (simp add: acquire_cancel_def Let_def signalLocked_def set_state_def)
  ultimately show ?thesis
    using OpCancel z(2) wf by (simp add: paused_for_def)
next
  case (OpFinish e' alt outcome now)
  obtain st where st: "ts_wf s" "ts_state s (turnEndpointKey e) = Some st" "t + turnEndpointPause \<le> ep_pausedUntil st"
    using assms(1) by (auto simp: paused_for_def)
  have u: "t + turnEndpointPause \<le> ep_pausedUntil (outcome_update now alt outcome x)"
    if "ep_pausedUntil x = ep_pausedUntil st" "turnEndpointKey e' = turnEndpointKey e" for x
    using that st(3) assms(3) OpFinish by (cases outcome) (simp_all add: outcome_update_def Let_def)
  show ?thesis
    using st u assms(3) OpFinish finish_locked_wf [OF st(1)]
    by (auto simp: paused_for_def finish_locked_state [OF st(1)] Let_def)
qed (use assms in \<open>simp_all add: acquire_slot_def finish_release_def paused_for_global paused_for_signal\<close>)

text \<open>
  C30. Quarantine: when a handshake of an endpoint ends with a timeout while the group has
  alternatives and the endpoint had one timeout before, then for the next 60 seconds no
  choice among several candidates returns that endpoint, whatever the preference and whatever goroutines do with the scheduler
  in the meantime: turns of \<^verbatim>\<open>Acquire\<close>, cancellations, slots, and the ends of other handshakes. Two things end the quarantine
  earlier and are excluded: a reset of the scheduler, and the success of another handshake with the same endpoint that
  was still under way.
\<close>

theorem timeout_quarantine:
  assumes "ts_wf s" "ts_state s (turnEndpointKey e) = Some st" "1 \<le> ep_failures st" "0 < t"
    and "\<forall>op \<in> set ops. keeps_score e t op"
    and "s1 = fold apply_op ops (finish_locked e True turnOutcomeTimeout t s)"
    and "0 < now" "now < t + turnEndpointPause" "length cands \<noteq> 1"
    and "pickLocked pk cands now s1 = (s2, Some c, w)"
  shows "cand_key c \<noteq> turnEndpointKey e"
proof
  assume c: "cand_key c = turnEndpointKey e"
  let ?u = "t + turnEndpointPause"
  have "\<exists>st0. ts_state (finish_locked e True turnOutcomeTimeout t s) (turnEndpointKey e) = Some st0
      \<and> ep_pausedUntil st0 = ?u"
    using assms(2,3)
    by (simp add: finish_locked_state [OF assms(1)] outcome_update_def Let_def turnEndpointFailureLimit_def)
  then have "paused_for (turnEndpointKey e) ?u (finish_locked e True turnOutcomeTimeout t s)"
    using finish_locked_wf [OF assms(1)] by (auto intro: paused_forI)
  then have s1: "paused_for (turnEndpointKey e) ?u s1"
    unfolding assms(6) using assms(5)
    by (induction ops arbitrary: s rule: rev_induct) (simp_all add: paused_for_op [OF _ assms(4)])
  then have wf: "ts_wf s1"
    by (simp add: paused_for_def)
  have "0 < ?u"
    using assms(7,8) by linarith
  then have "paused_for (turnEndpointKey e) ?u s2"
    using paused_for_pick [OF s1 _ assms(7,10)] by simp
  then have "?u \<le> ep_pausedUntil (cand_state s2 c)"
    using c by (auto simp: paused_for_def cand_state_def)
  then show False
    using pick_selected(3) [OF wf assms(7,9,10)] assms(8) by (simp add: available_def paused_at_def)
qed

theorem timeout_quarantine_witness:
  "\<exists>s2 c w. pickLocked ''udp|a:1'' two_candidates 10
      (fold apply_op [OpSlot, OpFinish ''a:1'' True turnOutcomeOther 9]
        (finish_locked ''a:1'' True turnOutcomeTimeout 8
          (finish_locked ''a:1'' True turnOutcomeTimeout 7
            (acquire_state two_candidates 5 newTurnScheduler)))) = (s2, Some c, w)
    \<and> cand_key c \<noteq> turnEndpointKey ''a:1''"
proof -
  let ?s = "finish_locked ''a:1'' True turnOutcomeTimeout 7 (acquire_state two_candidates 5 newTurnScheduler)"
  let ?ops = "[OpSlot, OpFinish ''a:1'' True turnOutcomeOther 9]"
  let ?s1 = "fold apply_op ?ops (finish_locked ''a:1'' True turnOutcomeTimeout 8 ?s)"
  have wf: "ts_wf ?s"
    by (simp add: acquire_state_wf finish_locked_wf)
  have f: "map_option ep_failures (ts_state ?s (turnEndpointKey ''a:1'')) = Some 1"
    by (simp add: acquire_state_def sched_eval)
  then obtain st where st: "ts_state ?s (turnEndpointKey ''a:1'') = Some st" "1 \<le> ep_failures st"
    by auto
  have ops: "\<forall>op \<in> set ?ops. keeps_score ''a:1'' 8 op"
    by simp
  have "fst (snd (pickLocked ''udp|a:1'' two_candidates 10 ?s1)) \<noteq> None"
    by (simp add: acquire_state_def sched_eval acquire_slot_def HandshakeConcurrency_def)
  then obtain s2 c w where p: "pickLocked ''udp|a:1'' two_candidates 10 ?s1 = (s2, Some c, w)"
    by (metis option.collapse prod.collapse)
  show ?thesis
    using p timeout_quarantine [OF wf st _ ops refl _ _ _ p]
    by (auto simp: two_candidates_def turnEndpointPause_def second_def)
qed

text \<open>
  The probe after a pause: when the pause of an endpoint has run out, the next choice
  marks it as a probe; a probe that fails for another reason than a timeout, or with one more
  timeout, is paused for a further 60 seconds, a cancelled one leaves the end of its pause
  where it was, and a successful one clears the score.
\<close>

theorem probe_outcomes:
  assumes "ts_wf s" "0 < now" "c \<in> set cands" "length cands \<noteq> 1"
    and "ts_state s (cand_key c) = Some st" "turnEndpointFailureLimit \<le> ep_failures st"
    and "ep_pausedUntil st \<noteq> 0" "ep_pausedUntil st \<le> now"
    and "s1 = fst (pickLocked pk cands now s)" "now \<le> t"
  shows "(\<exists>st1. ts_state s1 (cand_key c) = Some st1 \<and> ep_probing st1
             \<and> ep_pausedUntil st1 = ep_pausedUntil st \<and> ep_active st1 = ep_active st)
    \<and> map_option ep_pausedUntil (ts_state (finish_locked (c_Endpoint c) True turnOutcomeOther t s1) (cand_key c))
        = Some (t + turnEndpointPause)
    \<and> map_option ep_pausedUntil (ts_state (finish_locked (c_Endpoint c) True turnOutcomeTimeout t s1) (cand_key c))
        = Some (t + turnEndpointPause)
    \<and> map_option ep_pausedUntil (ts_state (finish_locked (c_Endpoint c) True turnOutcomeCanceled t s1) (cand_key c))
        = Some (ep_pausedUntil st)
    \<and> map_option (\<lambda>x. (ep_failures x, ep_pausedUntil x, ep_probing x))
        (ts_state (finish_locked (c_Endpoint c) True turnOutcomeSuccess t s1) (cand_key c))
        = Some (0, 0, False)"
proof -
  have s1: "s1 = visit_all now cands s"
    unfolding assms(9) pickLocked_many [OF assms(1,2,4)] Let_def by (simp split: option.splits)
  define st1 where "st1 = refresh_state now st"
  have st1: "ts_state s1 (cand_key c) = Some st1"
    using visit_all_state [OF assms(1,2,5), of cands] assms(3) by (simp add: s1 st1_def)
  have p: "ep_probing st1 \<and> ep_pausedUntil st1 = ep_pausedUntil st \<and> ep_active st1 = ep_active st
      \<and> ep_failures st1 = ep_failures st"
    using assms(6-8) by (auto simp: st1_def refresh_state_def Let_def)
  have wf: "ts_wf s1"
    by (simp add: s1 visit_all_wf assms(1))
  have fin: "ts_state (finish_locked (c_Endpoint c) True out t s1) (cand_key c)
      = Some (outcome_update t True out
          (if ep_active st1 > 0 then st1\<lparr>ep_active := ep_active st1 - 1\<rparr> else st1))" for out
    by (simp only: finish_locked_state [OF wf] st1 option.case Let_def if_True simp_thms)
  define st2 where "st2 = (if ep_active st1 > 0 then st1\<lparr>ep_active := ep_active st1 - 1\<rparr> else st1)"
  have st2: "ep_probing st2 \<and> ep_pausedUntil st2 = ep_pausedUntil st \<and> ep_failures st2 = ep_failures st"
    using p by (simp add: st2_def)
  have "ep_pausedUntil (outcome_update t True turnOutcomeOther st2) = t + turnEndpointPause"
    "ep_pausedUntil (outcome_update t True turnOutcomeTimeout st2) = t + turnEndpointPause"
    "ep_pausedUntil (outcome_update t True turnOutcomeCanceled st2) = ep_pausedUntil st"
    "ep_failures (outcome_update t True turnOutcomeSuccess st2) = 0"
    "ep_pausedUntil (outcome_update t True turnOutcomeSuccess st2) = 0"
    "\<not> ep_probing (outcome_update t True turnOutcomeSuccess st2)"
    using st2 assms(6) by (simp_all add: outcome_update_def Let_def)
  then show ?thesis
    using p st1 unfolding fin st2_def [symmetric] by simp
qed

theorem probe_outcomes_witness:
  "\<exists>s st1. ts_state (fst (pickLocked [] two_candidates (60 * second + 10) s)) (turnEndpointKey ''a:1'') = Some st1
     \<and> ep_probing st1 \<and> ep_pausedUntil st1 = 60 * second + 8"
proof -
  let ?s = "finish_locked ''a:1'' True turnOutcomeTimeout 8 (finish_locked ''a:1'' True turnOutcomeTimeout 7
      (acquire_state two_candidates 5 newTurnScheduler))"
  let ?c = "\<lparr>c_URL = ''turn:a:1'', c_Endpoint = ''a:1''\<rparr>"
  have wf: "ts_wf ?s"
    by (simp add: acquire_state_wf finish_locked_wf)
  have "map_option (\<lambda>x. (ep_failures x, ep_pausedUntil x)) (ts_state ?s (cand_key ?c)) = Some (2, 60 * second + 8)"
    by (simp add: acquire_state_def sched_eval)
  then obtain st where st: "ts_state ?s (cand_key ?c) = Some st"
    "turnEndpointFailureLimit \<le> ep_failures st" "ep_pausedUntil st \<noteq> 0" "ep_pausedUntil st \<le> 60 * second + 10"
    and u: "ep_pausedUntil st = 60 * second + 8"
    by (auto simp: turnEndpointFailureLimit_def second_def)
  have "?c \<in> set two_candidates" "length two_candidates \<noteq> 1" "0 < 60 * second + 10"
    by (simp_all add: two_candidates_def second_def)
  then show ?thesis
    using probe_outcomes [OF wf _ _ _ st refl, of two_candidates "60 * second + 10" "[]"] u
    by auto
qed

end
