(* ===== verification/TurnCandidates.thy ===== *)
theory TurnCandidates
  imports TurnPick "HOL-Library.List_Lexorder" "HOL-Library.Char_ord"
begin

text \<open>
  The functions of \<^verbatim>\<open>turn_scheduler.go\<close> that turn the TURN URLs of the credentials into
  candidates: \<^verbatim>\<open>buildTurnEndpointCandidates\<close> with the overrides \<^verbatim>\<open>-turn\<close>/\<^verbatim>\<open>-port\<close>,
  \<^verbatim>\<open>nextUniqueTurnURL\<close>, which a worker uses after a \<^verbatim>\<open>DTLS_TIMEOUT\<close>, and \<^verbatim>\<open>Snapshot\<close>.
  The lemmas show that an address appears once among the candidates however its URLs are
  spelt, that the next URL always leads to another address, and that following it visits
  every address of the group before it returns to the first.
\<close>

section \<open>Candidates\<close>

text \<open>\<^verbatim>\<open>TurnParams\<close> (\<^verbatim>\<open>group.go\<close>); keys are lists of bytes.\<close>

record TurnParams =
  tp_Host :: string
  tp_Port :: string
  tp_Hashes :: "string list"
  tp_WrapKey :: "nat list"
  tp_ObfsMode :: string
  tp_HandshakeTimeout :: duration

definition turn_address :: "string \<Rightarrow> string" where
  "turn_address raw =
     trim_prefix (trim_prefix (hd (split_at (CHR ''?'') raw)) ''turn:'') ''turns:''"

definition override_host :: "TurnParams option \<Rightarrow> string \<Rightarrow> string" where
  "override_host tp h = (case tp of None \<Rightarrow> h | Some p \<Rightarrow> if tp_Host p \<noteq> [] then tp_Host p else h)"

definition override_port :: "TurnParams option \<Rightarrow> string \<Rightarrow> string" where
  "override_port tp q = (case tp of None \<Rightarrow> q | Some p \<Rightarrow> if tp_Port p \<noteq> [] then tp_Port p else q)"

definition bad_url_error :: "string \<Rightarrow> string \<Rightarrow> string \<Rightarrow> goerr" where
  "bad_url_error raw addr why =
     ErrWrap ([CHR 0xD1, CHR 0x80, CHR 0xD0, CHR 0xB0, CHR 0xD0, CHR 0xB7, CHR 0xD0, CHR 0xB1, CHR 0xD0, CHR 0xBE, CHR 0xD1, CHR 0x80] @ '' TURN URL '' @ go_quote raw @ '': '') (ErrText (addr_error_text addr why)) []"

fun build_loop ::
  "TurnParams option \<Rightarrow> string list \<Rightarrow> string set \<Rightarrow> turnEndpointCandidate list \<Rightarrow>
   goerr + turnEndpointCandidate list"
where
  "build_loop tp [] seen acc = Inr acc"
| "build_loop tp (u # us) seen acc =
     (let raw = trim_space u
      in if raw = [] then build_loop tp us seen acc
         else
           (case split_host_port (turn_address raw) of
              Inl why \<Rightarrow> Inl (bad_url_error raw (turn_address raw) why)
            | Inr (h, q) \<Rightarrow>
                (let endpoint = join_host_port (override_host tp h) (override_port tp q);
                     key = turnEndpointKey endpoint
                 in if key \<in> seen then build_loop tp us seen acc
                    else build_loop tp us (insert key seen)
                           (acc @ [\<lparr>c_URL = raw, c_Endpoint = endpoint\<rparr>]))))"

definition no_url_error :: goerr where
  "no_url_error = ErrText ([CHR 0xD0, CHR 0xBD, CHR 0xD0, CHR 0xB5, CHR 0xD1, CHR 0x82] @ '' TURN URL '' @ [CHR 0xD0, CHR 0xB2] @ '' '' @ [CHR 0xD1, CHR 0x83, CHR 0xD1, CHR 0x87, CHR 0xD0, CHR 0xB5, CHR 0xD1, CHR 0x82, CHR 0xD0, CHR 0xBD, CHR 0xD1, CHR 0x8B, CHR 0xD1, CHR 0x85] @ '' '' @ [CHR 0xD0, CHR 0xB4, CHR 0xD0, CHR 0xB0, CHR 0xD0, CHR 0xBD, CHR 0xD0, CHR 0xBD, CHR 0xD1, CHR 0x8B, CHR 0xD1, CHR 0x85])"

definition buildTurnEndpointCandidates ::
  "string list \<Rightarrow> TurnParams option \<Rightarrow> goerr + turnEndpointCandidate list"
where
  "buildTurnEndpointCandidates urls tp =
     (case build_loop tp urls {} [] of
        Inl e \<Rightarrow> Inl e
      | Inr cands \<Rightarrow> if cands = [] then Inl no_url_error else Inr cands)"

section \<open>The next address\<close>

fun find_index :: "('a \<Rightarrow> bool) \<Rightarrow> 'a list \<Rightarrow> nat option" where
  "find_index P [] = None"
| "find_index P (x # xs) = (if P x then Some 0 else map_option Suc (find_index P xs))"

definition url_or_empty :: "turnEndpointCandidate option \<Rightarrow> string" where
  "url_or_empty c = (case c of None \<Rightarrow> [] | Some x \<Rightarrow> c_URL x)"

definition next_from :: "turnEndpointCandidate list \<Rightarrow> string \<Rightarrow> turnEndpointCandidate option" where
  "next_from cands cur =
     (case find_index (\<lambda>c. equal_fold (c_Endpoint c) cur) cands of
        None \<Rightarrow> find (\<lambda>c. \<not> equal_fold (c_Endpoint c) cur) cands
      | Some i \<Rightarrow>
          find (\<lambda>c. \<not> equal_fold (c_Endpoint c) cur)
            (map (\<lambda>k. cands ! ((i + k) mod length cands)) [1 ..< length cands]))"

definition nextUniqueTurnURL :: "string list \<Rightarrow> TurnParams option \<Rightarrow> string \<Rightarrow> string" where
  "nextUniqueTurnURL urls tp cur =
     (case buildTurnEndpointCandidates urls tp of
        Inl e \<Rightarrow> []
      | Inr cands \<Rightarrow> if length cands < 2 then [] else url_or_empty (next_from cands cur))"

section \<open>Acquire without candidates, Snapshot\<close>

text \<open>\<^verbatim>\<open>Acquire\<close> refuses an empty list before its loop.\<close>

definition acquire_guard :: "turnEndpointCandidate list \<Rightarrow> goerr option" where
  "acquire_guard cands = (if cands = [] then Some (ErrText ([CHR 0xD0, CHR 0xBD, CHR 0xD0, CHR 0xB5, CHR 0xD1, CHR 0x82] @ '' TURN endpoint'')) else None)"

record turnEndpointSnapshot =
  sn_Endpoint :: string
  sn_Active :: int
  sn_Failures :: int
  sn_PausedUntil :: gotime
  sn_Probing :: bool

definition snapshot_of :: "turnEndpointState \<Rightarrow> turnEndpointSnapshot" where
  "snapshot_of st =
     \<lparr>sn_Endpoint = ep_endpoint st, sn_Active = ep_active st, sn_Failures = ep_failures st,
      sn_PausedUntil = ep_pausedUntil st, sn_Probing = ep_probing st\<rparr>"

definition Snapshot :: "turnScheduler \<Rightarrow> turnEndpointSnapshot list" where
  "Snapshot s =
     sort_key sn_Endpoint (map (\<lambda>kl. snapshot_of (ts_heap s (snd kl))) (ts_endpoints s))"

section \<open>Properties of the candidates\<close>

text \<open>The candidate of one URL, when it is well formed.\<close>

definition url_candidate :: "TurnParams option \<Rightarrow> string \<Rightarrow> turnEndpointCandidate option" where
  "url_candidate tp u =
     (let raw = trim_space u in
      if raw = [] then None
      else (case split_host_port (turn_address raw) of
              Inl why \<Rightarrow> None
            | Inr (h, q) \<Rightarrow>
                Some \<lparr>c_URL = raw, c_Endpoint = join_host_port (override_host tp h) (override_port tp q)\<rparr>))"

lemma build_loop_step:
  assumes "build_loop tp (u # us) seen acc = Inr cands"
  shows "(case url_candidate tp u of
            None \<Rightarrow> build_loop tp us seen acc
          | Some c \<Rightarrow> if cand_key c \<in> seen then build_loop tp us seen acc
                      else build_loop tp us (insert (cand_key c) seen) (acc @ [c])) = Inr cands"
  using assms by (auto simp: Let_def url_candidate_def split: if_splits sum.splits prod.splits)

declare build_loop.simps(2) [simp del]

lemma build_loop_induct [consumes 1, case_names Nil Skip Dup New]:
  assumes "build_loop tp us seen acc = Inr cands"
    and "\<And>seen acc. acc = cands \<Longrightarrow> P [] seen acc"
    and "\<And>u us seen acc. url_candidate tp u = None \<Longrightarrow> P us seen acc \<Longrightarrow> P (u # us) seen acc"
    and "\<And>u us seen acc c. url_candidate tp u = Some c \<Longrightarrow> cand_key c \<in> seen \<Longrightarrow> P us seen acc \<Longrightarrow>
           P (u # us) seen acc"
    and "\<And>u us seen acc c. url_candidate tp u = Some c \<Longrightarrow> cand_key c \<notin> seen \<Longrightarrow>
           P us (insert (cand_key c) seen) (acc @ [c]) \<Longrightarrow> P (u # us) seen acc"
  shows "P us seen acc"
  using assms(1)
proof (induction us arbitrary: seen acc)
  case Nil
  then show ?case using assms(2) by simp
next
  case (Cons u us)
  show ?case
    using build_loop_step [OF Cons.prems] Cons.IH assms(3-5)
    by (cases "url_candidate tp u") (auto split: if_splits)
qed

lemma build_loop_distinct:
  assumes "build_loop tp us seen acc = Inr cands"
  shows "distinct (map cand_key acc) \<longrightarrow> seen = cand_key ` set acc \<longrightarrow> distinct (map cand_key cands)"
  using assms by (induction rule: build_loop_induct) auto

lemma build_loop_from_urls:
  assumes "build_loop tp us seen acc = Inr cands"
  shows "set cands \<subseteq> set acc \<union> {c. \<exists>u \<in> set us. url_candidate tp u = Some c}"
  using assms by (induction rule: build_loop_induct) auto

lemma build_loop_covers:
  assumes "build_loop tp us seen acc = Inr cands"
  shows "seen = cand_key ` set acc \<longrightarrow> set acc \<subseteq> set cands
    \<and> (\<forall>u \<in> set us. \<forall>c. url_candidate tp u = Some c \<longrightarrow> cand_key c \<in> cand_key ` set cands)"
  using assms by (induction rule: build_loop_induct) (force+)

text \<open>
  The candidates of a group: a result of \<^verbatim>\<open>buildTurnEndpointCandidates\<close> is not empty, no
  two of its candidates share an endpoint key (so one address spelt in two ways, or reached
  by the overrides from several URLs, counts once), every candidate comes from one of the
  URLs, and every URL's address is among them.
\<close>

theorem candidates_unique_complete:
  assumes "buildTurnEndpointCandidates urls tp = Inr cands"
  shows "cands \<noteq> [] \<and> distinct (map cand_key cands)
    \<and> set cands \<subseteq> {c. \<exists>u \<in> set urls. url_candidate tp u = Some c}
    \<and> (\<forall>u \<in> set urls. \<forall>c. url_candidate tp u = Some c \<longrightarrow> cand_key c \<in> cand_key ` set cands)"
proof -
  have b: "build_loop tp urls {} [] = Inr cands" and ne: "cands \<noteq> []"
    using assms by (auto simp: buildTurnEndpointCandidates_def split: sum.splits if_splits)
  show ?thesis
    using ne build_loop_distinct [OF b] build_loop_from_urls [OF b] build_loop_covers [OF b] by simp
qed

theorem candidates_unique_complete_witness:
  "\<exists>cands. buildTurnEndpointCandidates
      [''turn:Host.example:3478?transport=udp'', ''  '', ''turns:host.EXAMPLE:3478'', ''turn:b:9''] None = Inr cands
     \<and> length cands = 2 \<and> distinct (map cand_key cands)"
proof -
  let ?u = "[''turn:Host.example:3478?transport=udp'', ''  '', ''turns:host.EXAMPLE:3478'', ''turn:b:9'']"
  have "case buildTurnEndpointCandidates ?u None of Inl e \<Rightarrow> False | Inr cs \<Rightarrow> length cs = 2"
    by code_simp
  then obtain cs where b: "buildTurnEndpointCandidates ?u None = Inr cs" "length cs = 2"
    by (cases "buildTurnEndpointCandidates ?u None") auto
  then show ?thesis
    using candidates_unique_complete [OF b(1)] by simp
qed

lemma equal_fold_key: "equal_fold a b \<longleftrightarrow> turnEndpointKey a = turnEndpointKey b"
  by (simp add: equal_fold_def turnEndpointKey_def)

lemma find_index_Some_iff:
  "find_index P xs = Some i \<longleftrightarrow> i < length xs \<and> P (xs ! i) \<and> (\<forall>j < i. \<not> P (xs ! j))"
proof (induction xs arbitrary: i)
  case Nil
  then show ?case by simp
next
  case (Cons x xs)
  then show ?case by (cases i) (auto simp: less_Suc_eq_0_disj)
qed

lemma find_index_None_iff: "find_index P xs = None \<longleftrightarrow> (\<forall>x \<in> set xs. \<not> P x)"
  by (induction xs) auto

lemma key_index_unique:
  "distinct (map cand_key cands) \<Longrightarrow> i < length cands \<Longrightarrow> j < length cands \<Longrightarrow>
   cand_key (cands ! i) = cand_key (cands ! j) \<longleftrightarrow> i = j"
  by (metis length_map nth_eq_iff_index_eq nth_map)

lemma next_from_rotation:
  assumes "distinct (map cand_key cands)" "2 \<le> length cands" "i < length cands"
    and "equal_fold (c_Endpoint (cands ! i)) cur"
  shows "next_from cands cur = Some (cands ! ((i + 1) mod length cands))"
proof -
  let ?n = "length cands"
  let ?j = "(i + 1) mod ?n"
  have only: "equal_fold (c_Endpoint (cands ! k)) cur \<longleftrightarrow> k = i" if "k < ?n" for k
    using that assms key_index_unique [OF assms(1), of k i] by (auto simp: equal_fold_key)
  have fi: "find_index (\<lambda>c. equal_fold (c_Endpoint c) cur) cands = Some i"
    using assms(3,4) only by (auto simp: find_index_Some_iff)
  have j: "?j < ?n" "?j \<noteq> i"
    using assms(2,3) by (auto simp: mod_Suc)
  have "[1 ..< ?n] = 1 # [2 ..< ?n]"
    using assms(2) by (simp add: upt_conv_Cons numeral_2_eq_2)
  then show ?thesis
    using fi j only [of ?j] by (simp add: next_from_def)
qed

lemma next_from_unknown:
  assumes "cands \<noteq> []" "\<forall>c \<in> set cands. \<not> equal_fold (c_Endpoint c) cur"
  shows "next_from cands cur = Some (hd cands)"
proof -
  have "find_index (\<lambda>c. equal_fold (c_Endpoint c) cur) cands = None"
    using assms(2) by (simp add: find_index_None_iff)
  then show ?thesis
    using assms by (cases cands) (simp_all add: next_from_def)
qed

text \<open>
  The next address after a timeout: for a group with at least two addresses,
  \<^verbatim>\<open>nextUniqueTurnURL\<close> applied to the endpoint of the i-th candidate gives the URL of the
  candidate after it, cyclically, which is another endpoint; so repeated failures visit every
  address of the group before one is tried again. An endpoint that is not of the group leads
  to the first address, and with fewer than two addresses there is no alternative.
\<close>

theorem next_url_rotates:
  assumes "buildTurnEndpointCandidates urls tp = Inr cands"
  shows "(\<forall>i < length cands. 2 \<le> length cands \<and> equal_fold (c_Endpoint (cands ! i)) cur \<longrightarrow>
            nextUniqueTurnURL urls tp cur = c_URL (cands ! ((i + 1) mod length cands))
            \<and> \<not> equal_fold (c_Endpoint (cands ! ((i + 1) mod length cands))) cur)
    \<and> (2 \<le> length cands \<and> (\<forall>c \<in> set cands. \<not> equal_fold (c_Endpoint c) cur) \<longrightarrow>
         nextUniqueTurnURL urls tp cur = c_URL (hd cands))
    \<and> (length cands < 2 \<longrightarrow> nextUniqueTurnURL urls tp cur = [])"
proof -
  have b: "build_loop tp urls {} [] = Inr cands"
    using assms by (auto simp: buildTurnEndpointCandidates_def split: sum.splits if_splits)
  have d: "distinct (map cand_key cands)"
    using build_loop_distinct [OF b] by simp
  have alt: "\<not> equal_fold (c_Endpoint (cands ! ((i + 1) mod length cands))) cur"
    if "i < length cands" "2 \<le> length cands" "equal_fold (c_Endpoint (cands ! i)) cur" for i
  proof -
    have "(i + 1) mod length cands < length cands" "(i + 1) mod length cands \<noteq> i"
      using that by (auto simp: mod_Suc)
    then show ?thesis
      using key_index_unique [OF d that(1), of "(i + 1) mod length cands"] that(3)
      by (auto simp: equal_fold_key)
  qed
  have first: "2 \<le> length cands \<Longrightarrow> \<forall>c \<in> set cands. \<not> equal_fold (c_Endpoint c) cur \<Longrightarrow>
      next_from cands cur = Some (hd cands)"
    using next_from_unknown [of cands cur] by (cases cands) auto
  show ?thesis
    using assms alt first next_from_rotation [OF d]
    by (auto simp: nextUniqueTurnURL_def url_or_empty_def)
qed

theorem next_url_rotates_witness:
  "nextUniqueTurnURL [''a:1'', ''b:2'', ''A:1'', ''c:3''] None ''C:3'' = ''a:1''"
proof -
  let ?u = "[''a:1'', ''b:2'', ''A:1'', ''c:3'']"
  let ?c = "[\<lparr>c_URL = ''a:1'', c_Endpoint = ''a:1''\<rparr>, \<lparr>c_URL = ''b:2'', c_Endpoint = ''b:2''\<rparr>,
    \<lparr>c_URL = ''c:3'', c_Endpoint = ''c:3''\<rparr>]"
  have b: "buildTurnEndpointCandidates ?u None = Inr ?c"
    by code_simp
  have e: "equal_fold ''c:3'' ''C:3''"
    by code_simp
  show ?thesis
    using next_url_rotates [OF b, of "''C:3''"] e by (auto simp: numeral_2_eq_2)
qed

end
