(* ===== verification/TurnSystem.thy ===== *)
theory TurnSystem
  imports TurnCandidates
begin

text \<open>
  The goroutines that use the scheduler of \<^verbatim>\<open>turn_scheduler.go\<close>. A goroutine is idle, at the
  top of the loop of \<^verbatim>\<open>Acquire\<close>, between reading the clock and taking the mutex, waiting for
  the notification channel or a timer, waiting for the global slot with an endpoint reserved,
  the owner of a permit, or between the two halves of \<^verbatim>\<open>finish\<close>. A step is one critical
  section or one channel operation of one goroutine, a \<^verbatim>\<open>Reset\<close>, a \<^verbatim>\<open>broadcast\<close>, or the
  passing of time. The invariant gives the limits the scheduler promises, the exactness of
  its counters under \<^verbatim>\<open>Reset\<close> and cancellation, and that no wake-up is lost.
\<close>

section \<open>What a critical section does to the counters\<close>

definition active_of :: "turnScheduler \<Rightarrow> string \<Rightarrow> int" where
  "active_of s k = (case ts_state s k of None \<Rightarrow> 0 | Some st \<Rightarrow> ep_active st)"

definition paused_of :: "turnScheduler \<Rightarrow> string \<Rightarrow> gotime" where
  "paused_of s k = (case ts_state s k of None \<Rightarrow> 0 | Some st \<Rightarrow> ep_pausedUntil st)"

definition keeps :: "turnScheduler \<Rightarrow> turnScheduler \<Rightarrow> bool" where
  "keeps s s' \<longleftrightarrow>
     ts_global s' = ts_global s \<and> ts_notify s' = ts_notify s
     \<and> (\<forall>k l. ts_view s k = Some l \<longrightarrow> ts_view s' k = Some l)
     \<and> (\<forall>k. paused_of s k \<noteq> 0 \<longrightarrow> paused_of s' k = paused_of s k)"

lemma keeps_refl [simp]: "keeps s s"
  by (simp add: keeps_def)

lemma keeps_trans: "keeps s s1 \<Longrightarrow> keeps s1 s2 \<Longrightarrow> keeps s s2"
  by (auto simp: keeps_def)

lemma stateLocked_keeps:
  assumes "ts_wf s" "stateLocked e s = (l, s')"
  shows "keeps s s'" "active_of s' k = active_of s k" "paused_of s' k = paused_of s k"
  using stateLocked_frame [OF assms(2)] stateLocked_mono [OF assms(2)] stateLocked_state [OF assms]
  by (auto simp: keeps_def active_of_def paused_of_def new_endpoint_state_def split: option.splits)

lemma set_state_active:
  assumes "ts_wf s" "ts_view s k0 = Some l"
  shows "active_of (set_state l st s) k = (if k = k0 then ep_active st else active_of s k)"
    "paused_of (set_state l st s) k = (if k = k0 then ep_pausedUntil st else paused_of s k)"
  by (simp_all add: active_of_def paused_of_def ts_state_set_state [OF assms])

lemma state_of_view:
  assumes "ts_view s k = Some l"
  shows "active_of s k = ep_active (ts_heap s l)" "paused_of s k = ep_pausedUntil (ts_heap s l)"
  using assms by (simp_all add: active_of_def paused_of_def ts_state_def)

lemma set_state_frame [simp]:
  "ts_global (set_state l st s) = ts_global s" "ts_notify (set_state l st s) = ts_notify s"
  by (simp_all add: set_state_def)

lemma set_state_keeps:
  assumes "ts_wf s" "ts_view s k0 = Some l" "ep_pausedUntil st = ep_pausedUntil (ts_heap s l)"
  shows "keeps s (set_state l st s)"
  using assms by (simp add: keeps_def set_state_active(2) state_of_view)

lemma visit_keeps:
  assumes "ts_wf s"
  shows "keeps s (visit now c s)" "active_of (visit now c s) k = active_of s k"
proof -
  have p: "paused_of s k \<noteq> 0 \<Longrightarrow> paused_of (visit now c s) k = paused_of s k" for k
    by (auto simp: paused_of_def visit_state [OF assms] state_or_new_def refresh_paused
        split: option.splits)
  show "keeps s (visit now c s)"
    using visit_frame visit_mono p by (simp add: keeps_def)
  show "active_of (visit now c s) k = active_of s k"
    by (auto simp: active_of_def visit_state [OF assms] state_or_new_def new_endpoint_state_def
        split: option.splits)
qed

lemma visit_all_keeps:
  "ts_wf s \<Longrightarrow> keeps s (visit_all now cs s) \<and> active_of (visit_all now cs s) k = active_of s k"
proof (induction cs arbitrary: s)
  case Nil
  then show ?case by simp
next
  case (Cons c cs)
  then show ?case
    using visit_keeps [OF Cons.prems, of now c] Cons.IH [OF visit_wf [OF Cons.prems], of now c]
    by (auto intro: keeps_trans)
qed

lemma pickLocked_keeps:
  assumes "ts_wf s" "0 < now" "pickLocked pk cands now s = (s', r)"
  shows "keeps s s' \<and> active_of s' k = active_of s k"
proof (cases "length cands = 1")
  case True
  then show ?thesis using assms by (simp add: pickLocked_def)
next
  case False
  then have "s' = visit_all now cands s"
    using assms(3) unfolding pickLocked_many [OF assms(1,2) False] Let_def
    by (auto split: option.splits if_splits)
  then show ?thesis by (simp add: visit_all_keeps assms(1))
qed

lemma cand_state_of:
  assumes "ts_wf s" "0 < now" "c \<in> set cs"
  shows "ep_active (cand_state (visit_all now cs s) c) = active_of (visit_all now cs s) (cand_key c)"
    "ep_pausedUntil (cand_state (visit_all now cs s) c) = paused_of (visit_all now cs s) (cand_key c)"
  using cand_state_present [OF assms] by (simp_all add: active_of_def paused_of_def)

lemma acquire_turn_reserved:
  assumes "ts_wf s" "0 < now" "cands \<noteq> []" "acquire_turn pref cands now s = (s', AcqReserved c l)"
  shows "c \<in> set cands \<and> keeps s s' \<and> ts_view s' (cand_key c) = Some l
    \<and> active_of s' = (active_of s)(cand_key c := active_of s (cand_key c) + 1)
    \<and> (length cands \<noteq> 1 \<longrightarrow> \<not> active_of s (cand_key c) > 0)"
proof -
  obtain s1 d w where p: "pickLocked (preferred_key pref cands) cands now s = (s1, Some d, w)"
    using assms(4) by (auto simp: acquire_turn_def Let_def split: prod.splits option.splits)
  obtain l' s2 where st: "stateLocked (c_Endpoint d) s1 = (l', s2)"
    by (cases "stateLocked (c_Endpoint d) s1")
  have eq: "d = c" "l' = l"
    "s' = set_state l ((ts_heap s2 l)\<lparr>ep_active := ep_active (ts_heap s2 l) + 1, ep_lastUsed := now\<rparr>) s2"
    using assms(4) p st by (auto simp: acquire_turn_def Let_def)
  have wf: "ts_wf s1" "ts_wf s2"
    using pickLocked_wf [OF assms(1,2) p] stateLocked_wf [OF _ st] by auto
  have k: "keeps s s1" "\<And>k. active_of s1 k = active_of s k"
    using pickLocked_keeps [OF assms(1,2) p] by auto
  note k2 = stateLocked_keeps [OF wf(1) st]
  have v: "ts_view s2 (cand_key c) = Some l"
    using stateLocked_view [OF st] eq by simp
  have ks: "keeps s2 s'"
    unfolding eq(3) by (rule set_state_keeps [OF wf(2) v]) simp
  have a: "active_of s' = (active_of s)(cand_key c := active_of s (cand_key c) + 1)"
    using v wf(2) k(2) k2(2) state_of_view(1) [OF v]
    by (auto simp: fun_eq_iff eq(3) set_state_active)
  have free: "\<not> active_of s (cand_key c) > 0" if "length cands \<noteq> 1"
    using pick_choice [OF assms(1,2) that p] pick_selected(1,2) [OF assms(1,2) that p]
      cand_state_of(1) [OF assms(1,2), of d cands] k(2) eq(1) by simp
  have "c \<in> set cands"
  proof (cases "length cands = 1")
    case True
    then show ?thesis using p eq(1) assms(3) by (auto simp: pickLocked_def)
  next
    case False
    then show ?thesis using pick_selected(2) [OF assms(1,2) False p] eq(1) by simp
  qed
  then show ?thesis
    using keeps_trans [OF keeps_trans [OF k(1) k2(1)] ks] v a free
    by (auto simp: eq(3))
qed

lemma acquire_turn_wait:
  assumes "ts_wf s" "0 < now" "acquire_turn pref cands now s = (s', AcqWait g u)"
  shows "g = ts_notify s \<and> keeps s s' \<and> active_of s' = active_of s \<and> 0 \<le> u
    \<and> (\<forall>c \<in> set cands. active_of s' (cand_key c) > 0 \<or> u \<noteq> 0 \<and> u \<le> paused_of s' (cand_key c))"
proof -
  have p: "pickLocked (preferred_key pref cands) cands now s = (s', None, u)" and g: "g = ts_notify s'"
    using assms(3) by (auto simp: acquire_turn_def Let_def split: prod.splits option.splits)
  have n: "length cands \<noteq> 1"
    using p by (auto simp: pickLocked_def)
  have s': "s' = visit_all now cands s"
    using pick_nothing(1) [OF assms(1,2) n p] .
  have k: "keeps s s' \<and> active_of s' = active_of s"
    using pickLocked_keeps [OF assms(1,2) p] by auto
  have zero: "u = 0 \<longleftrightarrow> (\<forall>c \<in> set cands. \<not> now < ep_pausedUntil (cand_state s' c))"
    using pick_wait [OF assms(1,2) n p] by (elim conjE)
  have pause_le: "now < ep_pausedUntil (cand_state s' c) \<Longrightarrow> u \<le> ep_pausedUntil (cand_state s' c)"
    if "c \<in> set cands" for c
    using pick_wait [OF assms(1,2) n p] zero that by blast
  have "active_of s' (cand_key c) > 0 \<or> u \<noteq> 0 \<and> u \<le> paused_of s' (cand_key c)" if "c \<in> set cands" for c
    using conjunct1 [OF pick_wait [OF assms(1,2) n p]] pause_le [OF that] zero
      cand_state_of [OF assms(1,2) that] that by (force simp: s')
  moreover have "0 \<le> u"
    using pick_nothing(3) [OF assms(1,2) n p] fold_pauses_pos [OF assms(2), of 0] by simp
  ultimately show ?thesis
    using k g by (auto simp: keeps_def)
qed

lemma active_of_signal [simp]: "active_of (signalLocked s) = active_of s"
  by (simp add: active_of_def fun_eq_iff)

lemma acquire_cancel_effect:
  assumes "ts_wf s" "ts_view s k = Some l"
  shows "ts_wf (acquire_cancel l s)" "ts_view (acquire_cancel l s) = ts_view s"
    "ts_global (acquire_cancel l s) = ts_global s" "ts_notify (acquire_cancel l s) = Suc (ts_notify s)"
    "active_of (acquire_cancel l s) = (active_of s)(k := active_of s k - 1)"
  using assms
  by (simp_all add: acquire_cancel_def Let_def fun_eq_iff set_state_active state_of_view active_of_signal)
    (simp_all add: signalLocked_def)

lemma finish_locked_effect:
  assumes "ts_wf s" "active_of s (turnEndpointKey e) > 0"
  shows "ts_wf (finish_locked e alt out now s)"
    "\<And>k l. ts_view s k = Some l \<Longrightarrow> ts_view (finish_locked e alt out now s) k = Some l"
    "ts_global (finish_locked e alt out now s) = ts_global s"
    "ts_notify (finish_locked e alt out now s) = Suc (ts_notify s)"
    "active_of (finish_locked e alt out now s)
       = (active_of s)(turnEndpointKey e := active_of s (turnEndpointKey e) - 1)"
proof -
  obtain l s1 where st: "stateLocked e s = (l, s1)"
    by (cases "stateLocked e s")
  have f: "ts_global s1 = ts_global s" "ts_notify s1 = ts_notify s"
    using stateLocked_frame [OF st] by auto
  show "ts_wf (finish_locked e alt out now s)"
    by (rule finish_locked_wf) (rule assms)
  show "\<And>k l. ts_view s k = Some l \<Longrightarrow> ts_view (finish_locked e alt out now s) k = Some l"
    using stateLocked_mono [OF st] by (simp add: finish_locked_def st Let_def)
  show "ts_global (finish_locked e alt out now s) = ts_global s"
    "ts_notify (finish_locked e alt out now s) = Suc (ts_notify s)"
    using f by (simp_all add: finish_locked_def st Let_def signalLocked_def set_state_def)
  have o: "ep_active (outcome_update now alt out x) = ep_active x" for x
    by (cases out) (simp_all add: outcome_update_def Let_def)
  show "active_of (finish_locked e alt out now s)
       = (active_of s)(turnEndpointKey e := active_of s (turnEndpointKey e) - 1)"
    using assms(2)
    by (auto simp: fun_eq_iff active_of_def finish_locked_state [OF assms(1)] Let_def o split: option.splits)
qed

lemma ts_Reset_effect:
  assumes "ts_wf s"
  shows "ts_wf (ts_Reset s)" "ts_global (ts_Reset s) = ts_global s"
    "ts_notify (ts_Reset s) = Suc (ts_notify s)"
    "ts_view s k = Some l \<Longrightarrow> active_of s k > 0 \<Longrightarrow> ts_view (ts_Reset s) k = Some l"
    "active_of (ts_Reset s) k = (if active_of s k > 0 then active_of s k else 0)"
proof -
  let ?f = "filter (in_use s) (ts_endpoints s)"
  show wf: "ts_wf (ts_Reset s)"
    using assms by (auto simp: ts_wf_def ts_Reset_def signalLocked_def intro: distinct_map_filter)
  show "ts_global (ts_Reset s) = ts_global s" "ts_notify (ts_Reset s) = Suc (ts_notify s)"
    by (simp_all add: ts_Reset_def signalLocked_def)
  have view: "ts_view (ts_Reset s) k = Some l \<longleftrightarrow> ts_view s k = Some l \<and> active_of s k > 0" for k l
  proof -
    have "ts_view (ts_Reset s) k = Some l \<longleftrightarrow> (k, l) \<in> set ?f"
      by (subst ts_view_Some_iff [OF wf]) (simp add: ts_Reset_def signalLocked_def)
    also have "\<dots> \<longleftrightarrow> ts_view s k = Some l \<and> ep_active (ts_heap s l) > 0"
      by (auto simp: in_use_def ts_view_Some_iff [OF assms])
    also have "\<dots> \<longleftrightarrow> ts_view s k = Some l \<and> active_of s k > 0"
      using state_of_view(1) [of s k l] by auto
    finally show ?thesis .
  qed
  show "ts_view s k = Some l \<Longrightarrow> active_of s k > 0 \<Longrightarrow> ts_view (ts_Reset s) k = Some l"
    using view by simp
  show "active_of (ts_Reset s) k = (if active_of s k > 0 then active_of s k else 0)"
  proof (cases "ts_view (ts_Reset s) k")
    case None
    then show ?thesis
      using view [of k] by (cases "ts_view s k") (auto simp: active_of_def ts_state_def)
  next
    case (Some l)
    then have "ts_view s k = Some l" "active_of s k > 0"
      using view by auto
    moreover have "ep_active (ts_heap (ts_Reset s) l) = ep_active (ts_heap s l)"
      by (simp add: ts_Reset_def signalLocked_def reset_state_def)
    ultimately show ?thesis
      using Some by (simp add: state_of_view)
  qed
qed

section \<open>Goroutines\<close>

datatype goroutine =
    Idle
  | LoopTop string "turnEndpointCandidate list"
  | ClockRead string "turnEndpointCandidate list" gotime
  | Waiting string "turnEndpointCandidate list" nat gotime
  | Reserved turnEndpointCandidate nat bool
  | Permit turnEndpointCandidate bool
  | Releasing turnEndpointCandidate bool turnHandshakeOutcome

record turn_system =
  sys_sched :: turnScheduler
  sys_gs :: "goroutine list"
  sys_now :: gotime

definition move :: "nat \<Rightarrow> goroutine \<Rightarrow> turnScheduler \<Rightarrow> turn_system \<Rightarrow> turn_system" where
  "move i g s sys = sys\<lparr>sys_sched := s, sys_gs := (sys_gs sys)[i := g]\<rparr>"

lemma move_sel [simp]:
  "sys_sched (move i g s sys) = s" "sys_gs (move i g s sys) = (sys_gs sys)[i := g]"
  "sys_now (move i g s sys) = sys_now sys"
  by (simp_all add: move_def)

inductive turn_step :: "turn_system \<Rightarrow> turn_system \<Rightarrow> bool" where
  step_call: "i < length (sys_gs sys) \<Longrightarrow> sys_gs sys ! i = Idle \<Longrightarrow> acquire_guard cands = None \<Longrightarrow>
    turn_step sys (move i (LoopTop pref cands) (sys_sched sys) sys)"
| step_clock: "i < length (sys_gs sys) \<Longrightarrow> sys_gs sys ! i = LoopTop pref cands \<Longrightarrow>
    turn_step sys (move i (ClockRead pref cands (sys_now sys)) (sys_sched sys) sys)"
| step_reserve: "i < length (sys_gs sys) \<Longrightarrow> sys_gs sys ! i = ClockRead pref cands now \<Longrightarrow>
    acquire_turn pref cands now (sys_sched sys) = (s', AcqReserved c l) \<Longrightarrow>
    turn_step sys (move i (Reserved c l (length cands > 1)) s' sys)"
| step_wait: "i < length (sys_gs sys) \<Longrightarrow> sys_gs sys ! i = ClockRead pref cands now \<Longrightarrow>
    acquire_turn pref cands now (sys_sched sys) = (s', AcqWait g u) \<Longrightarrow>
    turn_step sys (move i (Waiting pref cands g u) s' sys)"
| step_notified: "i < length (sys_gs sys) \<Longrightarrow> sys_gs sys ! i = Waiting pref cands g u \<Longrightarrow>
    g < ts_notify (sys_sched sys) \<Longrightarrow>
    turn_step sys (move i (LoopTop pref cands) (sys_sched sys) sys)"
| step_timer: "i < length (sys_gs sys) \<Longrightarrow> sys_gs sys ! i = Waiting pref cands g u \<Longrightarrow>
    u \<noteq> 0 \<Longrightarrow> u \<le> sys_now sys \<Longrightarrow>
    turn_step sys (move i (LoopTop pref cands) (sys_sched sys) sys)"
| step_wait_cancel: "i < length (sys_gs sys) \<Longrightarrow> sys_gs sys ! i = Waiting pref cands g u \<Longrightarrow>
    turn_step sys (move i Idle (sys_sched sys) sys)"
| step_slot: "i < length (sys_gs sys) \<Longrightarrow> sys_gs sys ! i = Reserved c l alt \<Longrightarrow>
    acquire_slot (sys_sched sys) = Some s' \<Longrightarrow>
    turn_step sys (move i (Permit c alt) s' sys)"
| step_cancel: "i < length (sys_gs sys) \<Longrightarrow> sys_gs sys ! i = Reserved c l alt \<Longrightarrow>
    turn_step sys (move i Idle (acquire_cancel l (sys_sched sys)) sys)"
| step_release: "i < length (sys_gs sys) \<Longrightarrow> sys_gs sys ! i = Permit c alt \<Longrightarrow>
    finish_release (sys_sched sys) = Some s' \<Longrightarrow>
    turn_step sys (move i (Releasing c alt out) s' sys)"
| step_finish: "i < length (sys_gs sys) \<Longrightarrow> sys_gs sys ! i = Releasing c alt out \<Longrightarrow>
    turn_step sys (move i Idle (finish_locked (c_Endpoint c) alt out (sys_now sys) (sys_sched sys)) sys)"
| step_reset: "turn_step sys (sys\<lparr>sys_sched := ts_Reset (sys_sched sys)\<rparr>)"
| step_broadcast: "turn_step sys (sys\<lparr>sys_sched := signalLocked (sys_sched sys)\<rparr>)"
| step_tick: "sys_now sys \<le> t \<Longrightarrow> turn_step sys (sys\<lparr>sys_now := t\<rparr>)"

definition turn_init :: "turn_system \<Rightarrow> bool" where
  "turn_init sys \<longleftrightarrow> sys_sched sys = newTurnScheduler \<and> set (sys_gs sys) \<subseteq> {Idle} \<and> 0 < sys_now sys"

section \<open>The invariant\<close>

fun endpoint_user :: "string \<Rightarrow> goroutine \<Rightarrow> bool" where
  "endpoint_user k (Reserved c l alt) = (cand_key c = k)"
| "endpoint_user k (Permit c alt) = (cand_key c = k)"
| "endpoint_user k (Releasing c alt out) = (cand_key c = k)"
| "endpoint_user k _ = False"

fun alternative_user :: "string \<Rightarrow> goroutine \<Rightarrow> bool" where
  "alternative_user k (Reserved c l alt) = (alt \<and> cand_key c = k)"
| "alternative_user k (Permit c alt) = (alt \<and> cand_key c = k)"
| "alternative_user k (Releasing c alt out) = (alt \<and> cand_key c = k)"
| "alternative_user k _ = False"

fun has_slot :: "goroutine \<Rightarrow> bool" where
  "has_slot (Permit c alt) = True"
| "has_slot _ = False"

text \<open>
  What is true of one goroutine in a scheduler state: a kept pointer is the table's, and a
  waiting goroutine that has not been notified waits for candidates that are busy, or paused
  beyond its timer.
\<close>

fun goroutine_ok :: "turnScheduler \<Rightarrow> goroutine \<Rightarrow> bool" where
  "goroutine_ok s (Reserved c l alt) = (ts_view s (cand_key c) = Some l)"
| "goroutine_ok s (Waiting pref cands g u) =
     (cands \<noteq> [] \<and> g \<le> ts_notify s \<and> 0 \<le> u \<and>
      (g = ts_notify s \<longrightarrow>
       (\<forall>c \<in> set cands. active_of s (cand_key c) > 0 \<or> u \<noteq> 0 \<and> u \<le> paused_of s (cand_key c))))"
| "goroutine_ok s (LoopTop pref cands) = (cands \<noteq> [])"
| "goroutine_ok s (ClockRead pref cands now) = (cands \<noteq> [] \<and> 0 < now)"
| "goroutine_ok s _ = True"

definition turn_inv :: "turn_system \<Rightarrow> bool" where
  "turn_inv sys \<longleftrightarrow>
     (let s = sys_sched sys; gs = sys_gs sys in
      ts_wf s \<and> 0 < sys_now sys
      \<and> ts_global s = count_if has_slot gs \<and> ts_global s \<le> HandshakeConcurrency
      \<and> (\<forall>k. active_of s k = int (count_if (endpoint_user k) gs))
      \<and> (\<forall>k. count_if (alternative_user k) gs \<le> 1)
      \<and> (\<forall>g \<in> set gs. goroutine_ok s g))"

lemma turn_invI:
  assumes "ts_wf (sys_sched sys)" "0 < sys_now sys"
    "ts_global (sys_sched sys) = count_if has_slot (sys_gs sys)"
    "ts_global (sys_sched sys) \<le> HandshakeConcurrency"
    "\<And>k. active_of (sys_sched sys) k = int (count_if (endpoint_user k) (sys_gs sys))"
    "\<And>k. count_if (alternative_user k) (sys_gs sys) \<le> 1"
    "\<And>g. g \<in> set (sys_gs sys) \<Longrightarrow> goroutine_ok (sys_sched sys) g"
  shows "turn_inv sys"
  using assms by (simp add: turn_inv_def Let_def)

lemma turn_invD:
  assumes "turn_inv sys"
  shows "ts_wf (sys_sched sys)" "0 < sys_now sys"
    "ts_global (sys_sched sys) = count_if has_slot (sys_gs sys)"
    "ts_global (sys_sched sys) \<le> HandshakeConcurrency"
    "active_of (sys_sched sys) k = int (count_if (endpoint_user k) (sys_gs sys))"
    "count_if (alternative_user k) (sys_gs sys) \<le> 1"
    "i < length (sys_gs sys) \<Longrightarrow> goroutine_ok (sys_sched sys) (sys_gs sys ! i)"
  using assms by (simp_all add: turn_inv_def Let_def)

lemma alternative_le: "count_if (alternative_user k) gs \<le> count_if (endpoint_user k) gs"
  by (rule count_if_mono) (auto elim: alternative_user.elims)

text \<open>The facts about a goroutine survive a critical section of another one.\<close>

lemma goroutine_ok_keeps:
  assumes "goroutine_ok s g" "keeps s s'" "\<And>k. active_of s k > 0 \<Longrightarrow> active_of s' k > 0"
  shows "goroutine_ok s' g"
proof (cases g)
  case (Waiting pref cands gen u)
  have "active_of s' (cand_key c) > 0 \<or> u \<noteq> 0 \<and> u \<le> paused_of s' (cand_key c)"
    if "c \<in> set cands" "gen = ts_notify s'" for c
  proof -
    have n: "gen = ts_notify s" "0 \<le> u"
      using assms(1,2) that(2) by (simp_all add: Waiting keeps_def)
    then have "active_of s (cand_key c) > 0 \<or> u \<noteq> 0 \<and> u \<le> paused_of s (cand_key c)"
      using assms(1) that(1) unfolding Waiting by simp
    then consider "active_of s (cand_key c) > 0" | "u \<noteq> 0" "u \<le> paused_of s (cand_key c)"
      by blast
    then show ?thesis
    proof cases
      case 1
      then show ?thesis using assms(3) by blast
    next
      case 2
      then have "paused_of s' (cand_key c) = paused_of s (cand_key c)"
        using assms(2) n(2) by (auto simp: keeps_def)
      then show ?thesis using 2 by simp
    qed
  qed
  then show ?thesis
    using assms(1,2) by (simp add: Waiting keeps_def)
qed (use assms(1,2) in \<open>auto simp: keeps_def\<close>)

lemma goroutine_ok_signalled:
  assumes "goroutine_ok s g" "ts_notify s < ts_notify s'"
    "\<And>c l alt. g = Reserved c l alt \<Longrightarrow> ts_view s' (cand_key c) = Some l"
  shows "goroutine_ok s' g"
  using assms by (cases g) auto

lemma turn_inv_move:
  assumes "turn_inv sys" "i < length (sys_gs sys)" "sys_gs sys ! i = g0" "ts_wf s'"
    and "int (ts_global s') = int (ts_global (sys_sched sys)) + of_bool (has_slot g1) - of_bool (has_slot g0)"
    and "ts_global s' \<le> HandshakeConcurrency"
    and "\<And>k. active_of s' k
      = active_of (sys_sched sys) k + of_bool (endpoint_user k g1) - of_bool (endpoint_user k g0)"
    and "\<And>k. alternative_user k g1 \<Longrightarrow> alternative_user k g0 \<or> active_of (sys_sched sys) k \<le> 0"
    and "goroutine_ok s' g1"
    and "\<And>g. g \<in> set (sys_gs sys) \<Longrightarrow> goroutine_ok (sys_sched sys) g \<Longrightarrow> goroutine_ok s' g"
  shows "turn_inv (move i g1 s' sys)"
proof (rule turn_invI; simp only: move_sel)
  note upd = count_if_update [OF assms(2), of _ g1, unfolded assms(3)]
  note D = turn_invD [OF assms(1)]
  show "ts_wf s'" "0 < sys_now sys" "ts_global s' \<le> HandshakeConcurrency"
    using assms(4,6) D(2) by auto
  show "ts_global s' = count_if has_slot ((sys_gs sys)[i := g1])"
    using upd [of has_slot] assms(5) D(3) by simp
  show "active_of s' k = int (count_if (endpoint_user k) ((sys_gs sys)[i := g1]))" for k
    using upd [of "endpoint_user k"] assms(7) [of k] D(5) [of k] by simp
  show "count_if (alternative_user k) ((sys_gs sys)[i := g1]) \<le> 1" for k
    using upd [of "alternative_user k"] assms(8) [of k] D(5) [of k] D(6) [of k]
      alternative_le [of k "sys_gs sys"] by (cases "alternative_user k g1"; cases "alternative_user k g0") auto
  show "goroutine_ok s' g" if "g \<in> set ((sys_gs sys)[i := g1])" for g
  proof -
    have "g = g1 \<or> g \<in> set (sys_gs sys)"
      using that set_update_subset_insert [of "sys_gs sys" i g1] by blast
    then show ?thesis
      using assms(9,10) D(7) by (auto simp: in_set_conv_nth)
  qed
qed

text \<open>A step of one goroutine that leaves the scheduler as it is\<close>

lemma turn_inv_local:
  assumes "turn_inv sys" "i < length (sys_gs sys)" "sys_gs sys ! i = g0"
    "has_slot g0 = has_slot g1" "\<And>k. endpoint_user k g0 = endpoint_user k g1"
    "\<And>k. alternative_user k g0 = alternative_user k g1"
    "goroutine_ok (sys_sched sys) g1"
  shows "turn_inv (move i g1 (sys_sched sys) sys)"
  by (rule turn_inv_move [OF assms(1-3)]) (use assms(4-7) turn_invD(1,4) [OF assms(1)] in auto)

lemma user_active:
  assumes "turn_inv sys" "i < length (sys_gs sys)" "endpoint_user k (sys_gs sys ! i)"
  shows "active_of (sys_sched sys) k > 0"
  using count_if_pos [of i "sys_gs sys" "endpoint_user k"] assms(2,3) turn_invD(5) [OF assms(1), of k] by simp

lemma acquire_turn_wf':
  assumes "ts_wf s" "0 < now" "acquire_turn pref cands now s = (s', r)"
  shows "ts_wf s'"
  using acquire_turn_wf assms by blast

lemma global_update_sel [simp]:
  "ts_view (s\<lparr>ts_global := n\<rparr>) = ts_view s" "ts_wf (s\<lparr>ts_global := n\<rparr>) = ts_wf s"
  "ts_state (s\<lparr>ts_global := n\<rparr>) = ts_state s" "active_of (s\<lparr>ts_global := n\<rparr>) = active_of s"
  "paused_of (s\<lparr>ts_global := n\<rparr>) = paused_of s"
  by (simp_all add: fun_eq_iff ts_view_def ts_wf_def ts_state_def active_of_def paused_of_def)

lemma goroutine_ok_global [simp]: "goroutine_ok (s\<lparr>ts_global := n\<rparr>) g = goroutine_ok s g"
  by (cases g) simp_all

lemma kept_pointer:
  assumes "turn_inv sys" "g \<in> set (sys_gs sys)" "g = Reserved c l alt"
  shows "ts_view (sys_sched sys) (cand_key c) = Some l" "active_of (sys_sched sys) (cand_key c) > 0"
proof -
  obtain j where j: "j < length (sys_gs sys)" "sys_gs sys ! j = Reserved c l alt"
    using assms(2,3) by (auto simp: in_set_conv_nth)
  show "ts_view (sys_sched sys) (cand_key c) = Some l"
    using turn_invD(7) [OF assms(1) j(1)] j(2) by simp
  show "active_of (sys_sched sys) (cand_key c) > 0"
    using user_active [OF assms(1) j(1), of "cand_key c"] j(2) by simp
qed

lemma turn_inv_goroutine: "turn_inv sys \<Longrightarrow> g \<in> set (sys_gs sys) \<Longrightarrow> goroutine_ok (sys_sched sys) g"
  using turn_invD(7) by (auto simp: in_set_conv_nth)

lemma turn_inv_reserve:
  assumes "turn_inv sys" "i < length (sys_gs sys)" "sys_gs sys ! i = ClockRead pref cands now"
    "acquire_turn pref cands now (sys_sched sys) = (s', AcqReserved c l)"
  shows "turn_inv (move i (Reserved c l (length cands > 1)) s' sys)"
proof -
  note D = turn_invD [OF assms(1)]
  have now: "cands \<noteq> []" "0 < now"
    using D(7) [OF assms(2)] assms(3) by simp_all
  note r = acquire_turn_reserved [OF D(1) now(2,1) assms(4)]
  have k: "keeps (sys_sched sys) s'" and v: "ts_view s' (cand_key c) = Some l"
    and a: "\<And>k. active_of s' k = active_of (sys_sched sys) k + of_bool (cand_key c = k)"
    and alt: "length cands > 1 \<Longrightarrow> active_of (sys_sched sys) (cand_key c) \<le> 0"
    using r by auto
  show ?thesis
    by (rule turn_inv_move [OF assms(1-3) acquire_turn_wf' [OF D(1) now(2) assms(4)]])
      (use a k alt v D(4) in \<open>auto simp: keeps_def intro: goroutine_ok_keeps [OF _ k]\<close>)
qed

lemma turn_inv_wait:
  assumes "turn_inv sys" "i < length (sys_gs sys)" "sys_gs sys ! i = ClockRead pref cands now"
    "acquire_turn pref cands now (sys_sched sys) = (s', AcqWait g u)"
  shows "turn_inv (move i (Waiting pref cands g u) s' sys)"
proof -
  note D = turn_invD [OF assms(1)]
  have now: "0 < now"
    using D(7) [OF assms(2)] assms(3) by simp
  note r = acquire_turn_wait [OF D(1) now assms(4)]
  have k: "keeps (sys_sched sys) s'" and a: "active_of s' = active_of (sys_sched sys)"
    and ok: "goroutine_ok s' (Waiting pref cands g u)"
    using r D(7) [OF assms(2)] assms(3) by (auto simp: keeps_def)
  show ?thesis
    by (rule turn_inv_move [OF assms(1-3) acquire_turn_wf' [OF D(1) now assms(4)]])
      (use a k ok D(4) in \<open>auto simp: keeps_def intro: goroutine_ok_keeps [OF _ k]\<close>)
qed

lemma turn_inv_cancel:
  assumes "turn_inv sys" "i < length (sys_gs sys)" "sys_gs sys ! i = Reserved c l alt"
  shows "turn_inv (move i Idle (acquire_cancel l (sys_sched sys)) sys)"
proof -
  note D = turn_invD [OF assms(1)]
  have v: "ts_view (sys_sched sys) (cand_key c) = Some l"
    using D(7) [OF assms(2)] assms(3) by simp
  note e = acquire_cancel_effect [OF D(1) v]
  show ?thesis
    by (rule turn_inv_move [OF assms e(1)])
      (use e D(4) in \<open>auto intro: goroutine_ok_signalled kept_pointer [OF assms(1)]\<close>)
qed

lemma turn_inv_finish:
  assumes "turn_inv sys" "i < length (sys_gs sys)" "sys_gs sys ! i = Releasing c alt out"
  shows "turn_inv (move i Idle (finish_locked (c_Endpoint c) alt out now (sys_sched sys)) sys)"
proof -
  note D = turn_invD [OF assms(1)]
  have "active_of (sys_sched sys) (cand_key c) > 0"
    using user_active [OF assms(1,2), of "cand_key c"] assms(3) by simp
  note e = finish_locked_effect [OF D(1) this, where alt = alt and out = out and now = now]
  have ok: "goroutine_ok (finish_locked (c_Endpoint c) alt out now (sys_sched sys)) g"
    if "g \<in> set (sys_gs sys)" for g
    by (rule goroutine_ok_signalled [OF turn_inv_goroutine [OF assms(1) that]])
      (use e(2) [OF kept_pointer(1) [OF assms(1) that]] in \<open>simp_all add: e(4)\<close>)
  show ?thesis
    by (rule turn_inv_move [OF assms e(1)]) (use e(3) D(4) in \<open>simp_all add: e(5) ok\<close>)
qed

lemma turn_inv_reset:
  assumes "turn_inv sys"
  shows "turn_inv (sys\<lparr>sys_sched := ts_Reset (sys_sched sys)\<rparr>)"
proof -
  note D = turn_invD [OF assms]
  note e = ts_Reset_effect [OF D(1)]
  have ok: "goroutine_ok (ts_Reset (sys_sched sys)) g" if "g \<in> set (sys_gs sys)" for g
  proof (rule goroutine_ok_signalled [OF turn_inv_goroutine [OF assms that]])
    show "ts_notify (sys_sched sys) < ts_notify (ts_Reset (sys_sched sys))"
      by (simp add: e(3))
    show "ts_view (ts_Reset (sys_sched sys)) (cand_key c) = Some l" if "g = Reserved c l alt" for c l alt
      using kept_pointer [OF assms \<open>g \<in> set (sys_gs sys)\<close> that] by (rule e(4))
  qed
  have a: "active_of (ts_Reset (sys_sched sys)) k = int (count_if (endpoint_user k) (sys_gs sys))" for k
    using e(5) [of k] D(5) [of k] by simp
  show ?thesis
    by (rule turn_invI) (use D(2,3,4,6) e(1,2) a ok in simp_all)
qed

lemma turn_inv_broadcast:
  assumes "turn_inv sys"
  shows "turn_inv (sys\<lparr>sys_sched := signalLocked (sys_sched sys)\<rparr>)"
proof -
  note D = turn_invD [OF assms]
  have n: "ts_notify (sys_sched sys) < ts_notify (signalLocked (sys_sched sys))"
    "ts_global (signalLocked (sys_sched sys)) = ts_global (sys_sched sys)"
    by (simp_all add: signalLocked_def)
  have ok: "goroutine_ok (signalLocked (sys_sched sys)) g" if "g \<in> set (sys_gs sys)" for g
    using kept_pointer(1) [OF assms that]
    by (intro goroutine_ok_signalled [OF turn_inv_goroutine [OF assms that]]) (simp_all add: n)
  show ?thesis
    by (rule turn_invI) (use D(1-6) n(2) ok in simp_all)
qed

lemma turn_inv_step:
  assumes "turn_inv sys" "turn_step sys sys'"
  shows "turn_inv sys'"
  using assms(2)
proof cases
  case (step_slot i c l alt s')
  then have s': "s' = (sys_sched sys)\<lparr>ts_global := Suc (ts_global (sys_sched sys))\<rparr>"
    "ts_global (sys_sched sys) < HandshakeConcurrency"
    by (auto simp: acquire_slot_def split: if_splits)
  show ?thesis
    unfolding step_slot(1)
    by (rule turn_inv_move [OF assms(1) step_slot(2,3)]) (use s' turn_invD(1) [OF assms(1)] in auto)
next
  case (step_release i c alt s' out)
  then have s': "s' = (sys_sched sys)\<lparr>ts_global := ts_global (sys_sched sys) - 1\<rparr>"
    "0 < ts_global (sys_sched sys)"
    by (auto simp: finish_release_def split: if_splits)
  show ?thesis
    unfolding step_release(1)
    by (rule turn_inv_move [OF assms(1) step_release(2,3)])
      (use s' turn_invD(1,4) [OF assms(1)] in auto)
next
  case (step_call i cands pref)
  then show ?thesis
    unfolding step_call(1)
    by (intro turn_inv_local [OF assms(1) step_call(2,3)])
      (auto simp: acquire_guard_def split: if_splits)
next
  case (step_clock i pref cands)
  have "goroutine_ok (sys_sched sys) (ClockRead pref cands (sys_now sys))"
    using turn_invD(7) [OF assms(1) step_clock(2)] turn_invD(2) [OF assms(1)] step_clock(3) by simp
  then show ?thesis
    unfolding step_clock(1) by (intro turn_inv_local [OF assms(1) step_clock(2,3)]) simp_all
next
  case (step_notified i pref cands g u)
  have "goroutine_ok (sys_sched sys) (LoopTop pref cands)"
    using turn_invD(7) [OF assms(1) step_notified(2)] step_notified(3) by simp
  then show ?thesis
    unfolding step_notified(1) by (intro turn_inv_local [OF assms(1) step_notified(2,3)]) simp_all
next
  case (step_timer i pref cands g u)
  have "goroutine_ok (sys_sched sys) (LoopTop pref cands)"
    using turn_invD(7) [OF assms(1) step_timer(2)] step_timer(3) by simp
  then show ?thesis
    unfolding step_timer(1) by (intro turn_inv_local [OF assms(1) step_timer(2,3)]) simp_all
next
  case (step_wait_cancel i pref cands g u)
  then show ?thesis
    unfolding step_wait_cancel(1) by (intro turn_inv_local [OF assms(1) step_wait_cancel(2,3)]) simp_all
next
  case (step_tick t)
  then show ?thesis
    using turn_invD [OF assms(1)] by (intro turn_invI) (auto simp: in_set_conv_nth)
next
  case (step_reserve i pref cands now s' c l)
  then show ?thesis
    using turn_inv_reserve [OF assms(1)] by simp
qed (use assms(1) in \<open>auto intro: turn_inv_wait turn_inv_cancel turn_inv_finish
       turn_inv_reset turn_inv_broadcast\<close>)

lemma new_global: "ts_global newTurnScheduler = 0"
  by (simp add: newTurnScheduler_def)

lemma turn_inv_init: "turn_init sys \<Longrightarrow> turn_inv sys"
proof -
  assume i: "turn_init sys"
  have a: "active_of newTurnScheduler k = 0" for k
    by (simp add: active_of_def ts_state_def ts_view_def newTurnScheduler_def)
  have none: "count_if P (sys_gs sys) = 0" if "\<not> P Idle" for P
    using i that by (auto simp: turn_init_def count_if_zero_iff)
  show ?thesis
    by (rule turn_invI) (use i none a in \<open>auto simp: turn_init_def new_global\<close>)
qed

interpretation turn_runs: invariant_system turn_init turn_step turn_inv
  using turn_inv_init turn_inv_step by unfold_locales

abbreviation turn_reach :: "turn_system \<Rightarrow> bool" where
  "turn_reach \<equiv> reach turn_init turn_step"

section \<open>Properties of all runs\<close>

text \<open>
  C1. The limits of the scheduler: in every state that any number of goroutines can reach
  through \<^verbatim>\<open>Acquire\<close>, cancellation, \<^verbatim>\<open>Finish\<close> and \<^verbatim>\<open>Reset\<close> in any order, the number of
  tokens in the global channel is the number of goroutines that own a permit, it is at most
  three, the counter of every endpoint is exactly the number of goroutines that use the
  endpoint, and at most one of them was admitted while its group had an alternative.
\<close>

theorem scheduler_limits:
  assumes "turn_reach sys"
  shows "ts_global (sys_sched sys) = count_if has_slot (sys_gs sys)
    \<and> count_if has_slot (sys_gs sys) \<le> HandshakeConcurrency
    \<and> (\<forall>k. active_of (sys_sched sys) k = int (count_if (endpoint_user k) (sys_gs sys)))
    \<and> (\<forall>k. count_if (alternative_user k) (sys_gs sys) \<le> 1)"
  using turn_runs.reach_inv [OF assms] by (auto simp: turn_inv_def Let_def)

text \<open>
  C2. No lost wake-up: whenever some candidate of a goroutine that waits in \<^verbatim>\<open>Acquire\<close> has no
  handshake in progress and no running pause, that goroutine can continue, because the
  channel it waits for has been closed or its timer has fired.
\<close>

theorem no_lost_wakeup:
  assumes "turn_reach sys" "i < length (sys_gs sys)" "sys_gs sys ! i = Waiting pref cands g u"
    and "c \<in> set cands" "active_of (sys_sched sys) (cand_key c) = 0"
    and "\<not> sys_now sys < paused_of (sys_sched sys) (cand_key c)"
  shows "turn_step sys (move i (LoopTop pref cands) (sys_sched sys) sys)"
proof (cases "g < ts_notify (sys_sched sys)")
  case True
  then show ?thesis
    by (rule step_notified [OF assms(2,3)])
next
  case False
  then have "u \<noteq> 0" "u \<le> paused_of (sys_sched sys) (cand_key c)"
    using turn_invD(7) [OF turn_runs.reach_inv [OF assms(1)] assms(2)] assms(3-5) by auto
  then show ?thesis
    using assms(6) by (intro step_timer [OF assms(2,3)]) auto
qed

text \<open>
  The owner of a permit is never blocked by its own release: the receive of \<^verbatim>\<open>finish\<close>
  from the global channel always finds a token, and its update finds the counter of the
  endpoint positive, so the guard against negative counters is never used.
\<close>

theorem finish_never_blocks:
  assumes "turn_reach sys" "i < length (sys_gs sys)"
  shows "(\<forall>c alt. sys_gs sys ! i = Permit c alt \<longrightarrow> finish_release (sys_sched sys) \<noteq> None)
    \<and> (\<forall>c alt out. sys_gs sys ! i = Releasing c alt out \<longrightarrow> active_of (sys_sched sys) (cand_key c) > 0)"
proof (intro conjI allI impI)
  note inv = turn_runs.reach_inv [OF assms(1)]
  fix c alt
  assume "sys_gs sys ! i = Permit c alt"
  then have "0 < count_if has_slot (sys_gs sys)"
    using count_if_pos [of i "sys_gs sys" has_slot] assms(2) by simp
  then show "finish_release (sys_sched sys) \<noteq> None"
    using turn_invD(3) [OF inv] by (simp add: finish_release_def)
next
  fix c alt out
  assume "sys_gs sys ! i = Releasing c alt out"
  then show "active_of (sys_sched sys) (cand_key c) > 0"
    using user_active [OF turn_runs.reach_inv [OF assms(1)] assms(2), of "cand_key c"] by simp
qed

lemma scheduler_limits_aux:
  "turn_reach sys \<Longrightarrow> active_of (sys_sched sys) k = int (count_if (endpoint_user k) (sys_gs sys))"
  using turn_invD(5) turn_runs.reach_inv by blast

section \<open>A concrete run\<close>

text \<open>Three goroutines compete for two endpoints; the third one has to wait.\<close>

definition demo_start :: turn_system where
  "demo_start = \<lparr>sys_sched = newTurnScheduler, sys_gs = [Idle, Idle, Idle], sys_now = 5\<rparr>"

definition demo_clock :: "nat \<Rightarrow> turn_system \<Rightarrow> turn_system" where
  "demo_clock i sys = move i (ClockRead [] two_candidates (sys_now sys)) (sys_sched sys) sys"

lemma demo_clock_reach:
  assumes "turn_reach sys" "i < length (sys_gs sys)" "sys_gs sys ! i = Idle"
  shows "turn_reach (demo_clock i sys)"
proof -
  let ?s = "move i (LoopTop [] two_candidates) (sys_sched sys) sys"
  have "acquire_guard two_candidates = None"
    by (simp add: acquire_guard_def two_candidates_def)
  then have "turn_reach ?s"
    using reach_step [OF assms(1) step_call [OF assms(2,3)]] by blast
  moreover have "turn_step ?s (move i (ClockRead [] two_candidates (sys_now ?s)) (sys_sched ?s) ?s)"
    using assms(2) by (intro step_clock) simp_all
  ultimately show ?thesis
    using reach_step by (force simp: demo_clock_def move_def)
qed

definition cand_a :: turnEndpointCandidate where
  "cand_a = \<lparr>c_URL = ''turn:a:1'', c_Endpoint = ''a:1''\<rparr>"

definition cand_b :: turnEndpointCandidate where
  "cand_b = \<lparr>c_URL = ''turn:b:1'', c_Endpoint = ''b:1''\<rparr>"

definition sched1 :: turnScheduler where
  "sched1 = acquire_state two_candidates 5 newTurnScheduler"

definition sched2 :: turnScheduler where
  "sched2 = acquire_state two_candidates 5 sched1"

definition sched3 :: turnScheduler where
  "sched3 = acquire_state two_candidates 5 sched2"

lemma demo_acquire:
  "acquire_turn [] two_candidates 5 newTurnScheduler = (sched1, AcqReserved cand_a 0)"
  "acquire_turn [] two_candidates 5 sched1 = (sched2, AcqReserved cand_b 1)"
  "acquire_turn [] two_candidates 5 sched2 = (sched3, AcqWait 0 0)"
  by (simp_all add: sched1_def sched2_def sched3_def acquire_state_def sched_eval cand_a_def cand_b_def)

definition demo_waiting :: turn_system where
  "demo_waiting =
     \<lparr>sys_sched = sched3,
      sys_gs = [Reserved cand_a 0 True, Reserved cand_b 1 True, Waiting [] two_candidates 0 0],
      sys_now = 5\<rparr>"

lemma demo_waiting_reach: "turn_reach demo_waiting"
proof -
  let ?s0 = "demo_clock 0 demo_start"
  let ?s1 = "move 0 (Reserved cand_a 0 (length two_candidates > 1)) sched1 ?s0"
  let ?t1 = "demo_clock 1 ?s1"
  let ?s2 = "move 1 (Reserved cand_b 1 (length two_candidates > 1)) sched2 ?t1"
  let ?t2 = "demo_clock 2 ?s2"
  let ?s3 = "move 2 (Waiting [] two_candidates 0 0) sched3 ?t2"
  note eval = demo_clock_def demo_start_def demo_acquire
  have r: "turn_reach demo_start"
    by (rule reach_init) (simp add: turn_init_def demo_start_def)
  have r: "turn_reach ?s0"
    by (rule demo_clock_reach [OF r]) (simp_all add: demo_start_def)
  have "turn_step ?s0 ?s1"
    by (rule step_reserve [where pref = "[]" and now = 5]) (simp_all add: eval)
  note r = reach_step [OF r this]
  have r: "turn_reach ?t1"
    by (rule demo_clock_reach [OF r]) (simp_all add: eval)
  have "turn_step ?t1 ?s2"
    by (rule step_reserve [where pref = "[]" and now = 5]) (simp_all add: eval)
  note r = reach_step [OF r this]
  have r: "turn_reach ?t2"
    by (rule demo_clock_reach [OF r]) (simp_all add: eval)
  have "turn_step ?t2 ?s3"
    by (rule step_wait [where pref = "[]" and now = 5]) (simp_all add: eval)
  note r = reach_step [OF r this]
  moreover have "?s3 = demo_waiting"
    by (simp add: demo_waiting_def demo_clock_def demo_start_def move_def two_candidates_def)
  ultimately show ?thesis by simp
qed

theorem scheduler_limits_witness:
  "active_of sched3 (cand_key cand_a) = 1 \<and> ts_global sched3 = 0"
  using scheduler_limits [OF demo_waiting_reach] two_keys
  by (simp add: demo_waiting_def cand_a_def cand_b_def)

theorem no_lost_wakeup_witness:
  "\<exists>sys sys'. turn_reach sys \<and> sys_gs sys ! 2 = Waiting [] two_candidates 0 0 \<and> turn_step sys sys'"
proof -
  let ?sys = "move 0 Idle (acquire_cancel 0 (sys_sched demo_waiting)) demo_waiting"
  have r: "turn_reach ?sys"
    by (rule reach_step [OF demo_waiting_reach], rule step_cancel [where c = cand_a and alt = True])
      (simp_all add: demo_waiting_def)
  have g: "2 < length (sys_gs ?sys)" "sys_gs ?sys ! 2 = Waiting [] two_candidates 0 0"
    by (simp_all add: demo_waiting_def)
  have "active_of (sys_sched ?sys) (cand_key cand_a) = 0"
    using scheduler_limits_aux [OF r, of "cand_key cand_a"] two_keys
    by (simp add: demo_waiting_def cand_a_def cand_b_def)
  moreover have "cand_a \<in> set two_candidates"
    by (simp add: cand_a_def two_candidates_def)
  moreover have "\<not> sys_now ?sys < paused_of (sys_sched ?sys) (cand_key cand_a)"
    by (simp add: demo_waiting_def paused_of_def acquire_cancel_def sched3_def sched2_def sched1_def
        acquire_state_def sched_eval cand_a_def)
  ultimately show ?thesis
    using no_lost_wakeup [OF r g] r g by blast
qed

theorem finish_never_blocks_witness:
  "\<exists>sys. turn_reach sys \<and> sys_gs sys ! 0 = Permit cand_a True \<and> finish_release (sys_sched sys) \<noteq> None"
proof -
  let ?s = "sched3\<lparr>ts_global := Suc (ts_global sched3)\<rparr>"
  let ?sys = "move 0 (Permit cand_a True) ?s demo_waiting"
  have "ts_global sched3 = 0"
    using turn_invD(3) [OF turn_runs.reach_inv [OF demo_waiting_reach]] by (simp add: demo_waiting_def)
  then have r: "turn_reach ?sys"
    by (intro reach_step [OF demo_waiting_reach] step_slot [where c = cand_a and l = 0])
      (simp_all add: demo_waiting_def acquire_slot_def HandshakeConcurrency_def)
  show ?thesis
    using finish_never_blocks [OF r, of 0] r by (auto simp: demo_waiting_def intro!: exI [of _ ?sys])
qed

end
