(* ===== verification/HandshakeOutcome.thy ===== *)
theory HandshakeOutcome
  imports TurnCandidates
begin

text \<open>
  \<^verbatim>\<open>go_client/handshake_classification.go\<close>: how a failed DTLS handshake is reported to the
  scheduler and to the worker. A context is its \<^verbatim>\<open>Err()\<close>, a nil context is \<open>None\<close>. The
  lemmas show the priority of the classes, that a teardown of the session never counts as a
  timeout of the endpoint, and that the first cause stays in the chain of the error.
\<close>

section \<open>The cause of a teardown\<close>

definition teardown_record :: "goerr option \<Rightarrow> goerr option \<Rightarrow> goerr option" where
  "teardown_record e t = (if e = None then t else if t = None then e else t)"

definition teardown_get :: "goerr option \<Rightarrow> goerr option" where
  "teardown_get t = t"

section \<open>Classification\<close>

type_synonym ctx = "goerr option option"

definition ctx_stopped :: "ctx \<Rightarrow> bool" where
  "ctx_stopped c \<longleftrightarrow> (case c of Some (Some e) \<Rightarrow> True | _ \<Rightarrow> False)"

definition ctx_err :: "ctx \<Rightarrow> goerr option" where
  "ctx_err c = (case c of Some e \<Rightarrow> e | None \<Rightarrow> None)"

definition dtls_error :: "string \<Rightarrow> goerr \<Rightarrow> goerr" where
  "dtls_error endpoint hsErr =
     ErrWrap ((''DTLS_ERROR: '' @ [CHR 0xD1, CHR 0x81, CHR 0xD0, CHR 0xB1, CHR 0xD0, CHR 0xBE, CHR 0xD0, CHR 0xB9] @ '' '' @ [CHR 0xD1, CHR 0x80, CHR 0xD1, CHR 0x83, CHR 0xD0, CHR 0xBA, CHR 0xD0, CHR 0xBE, CHR 0xD0, CHR 0xBF, CHR 0xD0, CHR 0xBE, CHR 0xD0, CHR 0xB6, CHR 0xD0, CHR 0xB0, CHR 0xD1, CHR 0x82, CHR 0xD0, CHR 0xB8, CHR 0xD1, CHR 0x8F] @ '' DTLS (relay='') @ endpoint @ ''): '') hsErr []"

definition classifyHandshakeFailure ::
  "ctx \<Rightarrow> ctx \<Rightarrow> goerr option \<Rightarrow> goerr \<Rightarrow> goerr option \<Rightarrow> string \<Rightarrow> string \<Rightarrow>
   turnHandshakeOutcome \<times> goerr option"
where
  "classifyHandshakeFailure parent sess handshakeCtxErr hsErr cause endpoint turnURL =
     (if ctx_stopped parent then (turnOutcomeCanceled, ctx_err parent)
      else if errors_is handshakeCtxErr CtxDeadlineExceeded \<or> isTimeoutError (Some hsErr) then
        (turnOutcomeTimeout, Some (DTLSHandshakeTimeoutError endpoint turnURL (Some hsErr)))
      else if ctx_stopped sess then
        (turnOutcomeOther, Some (SessionTeardownError (Some hsErr) cause))
      else (turnOutcomeOther, Some (dtls_error endpoint hsErr)))"

definition permitOutcome :: "ctx \<Rightarrow> turnHandshakeOutcome \<Rightarrow> turnHandshakeOutcome" where
  "permitOutcome parent outcome =
     (if outcome = turnOutcomeOther \<and> ctx_stopped parent then turnOutcomeCanceled else outcome)"

section \<open>Properties\<close>

lemma teardown_first: "foldl (\<lambda>t e. teardown_record e t) None es = find (\<lambda>e. True) [e. Some e \<leftarrow> es]"
proof -
  have "foldl (\<lambda>t e. teardown_record e t) (Some x) es = Some x" for x
    by (induction es) (simp_all add: teardown_record_def)
  then show ?thesis
    by (induction es) (auto simp: teardown_record_def split: option.splits)
qed

text \<open>
  C38. A failed handshake: when the worker itself was stopped the outcome is a cancellation
  with the context's own error; otherwise it counts as a timeout of the endpoint exactly
  when the handshake's deadline has passed or the error is a timeout, and this is reported
  with the endpoint and the URL to leave; an internal teardown is neither, and the error of
  the handshake, or the recorded cause of the teardown, stays in the chain that
  \<^verbatim>\<open>errors.Is\<close> and \<^verbatim>\<open>errors.As\<close> search. The permit's outcome is the same one, unless an
  undetermined outcome meets a stopped worker.
\<close>

theorem handshake_classification:
  assumes "classifyHandshakeFailure parent sess hc hsErr cause endpoint url = (outcome, err)"
  shows "(ctx_stopped parent \<longleftrightarrow> outcome = turnOutcomeCanceled)
    \<and> outcome \<noteq> turnOutcomeSuccess
    \<and> (ctx_stopped parent \<longrightarrow> err = ctx_err parent)
    \<and> (outcome = turnOutcomeTimeout \<longleftrightarrow>
         \<not> ctx_stopped parent \<and> (errors_is hc CtxDeadlineExceeded \<or> isTimeoutError (Some hsErr)))
    \<and> (outcome = turnOutcomeTimeout \<longrightarrow>
         errors_as is_dtls_timeout err = Some (DTLSHandshakeTimeoutError endpoint url (Some hsErr)))
    \<and> (\<not> ctx_stopped parent \<longrightarrow>
         errors_is err hsErr
         \<or> (\<exists>c. cause = Some c \<and> ctx_stopped sess \<and> errors_is err c))
    \<and> permitOutcome parent outcome = outcome"
proof -
  have c: "chain (DTLSHandshakeTimeoutError endpoint url (Some hsErr))
      = DTLSHandshakeTimeoutError endpoint url (Some hsErr) # chain hsErr"
    by (subst chain.simps) simp
  have t: "chain (SessionTeardownError (Some hsErr) None)
      = SessionTeardownError (Some hsErr) None # chain hsErr"
    "chain (SessionTeardownError (Some hsErr) (Some x))
      = SessionTeardownError (Some hsErr) (Some x) # chain x" for x
    by (subst chain.simps, simp add: teardown_unwrap_def)+
  show ?thesis
    using assms chain_self
    by (auto simp: classifyHandshakeFailure_def permitOutcome_def errors_is_def errors_as_def
        c t dtls_error_def chain_wrap split: if_splits option.splits)
qed

theorem handshake_classification_witness:
  "permitOutcome (Some None) turnOutcomeOther = turnOutcomeOther"
proof -
  have t: "\<not> isTimeoutError (Some CtxCanceled)"
    by code_simp
  have c: "classifyHandshakeFailure (Some None) (Some (Some CtxCanceled)) (Some CtxCanceled) CtxCanceled
      (Some (NetError ''connection refused'' False)) ''a:1'' ''turn:a:1''
    = (turnOutcomeOther,
       Some (SessionTeardownError (Some CtxCanceled) (Some (NetError ''connection refused'' False))))"
    using t by (simp add: classifyHandshakeFailure_def ctx_stopped_def errors_is_def chain.simps)
  show ?thesis
    using handshake_classification [OF c] by simp
qed

text \<open>
  A teardown does not count against an endpoint: if the outcome of a handshake that was
  torn down from inside reaches the scheduler, the timeout counter of the endpoint stays as
  it was, so only timeouts lead to its quarantine; a success resets it.
\<close>

theorem teardown_keeps_failures:
  assumes "ts_wf s" "ts_state s (turnEndpointKey e) = Some st"
    and "classifyHandshakeFailure parent sess hc hsErr cause e url = (outcome, err)"
    and "outcome \<noteq> turnOutcomeTimeout"
  shows "map_option ep_failures
      (ts_state (finish_locked e alt (permitOutcome parent outcome) now s) (turnEndpointKey e))
    = Some (ep_failures st)"
proof -
  have "permitOutcome parent outcome \<noteq> turnOutcomeTimeout \<and> permitOutcome parent outcome \<noteq> turnOutcomeSuccess"
    using assms(3,4) by (auto simp: classifyHandshakeFailure_def permitOutcome_def split: if_splits)
  then show ?thesis
    using assms(2)
    by (cases "permitOutcome parent outcome")
      (simp_all add: finish_locked_state [OF assms(1)] outcome_update_def Let_def)
qed

theorem teardown_keeps_failures_witness:
  "map_option ep_failures (ts_state (finish_locked ''a:1'' True turnOutcomeCanceled 9
      (finish_locked ''a:1'' True turnOutcomeTimeout 7 newTurnScheduler)) (turnEndpointKey ''a:1'')) = Some 1"
proof -
  let ?s = "finish_locked ''a:1'' True turnOutcomeTimeout 7 newTurnScheduler"
  have wf: "ts_wf ?s"
    by (simp add: finish_locked_wf)
  have "map_option ep_failures (ts_state ?s (turnEndpointKey ''a:1'')) = Some 1"
    by (simp add: sched_eval)
  then obtain st where st: "ts_state ?s (turnEndpointKey ''a:1'') = Some st" "ep_failures st = 1"
    by auto
  have c: "classifyHandshakeFailure (Some (Some CtxCanceled)) (Some (Some CtxCanceled)) None CtxCanceled None
      ''a:1'' ''u'' = (turnOutcomeCanceled, Some CtxCanceled)"
    by (simp add: classifyHandshakeFailure_def ctx_stopped_def ctx_err_def)
  show ?thesis
    using teardown_keeps_failures [OF wf st(1) c, of True 9] st(2) by (simp add: permitOutcome_def)
qed

end
