(* ===== verification/FloodGate.thy ===== *)
theory FloodGate
  imports GoErrors
begin

text \<open>
  \<^verbatim>\<open>go_client/flood_gate.go\<close>: the process-wide pause after VK's flood control. The state is
  the escalation step, the end of the pause, the flag of the single probe and the number of
  times the notification channel was closed and replaced. Each definition is one critical
  section; the goroutines that use the gate are in \<open>VkFetch\<close>.
\<close>

section \<open>Recognising flood control\<close>

definition IsFloodControl :: "goerr option \<Rightarrow> bool" where
  "IsFloodControl e =
     (case e of
        None \<Rightarrow> False
      | Some x \<Rightarrow>
          errors_as is_flood_error e \<noteq> None
          \<or> (let s = to_lower (err_text x)
              in contains s ''flood control'' \<or> contains s ''error_code=9''
                 \<or> contains s ''error_code: 9'' \<or> contains s ''error 9''
                 \<or> contains s ''vk_flood_control''))"

text \<open>
  \<^verbatim>\<open>FindStringSubmatch\<close> of a literal followed by \<^verbatim>\<open>(\d+)\<close>: the digits after the first
  occurrence of the literal that has digits after it.
\<close>

fun literal_number :: "string \<Rightarrow> string \<Rightarrow> string option" where
  "literal_number lit [] = None"
| "literal_number lit (c # s) =
     (let ds = takeWhile is_digit (drop (length lit) (c # s))
      in if has_prefix (c # s) lit \<and> ds \<noteq> [] then Some ds else literal_number lit s)"

fun first_wait :: "string \<Rightarrow> string list \<Rightarrow> duration" where
  "first_wait s [] = 0"
| "first_wait s (lit # lits) =
     (case literal_number lit s of
        None \<Rightarrow> first_wait s lits
      | Some ds \<Rightarrow>
          (case atoi ds of
             (secs, ok) \<Rightarrow> if ok \<and> secs > 0 then wrap64 (secs * second) else first_wait s lits))"

definition parseExplicitRetryAfter :: "goerr option \<Rightarrow> duration" where
  "parseExplicitRetryAfter e =
     (case e of
        None \<Rightarrow> 0
      | Some x \<Rightarrow> first_wait (to_lower (err_text x)) [''try again in '', ''retry after '', ''wait ''])"

section \<open>The gate\<close>

record FloodGate =
  fg_backoffStep :: int
  fg_floodedUntil :: gotime
  fg_probeActive :: bool
  fg_notify :: nat

definition backoffSchedule :: "duration list" where
  "backoffSchedule = [60 * second, 120 * second, 240 * second, 300 * second]"

definition NewFloodGate :: FloodGate where
  "NewFloodGate = \<lparr>fg_backoffStep = 0, fg_floodedUntil = 0, fg_probeActive = False, fg_notify = 0\<rparr>"

definition fg_signal :: "FloodGate \<Rightarrow> FloodGate" where
  "fg_signal g = g\<lparr>fg_notify := Suc (fg_notify g)\<rparr>"

text \<open>
  One turn of the loop of \<^verbatim>\<open>Acquire\<close>: the caller may go on (as the probe or not), or it
  sleeps until a time or a change, or it waits for the result of the probe with a poll of
  five seconds.
\<close>

datatype gate_turn =
    GateGranted bool
  | GateSleep nat gotime
  | GateProbeWait nat gotime

definition gate_acquire :: "gotime \<Rightarrow> FloodGate \<Rightarrow> FloodGate \<times> gate_turn" where
  "gate_acquire now g =
     (if now < fg_floodedUntil g then (g, GateSleep (fg_notify g) (fg_floodedUntil g))
      else if fg_backoffStep g > 0 then
        (if \<not> fg_probeActive g then (g\<lparr>fg_probeActive := True\<rparr>, GateGranted True)
         else (g, GateProbeWait (fg_notify g) (now + 5 * second)))
      else (g, GateGranted False))"

definition ReleaseProbe :: "FloodGate \<Rightarrow> FloodGate" where
  "ReleaseProbe g = (if fg_probeActive g then fg_signal (g\<lparr>fg_probeActive := False\<rparr>) else g)"

definition explicit_wait :: "goerr option \<Rightarrow> duration" where
  "explicit_wait cause =
     (case errors_as is_flood_error cause of
        Some (FloodControlError e d) \<Rightarrow> if d > 0 then d else parseExplicitRetryAfter cause
      | _ \<Rightarrow> parseExplicitRetryAfter cause)"

text \<open>\<open>jitter\<close> is the value of \<^verbatim>\<open>rand.Intn(10)\<close>.\<close>

definition flood_pause :: "int \<Rightarrow> goerr option \<Rightarrow> FloodGate \<Rightarrow> duration" where
  "flood_pause jitter cause g =
     (let idx = (if fg_backoffStep g \<ge> int (length backoffSchedule)
                 then int (length backoffSchedule) - 1 else fg_backoffStep g);
          baseDur = backoffSchedule ! nat idx
      in if explicit_wait cause > 0 then explicit_wait cause else baseDur + jitter * second)"

definition ReportFlood :: "gotime \<Rightarrow> int \<Rightarrow> goerr option \<Rightarrow> FloodGate \<Rightarrow> duration \<times> FloodGate" where
  "ReportFlood now jitter cause g =
     (let totalDur = flood_pause jitter cause g
      in (totalDur,
          fg_signal (g\<lparr>fg_floodedUntil := now + totalDur,
                       fg_backoffStep := (if fg_backoffStep g < int (length backoffSchedule) - 1
                                          then fg_backoffStep g + 1 else fg_backoffStep g),
                       fg_probeActive := False\<rparr>)))"

definition ReportSuccess :: "FloodGate \<Rightarrow> FloodGate" where
  "ReportSuccess g =
     (let wasFlooded = fg_backoffStep g > 0 \<or> fg_floodedUntil g \<noteq> 0;
          g' = g\<lparr>fg_backoffStep := 0, fg_floodedUntil := 0, fg_probeActive := False\<rparr>
      in if wasFlooded then fg_signal g' else g')"

definition IsFlooded :: "gotime \<Rightarrow> FloodGate \<Rightarrow> bool" where
  "IsFlooded now g \<longleftrightarrow> now < fg_floodedUntil g"

definition RemainingPause :: "gotime \<Rightarrow> FloodGate \<Rightarrow> duration" where
  "RemainingPause now g = (if now < fg_floodedUntil g then fg_floodedUntil g - now else 0)"

section \<open>Properties\<close>

lemma gate_acquire_paused: "now < fg_floodedUntil g \<Longrightarrow> snd (gate_acquire now g) \<noteq> GateGranted p"
  by (simp add: gate_acquire_def)

definition gate_wf :: "FloodGate \<Rightarrow> bool" where
  "gate_wf g \<longleftrightarrow> 0 \<le> fg_backoffStep g \<and> fg_backoffStep g \<le> 3"

lemma gate_wf_ops:
  "gate_wf NewFloodGate"
  "gate_wf g \<Longrightarrow> gate_wf (fst (gate_acquire now g))"
  "gate_wf g \<Longrightarrow> gate_wf (ReleaseProbe g)"
  "gate_wf g \<Longrightarrow> gate_wf (snd (ReportFlood now j cause g))"
  "gate_wf g \<Longrightarrow> gate_wf (ReportSuccess g)"
  by (auto simp: gate_wf_def NewFloodGate_def gate_acquire_def ReleaseProbe_def ReportFlood_def
      ReportSuccess_def backoffSchedule_def fg_signal_def Let_def)

text \<open>The pauses of a series of floods without an answer in between.\<close>

fun flood_series :: "(gotime \<times> int) list \<Rightarrow> goerr option \<Rightarrow> FloodGate \<Rightarrow> duration list \<times> FloodGate" where
  "flood_series [] cause g = ([], g)"
| "flood_series ((now, jitter) # r) cause g =
     (case ReportFlood now jitter cause g of
        (d, g1) \<Rightarrow> (case flood_series r cause g1 of (ds, g2) \<Rightarrow> (d # ds, g2)))"

lemma schedule_cases:
  "gate_wf g \<Longrightarrow> fg_backoffStep g = 0 \<or> fg_backoffStep g = 1 \<or> fg_backoffStep g = 2 \<or> fg_backoffStep g = 3"
  by (auto simp: gate_wf_def)

lemma report_flood_step:
  assumes "gate_wf g" "explicit_wait cause \<le> 0"
  shows "ReportFlood now j cause g =
    (backoffSchedule ! nat (fg_backoffStep g) + j * second,
     g\<lparr>fg_floodedUntil := now + (backoffSchedule ! nat (fg_backoffStep g) + j * second),
       fg_backoffStep := min 3 (fg_backoffStep g + 1), fg_probeActive := False,
       fg_notify := Suc (fg_notify g)\<rparr>)"
  using assms
  by (auto simp: ReportFlood_def flood_pause_def backoffSchedule_def fg_signal_def gate_wf_def Let_def)

lemma flood_series_pauses:
  assumes "gate_wf g" "explicit_wait cause \<le> 0"
  shows "fst (flood_series fs cause g)
    = map (\<lambda>(i, now, j). backoffSchedule ! min 3 (nat (fg_backoffStep g) + i) + j * second)
        (enumerate 0 fs)"
  using assms(1)
proof (induction fs arbitrary: g)
  case Nil
  then show ?case by simp
next
  case (Cons f fs)
  obtain now j where f: "f = (now, j)" by (cases f)
  let ?g = "snd (ReportFlood now j cause g)"
  have wf: "gate_wf ?g"
    using Cons.prems by (rule gate_wf_ops)
  have s: "nat (fg_backoffStep ?g) = min 3 (Suc (nat (fg_backoffStep g)))"
    using Cons.prems by (auto simp: report_flood_step [OF Cons.prems assms(2)] gate_wf_def)
  have b: "min 3 (nat (fg_backoffStep ?g) + i) = min 3 (nat (fg_backoffStep g) + Suc i)" for i
    unfolding s by linarith
  have e: "enumerate 0 (f # fs) = (0, f) # map (apfst Suc) (enumerate 0 fs)"
    by (simp add: enumerate_Suc_eq apfst_def)
  have "fst (flood_series (f # fs) cause g)
      = fst (ReportFlood now j cause g) # fst (flood_series fs cause ?g)"
    by (simp add: f split: prod.splits)
  also have "fst (ReportFlood now j cause g) = backoffSchedule ! min 3 (nat (fg_backoffStep g)) + j * second"
    using Cons.prems by (auto simp: report_flood_step [OF Cons.prems assms(2)] gate_wf_def min_def le_nat_iff)
  also have "fst (flood_series fs cause ?g)
      = map (\<lambda>(i, now, j). backoffSchedule ! min 3 (nat (fg_backoffStep g) + Suc i) + j * second) (enumerate 0 fs)"
    unfolding Cons.IH [OF wf] b ..
  finally show ?case
    unfolding e by (simp add: f split_def)
qed

text \<open>
  The pauses of a series of floods: when VK names no waiting time, the i-th flood in a row
  after a success pauses all requests for 60, 120, 240 and then always 300 seconds, plus
  the random part of 0 to 9 seconds.
\<close>

theorem backoff_escalation:
  assumes "fg_backoffStep g = 0" "explicit_wait cause \<le> 0" "i < length fs"
  shows "fst (flood_series fs cause g) ! i
    = (if i = 0 then 60 else if i = 1 then 120 else if i = 2 then 240 else 300) * second + snd (fs ! i) * second"
proof -
  have wf: "gate_wf g"
    using assms(1) by (simp add: gate_wf_def)
  have b: "backoffSchedule ! min 3 i
      = (if i = 0 then 60 else if i = 1 then 120 else if i = 2 then 240 else 300) * second"
    by (auto simp: backoffSchedule_def min_def nth_Cons' numeral_eq_Suc)
  have "fst (flood_series fs cause g) ! i = backoffSchedule ! min 3 i + snd (fs ! i) * second"
    using flood_series_pauses [OF wf assms(2), of fs] assms(1,3)
    by (simp add: nth_enumerate_eq split_def)
  then show ?thesis by (simp add: b)
qed

theorem backoff_escalation_witness:
  "fst (flood_series [(10, 3), (100, 0), (300, 9), (700, 1), (1300, 2)] None NewFloodGate) ! 4 = 302 * second"
  using backoff_escalation [of NewFloodGate None 4 "[(10, 3), (100, 0), (300, 9), (700, 1), (1300, 2)]"]
  by (simp add: NewFloodGate_def explicit_wait_def errors_as_def parseExplicitRetryAfter_def second_def)

text \<open>
  The gate: while the pause runs nobody is admitted, a reported flood starts such a
  pause, after it exactly one goroutine is
  admitted as the probe and the next one has to wait for its result; the probe's success
  admits everybody again, its release without a result admits another probe.
\<close>

theorem gate_admission:
  assumes "gate_wf g"
  shows "(now < fg_floodedUntil g \<longrightarrow> (\<forall>p. snd (gate_acquire now g) \<noteq> GateGranted p))
    \<and> (\<not> now < fg_floodedUntil g \<and> fg_backoffStep g > 0 \<and> \<not> fg_probeActive g \<longrightarrow>
         (\<exists>g1. gate_acquire now g = (g1, GateGranted True)
            \<and> (\<forall>t \<ge> now. \<forall>p. snd (gate_acquire t g1) \<noteq> GateGranted p)
            \<and> snd (gate_acquire now (ReleaseProbe g1)) = GateGranted True))
    \<and> (\<forall>j cause t p. t < now + fst (ReportFlood now j cause g) \<longrightarrow>
         snd (gate_acquire t (snd (ReportFlood now j cause g))) \<noteq> GateGranted p)
    \<and> (0 \<le> now \<longrightarrow> snd (gate_acquire now (ReportSuccess g)) = GateGranted False)"
  by (auto simp: gate_acquire_def ReleaseProbe_def ReportSuccess_def ReportFlood_def fg_signal_def Let_def)

theorem gate_admission_witness:
  "snd (gate_acquire 7 (ReportSuccess (snd (ReportFlood 5 0 None NewFloodGate)))) = GateGranted False"
  using gate_admission [OF gate_wf_ops(4) [OF gate_wf_ops(1)], of 7 5 0 None] by simp

section \<open>Calls that are gone\<close>

lemma nat_digits_lead:
  assumes "9000 \<le> n" "n \<le> 9999"
  shows "\<exists>ds. nat_digits n = CHR ''9'' # ds"
proof -
  have "n div 10 div 10 div 10 = 9"
    using assms by (simp add: div_mult2_eq [symmetric])
  moreover have "n div 10 div 10 \<ge> 10" "n div 10 \<ge> 10" "n \<ge> 10"
    using assms by (simp_all add: div_mult2_eq [symmetric])
  moreover have "nat_digits 9 = ''9''"
    by code_simp
  ultimately show ?thesis
    by (subst nat_digits.simps, subst nat_digits.simps, subst nat_digits.simps) simp
qed

lemma contains_prefix_number:
  "nat_digits n = CHR ''9'' # ds \<Longrightarrow>
   contains (to_lower (call_unavailable_text (int n) msg)) ''error_code=9''"
proof -
  assume n: "nat_digits n = CHR ''9'' # ds"
  have 9: "to_lower ''(error_code='' = ''(error_code=''" "lower_char (CHR ''9'') = CHR ''9''"
    by code_simp+
  have "contains (''(error_code='' @ CHR ''9'' # x) ''error_code=9''" for x
    by simp
  moreover have "to_lower (''(error_code='' @ itoa (int n) @ y) = ''(error_code='' @ CHR ''9'' # to_lower (ds @ y)" for y
    unfolding to_lower_append 9 by (simp add: n itoa_def to_lower_def 9(2))
  ultimately have "contains (to_lower (''(error_code='' @ itoa (int n) @ y)) ''error_code=9''" for y
    by presburger
  then have *: "contains (p @ to_lower (''(error_code='' @ itoa (int n) @ y)) ''error_code=9''" for p y
    by (rule contains_appendI2)
  have "call_unavailable_text (int n) msg
      = (if msg \<noteq> [] then ''VK returns error: '' @ msg @ '' '' else ''VK call is unavailable '')
        @ ''(error_code='' @ itoa (int n) @ '')''"
    by (simp add: call_unavailable_text_def)
  then show ?thesis
    using * [of "to_lower _" "'')''"] by (metis to_lower_append)
qed

lemma dead_call_is_flood:
  assumes "code = 951 \<or> code = 954 \<or> 9000 \<le> code \<and> code \<le> 9999"
  shows "IsFloodControl (Some (CallUnavailableError code msg))"
proof -
  have "\<exists>ds. nat_digits (nat code) = CHR ''9'' # ds"
  proof -
    have "nat_digits 951 = ''951''" "nat_digits 954 = ''954''"
      by code_simp+
    then show ?thesis
      using assms nat_digits_lead [of "nat code"] by auto
  qed
  then obtain ds where "nat_digits (nat code) = CHR ''9'' # ds" ..
  moreover have "code = int (nat code)"
    using assms by auto
  ultimately show ?thesis
    using contains_prefix_number [of "nat code" ds msg] by (auto simp: IsFloodControl_def Let_def)
qed

end
