(* ===== verification/VkFetch.thy ===== *)
theory VkFetch
  imports FloodGate
begin

text \<open>
  \<^verbatim>\<open>fetchVkCredsSerialized\<close> (\<^verbatim>\<open>creds.go\<close>) and the goroutines that run it: every request to
  VK passes the flood gate, then takes the one token of \<^verbatim>\<open>vkRequestSem\<close>, checks the pause
  again, keeps a distance of at least three seconds from the previous request, runs the
  request, and releases in the order of its deferred calls. A goroutine's state is the point
  it has reached; the flag it carries is \<^verbatim>\<open>isProbe \<and> \<not> probeDone\<close>.
\<close>

section \<open>The request lock and the distance\<close>

record vk_system =
  vk_gate :: FloodGate
  vk_sem :: nat
  vk_last :: gotime
  vk_now :: gotime

definition acquireVkRequestLock :: "vk_system \<Rightarrow> vk_system option" where
  "acquireVkRequestLock s = (if vk_sem s = 0 then None else Some (s\<lparr>vk_sem := vk_sem s - 1\<rparr>))"

text \<open>The channel has room for one token; a send to the full channel is dropped.\<close>

definition releaseVkRequestLock :: "vk_system \<Rightarrow> vk_system" where
  "releaseVkRequestLock s = (if vk_sem s < 1 then s\<lparr>vk_sem := Suc (vk_sem s)\<rparr> else s)"

text \<open>\<open>r\<close> is the value of \<^verbatim>\<open>rand.Intn(3000)\<close>.\<close>

definition min_interval :: "int \<Rightarrow> duration" where
  "min_interval r = 3 * second + r * millisecond"

datatype fetch_check =
    CheckFlooded
  | CheckThrottle gotime
  | CheckGo

definition fetch_check :: "int \<Rightarrow> vk_system \<Rightarrow> fetch_check" where
  "fetch_check r s =
     (if IsFlooded (vk_now s) (vk_gate s) then CheckFlooded
      else let elapsed = vk_now s - vk_last s
           in if vk_last s \<noteq> 0 \<and> elapsed < min_interval r
              then CheckThrottle (vk_now s + (min_interval r - elapsed))
              else CheckGo)"

section \<open>Goroutines\<close>

datatype fetcher =
    FIdle
  | FGate
  | FGateWait nat gotime
  | FLock bool
  | FLocked bool
  | FThrottle bool gotime
  | FNet bool gotime
  | FStamp bool
  | FUnlock bool
  | FRelease bool

fun fetch_error :: "fetcher \<Rightarrow> goerr option \<Rightarrow> int \<Rightarrow> vk_system \<Rightarrow> vk_system \<times> fetcher" where
  "fetch_error (FNet p t0) e j s =
     (if IsFloodControl e
      then (s\<lparr>vk_gate := snd (ReportFlood (vk_now s) j e (vk_gate s))\<rparr>, FStamp False)
      else (s, FStamp p))"
| "fetch_error g e j s = (s, g)"

definition after_gate :: "gate_turn \<Rightarrow> fetcher" where
  "after_gate r =
     (case r of
        GateGranted p \<Rightarrow> FLock p
      | GateSleep n u \<Rightarrow> FGateWait n u
      | GateProbeWait n u \<Rightarrow> FGateWait n u)"

definition after_check :: "bool \<Rightarrow> gotime \<Rightarrow> fetch_check \<Rightarrow> fetcher" where
  "after_check p now r =
     (case r of CheckFlooded \<Rightarrow> FUnlock p | CheckThrottle u \<Rightarrow> FThrottle p u | CheckGo \<Rightarrow> FNet p now)"

inductive fetcher_step :: "fetcher \<Rightarrow> vk_system \<Rightarrow> fetcher \<Rightarrow> vk_system \<Rightarrow> bool" where
  fs_call: "fetcher_step FIdle s FGate s"
| fs_gate: "gate_acquire (vk_now s) (vk_gate s) = (g', r) \<Longrightarrow>
    fetcher_step FGate s (after_gate r) (s\<lparr>vk_gate := g'\<rparr>)"
| fs_gate_wake: "n < fg_notify (vk_gate s) \<or> u \<le> vk_now s \<Longrightarrow>
    fetcher_step (FGateWait n u) s FGate s"
| fs_gate_cancel: "fetcher_step (FGateWait n u) s FIdle s"
| fs_lock: "acquireVkRequestLock s = Some s' \<Longrightarrow> fetcher_step (FLock p) s (FLocked p) s'"
| fs_lock_cancel: "fetcher_step (FLock p) s (FRelease p) s"
| fs_locked_cancel: "fetcher_step (FLocked p) s (FUnlock p) s"
| fs_check: "0 \<le> r \<Longrightarrow> r < 3000 \<Longrightarrow>
    fetcher_step (FLocked p) s (after_check p (vk_now s) (fetch_check r s)) s"
| fs_throttle_cancel: "fetcher_step (FThrottle p u) s (FUnlock p) s"
| fs_throttle_flooded: "u \<le> vk_now s \<Longrightarrow> IsFlooded (vk_now s) (vk_gate s) \<Longrightarrow>
    fetcher_step (FThrottle p u) s (FUnlock p) s"
| fs_throttle_go: "u \<le> vk_now s \<Longrightarrow> \<not> IsFlooded (vk_now s) (vk_gate s) \<Longrightarrow>
    fetcher_step (FThrottle p u) s (FNet p (vk_now s)) s"
| fs_error: "0 \<le> j \<Longrightarrow> j < 10 \<Longrightarrow> fetch_error (FNet p t0) (Some e) j s = (s', g') \<Longrightarrow>
    fetcher_step (FNet p t0) s g' s'"
| fs_success: "fetcher_step (FNet p t0) s (FStamp False) (s\<lparr>vk_gate := ReportSuccess (vk_gate s)\<rparr>)"
| fs_stamp: "fetcher_step (FStamp p) s (FUnlock p) (s\<lparr>vk_last := vk_now s\<rparr>)"
| fs_unlock: "fetcher_step (FUnlock p) s (FRelease p) (releaseVkRequestLock s)"
| fs_release: "fetcher_step (FRelease p) s FIdle
    (if p then s\<lparr>vk_gate := ReleaseProbe (vk_gate s)\<rparr> else s)"

inductive fetch_step :: "vk_system \<times> fetcher list \<Rightarrow> vk_system \<times> fetcher list \<Rightarrow> bool" where
  fetch_go: "i < length gs \<Longrightarrow> fetcher_step (gs ! i) s g' s' \<Longrightarrow> fetch_step (s, gs) (s', gs[i := g'])"
| fetch_tick: "vk_now s \<le> t \<Longrightarrow> fetch_step (s, gs) (s\<lparr>vk_now := t\<rparr>, gs)"

inductive_simps fetch_step_simps: "fetch_step (s, gs) (s', gs')"

definition fetch_init :: "vk_system \<times> fetcher list \<Rightarrow> bool" where
  "fetch_init sg \<longleftrightarrow>
     (case sg of (s, gs) \<Rightarrow>
        vk_gate s = NewFloodGate \<and> vk_sem s = 1 \<and> vk_last s = 0 \<and> 0 < vk_now s \<and> set gs \<subseteq> {FIdle})"

section \<open>The invariant\<close>

fun holds_lock :: "fetcher \<Rightarrow> bool" where
  "holds_lock (FLocked p) = True"
| "holds_lock (FThrottle p u) = True"
| "holds_lock (FNet p t) = True"
| "holds_lock (FStamp p) = True"
| "holds_lock (FUnlock p) = True"
| "holds_lock _ = False"

fun in_request :: "fetcher \<Rightarrow> bool" where
  "in_request (FNet p t) = True"
| "in_request _ = False"

text \<open>
  A request that runs was started outside the pause that the gate shows now, and at least
  three seconds after the end of the previous one.
\<close>

fun fetcher_ok :: "vk_system \<Rightarrow> fetcher \<Rightarrow> bool" where
  "fetcher_ok s (FThrottle p u) = (vk_last s + 3 * second \<le> u)"
| "fetcher_ok s (FNet p t0) =
     (t0 \<le> vk_now s \<and> fg_floodedUntil (vk_gate s) \<le> t0
      \<and> (vk_last s = 0 \<or> vk_last s + 3 * second \<le> t0))"
| "fetcher_ok s _ = True"

definition fetch_inv :: "vk_system \<times> fetcher list \<Rightarrow> bool" where
  "fetch_inv sg \<longleftrightarrow>
     (case sg of (s, gs) \<Rightarrow>
        gate_wf (vk_gate s) \<and> vk_sem s + count_if holds_lock gs = 1
        \<and> (\<forall>g \<in> set gs. fetcher_ok s g))"

text \<open>What a step of one goroutine leaves alone when it does not hold the lock\<close>

lemma gate_acquire_until [simp]: "gate_acquire now g = (g', r) \<Longrightarrow> fg_floodedUntil g' = fg_floodedUntil g"
  by (auto simp: gate_acquire_def split: if_splits)

lemma ReleaseProbe_until [simp]: "fg_floodedUntil (ReleaseProbe g) = fg_floodedUntil g"
  by (simp add: ReleaseProbe_def fg_signal_def)

lemma fetcher_step_frame:
  assumes "fetcher_step g s g' s'" "\<not> holds_lock g"
  shows "vk_last s' = vk_last s \<and> vk_now s' = vk_now s
    \<and> fg_floodedUntil (vk_gate s') = fg_floodedUntil (vk_gate s)"
  using assms by cases (auto simp: acquireVkRequestLock_def split: if_splits)

lemma fetcher_ok_frame:
  assumes "vk_last s' = vk_last s" "vk_now s' = vk_now s"
    "fg_floodedUntil (vk_gate s') = fg_floodedUntil (vk_gate s)" "fetcher_ok s g"
  shows "fetcher_ok s' g"
  using assms by (cases g) auto

lemma fetcher_ok_unlocked: "\<not> holds_lock g \<Longrightarrow> fetcher_ok s g"
  by (cases g) auto

lemma fetcher_step_sem:
  assumes "fetcher_step g s g' s'" "vk_sem s + of_bool (holds_lock g) \<le> 1"
  shows "vk_sem s' + of_bool (holds_lock g') = vk_sem s + of_bool (holds_lock g)"
  using assms
  by cases (auto simp: acquireVkRequestLock_def releaseVkRequestLock_def after_gate_def after_check_def
      split: if_splits gate_turn.splits fetch_check.splits)

lemma fetcher_step_wf:
  assumes "fetcher_step g s g' s'" "gate_wf (vk_gate s)"
  shows "gate_wf (vk_gate s')"
  using assms
proof cases
  case (fs_gate r)
  then show ?thesis
    using gate_wf_ops(2) [OF assms(2), of "vk_now s"] by simp
qed (auto simp: acquireVkRequestLock_def releaseVkRequestLock_def intro: gate_wf_ops split: if_splits)

lemma fetcher_step_ok:
  assumes "fetcher_step g s g' s'" "fetcher_ok s g"
  shows "fetcher_ok s' g'"
  using assms
proof cases
  case (fs_check r p)
  then show ?thesis
    by (auto simp: after_check_def fetch_check_def min_interval_def IsFlooded_def Let_def
        second_def millisecond_def split: fetch_check.splits if_splits)
qed (auto simp: acquireVkRequestLock_def releaseVkRequestLock_def after_gate_def IsFlooded_def
    split: if_splits gate_turn.splits)

lemma fetch_inv_init: "fetch_init sg \<Longrightarrow> fetch_inv sg"
  by (cases sg) (auto simp: fetch_init_def fetch_inv_def count_if_zero_iff intro: gate_wf_ops)

lemma fetch_inv_step:
  assumes "fetch_inv sg" "fetch_step sg sg'"
  shows "fetch_inv sg'"
  using assms(2)
proof cases
  case (fetch_go i gs s g' s')
  let ?g = "gs ! i"
  have inv: "gate_wf (vk_gate s)" "vk_sem s + count_if holds_lock gs = 1"
    "\<And>g. g \<in> set gs \<Longrightarrow> fetcher_ok s g"
    using assms(1) fetch_go(1) by (auto simp: fetch_inv_def)
  have ok: "fetcher_ok s ?g"
    using fetch_go(3) by (simp add: inv(3))
  have c: "of_bool (holds_lock ?g) \<le> count_if holds_lock gs"
    using count_if_pos [of i gs holds_lock] fetch_go(3) by (cases "holds_lock ?g") auto
  have sem: "vk_sem s' + of_bool (holds_lock g') = vk_sem s + of_bool (holds_lock ?g)"
    using fetcher_step_sem [OF fetch_go(4)] c inv(2) by simp
  have others: "fetcher_ok s' (gs ! j)" if "j < length gs" "j \<noteq> i" for j
  proof (cases "holds_lock ?g")
    case False
    then show ?thesis
      using fetcher_step_frame [OF fetch_go(4)] fetcher_ok_frame that inv(3) nth_mem by blast
  next
    case True
    have "count_if holds_lock gs = 1"
      using inv(2) c True by simp
    moreover have "int (count_if holds_lock (gs[i := FIdle])) = int (count_if holds_lock gs) - 1"
      using count_if_update [OF fetch_go(3), of holds_lock FIdle] True by simp
    ultimately have "\<not> holds_lock (gs[i := FIdle] ! j)"
      using count_if_pos [of j "gs[i := FIdle]" holds_lock] that(1) by auto
    then show ?thesis
      using that fetcher_ok_unlocked by simp
  qed
  have "int (count_if holds_lock (gs[i := g']))
      = int (count_if holds_lock gs) + of_bool (holds_lock g') - of_bool (holds_lock ?g)"
    by (rule count_if_update [OF fetch_go(3)])
  then have "vk_sem s' + count_if holds_lock (gs[i := g']) = 1"
    using sem inv(2) by (cases "holds_lock g'"; cases "holds_lock ?g") auto
  moreover have "fetcher_ok s' g" if g: "g \<in> set (gs[i := g'])" for g
  proof -
    obtain j where "j < length gs" "g = gs[i := g'] ! j"
      using g by (auto simp: in_set_conv_nth)
    then have "j < length gs" "g = (if j = i then g' else gs ! j)"
      by auto
    then show ?thesis
      using others fetcher_step_ok [OF fetch_go(4) ok] by auto
  qed
  ultimately show ?thesis
    using fetcher_step_wf [OF fetch_go(4) inv(1)] by (simp add: fetch_go(2) fetch_inv_def)
next
  case (fetch_tick s t gs)
  have "fetcher_ok (s\<lparr>vk_now := t\<rparr>) g" if "fetcher_ok s g" for g
    using that fetch_tick(3) by (cases g) auto
  then show ?thesis
    using assms(1) fetch_tick by (auto simp: fetch_inv_def)
qed

interpretation fetch_runs: invariant_system fetch_init fetch_step fetch_inv
  using fetch_inv_init fetch_inv_step by unfold_locales

section \<open>Properties of all runs\<close>

abbreviation fetch_reach :: "vk_system \<times> fetcher list \<Rightarrow> bool" where
  "fetch_reach \<equiv> reach fetch_init fetch_step"

lemma holds_in_request: "count_if in_request gs \<le> count_if holds_lock gs"
  by (rule count_if_mono) (auto elim: in_request.elims)

text \<open>
  C3. Serialised requests: whatever the order in which any number of goroutines call
  \<^verbatim>\<open>fetchVkCredsSerialized\<close>, are cancelled and fail, at most one of them is in a request to
  VK; the one that is in a request has started it after the end of the flood pause and at
  least three seconds after the end of the request before.
\<close>

theorem requests_serialised:
  assumes "fetch_reach (s, gs)"
  shows "count_if in_request gs \<le> 1 \<and> vk_sem s + count_if holds_lock gs = 1
    \<and> (\<forall>p t0. FNet p t0 \<in> set gs \<longrightarrow>
         fg_floodedUntil (vk_gate s) \<le> t0 \<and> (vk_last s = 0 \<or> vk_last s + 3 * second \<le> t0))"
proof -
  have inv: "fetch_inv (s, gs)"
    using fetch_runs.reach_inv [OF assms] .
  then show ?thesis
    using holds_in_request [of gs] by (force simp: fetch_inv_def)
qed

text \<open>
  The lock is never lost: when no goroutine is between taking the token and giving it
  back, the token is in the channel, so a goroutine that waits for it can take it.
\<close>

theorem request_lock_available:
  assumes "fetch_reach (s, gs)" "count_if holds_lock gs = 0"
  shows "\<exists>s'. acquireVkRequestLock s = Some s'"
  using fetch_runs.reach_inv [OF assms(1)] assms(2)
  by (auto simp: fetch_inv_def acquireVkRequestLock_def)

definition vk_demo :: vk_system where
  "vk_demo = \<lparr>vk_gate = NewFloodGate, vk_sem = 1, vk_last = 0, vk_now = 5\<rparr>"

lemma fetch_go_at:
  assumes "fetch_reach (s, gs)" "i < length gs" "fetcher_step (gs ! i) s g' s'"
    "gs[i := g'] = gs'"
  shows "fetch_reach (s', gs')"
  using reach_step [OF assms(1) fetch_go [OF assms(2,3)]] assms(4) by simp

lemma vk_demo_gate: "gate_acquire 5 NewFloodGate = (NewFloodGate, GateGranted False)"
  by (simp add: gate_acquire_def NewFloodGate_def)

lemma vk_demo_waiting: "fetch_reach (vk_demo, [FLock False, FLock False])"
proof -
  have g: "fetcher_step FGate vk_demo (FLock False) vk_demo"
    using fs_gate [of vk_demo NewFloodGate "GateGranted False"]
    by (simp add: vk_demo_def vk_demo_gate after_gate_def)
  have r: "fetch_reach (vk_demo, [FIdle, FIdle])"
    by (rule reach_init) (simp add: fetch_init_def vk_demo_def)
  have r: "fetch_reach (vk_demo, [FGate, FIdle])"
    by (rule fetch_go_at [OF r, of 0]) (simp_all add: fs_call)
  have r: "fetch_reach (vk_demo, [FGate, FGate])"
    by (rule fetch_go_at [OF r, of 1]) (simp_all add: fs_call)
  have r: "fetch_reach (vk_demo, [FLock False, FGate])"
    by (rule fetch_go_at [OF r, of 0]) (simp_all add: g)
  show ?thesis
    by (rule fetch_go_at [OF r, of 1]) (simp_all add: g)
qed

lemma vk_demo_request: "fetch_reach (vk_demo\<lparr>vk_sem := 0\<rparr>, [FNet False 5, FLock False])"
proof -
  have r: "fetch_reach (vk_demo\<lparr>vk_sem := 0\<rparr>, [FLocked False, FLock False])"
    by (rule fetch_go_at [OF vk_demo_waiting, of 0])
      (simp_all add: fs_lock acquireVkRequestLock_def vk_demo_def)
  have "after_check False 5 (fetch_check 0 (vk_demo\<lparr>vk_sem := 0\<rparr>)) = FNet False 5"
    by (simp add: after_check_def fetch_check_def vk_demo_def IsFlooded_def NewFloodGate_def)
  then have "fetcher_step (FLocked False) (vk_demo\<lparr>vk_sem := 0\<rparr>) (FNet False 5) (vk_demo\<lparr>vk_sem := 0\<rparr>)"
    using fs_check [of 0 False "vk_demo\<lparr>vk_sem := 0\<rparr>"] by (simp add: vk_demo_def)
  then show ?thesis
    by (intro fetch_go_at [OF r, of 0]) simp_all
qed

theorem requests_serialised_witness:
  "count_if in_request [FNet False 5, FLock False] \<le> 1 \<and> fg_floodedUntil (vk_gate vk_demo) \<le> 5"
  using requests_serialised [OF vk_demo_request] by (auto simp: ex_bool_eq)

theorem request_lock_available_witness: "\<exists>s'. acquireVkRequestLock vk_demo = Some s'"
  using request_lock_available [OF vk_demo_waiting] by simp

section \<open>A call that is gone is taken for flood control\<close>

text \<open>
  \<^verbatim>\<open>fetchVkCreds\<close> returns \<^verbatim>\<open>CallUnavailableError\<close> for a call that has ended or an
  invalid link (codes 951, 954 and 9000 to 9999). Its text contains \<open>error_code=9\<close>, so
  \<^verbatim>\<open>fetchVkCredsSerialized\<close> takes it for VK's flood control: the request of one dead link
  pauses the requests of every group for at least a minute.
\<close>

theorem dead_link_pauses_everybody:
  assumes "code = 951 \<or> code = 954 \<or> 9000 \<le> code \<and> code \<le> 9999"
    and "fetch_error (FNet p t0) (Some (CallUnavailableError code msg)) j s = (s', g')"
    and "0 \<le> j" "gate_wf (vk_gate s)" "explicit_wait (Some (CallUnavailableError code msg)) \<le> 0"
    and "vk_now s \<le> t" "t < vk_now s + 60 * second"
  shows "snd (gate_acquire t (vk_gate s')) \<noteq> GateGranted q"
proof -
  have s': "vk_gate s' = snd (ReportFlood (vk_now s) j (Some (CallUnavailableError code msg)) (vk_gate s))"
    using assms(2) dead_call_is_flood [OF assms(1), of msg] by auto
  define d where "d = backoffSchedule ! nat (fg_backoffStep (vk_gate s))"
  have "60 * second \<le> d"
    using schedule_cases [OF assms(4)] by (auto simp: backoffSchedule_def d_def)
  moreover have "0 \<le> j * second"
    using assms(3) by (simp add: second_def)
  moreover have "fg_floodedUntil (vk_gate s') = vk_now s + (d + j * second)"
    by (simp add: s' report_flood_step [OF assms(4,5)] d_def)
  ultimately have "t < fg_floodedUntil (vk_gate s')"
    using assms(7) by linarith
  then show ?thesis
    by (rule gate_acquire_paused)
qed

theorem dead_link_pauses_everybody_witness:
  "\<exists>s' g'. fetch_error (FNet False 5) (Some (CallUnavailableError 951 ''Call not found'')) 0 vk_demo = (s', g')
     \<and> snd (gate_acquire 6 (vk_gate s')) \<noteq> GateGranted False"
proof -
  let ?e = "Some (CallUnavailableError 951 ''Call not found'')"
  obtain s' g' where f: "fetch_error (FNet False 5) ?e 0 vk_demo = (s', g')"
    by (cases "fetch_error (FNet False 5) ?e 0 vk_demo")
  have w: "explicit_wait ?e \<le> 0"
    by code_simp
  have "gate_wf (vk_gate vk_demo)"
    by (simp add: vk_demo_def gate_wf_ops(1))
  then show ?thesis
    using dead_link_pauses_everybody [OF _ f _ _ w, of 6 False] f
    by (auto simp: vk_demo_def second_def)
qed

end
