(* ===== verification/ConfigCoordinator.thy ===== *)
theory ConfigCoordinator
  imports GoErrors "HOL-Library.Word"
begin

text \<open>
  \<^verbatim>\<open>go_client/config_coordinator.go\<close>: the one coordinator of a tunnel that lets a single
  worker fetch the WireGuard configuration. Operations are heap objects, named by the order
  of their creation; their \<^verbatim>\<open>sync.Once\<close> is the constructor that says how far the one
  completion has come, because \<^verbatim>\<open>DeliverConfig\<close> waits for the channel between taking the
  \<^verbatim>\<open>Once\<close> and \<^verbatim>\<open>finishOp\<close>. The invariant gives at most one unfinished operation and at most
  one delivered configuration in every interleaving.
\<close>

section \<open>The coordinator\<close>

record ConfigCoordinator =
  cc_sent :: bool
  cc_currentOpID :: "64 word"
  cc_activeOp :: "nat option"
  cc_retryUntil :: gotime

datatype once =
    OnceFresh
  | OnceSending string
  | OnceFinishing bool duration
  | OnceDone

record ConfigOperation =
  op_id :: "64 word"
  op_once :: once

definition NewConfigCoordinator :: ConfigCoordinator where
  "NewConfigCoordinator = \<lparr>cc_sent = False, cc_currentOpID = 0, cc_activeOp = None, cc_retryUntil = 0\<rparr>"

text \<open>\<open>ptr\<close> is the address of the operation that a success creates.\<close>

definition TryAcquire ::
  "gotime \<Rightarrow> nat \<Rightarrow> ConfigCoordinator \<Rightarrow> ConfigCoordinator \<times> ConfigOperation option"
where
  "TryAcquire now ptr c =
     (if cc_sent c then (c, None)
      else if cc_activeOp c \<noteq> None then (c, None)
      else if now < cc_retryUntil c then (c, None)
      else
        (let n = cc_currentOpID c + 1
         in (c\<lparr>cc_currentOpID := n, cc_activeOp := Some ptr\<rparr>,
             Some \<lparr>op_id = n, op_once = OnceFresh\<rparr>)))"

definition finishOp ::
  "nat \<Rightarrow> bool \<Rightarrow> duration \<Rightarrow> gotime \<Rightarrow> ConfigCoordinator \<Rightarrow> ConfigCoordinator"
where
  "finishOp ptr success cooldown now c =
     (if cc_activeOp c \<noteq> Some ptr then c
      else
        (let c1 = c\<lparr>cc_activeOp := None\<rparr>
         in if success then c1\<lparr>cc_sent := True, cc_retryUntil := 0\<rparr>
            else if cooldown > 0 then c1\<lparr>cc_retryUntil := now + cooldown\<rparr>
            else c1))"

definition IsConfigSent :: "ConfigCoordinator \<Rightarrow> bool" where
  "IsConfigSent c = cc_sent c"

definition HasActiveOp :: "ConfigCoordinator \<Rightarrow> bool" where
  "HasActiveOp c \<longleftrightarrow> cc_activeOp c \<noteq> None"

definition CooldownRemaining :: "gotime \<Rightarrow> ConfigCoordinator \<Rightarrow> duration" where
  "CooldownRemaining now c = (if now < cc_retryUntil c then cc_retryUntil c - now else 0)"

section \<open>Completions\<close>

text \<open>
  The steps of \<^verbatim>\<open>DeliverConfig\<close> and \<^verbatim>\<open>ReleaseWithCooldown\<close> on one operation. Only the first
  caller enters the body of \<^verbatim>\<open>Once.Do\<close>.
\<close>

definition deliver_begin :: "string \<Rightarrow> bool \<Rightarrow> once \<Rightarrow> once" where
  "deliver_begin conf ch_nil x =
     (case x of
        OnceFresh \<Rightarrow> if conf = [] \<or> ch_nil then OnceFinishing False (3 * second) else OnceSending conf
      | _ \<Rightarrow> x)"

text \<open>The \<^verbatim>\<open>select\<close> between the send and the timer; \<open>accepted\<close> is the case that was taken.\<close>

definition deliver_select :: "bool \<Rightarrow> once \<Rightarrow> once \<times> string list" where
  "deliver_select accepted x =
     (case x of
        OnceSending conf \<Rightarrow>
          if accepted then (OnceFinishing True 0, [conf]) else (OnceFinishing False (3 * second), [])
      | _ \<Rightarrow> (x, []))"

definition ReleaseWithCooldown :: "duration \<Rightarrow> once \<Rightarrow> once" where
  "ReleaseWithCooldown cooldown x =
     (case x of OnceFresh \<Rightarrow> OnceFinishing False cooldown | _ \<Rightarrow> x)"

record config_system =
  cs_coord :: ConfigCoordinator
  cs_ops :: "ConfigOperation list"
  cs_channel :: "string list"
  cs_now :: gotime

definition set_once :: "nat \<Rightarrow> once \<Rightarrow> config_system \<Rightarrow> config_system" where
  "set_once i x s = s\<lparr>cs_ops := (cs_ops s)[i := (cs_ops s ! i)\<lparr>op_once := x\<rparr>]\<rparr>"

inductive config_step :: "config_system \<Rightarrow> config_system \<Rightarrow> bool" where
  cfg_acquire: "TryAcquire (cs_now s) (length (cs_ops s)) (cs_coord s) = (c', Some op) \<Longrightarrow>
    config_step s (s\<lparr>cs_coord := c', cs_ops := cs_ops s @ [op]\<rparr>)"
| cfg_deliver: "i < length (cs_ops s) \<Longrightarrow>
    config_step s (set_once i (deliver_begin conf ch_nil (op_once (cs_ops s ! i))) s)"
| cfg_select: "i < length (cs_ops s) \<Longrightarrow>
    deliver_select accepted (op_once (cs_ops s ! i)) = (x, out) \<Longrightarrow>
    config_step s ((set_once i x s)\<lparr>cs_channel := cs_channel s @ out\<rparr>)"
| cfg_release: "i < length (cs_ops s) \<Longrightarrow>
    config_step s (set_once i (ReleaseWithCooldown d (op_once (cs_ops s ! i))) s)"
| cfg_finish: "i < length (cs_ops s) \<Longrightarrow> op_once (cs_ops s ! i) = OnceFinishing success d \<Longrightarrow>
    config_step s ((set_once i OnceDone s)\<lparr>cs_coord := finishOp i success d (cs_now s) (cs_coord s)\<rparr>)"
| cfg_tick: "cs_now s \<le> t \<Longrightarrow> config_step s (s\<lparr>cs_now := t\<rparr>)"

definition config_init :: "config_system \<Rightarrow> bool" where
  "config_init s \<longleftrightarrow>
     cs_coord s = NewConfigCoordinator \<and> cs_ops s = [] \<and> cs_channel s = [] \<and> 0 < cs_now s"

section \<open>The invariant\<close>

fun is_delivering :: "once \<Rightarrow> bool" where
  "is_delivering (OnceFinishing success d) = success"
| "is_delivering _ = False"

definition config_inv :: "config_system \<Rightarrow> bool" where
  "config_inv s \<longleftrightarrow>
     (\<forall>i < length (cs_ops s). op_once (cs_ops s ! i) \<noteq> OnceDone \<longleftrightarrow> cc_activeOp (cs_coord s) = Some i)
     \<and> (\<forall>i. cc_activeOp (cs_coord s) = Some i \<longrightarrow> i < length (cs_ops s))
     \<and> (cc_sent (cs_coord s) \<longrightarrow> cc_activeOp (cs_coord s) = None)
     \<and> length (cs_channel s)
         = (if cc_sent (cs_coord s)
               \<or> (\<exists>i < length (cs_ops s). is_delivering (op_once (cs_ops s ! i))) then 1 else 0)"

lemma set_once_sel [simp]:
  "cs_coord (set_once i x s) = cs_coord s" "cs_channel (set_once i x s) = cs_channel s"
  "length (cs_ops (set_once i x s)) = length (cs_ops s)"
  by (simp_all add: set_once_def)

lemma set_once_nth:
  "j < length (cs_ops s) \<Longrightarrow>
   op_once (cs_ops (set_once i x s) ! j) = (if j = i then x else op_once (cs_ops s ! j))"
  by (cases "i < length (cs_ops s)") (auto simp: set_once_def nth_list_update)

lemma config_inv_D:
  assumes "config_inv s" "i < length (cs_ops s)" "op_once (cs_ops s ! i) \<noteq> OnceDone"
  shows "cc_activeOp (cs_coord s) = Some i" "\<not> cc_sent (cs_coord s)"
    "\<And>j. j < length (cs_ops s) \<Longrightarrow> j \<noteq> i \<Longrightarrow> op_once (cs_ops s ! j) = OnceDone"
    "length (cs_channel s) = (if is_delivering (op_once (cs_ops s ! i)) then 1 else 0)"
proof -
  show a: "cc_activeOp (cs_coord s) = Some i"
    using assms by (simp add: config_inv_def)
  then show ns: "\<not> cc_sent (cs_coord s)"
    using assms(1) by (auto simp: config_inv_def)
  show o: "\<And>j. j < length (cs_ops s) \<Longrightarrow> j \<noteq> i \<Longrightarrow> op_once (cs_ops s ! j) = OnceDone"
    using a assms(1) by (auto simp: config_inv_def)
  have "(\<exists>j < length (cs_ops s). is_delivering (op_once (cs_ops s ! j))) \<longleftrightarrow> is_delivering (op_once (cs_ops s ! i))"
    using assms(2) o by (metis is_delivering.simps(4))
  then show "length (cs_channel s) = (if is_delivering (op_once (cs_ops s ! i)) then 1 else 0)"
    using assms(1) ns by (simp add: config_inv_def)
qed

text \<open>A change of the unfinished operation that does not finish it\<close>

lemma config_inv_set:
  assumes "config_inv s" "i < length (cs_ops s)" "op_once (cs_ops s ! i) \<noteq> OnceDone" "x \<noteq> OnceDone"
    and "length (cs_channel s @ out) = (if is_delivering x then 1 else 0)"
  shows "config_inv ((set_once i x s)\<lparr>cs_channel := cs_channel s @ out\<rparr>)"
proof -
  note D = config_inv_D [OF assms(1-3)]
  have "(\<exists>j < length (cs_ops s). is_delivering (op_once (cs_ops (set_once i x s) ! j))) \<longleftrightarrow> is_delivering x"
    using assms(2) D(3) by (auto simp: set_once_nth) (metis is_delivering.simps(4))
  then show ?thesis
    using D(1-3) assms(2,4,5) by (auto simp: config_inv_def set_once_nth)
qed

lemma set_once_channel [simp]: "(set_once i x s)\<lparr>cs_channel := cs_channel s\<rparr> = set_once i x s"
  by (simp add: set_once_def)

lemma set_once_same: "i < length (cs_ops s) \<Longrightarrow> set_once i (op_once (cs_ops s ! i)) s = s"
  by (simp add: set_once_def)

lemma config_inv_local:
  assumes "config_inv s" "i < length (cs_ops s)"
    and "x = op_once (cs_ops s ! i) \<or> op_once (cs_ops s ! i) = OnceFresh \<and> x \<noteq> OnceDone \<and> \<not> is_delivering x"
  shows "config_inv (set_once i x s)"
proof (cases "x = op_once (cs_ops s ! i)")
  case True
  then show ?thesis using assms(1,2) by (simp add: set_once_same)
next
  case False
  then have f: "op_once (cs_ops s ! i) = OnceFresh" "x \<noteq> OnceDone" "\<not> is_delivering x"
    using assms(3) by auto
  have "config_inv ((set_once i x s)\<lparr>cs_channel := cs_channel s @ []\<rparr>)"
    using f config_inv_D(4) [OF assms(1,2)] by (intro config_inv_set [OF assms(1,2)]) auto
  then show ?thesis by simp
qed

lemma config_inv_init: "config_init s \<Longrightarrow> config_inv s"
  by (simp add: config_init_def config_inv_def NewConfigCoordinator_def)

lemma finishOp_owner:
  "cc_activeOp c = Some i \<Longrightarrow>
   finishOp i success d now c
     = (if success then c\<lparr>cc_activeOp := None, cc_sent := True, cc_retryUntil := 0\<rparr>
        else if d > 0 then c\<lparr>cc_activeOp := None, cc_retryUntil := now + d\<rparr>
        else c\<lparr>cc_activeOp := None\<rparr>)"
  by (simp add: finishOp_def Let_def)

lemma finishOp_stale: "cc_activeOp c \<noteq> Some i \<Longrightarrow> finishOp i success d now c = c"
  by (simp add: finishOp_def)

lemma config_inv_acquire:
  assumes "config_inv s" "TryAcquire (cs_now s) (length (cs_ops s)) (cs_coord s) = (c', Some op)"
  shows "config_inv (s\<lparr>cs_coord := c', cs_ops := cs_ops s @ [op]\<rparr>)"
proof -
  have a: "\<not> cc_sent (cs_coord s)" "cc_activeOp (cs_coord s) = None"
    and c': "cc_sent c' = cc_sent (cs_coord s)" "cc_activeOp c' = Some (length (cs_ops s))"
    and op: "op_once op = OnceFresh"
    using assms(2) by (auto simp: TryAcquire_def Let_def split: if_splits)
  have "op_once (cs_ops s ! j) = OnceDone" if "j < length (cs_ops s)" for j
    using assms(1) a that by (simp add: config_inv_def)
  then show ?thesis
    using assms(1) a c' op by (auto simp: config_inv_def nth_append less_Suc_eq)
qed

lemma config_inv_select:
  assumes "config_inv s" "i < length (cs_ops s)"
    and "deliver_select accepted (op_once (cs_ops s ! i)) = (x, out)"
  shows "config_inv ((set_once i x s)\<lparr>cs_channel := cs_channel s @ out\<rparr>)"
proof (cases "op_once (cs_ops s ! i)")
  case (OnceSending conf)
  then show ?thesis
    using assms(3) config_inv_D(4) [OF assms(1,2)]
    by (intro config_inv_set [OF assms(1,2)]) (auto simp: deliver_select_def split: if_splits)
qed (use assms config_inv_local [OF assms(1,2)] in
      \<open>auto simp: deliver_select_def set_once_same split: once.splits\<close>)

lemma config_inv_finish:
  assumes "config_inv s" "i < length (cs_ops s)" "op_once (cs_ops s ! i) = OnceFinishing success d"
  shows "config_inv ((set_once i OnceDone s)\<lparr>cs_coord := finishOp i success d (cs_now s) (cs_coord s)\<rparr>)"
proof -
  have nd: "op_once (cs_ops s ! i) \<noteq> OnceDone"
    using assms(3) by simp
  note D = config_inv_D [OF assms(1,2) nd]
  have fin: "op_once (cs_ops (set_once i OnceDone s) ! j) = OnceDone" if "j < length (cs_ops s)" for j
    using that D(3) by (simp add: set_once_nth)
  then show ?thesis
    using D(1,2,4) assms(3) by (auto simp: config_inv_def finishOp_owner)
qed

lemma config_inv_step:
  assumes "config_inv s" "config_step s s'"
  shows "config_inv s'"
  using assms(2)
proof cases
  case (cfg_deliver i conf ch_nil)
  then show ?thesis
    by (auto simp: deliver_begin_def split: once.splits intro!: config_inv_local [OF assms(1)])
next
  case (cfg_release i d)
  then show ?thesis
    by (auto simp: ReleaseWithCooldown_def split: once.splits intro!: config_inv_local [OF assms(1)])
next
  case (cfg_tick t)
  then show ?thesis
    using assms(1) by (simp add: config_inv_def)
qed (use assms(1) in \<open>auto intro: config_inv_acquire config_inv_select config_inv_finish\<close>)

interpretation config_runs: invariant_system config_init config_step config_inv
  using config_inv_init config_inv_step by unfold_locales

section \<open>Properties\<close>

abbreviation config_reach :: "config_system \<Rightarrow> bool" where
  "config_reach \<equiv> reach config_init config_step"

lemma at_most_one:
  assumes "config_inv s"
  shows "count_if (\<lambda>x. op_once x \<noteq> OnceDone) (cs_ops s) \<le> 1"
proof (cases "\<exists>i < length (cs_ops s). op_once (cs_ops s ! i) \<noteq> OnceDone")
  case False
  then have "count_if (\<lambda>x. op_once x \<noteq> OnceDone) (cs_ops s) = 0"
    by (auto simp: count_if_zero_iff in_set_conv_nth)
  then show ?thesis by simp
next
  case True
  then obtain i where i: "i < length (cs_ops s)" "op_once (cs_ops s ! i) \<noteq> OnceDone"
    by blast
  let ?u = "(cs_ops s)[i := (cs_ops s ! i)\<lparr>op_once := OnceDone\<rparr>]"
  have "count_if (\<lambda>x. op_once x \<noteq> OnceDone) ?u = 0"
    using config_inv_D(3) [OF assms i] i
    by (auto simp: count_if_zero_iff in_set_conv_nth nth_list_update)
  moreover have "int (count_if (\<lambda>x. op_once x \<noteq> OnceDone) ?u)
      = int (count_if (\<lambda>x. op_once x \<noteq> OnceDone) (cs_ops s)) - 1"
    using count_if_update [OF i(1), of "\<lambda>x. op_once x \<noteq> OnceDone"] i by simp
  ultimately show ?thesis by simp
qed

text \<open>
  C14. The configuration is fetched by one worker and delivered once: in every interleaving of
  \<^verbatim>\<open>TryAcquire\<close>, \<^verbatim>\<open>DeliverConfig\<close> and \<^verbatim>\<open>ReleaseWithCooldown\<close> on any operations, at most one
  operation is unfinished, at most one configuration has been written to the channel, one
  has been written exactly when the coordinator is in the state "sent" or the operation that
  wrote it is about to say so, and after "sent" no operation starts again.
\<close>

theorem config_delivered_once:
  assumes "config_reach s"
  shows "count_if (\<lambda>x. op_once x \<noteq> OnceDone) (cs_ops s) \<le> 1
    \<and> length (cs_channel s) \<le> 1
    \<and> (cc_sent (cs_coord s) \<longrightarrow> length (cs_channel s) = 1
         \<and> (\<forall>t ptr. snd (TryAcquire t ptr (cs_coord s)) = None))
    \<and> (length (cs_channel s) = 1 \<longrightarrow> cc_sent (cs_coord s)
         \<or> (\<exists>i d. op_once (cs_ops s ! i) = OnceFinishing True d \<and> cc_activeOp (cs_coord s) = Some i))"
proof -
  have inv: "config_inv s"
    using config_runs.reach_inv [OF assms] .
  have del: "\<exists>i d. op_once (cs_ops s ! i) = OnceFinishing True d \<and> cc_activeOp (cs_coord s) = Some i"
    if c: "length (cs_channel s) = 1" "\<not> cc_sent (cs_coord s)"
  proof -
    obtain i where i: "i < length (cs_ops s)" "is_delivering (op_once (cs_ops s ! i))"
      using inv c by (auto simp: config_inv_def split: if_splits)
    then have "op_once (cs_ops s ! i) \<noteq> OnceDone" by auto
    then show ?thesis
      using config_inv_D(1) [OF inv i(1)] i(2) by (auto elim: is_delivering.elims)
  qed
  have le: "length (cs_channel s) \<le> 1"
    and sent: "cc_sent (cs_coord s) \<Longrightarrow> length (cs_channel s) = 1"
    using inv by (simp_all add: config_inv_def)
  have none: "cc_sent (cs_coord s) \<Longrightarrow> snd (TryAcquire t ptr (cs_coord s)) = None" for t ptr
    by (simp add: TryAcquire_def)
  show ?thesis
    using at_most_one [OF inv] le sent none del by blast
qed

text \<open>
  Cooldown and stale owners: the owner's release with a positive cooldown refuses every
  \<^verbatim>\<open>TryAcquire\<close> until it has run out and allows one afterwards; a completion by an operation
  that is no longer the current one changes nothing.
\<close>

theorem config_cooldown:
  assumes "\<not> cc_sent c" "cc_activeOp c = Some i" "0 < d"
  shows "(\<forall>t < now + d. snd (TryAcquire t ptr (finishOp i False d now c)) = None)
    \<and> (\<forall>t \<ge> now + d. \<exists>c' op. TryAcquire t ptr (finishOp i False d now c) = (c', Some op)
          \<and> cc_activeOp c' = Some ptr \<and> op_id op = cc_currentOpID c + 1)
    \<and> (\<forall>j success d'. j \<noteq> i \<longrightarrow> finishOp j success d' now c = c)
    \<and> finishOp j success d' now (finishOp i False d now c) = finishOp i False d now c"
  using assms by (auto simp: finishOp_owner finishOp_stale TryAcquire_def Let_def)

definition config_demo :: config_system where
  "config_demo = \<lparr>cs_coord = NewConfigCoordinator, cs_ops = [], cs_channel = [], cs_now = 5\<rparr>"

definition coord_busy :: ConfigCoordinator where
  "coord_busy = fst (TryAcquire 5 0 NewConfigCoordinator)"

lemma config_demo_sent:
  "\<exists>s. config_reach s \<and> cs_channel s = [''conf''] \<and> cc_sent (cs_coord s)"
proof -
  let ?st = "\<lambda>c x ch. \<lparr>cs_coord = c, cs_ops = [\<lparr>op_id = 1, op_once = x\<rparr>], cs_channel = ch, cs_now = 5\<rparr>"
  have r: "config_reach config_demo"
    by (rule reach_init) (simp add: config_init_def config_demo_def)
  have "config_step config_demo (?st coord_busy OnceFresh [])"
    using cfg_acquire [of config_demo coord_busy "\<lparr>op_id = 1, op_once = OnceFresh\<rparr>"]
    by (simp add: coord_busy_def config_demo_def TryAcquire_def NewConfigCoordinator_def Let_def)
  with r have r: "config_reach (?st coord_busy OnceFresh [])"
    by (rule reach_step)
  have "config_step (?st coord_busy OnceFresh []) (?st coord_busy (OnceSending ''conf'') [])"
    using cfg_deliver [of 0 "?st coord_busy OnceFresh []" "''conf''" False]
    by (simp add: deliver_begin_def set_once_def)
  with r have r: "config_reach (?st coord_busy (OnceSending ''conf'') [])"
    by (rule reach_step)
  have "config_step (?st coord_busy (OnceSending ''conf'') [])
      (?st coord_busy (OnceFinishing True 0) [''conf''])"
    using cfg_select [of 0 "?st coord_busy (OnceSending ''conf'') []" True]
    by (simp add: deliver_select_def set_once_def)
  with r have r: "config_reach (?st coord_busy (OnceFinishing True 0) [''conf''])"
    by (rule reach_step)
  have "config_step (?st coord_busy (OnceFinishing True 0) [''conf''])
      (?st (finishOp 0 True 0 5 coord_busy) OnceDone [''conf''])"
    using cfg_finish [of 0 "?st coord_busy (OnceFinishing True 0) [''conf'']" True 0]
    by (simp add: set_once_def)
  with r have r: "config_reach (?st (finishOp 0 True 0 5 coord_busy) OnceDone [''conf''])"
    by (rule reach_step)
  moreover have "cc_sent (finishOp 0 True 0 5 coord_busy)"
    by (simp add: finishOp_def coord_busy_def TryAcquire_def NewConfigCoordinator_def Let_def)
  ultimately show ?thesis by force
qed

theorem config_delivered_once_witness:
  "\<exists>s. config_reach s \<and> length (cs_channel s) = 1 \<and> snd (TryAcquire 100 7 (cs_coord s)) = None"
  using config_demo_sent config_delivered_once by metis

theorem config_cooldown_witness:
  "snd (TryAcquire 7 1 (finishOp 0 False (3 * second) 5 coord_busy)) = None"
  using config_cooldown [of coord_busy 0 "3 * second" 5 1]
  by (simp add: coord_busy_def TryAcquire_def NewConfigCoordinator_def Let_def second_def)

end
