(* ===== verification/Protocol.thy ===== *)
theory Protocol
  imports GoErrors
begin

text \<open>
  \<^verbatim>\<open>go_client/protocol.go\<close>: the request for the WireGuard configuration and the
  authorisation over a DTLS connection that may lose packets. The connection is a script: for
  every attempt the results of its write, of setting the deadline and of its read. The
  functions return the payloads that were written next to their result.
\<close>

section \<open>The connection\<close>

record conn_turn =
  ct_write :: "goerr option"
  ct_deadline :: "goerr option"
  ct_read :: "goerr + string"

definition getconf_payload :: "string \<Rightarrow> string \<Rightarrow> string \<Rightarrow> string" where
  "getconf_payload localPort deviceID password =
     ''GETCONF:'' @ localPort @ ''|'' @ deviceID @ ''|'' @ password"

definition is_read_timeout :: "goerr \<Rightarrow> bool" where
  "is_read_timeout e \<longleftrightarrow> is_net_error e \<and> net_timeout e"

section \<open>RequestConfig\<close>

text \<open>
  The loop over the attempts that are left: \<open>Inl\<close> the error of an early return, \<open>Inr\<close> the
  last error or the answer.
\<close>

fun request_attempts ::
  "nat \<Rightarrow> (nat \<Rightarrow> conn_turn) \<Rightarrow> nat \<Rightarrow> string \<Rightarrow> goerr \<Rightarrow> string list \<times> (goerr + (goerr + string))"
where
  "request_attempts 0 conn k payload lastErr = ([], Inr (Inl lastErr))"
| "request_attempts (Suc n) conn k payload lastErr =
     (case ct_write (conn k) of
        Some e \<Rightarrow> ([], Inl (ErrWrap (([CHR 0xD0, CHR 0xBE, CHR 0xD1, CHR 0x82, CHR 0xD0, CHR 0xBF, CHR 0xD1, CHR 0x80, CHR 0xD0, CHR 0xB0, CHR 0xD0, CHR 0xB2, CHR 0xD0, CHR 0xBA, CHR 0xD0, CHR 0xB0] @ '' GETCONF: '')) e []))
      | None \<Rightarrow>
          (case ct_deadline (conn k) of
             Some e \<Rightarrow> ([payload], Inl (ErrWrap (([CHR 0xD1, CHR 0x83, CHR 0xD1, CHR 0x81, CHR 0xD1, CHR 0x82, CHR 0xD0, CHR 0xB0, CHR 0xD0, CHR 0xBD, CHR 0xD0, CHR 0xBE, CHR 0xD0, CHR 0xB2, CHR 0xD0, CHR 0xBA, CHR 0xD0, CHR 0xB0] @ '' '' @ [CHR 0xD0, CHR 0xB4, CHR 0xD0, CHR 0xB5, CHR 0xD0, CHR 0xB4, CHR 0xD0, CHR 0xBB, CHR 0xD0, CHR 0xB0, CHR 0xD0, CHR 0xB9, CHR 0xD0, CHR 0xBD, CHR 0xD0, CHR 0xB0] @ '': '')) e []))
           | None \<Rightarrow>
               (case ct_read (conn k) of
                  Inr resp \<Rightarrow> ([payload], Inr (Inr resp))
                | Inl e \<Rightarrow>
                    if is_read_timeout e then
                      (case request_attempts n conn (Suc k) payload e of (ws, r) \<Rightarrow> (payload # ws, r))
                    else ([payload], Inl (ErrWrap (([CHR 0xD1, CHR 0x87, CHR 0xD1, CHR 0x82, CHR 0xD0, CHR 0xB5, CHR 0xD0, CHR 0xBD, CHR 0xD0, CHR 0xB8, CHR 0xD0, CHR 0xB5] @ '' '' @ [CHR 0xD0, CHR 0xBE, CHR 0xD1, CHR 0x82, CHR 0xD0, CHR 0xB2, CHR 0xD0, CHR 0xB5, CHR 0xD1, CHR 0x82, CHR 0xD0, CHR 0xB0] @ '' '' @ [CHR 0xD0, CHR 0xBA, CHR 0xD0, CHR 0xBE, CHR 0xD0, CHR 0xBD, CHR 0xD1, CHR 0x84, CHR 0xD0, CHR 0xB8, CHR 0xD0, CHR 0xB3, CHR 0xD0, CHR 0xB0] @ '': '')) e [])))))"

definition denied_error :: "string \<Rightarrow> goerr" where
  "denied_error reason =
     (if reason = ''wrong_password'' then ErrText ((''FATAL_AUTH: '' @ [CHR 0xD0, CHR 0xBD, CHR 0xD0, CHR 0xB5, CHR 0xD0, CHR 0xB2, CHR 0xD0, CHR 0xB5, CHR 0xD1, CHR 0x80, CHR 0xD0, CHR 0xBD, CHR 0xD1, CHR 0x8B, CHR 0xD0, CHR 0xB9] @ '' '' @ [CHR 0xD0, CHR 0xBF, CHR 0xD0, CHR 0xB0, CHR 0xD1, CHR 0x80, CHR 0xD0, CHR 0xBE, CHR 0xD0, CHR 0xBB, CHR 0xD1, CHR 0x8C] @ '' '' @ [CHR 0xD0, CHR 0xBF, CHR 0xD0, CHR 0xBE, CHR 0xD0, CHR 0xB4, CHR 0xD0, CHR 0xBA, CHR 0xD0, CHR 0xBB, CHR 0xD1, CHR 0x8E, CHR 0xD1, CHR 0x87, CHR 0xD0, CHR 0xB5, CHR 0xD0, CHR 0xBD, CHR 0xD0, CHR 0xB8, CHR 0xD1, CHR 0x8F]))
      else if reason = ''expired'' then ErrText ((''FATAL_AUTH: '' @ [CHR 0xD1, CHR 0x81, CHR 0xD1, CHR 0x80, CHR 0xD0, CHR 0xBE, CHR 0xD0, CHR 0xBA] @ '' '' @ [CHR 0xD0, CHR 0xB4, CHR 0xD0, CHR 0xB5, CHR 0xD0, CHR 0xB9, CHR 0xD1, CHR 0x81, CHR 0xD1, CHR 0x82, CHR 0xD0, CHR 0xB2, CHR 0xD0, CHR 0xB8, CHR 0xD1, CHR 0x8F] @ '' '' @ [CHR 0xD0, CHR 0xBF, CHR 0xD0, CHR 0xB0, CHR 0xD1, CHR 0x80, CHR 0xD0, CHR 0xBE, CHR 0xD0, CHR 0xBB, CHR 0xD1, CHR 0x8F] @ '' '' @ [CHR 0xD0, CHR 0xB8, CHR 0xD1, CHR 0x81, CHR 0xD1, CHR 0x82, CHR 0xD1, CHR 0x91, CHR 0xD0, CHR 0xBA]))
      else if reason = ''device_mismatch'' then
        ErrText ((''FATAL_AUTH: '' @ [CHR 0xD0, CHR 0xBF, CHR 0xD0, CHR 0xB0, CHR 0xD1, CHR 0x80, CHR 0xD0, CHR 0xBE, CHR 0xD0, CHR 0xBB, CHR 0xD1, CHR 0x8C] @ '' '' @ [CHR 0xD0, CHR 0xBF, CHR 0xD1, CHR 0x80, CHR 0xD0, CHR 0xB8, CHR 0xD0, CHR 0xB2, CHR 0xD1, CHR 0x8F, CHR 0xD0, CHR 0xB7, CHR 0xD0, CHR 0xB0, CHR 0xD0, CHR 0xBD] @ '' '' @ [CHR 0xD0, CHR 0xBA] @ '' '' @ [CHR 0xD0, CHR 0xB4, CHR 0xD1, CHR 0x80, CHR 0xD1, CHR 0x83, CHR 0xD0, CHR 0xB3, CHR 0xD0, CHR 0xBE, CHR 0xD0, CHR 0xBC, CHR 0xD1, CHR 0x83] @ '' '' @ [CHR 0xD1, CHR 0x83, CHR 0xD1, CHR 0x81, CHR 0xD1, CHR 0x82, CHR 0xD1, CHR 0x80, CHR 0xD0, CHR 0xBE, CHR 0xD0, CHR 0xB9, CHR 0xD1, CHR 0x81, CHR 0xD1, CHR 0x82, CHR 0xD0, CHR 0xB2, CHR 0xD1, CHR 0x83]))
      else ErrText ((''FATAL_AUTH: '' @ [CHR 0xD0, CHR 0xB4, CHR 0xD0, CHR 0xBE, CHR 0xD1, CHR 0x81, CHR 0xD1, CHR 0x82, CHR 0xD1, CHR 0x83, CHR 0xD0, CHR 0xBF] @ '' '' @ [CHR 0xD0, CHR 0xB7, CHR 0xD0, CHR 0xB0, CHR 0xD0, CHR 0xBF, CHR 0xD1, CHR 0x80, CHR 0xD0, CHR 0xB5, CHR 0xD1, CHR 0x89, CHR 0xD1, CHR 0x91, CHR 0xD0, CHR 0xBD] @ '' ('') @ reason @ '')''))"

definition config_reply :: "string \<Rightarrow> goerr + string" where
  "config_reply resp =
     (if resp = ''NOCONF'' then Inr []
      else if has_prefix resp ''DENIED:'' then Inl (denied_error (trim_prefix resp ''DENIED:''))
      else Inr resp)"

text \<open>The last error is nil before the first attempt; ten attempts are always made or cut short.\<close>

definition RequestConfig ::
  "(nat \<Rightarrow> conn_turn) \<Rightarrow> string \<Rightarrow> string \<Rightarrow> string \<Rightarrow> string list \<times> (goerr + string)"
where
  "RequestConfig conn localPort deviceID password =
     (case request_attempts 10 conn 1 (getconf_payload localPort deviceID password) (ErrText []) of
        (ws, Inl e) \<Rightarrow> (ws, Inl e)
      | (ws, Inr (Inl e)) \<Rightarrow>
          (ws, Inl (ErrWrap (([CHR 0xD0, CHR 0xBF, CHR 0xD1, CHR 0x80, CHR 0xD0, CHR 0xB5, CHR 0xD0, CHR 0xB2, CHR 0xD1, CHR 0x8B, CHR 0xD1, CHR 0x88, CHR 0xD0, CHR 0xB5, CHR 0xD0, CHR 0xBD, CHR 0xD0, CHR 0xBE] @ '' '' @ [CHR 0xD0, CHR 0xBA, CHR 0xD0, CHR 0xBE, CHR 0xD0, CHR 0xBB, CHR 0xD0, CHR 0xB8, CHR 0xD1, CHR 0x87, CHR 0xD0, CHR 0xB5, CHR 0xD1, CHR 0x81, CHR 0xD1, CHR 0x82, CHR 0xD0, CHR 0xB2, CHR 0xD0, CHR 0xBE] @ '' '' @ [CHR 0xD0, CHR 0xBF, CHR 0xD0, CHR 0xBE, CHR 0xD0, CHR 0xBF, CHR 0xD1, CHR 0x8B, CHR 0xD1, CHR 0x82, CHR 0xD0, CHR 0xBE, CHR 0xD0, CHR 0xBA] @ '' '' @ [CHR 0xD0, CHR 0xB7, CHR 0xD0, CHR 0xB0, CHR 0xD0, CHR 0xBF, CHR 0xD1, CHR 0x80, CHR 0xD0, CHR 0xBE, CHR 0xD1, CHR 0x81, CHR 0xD0, CHR 0xB0] @ '' '' @ [CHR 0xD0, CHR 0xBA, CHR 0xD0, CHR 0xBE, CHR 0xD0, CHR 0xBD, CHR 0xD1, CHR 0x84, CHR 0xD0, CHR 0xB8, CHR 0xD0, CHR 0xB3, CHR 0xD0, CHR 0xB0] @ '': '')) e []))
      | (ws, Inr (Inr resp)) \<Rightarrow> (ws, config_reply resp))"

section \<open>SendAuth\<close>

fun auth_attempts :: "nat list \<Rightarrow> (nat \<Rightarrow> goerr option) \<Rightarrow> string \<Rightarrow> string list \<times> goerr option" where
  "auth_attempts [] wr payload = ([], None)"
| "auth_attempts (i # is) wr payload =
     (case wr i of
        Some e \<Rightarrow> if i = 0 then ([], Some (ErrWrap (([CHR 0xD0, CHR 0xBE, CHR 0xD1, CHR 0x82, CHR 0xD0, CHR 0xBF, CHR 0xD1, CHR 0x80, CHR 0xD0, CHR 0xB0, CHR 0xD0, CHR 0xB2, CHR 0xD0, CHR 0xBA, CHR 0xD0, CHR 0xB0] @ '' AUTH: '')) e [])) else ([], None)
      | None \<Rightarrow> (case auth_attempts is wr payload of (ws, r) \<Rightarrow> (payload # ws, r)))"

definition auth_payload :: "string \<Rightarrow> string \<Rightarrow> string" where
  "auth_payload deviceID password = ''AUTH:'' @ deviceID @ ''|'' @ password"

definition SendAuth :: "(nat \<Rightarrow> goerr option) \<Rightarrow> string \<Rightarrow> string \<Rightarrow> string list \<times> goerr option" where
  "SendAuth wr deviceID password = auth_attempts [0, 1, 2] wr (auth_payload deviceID password)"

section \<open>Properties\<close>

lemma request_attempts_writes:
  "length (fst (request_attempts n conn k p e)) \<le> n \<and> set (fst (request_attempts n conn k p e)) \<subseteq> {p}"
proof (induction n arbitrary: k e)
  case 0
  then show ?case by simp
next
  case (Suc n)
  show ?case
  proof (cases "ct_read (conn k)")
    case (Inl e')
    obtain ws r where r: "request_attempts n conn (Suc k) p e' = (ws, r)"
      by (cases "request_attempts n conn (Suc k) p e'")
    then show ?thesis
      using Suc.IH [of "Suc k" e'] Inl by (simp split: option.splits)
  next
    case (Inr resp)
    then show ?thesis by (simp split: option.splits)
  qed
qed

definition lost_turn :: "conn_turn \<Rightarrow> bool" where
  "lost_turn t \<longleftrightarrow> ct_write t = None \<and> ct_deadline t = None
     \<and> (\<exists>e. ct_read t = Inl e \<and> is_read_timeout e)"

lemma request_attempts_answer:
  assumes "\<And>i. i < m \<Longrightarrow> lost_turn (conn (k + i))" "m < n"
    "ct_write (conn (k + m)) = None" "ct_deadline (conn (k + m)) = None" "ct_read (conn (k + m)) = Inr resp"
  shows "request_attempts n conn k p e = (replicate (Suc m) p, Inr (Inr resp))"
  using assms
proof (induction m arbitrary: n k e)
  case 0
  then show ?case by (cases n) auto
next
  case (Suc m)
  obtain n' where n: "n = Suc n'" using Suc.prems(2) by (cases n) auto
  have "lost_turn (conn k)"
    using Suc.prems(1) [of 0] by simp
  then obtain e' where e': "ct_write (conn k) = None" "ct_deadline (conn k) = None"
    "ct_read (conn k) = Inl e'" "is_read_timeout e'"
    by (auto simp: lost_turn_def)
  have "request_attempts n' conn (Suc k) p e' = (replicate (Suc m) p, Inr (Inr resp))"
    using Suc.prems n by (intro Suc.IH) (use Suc.prems(1) [of "Suc _"] in auto)
  then show ?case
    using e' n by simp
qed

lemma request_attempts_lost:
  assumes "\<And>i. i < n \<Longrightarrow> lost_turn (conn (k + i))" "0 < n"
  shows "\<exists>e'. request_attempts n conn k p e = (replicate n p, Inr (Inl e')) \<and> is_read_timeout e'"
  using assms
proof (induction n arbitrary: k e)
  case 0
  then show ?case by simp
next
  case (Suc n)
  have "lost_turn (conn k)"
    using Suc.prems(1) [of 0] by simp
  then obtain e' where e': "ct_write (conn k) = None" "ct_deadline (conn k) = None"
    "ct_read (conn k) = Inl e'" "is_read_timeout e'"
    by (auto simp: lost_turn_def)
  show ?case
  proof (cases n)
    case 0
    then show ?thesis using e' by simp
  next
    case (Suc n')
    have "\<exists>e''. request_attempts n conn (Suc k) p e' = (replicate n p, Inr (Inl e'')) \<and> is_read_timeout e''"
      using Suc.prems(1) [of "Suc _"] Suc by (intro Suc.IH) auto
    then show ?thesis using e' by auto
  qed
qed

text \<open>
  The request for the configuration survives lost packets: if fewer than ten attempts in
  a row time out and the next one is answered, the answer decides the result, and the
  request was sent once per attempt; \<^verbatim>\<open>NOCONF\<close> is an empty configuration without an error,
  every \<^verbatim>\<open>DENIED:\<close> answer is a fatal authorisation error, and any other answer is returned as
  it is.
\<close>

theorem request_config_answer:
  assumes "\<forall>i < m. lost_turn (conn (1 + i))" "m < 10"
    "ct_write (conn (1 + m)) = None" "ct_deadline (conn (1 + m)) = None" "ct_read (conn (1 + m)) = Inr resp"
  shows "RequestConfig conn lp dev pw
      = (replicate (Suc m) (getconf_payload lp dev pw), config_reply resp)
    \<and> (resp = ''NOCONF'' \<longrightarrow> config_reply resp = Inr [])
    \<and> (\<forall>reason. resp = ''DENIED:'' @ reason \<longrightarrow>
         (\<exists>e. config_reply resp = Inl e \<and> has_prefix (err_text e) ''FATAL_AUTH''))
    \<and> (resp \<noteq> ''NOCONF'' \<and> \<not> has_prefix resp ''DENIED:'' \<longrightarrow> config_reply resp = Inr resp)"
proof -
  have a: "request_attempts 10 conn 1 p (ErrText []) = (replicate (Suc m) p, Inr (Inr resp))" for p
    using assms by (intro request_attempts_answer) auto
  have d: "has_prefix (err_text (denied_error reason)) ''FATAL_AUTH''" for reason
    by (simp add: denied_error_def)
  have "config_reply (''DENIED:'' @ reason) = Inl (denied_error reason)" for reason
    by (simp add: config_reply_def trim_prefix_def)
  then show ?thesis
    using a d by (auto simp: RequestConfig_def config_reply_def)
qed

text \<open>
  When all ten attempts time out, the result is an error and ten requests were written,
  and no call ever writes more than ten;
  an authorisation that was written at least once is never an error.
\<close>

theorem request_config_gives_up:
  assumes "\<forall>i < 10. lost_turn (conn (1 + i))"
  shows "(\<exists>e. RequestConfig conn lp dev pw = (replicate 10 (getconf_payload lp dev pw), Inl e))
    \<and> (\<forall>c. length (fst (RequestConfig c lp dev pw)) \<le> 10)
    \<and> (\<forall>wr. snd (SendAuth wr dev pw) = None \<longleftrightarrow> fst (SendAuth wr dev pw) \<noteq> [])"
proof -
  have le: "length (fst (RequestConfig c lp dev pw)) \<le> 10" for c
    using request_attempts_writes [of 10 c 1 "getconf_payload lp dev pw" "ErrText []"]
    by (auto simp: RequestConfig_def split: prod.splits sum.splits)
  obtain e' where "request_attempts 10 conn 1 (getconf_payload lp dev pw) (ErrText [])
      = (replicate 10 (getconf_payload lp dev pw), Inr (Inl e'))"
    using request_attempts_lost [of 10 conn 1 "getconf_payload lp dev pw" "ErrText []"] assms by auto
  then have "\<exists>e. RequestConfig conn lp dev pw = (replicate 10 (getconf_payload lp dev pw), Inl e)"
    by (simp only: RequestConfig_def prod.case sum.case) blast
  moreover have "snd (SendAuth wr dev pw) = None \<longleftrightarrow> fst (SendAuth wr dev pw) \<noteq> []" for wr
    by (auto simp: SendAuth_def split: option.splits prod.splits)
  ultimately show ?thesis
    using le by blast
qed

definition lost :: conn_turn where
  "lost = \<lparr>ct_write = None, ct_deadline = None, ct_read = Inl (NetError ''i/o timeout'' True)\<rparr>"

lemma lost_turn_lost [simp]: "lost_turn lost"
  by (simp add: lost_turn_def lost_def is_read_timeout_def)

definition third_answers :: "nat \<Rightarrow> conn_turn" where
  "third_answers k = (if k < 3 then lost else lost\<lparr>ct_read := Inr ''NOCONF''\<rparr>)"

theorem request_config_answer_witness:
  "snd (RequestConfig third_answers ''1'' ''d'' ''p'') = Inr []"
proof -
  have c: "\<forall>i < 2. lost_turn (third_answers (1 + i))" "(2::nat) < 10"
    "ct_write (third_answers (1 + 2)) = None"
    "ct_deadline (third_answers (1 + 2)) = None" "ct_read (third_answers (1 + 2)) = Inr ''NOCONF''"
    by (simp_all add: third_answers_def) (simp_all add: lost_def)
  show ?thesis
    using request_config_answer [OF c, of "''1''" "''d''" "''p''"] by simp
qed

theorem request_config_gives_up_witness:
  "\<exists>e. snd (RequestConfig (\<lambda>k. lost) ''1'' ''d'' ''p'') = Inl e"
  using request_config_gives_up [of "\<lambda>k. lost" "''1''" "''d''" "''p''"] by auto

end
