(* ===== verification/Dispatcher.thy ===== *)
theory Dispatcher
  imports GoStrings
begin

text \<open>
  \<^verbatim>\<open>go_client/dispatcher.go\<close>: WireGuard's packets are spread over the registered workers in
  chunks of eight, and the workers' packets go back to WireGuard's last address. Worker
  slots are pointers; the channel of a slot is a queue of at most \<^verbatim>\<open>workerSendBuf\<close> packets.
  \<open>read_packet\<close> and \<open>write_packet\<close> are one turn of \<^verbatim>\<open>readLoop\<close> and \<^verbatim>\<open>writeLoop\<close>; a run
  interleaves them with registrations and with the workers' receives and sends.
\<close>

section \<open>State\<close>

definition workerSendBuf :: nat where
  "workerSendBuf = 8"

definition returnChBuf :: nat where
  "returnChBuf = 384"

definition chunkSize :: nat where
  "chunkSize = 8"

definition readBufSize :: nat where
  "readBufSize = 1600"

record Dispatcher =
  d_clientAddr :: "string option"
  d_workers :: "nat list"
  d_rrIndex :: nat
  d_rrCount :: nat
  d_SendCh :: "nat \<Rightarrow> string list"
  d_ReturnCh :: "string list"
  d_TotalBytesUp :: int
  d_TotalBytesDown :: int

definition NewDispatcher :: Dispatcher where
  "NewDispatcher =
     \<lparr>d_clientAddr = None, d_workers = [], d_rrIndex = 0, d_rrCount = 0, d_SendCh = (\<lambda>_. []),
      d_ReturnCh = [], d_TotalBytesUp = 0, d_TotalBytesDown = 0\<rparr>"

definition Register :: "nat \<Rightarrow> Dispatcher \<Rightarrow> Dispatcher" where
  "Register w d = d\<lparr>d_workers := d_workers d @ [w]\<rparr>"

definition Unregister :: "nat \<Rightarrow> Dispatcher \<Rightarrow> Dispatcher" where
  "Unregister w d =
     (let ws = remove1 w (d_workers d);
          remaining = length ws;
          i = (if d_rrIndex d \<ge> remaining \<and> remaining > 0 then d_rrIndex d mod remaining else d_rrIndex d)
      in d\<lparr>d_workers := ws, d_rrIndex := i, d_rrCount := 0\<rparr>)"

interpretation worker_list: registry Register Unregister d_workers
  by unfold_locales (simp_all add: Register_def Unregister_def Let_def)

section \<open>readLoop\<close>

definition has_room :: "Dispatcher \<Rightarrow> nat \<Rightarrow> bool" where
  "has_room d w \<longleftrightarrow> length (d_SendCh d w) < workerSendBuf"

definition push :: "nat \<Rightarrow> string \<Rightarrow> Dispatcher \<Rightarrow> Dispatcher" where
  "push w pkt d = d\<lparr>d_SendCh := (d_SendCh d)(w := d_SendCh d w @ [pkt])\<rparr>"

text \<open>The offset of the first other worker with room\<close>

definition alt_offset :: "nat \<Rightarrow> Dispatcher \<Rightarrow> nat option" where
  "alt_offset idx d =
     (let nw = length (d_workers d)
      in find (\<lambda>i. has_room d (d_workers d ! ((idx + i) mod nw))) [1 ..< nw])"

text \<open>The part of an iteration under the mutex: the slot that got the packet, if any\<close>

definition dispatch :: "string \<Rightarrow> Dispatcher \<Rightarrow> Dispatcher \<times> nat option" where
  "dispatch pkt d =
     (let nw = length (d_workers d) in
      if nw = 0 then (d, None)
      else
        (let idx = d_rrIndex d mod nw; w = d_workers d ! idx in
         if has_room d w then
           (let d1 = push w pkt d; c = d_rrCount d + 1
            in (if c \<ge> chunkSize then d1\<lparr>d_rrIndex := (idx + 1) mod nw, d_rrCount := 0\<rparr>
                else d1\<lparr>d_rrCount := c\<rparr>,
                Some w))
         else
           (case alt_offset idx d of
              Some i \<Rightarrow>
                (let altIdx = (idx + i) mod nw; w' = d_workers d ! altIdx
                 in ((push w' pkt d)\<lparr>d_rrIndex := altIdx, d_rrCount := 1\<rparr>, Some w'))
            | None \<Rightarrow> (d\<lparr>d_rrIndex := (idx + 1) mod nw, d_rrCount := 0\<rparr>, None))))"

text \<open>A datagram longer than the buffer is cut by \<^verbatim>\<open>ReadFrom\<close>.\<close>

definition read_packet :: "string \<Rightarrow> string \<Rightarrow> Dispatcher \<Rightarrow> Dispatcher \<times> nat option" where
  "read_packet datagram addr d =
     (let pkt = take readBufSize datagram
      in dispatch pkt (d\<lparr>d_clientAddr := Some addr, d_TotalBytesUp := d_TotalBytesUp d + int (length pkt)\<rparr>))"

section \<open>writeLoop\<close>

text \<open>
  One packet of \<^verbatim>\<open>ReturnCh\<close>: the datagram that is written, if WireGuard's address is known;
  \<open>stopped\<close> says that the write failed after the context was cancelled, which ends the loop
  before the packet is counted.
\<close>

definition write_packet :: "bool \<Rightarrow> Dispatcher \<Rightarrow> Dispatcher \<times> (string \<times> string) option" where
  "write_packet stopped d =
     (case d_ReturnCh d of
        [] \<Rightarrow> (d, None)
      | pkt # r \<Rightarrow>
          (let d1 = d\<lparr>d_ReturnCh := r\<rparr> in
           case d_clientAddr d of
             None \<Rightarrow> (d1, None)
           | Some addr \<Rightarrow>
               if stopped then (d1, None)
               else (d1\<lparr>d_TotalBytesDown := d_TotalBytesDown d + int (length pkt)\<rparr>, Some (addr, pkt))))"

section \<open>Where a packet goes\<close>

lemma alt_offset_Some:
  assumes "alt_offset idx d = Some i"
  shows "1 \<le> i \<and> i < length (d_workers d) \<and> has_room d (d_workers d ! ((idx + i) mod length (d_workers d)))"
  using assms by (auto simp: alt_offset_def Let_def dest!: find_SomeD)

lemma alt_offset_None:
  assumes "alt_offset idx d = None" "idx < length (d_workers d)" "\<not> has_room d (d_workers d ! idx)"
    "w \<in> set (d_workers d)"
  shows "\<not> has_room d w"
proof -
  let ?n = "length (d_workers d)"
  obtain j where j: "j < ?n" "w = d_workers d ! j"
    using assms(4) by (auto simp: in_set_conv_nth)
  show ?thesis
  proof (cases "j = idx")
    case True
    then show ?thesis using assms(3) j by simp
  next
    case False
    let ?i = "(?n + j - idx) mod ?n"
    have "(idx + ?i) mod ?n = (idx + (?n + j - idx)) mod ?n"
      by (rule mod_add_right_eq)
    also have "\<dots> = j"
      using j(1) assms(2) by simp
    finally have ij: "(idx + ?i) mod ?n = j" .
    then have "?i \<noteq> 0"
      using False assms(2) by (metis add_0_right mod_less)
    moreover have "?i < ?n"
      using j(1) by (intro mod_less_divisor) auto
    ultimately have "?i \<in> set [1 ..< ?n]"
      by simp
    then show ?thesis
      using assms(1) ij j(2) by (auto simp: alt_offset_def Let_def find_None_iff)
  qed
qed

text \<open>
  Where a packet of WireGuard goes: it is dropped only when every registered worker's
  queue is full; otherwise it is appended to the queue of exactly one registered worker that
  had room, no other queue changes, and the worker in turn is chosen whenever it has room.
\<close>

theorem dispatch_target:
  assumes "dispatch pkt d = (d', r)"
  shows "(r = None \<longleftrightarrow> (\<forall>w \<in> set (d_workers d). \<not> has_room d w))
    \<and> (r = None \<longrightarrow> d_SendCh d' = d_SendCh d)
    \<and> (\<forall>w. r = Some w \<longrightarrow> w \<in> set (d_workers d) \<and> has_room d w
         \<and> d_SendCh d' = (d_SendCh d)(w := d_SendCh d w @ [pkt]))
    \<and> (d_workers d \<noteq> [] \<and> has_room d (d_workers d ! (d_rrIndex d mod length (d_workers d))) \<longrightarrow>
         r = Some (d_workers d ! (d_rrIndex d mod length (d_workers d))))
    \<and> d_workers d' = d_workers d"
proof (cases "d_workers d = []")
  case True
  then show ?thesis using assms by (auto simp: dispatch_def)
next
  case False
  define nw where "nw = length (d_workers d)"
  define idx where "idx = d_rrIndex d mod nw"
  have nw: "0 < nw" "idx < nw" using False by (simp_all add: nw_def idx_def)
  have mem: "d_workers d ! idx \<in> set (d_workers d)"
    using nw by (simp add: nw_def)
  show ?thesis
  proof (cases "has_room d (d_workers d ! idx)")
    case True
    then show ?thesis
      using assms False mem
      by (auto simp: dispatch_def Let_def push_def nw_def idx_def split: if_splits)
  next
    case full: False
    show ?thesis
    proof (cases "alt_offset idx d")
      case None
      have "\<forall>w \<in> set (d_workers d). \<not> has_room d w"
        using alt_offset_None [OF None _ full] nw(2) by (simp add: nw_def)
      then show ?thesis
        using assms False full None by (auto simp: dispatch_def Let_def nw_def idx_def)
    next
      case (Some i)
      have "d_workers d ! ((idx + i) mod nw) \<in> set (d_workers d)"
        using nw(1) by (simp add: nw_def)
      then show ?thesis
        using assms False full Some alt_offset_Some [OF Some]
        by (auto simp: dispatch_def Let_def push_def nw_def idx_def)
    qed
  qed
qed

section \<open>Chunks\<close>

fun dispatch_all :: "string list \<Rightarrow> Dispatcher \<Rightarrow> Dispatcher \<times> nat option list" where
  "dispatch_all [] d = (d, [])"
| "dispatch_all (p # ps) d =
     (case dispatch p d of (d1, r) \<Rightarrow> (case dispatch_all ps d1 of (d2, rs) \<Rightarrow> (d2, r # rs)))"

lemma dispatch_all_append:
  "dispatch_all (ps @ qs) d =
     (case dispatch_all ps d of (d1, rs) \<Rightarrow> (case dispatch_all qs d1 of (d2, ss) \<Rightarrow> (d2, rs @ ss)))"
  by (induction ps arbitrary: d) (auto split: prod.splits)

definition current_worker :: "Dispatcher \<Rightarrow> nat" where
  "current_worker d = d_workers d ! (d_rrIndex d mod length (d_workers d))"

lemma dispatch_current:
  assumes "d_workers d \<noteq> []" "has_room d (current_worker d)"
  shows "dispatch pkt d =
    (if d_rrCount d + 1 \<ge> chunkSize
     then (push (current_worker d) pkt d)
            \<lparr>d_rrIndex := (d_rrIndex d mod length (d_workers d) + 1) mod length (d_workers d), d_rrCount := 0\<rparr>
     else (push (current_worker d) pkt d)\<lparr>d_rrCount := d_rrCount d + 1\<rparr>,
     Some (current_worker d))"
  using assms by (simp add: dispatch_def current_worker_def Let_def)

lemma chunk_run:
  assumes "d_workers d \<noteq> []" "d_rrCount d = c" "length (d_SendCh d (current_worker d)) \<le> c"
    "c + length ps = chunkSize" "ps \<noteq> []"
  shows "dispatch_all ps d =
    (d\<lparr>d_SendCh := (d_SendCh d)(current_worker d := d_SendCh d (current_worker d) @ ps),
       d_rrIndex := (d_rrIndex d mod length (d_workers d) + 1) mod length (d_workers d), d_rrCount := 0\<rparr>,
     replicate (length ps) (Some (current_worker d)))"
  using assms
proof (induction ps arbitrary: d c)
  case Nil
  then show ?case by simp
next
  case (Cons p ps)
  let ?w = "current_worker d"
  have room: "has_room d ?w"
    using Cons.prems(2-4) by (simp add: has_room_def workerSendBuf_def chunkSize_def)
  show ?case
  proof (cases "ps = []")
    case True
    then show ?thesis
      using Cons.prems dispatch_current [OF Cons.prems(1) room, of p] by (simp add: push_def fun_upd_def)
  next
    case False
    let ?d = "(push ?w p d)\<lparr>d_rrCount := d_rrCount d + 1\<rparr>"
    have c: "\<not> d_rrCount d + 1 \<ge> chunkSize"
      using Cons.prems(2,4) False by (cases ps) auto
    have w: "current_worker ?d = ?w"
      by (simp add: current_worker_def push_def)
    have "dispatch_all ps ?d =
      (?d\<lparr>d_SendCh := (d_SendCh ?d)(?w := d_SendCh ?d ?w @ ps),
         d_rrIndex := (d_rrIndex ?d mod length (d_workers ?d) + 1) mod length (d_workers ?d), d_rrCount := 0\<rparr>,
       replicate (length ps) (Some ?w))"
      using Cons.IH [of ?d "Suc c"] Cons.prems False unfolding w by (simp add: push_def) (simp add: fun_upd_def cong: if_cong)
    then show ?thesis
      using c dispatch_current [OF Cons.prems(1) room, of p]
      by (simp add: push_def fun_upd_def cong: if_cong)
  qed
qed

lemma chunks_run:
  assumes "distinct (d_workers d)" "d_workers d \<noteq> []" "d_rrCount d = 0"
    "\<forall>w \<in> set (d_workers d). d_SendCh d w = []" "length ps = m * chunkSize" "m \<le> length (d_workers d)"
    "dispatch_all ps d = (d', rs)"
  shows "d_workers d' = d_workers d \<and> d_rrCount d' = 0
    \<and> d_rrIndex d' mod length (d_workers d) = (d_rrIndex d + m) mod length (d_workers d)
    \<and> rs = concat (map (\<lambda>k. replicate chunkSize (Some (d_workers d ! ((d_rrIndex d + k) mod length (d_workers d))))) [0 ..< m])
    \<and> (\<forall>k < length (d_workers d).
         d_SendCh d' (d_workers d ! ((d_rrIndex d + k) mod length (d_workers d)))
           = (if k < m then take chunkSize (drop (k * chunkSize) ps) else []))"
  using assms(5-7)
proof (induction m arbitrary: ps d' rs)
  case 0
  then show ?case
    using assms(2-4) by (auto simp: nth_mem)
next
  case (Suc m)
  let ?n = "length (d_workers d)"
  let ?at = "\<lambda>k. d_workers d ! ((d_rrIndex d + k) mod ?n)"
  let ?p1 = "take (m * chunkSize) ps" and ?p2 = "drop (m * chunkSize) ps"
  obtain d1 rs1 where d1: "dispatch_all ?p1 d = (d1, rs1)"
    by (cases "dispatch_all ?p1 d")
  have l: "length ?p1 = m * chunkSize" "length ?p2 = chunkSize"
    using Suc.prems(1) by simp_all
  have IH: "d_workers d1 = d_workers d" "d_rrCount d1 = 0"
    "d_rrIndex d1 mod ?n = (d_rrIndex d + m) mod ?n"
    "rs1 = concat (map (\<lambda>k. replicate chunkSize (Some (?at k))) [0 ..< m])"
    "\<And>k. k < ?n \<Longrightarrow> d_SendCh d1 (?at k) = (if k < m then take chunkSize (drop (k * chunkSize) ?p1) else [])"
    using Suc.IH [OF l(1) _ d1] Suc.prems(2) by auto
  have cw: "current_worker d1 = ?at m"
    using IH(1,3) by (simp add: current_worker_def)
  have "dispatch_all ?p2 d1 =
      (d1\<lparr>d_SendCh := (d_SendCh d1)(?at m := [] @ ?p2),
         d_rrIndex := (d_rrIndex d1 mod ?n + 1) mod ?n, d_rrCount := 0\<rparr>,
       replicate chunkSize (Some (?at m)))"
    using chunk_run [of d1 0 ?p2] assms(2) IH(1,2) IH(5) [of m] Suc.prems(2) l(2) cw
    by (auto simp: chunkSize_def)
  then have d': "d' = d1\<lparr>d_SendCh := (d_SendCh d1)(?at m := ?p2),
         d_rrIndex := (d_rrIndex d1 mod ?n + 1) mod ?n, d_rrCount := 0\<rparr>"
    and rs: "rs = rs1 @ replicate chunkSize (Some (?at m))"
    using Suc.prems(3) d1 dispatch_all_append [of ?p1 ?p2 d] by auto
  have inj: "?at k = ?at m \<longleftrightarrow> k = m" if "k < ?n" for k
    using that Suc.prems(2) mod_shift_inj [OF that, of m "d_rrIndex d"] assms(2)
    by (auto simp: nth_eq_iff_index_eq [OF assms(1)])
  have idx: "d_rrIndex d' mod ?n = (d_rrIndex d + Suc m) mod ?n"
    using IH(3) by (simp add: d' mod_Suc_eq)
  have ch: "d_SendCh d' (?at k) = (if k < Suc m then take chunkSize (drop (k * chunkSize) ps) else [])"
    if k: "k < ?n" for k
  proof (cases "k < m")
    case True
    then have "k * chunkSize + chunkSize \<le> m * chunkSize"
      by (metis Suc_leI add.commute mult_Suc mult_le_mono1)
    then have "take chunkSize (drop (k * chunkSize) ?p1) = take chunkSize (drop (k * chunkSize) ps)"
      by (simp add: drop_take min_def)
    then show ?thesis
      using True IH(5) [OF k] inj [OF k] by (simp add: d')
  next
    case False
    then show ?thesis
      using IH(5) [OF k] inj [OF k] l(2) by (auto simp: d')
  qed
  show ?case
    using IH(1,4) idx ch by (simp add: d' rs)
qed

text \<open>
  Chunks: when the queues of the n registered workers are empty and a chunk begins, the
  next 8 n packets are spread without a loss so that every worker gets exactly one chunk of
  eight consecutive packets in their order, the workers being served in turn.
\<close>

theorem chunk_round:
  assumes "distinct (d_workers d)" "d_workers d \<noteq> []" "d_rrCount d = 0"
    "\<forall>w \<in> set (d_workers d). d_SendCh d w = []" "length ps = length (d_workers d) * chunkSize"
    "dispatch_all ps d = (d', rs)"
  shows "None \<notin> set rs
    \<and> (\<forall>k < length (d_workers d).
         d_SendCh d' (d_workers d ! ((d_rrIndex d + k) mod length (d_workers d)))
           = take chunkSize (drop (k * chunkSize) ps))
    \<and> d_rrIndex d' mod length (d_workers d) = d_rrIndex d mod length (d_workers d)"
  using chunks_run [OF assms(1-5) order_refl assms(6)] by auto

definition disp_three :: Dispatcher where
  "disp_three = NewDispatcher\<lparr>d_workers := [4, 7, 9], d_rrIndex := 1\<rparr>"

theorem dispatch_target_witness:
  "\<exists>d' r. dispatch ''x'' disp_three = (d', r) \<and> r = Some 7"
proof -
  obtain d' r where d: "dispatch ''x'' disp_three = (d', r)"
    by (cases "dispatch ''x'' disp_three")
  show ?thesis
    using dispatch_target [OF d] d
    by (auto simp: disp_three_def NewDispatcher_def has_room_def workerSendBuf_def)
qed

theorem chunk_round_witness:
  "\<exists>d' rs. dispatch_all (replicate 24 ''x'') disp_three = (d', rs)
     \<and> d_SendCh d' 9 = replicate 8 ''x'' \<and> None \<notin> set rs"
proof -
  obtain d' rs where d: "dispatch_all (replicate 24 ''x'') disp_three = (d', rs)"
    by (cases "dispatch_all (replicate 24 ''x'') disp_three")
  have p: "distinct (d_workers disp_three)" "d_workers disp_three \<noteq> []" "d_rrCount disp_three = 0"
    "\<forall>w \<in> set (d_workers disp_three). d_SendCh disp_three w = []"
    "length (replicate 24 ''x'') = length (d_workers disp_three) * chunkSize"
    by (simp_all add: disp_three_def NewDispatcher_def chunkSize_def)
  have "1 < length (d_workers disp_three)"
    by (simp add: disp_three_def)
  then have "d_SendCh d' (d_workers disp_three ! ((d_rrIndex disp_three + 1) mod length (d_workers disp_three)))
      = take chunkSize (drop (1 * chunkSize) (replicate 24 ''x''))" "None \<notin> set rs"
    using chunk_round [OF p d] by blast+
  then show ?thesis
    using d by (simp add: disp_three_def chunkSize_def)
qed

section \<open>Runs\<close>

text \<open>
  A run of the dispatcher with its workers. \<open>ds_log\<close> lists the packets put into queues with
  their slots, \<open>ds_got\<close> the packets that workers have taken, \<open>ds_dropped\<close> the packets
  nobody took, \<open>ds_next\<close> the next slot's address.
\<close>

record disp_system =
  ds_d :: Dispatcher
  ds_read :: "string list"
  ds_log :: "(nat \<times> string) list"
  ds_got :: "(nat \<times> string) list"
  ds_dropped :: "string list"
  ds_next :: nat

definition packets_of :: "nat \<Rightarrow> (nat \<times> string) list \<Rightarrow> string list" where
  "packets_of w xs = map snd (filter (\<lambda>x. fst x = w) xs)"

definition log_read :: "string \<Rightarrow> nat option \<Rightarrow> disp_system \<Rightarrow> disp_system" where
  "log_read pkt r s =
     (case r of
        Some w \<Rightarrow> s\<lparr>ds_read := ds_read s @ [pkt], ds_log := ds_log s @ [(w, pkt)]\<rparr>
      | None \<Rightarrow> s\<lparr>ds_read := ds_read s @ [pkt], ds_dropped := ds_dropped s @ [pkt]\<rparr>)"

inductive disp_step :: "disp_system \<Rightarrow> disp_system \<Rightarrow> bool" where
  ds_register: "disp_step s (s\<lparr>ds_d := Register (ds_next s) (ds_d s), ds_next := Suc (ds_next s)\<rparr>)"
| ds_unregister: "disp_step s (s\<lparr>ds_d := Unregister w (ds_d s)\<rparr>)"
| ds_packet: "read_packet datagram addr (ds_d s) = (d', r) \<Longrightarrow>
    disp_step s ((log_read (take readBufSize datagram) r s)\<lparr>ds_d := d'\<rparr>)"
| ds_take: "d_SendCh (ds_d s) w = pkt # q \<Longrightarrow>
    disp_step s (s\<lparr>ds_d := (ds_d s)\<lparr>d_SendCh := (d_SendCh (ds_d s))(w := q)\<rparr>, ds_got := ds_got s @ [(w, pkt)]\<rparr>)"
| ds_return: "length (d_ReturnCh (ds_d s)) < returnChBuf \<Longrightarrow>
    disp_step s (s\<lparr>ds_d := (ds_d s)\<lparr>d_ReturnCh := d_ReturnCh (ds_d s) @ [pkt]\<rparr>\<rparr>)"
| ds_write: "write_packet stopped (ds_d s) = (d', out) \<Longrightarrow> disp_step s (s\<lparr>ds_d := d'\<rparr>)"

definition disp_init :: "disp_system \<Rightarrow> bool" where
  "disp_init s \<longleftrightarrow> ds_d s = NewDispatcher \<and> ds_read s = [] \<and> ds_log s = [] \<and> ds_got s = [] \<and> ds_dropped s = []"

definition disp_inv :: "disp_system \<Rightarrow> bool" where
  "disp_inv s \<longleftrightarrow>
     distinct (d_workers (ds_d s)) \<and> (\<forall>w \<in> set (d_workers (ds_d s)). w < ds_next s)
     \<and> d_rrCount (ds_d s) < chunkSize
     \<and> length (d_ReturnCh (ds_d s)) \<le> returnChBuf
     \<and> (\<forall>w. length (d_SendCh (ds_d s) w) \<le> workerSendBuf)
     \<and> (\<forall>w. packets_of w (ds_log s) = packets_of w (ds_got s) @ d_SendCh (ds_d s) w)
     \<and> length (ds_read s) = length (ds_log s) + length (ds_dropped s)"

lemma packets_of_simps [simp]:
  "packets_of w [] = []"
  "packets_of w (xs @ [(v, p)]) = packets_of w xs @ (if v = w then [p] else [])"
  by (simp_all add: packets_of_def)

lemma log_read_sel [simp]:
  "ds_got (log_read p r s) = ds_got s" "ds_next (log_read p r s) = ds_next s"
  by (simp_all add: log_read_def split: option.splits)

lemma dispatch_count: "d_rrCount d < chunkSize \<Longrightarrow> d_rrCount (fst (dispatch pkt d)) < chunkSize"
  by (auto simp: dispatch_def Let_def push_def chunkSize_def split: option.splits)

lemma dispatch_return: "d_ReturnCh (fst (dispatch pkt d)) = d_ReturnCh d"
  by (auto simp: dispatch_def Let_def push_def split: option.splits)

lemma disp_inv_packet:
  assumes "disp_inv s" "read_packet datagram addr (ds_d s) = (d', r)"
  shows "disp_inv ((log_read (take readBufSize datagram) r s)\<lparr>ds_d := d'\<rparr>)"
proof -
  let ?pkt = "take readBufSize datagram"
  let ?d = "(ds_d s)\<lparr>d_clientAddr := Some addr, d_TotalBytesUp := d_TotalBytesUp (ds_d s) + int (length ?pkt)\<rparr>"
  have d: "dispatch ?pkt ?d = (d', r)"
    using assms(2) by (simp add: read_packet_def)
  note t = dispatch_target [OF d]
  have c: "d_rrCount d' < chunkSize" "d_ReturnCh d' = d_ReturnCh (ds_d s)"
    using dispatch_count [of ?d ?pkt] dispatch_return [of ?pkt ?d] assms(1) d
    by (simp_all add: disp_inv_def)
  show ?thesis
  proof (cases r)
    case None
    then show ?thesis
      using assms(1) t c by (simp add: disp_inv_def log_read_def)
  next
    case (Some w)
    then have "d_SendCh d' = (d_SendCh (ds_d s))(w := d_SendCh (ds_d s) w @ [?pkt])"
      "length (d_SendCh (ds_d s) w) < workerSendBuf" "d_workers d' = d_workers (ds_d s)"
      using t by (simp_all add: has_room_def)
    then show ?thesis
      using assms(1) c Some by (auto simp: disp_inv_def log_read_def)
  qed
qed

lemma disp_inv_step:
  assumes "disp_inv s" "disp_step s s'"
  shows "disp_inv s'"
  using assms(2)
proof cases
  case ds_register
  have "ds_next s \<notin> set (d_workers (ds_d s))"
    using assms(1) by (auto simp: disp_inv_def)
  then show ?thesis
    using assms(1) ds_register by (auto simp: disp_inv_def Register_def)
next
  case (ds_unregister w)
  then show ?thesis
    using assms(1) worker_list.del_distinct [of "ds_d s" w]
    by (auto simp: disp_inv_def Unregister_def Let_def chunkSize_def dest: notin_set_remove1)
next
  case (ds_packet datagram addr d' r)
  then show ?thesis
    using disp_inv_packet [OF assms(1)] by simp
next
  case (ds_take w pkt q)
  have "length q \<le> workerSendBuf"
    using assms(1) ds_take(2) by (auto simp: disp_inv_def dest: spec [of _ w])
  moreover have "packets_of w (ds_log s) = packets_of w (ds_got s) @ pkt # q"
    using assms(1) ds_take(2) by (simp add: disp_inv_def)
  ultimately show ?thesis
    using assms(1) ds_take by (auto simp: disp_inv_def)
next
  case (ds_return pkt)
  then show ?thesis
    using assms(1) by (auto simp: disp_inv_def)
next
  case (ds_write stopped d' out)
  then show ?thesis
    using assms(1) by (auto simp: disp_inv_def write_packet_def Let_def split: list.splits option.splits if_splits)
qed

lemma disp_inv_init: "disp_init s \<Longrightarrow> disp_inv s"
  by (simp add: disp_init_def disp_inv_def NewDispatcher_def chunkSize_def)

interpretation disp_runs: invariant_system disp_init disp_step disp_inv
  using disp_inv_init disp_inv_step by unfold_locales

text \<open>
  C20. Nothing is lost, doubled or reordered between the dispatcher and a worker: in every
  interleaving of registrations, packets and the workers' receives, what a worker has taken
  followed by what its queue holds is exactly the sequence of packets the dispatcher gave to
  it, every packet read from WireGuard was given to one worker or dropped, and no queue
  grows beyond its capacity.
\<close>

theorem dispatcher_fifo:
  assumes "reach disp_init disp_step s"
  shows "(\<forall>w. packets_of w (ds_log s) = packets_of w (ds_got s) @ d_SendCh (ds_d s) w)
    \<and> length (ds_read s) = length (ds_log s) + length (ds_dropped s)
    \<and> (\<forall>w. length (d_SendCh (ds_d s) w) \<le> workerSendBuf)
    \<and> distinct (d_workers (ds_d s)) \<and> d_rrCount (ds_d s) < chunkSize"
  using disp_runs.reach_inv [OF assms] by (simp add: disp_inv_def)

theorem dispatcher_fifo_witness:
  "\<exists>s. reach disp_init disp_step s \<and> length (d_workers (ds_d s)) = 1 \<and> d_rrCount (ds_d s) < chunkSize"
proof -
  let ?s = "\<lparr>ds_d = NewDispatcher, ds_read = [], ds_log = [], ds_got = [], ds_dropped = [], ds_next = 0\<rparr>"
  have "reach disp_init disp_step ?s"
    by (rule reach_init) (simp add: disp_init_def)
  from reach_step [OF this ds_register] have r: "reach disp_init disp_step
      (?s\<lparr>ds_d := Register (ds_next ?s) (ds_d ?s), ds_next := Suc (ds_next ?s)\<rparr>)" .
  show ?thesis
    using dispatcher_fifo [OF r] r by (auto simp: Register_def NewDispatcher_def)
qed

end
