(* ===== verification/Obfs.thy ===== *)
theory Obfs
  imports GoErrors "HOL-Library.Word"
begin

text \<open>
  \<^verbatim>\<open>go_client/obfs.go\<close> and \<^verbatim>\<open>wrap.go\<close>: DTLS packets disguised as RTP. The cipher
  (ChaCha20-Poly1305), the random source and HKDF are code the client imports: \<open>seal\<close>,
  \<open>open\<close>, the random bytes and \<open>hkdf\<close> are arguments, and what the client relies on are the
  named hypotheses \<open>aead_laws\<close>: opening what was sealed with the same key, nonce and header
  gives the text back, and the tag takes 16 bytes. The lemmas give the round trip, the size
  of a packet and that a session uses no nonce twice.
\<close>

section \<open>Bytes\<close>

type_synonym byte = "8 word"

unbundle bit_operations_syntax

definition put16 :: "16 word \<Rightarrow> byte list" where
  "put16 w = [ucast (drop_bit 8 w), ucast w]"

definition put32 :: "32 word \<Rightarrow> byte list" where
  "put32 w = [ucast (drop_bit 24 w), ucast (drop_bit 16 w), ucast (drop_bit 8 w), ucast w]"

definition get16 :: "byte list \<Rightarrow> 16 word" where
  "get16 b = ucast (b ! 1) OR push_bit 8 (ucast (b ! 0))"

definition get32 :: "byte list \<Rightarrow> 32 word" where
  "get32 b = ucast (b ! 3) OR push_bit 8 (ucast (b ! 2)) OR push_bit 16 (ucast (b ! 1))
     OR push_bit 24 (ucast (b ! 0))"

text \<open>Hexadecimal texts of bytes\<close>

definition hex_char :: "nat \<Rightarrow> char" where
  "hex_char n = (if n < 10 then char_of (48 + n) else char_of (87 + n))"

text \<open>\<^verbatim>\<open>hex.EncodeToString\<close>\<close>

definition hex_string :: "byte list \<Rightarrow> string" where
  "hex_string bs = concat (map (\<lambda>b. [hex_char (unat b div 16), hex_char (unat b mod 16)]) bs)"

definition hex_digits :: "char set" where
  "hex_digits = {c. is_digit c \<or> 97 \<le> byte_of c \<and> byte_of c \<le> 102}"

lemma hex_char_digit: "n < 16 \<Longrightarrow> hex_char n \<in> hex_digits"
  by (auto simp: hex_char_def hex_digits_def is_digit_def)

lemma hex_string_digits: "set (hex_string bs) \<subseteq> hex_digits"
proof -
  have "hex_char (unat (b::byte) div 16) \<in> hex_digits" for b
    using unsigned_less [of b] by (intro hex_char_digit) (simp add: div_less_iff_less_mult)
  moreover have "hex_char (unat (b::byte) mod 16) \<in> hex_digits" for b
    by (intro hex_char_digit) simp
  ultimately show ?thesis by (auto simp: hex_string_def)
qed

lemma hex_string_length: "length (hex_string bs) = 2 * length bs"
  by (induction bs) (simp_all add: hex_string_def)

lemma get16_put16 [simp]: "get16 (put16 w @ r) = w"
  by (rule bit_word_eqI) (auto simp: get16_def put16_def bit_simps)

lemma get32_put32 [simp]: "get32 (put32 w @ r) = w"
proof (rule bit_word_eqI)
  fix n
  assume "n < LENGTH(32)"
  then show "bit (get32 (put32 w @ r)) n = bit w n"
    by (cases "n < 24"; cases "n < 16") (auto simp: get32_def put32_def bit_simps)
qed

lemma length_put [simp]: "length (put16 w) = 2" "length (put32 v) = 4"
  by (simp_all add: put16_def put32_def)

section \<open>Configuration\<close>

definition wrapKeyLen :: nat where
  "wrapKeyLen = 32"

definition overhead :: nat where
  "overhead = 16"

record ObfsConfig =
  oc_SSRC :: "32 word"
  oc_PayloadType :: byte
  oc_PaddingMax :: int

definition normalizeObfsMode :: "string \<Rightarrow> string" where
  "normalizeObfsMode mode = (if equal_fold (trim_space mode) ''video'' then ''video'' else ''audio'')"

definition NewObfsConfig :: "byte list \<Rightarrow> string \<Rightarrow> ObfsConfig" where
  "NewObfsConfig rnd mode =
     (if normalizeObfsMode mode = ''video''
      then \<lparr>oc_SSRC = get32 rnd, oc_PayloadType = 96, oc_PaddingMax = 60\<rparr>
      else \<lparr>oc_SSRC = get32 rnd, oc_PayloadType = 111, oc_PaddingMax = 24\<rparr>)"

text \<open>The cipher of a session is created on its first packet and kept, with its key.\<close>

record ObfsState =
  os_initSeq :: "16 word"
  os_initTs :: "32 word"
  os_count :: "64 word"
  os_aead :: "byte list option"

definition NewObfsState :: "byte list \<Rightarrow> ObfsState" where
  "NewObfsState rnd = \<lparr>os_initSeq = get16 rnd, os_initTs = get32 (drop 2 rnd), os_count = 0, os_aead = None\<rparr>"

definition obfsFillNonce :: "32 word \<Rightarrow> 16 word \<Rightarrow> 32 word \<Rightarrow> byte list" where
  "obfsFillNonce ssrc seqn ts = put32 ssrc @ put16 seqn @ [0, 0] @ put32 ts"

section \<open>Wrapping\<close>

type_synonym seal = "byte list \<Rightarrow> byte list \<Rightarrow> byte list \<Rightarrow> byte list \<Rightarrow> byte list"
type_synonym unseal = "byte list \<Rightarrow> byte list \<Rightarrow> byte list \<Rightarrow> byte list \<Rightarrow> goerr + byte list"

definition packet_seq :: "ObfsState \<Rightarrow> 16 word" where
  "packet_seq st = os_initSeq st + ucast (os_count st)"

definition packet_ts :: "ObfsState \<Rightarrow> 32 word" where
  "packet_ts st = os_initTs st + ucast (os_count st) * 960 + ucast (drop_bit 16 (os_count st))"

definition rtp_header :: "ObfsConfig \<Rightarrow> ObfsState \<Rightarrow> byte list" where
  "rtp_header cfg st =
     [0x80 OR 0x20, oc_PayloadType cfg AND 0x7F] @ put16 (packet_seq st) @ put32 (packet_ts st)
     @ put32 (oc_SSRC cfg)"

definition pad_rand :: "ObfsConfig \<Rightarrow> byte \<Rightarrow> int" where
  "pad_rand cfg rnd = (if oc_PaddingMax cfg > 0 then uint rnd mod oc_PaddingMax cfg else 0)"

definition key_error :: "nat \<Rightarrow> goerr" where
  "key_error n = ErrText (''obfs: key must be '' @ itoa (int wrapKeyLen) @ '' bytes (got '' @ itoa (int n) @ '')'')"

text \<open>
  \<open>rnd\<close> is the byte that selects the length of the padding and \<open>fill n\<close> are n random bytes.
\<close>

definition obfsWrapPacket ::
  "seal \<Rightarrow> byte \<Rightarrow> (nat \<Rightarrow> byte list) \<Rightarrow> byte list \<Rightarrow> byte list \<Rightarrow> ObfsConfig option \<Rightarrow> ObfsState option \<Rightarrow>
   (goerr + byte list) \<times> ObfsState option"
where
  "obfsWrapPacket seal rnd fill key payload cfg state =
     (if length key \<noteq> wrapKeyLen then (Inl (key_error (length key)), state)
      else if payload = [] then (Inl (ErrText ''obfs: empty payload''), state)
      else
        (case (state, cfg) of
           (Some st, Some c) \<Rightarrow>
             (let k = (case os_aead st of None \<Rightarrow> key | Some k \<Rightarrow> k);
                  header = rtp_header c st;
                  padRand = pad_rand c rnd;
                  padTotal = padRand + 1;
                  sealed = seal k (obfsFillNonce (oc_SSRC c) (packet_seq st) (packet_ts st)) payload header
              in (Inr (header @ sealed @ take (nat padRand) (fill (nat padRand)) @ [word_of_int padTotal]),
                  Some (st\<lparr>os_count := os_count st + 1, os_aead := Some k\<rparr>)))
         | _ \<Rightarrow> (Inl (ErrText ''obfs: nil state/config''), state)))"

section \<open>Unwrapping\<close>

definition payload_end :: "byte list \<Rightarrow> goerr + int" where
  "payload_end wire =
     (if wire ! 0 AND 0x20 \<noteq> 0 then
        (let padLen = uint (last wire); n = int (length wire)
         in if padLen = 0 \<or> padLen > n - 12
            then Inl (ErrText (''obfs: invalid padding length '' @ itoa padLen))
            else Inr (n - padLen))
      else Inr (int (length wire)))"

text \<open>The plain text, of which the source returns the length after writing it to \<open>dst\<close>\<close>

definition obfsUnwrapPacket ::
  "unseal \<Rightarrow> byte list \<Rightarrow> byte list \<Rightarrow> nat \<Rightarrow> goerr + byte list"
where
  "obfsUnwrapPacket open key wire dst_len =
     (if length key \<noteq> wrapKeyLen then Inl (key_error (length key))
      else if length wire < 13 then Inl (ErrText ''obfs: packet too short'')
      else if drop_bit 6 (wire ! 0) \<noteq> 2 then Inl (ErrText ''obfs: not RTP v2'')
      else
        (case payload_end wire of
           Inl e \<Rightarrow> Inl e
         | Inr pe \<Rightarrow>
             if pe - 12 \<le> int overhead then
               Inl (ErrText ''obfs: no payload after stripping header/padding'')
             else if pe - 12 - int overhead > int dst_len then
               Inl (ErrText ''obfs: dst buffer too small'')
             else
               (case open key
                  (obfsFillNonce (get32 (drop 8 wire)) (get16 (drop 2 wire)) (get32 (drop 4 wire)))
                  (drop 12 (take (nat pe) wire)) (take 12 wire) of
                  Inl e \<Rightarrow> Inl (ErrWrap ''obfs: auth: '' e [])
                | Inr plain \<Rightarrow> Inr plain)))"

definition obfsIsRTPPacket :: "byte list \<Rightarrow> bool" where
  "obfsIsRTPPacket wire \<longleftrightarrow>
     \<not> length wire < 13 \<and> drop_bit 6 (wire ! 0) = 2
     \<and> (let pt = wire ! 1 AND 0x7F in pt = 111 \<or> pt = 96)"

text \<open>\<^verbatim>\<open>deriveWrapKey\<close>; \<open>hkdf\<close> reads the bytes of the derived key.\<close>

definition deriveWrapKey :: "(string \<Rightarrow> nat \<Rightarrow> goerr + byte list) \<Rightarrow> string \<Rightarrow> goerr + byte list" where
  "deriveWrapKey hkdf password =
     (if password = [] then Inl (ErrText ''empty password'')
      else (case hkdf password wrapKeyLen of
              Inl e \<Rightarrow> Inl (ErrWrap ''derive wrap key: '' e [])
            | Inr key \<Rightarrow> Inr key))"

section \<open>The round trip\<close>

definition aead_laws :: "seal \<Rightarrow> unseal \<Rightarrow> bool" where
  "aead_laws seal open \<longleftrightarrow>
     (\<forall>k n p ad. open k n (seal k n p ad) ad = Inr p \<and> length (seal k n p ad) = length p + overhead)"

lemma length_header [simp]: "length (rtp_header cfg st) = 12"
  by (simp add: rtp_header_def)

lemma header_fields:
  "rtp_header cfg st ! 0 = 0xA0" "rtp_header cfg st ! 1 = oc_PayloadType cfg AND 0x7F"
  "get16 (drop 2 (rtp_header cfg st @ r)) = packet_seq st"
  "get32 (drop 4 (rtp_header cfg st @ r)) = packet_ts st"
  "get32 (drop 8 (rtp_header cfg st @ r)) = oc_SSRC cfg"
proof -
  have o: "(0x80 OR 0x20 :: byte) = 0xA0"
    by code_simp
  show "rtp_header cfg st ! 0 = 0xA0" "rtp_header cfg st ! 1 = oc_PayloadType cfg AND 0x7F"
    unfolding o [symmetric] by (simp_all add: rtp_header_def)
  show "get16 (drop 2 (rtp_header cfg st @ r)) = packet_seq st"
    by (simp add: rtp_header_def)
  show "get32 (drop 4 (rtp_header cfg st @ r)) = packet_ts st"
    by (simp add: rtp_header_def put16_def)
  show "get32 (drop 8 (rtp_header cfg st @ r)) = oc_SSRC cfg"
    by (simp add: rtp_header_def put16_def put32_def [of "packet_ts st"])
qed

lemma first_byte: "drop_bit 6 (0xA0 :: byte) = 2" "(0xA0 :: byte) AND 0x20 \<noteq> 0"
  by code_simp+

lemma pad_rand_bounds: "0 \<le> pad_rand cfg rnd \<and> (0 < oc_PaddingMax cfg \<longrightarrow> pad_rand cfg rnd < oc_PaddingMax cfg)"
  by (auto simp: pad_rand_def)

lemma wrap_result:
  assumes "obfsWrapPacket seal rnd fill key payload (Some cfg) (Some st) = (Inr out, st')"
  shows "length key = wrapKeyLen \<and> payload \<noteq> []
    \<and> out = rtp_header cfg st
        @ seal (case os_aead st of None \<Rightarrow> key | Some k \<Rightarrow> k)
            (obfsFillNonce (oc_SSRC cfg) (packet_seq st) (packet_ts st)) payload (rtp_header cfg st)
        @ take (nat (pad_rand cfg rnd)) (fill (nat (pad_rand cfg rnd))) @ [word_of_int (pad_rand cfg rnd + 1)]
    \<and> st' = Some (st\<lparr>os_count := os_count st + 1,
                    os_aead := Some (case os_aead st of None \<Rightarrow> key | Some k \<Rightarrow> k)\<rparr>)"
  using assms by (auto simp: obfsWrapPacket_def Let_def split: if_splits)

lemma wrap_reversible:
  assumes "aead_laws seal open" "\<forall>n. length (fill n) = n"
    and "obfsWrapPacket seal rnd fill key payload (Some cfg) (Some st) = (Inr out, st')"
    and "os_aead st = None \<or> os_aead st = Some key" "0 < oc_PaddingMax cfg" "oc_PaddingMax cfg < 256"
    and "oc_PayloadType cfg = 111 \<or> oc_PayloadType cfg = 96" "length payload \<le> dst_len"
  shows "obfsIsRTPPacket out \<and> obfsUnwrapPacket open key out dst_len = Inr payload
    \<and> length payload + 29 \<le> length out \<and> int (length out) \<le> int (length payload) + 28 + oc_PaddingMax cfg"
proof -
  let ?h = "rtp_header cfg st" and ?pad = "pad_rand cfg rnd"
  let ?n = "obfsFillNonce (oc_SSRC cfg) (packet_seq st) (packet_ts st)"
  define sealed where "sealed = seal key ?n payload ?h"
  define padding where "padding = fill (nat ?pad)"
  have w: "length key = wrapKeyLen" "payload \<noteq> []"
    "out = ?h @ sealed @ padding @ [word_of_int (?pad + 1)]"
    using wrap_result [OF assms(3)] assms(2,4) by (auto simp: sealed_def padding_def)
  have pad: "0 \<le> ?pad" "?pad < oc_PaddingMax cfg"
    using pad_rand_bounds [of cfg rnd] assms(5) by auto
  have ls: "length sealed = length payload + overhead" "open key ?n sealed ?h = Inr payload"
    using assms(1) by (simp_all add: aead_laws_def sealed_def)
  have lp: "length padding = nat ?pad"
    using assms(2) by (simp add: padding_def)
  have last: "uint (last out) = ?pad + 1"
  proof -
    have "uint (word_of_int (?pad + 1) :: byte) = (?pad + 1) mod 2 ^ LENGTH(8)"
      by (rule uint_word_of_int)
    then show ?thesis
      using pad assms(6) by (simp add: w(3) del: of_int_add)
  qed
  have lo: "int (length out) = 12 + int (length sealed) + ?pad + 1"
    using pad lp by (simp add: w(3))
  have o0: "out ! 0 = 0xA0" "out ! 1 = oc_PayloadType cfg AND 0x7F"
    using header_fields(1,2) [of cfg st] by (simp_all add: w(3) nth_append)
  have pe: "payload_end out = Inr (12 + int (length sealed))"
    using last lo pad o0(1) first_byte(2) by (simp add: payload_end_def Let_def)
  have cut: "take 12 out = ?h" "drop 12 (take (nat (12 + int (length sealed))) out) = sealed"
    by (simp_all add: w(3) nat_add_distrib)
  have f: "get16 (drop 2 out) = packet_seq st" "get32 (drop 4 out) = packet_ts st"
    "get32 (drop 8 out) = oc_SSRC cfg"
    unfolding w(3) by (rule header_fields)+
  have pt: "(111 :: byte) AND 0x7F = 111" "(96 :: byte) AND 0x7F = 96"
    by code_simp+
  have ne: "0 < length payload"
    using w(2) by simp
  have rtp: "obfsIsRTPPacket out"
    using lo o0 first_byte(1) assms(7) pt pad by (auto simp: obfsIsRTPPacket_def Let_def)
  have len: "\<not> length out < 13"
    using lo pad(1) by linarith
  have un: "obfsUnwrapPacket open key out dst_len = Inr payload"
    using w(1) len o0(1) first_byte(1) pe cut f ls ne assms(8)
    by (simp add: obfsUnwrapPacket_def)
  show ?thesis
    using rtp un lo ls(1) pad by (simp add: overhead_def)
qed

text \<open>
  C21. The disguise is reversible: with a cipher that opens what it sealed, and the key the
  state's cipher was created with, every wrapped packet looks like RTP to
  \<^verbatim>\<open>obfsIsRTPPacket\<close>, and unwrapping it with the same key into a buffer of sufficient size
  returns exactly the payload; the packet is 29 to 28 + \<^verbatim>\<open>PaddingMax\<close> bytes longer than it.
\<close>

theorem unwrap_wrap:
  assumes "aead_laws seal open" "\<forall>n. length (fill n) = n"
    and "obfsWrapPacket seal rnd fill key payload (Some cfg) (Some st) = (Inr out, st')"
    and "os_aead st = None \<or> os_aead st = Some key" "0 < oc_PaddingMax cfg" "oc_PaddingMax cfg < 256"
    and "oc_PayloadType cfg = 111 \<or> oc_PayloadType cfg = 96" "length payload \<le> dst_len"
  shows "obfsIsRTPPacket out \<and> obfsUnwrapPacket open key out dst_len = Inr payload
    \<and> length payload + 29 \<le> length out \<and> int (length out) \<le> int (length payload) + 28 + oc_PaddingMax cfg"
  by (rule wrap_reversible [OF assms])

section \<open>Nonces\<close>

lemma odd_cancel:
  fixes a b :: nat
  assumes "a < 2 ^ 32" "b < 2 ^ 32" "(x + a * 62914561) mod 2 ^ 32 = (x + b * 62914561) mod 2 ^ 32"
  shows "a = b"
proof -
  have "int (x + a * 62914561) mod 2 ^ 32 = int (x + b * 62914561) mod 2 ^ 32"
    using arg_cong [OF assms(3), of int] by (simp only: zmod_int) simp
  then have "(2 :: int) ^ 32 dvd (int a - int b) * 62914561"
    by (simp add: mod_eq_dvd_iff algebra_simps)
  moreover have "coprime ((2 :: int) ^ 32) 62914561"
    by (subst coprime_power_left_iff) (simp add: coprime_left_2_iff_odd)
  ultimately have "(2 :: int) ^ 32 dvd int a - int b"
    using coprime_dvd_mult_left_iff by blast
  moreover have "\<bar>int a - int b\<bar> < 2 ^ 32"
    using assms(1,2) by auto
  ultimately show ?thesis
    by (metis abs_zero dvd_imp_le_int eq_iff_diff_eq_0 linorder_not_less of_nat_eq_iff abs_of_nonneg zero_le_power zero_le_numeral)
qed

lemma clock_split: "n * 960 + n div 2 ^ 16 = n mod 2 ^ 16 * 960 + n div 2 ^ 16 * 62914561" for n :: nat
proof -
  define q r where "q = n div 2 ^ 16" and "r = n mod 2 ^ 16"
  have "n = q * 65536 + r"
    by (simp add: q_def r_def)
  then have "n * 960 + q = r * 960 + q * 62914561"
    by simp
  then show ?thesis
    by (simp add: q_def r_def)
qed

lemma unat_ts:
  "unat (ucast c * 960 + ucast (drop_bit 16 c) :: 32 word)
     = (unat c mod 2 ^ 16 * 960 + unat c div 2 ^ 16 * 62914561) mod 2 ^ 32" for c :: "64 word"
proof -
  have "unat c div 65536 \<le> unat c" "unat c < 18446744073709551616"
    using unsigned_less [of c] by simp_all
  then have "unat c div 65536 mod 18446744073709551616 = unat c div 65536"
    by simp
  then have "unat (ucast c * 960 + ucast (drop_bit 16 c) :: 32 word)
      = (unat c * 960 + unat c div 2 ^ 16) mod 2 ^ 32"
    by (simp add: unat_word_ariths unsigned_ucast_eq unsigned_drop_bit_eq take_bit_eq_mod
        drop_bit_eq_div mod_simps)
  also have "unat c * 960 + unat c div 2 ^ 16 = unat c mod 2 ^ 16 * 960 + unat c div 2 ^ 16 * 62914561"
    by (rule clock_split)
  finally show ?thesis .
qed

lemma nonce_inj:
  "obfsFillNonce s q t = obfsFillNonce s q' t' \<Longrightarrow> q = q' \<and> t = t'"
  unfolding obfsFillNonce_def
  by (metis append_eq_append_conv append_Nil2 get16_put16 get32_put32 length_put)

lemma seq_count:
  fixes c c' :: "64 word"
  assumes "(ucast c :: 16 word) = ucast c'"
  shows "unat c mod 2 ^ 16 = unat c' mod 2 ^ 16"
  using arg_cong [OF assms, of unat] by (simp add: unsigned_ucast_eq take_bit_eq_mod)

text \<open>The nonce of the next packet of a state, and the state \<open>n\<close> packets later\<close>

definition packet_nonce :: "ObfsConfig \<Rightarrow> ObfsState \<Rightarrow> byte list" where
  "packet_nonce cfg st = obfsFillNonce (oc_SSRC cfg) (packet_seq st) (packet_ts st)"

definition later :: "ObfsState \<Rightarrow> nat \<Rightarrow> ObfsState" where
  "later st n = st\<lparr>os_count := os_count st + of_nat n\<rparr>"

lemma packet_nonces_differ:
  assumes "os_count st = 0" "m < 2 ^ 48" "n < 2 ^ 48" "m \<noteq> n"
  shows "packet_nonce cfg (later st m) \<noteq> packet_nonce cfg (later st n)"
proof
  assume eq: "packet_nonce cfg (later st m) = packet_nonce cfg (later st n)"
  let ?m = "of_nat m :: 64 word" and ?n = "of_nat n :: 64 word"
  have u: "unat ?m = m" "unat ?n = n"
    using assms(2,3) by (simp_all add: unat_of_nat)
  have s: "(ucast ?m :: 16 word) = ucast ?n"
    and t: "(ucast ?m * 960 + ucast (drop_bit 16 ?m) :: 32 word) = ucast ?n * 960 + ucast (drop_bit 16 ?n)"
    using nonce_inj [OF eq [unfolded packet_nonce_def]] assms(1)
    by (simp_all add: packet_seq_def packet_ts_def later_def add.assoc)
  have lo: "m mod 2 ^ 16 = n mod 2 ^ 16"
    using seq_count [OF s] u by simp
  have "(m mod 2 ^ 16 * 960 + m div 2 ^ 16 * 62914561) mod 2 ^ 32
      = (m mod 2 ^ 16 * 960 + n div 2 ^ 16 * 62914561) mod 2 ^ 32"
    using arg_cong [OF t, of unat] unfolding unat_ts u lo .
  then have "m div 2 ^ 16 = n div 2 ^ 16"
  proof (rule odd_cancel [rotated 2])
    show "m div 2 ^ 16 < 2 ^ 32" "n div 2 ^ 16 < 2 ^ 32"
      using assms(2,3) by (auto intro: less_mult_imp_div_less)
  qed
  then have "m = n"
    using lo by (metis div_mult_mod_eq)
  then show False
    using assms(4) by simp
qed

text \<open>
  The packets that successive calls of \<open>obfsWrapPacket\<close> return, each with the state that the one before left; a call
  that is refused returns none. A call is given as its payload, the byte for its padding and the random bytes.
\<close>

type_synonym wrap_call = "byte list \<times> byte \<times> (nat \<Rightarrow> byte list)"

fun wrap_calls :: "seal \<Rightarrow> byte list \<Rightarrow> ObfsConfig \<Rightarrow> wrap_call list \<Rightarrow> ObfsState option \<Rightarrow> byte list list" where
  "wrap_calls seal key cfg [] st = []"
| "wrap_calls seal key cfg ((payload, rnd, fill) # calls) st =
     (case obfsWrapPacket seal rnd fill key payload (Some cfg) st of
        (Inl e, st') \<Rightarrow> wrap_calls seal key cfg calls st'
      | (Inr out, st') \<Rightarrow> out # wrap_calls seal key cfg calls st')"

lemma wrap_refused:
  "payload = [] \<Longrightarrow> length key = wrapKeyLen \<Longrightarrow>
   \<exists>e. obfsWrapPacket seal rnd fill key payload (Some cfg) st = (Inl e, st)"
  by (simp add: obfsWrapPacket_def)

text \<open>A packet is a header, the payload sealed under the header with the nonce, and the padding.\<close>

definition sealed_with :: "seal \<Rightarrow> byte list \<Rightarrow> byte list \<Rightarrow> byte list \<Rightarrow> byte list \<Rightarrow> bool" where
  "sealed_with seal key nonce payload out \<longleftrightarrow>
     (\<exists>pad. out = take 12 out @ seal key nonce payload (take 12 out) @ pad)"

lemma wrap_calls_nonces:
  assumes "length key = wrapKeyLen" "os_aead st = None \<or> os_aead st = Some key"
  shows "\<exists>nonces. nonces = map (\<lambda>n. packet_nonce cfg (later st n)) [0..<length [c \<leftarrow> calls. fst c \<noteq> []]]
    \<and> list_all2 (\<lambda>(nonce, c) out. sealed_with seal key nonce (fst c) out)
        (zip nonces [c \<leftarrow> calls. fst c \<noteq> []]) (wrap_calls seal key cfg calls (Some st))"
  using assms(2)
proof (induction calls arbitrary: st)
  case Nil
  then show ?case by simp
next
  case (Cons c calls)
  obtain payload rnd fill where c: "c = (payload, rnd, fill)"
    by (cases c)
  show ?case
  proof (cases "payload = []")
    case True
    then show ?thesis
      using Cons.IH [OF Cons.prems] wrap_refused [OF True assms(1), of seal rnd fill cfg "Some st"] c by auto
  next
    case False
    obtain out st' where w: "obfsWrapPacket seal rnd fill key payload (Some cfg) (Some st) = (Inr out, st')"
      using assms(1) False by (simp add: obfsWrapPacket_def Let_def)
    define s where "s = st\<lparr>os_count := os_count st + 1, os_aead := Some key\<rparr>"
    have r: "st' = Some s" "sealed_with seal key (packet_nonce cfg (later st 0)) payload out"
      using wrap_result [OF w] Cons.prems by (auto simp: s_def sealed_with_def packet_nonce_def later_def)
    have next_nonce: "packet_nonce cfg (later s n) = packet_nonce cfg (later st (Suc n))" for n
      by (simp add: s_def later_def packet_nonce_def packet_seq_def packet_ts_def add.assoc)
    have "os_aead s = None \<or> os_aead s = Some key"
      by (simp add: s_def)
    from Cons.IH [OF this] show ?thesis
      using w r c False by (simp add: next_nonce upt_conv_Cons map_Suc_upt [symmetric] o_def del: upt_Suc)
  qed
qed

text \<open>
  C22. No nonce is used twice by a session: of the packets that successive calls of \<^verbatim>\<open>obfsWrapPacket\<close> on one state return, each
  is its 12-byte header, the payload of the call sealed under the session's key with a nonce of its own, and padding; the
  nonces are pairwise different for up to 2 to the 48 packets, although the sequence number has 16 bits and the
  clock 32, because the clock advances by an odd number whenever the sequence number wraps around. An empty payload is refused
  and uses none. Every nonce begins with the SSRC of the session, so two sessions that share the key have no nonce in
  common unless the random SSRCs coincide, which nothing excludes.
\<close>

theorem nonces_distinct:
  assumes "length key = wrapKeyLen" "length calls \<le> 2 ^ 48"
  shows "\<exists>nonces. distinct nonces
    \<and> list_all2 (\<lambda>(nonce, c) out. sealed_with seal key nonce (fst c) out)
        (zip nonces [c \<leftarrow> calls. fst c \<noteq> []]) (wrap_calls seal key cfg calls (Some (NewObfsState r)))
    \<and> length nonces = length [c \<leftarrow> calls. fst c \<noteq> []]
    \<and> (\<forall>nonce \<in> set nonces. length nonce = 12 \<and> take 4 nonce = put32 (oc_SSRC cfg))"
proof -
  let ?st = "NewObfsState r" and ?k = "length [c \<leftarrow> calls. fst c \<noteq> []]"
  have st: "os_count ?st = 0" "os_aead ?st = None \<or> os_aead ?st = Some key"
    by (simp_all add: NewObfsState_def)
  have "?k \<le> 2 ^ 48"
    using length_filter_le [of "\<lambda>c. fst c \<noteq> []" calls] assms(2) by linarith
  then have "x < 2 ^ 48" if "x < ?k" for x
    using that by linarith
  then have "inj_on (\<lambda>n. packet_nonce cfg (later ?st n)) {0..<?k}"
    using packet_nonces_differ [OF st(1), of _ _ cfg] by (meson atLeastLessThan_iff inj_onI)
  then have d: "distinct (map (\<lambda>n. packet_nonce cfg (later ?st n)) [0..<?k])"
    by (simp add: distinct_map)
  show ?thesis
    using wrap_calls_nonces [OF assms(1) st(2), of cfg calls seal] d
    by (elim exE conjE, intro exI [of _ "map (\<lambda>n. packet_nonce cfg (later ?st n)) [0..<?k]"])
      (simp add: packet_nonce_def obfsFillNonce_def)
qed

definition demo_state :: ObfsState where
  "demo_state = \<lparr>os_initSeq = 65535, os_initTs = 4294967295, os_count = 0, os_aead = None\<rparr>"

definition demo_config :: ObfsConfig where
  "demo_config = \<lparr>oc_SSRC = 7, oc_PayloadType = 111, oc_PaddingMax = 24\<rparr>"

text \<open>With a cipher that returns its nonce, two packets with the same payload differ after the header.\<close>

theorem nonces_distinct_witness:
  "\<exists>x y. map (take 12 \<circ> drop 12) (wrap_calls (\<lambda>k n p ad. n) (replicate 32 9) demo_config
        [([1], 0, \<lambda>n. replicate n 0), ([1], 0, \<lambda>n. replicate n 0)] (Some (NewObfsState [1, 2, 3, 4, 5, 6]))) = [x, y]
     \<and> x \<noteq> y"
proof -
  let ?calls = "[([1], 0, \<lambda>n. replicate n 0), ([1], 0, \<lambda>n. replicate n 0)] :: wrap_call list"
  let ?outs = "wrap_calls (\<lambda>k n p ad. n) (replicate 32 9) demo_config ?calls (Some (NewObfsState [1, 2, 3, 4, 5, 6]))"
  have part: "take 12 (drop 12 out) = nonce"
    if s: "sealed_with (\<lambda>k n p ad. n) k nonce p out" and l: "length nonce = 12" for k nonce p out
  proof -
    obtain pad where pad: "out = take 12 out @ nonce @ pad"
      using s by (auto simp: sealed_with_def)
    have "length out = min (length out) 12 + 12 + length pad"
      using arg_cong [OF pad, of length] l by simp
    then have "length (take 12 out) = 12"
      by (simp add: min_def split: if_splits)
    then show ?thesis
      using arg_cong [OF pad, of "\<lambda>x. take 12 (drop 12 x)"] l by simp
  qed
  obtain nonces where n: "distinct nonces" "length nonces = 2" "\<forall>nonce \<in> set nonces. length nonce = 12"
    "list_all2 (\<lambda>(nonce, c) out. sealed_with (\<lambda>k n p ad. n) (replicate 32 9) nonce (fst c) out) (zip nonces ?calls) ?outs"
    using nonces_distinct [of "replicate 32 9" ?calls "\<lambda>k n p ad. n" demo_config "[1, 2, 3, 4, 5, 6]"]
    by (auto simp: wrapKeyLen_def)
  then obtain x y where xy: "nonces = [x, y]"
    by (auto simp: length_Suc_conv numeral_2_eq_2)
  then show ?thesis
    using n part by (auto simp: list_all2_Cons1)
qed

text \<open>A cipher that satisfies the laws: the text followed by a constant tag\<close>

definition toy_seal :: seal where
  "toy_seal k n p ad = p @ replicate overhead 0"

definition toy_open :: unseal where
  "toy_open k n c ad = Inr (take (length c - overhead) c)"

lemma wrap_succeeds:
  "length key = wrapKeyLen \<Longrightarrow> payload \<noteq> [] \<Longrightarrow>
   \<exists>out st'. obfsWrapPacket seal rnd fill key payload (Some cfg) (Some st) = (Inr out, st')"
  by (simp add: obfsWrapPacket_def Let_def)

theorem unwrap_wrap_witness:
  "\<exists>out. fst (obfsWrapPacket toy_seal 30 (\<lambda>n. replicate n 1) (replicate 32 9) [1, 2, 3]
        (Some demo_config) (Some demo_state)) = Inr out
     \<and> obfsUnwrapPacket toy_open (replicate 32 9) out 1600 = Inr [1, 2, 3]"
proof -
  let ?w = "obfsWrapPacket toy_seal 30 (\<lambda>n. replicate n 1) (replicate 32 9) [1, 2, 3]
        (Some demo_config) (Some demo_state)"
  obtain out st' where w: "?w = (Inr out, st')"
    using wrap_succeeds [of "replicate 32 9" "[1, 2, 3]" toy_seal 30 "\<lambda>n. replicate n 1" demo_config demo_state]
    by (auto simp: wrapKeyLen_def)
  have "aead_laws toy_seal toy_open"
    by (simp add: aead_laws_def toy_seal_def toy_open_def)
  then show ?thesis
    using unwrap_wrap [OF _ _ w, of toy_open 1600] w by (simp add: demo_state_def demo_config_def)
qed

section \<open>The buffer of the relay\<close>

text \<open>\<^verbatim>\<open>RunSession\<close> reads from the relay into \<^verbatim>\<open>readBufSize + 80\<close> bytes (\<^verbatim>\<open>session.go\<close>).\<close>

definition relayReadBuf :: nat where
  "relayReadBuf = 1600 + 80"

definition wrapped_max :: "ObfsConfig \<Rightarrow> nat \<Rightarrow> int" where
  "wrapped_max cfg n = int n + 28 + oc_PaddingMax cfg"

text \<open>
  The buffer for packets of the relay: in audio mode it holds every wrapped packet whose
  payload fits the 1600-byte buffer of the sender. In video mode, whose padding needs up to
  88 bytes with header and tag instead of the 80 that are reserved, it holds those with a
  payload of at most 1592 bytes, and a wrapped payload of 1600 bytes can be too long for it.
\<close>

theorem relay_buffer:
  "(normalizeObfsMode mode \<noteq> ''video'' \<longrightarrow> wrapped_max (NewObfsConfig rnd mode) 1600 \<le> int relayReadBuf)
    \<and> wrapped_max (NewObfsConfig rnd mode) 1592 \<le> int relayReadBuf
    \<and> (normalizeObfsMode mode = ''video'' \<longrightarrow>
      (\<exists>b. int (12 + (1600 + overhead)) + pad_rand (NewObfsConfig rnd mode) b + 1 > int relayReadBuf))"
  by (auto simp: NewObfsConfig_def wrapped_max_def relayReadBuf_def pad_rand_def overhead_def
      intro!: exI [of _ 59])

theorem relay_buffer_witness: "wrapped_max (NewObfsConfig [1, 2, 3, 4] ''audio'') 1600 \<le> int relayReadBuf"
proof -
  have "normalizeObfsMode ''audio'' = ''audio''"
    by code_simp
  then show ?thesis
    using relay_buffer [of "''audio''" "[1, 2, 3, 4]"] by simp
qed

end
