(* ===== verification/Hashes.thy ===== *)
theory Hashes
  imports GoErrors
begin

text \<open>
  The links of VK calls: \<^verbatim>\<open>normalizeVKJoinHash\<close> and \<^verbatim>\<open>ParseHashes\<close> (\<^verbatim>\<open>group.go\<close>),
  \<^verbatim>\<open>turnURLsToAddresses\<close>, \<^verbatim>\<open>shortHashLog\<close> (\<^verbatim>\<open>creds.go\<close>), and the report of the check of the
  links (\<^verbatim>\<open>classifyHashCheckError\<close>, \<^verbatim>\<open>sanitizeHashCheckMessage\<close>, \<^verbatim>\<open>runHashChecks\<close> of
  \<^verbatim>\<open>main.go\<close>). The lemmas show that hashes are clean, unique and complete, and that the
  report keeps its line format.
\<close>

section \<open>Links\<close>

definition wrapper_chars :: string where
  "wrapper_chars = [CHR ''<'', CHR ''>'', CHR 0x22, CHR 0x27]"

definition join_path :: string where
  "join_path = ''/call/join/''"

definition is_delimiter :: "char \<Rightarrow> bool" where
  "is_delimiter c \<longleftrightarrow> c = CHR ''?'' \<or> c = CHR ''#'' \<or> c = CHR ''/''"

definition cut_delimiter :: "string \<Rightarrow> string" where
  "cut_delimiter s = (case index_char is_delimiter s of None \<Rightarrow> s | Some i \<Rightarrow> take i s)"

definition normalizeVKJoinHash :: "string \<Rightarrow> string" where
  "normalizeVKJoinHash input =
     (let s = trim_set wrapper_chars (trim_space input) in
      if s = [] then []
      else
        (let lower = to_lower s in
         case index_of lower join_path of
           Some idx \<Rightarrow>
             trim_set ''/'' (trim_space (cut_delimiter (drop (idx + length join_path) s)))
         | None \<Rightarrow>
             if has_prefix lower ''http://'' \<or> has_prefix lower ''https://'' then []
             else trim_set ''/'' (trim_space (cut_delimiter s))))"

definition is_hash_separator :: "char \<Rightarrow> bool" where
  "is_hash_separator c \<longleftrightarrow>
     c = CHR '','' \<or> c = CHR '';'' \<or> c = CHR 0x0A \<or> c = CHR 0x0D \<or> c = CHR 0x09 \<or> c = CHR '' ''"

fun collect_hashes :: "string list \<Rightarrow> string set \<Rightarrow> string list \<Rightarrow> string list" where
  "collect_hashes [] seen acc = acc"
| "collect_hashes (f # fs) seen acc =
     (let h = normalizeVKJoinHash f in
      if h \<noteq> [] then
        (if h \<in> seen then collect_hashes fs seen acc
         else collect_hashes fs (insert h seen) (acc @ [h]))
      else collect_hashes fs seen acc)"

definition ParseHashes :: "string \<Rightarrow> string list" where
  "ParseHashes raw = collect_hashes (fields_func is_hash_separator raw) {} []"

definition shortHashLog :: "string \<Rightarrow> string" where
  "shortHashLog h = (if length h > 8 then take 8 h else h)"

section \<open>Addresses\<close>

definition url_address :: "string \<Rightarrow> string" where
  "url_address u = trim_prefix (trim_prefix (hd (split_at (CHR ''?'') u)) ''turn:'') ''turns:''"

fun turnURLsToAddresses :: "string list \<Rightarrow> string list" where
  "turnURLsToAddresses [] = []"
| "turnURLsToAddresses (u # us) =
     (let s = trim_space u in
      if s = [] then turnURLsToAddresses us
      else if url_address s \<noteq> [] then url_address s # turnURLsToAddresses us
      else turnURLsToAddresses us)"

section \<open>The check of the links\<close>

definition any_of :: "string \<Rightarrow> string list \<Rightarrow> bool" where
  "any_of text ws \<longleftrightarrow> list_ex (contains text) ws"

definition classifyHashCheckError :: "goerr option \<Rightarrow> string \<times> string" where
  "classifyHashCheckError e =
     (case e of
        None \<Rightarrow> (''ok'', [])
      | Some x \<Rightarrow>
          (let text = to_lower (err_text x) in
           if any_of text [''captcha_required'', ''captcha_wait_required''] then
             (''captcha'', ([CHR 0xD0, CHR 0xA0, CHR 0xD0, CHR 0xB5, CHR 0xD1, CHR 0x88, CHR 0xD0, CHR 0xB8, CHR 0xD1, CHR 0x82, CHR 0xD0, CHR 0xB5] @ '' '' @ [CHR 0xD0, CHR 0xBA, CHR 0xD0, CHR 0xB0, CHR 0xD0, CHR 0xBF, CHR 0xD1, CHR 0x87, CHR 0xD1, CHR 0x83] @ '' '' @ [CHR 0xD0, CHR 0xB4, CHR 0xD0, CHR 0xBB, CHR 0xD1, CHR 0x8F] @ '' '' @ [CHR 0xD0, CHR 0xBF, CHR 0xD0, CHR 0xBE, CHR 0xD0, CHR 0xB4, CHR 0xD0, CHR 0xBA, CHR 0xD0, CHR 0xBB, CHR 0xD1, CHR 0x8E, CHR 0xD1, CHR 0x87, CHR 0xD0, CHR 0xB5, CHR 0xD0, CHR 0xBD, CHR 0xD0, CHR 0xB8, CHR 0xD1, CHR 0x8F]))
           else if any_of text [''call not found'', ''joinconversationbylink'', ''missing turn_server'', ''9000'',
             ''callunavailable''] then
             (''dead'', ([CHR 0xD0, CHR 0x97, CHR 0xD0, CHR 0xB2, CHR 0xD0, CHR 0xBE, CHR 0xD0, CHR 0xBD, CHR 0xD0, CHR 0xBE, CHR 0xD0, CHR 0xBA] @ '' '' @ [CHR 0xD0, CHR 0xBD, CHR 0xD0, CHR 0xB5] @ '' '' @ [CHR 0xD0, CHR 0xBD, CHR 0xD0, CHR 0xB0, CHR 0xD0, CHR 0xB9, CHR 0xD0, CHR 0xB4, CHR 0xD0, CHR 0xB5, CHR 0xD0, CHR 0xBD] @ '' '' @ [CHR 0xD0, CHR 0xB8, CHR 0xD0, CHR 0xBB, CHR 0xD0, CHR 0xB8] @ '' '' @ [CHR 0xD0, CHR 0xB7, CHR 0xD0, CHR 0xB0, CHR 0xD0, CHR 0xBA, CHR 0xD1, CHR 0x80, CHR 0xD1, CHR 0x8B, CHR 0xD1, CHR 0x82]))
           else if any_of text [''flood'', ''rate limit'', ''error_code:29''] then
             (''limited'', (''VK '' @ [CHR 0xD0, CHR 0xB2, CHR 0xD1, CHR 0x80, CHR 0xD0, CHR 0xB5, CHR 0xD0, CHR 0xBC, CHR 0xD0, CHR 0xB5, CHR 0xD0, CHR 0xBD, CHR 0xD0, CHR 0xBD, CHR 0xD0, CHR 0xBE] @ '' '' @ [CHR 0xD0, CHR 0xBE, CHR 0xD0, CHR 0xB3, CHR 0xD1, CHR 0x80, CHR 0xD0, CHR 0xB0, CHR 0xD0, CHR 0xBD, CHR 0xD0, CHR 0xB8, CHR 0xD1, CHR 0x87, CHR 0xD0, CHR 0xB8, CHR 0xD0, CHR 0xBB] @ '' '' @ [CHR 0xD0, CHR 0xB7, CHR 0xD0, CHR 0xB0, CHR 0xD0, CHR 0xBF, CHR 0xD1, CHR 0x80, CHR 0xD0, CHR 0xBE, CHR 0xD1, CHR 0x81, CHR 0xD1, CHR 0x8B]))
           else if any_of text [''timeout'', ''deadline'', ''lookup'', ''network''] then
             (''network'', ([CHR 0xD0, CHR 0xA1, CHR 0xD0, CHR 0xB5, CHR 0xD1, CHR 0x82, CHR 0xD0, CHR 0xB5, CHR 0xD0, CHR 0xB2, CHR 0xD0, CHR 0xB0, CHR 0xD1, CHR 0x8F] @ '' '' @ [CHR 0xD0, CHR 0xBE, CHR 0xD1, CHR 0x88, CHR 0xD0, CHR 0xB8, CHR 0xD0, CHR 0xB1, CHR 0xD0, CHR 0xBA, CHR 0xD0, CHR 0xB0]))
           else (''error'', err_text x)))"

definition sanitizeHashCheckMessage :: "string \<Rightarrow> string" where
  "sanitizeHashCheckMessage message =
     (let m = replace_char (CHR ''|'') (CHR ''/'')
                (replace_char (CHR 0x0D) (CHR '' '') (replace_char (CHR 0x0A) (CHR '' '') message))
      in if length m > 180 then take 180 m else m)"

text \<open>
  The two lines that \<^verbatim>\<open>runHashChecks\<close> prints for the i-th hash; \<open>result\<close> is what
  \<^verbatim>\<open>GetCreds\<close> returned.
\<close>

definition hash_check_lines :: "nat \<Rightarrow> string \<Rightarrow> goerr + string list \<Rightarrow> string list" where
  "hash_check_lines i hash result =
     (let (status, message) =
        (case result of
           Inl e \<Rightarrow> classifyHashCheckError (Some e)
         | Inr urls \<Rightarrow> (''ok'', ''TURN urls='' @ itoa (int (length urls))))
      in [''HASH_CHECK_START|'' @ itoa (int (i + 1)) @ ''|'' @ hash,
          ''HASH_CHECK|'' @ itoa (int (i + 1)) @ ''|'' @ hash @ ''|'' @ status @ ''|'' @
            sanitizeHashCheckMessage message])"

section \<open>Properties\<close>

definition clean_hash :: "string \<Rightarrow> bool" where
  "clean_hash h \<longleftrightarrow> (\<forall>c \<in> set h. \<not> is_delimiter c)"

lemma cut_delimiter_clean: "clean_hash (cut_delimiter s)"
proof (induction s)
  case Nil
  then show ?case by (simp add: cut_delimiter_def clean_hash_def)
next
  case (Cons c s)
  then show ?case
    by (cases "index_char is_delimiter s") (auto simp: cut_delimiter_def clean_hash_def)
qed

lemma trim_clean: "clean_hash h \<Longrightarrow> clean_hash (trim_set x (trim_space h))"
  using trim_with_set unfolding clean_hash_def trim_set_def trim_space_def by blast

lemma normalize_clean: "clean_hash (normalizeVKJoinHash input)"
  by (auto simp: normalizeVKJoinHash_def Let_def clean_hash_def [of "[]"] split: option.splits
      intro: trim_clean cut_delimiter_clean)

lemma collect_hashes_spec:
  assumes "distinct acc" "seen = set acc"
  shows "distinct (collect_hashes fs seen acc)
    \<and> set (collect_hashes fs seen acc) = set acc \<union> {h. h \<noteq> [] \<and> h \<in> normalizeVKJoinHash ` set fs}"
  using assms
proof (induction fs arbitrary: seen acc)
  case Nil
  then show ?case by simp
next
  case (Cons f fs)
  let ?h = "normalizeVKJoinHash f"
  show ?case
  proof (cases "?h = [] \<or> ?h \<in> seen")
    case True
    then show ?thesis
      using Cons by (auto simp: Let_def)
  next
    case False
    then show ?thesis
      using Cons.IH [of "acc @ [?h]" "insert ?h seen"] Cons.prems by (auto simp: Let_def)
  qed
qed

text \<open>
  The list of hashes: \<^verbatim>\<open>ParseHashes\<close> returns every non-empty normalised field of its
  input exactly once, and none of them contains a delimiter of a URL, so a hash can be put
  into a link and used as the key of the cache.
\<close>

theorem parse_hashes_unique:
  "distinct (ParseHashes raw)
   \<and> set (ParseHashes raw)
       = {h. h \<noteq> [] \<and> h \<in> normalizeVKJoinHash ` set (fields_func is_hash_separator raw)}
   \<and> list_all clean_hash (ParseHashes raw) \<and> [] \<notin> set (ParseHashes raw)"
  using collect_hashes_spec [of "[]" "{}" "fields_func is_hash_separator raw"] normalize_clean
  by (auto simp: ParseHashes_def list_all_iff)

lemma replace_char_set: "a \<noteq> b \<Longrightarrow> a \<notin> set (replace_char a b s)"
  by (induction s) (auto simp: replace_char_def)

lemma replace_char_keeps: "c \<notin> set s \<Longrightarrow> c \<noteq> b \<Longrightarrow> c \<notin> set (replace_char a b s)"
  by (induction s) (auto simp: replace_char_def)

lemma sanitize_clean:
  "CHR ''|'' \<notin> set (sanitizeHashCheckMessage m) \<and> CHR 0x0A \<notin> set (sanitizeHashCheckMessage m)
   \<and> CHR 0x0D \<notin> set (sanitizeHashCheckMessage m) \<and> length (sanitizeHashCheckMessage m) \<le> 180"
  by (auto simp: sanitizeHashCheckMessage_def Let_def replace_char_set replace_char_keeps
      dest!: in_set_takeD)

text \<open>A message without the separator of the report leaves the fields of a line readable.\<close>

lemma status_clean: "CHR ''|'' \<notin> set (fst (classifyHashCheckError e))"
  by (auto simp: classifyHashCheckError_def Let_def split: option.splits)

lemma itoa_clean: "0 \<le> n \<Longrightarrow> CHR ''|'' \<notin> set (itoa n)"
  using nat_digits_correct [of "nat n"]
  by (auto simp: itoa_def list_all_iff is_digit_def byte_of_def)

text \<open>
  A line of the report can be split again: for a hash without the separator, the result
  line of the check has exactly the five fields that were put into it, whatever the text of
  the error is.
\<close>

theorem hash_check_fields:
  assumes "CHR ''|'' \<notin> set hash"
  shows "\<exists>status message.
    split_at (CHR ''|'') (hash_check_lines i hash result ! 1)
      = [''HASH_CHECK'', itoa (int (i + 1)), hash, status, message]
    \<and> CHR 0x0A \<notin> set message \<and> length message \<le> 180
    \<and> (\<forall>e. result = Inl e \<longrightarrow> status = fst (classifyHashCheckError (Some e)))
    \<and> (\<forall>urls. result = Inr urls \<longrightarrow> status = ''ok'')"
proof -
  define sm where "sm = (case result of
      Inl e \<Rightarrow> classifyHashCheckError (Some e)
    | Inr urls \<Rightarrow> (''ok'', ''TURN urls='' @ itoa (int (length urls))))"
  have st: "CHR ''|'' \<notin> set (fst sm)"
    using status_clean by (auto simp: sm_def split: sum.splits)
  have l: "hash_check_lines i hash result ! 1
      = ''HASH_CHECK'' @ CHR ''|'' # itoa (int (i + 1)) @ CHR ''|'' # hash @ CHR ''|'' # fst sm @ CHR ''|'' #
        sanitizeHashCheckMessage (snd sm)"
    by (simp add: hash_check_lines_def sm_def [symmetric] split_def)
  have h: "CHR ''|'' \<notin> set ''HASH_CHECK''"
    by simp
  have n: "CHR ''|'' \<notin> set (itoa (int (i + 1)))"
    by (rule itoa_clean) simp
  have s: "split_at (CHR ''|'') (hash_check_lines i hash result ! 1)
      = [''HASH_CHECK'', itoa (int (i + 1)), hash, fst sm, sanitizeHashCheckMessage (snd sm)]"
    unfolding l split_at_append [OF h] split_at_append [OF n]
      split_at_append [OF assms] split_at_append [OF st]
    using sanitize_clean by (simp add: split_at_id)
  have "\<forall>e. result = Inl e \<longrightarrow> fst sm = fst (classifyHashCheckError (Some e))"
    "\<forall>urls. result = Inr urls \<longrightarrow> fst sm = ''ok''"
    by (auto simp: sm_def)
  then show ?thesis
    using s sanitize_clean by blast
qed

theorem hash_check_fields_witness:
  "\<exists>status message.
    split_at (CHR ''|'') (hash_check_lines 0 ''abc'' (Inl (ErrText ''a|b'')) ! 1)
      = [''HASH_CHECK'', ''1'', ''abc'', status, message] \<and> length message \<le> 180"
proof -
  have "itoa (int (0 + 1)) = ''1''"
    by code_simp
  then show ?thesis
    using hash_check_fields [of "''abc''" 0 "Inl (ErrText ''a|b'')"] by auto
qed

end
