(* ===== verification/CredsCache.thy ===== *)
theory CredsCache
  imports Hashes
begin

text \<open>
  The cache of TURN credentials in \<^verbatim>\<open>creds.go\<close>: the store of caches by link, and for one
  cache the operations of \<^verbatim>\<open>getVkCredsCached\<close>, \<^verbatim>\<open>runCacheFetch\<close> and
  \<^verbatim>\<open>InvalidateLinkCacheIfGen\<close>. Fetch operations are heap objects named by the order of their
  creation; the goroutines that call and fetch are in \<open>CacheSystem\<close>. Generations and
  revisions count completed requests and are natural numbers (a \<^verbatim>\<open>uint64\<close> that is
  incremented once per request cannot wrap around).
\<close>

section \<open>Data\<close>

record TurnCredentials =
  tc_Username :: string
  tc_Password :: string
  tc_ServerAddrs :: "string list"
  tc_ExpiresAt :: gotime
  tc_Link :: string
  tc_Generation :: nat

definition zero_creds :: TurnCredentials where
  "zero_creds =
     \<lparr>tc_Username = [], tc_Password = [], tc_ServerAddrs = [], tc_ExpiresAt = 0, tc_Link = [],
      tc_Generation = 0\<rparr>"

record cacheFetchOp =
  fo_done :: bool
  fo_canceled :: bool
  fo_waiters :: int
  fo_gen :: nat
  fo_err :: "goerr option"
  fo_startRevision :: nat

record StreamCredentialsCache =
  ca_creds :: TurnCredentials
  ca_errorCount :: int
  ca_lastErrorTime :: int
  ca_generation :: nat
  ca_revision :: nat
  ca_activeFetch :: "nat option"

definition new_cache :: StreamCredentialsCache where
  "new_cache =
     \<lparr>ca_creds = zero_creds, ca_errorCount = 0, ca_lastErrorTime = 0, ca_generation = 0,
      ca_revision = 0, ca_activeFetch = None\<rparr>"

definition credentialLifetime :: duration where
  "credentialLifetime = 10 * minute"

definition cacheSafetyMargin :: duration where
  "cacheSafetyMargin = 60 * second"

definition ErrCredentialsInvalidated :: goerr where
  "ErrCredentialsInvalidated =
     Sentinel ''TURN_CREDS_INVALIDATED: credentials invalidated before consumption''"

section \<open>The store of caches\<close>

record creds_store =
  cs_caches :: "(string \<times> nat) list"
  cs_heap :: "nat \<Rightarrow> StreamCredentialsCache"
  cs_next :: nat
  cs_streamToLink :: "int \<rightharpoonup> string"

definition norm_link :: "string \<Rightarrow> string" where
  "norm_link link = (if normalizeVKJoinHash link = [] then link else normalizeVKJoinHash link)"

definition cache_at :: "string \<Rightarrow> creds_store \<Rightarrow> nat \<times> creds_store" where
  "cache_at key s =
     (case map_of (cs_caches s) key of
        Some l \<Rightarrow> (l, s)
      | None \<Rightarrow>
          (cs_next s,
           s\<lparr>cs_caches := (key, cs_next s) # cs_caches s,
             cs_heap := (cs_heap s)(cs_next s := new_cache),
             cs_next := Suc (cs_next s)\<rparr>))"

definition getLinkCache :: "string \<Rightarrow> creds_store \<Rightarrow> nat \<times> creds_store" where
  "getLinkCache link s = cache_at (norm_link link) s"

definition registerStreamLink :: "int \<Rightarrow> string \<Rightarrow> creds_store \<Rightarrow> creds_store" where
  "registerStreamLink streamID link s =
     s\<lparr>cs_streamToLink := (cs_streamToLink s)(streamID \<mapsto> norm_link link)\<rparr>"

definition getStreamCache :: "int \<Rightarrow> creds_store \<Rightarrow> nat \<times> creds_store" where
  "getStreamCache streamID s =
     (case cs_streamToLink s streamID of
        Some link \<Rightarrow> if link \<noteq> [] then getLinkCache link s else getLinkCache (itoa streamID) s
      | None \<Rightarrow> getLinkCache (itoa streamID) s)"

definition store_view :: "creds_store \<Rightarrow> string \<Rightarrow> nat option" where
  "store_view s k = map_of (cs_caches s) k"

definition store_wf :: "creds_store \<Rightarrow> bool" where
  "store_wf s \<longleftrightarrow>
     distinct (map fst (cs_caches s)) \<and> distinct (map snd (cs_caches s))
     \<and> (\<forall>l \<in> snd ` set (cs_caches s). l < cs_next s)"

lemma cache_at_wf: "store_wf s \<Longrightarrow> cache_at k s = (l, s') \<Longrightarrow> store_wf s'"
  by (fastforce simp: cache_at_def store_wf_def map_of_eq_None_iff less_Suc_eq split: option.splits)

interpretation cache_table: pointer_table cache_at store_view store_wf
proof unfold_locales
  fix s k l assume "store_view s k = Some l"
  then show "cache_at k s = (l, s)" by (simp add: cache_at_def store_view_def)
next
  fix s k l s' assume "cache_at k s = (l, s')"
  then show "store_view s' k = Some l"
    by (auto simp: cache_at_def store_view_def split: option.splits)
next
  fix s k l s' k' assume "cache_at k s = (l, s')" "k' \<noteq> k"
  then show "store_view s' k' = store_view s k'"
    by (auto simp: cache_at_def store_view_def split: option.splits)
next
  fix s k l k' assume "store_wf s" "store_view s k = Some l" "store_view s k' = Some l"
  then have "(k, l) \<in> set (cs_caches s)" "(k', l) \<in> set (cs_caches s)" "distinct (map snd (cs_caches s))"
    by (auto simp: store_view_def store_wf_def dest: map_of_SomeD)
  then show "k = k'" by (force simp: distinct_map inj_on_def)
qed (fact cache_at_wf)

section \<open>One cache\<close>

text \<open>The credentials are usable for a link at a time.\<close>

definition cache_valid :: "string \<Rightarrow> gotime \<Rightarrow> StreamCredentialsCache \<Rightarrow> bool" where
  "cache_valid link now c \<longleftrightarrow>
     tc_Link (ca_creds c) = link \<and> now < tc_ExpiresAt (ca_creds c) \<and> tc_ServerAddrs (ca_creds c) \<noteq> []"

type_synonym creds_result = "string \<times> string \<times> string list \<times> nat"

definition read_creds :: "StreamCredentialsCache \<Rightarrow> creds_result" where
  "read_creds c =
     (tc_Username (ca_creds c), tc_Password (ca_creds c), tc_ServerAddrs (ca_creds c),
      tc_Generation (ca_creds c))"

text \<open>The read of the fast path and of the second check under \<^verbatim>\<open>fetchMu\<close>\<close>

definition cache_lookup :: "string \<Rightarrow> gotime \<Rightarrow> StreamCredentialsCache \<Rightarrow> creds_result option" where
  "cache_lookup link now c = (if cache_valid link now c then Some (read_creds c) else None)"

text \<open>
  Under \<^verbatim>\<open>fetchMu\<close>: join the running fetch unless it was cancelled, or register a new one.
  The result is the operation to wait for and whether a goroutine must be started for it.
\<close>

definition new_op :: "StreamCredentialsCache \<Rightarrow> cacheFetchOp" where
  "new_op c =
     \<lparr>fo_done = False, fo_canceled = False, fo_waiters = 1, fo_gen = 0, fo_err = None,
      fo_startRevision = ca_revision c\<rparr>"

definition join_or_start ::
  "StreamCredentialsCache \<Rightarrow> cacheFetchOp list \<Rightarrow>
   nat \<times> bool \<times> StreamCredentialsCache \<times> cacheFetchOp list"
where
  "join_or_start c ops =
     (case ca_activeFetch c of
        Some i \<Rightarrow>
          if \<not> fo_canceled (ops ! i) then
            (i, False, c, ops[i := (ops ! i)\<lparr>fo_waiters := fo_waiters (ops ! i) + 1\<rparr>])
          else (length ops, True, c\<lparr>ca_activeFetch := Some (length ops)\<rparr>, ops @ [new_op c])
      | None \<Rightarrow> (length ops, True, c\<lparr>ca_activeFetch := Some (length ops)\<rparr>, ops @ [new_op c]))"

text \<open>A caller that has seen the end of the operation leaves it and reads the cache again.\<close>

definition leave_op :: "cacheFetchOp \<Rightarrow> cacheFetchOp" where
  "leave_op op = op\<lparr>fo_waiters := fo_waiters op - 1\<rparr>"

definition consume ::
  "string \<Rightarrow> gotime \<Rightarrow> cacheFetchOp \<Rightarrow> StreamCredentialsCache \<Rightarrow> goerr + creds_result"
where
  "consume link now op c =
     (if cache_valid link now c \<and> (fo_gen op = 0 \<or> tc_Generation (ca_creds c) \<ge> fo_gen op)
      then Inr (read_creds c) else Inl ErrCredentialsInvalidated)"

text \<open>A caller whose context is cancelled; the last one cancels the operation.\<close>

definition abandon_op :: "cacheFetchOp \<Rightarrow> cacheFetchOp" where
  "abandon_op op =
     (let op1 = leave_op op in if fo_waiters op1 \<le> 0 then op1\<lparr>fo_canceled := True\<rparr> else op1)"

text \<open>\<^verbatim>\<open>runCacheFetch\<close>: the publication of a result under \<^verbatim>\<open>cache.mutex\<close>\<close>

definition publish ::
  "string \<Rightarrow> gotime \<Rightarrow> goerr + (string \<times> string \<times> string list) \<Rightarrow> cacheFetchOp \<Rightarrow>
   StreamCredentialsCache \<Rightarrow> cacheFetchOp \<times> StreamCredentialsCache"
where
  "publish link now res op c =
     (case res of
        Inl e \<Rightarrow> (op\<lparr>fo_err := Some e\<rparr>, c)
      | Inr (user, pass, addrs) \<Rightarrow>
          if ca_revision c \<noteq> fo_startRevision op then
            (op\<lparr>fo_err := Some ErrCredentialsInvalidated\<rparr>, c)
          else
            (let newGen = ca_generation c + 1 in
             (op\<lparr>fo_err := None, fo_gen := newGen\<rparr>,
              c\<lparr>ca_generation := newGen, ca_revision := ca_revision c + 1,
                ca_creds :=
                  \<lparr>tc_Username = user, tc_Password = pass, tc_ServerAddrs = addrs,
                   tc_ExpiresAt = now + (credentialLifetime - cacheSafetyMargin), tc_Link = link,
                   tc_Generation = newGen\<rparr>\<rparr>)))"

definition clear_active :: "nat \<Rightarrow> StreamCredentialsCache \<Rightarrow> StreamCredentialsCache" where
  "clear_active i c = (if ca_activeFetch c = Some i then c\<lparr>ca_activeFetch := None\<rparr> else c)"

text \<open>\<^verbatim>\<open>InvalidateLinkCacheIfGen\<close> on the cache of the link\<close>

definition invalidate_gen :: "nat \<Rightarrow> StreamCredentialsCache \<Rightarrow> StreamCredentialsCache \<times> bool" where
  "invalidate_gen failedGen c =
     (if failedGen = 0 then (c, False)
      else if tc_Link (ca_creds c) = [] \<or> tc_ServerAddrs (ca_creds c) = [] then (c, False)
      else if tc_Generation (ca_creds c) \<noteq> failedGen then (c, False)
      else
        (c\<lparr>ca_revision := ca_revision c + 1, ca_creds := zero_creds, ca_errorCount := 0,
           ca_lastErrorTime := 0\<rparr>,
         True))"

definition InvalidateLinkCacheIfGen :: "string \<Rightarrow> nat \<Rightarrow> creds_store \<Rightarrow> creds_store \<times> bool" where
  "InvalidateLinkCacheIfGen link failedGen s =
     (if failedGen = 0 then (s, False)
      else
        (case getLinkCache (norm_link link) s of
           (l, s1) \<Rightarrow>
             (case invalidate_gen failedGen (cs_heap s1 l) of
                (c, ok) \<Rightarrow> (s1\<lparr>cs_heap := (cs_heap s1)(l := c)\<rparr>, ok))))"

section \<open>Properties of the operations\<close>

text \<open>
  Which credentials an invalidation removes: \<^verbatim>\<open>InvalidateLinkCacheIfGen\<close> empties the cache
  exactly when the refused generation is the one in the cache; it never lowers the counters
  of generations and revisions, changes the revision when it empties the cache, and a fetch
  that was started before then publishes nothing and reports that its result is outdated.
\<close>

theorem invalidate_exact:
  assumes "invalidate_gen g c = (c', ok)"
  shows "(ok \<longleftrightarrow> g \<noteq> 0 \<and> tc_Link (ca_creds c) \<noteq> [] \<and> tc_ServerAddrs (ca_creds c) \<noteq> []
            \<and> tc_Generation (ca_creds c) = g)
    \<and> (ok \<longrightarrow> cache_lookup link now c' = None \<and> ca_revision c < ca_revision c')
    \<and> (\<not> ok \<longrightarrow> c' = c)
    \<and> ca_generation c' = ca_generation c
    \<and> (ok \<and> fo_startRevision op \<le> ca_revision c \<longrightarrow>
         publish link t (Inr up) op c' = (op\<lparr>fo_err := Some ErrCredentialsInvalidated\<rparr>, c'))"
  using assms
  by (cases up) (auto simp: invalidate_gen_def cache_lookup_def cache_valid_def zero_creds_def publish_def
      split: if_splits)

definition cache_filled :: StreamCredentialsCache where
  "cache_filled =
     snd (publish ''abc'' 5 (Inr (''u'', ''p'', [''1.2.3.4:5''])) (new_op new_cache) new_cache)"

theorem invalidate_exact_witness:
  "\<exists>c'. invalidate_gen 1 cache_filled = (c', True) \<and> cache_lookup ''abc'' 6 c' = None"
proof -
  obtain c' ok where i: "invalidate_gen 1 cache_filled = (c', ok)"
    by (cases "invalidate_gen 1 cache_filled")
  have "ok"
    using invalidate_exact [OF i] by (simp add: cache_filled_def publish_def new_op_def new_cache_def Let_def)
  then show ?thesis
    using invalidate_exact [OF i, of "''abc''" 6] i by simp
qed

text \<open>
  The store: whatever spelling of a link is used, the cache of a link is one object that
  later calls find again, and different normalised links never share a cache.
\<close>

theorem link_cache_stable:
  assumes "store_wf s" "getLinkCache a s = (l, s1)" "getLinkCache b s1 = (l', s2)"
  shows "store_wf s2 \<and> (norm_link a = norm_link b \<longleftrightarrow> l = l')
    \<and> fst (getLinkCache a s2) = l \<and> fst (getLinkCache b s2) = l'"
proof -
  have a: "cache_at (norm_link a) s = (l, s1)" and b: "cache_at (norm_link b) s1 = (l', s2)"
    using assms(2,3) by (simp_all add: getLinkCache_def)
  have wf: "store_wf s1" "store_wf s2"
    using cache_at_wf assms(1) a b by blast+
  have sep: "norm_link a \<noteq> norm_link b \<Longrightarrow> l \<noteq> l'"
    using cache_table.get_separate [OF assms(1) a b] by simp
  have same: "norm_link a = norm_link b \<Longrightarrow> l = l'"
    using cache_table.get_idem [OF a] b by simp
  have "fst (cache_at (norm_link a) s2) = l" "fst (cache_at (norm_link b) s2) = l'"
    using cache_table.get_stable [OF a b] cache_table.get_idem [OF b] by simp_all
  then show ?thesis
    using wf sep same by (auto simp: getLinkCache_def)
qed

definition empty_store :: creds_store where
  "empty_store = \<lparr>cs_caches = [], cs_heap = (\<lambda>_. new_cache), cs_next = 0, cs_streamToLink = Map.empty\<rparr>"

theorem link_cache_stable_witness:
  "\<exists>l s1 l' s2. getLinkCache ''https://vk.com/call/join/abc?x'' empty_store = (l, s1)
     \<and> getLinkCache ''abc'' s1 = (l', s2) \<and> l = l'"
proof -
  obtain l s1 l' s2 where g: "getLinkCache ''https://vk.com/call/join/abc?x'' empty_store = (l, s1)"
    "getLinkCache ''abc'' s1 = (l', s2)"
    by (metis surj_pair)
  have "store_wf empty_store"
    by (simp add: store_wf_def empty_store_def)
  moreover have "norm_link ''https://vk.com/call/join/abc?x'' = norm_link ''abc''"
    by code_simp
  ultimately show ?thesis
    using link_cache_stable [OF _ g] g by blast
qed

end
