(* ===== verification/CacheSystem.thy ===== *)
theory CacheSystem
  imports CredsCache
begin

text \<open>
  The goroutines around one cache of \<^verbatim>\<open>creds.go\<close>: callers of \<^verbatim>\<open>getVkCredsCached\<close>, the fetch
  goroutines of \<^verbatim>\<open>runCacheFetch\<close>, and invalidations by workers whose credentials were
  refused. Every lock region is one step, so the steps interleave at least as freely as in
  the code. \<open>kc_invalid\<close> records the generations that were invalidated and \<open>kc_stale\<close> the
  operations that were running at that time.
\<close>

section \<open>Goroutines\<close>

datatype caller =
    CallerIdle
  | CallerLookup
  | CallerLock
  | CallerJoin
  | CallerWait nat
  | CallerLeave nat
  | CallerConsume nat
  | CallerDone "goerr + creds_result"

datatype fetch_phase =
    PhFetch
  | PhPublish "goerr + (string \<times> string \<times> string list)"
  | PhClear
  | PhExit
  | PhEnd

record cache_system =
  kc_cache :: StreamCredentialsCache
  kc_ops :: "cacheFetchOp list"
  kc_phases :: "fetch_phase list"
  kc_callers :: "caller list"
  kc_now :: gotime
  kc_invalid :: "nat set"
  kc_stale :: "nat set"

text \<open>What a caller does next, alone or with its operation\<close>

definition after_lookup :: "caller \<Rightarrow> creds_result option \<Rightarrow> caller" where
  "after_lookup next r = (case r of Some x \<Rightarrow> CallerDone (Inr x) | None \<Rightarrow> next)"

definition after_leave :: "nat \<Rightarrow> cacheFetchOp \<Rightarrow> caller" where
  "after_leave i op = (case fo_err op of Some e \<Rightarrow> CallerDone (Inl e) | None \<Rightarrow> CallerConsume i)"

definition set_caller :: "nat \<Rightarrow> caller \<Rightarrow> cache_system \<Rightarrow> cache_system" where
  "set_caller k x s = s\<lparr>kc_callers := (kc_callers s)[k := x]\<rparr>"

definition set_op :: "nat \<Rightarrow> cacheFetchOp \<Rightarrow> cache_system \<Rightarrow> cache_system" where
  "set_op i x s = s\<lparr>kc_ops := (kc_ops s)[i := x]\<rparr>"

definition set_phase :: "nat \<Rightarrow> fetch_phase \<Rightarrow> cache_system \<Rightarrow> cache_system" where
  "set_phase i x s = s\<lparr>kc_phases := (kc_phases s)[i := x]\<rparr>"

definition start_join :: "nat \<Rightarrow> cache_system \<Rightarrow> cache_system" where
  "start_join k s =
     (case join_or_start (kc_cache s) (kc_ops s) of
        (i, started, c, ops) \<Rightarrow>
          set_caller k (CallerWait i)
            (s\<lparr>kc_cache := c, kc_ops := ops,
               kc_phases := (if started then kc_phases s @ [PhFetch] else kc_phases s)\<rparr>))"

definition do_publish ::
  "string \<Rightarrow> nat \<Rightarrow> goerr + (string \<times> string \<times> string list) \<Rightarrow> cache_system \<Rightarrow> cache_system"
where
  "do_publish link i res s =
     (case publish link (kc_now s) res (kc_ops s ! i) (kc_cache s) of
        (op, c) \<Rightarrow> set_op i op (set_phase i PhClear (s\<lparr>kc_cache := c\<rparr>)))"

definition do_invalidate :: "nat \<Rightarrow> cache_system \<Rightarrow> cache_system" where
  "do_invalidate g s =
     (case invalidate_gen g (kc_cache s) of
        (c, ok) \<Rightarrow>
          if ok then s\<lparr>kc_cache := c, kc_invalid := insert g (kc_invalid s),
                      kc_stale := {i. i < length (kc_ops s)}\<rparr>
          else s)"

inductive cache_step :: "string \<Rightarrow> cache_system \<Rightarrow> cache_system \<Rightarrow> bool" for link where
  cs_call: "k < length (kc_callers s) \<Longrightarrow> kc_callers s ! k = CallerIdle \<Longrightarrow>
    cache_step link s (set_caller k CallerLookup s)"
| cs_lookup: "k < length (kc_callers s) \<Longrightarrow> kc_callers s ! k = CallerLookup \<Longrightarrow>
    cache_step link s (set_caller k (after_lookup CallerLock (cache_lookup link (kc_now s) (kc_cache s))) s)"
| cs_recheck: "k < length (kc_callers s) \<Longrightarrow> kc_callers s ! k = CallerLock \<Longrightarrow>
    cache_step link s (set_caller k (after_lookup CallerJoin (cache_lookup link (kc_now s) (kc_cache s))) s)"
| cs_join: "k < length (kc_callers s) \<Longrightarrow> kc_callers s ! k = CallerJoin \<Longrightarrow>
    cache_step link s (start_join k s)"
| cs_done: "k < length (kc_callers s) \<Longrightarrow> kc_callers s ! k = CallerWait i \<Longrightarrow> fo_done (kc_ops s ! i) \<Longrightarrow>
    cache_step link s (set_caller k (CallerLeave i) s)"
| cs_leave: "k < length (kc_callers s) \<Longrightarrow> kc_callers s ! k = CallerLeave i \<Longrightarrow>
    cache_step link s
      (set_caller k (after_leave i (kc_ops s ! i)) (set_op i (leave_op (kc_ops s ! i)) s))"
| cs_consume: "k < length (kc_callers s) \<Longrightarrow> kc_callers s ! k = CallerConsume i \<Longrightarrow>
    cache_step link s
      (set_caller k (CallerDone (consume link (kc_now s) (kc_ops s ! i) (kc_cache s))) s)"
| cs_abandon: "k < length (kc_callers s) \<Longrightarrow> kc_callers s ! k = CallerWait i \<Longrightarrow>
    cache_step link s
      (set_caller k (CallerDone (Inl CtxCanceled)) (set_op i (abandon_op (kc_ops s ! i)) s))"
| cs_return: "k < length (kc_callers s) \<Longrightarrow> kc_callers s ! k = CallerDone r \<Longrightarrow>
    cache_step link s (set_caller k CallerIdle s)"
| cs_fetched: "i < length (kc_phases s) \<Longrightarrow> kc_phases s ! i = PhFetch \<Longrightarrow>
    cache_step link s (set_phase i (PhPublish res) s)"
| cs_publish: "i < length (kc_phases s) \<Longrightarrow> kc_phases s ! i = PhPublish res \<Longrightarrow>
    cache_step link s (do_publish link i res s)"
| cs_clear: "i < length (kc_phases s) \<Longrightarrow> kc_phases s ! i = PhClear \<Longrightarrow>
    cache_step link s (set_phase i PhExit (s\<lparr>kc_cache := clear_active i (kc_cache s)\<rparr>))"
| cs_exit: "i < length (kc_phases s) \<Longrightarrow> kc_phases s ! i = PhExit \<Longrightarrow>
    cache_step link s
      (set_phase i PhEnd (set_op i ((kc_ops s ! i)\<lparr>fo_canceled := True, fo_done := True\<rparr>) s))"
| cs_invalidate: "cache_step link s (do_invalidate g s)"
| cs_tick: "kc_now s \<le> t \<Longrightarrow> cache_step link s (s\<lparr>kc_now := t\<rparr>)"

definition cache_init :: "cache_system \<Rightarrow> bool" where
  "cache_init s \<longleftrightarrow>
     kc_cache s = new_cache \<and> kc_ops s = [] \<and> kc_phases s = [] \<and> set (kc_callers s) \<subseteq> {CallerIdle}
     \<and> kc_invalid s = {} \<and> kc_stale s = {}"

section \<open>The invariant of the data\<close>

text \<open>
  Generations: the credentials in the cache carry the newest generation, no invalidated one
  is in the cache, and every operation that ran during an invalidation is outdated.
\<close>

definition data_inv :: "cache_system \<Rightarrow> bool" where
  "data_inv s \<longleftrightarrow>
     length (kc_phases s) = length (kc_ops s)
     \<and> (ca_creds (kc_cache s) = zero_creds
        \<or> tc_Generation (ca_creds (kc_cache s)) = ca_generation (kc_cache s)
          \<and> tc_Generation (ca_creds (kc_cache s)) \<notin> kc_invalid s)
     \<and> (\<forall>g \<in> kc_invalid s. g \<le> ca_generation (kc_cache s))
     \<and> (\<forall>op \<in> set (kc_ops s). fo_gen op \<le> ca_generation (kc_cache s)
          \<and> fo_startRevision op \<le> ca_revision (kc_cache s))
     \<and> kc_stale s \<subseteq> {i. i < length (kc_ops s)}
     \<and> (\<forall>i \<in> kc_stale s. fo_startRevision (kc_ops s ! i) < ca_revision (kc_cache s))"

lemma data_invI:
  assumes "length (kc_phases s) = length (kc_ops s)"
    "ca_creds (kc_cache s) = zero_creds
      \<or> tc_Generation (ca_creds (kc_cache s)) = ca_generation (kc_cache s)
        \<and> tc_Generation (ca_creds (kc_cache s)) \<notin> kc_invalid s"
    "\<And>g. g \<in> kc_invalid s \<Longrightarrow> g \<le> ca_generation (kc_cache s)"
    "\<And>i. i < length (kc_ops s) \<Longrightarrow> fo_gen (kc_ops s ! i) \<le> ca_generation (kc_cache s)
      \<and> fo_startRevision (kc_ops s ! i) \<le> ca_revision (kc_cache s)"
    "\<And>i. i \<in> kc_stale s \<Longrightarrow> i < length (kc_ops s)
      \<and> fo_startRevision (kc_ops s ! i) < ca_revision (kc_cache s)"
  shows "data_inv s"
  using assms by (auto simp: data_inv_def all_set_conv_all_nth)

lemma data_invD:
  assumes "data_inv s"
  shows "length (kc_phases s) = length (kc_ops s)"
    "ca_creds (kc_cache s) = zero_creds
      \<or> tc_Generation (ca_creds (kc_cache s)) = ca_generation (kc_cache s)
        \<and> tc_Generation (ca_creds (kc_cache s)) \<notin> kc_invalid s"
    "g \<in> kc_invalid s \<Longrightarrow> g \<le> ca_generation (kc_cache s)"
    "i < length (kc_ops s) \<Longrightarrow> fo_gen (kc_ops s ! i) \<le> ca_generation (kc_cache s)
      \<and> fo_startRevision (kc_ops s ! i) \<le> ca_revision (kc_cache s)"
    "i \<in> kc_stale s \<Longrightarrow> i < length (kc_ops s)
      \<and> fo_startRevision (kc_ops s ! i) < ca_revision (kc_cache s)"
  using assms by (auto simp: data_inv_def all_set_conv_all_nth)

lemma sel_simps [simp]:
  "kc_cache (set_caller k x s) = kc_cache s" "kc_ops (set_caller k x s) = kc_ops s"
  "kc_phases (set_caller k x s) = kc_phases s" "kc_callers (set_caller k x s) = (kc_callers s)[k := x]"
  "kc_invalid (set_caller k x s) = kc_invalid s" "kc_stale (set_caller k x s) = kc_stale s"
  "kc_cache (set_op i y s) = kc_cache s" "kc_ops (set_op i y s) = (kc_ops s)[i := y]"
  "kc_phases (set_op i y s) = kc_phases s" "kc_callers (set_op i y s) = kc_callers s"
  "kc_invalid (set_op i y s) = kc_invalid s" "kc_stale (set_op i y s) = kc_stale s"
  "kc_cache (set_phase i p s) = kc_cache s" "kc_ops (set_phase i p s) = kc_ops s"
  "kc_phases (set_phase i p s) = (kc_phases s)[i := p]" "kc_callers (set_phase i p s) = kc_callers s"
  "kc_invalid (set_phase i p s) = kc_invalid s" "kc_stale (set_phase i p s) = kc_stale s"
  by (simp_all add: set_caller_def set_op_def set_phase_def)

lemma op_nth_update: "i < length ops \<Longrightarrow> ops[j := x] ! i = (if i = j then x else ops ! i)"
  by (simp add: nth_list_update)

lemma data_inv_op:
  assumes "data_inv s" "fo_gen op \<le> fo_gen (kc_ops s ! i)" "fo_startRevision op = fo_startRevision (kc_ops s ! i)"
    "kc_cache s' = kc_cache s" "kc_ops s' = (kc_ops s)[i := op]" "length (kc_phases s') = length (kc_phases s)"
    "kc_invalid s' = kc_invalid s" "kc_stale s' = kc_stale s"
  shows "data_inv s'"
proof (rule data_invI)
  note D = data_invD [OF assms(1)]
  show "length (kc_phases s') = length (kc_ops s')"
    using D(1) assms(5,6) by simp
  show "ca_creds (kc_cache s') = zero_creds
      \<or> tc_Generation (ca_creds (kc_cache s')) = ca_generation (kc_cache s')
        \<and> tc_Generation (ca_creds (kc_cache s')) \<notin> kc_invalid s'"
    using D(2) assms(4,7) by simp
  show "g \<le> ca_generation (kc_cache s')" if "g \<in> kc_invalid s'" for g
    using D(3) that assms(4,7) by simp
  show "fo_gen (kc_ops s' ! j) \<le> ca_generation (kc_cache s')
      \<and> fo_startRevision (kc_ops s' ! j) \<le> ca_revision (kc_cache s')" if "j < length (kc_ops s')" for j
    using D(4) [of j] that assms(2-5) by (auto simp: op_nth_update)
  show "j < length (kc_ops s') \<and> fo_startRevision (kc_ops s' ! j) < ca_revision (kc_cache s')"
    if "j \<in> kc_stale s'" for j
    using D(5) [of j] that assms(3-5,8) by (auto simp: op_nth_update)
qed

lemma data_inv_same:
  assumes "data_inv s" "kc_cache s' = kc_cache s" "kc_ops s' = kc_ops s"
    "length (kc_phases s') = length (kc_phases s)" "kc_invalid s' = kc_invalid s" "kc_stale s' = kc_stale s"
  shows "data_inv s'"
  using assms by (simp add: data_inv_def)

lemma data_inv_start:
  assumes "data_inv s" "kc_cache s' = (kc_cache s)\<lparr>ca_activeFetch := a\<rparr>"
    "kc_ops s' = kc_ops s @ [new_op (kc_cache s)]" "kc_phases s' = kc_phases s @ [p]"
    "kc_invalid s' = kc_invalid s" "kc_stale s' = kc_stale s"
  shows "data_inv s'"
  by (rule data_invI)
    (use assms data_invD [OF assms(1)] in \<open>auto simp: nth_append new_op_def less_Suc_eq\<close>)

lemma data_inv_join: "data_inv s \<Longrightarrow> data_inv (start_join k s)"
proof -
  assume inv: "data_inv s"
  have jn: "data_inv (set_caller k (CallerWait i) (s\<lparr>kc_cache := kc_cache s,
      kc_ops := (kc_ops s)[i := (kc_ops s ! i)\<lparr>fo_waiters := w\<rparr>], kc_phases := kc_phases s\<rparr>))" for i w
    by (rule data_inv_op [OF inv, of "(kc_ops s ! i)\<lparr>fo_waiters := w\<rparr>" i]) simp_all
  have st: "data_inv (set_caller k x (s\<lparr>kc_cache := (kc_cache s)\<lparr>ca_activeFetch := a\<rparr>,
      kc_ops := kc_ops s @ [new_op (kc_cache s)], kc_phases := kc_phases s @ [PhFetch]\<rparr>))" for x a
    by (rule data_inv_start [OF inv, of _ a PhFetch]) simp_all
  show ?thesis
    using jn st by (simp add: start_join_def join_or_start_def split: option.split)
qed

lemma publish_cases:
  obtains (Error) e where "publish link now res op c = (op\<lparr>fo_err := Some e\<rparr>, c)"
  | (Write) n cr where "publish link now res op c
        = (op\<lparr>fo_err := None, fo_gen := n\<rparr>,
           c\<lparr>ca_generation := n, ca_revision := ca_revision c + 1, ca_creds := cr\<rparr>)"
      "n = ca_generation c + 1" "tc_Generation cr = n" "fo_startRevision op = ca_revision c"
proof (cases res)
  case (Inl e)
  then show ?thesis using Error [of e] by (simp add: publish_def)
next
  case (Inr r)
  obtain u p a where r: "r = (u, p, a)" by (cases r)
  show ?thesis
  proof (cases "ca_revision c = fo_startRevision op")
    case True
    show ?thesis
    proof (rule Write)
      show "publish link now res op c
        = (op\<lparr>fo_err := None, fo_gen := ca_generation c + 1\<rparr>,
           c\<lparr>ca_generation := ca_generation c + 1, ca_revision := ca_revision c + 1,
             ca_creds := \<lparr>tc_Username = u, tc_Password = p, tc_ServerAddrs = a,
               tc_ExpiresAt = now + (credentialLifetime - cacheSafetyMargin), tc_Link = link,
               tc_Generation = ca_generation c + 1\<rparr>\<rparr>)"
        using True by (simp add: publish_def Inr r Let_def)
    qed (simp_all add: True)
  next
    case False
    then show ?thesis
      using Error [of ErrCredentialsInvalidated] by (simp add: publish_def Inr r)
  qed
qed

lemma data_inv_publish:
  assumes "data_inv s" "i < length (kc_ops s)"
  shows "data_inv (do_publish link i res s)"
proof (cases link "kc_now s" res "kc_ops s ! i" "kc_cache s" rule: publish_cases)
  case (Error e)
  show ?thesis
    by (rule data_inv_op [OF assms(1), of "(kc_ops s ! i)\<lparr>fo_err := Some e\<rparr>" i])
      (simp_all add: do_publish_def Error)
next
  case (Write n cr)
  note D = data_invD [OF assms(1)]
  have ns: "i \<notin> kc_stale s"
    using D(5) [of i] Write(4) by auto
  have inv: "n \<notin> kc_invalid s"
    using D(3) [of n] Write(2) by auto
  have eq: "do_publish link i res s = set_op i ((kc_ops s ! i)\<lparr>fo_err := None, fo_gen := n\<rparr>)
      (set_phase i PhClear (s\<lparr>kc_cache := (kc_cache s)\<lparr>ca_generation := n,
         ca_revision := ca_revision (kc_cache s) + 1, ca_creds := cr\<rparr>\<rparr>))"
    by (simp add: do_publish_def Write(1))
  have ops: "fo_gen (kc_ops s ! j) \<le> n \<and> fo_startRevision (kc_ops s ! j) \<le> ca_revision (kc_cache s) + 1"
    if "j < length (kc_ops s)" for j
    using D(4) [OF that] Write(2) by simp
  have stale: "j < length (kc_ops s) \<and> fo_startRevision (kc_ops s ! j) < ca_revision (kc_cache s) + 1"
    if "j \<in> kc_stale s" for j
    using D(5) [OF that] by simp
  have old: "g \<le> n" if "g \<in> kc_invalid s" for g
    using D(3) [OF that] Write(2) by simp
  show ?thesis
    unfolding eq
    by (rule data_invI) (use D(1) ops stale inv ns old Write(3,4) in \<open>auto simp: op_nth_update\<close>)
qed

lemma data_inv_invalidate:
  assumes "data_inv s"
  shows "data_inv (do_invalidate g s)"
proof -
  note D = data_invD [OF assms]
  obtain c ok where i: "invalidate_gen g (kc_cache s) = (c, ok)"
    by (cases "invalidate_gen g (kc_cache s)")
  note e = invalidate_exact [OF i]
  show ?thesis
  proof (cases ok)
    case False
    then show ?thesis using assms by (simp add: do_invalidate_def i)
  next
    case True
    have nz: "tc_Generation (ca_creds (kc_cache s)) = ca_generation (kc_cache s)"
      "g = tc_Generation (ca_creds (kc_cache s))"
      using D(2) True e by (auto simp: zero_creds_def)
    have c: "c = (kc_cache s)\<lparr>ca_revision := ca_revision (kc_cache s) + 1, ca_creds := zero_creds,
        ca_errorCount := 0, ca_lastErrorTime := 0\<rparr>"
      using i True by (auto simp: invalidate_gen_def split: if_splits)
    have ops: "fo_gen (kc_ops s ! j) \<le> ca_generation (kc_cache s)
        \<and> fo_startRevision (kc_ops s ! j) < ca_revision (kc_cache s) + 1" if "j < length (kc_ops s)" for j
      using D(4) [OF that] by simp
    have eq: "do_invalidate g s = s\<lparr>kc_cache := c, kc_invalid := insert g (kc_invalid s),
        kc_stale := {i. i < length (kc_ops s)}\<rparr>"
      by (simp add: do_invalidate_def i True)
    show ?thesis
      unfolding eq by (rule data_invI) (use D(1,3) nz ops in \<open>auto simp: c less_imp_le\<close>)
  qed
qed

lemma data_inv_step:
  assumes "data_inv s" "cache_step link s s'"
  shows "data_inv s'"
  using assms(2)
proof cases
  case (cs_publish i res)
  then show ?thesis
    using data_inv_publish [OF assms(1)] data_invD(1) [OF assms(1)] by simp
next
  case (cs_leave k i)
  show ?thesis
    unfolding cs_leave(1)
    by (rule data_inv_op [OF assms(1), of "leave_op (kc_ops s ! i)" i]) (simp_all add: leave_op_def)
next
  case (cs_abandon k i)
  show ?thesis
    unfolding cs_abandon(1)
    by (rule data_inv_op [OF assms(1), of "abandon_op (kc_ops s ! i)" i])
      (simp_all add: abandon_op_def leave_op_def Let_def)
next
  case (cs_exit i)
  show ?thesis
    unfolding cs_exit(1)
    by (rule data_inv_op [OF assms(1), of "(kc_ops s ! i)\<lparr>fo_canceled := True, fo_done := True\<rparr>" i]) simp_all
next
  case (cs_clear i)
  have "ca_creds (clear_active i c) = ca_creds c" "ca_generation (clear_active i c) = ca_generation c"
    "ca_revision (clear_active i c) = ca_revision c" for c
    by (simp_all add: clear_active_def)
  then show ?thesis
    unfolding cs_clear(1) using assms(1) by (simp add: data_inv_def)
qed (use assms(1) in \<open>auto intro: data_inv_join data_inv_invalidate data_inv_same\<close>)

section \<open>The invariant of the operations\<close>

fun running :: "fetch_phase \<Rightarrow> bool" where
  "running PhFetch = True"
| "running (PhPublish res) = True"
| "running PhClear = True"
| "running _ = False"

fun waits_for :: "nat \<Rightarrow> caller \<Rightarrow> bool" where
  "waits_for i (CallerWait j) = (i = j)"
| "waits_for i (CallerLeave j) = (i = j)"
| "waits_for i _ = False"

fun caller_op :: "caller \<Rightarrow> nat option" where
  "caller_op (CallerWait j) = Some j"
| "caller_op (CallerLeave j) = Some j"
| "caller_op _ = None"

text \<open>
  One cache, its operations with their goroutines, and the callers: the counter of an operation
  is the number of callers waiting for it, an operation that was cancelled while it runs has
  nobody waiting, and the operations that run and are not cancelled are the active one.
\<close>

definition op_ok ::
  "StreamCredentialsCache \<Rightarrow> cacheFetchOp list \<Rightarrow> fetch_phase list \<Rightarrow> caller list \<Rightarrow> bool"
where
  "op_ok c ops ps cs \<longleftrightarrow>
     length ps = length ops
     \<and> (\<forall>i < length ops. fo_waiters (ops ! i) = int (count_if (waits_for i) cs))
     \<and> (\<forall>k < length cs. \<forall>i. caller_op (cs ! k) = Some i \<longrightarrow> i < length ops)
     \<and> (\<forall>i < length ops. running (ps ! i) \<longrightarrow> fo_canceled (ops ! i) \<longrightarrow> fo_waiters (ops ! i) = 0)
     \<and> (\<forall>i < length ops. running (ps ! i) \<longrightarrow> \<not> fo_canceled (ops ! i) \<longrightarrow> ca_activeFetch c = Some i)
     \<and> (\<forall>i. ca_activeFetch c = Some i \<longrightarrow> i < length ops \<and> running (ps ! i))
     \<and> (\<forall>i < length ops. \<not> running (ps ! i) \<longrightarrow> ps ! i = PhExit \<or> fo_done (ops ! i))"

definition op_inv :: "cache_system \<Rightarrow> bool" where
  "op_inv s \<longleftrightarrow> op_ok (kc_cache s) (kc_ops s) (kc_phases s) (kc_callers s)"

lemma op_okI:
  assumes "length ps = length ops"
    "\<And>i. i < length ops \<Longrightarrow> fo_waiters (ops ! i) = int (count_if (waits_for i) cs)"
    "\<And>k i. k < length cs \<Longrightarrow> caller_op (cs ! k) = Some i \<Longrightarrow> i < length ops"
    "\<And>i. i < length ops \<Longrightarrow> running (ps ! i) \<Longrightarrow> fo_canceled (ops ! i) \<Longrightarrow> fo_waiters (ops ! i) = 0"
    "\<And>i. i < length ops \<Longrightarrow> running (ps ! i) \<Longrightarrow> \<not> fo_canceled (ops ! i) \<Longrightarrow> ca_activeFetch c = Some i"
    "\<And>i. ca_activeFetch c = Some i \<Longrightarrow> i < length ops \<and> running (ps ! i)"
    "\<And>i. i < length ops \<Longrightarrow> \<not> running (ps ! i) \<Longrightarrow> ps ! i = PhExit \<or> fo_done (ops ! i)"
  shows "op_ok c ops ps cs"
  unfolding op_ok_def
  using assms(1,2) apply (intro conjI)
        apply blast
       apply blast
  using assms(3) apply blast
  using assms(4) apply blast
  using assms(5) apply blast
  using assms(6) apply blast
  using assms(7) apply blast
  done

lemma op_okD:
  assumes "op_ok c ops ps cs"
  shows "length ps = length ops"
    "i < length ops \<Longrightarrow> fo_waiters (ops ! i) = int (count_if (waits_for i) cs)"
    "k < length cs \<Longrightarrow> caller_op (cs ! k) = Some i \<Longrightarrow> i < length ops"
    "i < length ops \<Longrightarrow> running (ps ! i) \<Longrightarrow> fo_canceled (ops ! i) \<Longrightarrow> fo_waiters (ops ! i) = 0"
    "i < length ops \<Longrightarrow> running (ps ! i) \<Longrightarrow> \<not> fo_canceled (ops ! i) \<Longrightarrow> ca_activeFetch c = Some i"
    "ca_activeFetch c = Some i \<Longrightarrow> i < length ops \<and> running (ps ! i)"
    "i < length ops \<Longrightarrow> \<not> running (ps ! i) \<Longrightarrow> ps ! i = PhExit \<or> fo_done (ops ! i)"
  using assms unfolding op_ok_def by blast+

lemma waits_caller_op: "waits_for i g \<longleftrightarrow> caller_op g = Some i"
  by (cases g) auto

lemma waits_update:
  "k < length xs \<Longrightarrow>
   int (count_if (waits_for i) (xs[k := x]))
     = int (count_if (waits_for i) xs) + of_bool (caller_op x = Some i) - of_bool (caller_op (xs ! k) = Some i)"
  using count_if_update [of k xs "waits_for i" x] by (simp add: waits_caller_op)

text \<open>A caller moves without touching an operation\<close>

lemma op_ok_caller:
  assumes "op_ok c ops ps cs" "k < length cs" "caller_op x = caller_op (cs ! k)"
  shows "op_ok c ops ps (cs[k := x])"
proof (rule op_okI)
  note D = op_okD [OF assms(1)]
  show "fo_waiters (ops ! i) = int (count_if (waits_for i) (cs[k := x]))" if "i < length ops" for i
    using D(2) [OF that] waits_update [OF assms(2), of i x] assms(3) by simp
  show "i < length ops" if "j < length (cs[k := x])" "caller_op (cs[k := x] ! j) = Some i" for j i
    using D(3) [of j i] that assms(2,3) by (cases "j = k") auto
qed (fact op_okD [OF assms(1)])+

text \<open>A caller leaves or abandons its operation\<close>

lemma op_ok_leave:
  assumes ok: "op_ok c ops ps cs" and k: "k < length cs" "caller_op (cs ! k) = Some i" "caller_op x = None"
    and op: "fo_waiters op = fo_waiters (ops ! i) - 1" "fo_done op = fo_done (ops ! i)"
      "fo_canceled op \<longleftrightarrow> fo_canceled (ops ! i) \<or> b \<and> fo_waiters op \<le> 0"
  shows "op_ok c (ops[i := op]) ps (cs[k := x])"
proof -
  note D = op_okD [OF ok]
  have i: "i < length ops"
    by (rule D(3) [OF k(1,2)])
  have pos: "0 < fo_waiters (ops ! i)"
    using D(2) [OF i] count_if_pos [of k cs "waits_for i"] k(1,2) by (simp add: waits_caller_op)
  have nc: "running (ps ! i) \<Longrightarrow> \<not> fo_canceled (ops ! i)"
    using D(4) [OF i] pos by auto
  show ?thesis
  proof (rule op_okI)
    show "length ps = length (ops[i := op])"
      using D(1) by simp
    show "fo_waiters (ops[i := op] ! j) = int (count_if (waits_for j) (cs[k := x]))"
      if "j < length (ops[i := op])" for j
      using D(2) [of j] waits_update [OF k(1), of j x] k op that by (auto simp: op_nth_update)
    show "j < length (ops[i := op])" if "l < length (cs[k := x])" "caller_op (cs[k := x] ! l) = Some j" for l j
      using D(3) [of l j] that k by (cases "l = k") auto
    show "fo_waiters (ops[i := op] ! j) = 0"
      if "j < length (ops[i := op])" "running (ps ! j)" "fo_canceled (ops[i := op] ! j)" for j
      using that D(4) [of j] nc op pos by (cases "j = i") auto
    show "ca_activeFetch c = Some j"
      if "j < length (ops[i := op])" "running (ps ! j)" "\<not> fo_canceled (ops[i := op] ! j)" for j
      using that D(5) [of j] nc op by (cases "j = i") auto
    show "j < length (ops[i := op]) \<and> running (ps ! j)" if "ca_activeFetch c = Some j" for j
      using D(6) [OF that] by simp
    show "ps ! j = PhExit \<or> fo_done (ops[i := op] ! j)" if "j < length (ops[i := op])" "\<not> running (ps ! j)" for j
      using D(7) [of j] that op by (cases "j = i") auto
  qed
qed

text \<open>A caller joins the active operation or starts a new one\<close>

lemma op_ok_enter:
  assumes ok: "op_ok c ops ps cs" and k: "k < length cs" "caller_op (cs ! k) = None"
    and i: "ca_activeFetch c = Some i" "\<not> fo_canceled (ops ! i)"
  shows "op_ok c (ops[i := (ops ! i)\<lparr>fo_waiters := fo_waiters (ops ! i) + 1\<rparr>]) ps (cs[k := CallerWait i])"
    (is "op_ok c ?ops ps ?cs")
proof (rule op_okI)
  note D = op_okD [OF ok]
  have il: "i < length ops"
    using D(6) [OF i(1)] by simp
  have nth: "fo_canceled (?ops ! j) = fo_canceled (ops ! j)" "fo_done (?ops ! j) = fo_done (ops ! j)"
    "fo_waiters (?ops ! j) = fo_waiters (ops ! j) + of_bool (j = i)" if "j < length ?ops" for j
    using that by (simp_all add: op_nth_update)
  show "length ps = length ?ops"
    using D(1) by simp
  show "fo_waiters (?ops ! j) = int (count_if (waits_for j) ?cs)" if "j < length ?ops" for j
    using D(2) [of j] waits_update [OF k(1), of j "CallerWait i"] that nth [OF that] k(2) by auto
  show "j < length ?ops" if "l < length ?cs" "caller_op (?cs ! l) = Some j" for l j
    using D(3) [of l j] that il by (cases "l = k") auto
  show "fo_waiters (?ops ! j) = 0" if "j < length ?ops" "running (ps ! j)" "fo_canceled (?ops ! j)" for j
    using that nth [OF that(1)] D(4) [of j] i(2) by auto
  show "ca_activeFetch c = Some j" if "j < length ?ops" "running (ps ! j)" "\<not> fo_canceled (?ops ! j)" for j
    using that nth [OF that(1)] D(5) [of j] by simp
  show "j < length ?ops \<and> running (ps ! j)" if "ca_activeFetch c = Some j" for j
    using D(6) [OF that] by simp
  show "ps ! j = PhExit \<or> fo_done (?ops ! j)" if "j < length ?ops" "\<not> running (ps ! j)" for j
    using that nth [OF that(1)] D(7) [of j] by simp
qed

lemma op_ok_start:
  assumes ok: "op_ok c ops ps cs" and k: "k < length cs" "caller_op (cs ! k) = None"
    and none: "\<And>i. i < length ops \<Longrightarrow> running (ps ! i) \<Longrightarrow> fo_canceled (ops ! i)"
  shows "op_ok (c\<lparr>ca_activeFetch := Some (length ops)\<rparr>) (ops @ [new_op c]) (ps @ [PhFetch])
           (cs[k := CallerWait (length ops)])"
    (is "op_ok ?c ?ops ?ps ?cs")
proof (rule op_okI)
  note D = op_okD [OF ok]
  have old: "?ops ! i = ops ! i" "?ps ! i = ps ! i" if "i < length ops" for i
    using that D(1) by (simp_all add: nth_append)
  have new: "?ops ! length ops = new_op c" "?ps ! length ops = PhFetch"
    using D(1) by (simp_all add: nth_append)
  have last: "i < length ops \<or> i = length ops" if "i < length ?ops" for i
    using that by auto
  have zero: "count_if (waits_for (length ops)) cs = 0"
    using D(3) by (fastforce simp: count_if_zero_iff waits_caller_op in_set_conv_nth)
  show "length ?ps = length ?ops"
    using D(1) by simp
  show "fo_waiters (?ops ! i) = int (count_if (waits_for i) ?cs)" if "i < length ?ops" for i
    using last [OF that] D(2) [of i] old [of i] waits_update [OF k(1), of i "CallerWait (length ops)"] k(2) zero
    by (auto simp: new new_op_def)
  show "i < length ?ops" if "l < length ?cs" "caller_op (?cs ! l) = Some i" for l i
    using D(3) [of l i] that by (cases "l = k") auto
  show "fo_waiters (?ops ! i) = 0" if "i < length ?ops" "running (?ps ! i)" "fo_canceled (?ops ! i)" for i
    using last [OF that(1)] that D(4) [of i] old [of i] new by (auto simp: new_op_def)
  show "ca_activeFetch ?c = Some i" if "i < length ?ops" "running (?ps ! i)" "\<not> fo_canceled (?ops ! i)" for i
    using last [OF that(1)] that none [of i] old [of i] by auto
  show "i < length ?ops \<and> running (?ps ! i)" if "ca_activeFetch ?c = Some i" for i
    using that new by simp
  show "?ps ! i = PhExit \<or> fo_done (?ops ! i)" if "i < length ?ops" "\<not> running (?ps ! i)" for i
    using last [OF that(1)] that D(7) [of i] old [of i] new by auto
qed

lemma op_inv_join:
  assumes "op_inv s" "k < length (kc_callers s)" "kc_callers s ! k = CallerJoin"
  shows "op_inv (start_join k s)"
proof (cases "ca_activeFetch (kc_cache s)")
  note ok = assms(1) [unfolded op_inv_def]
  have k: "caller_op (kc_callers s ! k) = None"
    by (simp add: assms(3))
  note start = op_ok_start [OF ok assms(2) k]
  {
    case None
    then have "\<And>i. i < length (kc_ops s) \<Longrightarrow> running (kc_phases s ! i) \<Longrightarrow> fo_canceled (kc_ops s ! i)"
      using op_okD(5) [OF ok] by fastforce
    from start [OF this] show ?thesis
      by (simp add: op_inv_def start_join_def join_or_start_def None)
  next
    case (Some i)
    show ?thesis
    proof (cases "fo_canceled (kc_ops s ! i)")
      case True
      then have "\<And>j. j < length (kc_ops s) \<Longrightarrow> running (kc_phases s ! j) \<Longrightarrow> fo_canceled (kc_ops s ! j)"
        using op_okD(5) [OF ok] Some by fastforce
      from start [OF this] show ?thesis
        by (simp add: op_inv_def start_join_def join_or_start_def Some True)
    next
      case False
      from op_ok_enter [OF ok assms(2) k Some False] show ?thesis
        by (simp add: op_inv_def start_join_def join_or_start_def Some False)
    qed
  }
qed

text \<open>An operation moves on without its callers\<close>

lemma op_ok_phase:
  assumes ok: "op_ok c ops ps cs" and i: "i < length ps" "running (ps ! i)" "running p"
    and op: "fo_waiters op = fo_waiters (ops ! i)" "fo_canceled op = fo_canceled (ops ! i)"
      "fo_done op = fo_done (ops ! i)"
    and c: "ca_activeFetch c' = ca_activeFetch c"
  shows "op_ok c' (ops[i := op]) (ps[i := p]) cs"
proof (rule op_okI)
  note D = op_okD [OF ok]
  have nth: "fo_waiters (ops[i := op] ! j) = fo_waiters (ops ! j)"
    "fo_canceled (ops[i := op] ! j) = fo_canceled (ops ! j)" "fo_done (ops[i := op] ! j) = fo_done (ops ! j)"
    "running (ps[i := p] ! j) = running (ps ! j)" "\<not> running (ps ! j) \<Longrightarrow> ps[i := p] ! j = ps ! j"
    if "j < length (ops[i := op])" for j
    using that op i D(1) by (auto simp: nth_list_update)
  show "length (ps[i := p]) = length (ops[i := op])"
    using D(1) by simp
  show "fo_waiters (ops[i := op] ! j) = int (count_if (waits_for j) cs)" if "j < length (ops[i := op])" for j
    using nth [OF that] D(2) [of j] that by simp
  show "j < length (ops[i := op])" if "k < length cs" "caller_op (cs ! k) = Some j" for k j
    using D(3) [OF that] by simp
  show "fo_waiters (ops[i := op] ! j) = 0"
    if "j < length (ops[i := op])" "running (ps[i := p] ! j)" "fo_canceled (ops[i := op] ! j)" for j
    using nth [OF that(1)] D(4) [of j] that by simp
  show "ca_activeFetch c' = Some j"
    if "j < length (ops[i := op])" "running (ps[i := p] ! j)" "\<not> fo_canceled (ops[i := op] ! j)" for j
    using nth [OF that(1)] D(5) [of j] that c by simp
  show "j < length (ops[i := op]) \<and> running (ps[i := p] ! j)" if "ca_activeFetch c' = Some j" for j
    using D(6) [of j] that c nth [of j] by simp
  show "ps[i := p] ! j = PhExit \<or> fo_done (ops[i := op] ! j)"
    if "j < length (ops[i := op])" "\<not> running (ps[i := p] ! j)" for j
    using nth [OF that(1)] D(7) [of j] that by simp
qed

lemma op_ok_clear:
  assumes ok: "op_ok c ops ps cs" and i: "i < length ps" "ps ! i = PhClear"
  shows "op_ok (clear_active i c) ops (ps[i := PhExit]) cs"
proof (rule op_okI)
  note D = op_okD [OF ok]
  show "length (ps[i := PhExit]) = length ops"
    using D(1) by simp
  show "ca_activeFetch (clear_active i c) = Some j"
    if "j < length ops" "running (ps[i := PhExit] ! j)" "\<not> fo_canceled (ops ! j)" for j
    using that D(5) [of j] i by (cases "j = i") (auto simp: clear_active_def)
  show "j < length ops \<and> running (ps[i := PhExit] ! j)" if "ca_activeFetch (clear_active i c) = Some j" for j
    using that D(6) [of j] i by (auto simp: clear_active_def nth_list_update split: if_splits)
  show "fo_waiters (ops ! j) = 0"
    if "j < length ops" "running (ps[i := PhExit] ! j)" "fo_canceled (ops ! j)" for j
    using that D(4) [of j] i by (cases "j = i") auto
  show "ps[i := PhExit] ! j = PhExit \<or> fo_done (ops ! j)"
    if "j < length ops" "\<not> running (ps[i := PhExit] ! j)" for j
    using that D(7) [of j] i by (cases "j = i") auto
qed (fact op_okD(2,3) [OF ok])+

lemma op_ok_exit:
  assumes ok: "op_ok c ops ps cs" and i: "i < length ps" "ps ! i = PhExit"
  shows "op_ok c (ops[i := (ops ! i)\<lparr>fo_canceled := True, fo_done := True\<rparr>]) (ps[i := PhEnd]) cs"
    (is "op_ok c ?ops ?ps cs")
proof (rule op_okI)
  note D = op_okD [OF ok]
  have nth: "fo_waiters (?ops ! j) = fo_waiters (ops ! j)" "running (?ps ! j) = running (ps ! j)"
    "running (ps ! j) \<Longrightarrow> ?ops ! j = ops ! j" if "j < length ?ops" for j
    using that i D(1) by (auto simp: nth_list_update)
  show "length ?ps = length ?ops"
    using D(1) by simp
  show "fo_waiters (?ops ! j) = int (count_if (waits_for j) cs)" if "j < length ?ops" for j
    using nth [OF that] D(2) [of j] that by simp
  show "j < length ?ops" if "k < length cs" "caller_op (cs ! k) = Some j" for k j
    using D(3) [OF that] by simp
  show "fo_waiters (?ops ! j) = 0" if "j < length ?ops" "running (?ps ! j)" "fo_canceled (?ops ! j)" for j
    using nth [OF that(1)] D(4) [of j] that by simp
  show "ca_activeFetch c = Some j" if "j < length ?ops" "running (?ps ! j)" "\<not> fo_canceled (?ops ! j)" for j
    using nth [OF that(1)] D(5) [of j] that by simp
  show "j < length ?ops \<and> running (?ps ! j)" if "ca_activeFetch c = Some j" for j
    using D(6) [OF that] nth [of j] by simp
  show "?ps ! j = PhExit \<or> fo_done (?ops ! j)" if "j < length ?ops" "\<not> running (?ps ! j)" for j
    using D(7) [of j] that i D(1) by (auto simp: nth_list_update split: if_splits)
qed

lemma op_ok_cong:
  assumes "op_ok c ops ps cs" "ca_activeFetch c' = ca_activeFetch c"
  shows "op_ok c' ops ps cs"
proof -
  have "op_ok c' ops ps cs = op_ok c ops ps cs"
    unfolding op_ok_def assms(2) by (rule refl)
  then show ?thesis
    using assms(1) by simp
qed

lemma op_inv_publish:
  assumes "op_inv s" "i < length (kc_phases s)" "kc_phases s ! i = PhPublish res"
  shows "op_inv (do_publish link i res s)"
proof -
  obtain op c where p: "publish link (kc_now s) res (kc_ops s ! i) (kc_cache s) = (op, c)"
    by (cases "publish link (kc_now s) res (kc_ops s ! i) (kc_cache s)")
  have same: "fo_waiters op = fo_waiters (kc_ops s ! i) \<and> fo_canceled op = fo_canceled (kc_ops s ! i)
      \<and> fo_done op = fo_done (kc_ops s ! i) \<and> ca_activeFetch c = ca_activeFetch (kc_cache s)"
    using p by (cases link "kc_now s" res "kc_ops s ! i" "kc_cache s" rule: publish_cases) auto
  have "op_ok c ((kc_ops s)[i := op]) ((kc_phases s)[i := PhClear]) (kc_callers s)"
    by (rule op_ok_phase [OF assms(1) [unfolded op_inv_def]]) (use assms(2,3) same in auto)
  then show ?thesis
    by (simp add: op_inv_def do_publish_def p)
qed

lemma op_inv_step:
  assumes inv: "op_inv s" and step: "cache_step link s s'"
  shows "op_inv s'"
proof -
  note ok = inv [unfolded op_inv_def]
  have move: "op_inv (set_caller k x s)"
    if "k < length (kc_callers s)" "caller_op x = caller_op (kc_callers s ! k)" for k x
    using op_ok_caller [OF ok that] by (simp add: op_inv_def)
  have none: "caller_op (after_lookup CallerLock r) = None" "caller_op (after_lookup CallerJoin r) = None"
    "caller_op (after_leave i op) = None" for r i op
    by (auto simp: after_lookup_def after_leave_def split: option.splits)
  show ?thesis
    using step
  proof cases
    case (cs_join k)
    then show ?thesis using op_inv_join [OF inv] by simp
  next
    case (cs_leave k i)
    then show ?thesis
      using op_ok_leave [OF ok cs_leave(2), of i _ "leave_op (kc_ops s ! i)" False] none
      by (simp add: op_inv_def leave_op_def)
  next
    case (cs_abandon k i)
    then show ?thesis
      using op_ok_leave [OF ok cs_abandon(2), of i _ "abandon_op (kc_ops s ! i)" True]
      by (simp add: op_inv_def abandon_op_def leave_op_def Let_def)
  next
    case (cs_fetched i res)
    then show ?thesis
      using op_ok_phase [OF ok, of i "PhPublish res" "kc_ops s ! i"] by (simp add: op_inv_def)
  next
    case (cs_publish i res)
    then show ?thesis using op_inv_publish [OF inv] by simp
  next
    case (cs_clear i)
    then show ?thesis using op_ok_clear [OF ok] by (simp add: op_inv_def)
  next
    case (cs_exit i)
    then show ?thesis using op_ok_exit [OF ok] by (simp add: op_inv_def)
  next
    case (cs_invalidate g)
    have a: "ca_activeFetch (fst (invalidate_gen g c)) = ca_activeFetch c" for c
      by (simp add: invalidate_gen_def)
    obtain c ok' where i: "invalidate_gen g (kc_cache s) = (c, ok')"
      by (cases "invalidate_gen g (kc_cache s)")
    then have "op_ok c (kc_ops s) (kc_phases s) (kc_callers s)"
      using a [of "kc_cache s"] op_ok_cong [OF ok, of c] by simp
    then show ?thesis
      using ok cs_invalidate by (simp add: do_invalidate_def i op_inv_def)
  next
    case (cs_tick t)
    then show ?thesis using ok by (simp add: op_inv_def)
  qed (use move none in auto)
qed

definition cache_inv :: "cache_system \<Rightarrow> bool" where
  "cache_inv s \<longleftrightarrow> data_inv s \<and> op_inv s"

lemma cache_inv_init: "cache_init s \<Longrightarrow> cache_inv s"
proof -
  assume init: "cache_init s"
  have "caller_op (kc_callers s ! k) = None" if "k < length (kc_callers s)" for k
  proof -
    have "kc_callers s ! k \<in> set (kc_callers s)"
      using that by simp
    then have "kc_callers s ! k = CallerIdle"
      using init unfolding cache_init_def by blast
    then show ?thesis by simp
  qed
  then show ?thesis
    using init by (simp add: cache_inv_def data_inv_def op_inv_def op_ok_def cache_init_def new_cache_def)
qed

interpretation cache_runs: invariant_system cache_init "cache_step link" cache_inv
  by unfold_locales (erule cache_inv_init, auto simp: cache_inv_def intro: data_inv_step op_inv_step)

section \<open>Properties\<close>

text \<open>
  C4. Single flight: at any moment at most one request for credentials is in progress that
  has not been cancelled, the counter of an operation is the number of callers waiting for it, a
  caller waits only for an operation that exists, and while its request is in progress that
  operation is the active one and is not cancelled; once the request is over the caller is woken (the operation is
  done) or its goroutine has only its last step to make.
\<close>

theorem single_flight:
  assumes "reach cache_init (cache_step link) s"
  shows "(\<forall>i < length (kc_ops s). \<forall>j < length (kc_ops s).
           running (kc_phases s ! i) \<and> running (kc_phases s ! j)
           \<and> \<not> fo_canceled (kc_ops s ! i) \<and> \<not> fo_canceled (kc_ops s ! j) \<longrightarrow> i = j)
    \<and> (\<forall>i < length (kc_ops s). fo_waiters (kc_ops s ! i) = int (count_if (waits_for i) (kc_callers s)))
    \<and> (\<forall>k < length (kc_callers s). \<forall>i. kc_callers s ! k = CallerWait i \<longrightarrow>
         i < length (kc_ops s)
         \<and> (running (kc_phases s ! i) \<longrightarrow>
              \<not> fo_canceled (kc_ops s ! i) \<and> ca_activeFetch (kc_cache s) = Some i)
         \<and> (\<not> running (kc_phases s ! i) \<longrightarrow> kc_phases s ! i = PhExit \<or> fo_done (kc_ops s ! i)))"
proof (intro conjI allI impI; (elim conjE)?)
  have ok: "op_ok (kc_cache s) (kc_ops s) (kc_phases s) (kc_callers s)"
    using cache_runs.reach_inv [OF assms] by (simp add: cache_inv_def op_inv_def)
  note D = op_okD [OF ok]
  show "i = j" if "i < length (kc_ops s)" "j < length (kc_ops s)" "running (kc_phases s ! i)"
    "running (kc_phases s ! j)" "\<not> fo_canceled (kc_ops s ! i)" "\<not> fo_canceled (kc_ops s ! j)" for i j
    using D(5) [OF that(1,3,5)] D(5) [OF that(2,4,6)] by simp
  show "fo_waiters (kc_ops s ! i) = int (count_if (waits_for i) (kc_callers s))" if "i < length (kc_ops s)" for i
    by (rule D(2) [OF that])
  have len: "i < length (kc_ops s)" if "k < length (kc_callers s)" "kc_callers s ! k = CallerWait i" for k i
    using D(3) [OF that(1), of i] that(2) by simp
  have nc: "\<not> fo_canceled (kc_ops s ! i)"
    if "k < length (kc_callers s)" "kc_callers s ! k = CallerWait i" "running (kc_phases s ! i)" for k i
    using D(4) [OF len [OF that(1,2)] that(3)] D(2) [OF len [OF that(1,2)]]
      count_if_pos [of k "kc_callers s" "waits_for i"] that by auto
  show "i < length (kc_ops s)" if "k < length (kc_callers s)" "kc_callers s ! k = CallerWait i" for k i
    by (rule len [OF that])
  show "\<not> fo_canceled (kc_ops s ! i)"
    if "k < length (kc_callers s)" "kc_callers s ! k = CallerWait i" "running (kc_phases s ! i)" for k i
    by (rule nc [OF that])
  show "ca_activeFetch (kc_cache s) = Some i"
    if "k < length (kc_callers s)" "kc_callers s ! k = CallerWait i" "running (kc_phases s ! i)" for k i
    by (rule D(5) [OF len [OF that(1,2)] that(3) nc [OF that]])
  show "kc_phases s ! i = PhExit \<or> fo_done (kc_ops s ! i)"
    if "k < length (kc_callers s)" "kc_callers s ! k = CallerWait i" "\<not> running (kc_phases s ! i)" for k i
    by (rule D(7) [OF len [OF that(1,2)] that(3)])
qed

text \<open>
  C5. Refused credentials never come back: credentials handed out by the fast path or to a waiting caller
  belong to the newest generation and to none that was invalidated, and an operation that was running
  during an invalidation leaves the cache as it is when it publishes.
\<close>

theorem no_revival:
  assumes "reach cache_init (cache_step link) s"
  shows "(\<forall>t u p a g. cache_lookup link t (kc_cache s) = Some (u, p, a, g) \<longrightarrow>
            g = ca_generation (kc_cache s) \<and> g \<notin> kc_invalid s)
    \<and> (\<forall>t op u p a g. consume link t op (kc_cache s) = Inr (u, p, a, g) \<longrightarrow>
            g = ca_generation (kc_cache s) \<and> g \<notin> kc_invalid s \<and> fo_gen op \<le> g)
    \<and> (\<forall>i \<in> kc_stale s. \<forall>res. kc_cache (do_publish link i res s) = kc_cache s)"
proof (intro conjI allI impI ballI)
  have inv: "data_inv s"
    using cache_runs.reach_inv [OF assms] by (simp add: cache_inv_def)
  note D = data_invD [OF inv]
  have val: "tc_Generation (ca_creds (kc_cache s)) = ca_generation (kc_cache s)
      \<and> tc_Generation (ca_creds (kc_cache s)) \<notin> kc_invalid s" if "cache_valid link t (kc_cache s)" for t
    using D(2) that by (auto simp: cache_valid_def zero_creds_def)
  show "g = ca_generation (kc_cache s)" "g \<notin> kc_invalid s"
    if "cache_lookup link t (kc_cache s) = Some (u, p, a, g)" for t u p a g
    using that val [of t] by (auto simp: cache_lookup_def read_creds_def split: if_splits)
  show "g = ca_generation (kc_cache s)" "g \<notin> kc_invalid s" "fo_gen op \<le> g"
    if "consume link t op (kc_cache s) = Inr (u, p, a, g)" for t op u p a g
    using that val [of t] by (auto simp: consume_def read_creds_def split: if_splits)
  show "kc_cache (do_publish link i res s) = kc_cache s" if "i \<in> kc_stale s" for i res
    using D(5) [OF that]
    by (cases link "kc_now s" res "kc_ops s ! i" "kc_cache s" rule: publish_cases)
      (auto simp: do_publish_def set_op_def set_phase_def)
qed

text \<open>A run: one caller, one request, and the refusal of what it brought\<close>

definition run_start :: cache_system where
  "run_start =
     \<lparr>kc_cache = new_cache, kc_ops = [], kc_phases = [], kc_callers = [CallerIdle], kc_now = 5,
      kc_invalid = {}, kc_stale = {}\<rparr>"

definition run_joined :: cache_system where
  "run_joined = start_join 0 (set_caller 0 CallerJoin (set_caller 0 CallerLock (set_caller 0 CallerLookup run_start)))"

definition run_filled :: cache_system where
  "run_filled =
     do_publish ''abc'' 0 (Inr (''u'', ''p'', [''1.2.3.4:5'']))
       (set_phase 0 (PhPublish (Inr (''u'', ''p'', [''1.2.3.4:5'']))) run_joined)"

lemmas run_defs = run_start_def run_joined_def run_filled_def start_join_def join_or_start_def new_op_def
  set_caller_def set_op_def set_phase_def do_publish_def publish_def new_cache_def cache_lookup_def
  cache_valid_def zero_creds_def after_lookup_def Let_def

lemma run_joined_reach: "reach cache_init (cache_step ''abc'') run_joined"
proof -
  let ?R = "reach cache_init (cache_step ''abc'')"
  let ?s1 = "set_caller 0 CallerLookup run_start"
  let ?s2 = "set_caller 0 CallerLock ?s1"
  let ?s3 = "set_caller 0 CallerJoin ?s2"
  have "?R run_start"
    by (rule reach.reach_init) (simp add: cache_init_def run_start_def)
  moreover have "cache_step ''abc'' run_start ?s1"
    by (rule cs_call) (simp_all add: run_start_def)
  moreover have "cache_step ''abc'' ?s1 ?s2"
    using cs_lookup [of 0 ?s1 "''abc''"] by (simp add: run_defs)
  moreover have "cache_step ''abc'' ?s2 ?s3"
    using cs_recheck [of 0 ?s2 "''abc''"] by (simp add: run_defs)
  moreover have "cache_step ''abc'' ?s3 run_joined"
    unfolding run_joined_def by (rule cs_join) (simp_all add: run_start_def)
  ultimately show ?thesis
    by (blast intro: reach.reach_step)
qed

lemma run_filled_reach: "reach cache_init (cache_step ''abc'') run_filled"
proof -
  let ?r = "Inr (''u'', ''p'', [''1.2.3.4:5'']) :: goerr + (string \<times> string \<times> string list)"
  have "cache_step ''abc'' run_joined (set_phase 0 (PhPublish ?r) run_joined)"
    by (rule cs_fetched) (simp_all add: run_defs)
  moreover have "cache_step ''abc'' (set_phase 0 (PhPublish ?r) run_joined) run_filled"
    unfolding run_filled_def by (rule cs_publish) (simp_all add: run_defs)
  ultimately show ?thesis
    using run_joined_reach by (blast intro: reach.reach_step)
qed

theorem single_flight_witness:
  "fo_waiters (kc_ops run_joined ! 0) = int (count_if (waits_for 0) (kc_callers run_joined))
   \<and> ca_activeFetch (kc_cache run_joined) = Some 0 \<and> running (kc_phases run_joined ! 0)"
proof -
  have "length (kc_ops run_joined) = 1" "kc_callers run_joined = [CallerWait 0]"
    "kc_phases run_joined = [PhFetch]"
    by (simp_all add: run_defs)
  then show ?thesis
    using single_flight [OF run_joined_reach] by auto
qed

theorem no_revival_witness:
  "\<exists>g. cache_lookup ''abc'' 6 (kc_cache run_filled) = Some (''u'', ''p'', [''1.2.3.4:5''], g)
     \<and> g \<notin> kc_invalid run_filled \<and> g = ca_generation (kc_cache run_filled)"
proof -
  have "cache_lookup ''abc'' 6 (kc_cache run_filled) = Some (''u'', ''p'', [''1.2.3.4:5''], 1)"
    by (simp add: run_defs read_creds_def credentialLifetime_def cacheSafetyMargin_def duration_defs)
  then show ?thesis
    using no_revival [OF run_filled_reach] by blast
qed

end
