(* ===== verification/VkReplies.thy ===== *)
theory VkReplies
  imports FloodGate Hashes "HOL-Library.Char_ord" "HOL-Library.List_Lexorder" Complex_Main
begin

text \<open>
  Replies of VK and OK: decoded JSON, how the client reads it and which errors it makes of it
  (\<^verbatim>\<open>creds.go\<close>: \<^verbatim>\<open>fatalCallError\<close>, \<^verbatim>\<open>vkErrorCode\<close>, \<^verbatim>\<open>isAuthError\<close>; \<^verbatim>\<open>creds_vkcalls.go\<close>;
  \<^verbatim>\<open>captcha_v2.go\<close>: \<^verbatim>\<open>VkCaptchaError\<close>, \<^verbatim>\<open>parseVkCaptchaError\<close>). The shortest decimal form
  of a fractional or large \<^verbatim>\<open>float64\<close> is the parameter \<open>fmt\<close>; integral numbers up to 2 to
  the power of 53 are printed here.
\<close>

section \<open>JSON values\<close>

text \<open>\<^verbatim>\<open>interface{}\<close> after \<^verbatim>\<open>json.Unmarshal\<close>: an object is a map, written with distinct keys.\<close>

datatype json =
    JNull
  | JBool bool
  | JNum rat
  | JStr string
  | JArr "json list"
  | JObj "(string \<times> json) list"

type_synonym jmap = "(string \<times> json) list"

definition jget :: "jmap \<Rightarrow> string \<Rightarrow> json" where
  "jget m k = (case map_of m k of Some j \<Rightarrow> j | None \<Rightarrow> JNull)"

fun as_obj :: "json \<Rightarrow> jmap option" where
  "as_obj (JObj m) = Some m"
| "as_obj _ = None"

fun as_str :: "json \<Rightarrow> string option" where
  "as_str (JStr s) = Some s"
| "as_str _ = None"

fun as_num :: "json \<Rightarrow> rat option" where
  "as_num (JNum x) = Some x"
| "as_num _ = None"

fun as_arr :: "json \<Rightarrow> json list option" where
  "as_arr (JArr xs) = Some xs"
| "as_arr _ = None"

text \<open>\<^verbatim>\<open>s, _ := v.(string)\<close> and the same for numbers\<close>

definition str_or_empty :: "json \<Rightarrow> string" where
  "str_or_empty j = (case as_str j of Some s \<Rightarrow> s | None \<Rightarrow> [])"

definition num_or_zero :: "json \<Rightarrow> rat" where
  "num_or_zero j = (case as_num j of Some x \<Rightarrow> x | None \<Rightarrow> 0)"

text \<open>The conversion \<^verbatim>\<open>int(v)\<close> cuts the fraction off; \<^verbatim>\<open>%.0f\<close> rounds, halves to even.\<close>

definition go_int :: "rat \<Rightarrow> int" where
  "go_int x = (if x < 0 then \<lceil>x\<rceil> else \<lfloor>x\<rfloor>)"

definition round_even :: "rat \<Rightarrow> int" where
  "round_even x =
     (let n = \<lfloor>x\<rfloor>; f = x - of_int n in
      if f < 1 / 2 then n else if f > 1 / 2 then n + 1 else if even n then n else n + 1)"

definition fmt0 :: "rat \<Rightarrow> string" where
  "fmt0 x = (if x < 0 then ''-'' else []) @ itoa (round_even \<bar>x\<bar>)"

section \<open>Texts of values\<close>

definition num_text :: "(rat \<Rightarrow> string) \<Rightarrow> rat \<Rightarrow> string" where
  "num_text fmt x = (if of_int \<lfloor>x\<rfloor> = x \<and> \<bar>x\<bar> \<le> 2 ^ 53 then itoa \<lfloor>x\<rfloor> else fmt x)"

definition by_key :: "(string \<times> 'a) list \<Rightarrow> (string \<times> 'a) list" where
  "by_key m = sort_key fst m"

text \<open>\<^verbatim>\<open>%v\<close> and \<^verbatim>\<open>%T\<close>\<close>

fun show_json :: "(rat \<Rightarrow> string) \<Rightarrow> json \<Rightarrow> string" where
  "show_json fmt JNull = ''<nil>''"
| "show_json fmt (JBool b) = (if b then ''true'' else ''false'')"
| "show_json fmt (JNum x) = num_text fmt x"
| "show_json fmt (JStr s) = s"
| "show_json fmt (JArr xs) = ''['' @ join '' '' (map (show_json fmt) xs) @ '']''"
| "show_json fmt (JObj m) =
     ''map['' @ join '' '' (map (\<lambda>(k, t). k @ '':'' @ t) (by_key (map (\<lambda>(k, j). (k, show_json fmt j)) m))) @ '']''"

fun type_text :: "json \<Rightarrow> string" where
  "type_text JNull = ''<nil>''"
| "type_text (JBool b) = ''bool''"
| "type_text (JNum x) = ''float64''"
| "type_text (JStr s) = ''string''"
| "type_text (JArr xs) = ''[]interface {}''"
| "type_text (JObj m) = ''map[string]interface {}''"

text \<open>\<^verbatim>\<open>json.Marshal\<close>: keys sorted, strings escaped, also for HTML\<close>

definition hex_digit :: "nat \<Rightarrow> char" where
  "hex_digit n = ''0123456789abcdef'' ! n"

fun escape_json :: "string \<Rightarrow> string" where
  "escape_json [] = []"
| "escape_json (c # cs) =
     (let b = byte_of c in
      if b = 0x22 \<or> b = 0x5C then CHR 0x5C # c # escape_json cs
      else if b = 8 then CHR 0x5C # CHR ''b'' # escape_json cs
      else if b = 12 then CHR 0x5C # CHR ''f'' # escape_json cs
      else if b = 10 then CHR 0x5C # CHR ''n'' # escape_json cs
      else if b = 13 then CHR 0x5C # CHR ''r'' # escape_json cs
      else if b = 9 then CHR 0x5C # CHR ''t'' # escape_json cs
      else if b < 0x20 \<or> b = 0x3C \<or> b = 0x3E \<or> b = 0x26 then
        [CHR 0x5C] @ ''u00'' @ [hex_digit (b div 16), hex_digit (b mod 16)] @ escape_json cs
      else if b = 0xE2 \<and> take 2 cs = [CHR 0x80, CHR 0xA8] then [CHR 0x5C] @ ''u2028'' @ escape_json (drop 2 cs)
      else if b = 0xE2 \<and> take 2 cs = [CHR 0x80, CHR 0xA9] then [CHR 0x5C] @ ''u2029'' @ escape_json (drop 2 cs)
      else c # escape_json cs)"

definition json_string :: "string \<Rightarrow> string" where
  "json_string s = [CHR 0x22] @ escape_json s @ [CHR 0x22]"

fun marshal :: "(rat \<Rightarrow> string) \<Rightarrow> json \<Rightarrow> string" where
  "marshal fmt JNull = ''null''"
| "marshal fmt (JBool b) = (if b then ''true'' else ''false'')"
| "marshal fmt (JNum x) = num_text fmt x"
| "marshal fmt (JStr s) = json_string s"
| "marshal fmt (JArr xs) = ''['' @ join '','' (map (marshal fmt) xs) @ '']''"
| "marshal fmt (JObj m) =
     ''{'' @ join '','' (map (\<lambda>(k, t). json_string k @ '':'' @ t) (by_key (map (\<lambda>(k, j). (k, marshal fmt j)) m))) @ ''}''"

definition truncateVKCallsLog :: "string \<Rightarrow> nat \<Rightarrow> string" where
  "truncateVKCallsLog s n = (if length s \<le> n then s else take n s @ ''...'')"

definition truncateVKCallsResp :: "(rat \<Rightarrow> string) \<Rightarrow> jmap \<Rightarrow> string" where
  "truncateVKCallsResp fmt resp = truncateVKCallsLog (marshal fmt (JObj resp)) 300"

section \<open>Errors in replies\<close>

fun vkErrorCode :: "json \<Rightarrow> int" where
  "vkErrorCode (JNum x) = go_int x"
| "vkErrorCode (JStr s) = fst (atoi s)"
| "vkErrorCode _ = 0"

definition fatalCallError :: "jmap \<Rightarrow> goerr option" where
  "fatalCallError resp =
     (case as_obj (jget resp ''error'') of
        None \<Rightarrow> None
      | Some errObj \<Rightarrow>
          (let code = vkErrorCode (jget errObj ''error_code'') in
           if code = 951 \<or> code = 954 \<or> 9000 \<le> code \<and> code \<le> 9999
           then Some (CallUnavailableError code (str_or_empty (jget errObj ''error_msg'')))
           else None))"

record VkCaptcha =
  vc_ErrorCode :: int
  vc_ErrorMsg :: string
  vc_CaptchaSid :: string
  vc_CaptchaImg :: string
  vc_RedirectURI :: string
  vc_SessionToken :: string
  vc_CaptchaTs :: string
  vc_CaptchaAttempt :: string

definition captcha_text :: "VkCaptcha \<Rightarrow> string" where
  "captcha_text e =
     (if vc_ErrorCode e \<noteq> 0 \<and> vc_ErrorCode e \<noteq> 14 then
        (if vc_ErrorMsg e \<noteq> [] then ''VK API error '' @ itoa (vc_ErrorCode e) @ '': '' @ vc_ErrorMsg e
         else ''VK API error '' @ itoa (vc_ErrorCode e))
      else if vc_RedirectURI e \<noteq> [] then
        ''VK captcha required: redirect_uri, sid='' @ go_quote (vc_CaptchaSid e)
      else if vc_CaptchaImg e \<noteq> [] then
        ''VK captcha required: captcha_img, sid='' @ go_quote (vc_CaptchaSid e)
      else if vc_CaptchaSid e \<noteq> [] then ''VK captcha required: sid='' @ go_quote (vc_CaptchaSid e)
      else if vc_ErrorMsg e \<noteq> [] then ''VK captcha required: '' @ vc_ErrorMsg e
      else ''VK captcha required'')"

text \<open>
  A number or a string; \<open>session_token\<close> reads the parameter of that name from a URL
  (\<^verbatim>\<open>net/url\<close>; empty when the URL does not parse).
\<close>

definition num_or_str :: "json \<Rightarrow> string" where
  "num_or_str j =
     (case as_num j of Some x \<Rightarrow> fmt0 x
      | None \<Rightarrow> (case as_str j of Some s \<Rightarrow> s | None \<Rightarrow> []))"

definition parseVkCaptchaError :: "(string \<Rightarrow> string) \<Rightarrow> jmap \<Rightarrow> VkCaptcha" where
  "parseVkCaptchaError session_token errData =
     (let sid = str_or_empty (jget errData ''captcha_sid'');
          uri = str_or_empty (jget errData ''redirect_uri'') in
      \<lparr>vc_ErrorCode = go_int (num_or_zero (jget errData ''error_code'')),
       vc_ErrorMsg = str_or_empty (jget errData ''error_msg''),
       vc_CaptchaSid =
         (if sid = [] then
            (case as_num (jget errData ''captcha_sid'') of Some x \<Rightarrow> fmt0 x | None \<Rightarrow> sid)
          else sid),
       vc_CaptchaImg = str_or_empty (jget errData ''captcha_img''),
       vc_RedirectURI = uri,
       vc_SessionToken = (if uri \<noteq> [] then session_token uri else []),
       vc_CaptchaTs = num_or_str (jget errData ''captcha_ts''),
       vc_CaptchaAttempt = num_or_str (jget errData ''captcha_attempt'')\<rparr>)"

definition vkCallsAPIError :: "(string \<Rightarrow> string) \<Rightarrow> jmap \<Rightarrow> goerr option" where
  "vkCallsAPIError session_token resp =
     (case as_obj (jget resp ''error'') of
        None \<Rightarrow> None
      | Some errObj \<Rightarrow>
          (let code = num_or_zero (jget errObj ''error_code''); msg = str_or_empty (jget errObj ''error_msg'') in
           if code = 0 \<and> msg = [] then None
           else
             (case fatalCallError resp of
                Some e \<Rightarrow> Some e
              | None \<Rightarrow>
                  if go_int code = 14
                  then Some (VkCaptchaError (captcha_text (parseVkCaptchaError session_token errObj)))
                  else Some (VkCallsVKAPIError (go_int code) msg))))"

definition vkCallsOKError :: "jmap \<Rightarrow> goerr option" where
  "vkCallsOKError resp =
     (case as_num (jget resp ''error_code'') of
        None \<Rightarrow> None
      | Some code \<Rightarrow>
          if code = 0 then None
          else Some (VkCallsOKAPIError (go_int code) (str_or_empty (jget resp ''error_msg''))))"

definition vkCallsAPIErrorKind :: "goerr option \<Rightarrow> string" where
  "vkCallsAPIErrorKind e =
     (if asCallUnavailableError e \<noteq> None then ''call_unavailable''
      else if errors_as is_captcha_error e \<noteq> None then ''captcha''
      else ''vk_api'')"

definition newVKCallsFailure :: "string \<Rightarrow> string \<Rightarrow> goerr option \<Rightarrow> goerr" where
  "newVKCallsFailure stp kind e =
     VkCallsFailure stp kind (Some (case e of None \<Rightarrow> ErrText ''unknown error'' | Some x \<Rightarrow> x))"

fun is_vkcalls_failure :: "goerr \<Rightarrow> bool" where
  "is_vkcalls_failure (VkCallsFailure stp kind e) = True"
| "is_vkcalls_failure _ = False"

definition describeVKCallsFailure :: "goerr option \<Rightarrow> string" where
  "describeVKCallsFailure e =
     (case e of
        None \<Rightarrow> []
      | Some x \<Rightarrow> (case errors_as is_vkcalls_failure e of Some f \<Rightarrow> err_text f | None \<Rightarrow> err_text x))"

section \<open>Reading a path\<close>

fun walk_path :: "json \<Rightarrow> string list \<Rightarrow> goerr + json" where
  "walk_path cur [] = Inr cur"
| "walk_path cur (k # ks) =
     (case as_obj cur of
        None \<Rightarrow> Inl (ErrText (''expected map at key '' @ go_quote k @ '', got '' @ type_text cur))
      | Some m \<Rightarrow> walk_path (jget m k) ks)"

definition extractVKCallsStr :: "jmap \<Rightarrow> string list \<Rightarrow> goerr + string" where
  "extractVKCallsStr resp keys =
     (case walk_path (JObj resp) keys of
        Inl e \<Rightarrow> Inl e
      | Inr cur \<Rightarrow>
          (case as_str cur of
             Some s \<Rightarrow> Inr s
           | None \<Rightarrow> Inl (ErrText (''expected string at end of path, got '' @ type_text cur))))"

definition extractVKCallsFloat :: "jmap \<Rightarrow> string list \<Rightarrow> goerr + rat" where
  "extractVKCallsFloat resp keys =
     (case walk_path (JObj resp) keys of
        Inl e \<Rightarrow> Inl e
      | Inr cur \<Rightarrow>
          (case as_num cur of
             Some x \<Rightarrow> Inr x
           | None \<Rightarrow> Inl (ErrText (''expected float64 at end of path, got '' @ type_text cur))))"

text \<open>The address part of one URL\<close>

definition vkcalls_address :: "string \<Rightarrow> string" where
  "vkcalls_address s = trim_prefix (trim_prefix (hd (split_at (CHR ''?'') s)) ''turn:'') ''turns:''"

definition parseVKCallsTURNAddresses :: "jmap \<Rightarrow> string list" where
  "parseVKCallsTURNAddresses resp =
     (case as_obj (jget resp ''turn_server'') of
        None \<Rightarrow> []
      | Some turnServer \<Rightarrow>
          (case as_arr (jget turnServer ''urls'') of
             None \<Rightarrow> []
           | Some urls \<Rightarrow> map vkcalls_address (List.map_filter as_str urls)))"

section \<open>Authorisation errors\<close>

definition isAuthError :: "goerr option \<Rightarrow> bool" where
  "isAuthError e =
     (case e of
        None \<Rightarrow> False
      | Some x \<Rightarrow>
          (case errors_as is_turn_error e of
             Some (StunTurnError code t) \<Rightarrow> code = 401 \<or> code = 441
           | _ \<Rightarrow>
               (let s = to_lower (err_text x) in
                if contains s ''stale nonce'' \<or> contains s ''forbidden'' then False
                else contains s ''turn_auth_rejected'' \<or> contains s ''unauthorized''
                     \<or> contains s ''wrong credentials'')))"

section \<open>Properties\<close>

text \<open>
  What the client makes of an error reply of VK: a reply is an error when it has an error
  object with a non-zero numeric code or a message; it means "the call is gone" exactly for the
  codes 951, 954 and 9000 to 9999, whether the code comes as a number or as a decimal text, it is a captcha
  challenge exactly for the code 14, and the kind written into the failure says which of the
  three it is.
\<close>

theorem api_error_kinds:
  assumes obj: "jget resp ''error'' = JObj m"
    and code: "jget m ''error_code'' = JNum (of_int c)" "c \<noteq> 0"
  shows "(c \<in> {951, 954} \<union> {9000..9999} \<longrightarrow>
           vkCallsAPIError st resp = Some (CallUnavailableError c (str_or_empty (jget m ''error_msg'')))
           \<and> vkCallsAPIErrorKind (vkCallsAPIError st resp) = ''call_unavailable'')
    \<and> (c = 14 \<longrightarrow>
         vkCallsAPIError st resp = Some (VkCaptchaError (captcha_text (parseVkCaptchaError st m)))
         \<and> vkCallsAPIErrorKind (vkCallsAPIError st resp) = ''captcha'')
    \<and> (c \<notin> {14, 951, 954} \<union> {9000..9999} \<longrightarrow>
         vkCallsAPIError st resp = Some (VkCallsVKAPIError c (str_or_empty (jget m ''error_msg'')))
         \<and> vkCallsAPIErrorKind (vkCallsAPIError st resp) = ''vk_api'')
    \<and> (- (2 ^ 63) \<le> c \<and> c < 2 ^ 63 \<longrightarrow>
         vkErrorCode (JStr (itoa c)) = vkErrorCode (JNum (of_int c)))"
proof -
  have int: "go_int (of_int c) = c" "go_int 14 = 14"
    by (simp_all add: go_int_def)
  have num: "num_or_zero (jget m ''error_code'') = of_int c"
    by (simp add: num_or_zero_def code)
  have fatal: "fatalCallError resp =
      (if c = 951 \<or> c = 954 \<or> 9000 \<le> c \<and> c \<le> 9999
       then Some (CallUnavailableError c (str_or_empty (jget m ''error_msg''))) else None)"
    by (simp add: fatalCallError_def obj code int Let_def)
  have kind: "vkCallsAPIErrorKind (Some (CallUnavailableError c t)) = ''call_unavailable''"
    "vkCallsAPIErrorKind (Some (VkCaptchaError t)) = ''captcha''"
    "vkCallsAPIErrorKind (Some (VkCallsVKAPIError c t)) = ''vk_api''" for t
    by (simp_all add: vkCallsAPIErrorKind_def asCallUnavailableError_def errors_as_def chain.simps)
  have api: "vkCallsAPIError st resp =
      (if c = 951 \<or> c = 954 \<or> 9000 \<le> c \<and> c \<le> 9999
       then Some (CallUnavailableError c (str_or_empty (jget m ''error_msg'')))
       else if c = 14 then Some (VkCaptchaError (captcha_text (parseVkCaptchaError st m)))
       else Some (VkCallsVKAPIError c (str_or_empty (jget m ''error_msg''))))"
    using code(2) by (simp add: vkCallsAPIError_def obj num fatal int Let_def)
  show ?thesis
    using kind by (auto simp: api int atoi_itoa)
qed

definition dead_link_reply :: jmap where
  "dead_link_reply =
     [(''error'', JObj [(''error_code'', JNum 9003), (''error_msg'', JStr ''Call not found'')])]"

theorem api_error_kinds_witness:
  "vkCallsAPIError (\<lambda>_. []) dead_link_reply = Some (CallUnavailableError 9003 ''Call not found'')
   \<and> vkErrorCode (JStr (itoa 9003)) = vkErrorCode (JNum (of_int 9003))"
proof -
  have "jget dead_link_reply ''error'' =
      JObj [(''error_code'', JNum 9003), (''error_msg'', JStr ''Call not found'')]"
    "jget [(''error_code'', JNum 9003), (''error_msg'', JStr ''Call not found'')] ''error_code'' = JNum (of_int 9003)"
    "str_or_empty (jget [(''error_code'', JNum 9003), (''error_msg'', JStr ''Call not found'')] ''error_msg'')
      = ''Call not found''"
    by (simp_all add: jget_def dead_link_reply_def str_or_empty_def)
  from api_error_kinds [OF this(1,2)] this(3) show ?thesis by simp
qed

text \<open>
  The two readers of TURN addresses agree on clean lists: when every URL is a text without
  surrounding white space and has a non-empty address, the VK Calls path reads the same addresses as the legacy path.
  On other lists they differ: an empty URL, or one that is only a scheme, is left out by the
  legacy path and becomes an empty address on the VK Calls path.
\<close>

theorem address_readers:
  assumes "jget resp ''turn_server'' = JObj t" "jget t ''urls'' = JArr (map JStr us)"
  shows "((\<forall>u \<in> set us. trim_space u = u \<and> url_address u \<noteq> []) \<longrightarrow>
           parseVKCallsTURNAddresses resp = turnURLsToAddresses us)
    \<and> (\<exists>u. u \<in> set us \<and> url_address u = []) = ([] \<in> set (parseVKCallsTURNAddresses resp))
    \<and> [] \<notin> set (turnURLsToAddresses us)"
proof -
  have strs: "List.map_filter as_str (map JStr us) = us"
    by (induction us) (simp_all add: List.map_filter_simps)
  have read: "parseVKCallsTURNAddresses resp = map url_address us"
    by (simp add: parseVKCallsTURNAddresses_def assms strs vkcalls_address_def url_address_def)
  have "\<forall>u \<in> set us. trim_space u = u \<and> url_address u \<noteq> [] \<Longrightarrow> map url_address us = turnURLsToAddresses us"
  proof (induction us)
    case (Cons u us)
    have "url_address [] = []"
      by (simp add: url_address_def trim_prefix_def)
    then show ?case
      using Cons by (auto simp: Let_def)
  qed simp
  moreover have "[] \<notin> set (turnURLsToAddresses us)"
    by (induction us) (auto simp: Let_def)
  ultimately show ?thesis
    by (force simp: read)
qed

theorem address_readers_witness:
  "[] \<in> set (parseVKCallsTURNAddresses
     [(''turn_server'', JObj [(''urls'', JArr [JStr ''turn:1.2.3.4:19302?transport=udp'', JStr ''turn:'']) ])])"
proof -
  let ?t = "[(''urls'', JArr [JStr ''turn:1.2.3.4:19302?transport=udp'', JStr ''turn:'']) ]"
  have 1: "jget [(''turn_server'', JObj ?t)] ''turn_server'' = JObj ?t"
    "jget ?t ''urls'' = JArr (map JStr [''turn:1.2.3.4:19302?transport=udp'', ''turn:''])"
    by (simp_all add: jget_def)
  have 2: "url_address ''turn:'' = []"
    by code_simp
  show ?thesis
    using address_readers [OF 1] 2 by (metis list.set_intros(1) list.set_intros(2))
qed

end
