(* ===== verification/VkCalls.thy ===== *)
theory VkCalls
  imports VkReplies
begin

text \<open>
  The VK Calls path of \<^verbatim>\<open>creds_vkcalls.go\<close>: five requests, each using what the earlier ones
  returned. The world \<open>'w\<close> and the answers of the servers are parameters (\<open>VkEnv\<close>); the
  program's own state is the captcha lockout. Identifiers drawn at random (\<^verbatim>\<open>uuid.New\<close>,
  \<^verbatim>\<open>generateName\<close>) are fields of the environment.
\<close>

section \<open>The environment\<close>

text \<open>What a POST request ends with: an error before or during it, a body that is not JSON, or an object\<close>

datatype http_reply =
    BadRequest goerr
  | NoReply goerr
  | NoBody goerr
  | BadJson goerr string
  | JsonReply jmap

record 'w VkEnv =
  ve_http :: "string \<Rightarrow> string \<Rightarrow> 'w \<Rightarrow> http_reply \<times> 'w"
  ve_client :: "goerr option"
  ve_fmt :: "rat \<Rightarrow> string"
  ve_session_token :: "string \<Rightarrow> string"
  ve_device :: string
  ve_ok_device :: string
  ve_name :: string
  ve_now :: "'w \<Rightarrow> gotime"
  ve_ctx :: "'w \<Rightarrow> goerr option"
  ve_pause :: "duration \<Rightarrow> 'w \<Rightarrow> 'w"
  ve_wait :: "duration \<Rightarrow> 'w \<Rightarrow> goerr option \<times> 'w"
  ve_rand :: "nat \<Rightarrow> 'w \<Rightarrow> nat \<times> 'w"
  ve_solve_once :: "VkCaptcha \<Rightarrow> 'w \<Rightarrow> (goerr + string) \<times> 'w"
  ve_webview :: "string \<Rightarrow> duration \<Rightarrow> 'w \<Rightarrow> string option \<times> 'w"

type_synonym grant = "string \<times> string \<times> string list"

text \<open>Sequencing of operations that can fail and change a state\<close>

definition bindE :: "('s \<Rightarrow> ('e + 'a) \<times> 's) \<Rightarrow> ('a \<Rightarrow> 's \<Rightarrow> ('e + 'b) \<times> 's) \<Rightarrow> 's \<Rightarrow> ('e + 'b) \<times> 's" where
  "bindE f g s = (case f s of (Inl e, s') \<Rightarrow> (Inl e, s') | (Inr x, s') \<Rightarrow> g x s')"

definition withE :: "('e + 'a) \<Rightarrow> 's \<Rightarrow> ('e + 'a) \<times> 's" where
  "withE r s = (r, s)"

lemma bindE_Inr:
  "bindE f g s = (Inr y, t) \<longleftrightarrow> (\<exists>x s'. f s = (Inr x, s') \<and> g x s' = (Inr y, t))"
  by (auto simp: bindE_def split: prod.splits sum.splits)

lemma bindE_Inl:
  "bindE f g s = (Inl e, t) \<longleftrightarrow>
     f s = (Inl e, t) \<or> (\<exists>x s'. f s = (Inr x, s') \<and> g x s' = (Inl e, t))"
  by (auto simp: bindE_def split: prod.splits sum.splits)

lemma withE_simps [simp]: "withE r s = (r', s') \<longleftrightarrow> r = r' \<and> s = s'"
  by (auto simp: withE_def)

text \<open>\<^verbatim>\<open>neturl.QueryEscape\<close>\<close>

definition unreserved :: "char \<Rightarrow> bool" where
  "unreserved c \<longleftrightarrow>
     (let b = byte_of c in
      0x30 \<le> b \<and> b \<le> 0x39 \<or> 0x41 \<le> b \<and> b \<le> 0x5A \<or> 0x61 \<le> b \<and> b \<le> 0x7A
      \<or> b = 0x2D \<or> b = 0x5F \<or> b = 0x2E \<or> b = 0x7E)"

definition upper_hex :: "nat \<Rightarrow> char" where
  "upper_hex n = ''0123456789ABCDEF'' ! n"

definition query_escape :: "string \<Rightarrow> string" where
  "query_escape s =
     concat (map (\<lambda>c. if unreserved c then [c] else if c = CHR '' '' then ''+''
       else [CHR 0x25, upper_hex (byte_of c div 16), upper_hex (byte_of c mod 16)]) s)"

section \<open>The requests\<close>

definition vkConnectClientID :: string where
  "vkConnectClientID = ''8093730''"

definition vkCallsAPIHost :: string where
  "vkCallsAPIHost = ''api.vk.me''"

definition vkCallsAnonAPIVersion :: string where
  "vkCallsAnonAPIVersion = ''5.276''"

definition reply_result :: "string \<Rightarrow> http_reply \<Rightarrow> goerr + jmap" where
  "reply_result stp r =
     (case r of
        BadRequest e \<Rightarrow> Inl (newVKCallsFailure stp ''setup'' (Some (ErrWrap ''create request: '' e [])))
      | NoReply e \<Rightarrow> Inl (newVKCallsFailure stp ''network'' (Some (ErrWrap ''request failed: '' e [])))
      | NoBody e \<Rightarrow> Inl (newVKCallsFailure stp ''network'' (Some (ErrWrap ''read response: '' e [])))
      | BadJson e body \<Rightarrow>
          Inl (newVKCallsFailure stp ''decode''
            (Some (ErrWrap ''unmarshal JSON: '' e ('', body: '' @ truncateVKCallsLog body 200))))
      | JsonReply m \<Rightarrow> Inr m)"

definition vkcalls_request :: "'w VkEnv \<Rightarrow> string \<Rightarrow> string \<Rightarrow> 'w \<Rightarrow> (goerr + jmap) \<times> 'w" where
  "vkcalls_request v stp url w =
     (case ve_http v [] url w of (r, w') \<Rightarrow> (reply_result stp r, w'))"

definition link_url :: "string \<Rightarrow> string" where
  "link_url link = query_escape (''https://vk.com/call/join/'' @ link)"

definition parse_error :: "string \<Rightarrow> string \<Rightarrow> goerr \<Rightarrow> goerr" where
  "parse_error stp what e = newVKCallsFailure stp ''parse'' (Some (ErrWrap (''parse '' @ what @ '': '') e []))"

definition parse_error_resp :: "'w VkEnv \<Rightarrow> string \<Rightarrow> string \<Rightarrow> jmap \<Rightarrow> goerr \<Rightarrow> goerr" where
  "parse_error_resp v stp what resp e =
     newVKCallsFailure stp ''parse''
       (Some (ErrWrap (''parse '' @ what @ '': '') e ('' (resp: '' @ truncateVKCallsResp (ve_fmt v) resp @ '')'')))"

text \<open>A field of a reply, or the failure of its step\<close>

definition need :: "(goerr \<Rightarrow> goerr) \<Rightarrow> goerr + 'a \<Rightarrow> goerr + 'a" where
  "need f r = (case r of Inl e \<Rightarrow> Inl (f e) | Inr x \<Rightarrow> Inr x)"

lemma need_Inr [simp]: "need f r = Inr x \<longleftrightarrow> r = Inr x"
  by (cases r) (auto simp: need_def)

definition api_checked :: "'w VkEnv \<Rightarrow> string \<Rightarrow> jmap \<Rightarrow> goerr + unit" where
  "api_checked v stp resp =
     (case vkCallsAPIError (ve_session_token v) resp of
        None \<Rightarrow> Inr ()
      | Some e \<Rightarrow> Inl (newVKCallsFailure stp (vkCallsAPIErrorKind (Some e)) (Some e)))"

definition step1 :: string where "step1 = ''step1 auth.getAnonymToken''"
definition step2 :: string where "step2 = ''step2 messages.getCallPreview''"
definition step3 :: string where "step3 = ''step3 messages.getAnonymCallToken''"
definition step4 :: string where "step4 = ''step4 auth.anonymLogin''"
definition step5 :: string where "step5 = ''step5 vchat.joinConversationByLink''"

definition step1_url :: "'w VkEnv \<Rightarrow> string \<Rightarrow> string" where
  "step1_url v link =
     ''https://'' @ vkCallsAPIHost @ ''/method/auth.getAnonymToken?v='' @ vkCallsAnonAPIVersion @
     ''&client_id='' @ vkConnectClientID @ ''&link='' @ link_url link @ ''&device_id='' @ ve_device v @
     ''&anonymName='' @ query_escape (ve_name v) @ ''&lang=en''"

definition vkcalls_step1 :: "'w VkEnv \<Rightarrow> string \<Rightarrow> 'w \<Rightarrow> (goerr + string) \<times> 'w" where
  "vkcalls_step1 v link =
     bindE (vkcalls_request v step1 (step1_url v link)) (\<lambda>resp.
       withE (need (parse_error_resp v step1 ''token'' resp) (extractVKCallsStr resp [''response'', ''token''])))"

definition step2_url :: "'w VkEnv \<Rightarrow> string \<Rightarrow> string \<Rightarrow> string" where
  "step2_url v link token =
     ''https://'' @ vkCallsAPIHost @ ''/method/messages.getCallPreview?v='' @ vkCallsAnonAPIVersion @
     ''&anonymous_token='' @ query_escape token @ ''&device_id='' @ ve_device v @
     ''&extended=1&fields=first_name,last_name,photo_200&lang=en&link='' @ link_url link"

definition vkcalls_step2 :: "'w VkEnv \<Rightarrow> string \<Rightarrow> string \<Rightarrow> 'w \<Rightarrow> (goerr + string \<times> string) \<times> 'w" where
  "vkcalls_step2 v link token =
     bindE (vkcalls_request v step2 (step2_url v link token)) (\<lambda>resp.
       bindE (withE (api_checked v step2 resp)) (\<lambda>_.
         bindE (withE (need (parse_error_resp v step2 ''user_id'' resp)
             (extractVKCallsFloat resp [''response'', ''user_id'']))) (\<lambda>uid.
           bindE (withE (need (parse_error step2 ''secret'')
               (extractVKCallsStr resp [''response'', ''secret'']))) (\<lambda>secret.
             withE (Inr (fmt0 uid, secret))))))"

definition step3_url :: "'w VkEnv \<Rightarrow> string \<Rightarrow> string \<Rightarrow> string \<Rightarrow> string \<Rightarrow> string" where
  "step3_url v link token uid secret =
     ''https://'' @ vkCallsAPIHost @ ''/method/messages.getAnonymCallToken?v='' @ vkCallsAnonAPIVersion @
     ''&anonymous_token='' @ query_escape token @ ''&device_id='' @ ve_device v @ ''&link='' @ link_url link @
     ''&name='' @ query_escape (ve_name v) @ ''&user_id='' @ uid @ ''&secret='' @ query_escape secret @ ''&lang=en''"

definition vkcalls_step3 ::
  "'w VkEnv \<Rightarrow> string \<Rightarrow> string \<Rightarrow> string \<Rightarrow> string \<Rightarrow> 'w \<Rightarrow> (goerr + string) \<times> 'w"
where
  "vkcalls_step3 v link token uid secret =
     bindE (vkcalls_request v step3 (step3_url v link token uid secret)) (\<lambda>resp.
       bindE (withE (api_checked v step3 resp)) (\<lambda>_.
         withE (need (parse_error_resp v step3 ''token'' resp) (extractVKCallsStr resp [''response'', ''token'']))))"

definition ok_application_key :: string where
  "ok_application_key = ''CGMMEJLGDIHBABABA''"

definition dq :: string where
  "dq = [CHR 0x22]"

definition step4_url :: "'w VkEnv \<Rightarrow> string" where
  "step4_url v =
     ''https://calls.okcdn.ru/fb.do?session_data='' @
     query_escape (''{'' @ dq @ ''version'' @ dq @ '':2,'' @ dq @ ''device_id'' @ dq @ '':'' @ dq @
       ve_ok_device v @ dq @ '','' @ dq @ ''client_version'' @ dq @ '':'' @ dq @ ''1.0.1'' @ dq @ ''}'') @
     ''&method=auth.anonymLogin&format=JSON&application_key='' @ ok_application_key"

definition vkcalls_step4 :: "'w VkEnv \<Rightarrow> 'w \<Rightarrow> (goerr + string) \<times> 'w" where
  "vkcalls_step4 v =
     bindE (vkcalls_request v step4 (step4_url v)) (\<lambda>resp.
       withE (need (parse_error_resp v step4 ''session_key'' resp) (extractVKCallsStr resp [''session_key''])))"

definition step5_url :: "string \<Rightarrow> string \<Rightarrow> string \<Rightarrow> string" where
  "step5_url link token key =
     ''https://calls.okcdn.ru/fb.do?joinLink='' @ link @ ''&isVideo=false&protocolVersion=5&anonymToken='' @
     token @ ''&method=vchat.joinConversationByLink&format=JSON&application_key='' @ ok_application_key @
     ''&session_key='' @ key"

definition ok_checked :: "'w VkEnv \<Rightarrow> jmap \<Rightarrow> goerr + unit" where
  "ok_checked v resp =
     (case vkCallsOKError resp of
        None \<Rightarrow> Inr ()
      | Some e \<Rightarrow>
          Inl (newVKCallsFailure step5 ''okcdn_api''
            (Some (ErrWrap [] e ('' (resp: '' @ truncateVKCallsResp (ve_fmt v) resp @ '')'')))))"

definition vkcalls_step5 ::
  "'w VkEnv \<Rightarrow> string \<Rightarrow> string \<Rightarrow> string \<Rightarrow> 'w \<Rightarrow> (goerr + grant) \<times> 'w"
where
  "vkcalls_step5 v link token key =
     bindE (vkcalls_request v step5 (step5_url link token key)) (\<lambda>resp.
       bindE (withE (ok_checked v resp)) (\<lambda>_.
         bindE (withE (need (parse_error_resp v step5 ''username'' resp)
             (extractVKCallsStr resp [''turn_server'', ''username'']))) (\<lambda>user.
           bindE (withE (need (parse_error step5 ''credential'')
               (extractVKCallsStr resp [''turn_server'', ''credential'']))) (\<lambda>pass.
             withE
               (if parseVKCallsTURNAddresses resp = []
                then Inl (newVKCallsFailure step5 ''parse'' (Some (ErrText ''turn_server.urls empty'')))
                else Inr (user, pass, parseVKCallsTURNAddresses resp))))))"

definition getVKCredsViaVKCallsPath :: "bool \<Rightarrow> 'w VkEnv \<Rightarrow> string \<Rightarrow> 'w \<Rightarrow> (goerr + grant) \<times> 'w" where
  "getVKCredsViaVKCallsPath skip v link w =
     (if skip then
        (Inl (newVKCallsFailure ''preflight'' ''skipped'' (Some (ErrText ''disabled by VK_SKIP_VKCALLS=1''))), w)
      else
        (case ve_client v of
           Some e \<Rightarrow> (Inl (newVKCallsFailure ''setup'' ''setup'' (Some (ErrWrap ''create tls client: '' e []))), w)
         | None \<Rightarrow>
             bindE (vkcalls_step1 v link) (\<lambda>token.
               bindE (vkcalls_step2 v link token) (\<lambda>(uid, secret).
                 bindE (vkcalls_step3 v link token uid secret) (\<lambda>ok_token.
                   bindE (vkcalls_step4 v) (\<lambda>key.
                     vkcalls_step5 v link ok_token key)))) w))"

section \<open>A scripted server\<close>

text \<open>Replies are handed out in order, and the URLs that were asked for are kept.\<close>

type_synonym script = "http_reply list \<times> string list"

definition scripted :: "string \<Rightarrow> string \<Rightarrow> script \<Rightarrow> http_reply \<times> script" where
  "scripted data url s =
     (case fst s of
        [] \<Rightarrow> (NoReply (NetError ''EOF'' False), ([], snd s @ [url]))
      | r # rs \<Rightarrow> (r, (rs, snd s @ [url])))"

lemma request_scripted:
  "ve_http v = scripted \<Longrightarrow>
   vkcalls_request v stp url s = (Inr m, s')
     \<longleftrightarrow> (\<exists>rest. fst s = JsonReply m # rest \<and> s' = (rest, snd s @ [url]))"
  by (cases "fst s")
    (auto simp: vkcalls_request_def scripted_def reply_result_def split: http_reply.splits)

lemma api_checked_Inr: "api_checked v stp resp = Inr x \<longleftrightarrow> vkCallsAPIError (ve_session_token v) resp = None"
  by (auto simp: api_checked_def split: option.splits)

lemma ok_checked_Inr: "ok_checked v resp = Inr x \<longleftrightarrow> vkCallsOKError resp = None"
  by (auto simp: ok_checked_def split: option.splits)

lemmas step_simps = bindE_Inr withE_simps need_Inr api_checked_Inr ok_checked_Inr request_scripted

lemma step1_scripted:
  "ve_http v = scripted \<Longrightarrow>
   vkcalls_step1 v link s = (Inr token, s') \<longleftrightarrow>
     (\<exists>m rest. fst s = JsonReply m # rest \<and> extractVKCallsStr m [''response'', ''token''] = Inr token
        \<and> s' = (rest, snd s @ [step1_url v link]))"
  by (auto simp: vkcalls_step1_def step_simps)

lemma step2_scripted:
  "ve_http v = scripted \<Longrightarrow>
   vkcalls_step2 v link token s = (Inr us, s') \<longleftrightarrow>
     (\<exists>m rest uid secret. fst s = JsonReply m # rest \<and> vkCallsAPIError (ve_session_token v) m = None
        \<and> extractVKCallsFloat m [''response'', ''user_id''] = Inr uid
        \<and> extractVKCallsStr m [''response'', ''secret''] = Inr secret
        \<and> us = (fmt0 uid, secret) \<and> s' = (rest, snd s @ [step2_url v link token]))"
  by (auto simp: vkcalls_step2_def step_simps)

lemma step3_scripted:
  "ve_http v = scripted \<Longrightarrow>
   vkcalls_step3 v link token uid secret s = (Inr ok_token, s') \<longleftrightarrow>
     (\<exists>m rest. fst s = JsonReply m # rest \<and> vkCallsAPIError (ve_session_token v) m = None
        \<and> extractVKCallsStr m [''response'', ''token''] = Inr ok_token
        \<and> s' = (rest, snd s @ [step3_url v link token uid secret]))"
  by (auto simp: vkcalls_step3_def step_simps)

lemma step4_scripted:
  "ve_http v = scripted \<Longrightarrow>
   vkcalls_step4 v s = (Inr key, s') \<longleftrightarrow>
     (\<exists>m rest. fst s = JsonReply m # rest \<and> extractVKCallsStr m [''session_key''] = Inr key
        \<and> s' = (rest, snd s @ [step4_url v]))"
  by (auto simp: vkcalls_step4_def step_simps)

lemma step5_scripted:
  "ve_http v = scripted \<Longrightarrow>
   vkcalls_step5 v link token key s = (Inr g, s') \<longleftrightarrow>
     (\<exists>m rest user pass. fst s = JsonReply m # rest \<and> vkCallsOKError m = None
        \<and> extractVKCallsStr m [''turn_server'', ''username''] = Inr user
        \<and> extractVKCallsStr m [''turn_server'', ''credential''] = Inr pass
        \<and> parseVKCallsTURNAddresses m \<noteq> [] \<and> g = (user, pass, parseVKCallsTURNAddresses m)
        \<and> s' = (rest, snd s @ [step5_url link token key]))"
  by (auto simp: vkcalls_step5_def step_simps split: if_splits)

section \<open>Properties\<close>

text \<open>
  C40. Success of the VK Calls path: credentials come back exactly when all five replies are
  objects with the fields the client needs and without error marks, the addresses are not
  empty, and exactly five requests are made, in which each token is the one an earlier reply
  brought: the anonymous token in steps two and three, the number of the user and the secret in step
  three, the OK token and the session key in step five.
\<close>

theorem vkcalls_success:
  assumes "ve_http v = scripted" "ve_client v = None"
  shows "getVKCredsViaVKCallsPath False v link (rs, []) = (Inr (user, pass, addrs), s') \<longleftrightarrow>
    (\<exists>m1 m2 m3 m4 m5 rest token uid secret ok_token key.
       rs = map JsonReply [m1, m2, m3, m4, m5] @ rest
       \<and> extractVKCallsStr m1 [''response'', ''token''] = Inr token
       \<and> vkCallsAPIError (ve_session_token v) m2 = None
       \<and> extractVKCallsFloat m2 [''response'', ''user_id''] = Inr uid
       \<and> extractVKCallsStr m2 [''response'', ''secret''] = Inr secret
       \<and> vkCallsAPIError (ve_session_token v) m3 = None
       \<and> extractVKCallsStr m3 [''response'', ''token''] = Inr ok_token
       \<and> extractVKCallsStr m4 [''session_key''] = Inr key
       \<and> vkCallsOKError m5 = None
       \<and> extractVKCallsStr m5 [''turn_server'', ''username''] = Inr user
       \<and> extractVKCallsStr m5 [''turn_server'', ''credential''] = Inr pass
       \<and> addrs = parseVKCallsTURNAddresses m5 \<and> addrs \<noteq> []
       \<and> s' = (rest, [step1_url v link, step2_url v link token,
                       step3_url v link token (fmt0 uid) secret, step4_url v,
                       step5_url link ok_token key]))"
    (is "?lhs \<longleftrightarrow> ?rhs")
proof
  assume ?lhs
  then show ?rhs
    by (auto simp: getVKCredsViaVKCallsPath_def assms bindE_Inr step1_scripted step2_scripted
        step3_scripted step4_scripted step5_scripted)
next
  assume ?rhs
  then show ?lhs
    by (elim exE conjE)
      (simp add: getVKCredsViaVKCallsPath_def assms bindE_Inr step1_scripted step2_scripted
        step3_scripted step4_scripted step5_scripted)
qed

definition demo_env :: "script VkEnv" where
  "demo_env =
     \<lparr>ve_http = scripted, ve_client = None, ve_fmt = (\<lambda>_. []), ve_session_token = (\<lambda>_. ''tok''),
      ve_device = ''d1'', ve_ok_device = ''d2'', ve_name = ''N'', ve_now = (\<lambda>_. 0), ve_ctx = (\<lambda>_. None),
      ve_pause = (\<lambda>_ w. w), ve_wait = (\<lambda>_ w. (None, w)), ve_rand = (\<lambda>_ w. (0, w)), ve_solve_once = (\<lambda>_ w. (Inl (ErrText ''no''), w)),
      ve_webview = (\<lambda>_ _ w. (None, w))\<rparr>"

definition demo_replies :: "jmap list" where
  "demo_replies =
     [[(''response'', JObj [(''token'', JStr ''T1'')])],
      [(''response'', JObj [(''user_id'', JNum 7), (''secret'', JStr ''S'')])],
      [(''response'', JObj [(''token'', JStr ''T2'')])],
      [(''session_key'', JStr ''K'')],
      [(''turn_server'', JObj [(''username'', JStr ''u''), (''credential'', JStr ''p''),
         (''urls'', JArr [JNull, JStr ''turn:1.2.3.4:19302?transport=udp''])])]]"

theorem vkcalls_success_witness:
  "\<exists>s'. getVKCredsViaVKCallsPath False demo_env ''abc'' (map JsonReply demo_replies, [])
      = (Inr (''u'', ''p'', [''1.2.3.4:19302'']), s') \<and> fst s' = [] \<and> length (snd s') = 5"
proof -
  have a: "vkcalls_address ''turn:1.2.3.4:19302?transport=udp'' = ''1.2.3.4:19302''"
    by code_simp
  let ?m = "\<lambda>i. demo_replies ! i"
  note v = vkcalls_success [of demo_env, where link = "''abc''" and rs = "map JsonReply demo_replies"
      and user = "''u''" and pass = "''p''" and addrs = "[''1.2.3.4:19302'']"
      and s' = "([], [step1_url demo_env ''abc'', step2_url demo_env ''abc'' ''T1'',
        step3_url demo_env ''abc'' ''T1'' (fmt0 7) ''S'', step4_url demo_env,
        step5_url ''abc'' ''T2'' ''K''])"]
  have "getVKCredsViaVKCallsPath False demo_env ''abc'' (map JsonReply demo_replies, [])
      = (Inr (''u'', ''p'', [''1.2.3.4:19302'']), ([], [step1_url demo_env ''abc'',
        step2_url demo_env ''abc'' ''T1'', step3_url demo_env ''abc'' ''T1'' (fmt0 7) ''S'',
        step4_url demo_env, step5_url ''abc'' ''T2'' ''K'']))"
    by (subst v; (simp add: demo_env_def)?)
      (simp add: demo_replies_def extractVKCallsStr_def extractVKCallsFloat_def jget_def
        vkCallsAPIError_def vkCallsOKError_def parseVKCallsTURNAddresses_def List.map_filter_simps a)
  then show ?thesis by simp
qed

definition honest_failure :: "goerr \<Rightarrow> bool" where
  "honest_failure e \<longleftrightarrow>
     (\<exists>stp kind c. e = VkCallsFailure stp kind (Some c)
        \<and> (kind = ''call_unavailable'' \<longleftrightarrow> asCallUnavailableError (Some e) \<noteq> None)
        \<and> (kind = ''call_unavailable'' \<longrightarrow> stp \<in> {step2, step3}))"

definition quiet_server :: "'w VkEnv \<Rightarrow> bool" where
  "quiet_server v \<longleftrightarrow>
     (\<forall>data url w e body.
        fst (ve_http v data url w) \<in> {BadRequest e, NoReply e, NoBody e, BadJson e body} \<longrightarrow>
          asCallUnavailableError (Some e) = None)
     \<and> (\<forall>e. ve_client v = Some e \<longrightarrow> asCallUnavailableError (Some e) = None)"

lemma as_call_failure [simp]:
  "asCallUnavailableError (Some (VkCallsFailure stp kind (Some c))) = asCallUnavailableError (Some c)"
  by (simp add: asCallUnavailableError_def errors_as_def chain.simps [of "VkCallsFailure stp kind (Some c)"])

lemma as_call_wrap [simp]:
  "asCallUnavailableError (Some (ErrWrap pre c post)) = asCallUnavailableError (Some c)"
  by (simp add: asCallUnavailableError_def errors_as_wrap)

lemma as_call_text [simp]: "asCallUnavailableError (Some (ErrText t)) = None"
  by (simp add: asCallUnavailableError_def errors_as_def chain.simps)

lemma as_call_other [simp]:
  "asCallUnavailableError (Some (VkCallsOKAPIError c t)) = None"
  "asCallUnavailableError (Some (VkCallsVKAPIError c t)) = None"
  "asCallUnavailableError (Some (VkCaptchaError t)) = None"
  "asCallUnavailableError (Some (CallUnavailableError c t)) = Some (CallUnavailableError c t)"
  by (simp_all add: asCallUnavailableError_def errors_as_def chain.simps)

lemma honest_other:
  "asCallUnavailableError (Some c) = None \<Longrightarrow> kind \<noteq> ''call_unavailable'' \<Longrightarrow>
   honest_failure (newVKCallsFailure stp kind (Some c))"
  by (simp add: honest_failure_def newVKCallsFailure_def)

lemma quiet_serverD:
  assumes "quiet_server v"
  shows "ve_http v d u w = (BadRequest e, w') \<Longrightarrow> asCallUnavailableError (Some e) = None"
    "ve_http v d u w = (NoReply e, w') \<Longrightarrow> asCallUnavailableError (Some e) = None"
    "ve_http v d u w = (NoBody e, w') \<Longrightarrow> asCallUnavailableError (Some e) = None"
    "ve_http v d u w = (BadJson e body, w') \<Longrightarrow> asCallUnavailableError (Some e) = None"
    "ve_client v = Some e \<Longrightarrow> asCallUnavailableError (Some e) = None"
  using assms unfolding quiet_server_def by (metis fst_conv insertI1 insert_iff)+

lemma honest_request:
  assumes "quiet_server v" "vkcalls_request v stp url w = (Inl e, w')"
  shows "honest_failure e"
proof -
  obtain r where r: "ve_http v [] url w = (r, w')" "reply_result stp r = Inl e"
    using assms(2) by (auto simp: vkcalls_request_def split: prod.splits)
  then show ?thesis
    using quiet_serverD [OF assms(1)] by (cases r) (auto simp: reply_result_def intro!: honest_other)
qed

lemma extract_errors:
  "walk_path j ks = Inl e \<Longrightarrow> asCallUnavailableError (Some e) = None"
  "extractVKCallsStr m ks = Inl e \<Longrightarrow> asCallUnavailableError (Some e) = None"
  "extractVKCallsFloat m ks = Inl e \<Longrightarrow> asCallUnavailableError (Some e) = None"
proof -
  show w: "walk_path j ks = Inl e \<Longrightarrow> asCallUnavailableError (Some e) = None" for j ks
    by (induction j ks rule: walk_path.induct) (auto split: option.splits)
  show "extractVKCallsStr m ks = Inl e \<Longrightarrow> asCallUnavailableError (Some e) = None"
    "extractVKCallsFloat m ks = Inl e \<Longrightarrow> asCallUnavailableError (Some e) = None"
    by (auto simp: extractVKCallsStr_def extractVKCallsFloat_def intro: w split: sum.splits option.splits)
qed

lemma honest_parse:
  "asCallUnavailableError (Some c) = None \<Longrightarrow> honest_failure (parse_error stp what c)"
  "asCallUnavailableError (Some c) = None \<Longrightarrow> honest_failure (parse_error_resp v stp what resp c)"
  by (auto simp: parse_error_def parse_error_resp_def intro!: honest_other)

lemma need_Inl: "need f r = Inl e \<longleftrightarrow> (\<exists>c. r = Inl c \<and> e = f c)"
  by (cases r) (auto simp: need_def)

lemma honest_api:
  "api_checked v stp resp = Inl e \<Longrightarrow> stp \<in> {step2, step3} \<Longrightarrow> honest_failure e"
  by (auto simp: api_checked_def honest_failure_def newVKCallsFailure_def vkCallsAPIErrorKind_def
      split: option.splits if_splits)

lemma honest_ok: "ok_checked v resp = Inl e \<Longrightarrow> honest_failure e"
  by (auto simp: ok_checked_def vkCallsOKError_def split: option.splits if_splits intro!: honest_other)

lemmas honest_intros = honest_request honest_parse extract_errors honest_api honest_ok honest_other

lemma honest_steps:
  assumes "quiet_server v"
  shows "vkcalls_step1 v link w = (Inl e, w') \<Longrightarrow> honest_failure e"
    "vkcalls_step2 v link t w = (Inl e, w') \<Longrightarrow> honest_failure e"
    "vkcalls_step3 v link t u sec w = (Inl e, w') \<Longrightarrow> honest_failure e"
    "vkcalls_step4 v w = (Inl e, w') \<Longrightarrow> honest_failure e"
    "vkcalls_step5 v link t key w = (Inl e, w') \<Longrightarrow> honest_failure e"
  by (auto simp: vkcalls_step1_def vkcalls_step2_def vkcalls_step3_def vkcalls_step4_def vkcalls_step5_def
      bindE_Inl need_Inl assms split: if_splits intro: honest_request [OF assms] honest_intros)

text \<open>
  Failures of the VK Calls path: every failure names its step and a kind, and its kind is
  "call unavailable" exactly when the chain of the error has the error that makes the caller
  give up on the link, which only the replies of the second and the third step can do.
\<close>

theorem vkcalls_failures:
  assumes "quiet_server v" "getVKCredsViaVKCallsPath skip v link w = (Inl e, w')"
  shows "\<exists>stp kind c. e = VkCallsFailure stp kind (Some c)
    \<and> (kind = ''call_unavailable'' \<longleftrightarrow> asCallUnavailableError (Some e) \<noteq> None)
    \<and> (kind = ''call_unavailable'' \<longrightarrow> stp \<in> {step2, step3})"
proof -
  have "honest_failure e"
    using assms(2) honest_steps [OF assms(1)] assms(1)
    by (auto simp: getVKCredsViaVKCallsPath_def bindE_Inl quiet_serverD(5)
        split: if_splits option.splits intro!: honest_other)
  then show ?thesis
    by (simp add: honest_failure_def)
qed

definition canned :: "jmap list \<Rightarrow> string \<Rightarrow> string \<Rightarrow> nat \<Rightarrow> http_reply \<times> nat" where
  "canned ms data url n =
     (if n < length ms then JsonReply (ms ! n) else NoReply (NetError ''EOF'' False), Suc n)"

definition dead_link_env :: "nat VkEnv" where
  "dead_link_env =
     \<lparr>ve_http = canned [demo_replies ! 0, dead_link_reply], ve_client = None, ve_fmt = (\<lambda>_. []),
      ve_session_token = (\<lambda>_. ''tok''), ve_device = ''d1'', ve_ok_device = ''d2'', ve_name = ''N'',
      ve_now = (\<lambda>_. 63900000000 * second), ve_ctx = (\<lambda>_. None), ve_pause = (\<lambda>_ w. w), ve_wait = (\<lambda>_ w. (None, w)), ve_rand = (\<lambda>_ w. (0, w)),
      ve_solve_once = (\<lambda>_ w. (Inl (ErrText ''no''), w)), ve_webview = (\<lambda>_ _ w. (None, w))\<rparr>"

lemma dead_link_quiet: "quiet_server dead_link_env"
  by (auto simp: quiet_server_def dead_link_env_def canned_def asCallUnavailableError_def errors_as_def
      chain.simps)

lemma dead_link_result:
  "getVKCredsViaVKCallsPath False dead_link_env ''abc'' 0
     = (Inl (VkCallsFailure step2 ''call_unavailable'' (Some (CallUnavailableError 9003 ''Call not found''))), 2)"
  by (simp add: getVKCredsViaVKCallsPath_def dead_link_env_def demo_replies_def dead_link_reply_def bindE_def
      withE_def vkcalls_step1_def vkcalls_step2_def vkcalls_request_def canned_def reply_result_def need_def
      extractVKCallsStr_def jget_def api_checked_def vkCallsAPIError_def num_or_zero_def str_or_empty_def
      fatalCallError_def go_int_def newVKCallsFailure_def vkCallsAPIErrorKind_def)

theorem vkcalls_failures_witness:
  "\<exists>e. fst (getVKCredsViaVKCallsPath False dead_link_env ''abc'' 0) = Inl e
     \<and> asCallUnavailableError (Some e) \<noteq> None"
  using vkcalls_failures [OF dead_link_quiet dead_link_result] dead_link_result by auto

end
