(* ===== verification/AccountCreds.thy ===== *)
theory AccountCreds
  imports VkCalls
begin

text \<open>
  Credentials of a VK account (\<^verbatim>\<open>vk_account.go\<close>): the modes of authorisation, the table of
  injected credentials, the lines that bring them from the app, and the request that waits
  for them. The channel \<^verbatim>\<open>TurnCredsResultChan\<close> has room for one value. The decoding of a
  payload (base64 of JSON) is the parameter \<open>decode\<close>.
\<close>

section \<open>State\<close>

definition accountCredsLifetime :: duration where
  "accountCredsLifetime = 9 * minute"

record injectedTurnCreds =
  ic_Username :: string
  ic_Password :: string
  ic_URLs :: "string list"
  ic_ExpiresAt :: gotime

record turnCredsPayload =
  pl_User :: string
  pl_Pass :: string
  pl_URLs :: "string list"

record AccountState =
  ac_mode :: string
  ac_path :: string
  ac_creds :: "string \<rightharpoonup> injectedTurnCreds"
  ac_result :: "turnCredsPayload option"

definition account_start :: AccountState where
  "account_start =
     \<lparr>ac_mode = ''anonymous'', ac_path = ''vkcalls'', ac_creds = Map.empty, ac_result = None\<rparr>"

section \<open>Modes\<close>

definition setVkAuthMode :: "string \<Rightarrow> AccountState \<Rightarrow> string \<times> AccountState" where
  "setVkAuthMode mode s =
     (let m = to_lower (trim_space mode); m' = (if m \<noteq> ''anonymous'' then ''account'' else m)
      in (m', s\<lparr>ac_mode := m'\<rparr>))"

definition getVkAuthMode :: "AccountState \<Rightarrow> string" where
  "getVkAuthMode s = (if ac_mode s = [] then ''anonymous'' else ac_mode s)"

definition setVkAnonPath :: "string \<Rightarrow> AccountState \<Rightarrow> string \<times> AccountState" where
  "setVkAnonPath path s =
     (if to_lower (trim_space path) = ''legacy'' then (''legacy'', s\<lparr>ac_path := ''legacy''\<rparr>)
      else (''vkcalls'', s\<lparr>ac_path := ''vkcalls''\<rparr>))"

definition getVkAnonPath :: "AccountState \<Rightarrow> string" where
  "getVkAnonPath s = (if ac_path s = [] then ''vkcalls'' else ac_path s)"

section \<open>Injected credentials\<close>

definition drainTurnCredsResult :: "AccountState \<Rightarrow> AccountState" where
  "drainTurnCredsResult s = s\<lparr>ac_result := None\<rparr>"

definition injectTurnCreds ::
  "gotime \<Rightarrow> string \<Rightarrow> string \<Rightarrow> string \<Rightarrow> string list \<Rightarrow> AccountState \<Rightarrow> AccountState"
where
  "injectTurnCreds now link user pass urls s =
     (let l = trim_space link; addresses = turnURLsToAddresses urls in
      if l = [] \<or> user = [] \<or> pass = [] \<or> addresses = [] then s
      else s\<lparr>ac_creds := (ac_creds s)(l \<mapsto>
             \<lparr>ic_Username = user, ic_Password = pass, ic_URLs = addresses,
              ic_ExpiresAt = now + accountCredsLifetime\<rparr>)\<rparr>)"

definition getInjectedTurnCreds :: "gotime \<Rightarrow> string \<Rightarrow> AccountState \<Rightarrow> grant option \<times> AccountState" where
  "getInjectedTurnCreds now link s =
     (case ac_creds s (trim_space link) of
        None \<Rightarrow> (None, s)
      | Some c \<Rightarrow>
          if ic_ExpiresAt c < now then (None, s\<lparr>ac_creds := (ac_creds s)(trim_space link := None)\<rparr>)
          else (Some (ic_Username c, ic_Password c, ic_URLs c), s))"

definition invalidateInjectedTurnCreds :: "string \<Rightarrow> AccountState \<Rightarrow> AccountState" where
  "invalidateInjectedTurnCreds link s = s\<lparr>ac_creds := (ac_creds s)(trim_space link := None)\<rparr>"

text \<open>The decoded file of credentials, in the order in which the map is traversed\<close>

definition loadVkCredsFile ::
  "gotime \<Rightarrow> string \<Rightarrow> goerr + (string \<times> turnCredsPayload) list \<Rightarrow> AccountState \<Rightarrow> goerr option \<times> AccountState"
where
  "loadVkCredsFile now path contents s =
     (if trim_space path = [] then (None, s)
      else
        (case contents of
           Inl e \<Rightarrow> (Some e, s)
         | Inr hashes \<Rightarrow>
             (None, fold (\<lambda>(link, p). injectTurnCreds now link (pl_User p) (pl_Pass p) (pl_URLs p)) hashes s)))"

section \<open>Lines from the app and the request that waits for them\<close>

definition empty_payload :: turnCredsPayload where
  "empty_payload = \<lparr>pl_User = [], pl_Pass = [], pl_URLs = []\<rparr>"

definition send_payload :: "turnCredsPayload \<Rightarrow> AccountState \<Rightarrow> AccountState" where
  "send_payload p s = (drainTurnCredsResult s)\<lparr>ac_result := Some p\<rparr>"

definition handleTurnCredsStdinLine ::
  "(string \<Rightarrow> turnCredsPayload option) \<Rightarrow> gotime \<Rightarrow> string \<Rightarrow> AccountState \<Rightarrow> AccountState"
where
  "handleTurnCredsStdinLine decode now line0 s =
     (let line = trim_prefix line0 ''TURN_CREDS|'' in
      if has_prefix line ''error:'' then send_payload empty_payload s
      else
        (case cut_at (CHR ''|'') line of
           None \<Rightarrow> s
         | Some (l, raw) \<Rightarrow>
             (case decode raw of
                None \<Rightarrow> s
              | Some p \<Rightarrow>
                  if pl_User p = [] \<or> pl_Pass p = [] \<or> pl_URLs p = [] then s
                  else send_payload (p\<lparr>pl_URLs := turnURLsToAddresses (pl_URLs p)\<rparr>)
                         (injectTurnCreds now (trim_space l) (pl_User p) (pl_Pass p) (pl_URLs p) s))))"

text \<open>
  \<^verbatim>\<open>requestAccountTurnCreds\<close>: the part before the wait, and the part after it. The wait ends
  with a value from the channel or with the end of the context.
\<close>

definition request_begin :: "gotime \<Rightarrow> string \<Rightarrow> AccountState \<Rightarrow> grant option \<times> AccountState" where
  "request_begin now link s =
     (case getInjectedTurnCreds now (trim_space link) s of
        (Some g, s') \<Rightarrow> (Some g, s')
      | (None, s') \<Rightarrow> (None, drainTurnCredsResult s'))"

definition request_received ::
  "gotime \<Rightarrow> string \<Rightarrow> turnCredsPayload \<Rightarrow> AccountState \<Rightarrow> (goerr + grant) \<times> AccountState"
where
  "request_received now link p s =
     (if pl_User p = [] then (Inl (ErrText ''VK account auth cancelled''), s\<lparr>ac_result := None\<rparr>)
      else
        (case getInjectedTurnCreds now (trim_space link)
                (injectTurnCreds now (trim_space link) (pl_User p) (pl_Pass p) (pl_URLs p) (s\<lparr>ac_result := None\<rparr>)) of
           (Some g, s') \<Rightarrow> (Inr g, s')
         | (None, s') \<Rightarrow> (Inr (pl_User p, pl_Pass p, turnURLsToAddresses (pl_URLs p)), s')))"

definition request_end ::
  "gotime \<Rightarrow> string \<Rightarrow> goerr \<Rightarrow> AccountState \<Rightarrow> (goerr + grant) \<times> AccountState"
where
  "request_end now link ended s =
     (case ac_result s of
        Some p \<Rightarrow> request_received now link p s
      | None \<Rightarrow> (Inl (ErrWrap ''VK account auth timeout: '' ended []), s))"

definition shortLink :: "string \<Rightarrow> string" where
  "shortLink link = (if length link \<le> 8 then link else take 8 link)"

text \<open>What may come from the app while the request waits is a list of lines.\<close>

definition handle_lines ::
  "(string \<Rightarrow> turnCredsPayload option) \<Rightarrow> gotime \<Rightarrow> string list \<Rightarrow> AccountState \<Rightarrow> AccountState"
where
  "handle_lines decode now lines s = fold (handleTurnCredsStdinLine decode now) lines s"

definition fetchAccountVkCreds ::
  "(string \<Rightarrow> turnCredsPayload option) \<Rightarrow> gotime \<Rightarrow> gotime \<Rightarrow> string list \<Rightarrow> goerr \<Rightarrow> string \<Rightarrow> AccountState \<Rightarrow>
   (goerr + grant) \<times> AccountState"
where
  "fetchAccountVkCreds decode now t lines ended link s =
     (case getInjectedTurnCreds now link s of
        (Some g, s1) \<Rightarrow> (Inr g, s1)
      | (None, s1) \<Rightarrow>
          (case request_begin now link s1 of
             (Some g, s2) \<Rightarrow> (Inr g, s2)
           | (None, s2) \<Rightarrow> request_end t link ended (handle_lines decode t lines s2)))"

section \<open>The invariant\<close>

text \<open>Stored credentials are complete: a link, a name, a password and addresses, none of them empty.\<close>

definition account_ok :: "AccountState \<Rightarrow> bool" where
  "account_ok s \<longleftrightarrow>
     (\<forall>l c. ac_creds s l = Some c \<longrightarrow>
        l \<noteq> [] \<and> trim_space l = l \<and> ic_Username c \<noteq> [] \<and> ic_Password c \<noteq> []
        \<and> ic_URLs c \<noteq> [] \<and> [] \<notin> set (ic_URLs c))
     \<and> ac_mode s \<in> {''anonymous'', ''account''} \<and> ac_path s \<in> {''vkcalls'', ''legacy''}"

lemma addresses_nonempty: "[] \<notin> set (turnURLsToAddresses us)"
  by (induction us) (auto simp: Let_def)

lemma account_ok_inject: "account_ok s \<Longrightarrow> account_ok (injectTurnCreds now l u p us s)"
  by (auto simp: account_ok_def injectTurnCreds_def Let_def addresses_nonempty)

lemma account_ok_get: "account_ok s \<Longrightarrow> account_ok (snd (getInjectedTurnCreds now l s))"
  by (auto simp: account_ok_def getInjectedTurnCreds_def split: option.splits)

lemma account_ok_result [simp]: "account_ok (s\<lparr>ac_result := r\<rparr>) = account_ok s"
  by (simp add: account_ok_def)

lemma account_ok_line: "account_ok s \<Longrightarrow> account_ok (handleTurnCredsStdinLine decode now l s)"
  by (auto simp: handleTurnCredsStdinLine_def send_payload_def drainTurnCredsResult_def Let_def
      intro: account_ok_inject split: option.splits prod.splits)

lemma account_ok_lines: "account_ok s \<Longrightarrow> account_ok (handle_lines decode now ls s)"
  unfolding handle_lines_def by (induction ls arbitrary: s) (auto intro: account_ok_line)

inductive account_step :: "(string \<Rightarrow> turnCredsPayload option) \<Rightarrow> AccountState \<Rightarrow> AccountState \<Rightarrow> bool"
  for decode
where
  as_mode: "account_step decode s (snd (setVkAuthMode m s))"
| as_path: "account_step decode s (snd (setVkAnonPath m s))"
| as_load: "account_step decode s (snd (loadVkCredsFile now path contents s))"
| as_line: "account_step decode s (handleTurnCredsStdinLine decode now line s)"
| as_get: "account_step decode s (snd (getInjectedTurnCreds now link s))"
| as_begin: "account_step decode s (snd (request_begin now link s))"
| as_end: "account_step decode s (snd (request_end now link ended s))"
| as_invalidate: "account_step decode s (invalidateInjectedTurnCreds link s)"

lemma account_ok_fold:
  "account_ok s \<Longrightarrow>
   account_ok (fold (\<lambda>(link, p). injectTurnCreds now link (pl_User p) (pl_Pass p) (pl_URLs p)) hs s)"
  by (induction hs arbitrary: s) (auto intro: account_ok_inject)

lemma account_ok_received: "account_ok s \<Longrightarrow> account_ok (snd (request_received now link p s))"
proof -
  assume "account_ok s"
  then have "account_ok (snd (getInjectedTurnCreds now (trim_space link)
      (injectTurnCreds now (trim_space link) (pl_User p) (pl_Pass p) (pl_URLs p) (s\<lparr>ac_result := None\<rparr>))))"
    by (intro account_ok_get account_ok_inject) simp
  then show ?thesis
    using \<open>account_ok s\<close> by (auto simp: request_received_def split: prod.splits option.splits)
qed

lemma account_ok_step:
  assumes "account_ok s" "account_step decode s s'"
  shows "account_ok s'"
  using assms(2)
proof cases
  case (as_begin now link)
  then show ?thesis
    using account_ok_get [OF assms(1), of now "trim_space link"]
    by (auto simp: request_begin_def drainTurnCredsResult_def split: prod.splits option.splits)
next
  case (as_end now link ended)
  then show ?thesis
    using assms(1) account_ok_received by (auto simp: request_end_def split: option.splits)
next
  case (as_invalidate link)
  then show ?thesis
    using assms(1) by (auto simp: account_ok_def invalidateInjectedTurnCreds_def)
next
  case (as_load now path contents)
  then show ?thesis
    using assms(1) account_ok_fold by (auto simp: loadVkCredsFile_def split: sum.splits)
next
  case (as_mode m)
  then show ?thesis
    using assms(1) by (simp add: setVkAuthMode_def account_ok_def Let_def)
next
  case (as_path m)
  then show ?thesis
    using assms(1) by (simp add: setVkAnonPath_def account_ok_def)
qed (use account_ok_line [OF assms(1)] account_ok_get [OF assms(1)] in simp_all)

interpretation account_runs: invariant_system "\<lambda>s. s = account_start" "account_step decode" account_ok
  by unfold_locales (simp add: account_start_def account_ok_def, erule account_ok_step)

section \<open>Properties\<close>

text \<open>
  In every reachable state of the account module the stored credentials are complete (link,
  name, password and at least one address, no address empty), and whatever texts the modes
  were set with, the mode is "anonymous" or "account" and the path is "vkcalls" or "legacy".
\<close>

theorem account_state_ok:
  assumes "reach (\<lambda>s. s = account_start) (account_step decode) s"
  shows "(\<forall>l c. ac_creds s l = Some c \<longrightarrow>
        l \<noteq> [] \<and> trim_space l = l \<and> ic_Username c \<noteq> [] \<and> ic_Password c \<noteq> []
        \<and> ic_URLs c \<noteq> [] \<and> [] \<notin> set (ic_URLs c))
     \<and> getVkAuthMode s \<in> {''anonymous'', ''account''} \<and> getVkAnonPath s \<in> {''vkcalls'', ''legacy''}"
  using account_runs.reach_inv [OF assms]
  unfolding account_ok_def getVkAuthMode_def getVkAnonPath_def by auto

theorem account_state_ok_witness:
  "getVkAuthMode (snd (setVkAuthMode '' Account '' account_start)) \<in> {''anonymous'', ''account''}"
proof -
  have "reach (\<lambda>s. s = account_start) (account_step (\<lambda>_. None)) (snd (setVkAuthMode '' Account '' account_start))"
    by (blast intro: reach.intros account_step.intros)
  from account_state_ok [OF this] show ?thesis by blast
qed

text \<open>
  Injected credentials live nine minutes: complete credentials injected for a link are found for
  every spelling of that link with other white space around it up to and including that moment, later they
  are removed, and the entries of other links stay as they are.
\<close>

theorem injected_lifetime:
  assumes "trim_space link \<noteq> []" "user \<noteq> []" "pass \<noteq> []" "turnURLsToAddresses urls \<noteq> []"
    and s': "s' = injectTurnCreds now link user pass urls s"
  shows "(t \<le> now + accountCredsLifetime \<longrightarrow>
           getInjectedTurnCreds t link s' = (Some (user, pass, turnURLsToAddresses urls), s'))
    \<and> (now + accountCredsLifetime < t \<longrightarrow>
           fst (getInjectedTurnCreds t link s') = None
           \<and> ac_creds (snd (getInjectedTurnCreds t link s')) (trim_space link) = None)
    \<and> (\<forall>l. l \<noteq> trim_space link \<longrightarrow>
           ac_creds (snd (getInjectedTurnCreds t link s')) l = ac_creds s l)
    \<and> ac_creds (invalidateInjectedTurnCreds link s') (trim_space link) = None"
  using assms(1-4)
  by (auto simp: s' injectTurnCreds_def getInjectedTurnCreds_def invalidateInjectedTurnCreds_def Let_def)

theorem injected_lifetime_witness:
  "fst (getInjectedTurnCreds (9 * minute) ''abc''
      (injectTurnCreds 0 '' abc '' ''u'' ''p'' [''turn:1.2.3.4:5''] account_start))
    = Some (''u'', ''p'', [''1.2.3.4:5''])"
proof -
  have a: "turnURLsToAddresses [''turn:1.2.3.4:5''] = [''1.2.3.4:5'']" "trim_space '' abc '' = ''abc''"
    "trim_space ''abc'' = ''abc''"
    by code_simp+
  have g: "getInjectedTurnCreds t ''abc'' s = getInjectedTurnCreds t '' abc '' s" for t s
    unfolding getInjectedTurnCreds_def a by (rule refl)
  show ?thesis
    unfolding g
    using injected_lifetime [OF _ _ _ _ refl, of "'' abc ''" "''u''" "''p''" "[''turn:1.2.3.4:5'']" "9 * minute" 0 account_start]
    by (simp add: a accountCredsLifetime_def del: turnURLsToAddresses.simps)
qed

text \<open>
  A waiting request takes the next answer whatever link it was sent for: when nothing is stored for its link, the
  answer for another link gives this request the credentials of that link and stores them for this one; the
  answer "error" ends it as cancelled, and without an answer it ends with the context.
\<close>

theorem account_answer:
  assumes none: "ac_creds s (trim_space link) = None" and link: "trim_space link \<noteq> []"
    and other: "CHR ''|'' \<notin> set other" "\<not> has_prefix (other @ ''|'' @ raw) ''error:''"
    and p: "decode raw = Some p" "pl_User p \<noteq> []" "pl_Pass p \<noteq> []"
    and urls: "turnURLsToAddresses (turnURLsToAddresses (pl_URLs p)) \<noteq> []"
    and r: "r = fetchAccountVkCreds decode now t [''TURN_CREDS|'' @ other @ ''|'' @ raw] ended link s"
  shows "fst r = Inr (pl_User p, pl_Pass p, turnURLsToAddresses (turnURLsToAddresses (pl_URLs p)))
    \<and> (\<exists>c. ac_creds (snd r) (trim_space link) = Some c \<and> ic_Username c = pl_User p)
    \<and> fst (fetchAccountVkCreds decode now t [''TURN_CREDS|error:'' @ raw] ended link s)
        = Inl (ErrText ''VK account auth cancelled'')
    \<and> fst (fetchAccountVkCreds decode now t [] ended link s)
        = Inl (ErrWrap ''VK account auth timeout: '' ended [])"
proof -
  have pre: "trim_prefix (''TURN_CREDS|'' @ x) ''TURN_CREDS|'' = x" for x
    by (simp add: trim_prefix_def del: append.simps)
  have cut: "cut_at (CHR ''|'') (other @ ''|'' @ raw) = Some (other, raw)"
    using other(1) by (simp add: cut_at_Some_iff)
  have ne: "pl_URLs p \<noteq> []"
    using urls by auto
  have get: "getInjectedTurnCreds now link s = (None, s)" "getInjectedTurnCreds now (trim_space link) s = (None, s)"
    by (simp_all add: getInjectedTurnCreds_def none)
  have beg: "request_begin now link s = (None, s\<lparr>ac_result := None\<rparr>)"
    by (simp add: request_begin_def get drainTurnCredsResult_def)
  have line: "handleTurnCredsStdinLine decode t (''TURN_CREDS|'' @ other @ ''|'' @ raw) s1
      = send_payload (p\<lparr>pl_URLs := turnURLsToAddresses (pl_URLs p)\<rparr>)
          (injectTurnCreds t (trim_space other) (pl_User p) (pl_Pass p) (pl_URLs p) s1)" for s1
    unfolding handleTurnCredsStdinLine_def pre Let_def cut using other(2) p ne by simp
  have err: "handleTurnCredsStdinLine decode t (''TURN_CREDS|error:'' @ raw) s1 = send_payload empty_payload s1" for s1
    using pre [of "''error:'' @ raw"] by (simp add: handleTurnCredsStdinLine_def)
  have a: "fst r = Inr (pl_User p, pl_Pass p, turnURLsToAddresses (turnURLsToAddresses (pl_URLs p)))
      \<and> (\<exists>c. ac_creds (snd r) (trim_space link) = Some c \<and> ic_Username c = pl_User p)"
    using p link urls
    by (simp add: r fetchAccountVkCreds_def get beg handle_lines_def line del: append.simps append_Cons)
      (simp add: request_end_def send_payload_def request_received_def injectTurnCreds_def
        getInjectedTurnCreds_def Let_def accountCredsLifetime_def duration_defs)
  have b: "fst (fetchAccountVkCreds decode now t [''TURN_CREDS|error:'' @ raw] ended link s)
      = Inl (ErrText ''VK account auth cancelled'')"
    unfolding fetchAccountVkCreds_def get prod.case option.case beg handle_lines_def fold.simps comp_apply id_apply err
    by (simp add: request_end_def send_payload_def request_received_def empty_payload_def)
  have c: "fst (fetchAccountVkCreds decode now t [] ended link s)
      = Inl (ErrWrap ''VK account auth timeout: '' ended [])"
    by (simp add: fetchAccountVkCreds_def get beg handle_lines_def request_end_def)
  show ?thesis
    using a b c by blast
qed

theorem account_answer_witness:
  "fst (fetchAccountVkCreds
      (\<lambda>_. Some \<lparr>pl_User = ''u'', pl_Pass = ''p'', pl_URLs = [''turn:1.2.3.4:5'']\<rparr>) 0 1
      [''TURN_CREDS|'' @ ''first'' @ ''|'' @ ''e30=''] CtxDeadlineExceeded ''second'' account_start)
    = Inr (''u'', ''p'', [''1.2.3.4:5''])"
proof -
  have a: "turnURLsToAddresses (turnURLsToAddresses [''turn:1.2.3.4:5'']) = [''1.2.3.4:5'']"
    "trim_space ''second'' = ''second''" "\<not> has_prefix (''first'' @ ''|'' @ ''e30='') ''error:''"
    by code_simp+
  show ?thesis
    using account_answer [OF _ _ _ _ _ _ _ _ refl, of account_start "''second''" "''first''" "''e30=''"
        "\<lambda>_. Some \<lparr>pl_User = ''u'', pl_Pass = ''p'', pl_URLs = [''turn:1.2.3.4:5'']\<rparr>"
        "\<lparr>pl_User = ''u'', pl_Pass = ''p'', pl_URLs = [''turn:1.2.3.4:5'']\<rparr>" 0 1 CtxDeadlineExceeded] a
    by (simp add: account_start_def del: turnURLsToAddresses.simps append.simps has_prefix.simps)
qed

end
