(* ===== verification/VkLegacy.thy ===== *)
theory VkLegacy
  imports AccountCreds
begin

text \<open>
  \<^verbatim>\<open>fetchVkCreds\<close> of \<^verbatim>\<open>creds.go\<close> with the legacy path \<^verbatim>\<open>getTokenChain\<close>: five requests, the
  third of which is repeated with captcha answers, and the captcha chain of
  \<^verbatim>\<open>solveCaptchaBySelectedMode\<close>. One attempt of the image solver (\<^verbatim>\<open>solveOnce\<close>) and the web
  view of the app are parameters of the environment. Browser profiles, which only change
  headers, are not modelled.
\<close>

section \<open>State\<close>

record 'w VkState =
  vs_lockout :: int
  vs_captcha_mode :: string
  vs_account :: AccountState
  vs_world :: 'w

text \<open>Seconds since 1970, 62135596800 seconds after Go's zero time\<close>

definition unix_time :: "gotime \<Rightarrow> int" where
  "unix_time t = t div second - 62135596800"

definition in_world :: "('w \<Rightarrow> 'a \<times> 'w) \<Rightarrow> 'w VkState \<Rightarrow> 'a \<times> 'w VkState" where
  "in_world f s = (case f (vs_world s) of (x, w) \<Rightarrow> (x, s\<lparr>vs_world := w\<rparr>))"

definition pause_for :: "'w VkEnv \<Rightarrow> duration \<Rightarrow> 'w VkState \<Rightarrow> 'w VkState" where
  "pause_for v d s = s\<lparr>vs_world := ve_pause v d (vs_world s)\<rparr>"

text \<open>\<^verbatim>\<open>vkDelayRandom\<close>\<close>

definition vkDelayRandom :: "'w VkEnv \<Rightarrow> nat \<Rightarrow> nat \<Rightarrow> 'w VkState \<Rightarrow> 'w VkState" where
  "vkDelayRandom v minMs maxMs s =
     (case in_world (ve_rand v (maxMs - minMs + 1)) s of
        (r, s1) \<Rightarrow> pause_for v (int (minMs + r) * millisecond) s1)"

section \<open>Captcha modes\<close>

definition normalizeCaptchaMode :: "string \<Rightarrow> string" where
  "normalizeCaptchaMode mode =
     (let m = to_lower (trim_space mode) in if m \<in> {''auto'', ''rjs'', ''wv''} then m else ''auto'')"

definition setCaptchaMode :: "string \<Rightarrow> 'w VkState \<Rightarrow> string \<times> 'w VkState" where
  "setCaptchaMode mode s = (normalizeCaptchaMode mode, s\<lparr>vs_captcha_mode := normalizeCaptchaMode mode\<rparr>)"

definition getCaptchaMode :: "'w VkState \<Rightarrow> string" where
  "getCaptchaMode s = (if vs_captcha_mode s = [] then ''auto'' else vs_captcha_mode s)"

definition captchaAutoWebViewTimeout :: duration where
  "captchaAutoWebViewTimeout = 10 * second"

definition captchaManualWebViewTimeout :: duration where
  "captchaManualWebViewTimeout = 60 * second"

definition captchaSelectedWebViewTimeout :: duration where
  "captchaSelectedWebViewTimeout = 120 * second"

section \<open>Captcha solvers\<close>

definition errCaptchaV2RateLimit :: goerr where
  "errCaptchaV2RateLimit = Sentinel ''captcha session rate limit reached''"

definition errCaptchaSessionExpired :: goerr where
  "errCaptchaSessionExpired = Sentinel ''captcha session expired, need fresh challenge''"

definition isCaptchaSessionDead :: "goerr option \<Rightarrow> bool" where
  "isCaptchaSessionDead e =
     (case e of None \<Rightarrow> False
      | Some x \<Rightarrow> (let m = to_lower (err_text x)
                   in contains m ''getcontent status:'' \<or> contains m ''error_limit''))"

definition isCaptchaSessionExhausted :: "goerr option \<Rightarrow> bool" where
  "isCaptchaSessionExhausted e =
     (case e of None \<Rightarrow> False
      | Some x \<Rightarrow> errors_is e errCaptchaV2RateLimit \<or> isCaptchaSessionDead e
                   \<or> contains (to_lower (err_text x)) ''rate limit'')"

fun v2_attempts ::
  "'w VkEnv \<Rightarrow> VkCaptcha \<Rightarrow> nat \<Rightarrow> nat list \<Rightarrow> 'w VkState \<Rightarrow> (goerr + string) \<times> 'w VkState"
where
  "v2_attempts v c limit [] s =
     (Inl (ErrText (''v2 captcha attempts exhausted ('' @ itoa (int limit) @ '')'')), s)"
| "v2_attempts v c limit (attempt # rest) s =
     (case in_world (ve_solve_once v c) s of
        (Inr token, s1) \<Rightarrow> (Inr token, s1)
      | (Inl e, s1) \<Rightarrow>
          if errors_is (Some e) errCaptchaV2RateLimit then (Inl e, s1)
          else
            (case in_world (ve_wait v (int (min attempt 10) * (500 * millisecond))) s1 of
               (Some ce, s2) \<Rightarrow> (Inl ce, s2)
             | (None, s2) \<Rightarrow> v2_attempts v c limit rest s2))"

definition solveVkCaptchaV2Attempts ::
  "'w VkEnv \<Rightarrow> VkCaptcha \<Rightarrow> nat \<Rightarrow> 'w VkState \<Rightarrow> (goerr + string) \<times> 'w VkState"
where
  "solveVkCaptchaV2Attempts v c maxAttempts s =
     (if vc_SessionToken c = [] then (Inl (ErrText ''no session_token in redirect_uri''), s)
      else v2_attempts v c (max 1 maxAttempts) [1..<Suc (max 1 maxAttempts)] s)"

definition webview_result :: "string option \<Rightarrow> goerr + string" where
  "webview_result answer =
     (case answer of
        None \<Rightarrow> Inl (ErrText ''webview captcha timed out'')
      | Some r \<Rightarrow>
          (let result = trim_space r; lowerResult = to_lower result in
           if result = [] then Inl (ErrText ''webview captcha returned empty result'')
           else if lowerResult = ''error:timeout'' then Inl (ErrText ''webview captcha timed out'')
           else if has_prefix lowerResult ''error:'' then
             Inl (ErrText (''webview captcha failed: '' @ result))
           else Inr result))"

definition webview_mode :: "string \<Rightarrow> string" where
  "webview_mode m = (let l = to_lower (trim_space m) in if l \<noteq> ''manual'' \<and> l \<noteq> ''selected'' then ''auto'' else l)"

text \<open>The line that asks the application\<close>

definition solve_line :: "string \<Rightarrow> VkCaptcha \<Rightarrow> string" where
  "solve_line mode c = ''CAPTCHA_SOLVE|'' @ webview_mode mode @ ''|'' @ vc_RedirectURI c @ ''|'' @ vc_SessionToken c"

definition requestWebViewCaptcha ::
  "'w VkEnv \<Rightarrow> VkCaptcha \<Rightarrow> string \<Rightarrow> duration \<Rightarrow> 'w VkState \<Rightarrow> (goerr + string) \<times> 'w VkState"
where
  "requestWebViewCaptcha v c mode timeout s =
     (if vc_RedirectURI c = [] \<or> vc_SessionToken c = [] then
        (Inl (ErrText ''webview captcha data is incomplete''), s)
      else
        (let t = (if timeout \<le> 0 then captchaAutoWebViewTimeout else timeout) in
         (case in_world (ve_webview v (solve_line mode c) t) s of (answer, s1) \<Rightarrow> (webview_result answer, s1))))"

definition isWebViewCaptchaTimeout :: "goerr option \<Rightarrow> bool" where
  "isWebViewCaptchaTimeout e = (case e of None \<Rightarrow> False | Some x \<Rightarrow> contains (to_lower (err_text x)) ''timed out'')"

definition ctx_err :: "'w VkEnv \<Rightarrow> 'w VkState \<Rightarrow> goerr option" where
  "ctx_err v s = ve_ctx v (vs_world s)"

definition markCaptchaSessionExpired :: goerr where
  "markCaptchaSessionExpired = errCaptchaSessionExpired"

text \<open>The mode "rjs": the image solver, then the automatic web view\<close>

definition solve_rjs :: "'w VkEnv \<Rightarrow> VkCaptcha \<Rightarrow> 'w VkState \<Rightarrow> (goerr + string) \<times> 'w VkState" where
  "solve_rjs v c s =
     (case solveVkCaptchaV2Attempts v c 2 s of
        (Inr token, s1) \<Rightarrow> (Inr token, s1)
      | (Inl e, s1) \<Rightarrow>
          if ctx_err v s1 \<noteq> None then (Inl e, s1)
          else if isCaptchaSessionDead (Some e) then (Inl markCaptchaSessionExpired, s1)
          else requestWebViewCaptcha v c ''auto'' captchaAutoWebViewTimeout s1)"

text \<open>
  The attempts of the automatic web view: a token, an error that ends the chain, or the last
  error with which the chain goes on.
\<close>

fun webview_attempts ::
  "'w VkEnv \<Rightarrow> VkCaptcha \<Rightarrow> nat \<Rightarrow> goerr \<Rightarrow> 'w VkState \<Rightarrow> (goerr + string) option \<times> goerr \<times> 'w VkState"
where
  "webview_attempts v c 0 lastErr s = (None, lastErr, s)"
| "webview_attempts v c (Suc n) lastErr s =
     (case requestWebViewCaptcha v c ''auto'' captchaAutoWebViewTimeout s of
        (Inr token, s1) \<Rightarrow> (Some (Inr token), lastErr, s1)
      | (Inl e, s1) \<Rightarrow>
          if ctx_err v s1 \<noteq> None then (Some (Inl e), lastErr, s1)
          else
            (case in_world (ve_rand v 250) s1 of
               (r, s2) \<Rightarrow>
                 (case in_world (ve_wait v (int (250 + r) * millisecond)) s2 of
                    (Some ce, s3) \<Rightarrow> (Some (Inl ce), e, s3)
                  | (None, s3) \<Rightarrow> webview_attempts v c n e s3)))"

definition solve_last :: "'w VkEnv \<Rightarrow> VkCaptcha \<Rightarrow> 'w VkState \<Rightarrow> (goerr + string) \<times> 'w VkState" where
  "solve_last v c s =
     (case solveVkCaptchaV2Attempts v c 1 s of
        (Inr token, s1) \<Rightarrow> (Inr token, s1)
      | (Inl e, s1) \<Rightarrow>
          if ctx_err v s1 \<noteq> None then (Inl e, s1)
          else
            (case requestWebViewCaptcha v c ''manual'' captchaManualWebViewTimeout s1 of
               (Inr token, s2) \<Rightarrow> (Inr token, s2)
             | (Inl e2, s2) \<Rightarrow>
                 (Inl (ErrWrap ''automatic captcha chain failed: '' e
                   (''; manual fallback failed: '' @ err_text e2)), s2)))"

definition solve_auto :: "'w VkEnv \<Rightarrow> VkCaptcha \<Rightarrow> 'w VkState \<Rightarrow> (goerr + string) \<times> 'w VkState" where
  "solve_auto v c s =
     (case solveVkCaptchaV2Attempts v c 2 s of
        (Inr token, s1) \<Rightarrow> (Inr token, s1)
      | (Inl e, s1) \<Rightarrow>
          if ctx_err v s1 \<noteq> None then (Inl e, s1)
          else if isCaptchaSessionDead (Some e) then (Inl markCaptchaSessionExpired, s1)
          else
            (case webview_attempts v c 2 e s1 of
               (Some r, lastErr, s2) \<Rightarrow> (r, s2)
             | (None, lastErr, s2) \<Rightarrow> solve_last v c s2))"

definition solveCaptchaBySelectedMode ::
  "'w VkEnv \<Rightarrow> VkCaptcha \<Rightarrow> 'w VkState \<Rightarrow> (goerr + string) \<times> 'w VkState"
where
  "solveCaptchaBySelectedMode v c s =
     (if getCaptchaMode s = ''wv'' then
        requestWebViewCaptcha v c ''selected'' captchaSelectedWebViewTimeout s
      else if getCaptchaMode s = ''rjs'' then solve_rjs v c s
      else solve_auto v c s)"

section \<open>The legacy chain of requests\<close>

record VKCredentials =
  ClientID :: string
  ClientSecret :: string

definition vkCredentialsList :: "VKCredentials list" where
  "vkCredentialsList =
     [\<lparr>ClientID = ''6287487'', ClientSecret = ''MuAxFaKDYDOICzGnEOhp''\<rparr>,
      \<lparr>ClientID = ''8202606'', ClientSecret = ''lMRsTiMCyPnp5vfoldmn''\<rparr>]"

definition vkCredentialAttemptLimit :: nat where
  "vkCredentialAttemptLimit = 4"

definition legacy_request ::
  "'w VkEnv \<Rightarrow> string \<Rightarrow> string \<Rightarrow> 'w VkState \<Rightarrow> (goerr + jmap) \<times> 'w VkState"
where
  "legacy_request v data url s =
     (case in_world (ve_http v data url) s of
        (r, s1) \<Rightarrow>
          ((case r of
              BadRequest e \<Rightarrow> Inl e
            | NoReply e \<Rightarrow> Inl e
            | NoBody e \<Rightarrow> Inl e
            | BadJson e body \<Rightarrow> Inl e
            | JsonReply m \<Rightarrow> Inr m), s1))"

definition text_error :: "string \<Rightarrow> goerr + 'a" where
  "text_error t = Inl (ErrText t)"

definition str_field :: "string \<Rightarrow> jmap \<Rightarrow> string \<Rightarrow> goerr + string" where
  "str_field msg m k = (case as_str (jget m k) of Some x \<Rightarrow> Inr x | None \<Rightarrow> text_error msg)"

definition obj_field :: "string \<Rightarrow> jmap \<Rightarrow> string \<Rightarrow> goerr + jmap" where
  "obj_field msg m k = (case as_obj (jget m k) of Some x \<Rightarrow> Inr x | None \<Rightarrow> text_error msg)"

definition shown :: "'w VkEnv \<Rightarrow> jmap \<Rightarrow> string" where
  "shown v m = show_json (ve_fmt v) (JObj m)"

definition tc_anonymous_token ::
  "'w VkEnv \<Rightarrow> VKCredentials \<Rightarrow> 'w VkState \<Rightarrow> (goerr + string) \<times> 'w VkState"
where
  "tc_anonymous_token v creds =
     bindE
       (legacy_request v
         (''client_id='' @ ClientID creds @ ''&token_type=messages&client_secret='' @ ClientSecret creds @
          ''&version=1&app_id='' @ ClientID creds)
         ''https://login.vk.ru/?act=get_anonym_token'')
       (\<lambda>resp. bindE (withE (obj_field (''unexpected anon token response: '' @ shown v resp) resp ''data'')) (\<lambda>m.
          withE (str_field (''missing access_token in response: '' @ shown v resp) m ''access_token'')))"

definition join_link :: "string \<Rightarrow> string" where
  "join_link link = ''vk_join_link=https://vk.com/call/join/'' @ link"

text \<open>A failed preview is only logged; a reply that says the call is gone ends the chain.\<close>

definition tc_preview ::
  "'w VkEnv \<Rightarrow> string \<Rightarrow> VKCredentials \<Rightarrow> string \<Rightarrow> 'w VkState \<Rightarrow> (goerr + unit) \<times> 'w VkState"
where
  "tc_preview v link creds token1 s =
     (case legacy_request v
             (join_link link @ ''&fields=photo_200&access_token='' @ token1)
             (''https://api.vk.ru/method/calls.getCallPreview?v=5.275&client_id='' @ ClientID creds) s of
        (Inl e, s1) \<Rightarrow> (Inr (), s1)
      | (Inr resp, s1) \<Rightarrow>
          (case fatalCallError resp of Some ce \<Rightarrow> (Inl ce, s1) | None \<Rightarrow> (Inr (), s1)))"

definition original_data :: "'w VkEnv \<Rightarrow> string \<Rightarrow> string \<Rightarrow> string" where
  "original_data v link token1 =
     join_link link @ ''&name='' @ query_escape (ve_name v) @ ''&access_token='' @ token1"

definition captcha_data :: "'w VkEnv \<Rightarrow> string \<Rightarrow> string \<Rightarrow> VkCaptcha \<Rightarrow> string \<Rightarrow> string" where
  "captcha_data v link token1 c successToken =
     (let attempt = (if vc_CaptchaAttempt c = ''0'' \<or> vc_CaptchaAttempt c = [] then ''1'' else vc_CaptchaAttempt c) in
      join_link link @ ''&name='' @ query_escape (ve_name v) @ ''&captcha_key=&captcha_sid='' @ vc_CaptchaSid c @
      ''&is_sound_captcha=0&success_token='' @ query_escape successToken @ ''&captcha_ts='' @ vc_CaptchaTs c @
      ''&captcha_attempt='' @ attempt @ ''&access_token='' @ token1)"

definition captcha_wait_required :: goerr where
  "captcha_wait_required = ErrText ''CAPTCHA_WAIT_REQUIRED''"

definition lock_captcha :: "'w VkEnv \<Rightarrow> 'w VkState \<Rightarrow> 'w VkState" where
  "lock_captcha v s = s\<lparr>vs_lockout := unix_time (ve_now v (vs_world s) + 60 * second)\<rparr>"

text \<open>The third request, repeated with captcha answers\<close>

function anonymous_call_token ::
  "'w VkEnv \<Rightarrow> string \<Rightarrow> VKCredentials \<Rightarrow> string \<Rightarrow> nat \<Rightarrow> string \<Rightarrow> 'w VkState \<Rightarrow>
   (goerr + string) \<times> 'w VkState"
where
  "anonymous_call_token v link creds token1 attempt data s =
     (case legacy_request v data
             (''https://api.vk.ru/method/calls.getAnonymousToken?v=5.275&client_id='' @ ClientID creds) s of
        (Inl e, s1) \<Rightarrow> (Inl e, s1)
      | (Inr resp, s1) \<Rightarrow>
          (case as_obj (jget resp ''error'') of
             Some errObj \<Rightarrow>
               (case fatalCallError resp of
                  Some ce \<Rightarrow> (Inl ce, s1)
                | None \<Rightarrow>
                    (let c = parseVkCaptchaError (ve_session_token v) errObj in
                     if vc_RedirectURI c \<noteq> [] \<and> vc_SessionToken c \<noteq> [] then
                       if attempt \<ge> 3 then (Inl captcha_wait_required, lock_captcha v s1)
                       else
                         (case solveCaptchaBySelectedMode v c s1 of
                            (Inl e, s2) \<Rightarrow>
                              if errors_is (Some e) errCaptchaSessionExpired then
                                anonymous_call_token v link creds token1 (Suc attempt)
                                  (original_data v link token1) (vkDelayRandom v 800 1500 s2)
                              else (Inl captcha_wait_required, lock_captcha v s2)
                          | (Inr successToken, s2) \<Rightarrow>
                              anonymous_call_token v link creds token1 (Suc attempt)
                                (captcha_data v link token1 c successToken) s2)
                     else (text_error (''VK API error: '' @ shown v errObj), s1)))
           | None \<Rightarrow>
               (case as_obj (jget resp ''response'') of
                  None \<Rightarrow> (text_error (''unexpected getAnonymousToken response: '' @ shown v resp), s1)
                | Some m \<Rightarrow>
                    (str_field (''missing token in response: '' @ shown v resp) m ''token'', s1))))"
  by pat_completeness auto
termination
  by (relation "measure (\<lambda>(v, link, creds, token1, attempt, data, s). 3 - attempt)") auto

declare anonymous_call_token.simps [simp del]

definition tc_session_key :: "'w VkEnv \<Rightarrow> 'w VkState \<Rightarrow> (goerr + string) \<times> 'w VkState" where
  "tc_session_key v =
     bindE
       (legacy_request v
         (''session_data='' @
          query_escape (''{'' @ dq @ ''version'' @ dq @ '':2,'' @ dq @ ''device_id'' @ dq @ '':'' @ dq @
            ve_ok_device v @ dq @ '','' @ dq @ ''client_version'' @ dq @ '':1.1,'' @ dq @ ''client_type'' @ dq @
            '':'' @ dq @ ''SDK_JS'' @ dq @ ''}'') @
          ''&method=auth.anonymLogin&format=JSON&application_key='' @ ok_application_key)
         ''https://calls.okcdn.ru/fb.do'')
       (\<lambda>resp. withE (str_field (''missing session_key in response: '' @ shown v resp) resp ''session_key''))"

definition tc_addresses :: "json list \<Rightarrow> string list" where
  "tc_addresses urls = concat (map (\<lambda>u. turnURLsToAddresses [u]) (List.map_filter as_str urls))"

definition tc_join ::
  "'w VkEnv \<Rightarrow> string \<Rightarrow> string \<Rightarrow> string \<Rightarrow> 'w VkState \<Rightarrow> (goerr + grant) \<times> 'w VkState"
where
  "tc_join v link token2 token3 =
     bindE
       (legacy_request v
         (''joinLink='' @ link @ ''&isVideo=false&protocolVersion=5&capabilities=2F7F&anonymToken='' @ token2 @
          ''&method=vchat.joinConversationByLink&format=JSON&application_key='' @ ok_application_key @
          ''&session_key='' @ token3)
         ''https://calls.okcdn.ru/fb.do'')
       (\<lambda>resp. bindE (withE (obj_field (''missing turn_server in response: '' @ shown v resp) resp ''turn_server'')) (\<lambda>m.
          bindE (withE (str_field ''missing username in turn_server'' m ''username'')) (\<lambda>user.
            bindE (withE (str_field ''missing credential in turn_server'' m ''credential'')) (\<lambda>pass.
              withE
                (case as_arr (jget m ''urls'') of
                   None \<Rightarrow> text_error ''missing or empty urls in turn_server''
                 | Some urls \<Rightarrow>
                     if urls = [] then text_error ''missing or empty urls in turn_server''
                     else if tc_addresses urls = [] then text_error ''no valid TURN addresses found''
                     else Inr (user, pass, tc_addresses urls))))))"

definition getTokenChain ::
  "'w VkEnv \<Rightarrow> string \<Rightarrow> VKCredentials \<Rightarrow> 'w VkState \<Rightarrow> (goerr + grant) \<times> 'w VkState"
where
  "getTokenChain v link creds s =
     (case ve_client v of
        Some e \<Rightarrow> (Inl (ErrWrap ''failed to initialize tls_client: '' e []), s)
      | None \<Rightarrow>
          bindE (tc_anonymous_token v creds) (\<lambda>token1 s1.
            bindE (tc_preview v link creds token1) (\<lambda>_ s2.
              bindE (\<lambda>s3. anonymous_call_token v link creds token1 0 (original_data v link token1) s3) (\<lambda>token2 s4.
                bindE (tc_session_key v) (\<lambda>token3 s5.
                  tc_join v link token2 token3 (vkDelayRandom v 100 150 s5))
                (vkDelayRandom v 100 150 s4))
              (vkDelayRandom v 200 400 s2))
            (vkDelayRandom v 100 150 s1)) s)"

section \<open>fetchVkCreds\<close>

text \<open>\<open>retry\<close> holds the attempts still to be made, \<open>lastErr\<close> the error of the one before.\<close>

fun fetch_attempts ::
  "'w VkEnv \<Rightarrow> string \<Rightarrow> nat list \<Rightarrow> goerr option \<Rightarrow> 'w VkState \<Rightarrow> (goerr + grant) \<times> 'w VkState"
where
  "fetch_attempts v link [] lastErr s =
     (Inl (case lastErr of
             Some e \<Rightarrow> ErrWrap ''all VK credentials failed: '' e []
           | None \<Rightarrow> ErrText ''all VK credentials failed: %!w(<nil>)''), s)"
| "fetch_attempts v link (attempt # rest) lastErr s =
     (case getTokenChain v link (vkCredentialsList ! (attempt mod length vkCredentialsList)) s of
        (Inr g, s1) \<Rightarrow> (Inr g, s1)
      | (Inl e, s1) \<Rightarrow>
          (case asCallUnavailableError (Some e) of
             Some ce \<Rightarrow> (Inl ce, s1)
           | None \<Rightarrow>
               if contains (err_text e) ''CAPTCHA_WAIT_REQUIRED'' \<or> contains (err_text e) ''FATAL_CAPTCHA''
               then (Inl e, s1)
               else if attempt mod length vkCredentialsList = length vkCredentialsList - 1
                       \<and> attempt + 1 < vkCredentialAttemptLimit then
                 (case in_world (ve_rand v 900) s1 of
                    (r, s2) \<Rightarrow>
                      (case in_world (ve_wait v (int (900 + r) * millisecond)) s2 of
                         (Some ce, s3) \<Rightarrow> (Inl ce, s3)
                       | (None, s3) \<Rightarrow> fetch_attempts v link rest (Some e) s3))
               else fetch_attempts v link rest (Some e) s1))"

definition fetch_legacy :: "'w VkEnv \<Rightarrow> string \<Rightarrow> 'w VkState \<Rightarrow> (goerr + grant) \<times> 'w VkState" where
  "fetch_legacy v link s = fetch_attempts v link [0..<vkCredentialAttemptLimit] None s"

text \<open>
  The account path: what happens while it waits (the time, the lines from the app, the error
  of the context) comes from \<open>app\<close>.
\<close>

definition fetch_account ::
  "(string \<Rightarrow> turnCredsPayload option) \<Rightarrow> ('w \<Rightarrow> (gotime \<times> string list \<times> goerr) \<times> 'w) \<Rightarrow>
   'w VkEnv \<Rightarrow> string \<Rightarrow> 'w VkState \<Rightarrow> (goerr + grant) \<times> 'w VkState"
where
  "fetch_account decode app v link s =
     (let now = ve_now v (vs_world s) in
      case in_world app s of
        ((t, lines, ended), s1) \<Rightarrow>
          (case fetchAccountVkCreds decode now t lines ended link (vs_account s1) of
             (r, a) \<Rightarrow> (r, s1\<lparr>vs_account := a\<rparr>)))"

definition fetchVkCreds ::
  "(string \<Rightarrow> turnCredsPayload option) \<Rightarrow> ('w \<Rightarrow> (gotime \<times> string list \<times> goerr) \<times> 'w) \<Rightarrow> bool \<Rightarrow>
   'w VkEnv \<Rightarrow> string \<Rightarrow> 'w VkState \<Rightarrow> (goerr + grant) \<times> 'w VkState"
where
  "fetchVkCreds decode app skip v link s =
     (if getVkAuthMode (vs_account s) = ''account'' then fetch_account decode app v link s
      else if unix_time (ve_now v (vs_world s)) < vs_lockout s then
        (Inl (ErrText ''CAPTCHA_WAIT_REQUIRED: global lockout active''), s)
      else if getVkAnonPath (vs_account s) = ''vkcalls'' then
        (case in_world (getVKCredsViaVKCallsPath skip v link) s of
           (Inr g, s1) \<Rightarrow> (Inr g, s1)
         | (Inl e, s1) \<Rightarrow>
             (case asCallUnavailableError (Some e) of
                Some ce \<Rightarrow> (Inl ce, s1)
              | None \<Rightarrow>
                  if IsFloodControl (Some e) then (Inl (FloodControlError (Some e) 0), s1)
                  else fetch_legacy v link s1))
      else fetch_legacy v link s)"

section \<open>What the solvers leave alone\<close>

text \<open>
  \<open>cnt\<close> measures the world. The environment is quiet for a measure when, apart from requests to VK, only the image solver
  can raise it, by at most \<open>k\<close> for one attempt. \<open>steady cnt n\<close> relates two states that differ in the world only,
  where the measure has grown by at most \<open>n\<close>.
\<close>

definition quiet_env :: "('w \<Rightarrow> nat) \<Rightarrow> nat \<Rightarrow> 'w VkEnv \<Rightarrow> bool" where
  "quiet_env cnt k v \<longleftrightarrow>
     (\<forall>n w. cnt (snd (ve_rand v n w)) = cnt w) \<and> (\<forall>d w. cnt (snd (ve_wait v d w)) = cnt w)
     \<and> (\<forall>d w. cnt (ve_pause v d w) = cnt w) \<and> (\<forall>c w. cnt (snd (ve_solve_once v c w)) \<le> cnt w + k)
     \<and> (\<forall>l t w. cnt (snd (ve_webview v l t w)) = cnt w)"

definition steady :: "('w \<Rightarrow> nat) \<Rightarrow> nat \<Rightarrow> 'w VkState \<Rightarrow> 'w VkState \<Rightarrow> bool" where
  "steady cnt n s s' \<longleftrightarrow>
     vs_lockout s' = vs_lockout s \<and> vs_captcha_mode s' = vs_captcha_mode s \<and> vs_account s' = vs_account s
     \<and> cnt (vs_world s') \<le> cnt (vs_world s) + n"

lemma steady_refl [simp]: "steady cnt n s s"
  by (simp add: steady_def)

lemma steady_trans: "steady cnt a s t \<Longrightarrow> steady cnt b t u \<Longrightarrow> a + b \<le> n \<Longrightarrow> steady cnt n s u"
  by (simp add: steady_def)

lemma steady_mono: "steady cnt a s t \<Longrightarrow> a \<le> n \<Longrightarrow> steady cnt n s t"
  by (simp add: steady_def)

lemma steady_in_world: "in_world f s = (x, s') \<Longrightarrow> (\<And>w. cnt (snd (f w)) \<le> cnt w + n) \<Longrightarrow> steady cnt n s s'"
  by (cases "f (vs_world s)") (auto simp: in_world_def steady_def dest: meta_spec [of _ "vs_world s"])

lemma steady_env:
  assumes "quiet_env cnt k v"
  shows "in_world (ve_rand v n) s = (r, s') \<Longrightarrow> steady cnt 0 s s'"
    "in_world (ve_wait v d) s = (o1, s') \<Longrightarrow> steady cnt 0 s s'"
    "in_world (ve_solve_once v c) s = (o2, s') \<Longrightarrow> steady cnt k s s'"
    "in_world (ve_webview v l t) s = (o3, s') \<Longrightarrow> steady cnt 0 s s'"
    "steady cnt 0 s (pause_for v d s)"
proof -
  show "in_world (ve_rand v n) s = (r, s') \<Longrightarrow> steady cnt 0 s s'"
    by (erule steady_in_world) (use assms in \<open>simp add: quiet_env_def\<close>)
  show "in_world (ve_wait v d) s = (o1, s') \<Longrightarrow> steady cnt 0 s s'"
    by (erule steady_in_world) (use assms in \<open>simp add: quiet_env_def\<close>)
  show "in_world (ve_solve_once v c) s = (o2, s') \<Longrightarrow> steady cnt k s s'"
    by (erule steady_in_world) (use assms in \<open>simp add: quiet_env_def\<close>)
  show "in_world (ve_webview v l t) s = (o3, s') \<Longrightarrow> steady cnt 0 s s'"
    by (erule steady_in_world) (use assms in \<open>simp add: quiet_env_def\<close>)
  show "steady cnt 0 s (pause_for v d s)"
    using assms by (simp add: quiet_env_def pause_for_def steady_def)
qed

lemma steady_delay: "quiet_env cnt k v \<Longrightarrow> steady cnt 0 s (vkDelayRandom v a b s)"
  by (auto simp: vkDelayRandom_def split: prod.splits intro: steady_trans [where a = 0 and b = 0] steady_env)

lemma steady_v2_attempts:
  "quiet_env cnt k v \<Longrightarrow> v2_attempts v c n as s = (r, s') \<Longrightarrow> steady cnt (length as * k) s s'"
proof (induction as arbitrary: s)
  case (Cons a as)
  obtain o1 s1 where 1: "in_world (ve_solve_once v c) s = (o1, s1)"
    by (cases "in_world (ve_solve_once v c) s")
  obtain o2 s2 where 2: "in_world (ve_wait v (int (min a 10) * (500 * millisecond))) s1 = (o2, s2)"
    by (cases "in_world (ve_wait v (int (min a 10) * (500 * millisecond))) s1")
  have s: "steady cnt k s s1" "steady cnt 0 s1 s2"
    using steady_env [OF Cons.prems(1)] 1 2 by blast+
  then have s2: "steady cnt k s s2"
    using steady_trans by fastforce
  have "s' = s1 \<or> s' = s2 \<or> v2_attempts v c n as s2 = (r, s')"
    using Cons.prems(2) by (auto simp: 1 2 split: sum.splits option.splits if_splits)
  then show ?case
    using s(1) s2 Cons.IH [OF Cons.prems(1), of s2]
      steady_mono [of cnt k s _ "length (a # as) * k"] steady_trans [of cnt k s s2 "length as * k" s' "length (a # as) * k"]
    by auto
qed simp

lemma steady_v2:
  "quiet_env cnt k v \<Longrightarrow> solveVkCaptchaV2Attempts v c n s = (r, s') \<Longrightarrow> steady cnt (max 1 n * k) s s'"
  using steady_v2_attempts [of cnt k v c "max 1 n" "[1..<Suc (max 1 n)]" s r s']
  by (auto simp: solveVkCaptchaV2Attempts_def simp del: upt_Suc split: if_splits)

lemma steady_webview: "quiet_env cnt k v \<Longrightarrow> requestWebViewCaptcha v c m t s = (r, s') \<Longrightarrow> steady cnt 0 s s'"
  by (auto simp: requestWebViewCaptcha_def Let_def split: if_splits prod.splits intro: steady_env)

lemma steady_webview_attempts:
  "quiet_env cnt k v \<Longrightarrow> webview_attempts v c n e s = (r, e', s') \<Longrightarrow> steady cnt 0 s s'"
proof (induction n arbitrary: e s)
  case (Suc n)
  obtain o1 s1 where 1: "requestWebViewCaptcha v c ''auto'' captchaAutoWebViewTimeout s = (o1, s1)"
    by (cases "requestWebViewCaptcha v c ''auto'' captchaAutoWebViewTimeout s")
  obtain x s2 where 2: "in_world (ve_rand v 250) s1 = (x, s2)"
    by (cases "in_world (ve_rand v 250) s1")
  obtain o3 s3 where 3: "in_world (ve_wait v ((250 + int x) * millisecond)) s2 = (o3, s3)"
    by (cases "in_world (ve_wait v ((250 + int x) * millisecond)) s2")
  have s: "steady cnt 0 s s1" "steady cnt 0 s1 s2" "steady cnt 0 s2 s3"
    using steady_webview [OF Suc.prems(1) 1] steady_env [OF Suc.prems(1)] 2 3 by blast+
  then have s3: "steady cnt 0 s s3"
    by (simp add: steady_def)
  have "s' = s1 \<or> s' = s3 \<or> (\<exists>e1. webview_attempts v c n e1 s3 = (r, e', s'))"
    using Suc.prems(2) by (auto simp: 1 2 3 split: sum.splits option.splits if_splits)
  then show ?case
    using s(1) s3 Suc.IH [OF Suc.prems(1), of _ s3] steady_trans [of cnt 0 s s3 0 s' 0] by auto
qed simp

text \<open>The modes make at most three attempts of the image solver.\<close>

lemma steady_last:
  assumes "quiet_env cnt k v" "solve_last v c s = (r, s')"
  shows "steady cnt k s s'"
  using assms(2) by (auto simp: solve_last_def steady_def split: prod.splits sum.splits if_splits
      dest!: steady_v2 [OF assms(1)] steady_webview [OF assms(1)])

lemma steady_solve:
  assumes "quiet_env cnt k v" "solveCaptchaBySelectedMode v c s = (r, s')"
  shows "steady cnt (3 * k) s s'"
proof -
  have "solve_rjs v c s = (r, s') \<Longrightarrow> steady cnt (3 * k) s s'"
    by (auto simp: solve_rjs_def steady_def split: prod.splits sum.splits if_splits
        dest!: steady_v2 [OF assms(1)] steady_webview [OF assms(1)])
  moreover have "solve_auto v c s = (r, s') \<Longrightarrow> steady cnt (3 * k) s s'"
    by (auto simp: solve_auto_def steady_def split: prod.splits sum.splits if_splits option.splits
        dest!: steady_v2 [OF assms(1)] steady_webview_attempts [OF assms(1)] steady_last [OF assms(1)])
  moreover have "requestWebViewCaptcha v c m t s = (r, s') \<Longrightarrow> steady cnt (3 * k) s s'" for m t
    using steady_webview [OF assms(1)] steady_mono by blast
  ultimately show ?thesis
    using assms by (auto simp: solveCaptchaBySelectedMode_def split: if_splits)
qed

section \<open>Properties\<close>

text \<open>Effects of the third request\<close>

lemma legacy_request_steady:
  assumes "legacy_request v d u s = (r, s')"
  shows "vs_lockout s' = vs_lockout s \<and> vs_captcha_mode s' = vs_captcha_mode s \<and> vs_account s' = vs_account s
    \<and> vs_world s' = snd (ve_http v d u (vs_world s))"
  using assms by (auto simp: legacy_request_def in_world_def split: prod.splits)

text \<open>A measure that each request raises by one, each attempt of the image solver by at most \<open>k\<close>, and nothing else\<close>

definition counts_requests :: "('w \<Rightarrow> nat) \<Rightarrow> nat \<Rightarrow> 'w VkEnv \<Rightarrow> bool" where
  "counts_requests cnt k v \<longleftrightarrow>
     quiet_env cnt k v \<and> (\<forall>d u w. cnt (snd (ve_http v d u w)) = Suc (cnt w))"

text \<open>\<open>moved cnt n s s'\<close>: at most \<open>n\<close> requests lie between the states, and the settings are the same.\<close>

definition moved :: "('w \<Rightarrow> nat) \<Rightarrow> nat \<Rightarrow> 'w VkState \<Rightarrow> 'w VkState \<Rightarrow> bool" where
  "moved cnt n s s' \<longleftrightarrow>
     vs_captcha_mode s' = vs_captcha_mode s \<and> vs_account s' = vs_account s
     \<and> cnt (vs_world s') \<le> cnt (vs_world s) + n"

lemma moved_steady: "steady cnt n s s' \<Longrightarrow> moved cnt n s s'"
  by (simp add: moved_def steady_def)

lemma moved_trans: "moved cnt m s t \<Longrightarrow> moved cnt n t u \<Longrightarrow> m + n \<le> k \<Longrightarrow> moved cnt k s u"
  by (simp add: moved_def)

lemma moved_request:
  "counts_requests cnt k v \<Longrightarrow> legacy_request v d u s = (r, s') \<Longrightarrow> moved cnt 1 s s'"
  using legacy_request_steady [of v d u s r s'] by (simp add: counts_requests_def moved_def)

lemma moved_lock: "moved cnt n s s' \<Longrightarrow> moved cnt n s (lock_captcha v s')"
  by (simp add: moved_def lock_captcha_def)

lemma moved_refl [simp]: "moved cnt n s s"
  by (simp add: moved_def)

text \<open>One round of the third request: it ends, it locks captchas out, or it is repeated.\<close>

lemma anonymous_round:
  assumes "anonymous_call_token v link creds t1 attempt data s = (r, s')"
  obtains (Stop) q where "legacy_request v data
      (''https://api.vk.ru/method/calls.getAnonymousToken?v=5.275&client_id='' @ ClientID creds) s = (q, s')"
  | (Lock) q s1 s2 where "legacy_request v data
      (''https://api.vk.ru/method/calls.getAnonymousToken?v=5.275&client_id='' @ ClientID creds) s = (q, s1)"
      "\<And>cnt k. quiet_env cnt k v \<Longrightarrow> steady cnt (if attempt < 3 then 3 * k else 0) s1 s2" "s' = lock_captcha v s2" "r = Inl captcha_wait_required"
  | (Again) q s1 s2 data' where "legacy_request v data
      (''https://api.vk.ru/method/calls.getAnonymousToken?v=5.275&client_id='' @ ClientID creds) s = (q, s1)"
      "\<And>cnt k. quiet_env cnt k v \<Longrightarrow> steady cnt (3 * k) s1 s2" "attempt < 3"
      "anonymous_call_token v link creds t1 (Suc attempt) data' s2 = (r, s')"
proof -
  obtain q s1 where rq: "legacy_request v data
      (''https://api.vk.ru/method/calls.getAnonymousToken?v=5.275&client_id='' @ ClientID creds) s = (q, s1)"
    by (metis surj_pair)
  show thesis
  proof (cases q)
    case (Inl e)
    with assms rq Stop show ?thesis
      by (subst (asm) anonymous_call_token.simps) (auto simp: rq)
  next
    case (Inr resp)
    note eq = assms [unfolded anonymous_call_token.simps [of v link creds t1 attempt] rq Inr prod.case sum.case]
    show ?thesis
    proof (cases "as_obj (jget resp ''error'')")
      case None
      with eq have "s' = s1"
        by (auto split: option.splits)
      with rq Stop show ?thesis by blast
    next
      case (Some errObj)
      let ?c = "parseVkCaptchaError (ve_session_token v) errObj"
      obtain o2 s2 where sv: "solveCaptchaBySelectedMode v ?c s1 = (o2, s2)"
        by (metis surj_pair)
      have st: "\<And>cnt k. quiet_env cnt k v \<Longrightarrow> steady cnt (3 * k) s1 s2"
        using steady_solve sv by blast
      have st2: "\<And>cnt k. quiet_env cnt k v \<Longrightarrow> steady cnt (3 * k) s1 (vkDelayRandom v 800 1500 s2)"
        using st steady_delay by (metis steady_trans add_0_right order_refl)
      consider (a) "s' = s1"
        | (b) "s' = lock_captcha v s1" "r = Inl captcha_wait_required"
        | (c) "attempt < 3" "s' = lock_captcha v s2" "r = Inl captcha_wait_required"
        | (d) "attempt < 3" "anonymous_call_token v link creds t1 (Suc attempt)
                 (original_data v link t1) (vkDelayRandom v 800 1500 s2) = (r, s')"
        | (e) tok where "attempt < 3" "anonymous_call_token v link creds t1 (Suc attempt)
                 (captcha_data v link t1 ?c tok) s2 = (r, s')"
      proof -
        show ?thesis
        proof (cases "fatalCallError resp = None \<and> vc_RedirectURI ?c \<noteq> [] \<and> vc_SessionToken ?c \<noteq> []")
          case False
          then have "s' = s1"
            using eq by (cases "fatalCallError resp"; cases "vc_RedirectURI ?c = []") (simp_all add: Some Let_def)
          then show ?thesis by (rule a)
        next
          case True
          show ?thesis
          proof (cases "attempt \<ge> 3")
            case True': True
            then have "r = Inl captcha_wait_required" "s' = lock_captcha v s1"
              using eq True by (simp_all add: Some Let_def)
            then show ?thesis using b by blast
          next
            case False
            note eq2 = eq [unfolded Some option.case Let_def sv prod.case]
            show ?thesis
            proof (cases o2)
              case (Inl e)
              show ?thesis
              proof (cases "errors_is (Some e) errCaptchaSessionExpired")
                case exp: True
                from eq2 True False exp have "anonymous_call_token v link creds t1 (Suc attempt)
                    (original_data v link t1) (vkDelayRandom v 800 1500 s2) = (r, s')"
                  by (simp add: Inl)
                with False d show ?thesis by simp
              next
                case exp: False
                from eq2 True False exp have "r = Inl captcha_wait_required" "s' = lock_captcha v s2"
                  by (simp_all add: Inl)
                with c False show ?thesis by simp
              qed
            next
              case (Inr tok)
              from eq2 True False have "anonymous_call_token v link creds t1 (Suc attempt)
                  (captcha_data v link t1 ?c tok) s2 = (r, s')"
                by (simp add: Inr)
              with False e [of tok] show ?thesis by simp
            qed
          qed
        qed
      qed
      then show ?thesis
      proof cases
        case a
        with rq Stop show ?thesis by blast
      next
        case b
        from Lock [OF rq _ b] show ?thesis by simp
      next
        case c
        from Lock [OF rq _ c(2,3)] st c(1) show ?thesis by simp
      next
        case d
        from Again [OF rq st2 d] show ?thesis .
      next
        case e
        from Again [OF rq st e] show ?thesis .
      qed
    qed
  qed
qed

lemma anonymous_call_token_moved:
  assumes cnt: "counts_requests cnt k v"
  shows "anonymous_call_token v link creds t1 attempt data s = (r, s') \<Longrightarrow>
    moved cnt (Suc (3 - attempt) + 3 * k * (3 - attempt)) s s'"
proof (induction "3 - attempt" arbitrary: attempt data s rule: less_induct)
  case less
  have q: "quiet_env cnt k v"
    using cnt by (simp add: counts_requests_def)
  from less.prems show ?case
  proof (cases rule: anonymous_round)
    case (Stop p)
    from moved_trans [OF moved_request [OF cnt Stop] moved_refl [of cnt 0]] show ?thesis by simp
  next
    case (Lock p s1 s2)
    let ?n = "if attempt < 3 then 3 * k else 0"
    have "moved cnt (Suc ?n) s s2"
      using moved_trans [OF moved_request [OF cnt Lock(1)] moved_steady [OF Lock(2) [OF q]], of "Suc ?n"] by simp
    moreover have "?n \<le> 3 * k * (3 - attempt)"
    proof (cases "attempt < 3")
      case True
      then have "1 \<le> 3 - attempt"
        by linarith
      then show ?thesis
        using True mult_le_mono2 [of 1 "3 - attempt" "3 * k"] by simp
    qed simp
    ultimately show ?thesis
      unfolding Lock(3) by (intro moved_lock) (simp add: moved_def split: if_splits)
  next
    case (Again p s1 s2 data')
    obtain rest where rest: "3 - attempt = Suc rest" "3 - Suc attempt = rest"
      using Again(3) by (metis Suc_diff_Suc)
    have "3 - Suc attempt < 3 - attempt"
      using Again(3) by linarith
    from less.hyps [OF this Again(4)] have "moved cnt (Suc rest + 3 * k * rest) s2 s'"
      unfolding rest(2) .
    moreover have "moved cnt (Suc (3 * k)) s s2"
      using moved_trans [OF moved_request [OF cnt Again(1)] moved_steady [OF Again(2) [OF q]], of "Suc (3 * k)"] by simp
    ultimately show ?thesis
      using moved_trans [of cnt "Suc (3 * k)" s s2 "Suc rest + 3 * k * rest" s' "Suc (Suc rest) + 3 * k * Suc rest"]
      by (simp add: rest algebra_simps)
  qed
qed

text \<open>The lockout is set only with the error that asks for a wait, to sixty seconds from now.\<close>

definition locked_with :: "'w VkEnv \<Rightarrow> 'w VkState \<Rightarrow> (goerr + 'a) \<times> 'w VkState \<Rightarrow> bool" where
  "locked_with v s rs \<longleftrightarrow>
     vs_lockout (snd rs) = vs_lockout s
     \<or> fst rs = Inl captcha_wait_required
       \<and> vs_lockout (snd rs) = unix_time (ve_now v (vs_world (snd rs)) + 60 * second)"

lemma quiet_trivial [simp]: "quiet_env (\<lambda>_. 0) k v"
  by (simp add: quiet_env_def)

lemma anonymous_call_token_locked:
  "anonymous_call_token v link creds t1 attempt data s = (r, s') \<Longrightarrow> locked_with v s (r, s')"
proof (induction "3 - attempt" arbitrary: attempt data s rule: less_induct)
  case less
  have same: "vs_lockout s1 = vs_lockout s" if "legacy_request v data u s = (p, s1)" for u p s1
    using legacy_request_steady [OF that] by simp
  have keep: "vs_lockout s2 = vs_lockout s1" if "\<And>cnt k. quiet_env cnt k v \<Longrightarrow> steady cnt (3 * k) s1 s2" for s1 s2
    using that [OF quiet_trivial, of 0] by (simp add: steady_def)
  from less.prems show ?case
  proof (cases rule: anonymous_round)
    case (Stop p)
    then show ?thesis using same by (simp add: locked_with_def)
  next
    case (Lock p s1 s2)
    then show ?thesis by (simp add: locked_with_def lock_captcha_def)
  next
    case (Again p s1 s2 data')
    then have "locked_with v s2 (r, s')"
      using less.hyps [of "Suc attempt" data' s2] by simp
    then show ?thesis
      using same [OF Again(1)] keep [OF Again(2)] by (simp add: locked_with_def)
  qed
qed

section \<open>Bounds on requests\<close>

text \<open>\<open>costs m n f\<close>: the operation raises the measure \<open>m\<close> of the state by at most \<open>n\<close>.\<close>

definition costs :: "('s \<Rightarrow> nat) \<Rightarrow> nat \<Rightarrow> ('s \<Rightarrow> 'a \<times> 's) \<Rightarrow> bool" where
  "costs m n f \<longleftrightarrow> (\<forall>s. m (snd (f s)) \<le> m s + n)"

lemma costsD: "costs m n f \<Longrightarrow> f s = (r, s') \<Longrightarrow> m s' \<le> m s + n"
  by (auto simp: costs_def dest: spec [of _ s])

lemma costs_withE [simp]: "costs m n (withE r)"
  by (simp add: costs_def withE_def)

lemma costs_bindE:
  assumes "costs m a f" "\<And>x. costs m b (g x)"
  shows "costs m (a + b) (bindE f g)"
  unfolding costs_def
proof
  fix s
  obtain r s1 where f: "f s = (r, s1)" by (cases "f s")
  then have "m s1 \<le> m s + a"
    using assms(1) by (auto dest: costsD)
  moreover have "m (snd (g x s1)) \<le> m s1 + b" for x
    using assms(2) [of x] by (simp add: costs_def)
  ultimately show "m (snd (bindE f g s)) \<le> m s + (a + b)"
    by (cases r) (auto simp: bindE_def f intro: le_trans [of _ "m s1 + b"])
qed

lemma costs_bindE1: "costs m (Suc 0) f \<Longrightarrow> (\<And>x. costs m n (g x)) \<Longrightarrow> costs m (Suc n) (bindE f g)"
  using costs_bindE [of m "Suc 0" f n g] by simp

lemma costs_bindE0: "(\<And>x. costs m n (g x)) \<Longrightarrow> costs m n (bindE (withE r) g)"
  using costs_bindE [of m 0 "withE r" n g] by simp

lemmas costs_intros = costs_bindE0 costs_bindE1 costs_withE

lemma vkcalls_request_cost: "counts_requests cnt k v \<Longrightarrow> costs cnt (Suc 0) (vkcalls_request v stp url)"
  by (auto simp: costs_def counts_requests_def vkcalls_request_def split: prod.splits) (metis order_refl snd_conv)

lemma vkcalls_path_cost:
  assumes "counts_requests cnt k v"
  shows "costs cnt 5 (getVKCredsViaVKCallsPath skip v link)"
proof -
  note rq = vkcalls_request_cost [OF assms]
  have 1: "costs cnt (Suc 0) (vkcalls_step1 v link)"
    unfolding vkcalls_step1_def by (intro costs_intros rq)
  have 2: "costs cnt (Suc 0) (vkcalls_step2 v link t)" for t
    unfolding vkcalls_step2_def by (intro costs_intros rq)
  have 3: "costs cnt (Suc 0) (vkcalls_step3 v link t a b)" for t a b
    unfolding vkcalls_step3_def by (intro costs_intros rq)
  have 4: "costs cnt (Suc 0) (vkcalls_step4 v)"
    unfolding vkcalls_step4_def by (intro costs_intros rq)
  have 5: "costs cnt (Suc 0) (vkcalls_step5 v link t k)" for t k
    unfolding vkcalls_step5_def by (intro costs_intros rq)
  have chain: "costs cnt (Suc (Suc (Suc (Suc (Suc 0)))))
      (bindE (vkcalls_step1 v link) (\<lambda>token.
         bindE (vkcalls_step2 v link token) (\<lambda>(uid, secret).
           bindE (vkcalls_step3 v link token uid secret) (\<lambda>ok_token.
             bindE (vkcalls_step4 v) (\<lambda>key.
               vkcalls_step5 v link ok_token key)))))"
    by (intro costs_bindE1 1 2; clarify; intro costs_bindE1 3 4 5)
  show ?thesis
    using chain by (cases "ve_client v")
      (simp_all add: costs_def getVKCredsViaVKCallsPath_def numeral_eq_Suc)
qed

definition world_measure :: "('w \<Rightarrow> nat) \<Rightarrow> 'w VkState \<Rightarrow> nat" where
  "world_measure cnt s = cnt (vs_world s)"

lemma legacy_request_cost:
  "counts_requests cnt k v \<Longrightarrow> costs (world_measure cnt) (Suc 0) (legacy_request v d u)"
  unfolding costs_def world_measure_def
  by (metis counts_requests_def eq_iff legacy_request_steady prod.collapse add_Suc_right add_0_right)

lemma costs_delay:
  assumes "quiet_env cnt k v" "costs (world_measure cnt) n f"
  shows "costs (world_measure cnt) n (\<lambda>s. f (vkDelayRandom v a b s))"
  unfolding costs_def
proof
  fix s
  have "world_measure cnt (vkDelayRandom v a b s) \<le> world_measure cnt s"
    using steady_delay [OF assms(1), of s a b] by (simp add: steady_def world_measure_def)
  then show "world_measure cnt (snd (f (vkDelayRandom v a b s))) \<le> world_measure cnt s + n"
    using assms(2) by (meson add_le_mono1 costs_def le_trans)
qed

lemma token_chain_cost:
  assumes "counts_requests cnt k v"
  shows "costs (world_measure cnt) (8 + 9 * k) (getTokenChain v link creds)"
proof -
  note rq = legacy_request_cost [OF assms]
  have q: "quiet_env cnt k v"
    using assms by (simp add: counts_requests_def)
  note delay = costs_delay [OF q]
  have 1: "costs (world_measure cnt) 1 (tc_anonymous_token v creds)"
    unfolding tc_anonymous_token_def One_nat_def by (intro costs_intros rq)
  have 2: "costs (world_measure cnt) 1 (tc_preview v link creds t)" for t
    using rq unfolding costs_def tc_preview_def by (auto split: prod.splits sum.splits option.splits) (metis snd_conv)+
  have 3: "costs (world_measure cnt) (4 + 9 * k) (\<lambda>s. anonymous_call_token v link creds t 0 d s)" for t d
    unfolding costs_def world_measure_def
  proof
    fix s
    show "cnt (vs_world (snd (anonymous_call_token v link creds t 0 d s))) \<le> cnt (vs_world s) + (4 + 9 * k)"
      by (cases "anonymous_call_token v link creds t 0 d s")
        (use anonymous_call_token_moved [OF assms, of link creds t 0 d s] in \<open>auto simp: moved_def\<close>)
  qed
  have 4: "costs (world_measure cnt) 1 (tc_session_key v)"
    unfolding tc_session_key_def One_nat_def by (intro costs_intros rq)
  have 5: "costs (world_measure cnt) 1 (tc_join v link t2 t3)" for t2 t3
    unfolding tc_join_def One_nat_def by (intro costs_intros rq)
  have chain: "costs (world_measure cnt) (1 + (1 + ((4 + 9 * k) + (1 + 1))))
      (bindE (tc_anonymous_token v creds) (\<lambda>token1 s1.
            bindE (tc_preview v link creds token1) (\<lambda>_ s2.
              bindE (\<lambda>s3. anonymous_call_token v link creds token1 0 (original_data v link token1) s3) (\<lambda>token2 s4.
                bindE (tc_session_key v) (\<lambda>token3 s5.
                  tc_join v link token2 token3 (vkDelayRandom v 100 150 s5))
                (vkDelayRandom v 100 150 s4))
              (vkDelayRandom v 200 400 s2))
            (vkDelayRandom v 100 150 s1)))"
    by (intro costs_bindE 1 2 3 4 5 delay)
  then show ?thesis
    by (auto simp: costs_def getTokenChain_def split: option.splits)
qed

lemma fetch_attempts_cost:
  assumes "counts_requests cnt k v"
  shows "costs (world_measure cnt) ((8 + 9 * k) * length as) (fetch_attempts v link as lastErr)"
proof (induction as arbitrary: lastErr)
  case (Cons a as)
  have q: "quiet_env cnt k v"
    using assms by (simp add: counts_requests_def)
  show ?case
    unfolding costs_def
  proof
    fix s
    obtain r s1 where 1: "getTokenChain v link (vkCredentialsList ! (a mod length vkCredentialsList)) s = (r, s1)"
      by (metis surj_pair)
    obtain x s2 where 2: "in_world (ve_rand v 900) s1 = (x, s2)"
      by (metis surj_pair)
    obtain o3 s3 where 3: "in_world (ve_wait v ((900 + int x) * millisecond)) s2 = (o3, s3)"
      by (metis surj_pair)
    have m1: "world_measure cnt s1 \<le> world_measure cnt s + (8 + 9 * k)"
      using token_chain_cost [OF assms] 1 by (blast dest: costsD)
    have m3: "world_measure cnt s3 \<le> world_measure cnt s1"
      using steady_env(1) [OF q 2] steady_env(2) [OF q 3] by (simp add: steady_def world_measure_def)
    have m4: "world_measure cnt (snd (fetch_attempts v link as e t)) \<le> world_measure cnt t + (8 + 9 * k) * length as" for e t
      using Cons.IH by (simp add: costs_def)
    show "world_measure cnt (snd (fetch_attempts v link (a # as) lastErr s))
        \<le> world_measure cnt s + (8 + 9 * k) * length (a # as)"
      using m1 m3 m4 [of "Some _" s1] m4 [of "Some _" s3]
      by (auto simp: 1 2 3 add_mult_distrib split: sum.splits option.splits intro: le_trans [OF m4])
  qed
qed (simp add: costs_def)

text \<open>
  C31. The number of requests is bounded: whatever the servers answer, one call of \<^verbatim>\<open>fetchVkCreds\<close>
  in the anonymous mode ends after at most thirty-seven requests of its own, five of the VK Calls path and eight in each of the four
  attempts of the legacy path, where the third request is made at most four times, and after at most thirty-six
  attempts of the image solver, three before each repetition of the third request. With \<open>k\<close> a bound for what one attempt of the
  solver requests from its own server, the sum is at most 37 + 36 k: 37 without what the solver requests (k = 0), and
  433 with it, as \<open>solver_terminates\<close> gives 11 for one attempt.
\<close>

theorem requests_bounded:
  assumes "counts_requests cnt k v" "getVkAuthMode (vs_account s) \<noteq> ''account''"
    and "fetchVkCreds decode app skip v link s = (r, s')"
  shows "cnt (vs_world s') \<le> cnt (vs_world s) + (37 + 36 * k)"
proof -
  have leg: "cnt (vs_world t') \<le> cnt (vs_world t) + (32 + 36 * k)" if "fetch_legacy v link t = (x, t')" for x t t'
    using costsD [OF fetch_attempts_cost [OF assms(1)], of link "[0..<vkCredentialAttemptLimit]" None t x t'] that
    by (simp add: fetch_legacy_def world_measure_def vkCredentialAttemptLimit_def)
  obtain x s1 where p: "in_world (getVKCredsViaVKCallsPath skip v link) s = (x, s1)"
    by (metis surj_pair)
  have "cnt (vs_world s1) \<le> cnt (vs_world s) + 5"
    using p costsD [OF vkcalls_path_cost [OF assms(1)], of skip link "vs_world s"]
    by (auto simp: in_world_def split: prod.splits)
  with assms(2,3) leg p show ?thesis
    by (fastforce simp: fetchVkCreds_def split: if_splits sum.splits option.splits)
qed

definition demo_state :: "nat VkState" where
  "demo_state = \<lparr>vs_lockout = 0, vs_captcha_mode = ''auto'', vs_account = account_start, vs_world = 0\<rparr>"

lemma dead_link_counts: "counts_requests id 11 dead_link_env"
  by (simp add: counts_requests_def quiet_env_def dead_link_env_def canned_def)

lemma dead_link_fetch:
  "fetchVkCreds (\<lambda>_. None) (\<lambda>w. ((0, [], CtxCanceled), w)) False dead_link_env ''abc'' demo_state
     = (Inl (CallUnavailableError 9003 ''Call not found''), demo_state\<lparr>vs_world := 2\<rparr>)"
  by (simp add: fetchVkCreds_def demo_state_def getVkAuthMode_def getVkAnonPath_def account_start_def
      unix_time_def dead_link_env_def [THEN arg_cong, of ve_now] second_def in_world_def dead_link_result)

theorem requests_bounded_witness:
  "vs_world (demo_state\<lparr>vs_world := 2\<rparr>) \<le> vs_world demo_state + 433"
  using requests_bounded [OF dead_link_counts _ dead_link_fetch]
  by (simp add: demo_state_def getVkAuthMode_def account_start_def)

section \<open>The lockout\<close>

lemma locked_bind:
  assumes "locked_with v s (f s)" "\<And>x s1. f s = (Inr x, s1) \<Longrightarrow> vs_lockout s1 = vs_lockout s \<Longrightarrow> locked_with v s1 (g x s1)"
  shows "locked_with v s (bindE f g s)"
proof (cases "f s")
  case (Pair q s1)
  show ?thesis
  proof (cases q)
    case (Inl e)
    with assms(1) Pair show ?thesis by (simp add: bindE_def locked_with_def)
  next
    case (Inr x)
    with assms(1) Pair have "vs_lockout s1 = vs_lockout s"
      by (simp add: locked_with_def)
    with assms(2) [of x s1] Pair Inr show ?thesis by (simp add: bindE_def locked_with_def)
  qed
qed

lemma locked_withE [simp]: "locked_with v s (withE r s)"
  by (simp add: locked_with_def withE_def)

lemma locked_request [simp]: "locked_with v s (legacy_request v d u s)"
  by (cases "legacy_request v d u s") (simp add: locked_with_def legacy_request_steady)

lemma lockout_delay [simp]: "vs_lockout (vkDelayRandom v a b s) = vs_lockout s"
  using steady_delay [where v = v and s = s and a = a and b = b, OF quiet_trivial] by (simp add: steady_def)

lemma locked_delay: "locked_with v (vkDelayRandom v a b s) x \<Longrightarrow> locked_with v s x"
  by (simp add: locked_with_def)

lemma locked_chain: "locked_with v s (getTokenChain v link creds s)"
proof -
  have 1: "locked_with v s (tc_anonymous_token v creds s)" for s
    unfolding tc_anonymous_token_def by (intro locked_bind locked_withE locked_request)
  have 2: "locked_with v s (tc_preview v link creds t s)" for t s
    by (cases "legacy_request v (join_link link @ ''&fields=photo_200&access_token='' @ t)
          (''https://api.vk.ru/method/calls.getCallPreview?v=5.275&client_id='' @ ClientID creds) s")
      (auto simp: tc_preview_def locked_with_def dest: legacy_request_steady split: sum.splits option.splits)
  have 3: "locked_with v s (anonymous_call_token v link creds t n d s)" for t n d s
    by (cases "anonymous_call_token v link creds t n d s") (simp add: anonymous_call_token_locked)
  have 4: "locked_with v s (tc_session_key v s)" for s
    unfolding tc_session_key_def by (intro locked_bind locked_withE locked_request)
  have 5: "locked_with v s (tc_join v link t2 t3 s)" for t2 t3 s
    unfolding tc_join_def by (intro locked_bind locked_withE locked_request)
  show ?thesis
  proof (cases "ve_client v")
    case None
    show ?thesis
      unfolding getTokenChain_def None option.case
      by (rule locked_bind, rule 1, rule locked_delay, rule locked_bind, rule 2, rule locked_delay,
          rule locked_bind, rule 3, rule locked_delay, rule locked_bind, rule 4, rule locked_delay, rule 5)
  qed (simp add: getTokenChain_def locked_with_def)
qed

lemma captcha_wait_contains [simp]: "contains (err_text captcha_wait_required) ''CAPTCHA_WAIT_REQUIRED''"
  unfolding captcha_wait_required_def err_text.simps by (rule contains_self)

lemma no_call_error [simp]: "asCallUnavailableError (Some captcha_wait_required) = None"
  by (simp add: captcha_wait_required_def)

lemma locked_attempts: "locked_with v s (fetch_attempts v link as lastErr s)"
proof (induction as arbitrary: lastErr s)
  case (Cons a as)
  obtain r s1 where 1: "getTokenChain v link (vkCredentialsList ! (a mod length vkCredentialsList)) s = (r, s1)"
    by (metis surj_pair)
  obtain x s2 where 2: "in_world (ve_rand v 900) s1 = (x, s2)"
    by (metis surj_pair)
  obtain o3 s3 where 3: "in_world (ve_wait v ((900 + int x) * millisecond)) s2 = (o3, s3)"
    by (metis surj_pair)
  have s3: "vs_lockout s3 = vs_lockout s1"
    using steady_env(1) [OF quiet_trivial 2] steady_env(2) [OF quiet_trivial 3] by (simp add: steady_def)
  have 4: "locked_with v s (r, s1)"
    using locked_chain [of v s link "vkCredentialsList ! (a mod length vkCredentialsList)"] by (simp only: 1)
  show ?case
  proof (cases r)
    case (Inr g)
    with 4 show ?thesis by (simp add: 1 locked_with_def)
  next
    case (Inl e)
    show ?thesis
    proof (cases "e = captcha_wait_required")
      case True
      with 4 Inl show ?thesis by (simp add: 1 locked_with_def)
    next
      case False
      with 4 Inl have same: "vs_lockout s1 = vs_lockout s"
        by (simp add: locked_with_def)
      have rest: "locked_with v s (fetch_attempts v link as x s1)" "locked_with v s (fetch_attempts v link as x s3)" for x
        using Cons.IH [where s = s1] Cons.IH [where s = s3] same s3 by (simp_all add: locked_with_def)
      show ?thesis
        using same s3 rest by (auto simp: 1 2 3 Inl split: option.splits) (simp_all add: locked_with_def)
    qed
  qed
qed (simp add: locked_with_def)

text \<open>
  C35. The captcha lockout: only a call that ends with the demand to wait for a captcha changes
  it, and it then lasts sixty seconds from the end of that call; such a call does not go on to another
  client id, and while the lockout lasts every anonymous call ends at once,
  without a request and without changing anything.
\<close>

theorem captcha_lockout:
  assumes "fetchVkCreds decode app skip v link s = (r, s')" "vs_lockout s' \<noteq> vs_lockout s"
  shows "r = Inl captcha_wait_required
    \<and> vs_lockout s' = unix_time (ve_now v (vs_world s') + 60 * second)
    \<and> (\<forall>w. ve_now v w < ve_now v (vs_world s') + 59 * second \<longrightarrow>
         getVkAuthMode (vs_account s') \<noteq> ''account'' \<longrightarrow>
         fetchVkCreds decode app skip v link (s'\<lparr>vs_world := w\<rparr>)
           = (Inl (ErrText ''CAPTCHA_WAIT_REQUIRED: global lockout active''), s'\<lparr>vs_world := w\<rparr>))"
proof -
  have leg: "locked_with v t (fetch_legacy v link t)" for t
    by (simp add: fetch_legacy_def locked_attempts)
  have world: "vs_lockout s1 = vs_lockout t" if "in_world f t = (x, s1)" for f :: "'a \<Rightarrow> 'b \<times> 'a" and x t s1
    using that by (auto simp: in_world_def split: prod.splits)
  obtain p s1 where p: "in_world (getVKCredsViaVKCallsPath skip v link) s = (p, s1)"
    by (metis surj_pair)
  have s1: "vs_lockout s1 = vs_lockout s"
    using p by (auto simp: in_world_def split: prod.splits)
  have acc: "vs_lockout (snd (fetch_account decode app v link s)) = vs_lockout s"
    by (auto simp: fetch_account_def in_world_def Let_def split: prod.splits)
  have "locked_with v s (fetchVkCreds decode app skip v link s)"
    using leg [of s] leg [of s1] s1 acc
    by (auto simp: fetchVkCreds_def p locked_with_def split: sum.splits option.splits)
  with assms have r: "r = Inl captcha_wait_required"
    "vs_lockout s' = unix_time (ve_now v (vs_world s') + 60 * second)"
    by (auto simp: locked_with_def)
  have "unix_time (ve_now v w) < vs_lockout s'" if "ve_now v w < ve_now v (vs_world s') + 59 * second" for w
    using that r(2) unfolding unix_time_def second_def by linarith
  then show ?thesis
    using r by (auto simp: fetchVkCreds_def)
qed

definition captcha_env :: "nat VkEnv" where
  "captcha_env = dead_link_env
     \<lparr>ve_http := canned
        [[(''data'', JObj [(''access_token'', JStr ''T'')])], [],
         [(''error'', JObj [(''error_code'', JNum 14), (''redirect_uri'', JStr ''https://id.vk.ru/c'')])]]\<rparr>"

definition captcha_state :: "nat VkState" where
  "captcha_state =
     \<lparr>vs_lockout = 0, vs_captcha_mode = ''wv'', vs_account = account_start\<lparr>ac_path := ''legacy''\<rparr>, vs_world = 0\<rparr>"

lemma captcha_run:
  "fetchVkCreds (\<lambda>_. None) (\<lambda>w. ((0, [], CtxCanceled), w)) False captcha_env ''abc'' captcha_state
     = (Inl captcha_wait_required, captcha_state\<lparr>vs_world := 3, vs_lockout := 63900000060 - 62135596800\<rparr>)"
proof -
  have attempts: "[0..<vkCredentialAttemptLimit] = 0 # [1..<4]"
    by (simp add: vkCredentialAttemptLimit_def upt_conv_Cons)
  have uneq: "\<not> errors_is (Some (ErrText t)) errCaptchaSessionExpired" for t
    by (simp add: errors_is_def chain.simps errCaptchaSessionExpired_def)
  have third: "anonymous_call_token captcha_env ''abc'' creds ''T'' 0 data (captcha_state\<lparr>vs_world := 2\<rparr>)
      = (Inl captcha_wait_required, captcha_state\<lparr>vs_world := 3, vs_lockout := 63900000060 - 62135596800\<rparr>)"
    for creds data
    by (subst anonymous_call_token.simps)
      (simp add: legacy_request_def in_world_def captcha_env_def dead_link_env_def canned_def jget_def
        fatalCallError_def go_int_def parseVkCaptchaError_def str_or_empty_def num_or_zero_def Let_def captcha_state_def
        solveCaptchaBySelectedMode_def getCaptchaMode_def requestWebViewCaptcha_def webview_result_def uneq
        lock_captcha_def unix_time_def second_def captchaSelectedWebViewTimeout_def)
  have chain: "getTokenChain captcha_env ''abc'' creds captcha_state
      = (Inl captcha_wait_required, captcha_state\<lparr>vs_world := 3, vs_lockout := 63900000060 - 62135596800\<rparr>)" for creds
  proof -
    have cl: "ve_client captcha_env = None"
      by (simp add: captcha_env_def dead_link_env_def)
    have d: "vkDelayRandom captcha_env a b s = s" for a b s
      by (simp add: vkDelayRandom_def in_world_def pause_for_def captcha_env_def dead_link_env_def)
    have 1: "tc_anonymous_token captcha_env creds captcha_state = (Inr ''T'', captcha_state\<lparr>vs_world := 1\<rparr>)"
      by (simp add: tc_anonymous_token_def bindE_def withE_def legacy_request_def in_world_def captcha_env_def
          dead_link_env_def canned_def obj_field_def str_field_def jget_def captcha_state_def)
    have 2: "tc_preview captcha_env ''abc'' creds ''T'' (captcha_state\<lparr>vs_world := 1\<rparr>)
        = (Inr (), captcha_state\<lparr>vs_world := 2\<rparr>)"
      by (simp add: tc_preview_def legacy_request_def in_world_def captcha_env_def
          dead_link_env_def canned_def jget_def captcha_state_def fatalCallError_def)
    show ?thesis
      by (simp add: getTokenChain_def cl bindE_def d 1 2 [simplified] third [simplified])
  qed
  show ?thesis
    by (simp add: fetchVkCreds_def captcha_state_def [THEN arg_cong, of vs_account]
        captcha_state_def [THEN arg_cong, of vs_lockout] getVkAuthMode_def getVkAnonPath_def account_start_def
        captcha_env_def [THEN arg_cong, of ve_now] dead_link_env_def [THEN arg_cong, of ve_now] unix_time_def second_def
        fetch_legacy_def attempts chain)
qed

theorem captcha_lockout_witness:
  "fst (fetchVkCreds (\<lambda>_. None) (\<lambda>w. ((0, [], CtxCanceled), w)) False captcha_env ''abc''
     (captcha_state\<lparr>vs_world := 3, vs_lockout := 63900000060 - 62135596800\<rparr>\<lparr>vs_world := 0\<rparr>))
   = Inl (ErrText ''CAPTCHA_WAIT_REQUIRED: global lockout active'')"
proof -
  have now: "ve_now captcha_env w = 63900000000 * second" for w
    by (simp add: captcha_env_def dead_link_env_def)
  have "getVkAuthMode (vs_account captcha_state) \<noteq> ''account''"
    by (simp add: captcha_state_def getVkAuthMode_def account_start_def)
  then show ?thesis
    using captcha_lockout [OF captcha_run] by (simp add: now second_def captcha_state_def)
qed

section \<open>Dead captcha sessions\<close>

lemma v2_attempts_error:
  "v2_attempts v c n as s = (Inl e, s') \<Longrightarrow>
   e = ErrText (''v2 captcha attempts exhausted ('' @ itoa (int n) @ '')'')
   \<or> errors_is (Some e) errCaptchaV2RateLimit
   \<or> (\<exists>d w. fst (ve_wait v d w) = Some e)"
proof (induction as arbitrary: s)
  case (Cons a as)
  obtain o1 s1 where 1: "in_world (ve_solve_once v c) s = (o1, s1)"
    by (metis surj_pair)
  obtain o2 s2 where 2: "in_world (ve_wait v (int (min a 10) * (500 * millisecond))) s1 = (o2, s2)"
    by (metis surj_pair)
  have w: "o2 = Some e \<Longrightarrow> \<exists>d w. fst (ve_wait v d w) = Some e"
    using 2 by (auto simp: in_world_def split: prod.splits) (metis fst_conv)
  show ?case
    using Cons w by (auto simp: 1 2 split: sum.splits if_splits option.splits)
qed simp

text \<open>
  A captcha session that died is never recognised: when its attempts are used up, the image
  solver reports only how many there were, so unless VK's rate limit was reached or the context ended the error it
  returns never looks like a dead session, in the mode "rjs" as in the automatic one, and
  the branches of \<^verbatim>\<open>solveCaptchaBySelectedMode\<close> that ask VK for a fresh challenge are not taken.
\<close>

theorem dead_session_not_seen:
  assumes run: "solveVkCaptchaV2Attempts v c n s = (Inl e, s')" and n: "n \<in> {1, 2}"
    and ctx: "\<And>d w x. fst (ve_wait v d w) = Some x \<Longrightarrow> x \<in> {CtxCanceled, CtxDeadlineExceeded}"
    and rate: "errors_is (Some e) errCaptchaV2RateLimit \<Longrightarrow> e = errCaptchaV2RateLimit"
  shows "\<not> isCaptchaSessionDead (Some e)"
proof -
  have texts: "\<not> contains (to_lower t) ''getcontent status:'' \<and> \<not> contains (to_lower t) ''error_limit''"
    if "t \<in> {''v2 captcha attempts exhausted (1)'', ''v2 captcha attempts exhausted (2)'',
        ''no session_token in redirect_uri'', ''captcha session rate limit reached'', ''context canceled'',
        ''context deadline exceeded''}" for t
    using that by (elim insertE emptyE; simp only:; code_simp)
  have num: "itoa (int (max 1 n)) \<in> {''1'', ''2''}"
  proof -
    have "itoa 1 = ''1''" "itoa 2 = ''2''" by code_simp+
    then show ?thesis using n by auto
  qed
  have "err_text e \<in> {''v2 captcha attempts exhausted (1)'', ''v2 captcha attempts exhausted (2)'',
      ''no session_token in redirect_uri'', ''captcha session rate limit reached'', ''context canceled'',
      ''context deadline exceeded''}"
  proof (cases "vc_SessionToken c = []")
    case True
    then show ?thesis using run by (auto simp: solveVkCaptchaV2Attempts_def)
  next
    case False
    then have "v2_attempts v c (max 1 n) [1..<Suc (max 1 n)] s = (Inl e, s')"
      using run by (simp add: solveVkCaptchaV2Attempts_def del: upt_Suc)
    from v2_attempts_error [OF this] show ?thesis
    proof (elim disjE exE)
      assume "e = ErrText (''v2 captcha attempts exhausted ('' @ itoa (int (max 1 n)) @ '')'')"
      then show ?thesis using num by auto
    next
      assume "errors_is (Some e) errCaptchaV2RateLimit"
      then show ?thesis using rate by (simp add: errCaptchaV2RateLimit_def)
    next
      fix d w assume "fst (ve_wait v d w) = Some e"
      then show ?thesis using ctx by fastforce
    qed
  qed
  then show ?thesis
    using texts [of "err_text e"] by (simp add: isCaptchaSessionDead_def Let_def)
qed

theorem dead_session_not_seen_witness:
  "\<exists>e s'. solveVkCaptchaV2Attempts
       (dead_link_env\<lparr>ve_solve_once := \<lambda>_ w. (Inl (ErrText ''getcontent status: ERROR_LIMIT''), w)\<rparr>)
       (parseVkCaptchaError (\<lambda>_. ''tok'') [(''redirect_uri'', JStr ''u'')]) 1 demo_state = (Inl e, s')
     \<and> \<not> isCaptchaSessionDead (Some e)"
proof -
  let ?v = "dead_link_env\<lparr>ve_solve_once := \<lambda>_ w. (Inl (ErrText ''getcontent status: ERROR_LIMIT''), w)\<rparr>"
  let ?c = "parseVkCaptchaError (\<lambda>_. ''tok'') [(''redirect_uri'', JStr ''u'')]"
  have rl: "\<not> errors_is (Some (ErrText t)) errCaptchaV2RateLimit" for t
    by (simp add: errors_is_def chain.simps errCaptchaV2RateLimit_def)
  have c: "vc_SessionToken ?c = ''tok''"
    by (simp add: parseVkCaptchaError_def jget_def str_or_empty_def Let_def)
  have w: "fst (ve_wait ?v d x) = None" for d x
    by (simp add: dead_link_env_def)
  have run: "solveVkCaptchaV2Attempts ?v ?c 1 demo_state
      = (Inl (ErrText (''v2 captcha attempts exhausted ('' @ itoa 1 @ '')'')), demo_state)"
    by (simp add: solveVkCaptchaV2Attempts_def c in_world_def rl dead_link_env_def demo_state_def)
  from dead_session_not_seen [OF run] w rl show ?thesis
    using run by fastforce
qed

end
