(* ===== verification/GroupCreds.thy ===== *)
theory GroupCreds
  imports CredsCache AccountCreds
begin

text \<open>
  The credentials of a group of workers: \<^verbatim>\<open>GroupCredCoordinator\<close> of \<^verbatim>\<open>group.go\<close>. Workers
  take snapshots, and when the server refuses one they call \<^verbatim>\<open>RefreshCreds\<close>; its steps are the
  regions between its lock operations, so workers interleave as in the code. The cache of the
  link is the one of \<open>CredsCache\<close>: others may publish to it and invalidate it at any time, and
  \<^verbatim>\<open>GetCredsWithGen\<close> ends with an error or with what a valid cache holds at that moment (\<open>CacheSystem\<close>).
  \<open>gs_mu\<close> is the holder of the mutex \<^verbatim>\<open>c.mu\<close>, \<open>gs_ops\<close> the \<^verbatim>\<open>done\<close> channels of the operations
  (closed or not), \<open>gs_starts\<close> records when the operations of \<^verbatim>\<open>RefreshCreds\<close> were started, the last one first.
\<close>

section \<open>State\<close>

record Credentials =
  cr_User :: string
  cr_Pass :: string
  cr_TurnURLs :: "string list"
  cr_CacheStreamID :: int
  cr_Generation :: nat
  cr_GroupID :: int
  cr_AttemptID :: int
  cr_PreferredTurnURL :: string

datatype refresher =
    RfIdle
  | RfSession nat
  | RfLocal nat
  | RfShared nat
  | RfSharedGet nat
  | RfSharedPut nat creds_result
  | RfLock nat
  | RfHeld nat
  | RfHeldCache nat
  | RfHeldGet nat
  | RfHeldPut nat creds_result
  | RfHeldRest nat
  | RfWait nat nat
  | RfRun nat nat
  | RfRunGet nat nat
  | RfRunPut nat nat creds_result
  | RfFinish nat nat bool
  | RfReturn nat bool

record group_state =
  gs_group :: int
  gs_stream :: int
  gs_creds :: Credentials
  gs_activeOp :: "nat option"
  gs_ops :: "bool list"
  gs_last :: int
  gs_mu :: "nat option"
  gs_workers :: "refresher list"
  gs_cache :: StreamCredentialsCache
  gs_account :: AccountState
  gs_now :: gotime
  gs_starts :: "int list"

definition NewGroupCredCoordinator ::
  "int \<Rightarrow> int \<Rightarrow> Credentials \<Rightarrow> nat \<Rightarrow> StreamCredentialsCache \<Rightarrow> AccountState \<Rightarrow> gotime \<Rightarrow> group_state"
where
  "NewGroupCredCoordinator gid stream creds n c a now =
     \<lparr>gs_group = gid, gs_stream = stream, gs_creds = creds, gs_activeOp = None, gs_ops = [], gs_last = 0,
      gs_mu = None, gs_workers = replicate n RfIdle, gs_cache = c, gs_account = a, gs_now = now,
      gs_starts = []\<rparr>"

definition Snapshot_creds :: "int \<Rightarrow> group_state \<Rightarrow> Credentials" where
  "Snapshot_creds attempt s = (gs_creds s)\<lparr>cr_AttemptID := attempt\<rparr>"

definition CurrentGeneration :: "group_state \<Rightarrow> nat" where
  "CurrentGeneration s = cr_Generation (gs_creds s)"

definition result_gen :: "creds_result \<Rightarrow> nat" where
  "result_gen r = snd (snd (snd r))"

text \<open>The credentials made of what \<^verbatim>\<open>GetCredsWithGen\<close> returned\<close>

definition group_creds :: "creds_result \<Rightarrow> group_state \<Rightarrow> Credentials" where
  "group_creds r s =
     (case r of (u, p, urls, g) \<Rightarrow>
        \<lparr>cr_User = u, cr_Pass = p, cr_TurnURLs = urls, cr_CacheStreamID = gs_stream s, cr_Generation = g,
         cr_GroupID = gs_group s, cr_AttemptID = 0, cr_PreferredTurnURL = []\<rparr>)"

definition put_creds :: "creds_result \<Rightarrow> group_state \<Rightarrow> group_state" where
  "put_creds r s = s\<lparr>gs_creds := group_creds r s\<rparr>"

definition set_worker :: "nat \<Rightarrow> refresher \<Rightarrow> group_state \<Rightarrow> group_state" where
  "set_worker k x s = s\<lparr>gs_workers := (gs_workers s)[k := x]\<rparr>"

definition unlock :: "group_state \<Rightarrow> group_state" where
  "unlock s = s\<lparr>gs_mu := None\<rparr>"

section \<open>RefreshCreds\<close>

definition newer_local :: "nat \<Rightarrow> group_state \<Rightarrow> bool" where
  "newer_local failedGen s \<longleftrightarrow> failedGen > 0 \<and> CurrentGeneration s > failedGen"

definition newer_shared :: "string \<Rightarrow> nat \<Rightarrow> group_state \<Rightarrow> bool" where
  "newer_shared link failedGen s \<longleftrightarrow>
     cache_valid link (gs_now s) (gs_cache s) \<and> failedGen > 0
     \<and> tc_Generation (ca_creds (gs_cache s)) > failedGen"

text \<open>\<^verbatim>\<open>Unix()\<close> cuts a time down to whole seconds.\<close>

definition unix_seconds :: "gotime \<Rightarrow> int" where
  "unix_seconds t = t div second - 62135596800"

definition now_seconds :: "group_state \<Rightarrow> int" where
  "now_seconds s = unix_seconds (gs_now s)"

definition too_early :: "group_state \<Rightarrow> bool" where
  "too_early s \<longleftrightarrow> gs_last s > 0 \<and> now_seconds s - gs_last s < 15"

text \<open>What follows the checks under \<^verbatim>\<open>c.mu\<close>: join the running operation, give up, or start one\<close>

definition refresh_rest :: "nat \<Rightarrow> nat \<Rightarrow> group_state \<Rightarrow> group_state" where
  "refresh_rest k failedGen s =
     (case gs_activeOp s of
        Some i \<Rightarrow> set_worker k (RfWait i failedGen) (unlock s)
      | None \<Rightarrow>
          if too_early s then set_worker k (RfReturn failedGen False) (unlock s)
          else
            set_worker k (RfRun (length (gs_ops s)) failedGen)
              (unlock (s\<lparr>gs_last := now_seconds s, gs_ops := gs_ops s @ [False],
                        gs_activeOp := Some (length (gs_ops s)), gs_starts := gs_now s # gs_starts s\<rparr>)))"

text \<open>The running operation: what it invalidates, and how it ends\<close>

definition refresh_invalidate :: "string \<Rightarrow> nat \<Rightarrow> group_state \<Rightarrow> group_state" where
  "refresh_invalidate link failedGen s =
     s\<lparr>gs_account := (if getVkAuthMode (gs_account s) = ''account''
                      then invalidateInjectedTurnCreds link (gs_account s) else gs_account s),
       gs_cache := fst (invalidate_gen failedGen (gs_cache s))\<rparr>"

definition refresh_finish :: "nat \<Rightarrow> group_state \<Rightarrow> group_state" where
  "refresh_finish i s =
     s\<lparr>gs_activeOp := (if gs_activeOp s = Some i then None else gs_activeOp s),
       gs_ops := (gs_ops s)[i := True]\<rparr>"

fun refresh_get :: "nat \<Rightarrow> creds_result option \<Rightarrow> refresher \<Rightarrow> refresher \<Rightarrow> (creds_result \<Rightarrow> refresher) \<Rightarrow> refresher" where
  "refresh_get failedGen None fail old store = fail"
| "refresh_get failedGen (Some r) fail old store = (if result_gen r > failedGen then store r else old)"

text \<open>One region of \<^verbatim>\<open>RefreshCreds\<close> or of the worker around it\<close>

inductive refresh_step :: "string \<Rightarrow> group_state \<Rightarrow> group_state \<Rightarrow> bool" for link where
  rf_snapshot: "k < length (gs_workers s) \<Longrightarrow> gs_workers s ! k = RfIdle \<Longrightarrow>
    refresh_step link s (set_worker k (RfSession (CurrentGeneration s)) s)"
| rf_session: "k < length (gs_workers s) \<Longrightarrow> gs_workers s ! k = RfSession g \<Longrightarrow>
    refresh_step link s (set_worker k (if refused then RfLocal g else RfIdle) s)"
| rf_local: "k < length (gs_workers s) \<Longrightarrow> gs_workers s ! k = RfLocal g \<Longrightarrow>
    refresh_step link s (set_worker k (if newer_local g s then RfReturn g True else RfShared g) s)"
| rf_shared: "k < length (gs_workers s) \<Longrightarrow> gs_workers s ! k = RfShared g \<Longrightarrow>
    refresh_step link s (set_worker k (if newer_shared link g s then RfSharedGet g else RfLock g) s)"
| rf_shared_get: "k < length (gs_workers s) \<Longrightarrow> gs_workers s ! k = RfSharedGet g \<Longrightarrow>
    r = None \<or> r = cache_lookup link (gs_now s) (gs_cache s) \<Longrightarrow>
    refresh_step link s (set_worker k (refresh_get g r (RfLock g) (RfLock g) (RfSharedPut g)) s)"
| rf_shared_put: "k < length (gs_workers s) \<Longrightarrow> gs_workers s ! k = RfSharedPut g r \<Longrightarrow>
    refresh_step link s (set_worker k (RfReturn g True) (put_creds r s))"
| rf_lock: "k < length (gs_workers s) \<Longrightarrow> gs_workers s ! k = RfLock g \<Longrightarrow> gs_mu s = None \<Longrightarrow>
    refresh_step link s (set_worker k (RfHeld g) (s\<lparr>gs_mu := Some k\<rparr>))"
| rf_held_new: "k < length (gs_workers s) \<Longrightarrow> gs_workers s ! k = RfHeld g \<Longrightarrow> newer_local g s \<Longrightarrow>
    refresh_step link s (set_worker k (RfReturn g True) (unlock s))"
| rf_held_old: "k < length (gs_workers s) \<Longrightarrow> gs_workers s ! k = RfHeld g \<Longrightarrow> \<not> newer_local g s \<Longrightarrow>
    refresh_step link s (set_worker k (RfHeldCache g) s)"
| rf_held_cache: "k < length (gs_workers s) \<Longrightarrow> gs_workers s ! k = RfHeldCache g \<Longrightarrow>
    refresh_step link s (set_worker k (if newer_shared link g s then RfHeldGet g else RfHeldRest g) s)"
| rf_held_get: "k < length (gs_workers s) \<Longrightarrow> gs_workers s ! k = RfHeldGet g \<Longrightarrow>
    r = None \<or> r = cache_lookup link (gs_now s) (gs_cache s) \<Longrightarrow>
    refresh_step link s (set_worker k (refresh_get g r (RfHeldRest g) (RfHeldRest g) (RfHeldPut g)) s)"
| rf_held_put: "k < length (gs_workers s) \<Longrightarrow> gs_workers s ! k = RfHeldPut g r \<Longrightarrow>
    refresh_step link s (set_worker k (RfReturn g True) (unlock (put_creds r s)))"
| rf_held_rest: "k < length (gs_workers s) \<Longrightarrow> gs_workers s ! k = RfHeldRest g \<Longrightarrow>
    refresh_step link s (refresh_rest k g s)"
| rf_wait_done: "k < length (gs_workers s) \<Longrightarrow> gs_workers s ! k = RfWait i g \<Longrightarrow> gs_ops s ! i \<Longrightarrow>
    refresh_step link s (set_worker k (RfReturn g (g = 0 \<or> CurrentGeneration s > g)) s)"
| rf_wait_cancel: "k < length (gs_workers s) \<Longrightarrow> gs_workers s ! k = RfWait i g \<Longrightarrow>
    refresh_step link s (set_worker k (RfReturn g False) s)"
| rf_run: "k < length (gs_workers s) \<Longrightarrow> gs_workers s ! k = RfRun i g \<Longrightarrow>
    refresh_step link s (set_worker k (RfRunGet i g) (refresh_invalidate link g s))"
| rf_run_get: "k < length (gs_workers s) \<Longrightarrow> gs_workers s ! k = RfRunGet i g \<Longrightarrow>
    r = None \<or> r = cache_lookup link (gs_now s) (gs_cache s) \<Longrightarrow>
    refresh_step link s (set_worker k (case r of None \<Rightarrow> RfFinish i g False | Some x \<Rightarrow> RfRunPut i g x) s)"
| rf_run_put: "k < length (gs_workers s) \<Longrightarrow> gs_workers s ! k = RfRunPut i g r \<Longrightarrow>
    refresh_step link s (set_worker k (RfFinish i g True) (put_creds r s))"
| rf_finish: "k < length (gs_workers s) \<Longrightarrow> gs_workers s ! k = RfFinish i g b \<Longrightarrow> gs_mu s = None \<Longrightarrow>
    refresh_step link s (set_worker k (RfReturn g b) (refresh_finish i s))"
| rf_return: "k < length (gs_workers s) \<Longrightarrow> gs_workers s ! k = RfReturn g b \<Longrightarrow>
    refresh_step link s (set_worker k RfIdle s)"
| rf_publish: "refresh_step link s
    (s\<lparr>gs_cache := snd (publish link (gs_now s) (Inr up) op (gs_cache s))\<rparr>)"
| rf_invalidate: "refresh_step link s (s\<lparr>gs_cache := fst (invalidate_gen g (gs_cache s))\<rparr>)"
| rf_tick: "gs_now s \<le> t \<Longrightarrow> refresh_step link s (s\<lparr>gs_now := t\<rparr>)"

definition refresh_init :: "group_state \<Rightarrow> bool" where
  "refresh_init s \<longleftrightarrow>
     (\<exists>gid stream creds n c a now. s = NewGroupCredCoordinator gid stream creds n c a now
        \<and> 0 < now div second - 62135596800
        \<and> (ca_creds c = zero_creds \<or> tc_Generation (ca_creds c) = ca_generation c \<and> 0 < ca_generation c)
        \<and> cr_Generation creds \<le> ca_generation c)"

section \<open>Generations\<close>

definition cache_good :: "StreamCredentialsCache \<Rightarrow> bool" where
  "cache_good c \<longleftrightarrow>
     ca_creds c = zero_creds \<or> tc_Generation (ca_creds c) = ca_generation c \<and> 0 < ca_generation c"

text \<open>What a worker may hold: refused generations are old ones, results are newer than the refused one.\<close>

fun refresher_ok :: "StreamCredentialsCache \<Rightarrow> refresher \<Rightarrow> bool" where
  "refresher_ok c RfIdle = True"
| "refresher_ok c (RfSession g) = (g \<le> ca_generation c)"
| "refresher_ok c (RfLocal g) = (g \<le> ca_generation c)"
| "refresher_ok c (RfShared g) = (g \<le> ca_generation c)"
| "refresher_ok c (RfSharedGet g) = (g \<le> ca_generation c)"
| "refresher_ok c (RfSharedPut g r) = (g < result_gen r \<and> result_gen r \<le> ca_generation c)"
| "refresher_ok c (RfLock g) = (g \<le> ca_generation c)"
| "refresher_ok c (RfHeld g) = (g \<le> ca_generation c)"
| "refresher_ok c (RfHeldCache g) = (g \<le> ca_generation c)"
| "refresher_ok c (RfHeldGet g) = (g \<le> ca_generation c)"
| "refresher_ok c (RfHeldPut g r) = (g < result_gen r \<and> result_gen r \<le> ca_generation c)"
| "refresher_ok c (RfHeldRest g) = (g \<le> ca_generation c)"
| "refresher_ok c (RfWait i g) = (g \<le> ca_generation c)"
| "refresher_ok c (RfRun i g) = (g \<le> ca_generation c)"
| "refresher_ok c (RfRunGet i g) =
     (g \<le> ca_generation c
      \<and> (tc_Link (ca_creds c) = [] \<or> tc_ServerAddrs (ca_creds c) = [] \<or> g < tc_Generation (ca_creds c)))"
| "refresher_ok c (RfRunPut i g r) = (g < result_gen r \<and> result_gen r \<le> ca_generation c)"
| "refresher_ok c (RfFinish i g b) = True"
| "refresher_ok c (RfReturn g b) = True"

definition later_cache :: "StreamCredentialsCache \<Rightarrow> StreamCredentialsCache \<Rightarrow> bool" where
  "later_cache c c' \<longleftrightarrow>
     ca_generation c \<le> ca_generation c'
     \<and> (ca_creds c' = zero_creds \<or> ca_creds c' = ca_creds c \<or> ca_generation c < tc_Generation (ca_creds c'))"

lemma refresher_later: "refresher_ok c x \<Longrightarrow> later_cache c c' \<Longrightarrow> refresher_ok c' x"
  by (cases x) (auto simp: later_cache_def zero_creds_def)

lemma later_refl [simp]: "later_cache c c"
  by (simp add: later_cache_def)

lemma later_publish:
  "later_cache c (snd (publish link t (Inr up) op c))"
  "cache_good c \<Longrightarrow> cache_good (snd (publish link t (Inr up) op c))"
  by (auto simp: publish_def later_cache_def cache_good_def Let_def split: prod.splits)

lemma later_invalidate:
  "later_cache c (fst (invalidate_gen g c))"
  "cache_good c \<Longrightarrow> cache_good (fst (invalidate_gen g c))"
  by (auto simp: invalidate_gen_def later_cache_def cache_good_def)

lemma invalidate_refused:
  assumes "cache_good c" "g \<le> ca_generation c" and c': "c' = fst (invalidate_gen g c)"
  shows "tc_Link (ca_creds c') = [] \<or> tc_ServerAddrs (ca_creds c') = [] \<or> g < tc_Generation (ca_creds c')"
  using assms(1,2) by (auto simp: c' invalidate_gen_def cache_good_def zero_creds_def)

lemma lookup_gen:
  assumes "cache_lookup link t c = Some r" "cache_good c"
  shows "result_gen r = tc_Generation (ca_creds c)" "result_gen r \<le> ca_generation c"
    "tc_Link (ca_creds c) = link" "tc_ServerAddrs (ca_creds c) \<noteq> []"
  using assms by (auto simp: cache_lookup_def read_creds_def cache_valid_def cache_good_def result_gen_def
      zero_creds_def split: if_splits)

definition gen_inv :: "group_state \<Rightarrow> bool" where
  "gen_inv s \<longleftrightarrow>
     cache_good (gs_cache s) \<and> CurrentGeneration s \<le> ca_generation (gs_cache s)
     \<and> (\<forall>x \<in> set (gs_workers s). refresher_ok (gs_cache s) x)"

lemma sel_worker [simp]:
  "gs_cache (set_worker k x s) = gs_cache s" "gs_creds (set_worker k x s) = gs_creds s"
  "gs_workers (set_worker k x s) = (gs_workers s)[k := x]" "gs_mu (set_worker k x s) = gs_mu s"
  "gs_ops (set_worker k x s) = gs_ops s" "gs_activeOp (set_worker k x s) = gs_activeOp s"
  "gs_last (set_worker k x s) = gs_last s" "gs_starts (set_worker k x s) = gs_starts s"
  "gs_now (set_worker k x s) = gs_now s"
  by (simp_all add: set_worker_def)

lemma sel_put [simp]:
  "gs_cache (put_creds r s) = gs_cache s" "gs_creds (put_creds r s) = group_creds r s"
  "gs_workers (put_creds r s) = gs_workers s" "gs_mu (put_creds r s) = gs_mu s"
  "gs_ops (put_creds r s) = gs_ops s" "gs_activeOp (put_creds r s) = gs_activeOp s"
  "gs_last (put_creds r s) = gs_last s" "gs_starts (put_creds r s) = gs_starts s"
  "gs_now (put_creds r s) = gs_now s"
  "cr_Generation (group_creds r s) = result_gen r"
  by (simp_all add: put_creds_def group_creds_def result_gen_def split: prod.splits)

lemma sel_unlock [simp]:
  "gs_cache (unlock s) = gs_cache s" "gs_creds (unlock s) = gs_creds s" "gs_workers (unlock s) = gs_workers s"
  "gs_mu (unlock s) = None" "gs_ops (unlock s) = gs_ops s" "gs_activeOp (unlock s) = gs_activeOp s"
  "gs_last (unlock s) = gs_last s" "gs_starts (unlock s) = gs_starts s" "gs_now (unlock s) = gs_now s"
  by (simp_all add: unlock_def)

lemma sel_invalidate [simp]:
  "gs_cache (refresh_invalidate link g s) = fst (invalidate_gen g (gs_cache s))"
  "gs_creds (refresh_invalidate link g s) = gs_creds s" "gs_workers (refresh_invalidate link g s) = gs_workers s"
  "gs_mu (refresh_invalidate link g s) = gs_mu s" "gs_ops (refresh_invalidate link g s) = gs_ops s"
  "gs_activeOp (refresh_invalidate link g s) = gs_activeOp s" "gs_last (refresh_invalidate link g s) = gs_last s"
  "gs_starts (refresh_invalidate link g s) = gs_starts s" "gs_now (refresh_invalidate link g s) = gs_now s"
  by (simp_all add: refresh_invalidate_def)

lemma gen_inv_move:
  assumes "gen_inv s" "later_cache (gs_cache s) (gs_cache s')" "cache_good (gs_cache s')"
    and "CurrentGeneration s' \<le> ca_generation (gs_cache s')"
    and "gs_workers s' = (gs_workers s)[k := x]" "refresher_ok (gs_cache s') x"
  shows "gen_inv s'"
  using assms set_update_subset_insert [of "gs_workers s" k x]
  by (auto simp: gen_inv_def intro: refresher_later)

lemma gen_inv_env:
  assumes "gen_inv s" "later_cache (gs_cache s) (gs_cache s')" "cache_good (gs_cache s')"
    and "gs_creds s' = gs_creds s" "gs_workers s' = gs_workers s"
  shows "gen_inv s'"
  using assms by (auto simp: gen_inv_def CurrentGeneration_def later_cache_def intro: refresher_later [unfolded later_cache_def])

lemma refresh_get_ok:
  assumes "cache_good c" "g \<le> ca_generation c" "r = None \<or> r = cache_lookup link t c"
    and "refresher_ok c fail" "refresher_ok c old" "\<And>y. g < result_gen y \<Longrightarrow> result_gen y \<le> ca_generation c \<Longrightarrow> refresher_ok c (store y)"
  shows "refresher_ok c (refresh_get g r fail old store)"
proof (cases r)
  case (Some x)
  then have "cache_lookup link t c = Some x"
    using assms(3) by simp
  from lookup_gen(2) [OF this assms(1)] assms(5,6) show ?thesis
    by (simp add: Some)
qed (simp add: assms(4))

lemma gen_inv_step:
  assumes inv: "gen_inv s" and link: "link \<noteq> []" and step: "refresh_step link s s'"
  shows "gen_inv s'"
proof -
  have good: "cache_good (gs_cache s)" and cur: "CurrentGeneration s \<le> ca_generation (gs_cache s)"
    using inv by (simp_all add: gen_inv_def)
  have ok: "refresher_ok (gs_cache s) (gs_workers s ! k)" if "k < length (gs_workers s)" for k
    using inv that by (simp add: gen_inv_def)
  have move: "gen_inv (set_worker k x s0)"
    if "refresher_ok (gs_cache s) x" "gs_cache s0 = gs_cache s" "gs_workers s0 = gs_workers s"
      "CurrentGeneration s0 \<le> ca_generation (gs_cache s)" for k x s0
    by (rule gen_inv_move [OF inv, of _ k x]) (use that good in \<open>simp_all add: CurrentGeneration_def\<close>)
  have put: "CurrentGeneration (put_creds r s0) = result_gen r" for r s0
    by (simp add: CurrentGeneration_def)
  have unl: "CurrentGeneration (unlock s0) = CurrentGeneration s0" for s0
    by (simp add: CurrentGeneration_def)
  from step show ?thesis
  proof cases
    case (rf_shared_get k g r)
    then show ?thesis
      using ok [of k] by (auto intro!: move refresh_get_ok [OF good] cur)
  next
    case (rf_held_get k g r)
    then show ?thesis
      using ok [of k] by (auto intro!: move refresh_get_ok [OF good] cur)
  next
    case (rf_held_rest k g)
    have "refresher_ok (gs_cache s) (RfWait i g)" "refresher_ok (gs_cache s) (RfReturn g False)"
      "refresher_ok (gs_cache s) (RfRun i g)" for i
      using ok [of k] rf_held_rest by simp_all
    then show ?thesis
      unfolding rf_held_rest(1) refresh_rest_def
      by (auto split: option.splits intro!: move simp: CurrentGeneration_def cur [unfolded CurrentGeneration_def])
  next
    case (rf_run k i g)
    then have g: "g \<le> ca_generation (gs_cache s)"
      using ok [of k] by simp
    have "refresher_ok (fst (invalidate_gen g (gs_cache s))) (RfRunGet i g)"
      using invalidate_refused [OF good g refl] g later_invalidate(1) [of "gs_cache s" g] by (simp add: later_cache_def)
    then show ?thesis
      unfolding rf_run(1)
      by (intro gen_inv_move [OF inv, of _ k "RfRunGet i g"])
        (use later_invalidate good cur in \<open>simp_all add: CurrentGeneration_def invalidate_gen_def\<close>)
  next
    case (rf_run_get k i g r)
    have "refresher_ok (gs_cache s) (case r of None \<Rightarrow> RfFinish i g False | Some x \<Rightarrow> RfRunPut i g x)"
      using rf_run_get ok [of k] lookup_gen [OF _ good, of link "gs_now s"] link
      by (auto split: option.splits)
    then show ?thesis
      unfolding rf_run_get(1) by (rule move) (simp_all add: cur)
  next
    case (rf_publish up op)
    show ?thesis
      unfolding rf_publish
      by (rule gen_inv_env [OF inv]) (simp_all add: later_publish good)
  next
    case (rf_invalidate g)
    show ?thesis
      unfolding rf_invalidate
      by (rule gen_inv_env [OF inv]) (simp_all add: later_invalidate good)
  next
    case (rf_tick t)
    show ?thesis
      unfolding rf_tick(1) by (rule gen_inv_env [OF inv]) (simp_all add: good)
  next
    case (rf_finish k i g b)
    show ?thesis
      unfolding rf_finish(1)
      by (rule move) (simp_all add: refresh_finish_def CurrentGeneration_def cur [unfolded CurrentGeneration_def])
  next
    case (rf_lock k g)
    then show ?thesis
      using ok [of k] by (auto intro!: move simp: CurrentGeneration_def cur [unfolded CurrentGeneration_def])
  next
    case (rf_snapshot k)
    then show ?thesis
      using cur by (auto intro!: move)
  qed (use ok in \<open>fastforce intro!: move simp: put unl cur\<close>)+
qed

section \<open>The mutex and the operations\<close>

fun holds_mu :: "refresher \<Rightarrow> bool" where
  "holds_mu (RfHeld g) = True"
| "holds_mu (RfHeldCache g) = True"
| "holds_mu (RfHeldGet g) = True"
| "holds_mu (RfHeldPut g r) = True"
| "holds_mu (RfHeldRest g) = True"
| "holds_mu _ = False"

fun runs_op :: "refresher \<Rightarrow> nat option" where
  "runs_op (RfRun i g) = Some i"
| "runs_op (RfRunGet i g) = Some i"
| "runs_op (RfRunPut i g r) = Some i"
| "runs_op (RfFinish i g b) = Some i"
| "runs_op _ = None"

fun joined_op :: "refresher \<Rightarrow> nat option" where
  "joined_op (RfWait i g) = Some i"
| "joined_op _ = None"

definition mu_inv :: "group_state \<Rightarrow> bool" where
  "mu_inv s \<longleftrightarrow> (\<forall>k < length (gs_workers s). holds_mu (gs_workers s ! k) \<longleftrightarrow> gs_mu s = Some k)"

lemma holds_refresh_get:
  "holds_mu (refresh_get g r fail old store) \<longleftrightarrow>
     (case r of None \<Rightarrow> holds_mu fail | Some y \<Rightarrow> if result_gen y > g then holds_mu (store y) else holds_mu old)"
  "runs_op (refresh_get g r fail old store) =
     (case r of None \<Rightarrow> runs_op fail | Some y \<Rightarrow> if result_gen y > g then runs_op (store y) else runs_op old)"
  "joined_op (refresh_get g r fail old store) =
     (case r of None \<Rightarrow> joined_op fail | Some y \<Rightarrow> if result_gen y > g then joined_op (store y) else joined_op old)"
  by (cases r; simp)+

lemma mu_inv_stay:
  assumes "mu_inv s" "k < length (gs_workers s)" "gs_workers s' = (gs_workers s)[k := x]"
    "holds_mu x = holds_mu (gs_workers s ! k)" "gs_mu s' = gs_mu s"
  shows "mu_inv s'"
  using assms by (auto simp: mu_inv_def nth_list_update)

lemma mu_inv_release:
  assumes "mu_inv s" "k < length (gs_workers s)" "gs_workers s' = (gs_workers s)[k := x]"
    "holds_mu (gs_workers s ! k)" "\<not> holds_mu x" "gs_mu s' = None"
  shows "mu_inv s'"
  using assms by (auto simp: mu_inv_def nth_list_update)

lemma mu_inv_env: "mu_inv s \<Longrightarrow> gs_workers s' = gs_workers s \<Longrightarrow> gs_mu s' = gs_mu s \<Longrightarrow> mu_inv s'"
  by (simp add: mu_inv_def)

lemma mu_inv_step:
  assumes inv: "mu_inv s" and step: "refresh_step link s s'"
  shows "mu_inv s'"
  using step
proof cases
  case (rf_lock k g)
  then show ?thesis
    using inv by (auto simp: mu_inv_def nth_list_update)
next
  case (rf_held_rest k g)
  show ?thesis
    unfolding rf_held_rest(1) refresh_rest_def
    using mu_inv_release [OF inv rf_held_rest(2)] rf_held_rest(3) by (auto split: option.splits)
next
  case (rf_held_new k g)
  then show ?thesis by (auto intro: mu_inv_release [OF inv])
next
  case (rf_held_put k g r)
  then show ?thesis by (auto intro: mu_inv_release [OF inv])
next
  case (rf_finish k i g b)
  then show ?thesis by (auto intro!: mu_inv_stay [OF inv] simp: refresh_finish_def)
next
  case (rf_publish up op)
  then show ?thesis by (auto intro: mu_inv_env [OF inv])
next
  case (rf_invalidate g)
  then show ?thesis by (auto intro: mu_inv_env [OF inv])
next
  case (rf_tick t)
  then show ?thesis by (auto intro: mu_inv_env [OF inv])
qed (use inv in \<open>auto intro!: mu_inv_stay [OF inv] simp: holds_refresh_get split: option.splits if_splits\<close>)

text \<open>The operations: one worker runs an operation until it is done, and only the active one is not done.\<close>

definition run_ok :: "bool list \<Rightarrow> nat option \<Rightarrow> refresher list \<Rightarrow> bool" where
  "run_ok ops act ws \<longleftrightarrow>
     (\<forall>i < length ops. count_if (\<lambda>x. runs_op x = Some i) ws = (if ops ! i then 0 else 1))
     \<and> (\<forall>k < length ws. \<forall>i. runs_op (ws ! k) = Some i \<or> joined_op (ws ! k) = Some i \<longrightarrow> i < length ops)
     \<and> (\<forall>i < length ops. \<not> ops ! i \<longrightarrow> act = Some i)
     \<and> (\<forall>i. act = Some i \<longrightarrow> i < length ops \<and> \<not> ops ! i)"

lemma run_okI:
  assumes "\<And>i. i < length ops \<Longrightarrow> count_if (\<lambda>x. runs_op x = Some i) ws = (if ops ! i then 0 else 1)"
    "\<And>k i. k < length ws \<Longrightarrow> runs_op (ws ! k) = Some i \<or> joined_op (ws ! k) = Some i \<Longrightarrow> i < length ops"
    "\<And>i. i < length ops \<Longrightarrow> \<not> ops ! i \<Longrightarrow> act = Some i"
    "\<And>i. act = Some i \<Longrightarrow> i < length ops \<and> \<not> ops ! i"
  shows "run_ok ops act ws"
  unfolding run_ok_def
proof (intro conjI)
  show "\<forall>i < length ops. count_if (\<lambda>x. runs_op x = Some i) ws = (if ops ! i then 0 else 1)"
    using assms(1) by blast
  show "\<forall>k < length ws. \<forall>i. runs_op (ws ! k) = Some i \<or> joined_op (ws ! k) = Some i \<longrightarrow> i < length ops"
    using assms(2) by blast
  show "\<forall>i < length ops. \<not> ops ! i \<longrightarrow> act = Some i"
    using assms(3) by blast
  show "\<forall>i. act = Some i \<longrightarrow> i < length ops \<and> \<not> ops ! i"
    using assms(4) by blast
qed

lemma run_okD:
  assumes "run_ok ops act ws"
  shows "i < length ops \<Longrightarrow> count_if (\<lambda>x. runs_op x = Some i) ws = (if ops ! i then 0 else 1)"
    "k < length ws \<Longrightarrow> runs_op (ws ! k) = Some i \<Longrightarrow> i < length ops"
    "k < length ws \<Longrightarrow> joined_op (ws ! k) = Some i \<Longrightarrow> i < length ops"
    "i < length ops \<Longrightarrow> \<not> ops ! i \<Longrightarrow> act = Some i"
    "act = Some i \<Longrightarrow> i < length ops"
    "act = Some i \<Longrightarrow> \<not> ops ! i"
  using assms unfolding run_ok_def by blast+

lemma runs_update:
  assumes "k < length xs"
  shows "count_if (\<lambda>x. runs_op x = Some i) (xs[k := y]) + of_bool (runs_op (xs ! k) = Some i)
     = count_if (\<lambda>x. runs_op x = Some i) xs + of_bool (runs_op y = Some i)"
  using count_if_update [OF assms, of "\<lambda>x. runs_op x = Some i" y]
    count_if_pos [OF assms, of "\<lambda>x. runs_op x = Some i"]
  by (cases "runs_op (xs ! k) = Some i"; cases "runs_op y = Some i") simp_all

lemma run_ok_stay:
  assumes ok: "run_ok ops act ws" and k: "k < length ws" and same: "runs_op x = runs_op (ws ! k)"
    and j: "\<And>i. joined_op x = Some i \<Longrightarrow> i < length ops"
  shows "run_ok ops act (ws[k := x])"
proof (rule run_okI)
  show "count_if (\<lambda>x. runs_op x = Some i) (ws[k := x]) = (if ops ! i then 0 else 1)" if "i < length ops" for i
    using run_okD(1) [OF ok that] runs_update [OF k, of i x] same by (simp split: if_splits)
  show "i < length ops"
    if "l < length (ws[k := x])" "runs_op (ws[k := x] ! l) = Some i \<or> joined_op (ws[k := x] ! l) = Some i" for l i
  proof (cases "l = k")
    case True
    then show ?thesis
      using that(2) k j [of i] run_okD(2) [OF ok k, of i] same by auto
  next
    case False
    then show ?thesis
      using that run_okD(2,3) [OF ok, of l i] by auto
  qed
qed (use run_okD(4-6) [OF ok] in blast)+

lemma run_ok_start:
  assumes ok: "run_ok ops None ws" and k: "k < length ws" and none: "runs_op (ws ! k) = None"
  shows "run_ok (ops @ [False]) (Some (length ops)) (ws[k := RfRun (length ops) g])"
proof (rule run_okI)
  have old: "ops ! i" if "i < length ops" for i
    using run_okD(4) [OF ok that] by auto
  have zero: "count_if (\<lambda>x. runs_op x = Some (length ops)) ws = 0"
    using run_okD(2) [OF ok] by (fastforce simp: count_if_zero_iff in_set_conv_nth)
  show "count_if (\<lambda>x. runs_op x = Some i) (ws[k := RfRun (length ops) g])
      = (if (ops @ [False]) ! i then 0 else 1)" if "i < length (ops @ [False])" for i
  proof (cases "i = length ops")
    case True
    then show ?thesis
      using zero none runs_update [OF k, of i "RfRun (length ops) g"] by simp
  next
    case False
    then have "i < length ops"
      using that by simp
    then show ?thesis
      using False run_okD(1) [OF ok, of i] none runs_update [OF k, of i "RfRun (length ops) g"]
      by (simp add: nth_append)
  qed
  show "i < length (ops @ [False])"
    if "l < length (ws[k := RfRun (length ops) g])"
      "runs_op (ws[k := RfRun (length ops) g] ! l) = Some i \<or> joined_op (ws[k := RfRun (length ops) g] ! l) = Some i" for l i
  proof (cases "l = k")
    case True
    then show ?thesis using that(2) k by auto
  next
    case False
    then have "i < length ops"
      using that run_okD(2,3) [OF ok, of l i] by auto
    then show ?thesis by simp
  qed
  show "Some (length ops) = Some i" if "i < length (ops @ [False])" "\<not> (ops @ [False]) ! i" for i
    using that old [of i] by (cases "i = length ops") (auto simp: nth_append)
  show "i < length (ops @ [False]) \<and> \<not> (ops @ [False]) ! i" if "Some (length ops) = Some i" for i
    using that by auto
qed

lemma run_ok_finish:
  assumes ok: "run_ok ops act ws" and k: "k < length ws" and run: "runs_op (ws ! k) = Some i"
  shows "run_ok (ops[i := True]) (if act = Some i then None else act) (ws[k := RfReturn g b])"
proof (rule run_okI)
  note D = run_okD [OF ok]
  have i: "i < length ops"
    by (rule D(2) [OF k run])
  have open_i: "\<not> ops ! i"
    using D(1) [OF i] count_if_pos [OF k, of "\<lambda>x. runs_op x = Some i"] run by (auto split: if_splits)
  have act: "act = Some i"
    by (rule D(4) [OF i open_i])
  have others: "ops ! j" if "j < length ops" "j \<noteq> i" for j
    using D(4) [OF that(1)] act that(2) by auto
  show "count_if (\<lambda>x. runs_op x = Some j) (ws[k := RfReturn g b]) = (if ops[i := True] ! j then 0 else 1)"
    if "j < length (ops[i := True])" for j
  proof (cases "j = i")
    case True
    then show ?thesis
      using D(1) [OF i] open_i run runs_update [OF k, of i "RfReturn g b"] i by simp
  next
    case False
    then show ?thesis
      using D(1) [of j] that run runs_update [OF k, of j "RfReturn g b"] by simp
  qed
  show "j < length (ops[i := True])"
    if "l < length (ws[k := RfReturn g b])"
      "runs_op (ws[k := RfReturn g b] ! l) = Some j \<or> joined_op (ws[k := RfReturn g b] ! l) = Some j" for l j
  proof (cases "l = k")
    case True
    then show ?thesis using that(2) k by auto
  next
    case False
    then show ?thesis
      using that D(2,3) [of l j] by auto
  qed
  show "(if act = Some i then None else act) = Some j"
    if "j < length (ops[i := True])" "\<not> ops[i := True] ! j" for j
    using that others [of j] i by (cases "j = i") auto
  show "j < length (ops[i := True]) \<and> \<not> ops[i := True] ! j" if "(if act = Some i then None else act) = Some j" for j
    using that act by simp
qed

definition run_inv :: "group_state \<Rightarrow> bool" where
  "run_inv s \<longleftrightarrow> run_ok (gs_ops s) (gs_activeOp s) (gs_workers s)"

lemma run_inv_move:
  assumes "run_inv s" "k < length (gs_workers s)" "runs_op x = runs_op (gs_workers s ! k)"
    "\<And>i. joined_op x = Some i \<Longrightarrow> i < length (gs_ops s)"
    "gs_workers s0 = gs_workers s" "gs_ops s0 = gs_ops s" "gs_activeOp s0 = gs_activeOp s"
  shows "run_inv (set_worker k x s0)"
  using run_ok_stay [OF assms(1) [unfolded run_inv_def] assms(2-4)] assms(5-7) by (simp add: run_inv_def)

lemma run_inv_rest:
  assumes inv: "run_inv s" and k: "k < length (gs_workers s)" "gs_workers s ! k = RfHeldRest g"
  shows "run_inv (refresh_rest k g s)"
proof (cases "gs_activeOp s")
  note ok = inv [unfolded run_inv_def]
  {
    case None
    then have "run_ok (gs_ops s) None (gs_workers s)"
      using ok by simp
    note start = run_ok_start [OF this k(1), of g]
    show ?thesis
    proof (cases "too_early s")
      case True
      then show ?thesis
        using k None by (auto simp: refresh_rest_def intro!: run_inv_move [OF inv k(1)])
    next
      case False
      then show ?thesis
        using start k None by (simp add: refresh_rest_def run_inv_def unlock_def set_worker_def)
    qed
  next
    case (Some i)
    then show ?thesis
      using run_okD(5) [OF ok Some] k
      by (auto simp: refresh_rest_def intro!: run_inv_move [OF inv k(1)])
  }
qed

lemma run_inv_step:
  assumes inv: "run_inv s" and step: "refresh_step link s s'"
  shows "run_inv s'"
proof -
  note move = run_inv_move [OF inv]
  from step show ?thesis
  proof cases
    case (rf_held_rest k g)
    then show ?thesis using run_inv_rest [OF inv] by simp
  next
    case (rf_finish k i g b)
    then show ?thesis
      using run_ok_finish [OF inv [unfolded run_inv_def], of k i g b]
      by (simp add: run_inv_def refresh_finish_def set_worker_def)
  next
    case (rf_shared_get k g r)
    show ?thesis
      unfolding rf_shared_get(1) by (rule move [OF rf_shared_get(2)])
        (use rf_shared_get(3) in \<open>simp_all add: holds_refresh_get split: option.splits if_splits\<close>)
  next
    case (rf_held_get k g r)
    show ?thesis
      unfolding rf_held_get(1) by (rule move [OF rf_held_get(2)])
        (use rf_held_get(3) in \<open>simp_all add: holds_refresh_get split: option.splits if_splits\<close>)
  next
    case (rf_run_get k i g r)
    show ?thesis
      unfolding rf_run_get(1) by (rule move [OF rf_run_get(2)])
        (use rf_run_get(3) in \<open>simp_all split: option.splits\<close>)
  next
    case (rf_publish up op)
    then show ?thesis using inv by (simp add: run_inv_def)
  next
    case (rf_invalidate g)
    then show ?thesis using inv by (simp add: run_inv_def)
  next
    case (rf_tick t)
    then show ?thesis using inv by (simp add: run_inv_def)
  next
    case (rf_session k g refused)
    show ?thesis
      unfolding rf_session(1) by (rule move [OF rf_session(2)]) (use rf_session(3) in \<open>simp_all split: if_splits\<close>)
  next
    case (rf_local k g)
    show ?thesis
      unfolding rf_local(1) by (rule move [OF rf_local(2)]) (use rf_local(3) in \<open>simp_all split: if_splits\<close>)
  next
    case (rf_shared k g)
    show ?thesis
      unfolding rf_shared(1) by (rule move [OF rf_shared(2)]) (use rf_shared(3) in \<open>simp_all split: if_splits\<close>)
  next
    case (rf_held_cache k g)
    show ?thesis
      unfolding rf_held_cache(1) by (rule move [OF rf_held_cache(2)])
        (use rf_held_cache(3) in \<open>simp_all split: if_splits\<close>)
  qed (auto intro!: move)
qed

section \<open>The pace of requests\<close>

text \<open>Each time is fifteen seconds later than the next of the list when both are cut down to seconds.\<close>

fun spaced :: "gotime list \<Rightarrow> bool" where
  "spaced (t # u # ts) \<longleftrightarrow> unix_seconds u + 15 \<le> unix_seconds t \<and> spaced (u # ts)"
| "spaced ts = True"

text \<open>What that means for the times themselves: more than fourteen seconds, for any two of them\<close>

lemma seconds_apart:
  assumes "unix_seconds u + 15 \<le> unix_seconds t"
  shows "u + 14 * second < t"
proof -
  have "u < u div second * second + second"
    using pos_mod_bound [of second u] div_mult_mod_eq [of u second] by (simp add: second_def)
  moreover have "(u div second + 15) * second \<le> t div second * second"
    using assms by (simp add: unix_seconds_def second_def)
  moreover have "t div second * second \<le> t"
    using pos_mod_sign [of second t] div_mult_mod_eq [of t second] by (simp add: second_def)
  ultimately show ?thesis
    by (simp add: algebra_simps)
qed

lemma spaced_pairwise: "spaced ts \<Longrightarrow> sorted_wrt (\<lambda>t u. u + 14 * second < t) ts"
proof (induction ts rule: spaced.induct)
  case (1 t u ts)
  then have "u + 14 * second < t"
    by (simp add: seconds_apart)
  then show ?case
    using 1 by (fastforce simp: second_def)
qed simp_all

definition pace_inv :: "group_state \<Rightarrow> bool" where
  "pace_inv s \<longleftrightarrow>
     0 < now_seconds s \<and> gs_last s = (case gs_starts s of [] \<Rightarrow> 0 | t # ts \<Rightarrow> unix_seconds t) \<and> spaced (gs_starts s)
     \<and> (\<forall>t \<in> set (gs_starts s). 0 < unix_seconds t)"

lemma pace_inv_same:
  "pace_inv s \<Longrightarrow> gs_now s \<le> gs_now s' \<Longrightarrow> gs_last s' = gs_last s \<Longrightarrow> gs_starts s' = gs_starts s \<Longrightarrow> pace_inv s'"
  using zdiv_mono1 [of "gs_now s" "gs_now s'" second]
  by (simp add: pace_inv_def now_seconds_def unix_seconds_def second_def)

lemma pace_inv_step:
  assumes inv: "pace_inv s" and step: "refresh_step link s s'"
  shows "pace_inv s'"
  using step
proof cases
  case (rf_held_rest k g)
  have "pace_inv (refresh_rest k g s)"
  proof (cases "gs_activeOp s = None \<and> \<not> too_early s")
    case True
    have now: "now_seconds (refresh_rest k g s) = now_seconds s"
      using True by (simp add: refresh_rest_def now_seconds_def)
    have "spaced (gs_now s # gs_starts s)"
      using True inv by (cases "gs_starts s") (auto simp: too_early_def pace_inv_def now_seconds_def)
    then show ?thesis
      using True inv unfolding pace_inv_def now by (simp add: refresh_rest_def now_seconds_def)
  next
    case False
    then show ?thesis
      by (intro pace_inv_same [OF inv]) (auto simp: refresh_rest_def split: option.splits)
  qed
  then show ?thesis using rf_held_rest by simp
next
  case (rf_finish k i g b)
  then show ?thesis by (auto intro!: pace_inv_same [OF inv] simp: refresh_finish_def)
qed (auto intro!: pace_inv_same [OF inv])

definition refresh_inv :: "group_state \<Rightarrow> bool" where
  "refresh_inv s \<longleftrightarrow> gen_inv s \<and> mu_inv s \<and> run_inv s \<and> pace_inv s"

lemma refresh_inv_init: "refresh_init s \<Longrightarrow> refresh_inv s"
  by (auto simp: refresh_init_def NewGroupCredCoordinator_def refresh_inv_def gen_inv_def mu_inv_def run_inv_def
      run_ok_def pace_inv_def now_seconds_def unix_seconds_def cache_good_def CurrentGeneration_def)

definition refresh_run :: "string \<Rightarrow> group_state \<Rightarrow> group_state \<Rightarrow> bool" where
  "refresh_run link s s' \<longleftrightarrow> link \<noteq> [] \<and> refresh_step link s s'"

interpretation refresh_runs: invariant_system refresh_init "refresh_run link" refresh_inv
  by unfold_locales (erule refresh_inv_init,
      auto simp: refresh_inv_def refresh_run_def intro: gen_inv_step mu_inv_step run_inv_step pace_inv_step)

section \<open>Properties\<close>

lemma count_if_two:
  assumes "k < l" "l < length xs" "P (xs ! k)" "P (xs ! l)"
  shows "2 \<le> count_if P xs"
proof -
  have "count_if P xs = count_if P (take l xs) + count_if P (drop l xs)"
    by (metis append_take_drop_id count_if_append)
  moreover have "0 < count_if P (take l xs)"
    using count_if_pos [of k "take l xs" P] assms by simp
  moreover have "0 < count_if P (drop l xs)"
    using count_if_pos [of 0 "drop l xs" P] assms by simp
  ultimately show ?thesis by simp
qed

lemma count_if_one_unique:
  assumes "count_if P xs \<le> 1" "k < length xs" "l < length xs" "P (xs ! k)" "P (xs ! l)"
  shows "k = l"
  using count_if_two [of k l xs P] count_if_two [of l k xs P] assms by (metis Suc_1 not_less_eq_eq nat_neq_iff)

lemma count_if_pos_ex: "0 < count_if P xs \<Longrightarrow> \<exists>k < length xs. P (xs ! k)"
  by (metis count_if_zero_iff in_set_conv_nth less_nat_zero_code)

text \<open>
  C12. A group refreshes its credentials one request at a time: at most one worker runs a
  refresh, the others wait for an operation that is done or is being run by some worker, and the
  mutex has the holder that is in its region. Any two operations of the coordinator, in which it drops the credentials of the cache and asks for new
  ones, are started more than fourteen seconds apart by a clock that is not set back: consecutive ones fifteen when their times are cut down
  to whole seconds, as the code does. The calls that only fetch a newer result the shared cache already has are not operations
  and have no such distance.
\<close>

theorem refresh_single_flight:
  assumes "reach refresh_init (refresh_run link) s"
  shows "(\<forall>k < length (gs_workers s). \<forall>l < length (gs_workers s).
           runs_op (gs_workers s ! k) \<noteq> None \<and> runs_op (gs_workers s ! l) \<noteq> None \<longrightarrow> k = l)
    \<and> (\<forall>k < length (gs_workers s). \<forall>i g. gs_workers s ! k = RfWait i g \<longrightarrow>
         gs_ops s ! i \<or> (\<exists>l < length (gs_workers s). runs_op (gs_workers s ! l) = Some i))
    \<and> (\<forall>k < length (gs_workers s). holds_mu (gs_workers s ! k) \<longleftrightarrow> gs_mu s = Some k)
    \<and> sorted_wrt (\<lambda>t u. u + 14 * second < t) (gs_starts s) \<and> spaced (gs_starts s)"
proof (intro conjI allI impI)
  have inv: "refresh_inv s"
    by (rule refresh_runs.reach_inv [OF assms])
  have ok: "run_ok (gs_ops s) (gs_activeOp s) (gs_workers s)"
    using inv by (simp add: refresh_inv_def run_inv_def)
  note D = run_okD [OF ok]
  show "k = l"
    if kl: "k < length (gs_workers s)" "l < length (gs_workers s)"
      and both: "runs_op (gs_workers s ! k) \<noteq> None \<and> runs_op (gs_workers s ! l) \<noteq> None" for k l
  proof -
    obtain i j where r: "runs_op (gs_workers s ! k) = Some i" "runs_op (gs_workers s ! l) = Some j"
      using both by auto
    have act: "gs_activeOp s = Some a"
      if "m < length (gs_workers s)" "runs_op (gs_workers s ! m) = Some a" for m a
    proof (rule D(4) [OF D(2) [OF that]])
      show "\<not> gs_ops s ! a"
        using D(1) [OF D(2) [OF that]] count_if_pos [OF that(1), of "\<lambda>x. runs_op x = Some a"] that(2)
        by (auto split: if_splits)
    qed
    have "i = j"
      using act [OF kl(1) r(1)] act [OF kl(2) r(2)] by simp
    then show "k = l"
      using count_if_one_unique [of "\<lambda>x. runs_op x = Some i" "gs_workers s" k l] D(1) [OF D(2) [OF kl(1) r(1)]] kl r
      by (auto split: if_splits)
  qed
  show "gs_ops s ! i \<or> (\<exists>l < length (gs_workers s). runs_op (gs_workers s ! l) = Some i)"
    if "k < length (gs_workers s)" "gs_workers s ! k = RfWait i g" for k i g
    using D(1) [of i] D(3) [OF that(1), of i] that(2) count_if_pos_ex [of "\<lambda>x. runs_op x = Some i" "gs_workers s"]
    by (auto split: if_splits)
  show "holds_mu (gs_workers s ! k) \<longleftrightarrow> gs_mu s = Some k" if "k < length (gs_workers s)" for k
    using inv that by (simp add: refresh_inv_def mu_inv_def)
  show "spaced (gs_starts s)" "sorted_wrt (\<lambda>t u. u + 14 * second < t) (gs_starts s)"
    using inv by (simp_all add: refresh_inv_def pace_inv_def spaced_pairwise)
qed

text \<open>
  C13. Credentials are replaced only by newer ones than the refused ones: whenever a step changes the
  credentials of the group, a worker whose snapshot was refused stores what it got from the cache, and the
  generation stored is greater than the one that was refused to it and at most the newest of the link.
\<close>

theorem refresh_newer:
  assumes "reach refresh_init (refresh_run link) s" "refresh_run link s s'" "gs_creds s' \<noteq> gs_creds s"
  shows "\<exists>k g r. k < length (gs_workers s)
    \<and> (gs_workers s ! k = RfSharedPut g r \<or> gs_workers s ! k = RfHeldPut g r
       \<or> (\<exists>i. gs_workers s ! k = RfRunPut i g r))
    \<and> gs_creds s' = group_creds r s
    \<and> g < cr_Generation (gs_creds s') \<and> cr_Generation (gs_creds s') \<le> ca_generation (gs_cache s)"
proof -
  have inv: "gen_inv s"
    using refresh_runs.reach_inv [OF assms(1)] by (simp add: refresh_inv_def)
  have ok: "refresher_ok (gs_cache s) (gs_workers s ! k)" if "k < length (gs_workers s)" for k
    using inv that by (simp add: gen_inv_def)
  have rest: "gs_creds (refresh_rest k g s) = gs_creds s" for k g
    by (simp add: refresh_rest_def split: option.splits)
  have fin: "gs_creds (refresh_finish i s) = gs_creds s" for i
    by (simp add: refresh_finish_def)
  have step: "refresh_step link s s'"
    using assms(2) by (simp add: refresh_run_def)
  then consider k g r where "k < length (gs_workers s)" "gs_creds s' = group_creds r s"
      "gs_workers s ! k = RfSharedPut g r \<or> gs_workers s ! k = RfHeldPut g r \<or> (\<exists>i. gs_workers s ! k = RfRunPut i g r)"
    using assms(3) by cases (auto simp: rest fin)
  then show ?thesis
  proof cases
    case (1 k g r)
    then show ?thesis
      using ok [OF 1(1)] by (intro exI [of _ k] exI [of _ g] exI [of _ r]) auto
  qed
qed

section \<open>A race of two refreshes\<close>

text \<open>
  Two workers; the cache gives generation 1, then 2, then 3. \<open>race_cache n\<close> holds generation
  \<open>n\<close>, \<open>race_empty n\<close> is the cache after that generation was refused.
\<close>

definition race_time :: gotime where
  "race_time = 63900000000 * second"

definition race_result :: "nat \<Rightarrow> creds_result" where
  "race_result n = (''u'', ''p'', [''a''], n)"

definition race_cache :: "nat \<Rightarrow> StreamCredentialsCache" where
  "race_cache n =
     \<lparr>ca_creds = \<lparr>tc_Username = ''u'', tc_Password = ''p'', tc_ServerAddrs = [''a''],
        tc_ExpiresAt = race_time + (credentialLifetime - cacheSafetyMargin), tc_Link = ''abc'', tc_Generation = n\<rparr>,
      ca_errorCount = 0, ca_lastErrorTime = 0, ca_generation = n, ca_revision = 2 * n, ca_activeFetch = None\<rparr>"

definition race_empty :: "nat \<Rightarrow> StreamCredentialsCache" where
  "race_empty n = (race_cache n)\<lparr>ca_creds := zero_creds, ca_revision := 2 * n + 1\<rparr>"

definition race_state :: "nat \<Rightarrow> StreamCredentialsCache \<Rightarrow> refresher \<Rightarrow> refresher \<Rightarrow> group_state" where
  "race_state n c a b =
     \<lparr>gs_group = 1, gs_stream = 100,
      gs_creds = \<lparr>cr_User = ''u'', cr_Pass = ''p'', cr_TurnURLs = [''a''], cr_CacheStreamID = 100,
        cr_Generation = n, cr_GroupID = 1, cr_AttemptID = 0, cr_PreferredTurnURL = []\<rparr>,
      gs_activeOp = None, gs_ops = [], gs_last = 0, gs_mu = None, gs_workers = [a, b], gs_cache = c,
      gs_account = account_start, gs_now = race_time, gs_starts = []\<rparr>"

lemma race_lookup: "cache_lookup ''abc'' race_time (race_cache n) = Some (race_result n)"
  by (simp add: cache_lookup_def cache_valid_def read_creds_def race_cache_def race_result_def
      credentialLifetime_def cacheSafetyMargin_def duration_defs)

lemma race_publish:
  "snd (publish ''abc'' race_time (Inr (''u'', ''p'', [''a''])) (new_op (race_empty n)) (race_empty n))
     = race_cache (n + 1)"
  by (simp add: publish_def new_op_def race_empty_def race_cache_def Let_def)

lemma race_invalidate: "0 < n \<Longrightarrow> fst (invalidate_gen n (race_cache n)) = race_empty n"
  by (simp add: invalidate_gen_def race_cache_def race_empty_def)

lemma race_simps [simp]:
  "gs_now (race_state n c a b) = race_time" "gs_cache (race_state n c a b) = c"
  "gs_workers (race_state n c a b) = [a, b]" "CurrentGeneration (race_state n c a b) = n"
  "set_worker 0 x (race_state n c a b) = race_state n c x b"
  "set_worker (Suc 0) x (race_state n c a b) = race_state n c a x"
  "set_worker 1 x (race_state n c a b) = race_state n c a x"
  "(race_state n c a b)\<lparr>gs_cache := c'\<rparr> = race_state n c' a b"
  "put_creds (race_result m) (race_state n c a b) = race_state m c a b"
  "result_gen (race_result m) = m"
  by (simp_all add: race_state_def CurrentGeneration_def set_worker_def put_creds_def group_creds_def
      race_result_def result_gen_def)

lemma race_newer [simp]:
  "newer_local g (race_state n c a b) \<longleftrightarrow> 0 < g \<and> g < n"
  "newer_shared ''abc'' g (race_state n (race_cache m) a b) \<longleftrightarrow> 0 < g \<and> g < m"
  by (simp_all add: newer_local_def newer_shared_def)
    (auto simp: cache_valid_def race_cache_def credentialLifetime_def cacheSafetyMargin_def duration_defs)

lemma race_go:
  "reach refresh_init (refresh_run ''abc'') s \<Longrightarrow> refresh_step ''abc'' s t \<Longrightarrow>
   reach refresh_init (refresh_run ''abc'') t"
  by (rule reach.reach_step) (simp_all add: refresh_run_def)

lemma race_reach:
  "reach refresh_init (refresh_run ''abc'')
     (race_state 3 (race_cache 3) (RfSharedPut 1 (race_result 2)) (RfReturn 2 True))"
proof -
  let ?R = "reach refresh_init (refresh_run ''abc'')"
  have pub: "snd (publish ''abc'' race_time (Inr (''u'', ''p'', [''a''])) (new_op (race_empty 1)) (race_empty 1)) = race_cache 2"
    "snd (publish ''abc'' race_time (Inr (''u'', ''p'', [''a''])) (new_op (race_empty 2)) (race_empty 2)) = race_cache 3"
    using race_publish [of 1] race_publish [of 2] by (simp_all add: eval_nat_numeral)
  note more = race_lookup pub race_invalidate
  have "?R (race_state 1 (race_cache 1) (RfIdle) (RfIdle))"
  proof (rule reach.reach_init, unfold refresh_init_def, intro exI conjI)
    show "race_state 1 (race_cache 1) RfIdle RfIdle
        = NewGroupCredCoordinator 1 100 (gs_creds (race_state 1 (race_cache 1) RfIdle RfIdle)) 2 (race_cache 1)
            account_start race_time"
      by (simp add: race_state_def NewGroupCredCoordinator_def numeral_2_eq_2)
  qed (simp_all add: race_state_def race_cache_def race_time_def second_def)
  then have "?R (race_state 1 (race_cache 1) (RfSession 1) (RfIdle))"
    by (rule race_go) (use rf_snapshot [of 0 "race_state 1 (race_cache 1) (RfIdle) (RfIdle)", where link = "''abc''"]
      in \<open>simp add: more del: One_nat_def\<close>)
  then have "?R (race_state 1 (race_cache 1) (RfSession 1) (RfSession 1))"
    by (rule race_go) (use rf_snapshot [of 1 "race_state 1 (race_cache 1) (RfSession 1) (RfIdle)", where link = "''abc''"]
      in \<open>simp add: more del: One_nat_def\<close>)
  then have "?R (race_state 1 (race_cache 1) (RfLocal 1) (RfSession 1))"
    by (rule race_go) (use rf_session [of 0 "race_state 1 (race_cache 1) (RfSession 1) (RfSession 1)" 1 _ True, where link = "''abc''"]
      in \<open>simp add: more del: One_nat_def\<close>)
  then have "?R (race_state 1 (race_cache 1) (RfShared 1) (RfSession 1))"
    by (rule race_go) (use rf_local [of 0 "race_state 1 (race_cache 1) (RfLocal 1) (RfSession 1)" 1, where link = "''abc''"]
      in \<open>simp add: more del: One_nat_def\<close>)
  then have "?R (race_state 1 (race_cache 1) (RfShared 1) (RfLocal 1))"
    by (rule race_go) (use rf_session [of 1 "race_state 1 (race_cache 1) (RfShared 1) (RfSession 1)" 1 _ True, where link = "''abc''"]
      in \<open>simp add: more del: One_nat_def\<close>)
  then have "?R (race_state 1 (race_cache 1) (RfShared 1) (RfShared 1))"
    by (rule race_go) (use rf_local [of 1 "race_state 1 (race_cache 1) (RfShared 1) (RfLocal 1)" 1, where link = "''abc''"]
      in \<open>simp add: more del: One_nat_def\<close>)
  then have "?R (race_state 1 (race_empty 1) (RfShared 1) (RfShared 1))"
    by (rule race_go) (use rf_invalidate [of "''abc''" "race_state 1 (race_cache 1) (RfShared 1) (RfShared 1)" 1]
      in \<open>simp add: more del: One_nat_def\<close>)
  then have "?R (race_state 1 (race_cache 2) (RfShared 1) (RfShared 1))"
    by (rule race_go) (use rf_publish [of "''abc''" "race_state 1 (race_empty 1) (RfShared 1) (RfShared 1)" "(''u'', ''p'', [''a''])" "new_op (race_empty 1)"]
      in \<open>simp add: more del: One_nat_def\<close>)
  then have "?R (race_state 1 (race_cache 2) (RfSharedGet 1) (RfShared 1))"
    by (rule race_go) (use rf_shared [of 0 "race_state 1 (race_cache 2) (RfShared 1) (RfShared 1)" 1, where link = "''abc''"]
      in \<open>simp add: more del: One_nat_def\<close>)
  then have "?R (race_state 1 (race_cache 2) (RfSharedPut 1 (race_result 2)) (RfShared 1))"
    by (rule race_go) (use rf_shared_get [of 0 "race_state 1 (race_cache 2) (RfSharedGet 1) (RfShared 1)" 1 "Some (race_result 2)", where link = "''abc''"]
      in \<open>simp add: more del: One_nat_def\<close>)
  then have "?R (race_state 1 (race_cache 2) (RfSharedPut 1 (race_result 2)) (RfSharedGet 1))"
    by (rule race_go) (use rf_shared [of 1 "race_state 1 (race_cache 2) (RfSharedPut 1 (race_result 2)) (RfShared 1)" 1, where link = "''abc''"]
      in \<open>simp add: more del: One_nat_def\<close>)
  then have "?R (race_state 1 (race_cache 2) (RfSharedPut 1 (race_result 2)) (RfSharedPut 1 (race_result 2)))"
    by (rule race_go) (use rf_shared_get [of 1 "race_state 1 (race_cache 2) (RfSharedPut 1 (race_result 2)) (RfSharedGet 1)" 1 "Some (race_result 2)", where link = "''abc''"]
      in \<open>simp add: more del: One_nat_def\<close>)
  then have "?R (race_state 2 (race_cache 2) (RfSharedPut 1 (race_result 2)) (RfReturn 1 True))"
    by (rule race_go) (use rf_shared_put [of 1 "race_state 1 (race_cache 2) (RfSharedPut 1 (race_result 2)) (RfSharedPut 1 (race_result 2))" 1 "race_result 2", where link = "''abc''"]
      in \<open>simp add: more del: One_nat_def\<close>)
  then have "?R (race_state 2 (race_cache 2) (RfSharedPut 1 (race_result 2)) (RfIdle))"
    by (rule race_go) (use rf_return [of 1 "race_state 2 (race_cache 2) (RfSharedPut 1 (race_result 2)) (RfReturn 1 True)" 1 True, where link = "''abc''"]
      in \<open>simp add: more del: One_nat_def\<close>)
  then have "?R (race_state 2 (race_cache 2) (RfSharedPut 1 (race_result 2)) (RfSession 2))"
    by (rule race_go) (use rf_snapshot [of 1 "race_state 2 (race_cache 2) (RfSharedPut 1 (race_result 2)) (RfIdle)", where link = "''abc''"]
      in \<open>simp add: more del: One_nat_def\<close>)
  then have "?R (race_state 2 (race_cache 2) (RfSharedPut 1 (race_result 2)) (RfLocal 2))"
    by (rule race_go) (use rf_session [of 1 "race_state 2 (race_cache 2) (RfSharedPut 1 (race_result 2)) (RfSession 2)" 2 _ True, where link = "''abc''"]
      in \<open>simp add: more del: One_nat_def\<close>)
  then have "?R (race_state 2 (race_cache 2) (RfSharedPut 1 (race_result 2)) (RfShared 2))"
    by (rule race_go) (use rf_local [of 1 "race_state 2 (race_cache 2) (RfSharedPut 1 (race_result 2)) (RfLocal 2)" 2, where link = "''abc''"]
      in \<open>simp add: more del: One_nat_def\<close>)
  then have "?R (race_state 2 (race_empty 2) (RfSharedPut 1 (race_result 2)) (RfShared 2))"
    by (rule race_go) (use rf_invalidate [of "''abc''" "race_state 2 (race_cache 2) (RfSharedPut 1 (race_result 2)) (RfShared 2)" 2]
      in \<open>simp add: more del: One_nat_def\<close>)
  then have "?R (race_state 2 (race_cache 3) (RfSharedPut 1 (race_result 2)) (RfShared 2))"
    by (rule race_go) (use rf_publish [of "''abc''" "race_state 2 (race_empty 2) (RfSharedPut 1 (race_result 2)) (RfShared 2)" "(''u'', ''p'', [''a''])" "new_op (race_empty 2)"]
      in \<open>simp add: more del: One_nat_def\<close>)
  then have "?R (race_state 2 (race_cache 3) (RfSharedPut 1 (race_result 2)) (RfSharedGet 2))"
    by (rule race_go) (use rf_shared [of 1 "race_state 2 (race_cache 3) (RfSharedPut 1 (race_result 2)) (RfShared 2)" 2, where link = "''abc''"]
      in \<open>simp add: more del: One_nat_def\<close>)
  then have "?R (race_state 2 (race_cache 3) (RfSharedPut 1 (race_result 2)) (RfSharedPut 2 (race_result 3)))"
    by (rule race_go) (use rf_shared_get [of 1 "race_state 2 (race_cache 3) (RfSharedPut 1 (race_result 2)) (RfSharedGet 2)" 2 "Some (race_result 3)", where link = "''abc''"]
      in \<open>simp add: more del: One_nat_def\<close>)
  then have "?R (race_state 3 (race_cache 3) (RfSharedPut 1 (race_result 2)) (RfReturn 2 True))"
    by (rule race_go) (use rf_shared_put [of 1 "race_state 2 (race_cache 3) (RfSharedPut 1 (race_result 2)) (RfSharedPut 2 (race_result 3))" 2 "race_result 3", where link = "''abc''"]
      in \<open>simp add: more del: One_nat_def\<close>)
  then show ?thesis .
qed

text \<open>
  The credentials of a group can go back: the store of a result is not checked against the credentials that
  another worker has stored in the meantime, so there is a run in which the group, which already has generation
  3, takes generation 2 again, which was refused and removed from the cache before.
\<close>

theorem group_creds_go_back:
  "\<exists>s s'. reach refresh_init (refresh_run ''abc'') s \<and> refresh_run ''abc'' s s'
     \<and> CurrentGeneration s = 3 \<and> CurrentGeneration s' = 2"
proof (intro exI conjI)
  show "reach refresh_init (refresh_run ''abc'')
     (race_state 3 (race_cache 3) (RfSharedPut 1 (race_result 2)) (RfReturn 2 True))"
    by (rule race_reach)
  show "refresh_run ''abc'' (race_state 3 (race_cache 3) (RfSharedPut 1 (race_result 2)) (RfReturn 2 True))
      (race_state 2 (race_cache 3) (RfReturn 1 True) (RfReturn 2 True))"
    using rf_shared_put [of 0 "race_state 3 (race_cache 3) (RfSharedPut 1 (race_result 2)) (RfReturn 2 True)" 1 "race_result 2"] by (simp add: refresh_run_def)
qed simp_all

theorem refresh_single_flight_witness:
  "spaced (gs_starts (race_state 3 (race_cache 3) (RfSharedPut 1 (race_result 2)) (RfReturn 2 True)))"
  using refresh_single_flight [OF race_reach] by blast

theorem refresh_newer_witness:
  "\<exists>k. gs_workers (race_state 3 (race_cache 3) (RfSharedPut 1 (race_result 2)) (RfReturn 2 True)) ! k = RfSharedPut 1 (race_result 2)"
proof -
  have step: "refresh_run ''abc'' (race_state 3 (race_cache 3) (RfSharedPut 1 (race_result 2)) (RfReturn 2 True))
      (race_state 2 (race_cache 3) (RfReturn 1 True) (RfReturn 2 True))"
    using rf_shared_put [of 0 "race_state 3 (race_cache 3) (RfSharedPut 1 (race_result 2)) (RfReturn 2 True)" 1 "race_result 2"] by (simp add: refresh_run_def)
  have "gs_creds (race_state 2 (race_cache 3) (RfReturn 1 True) (RfReturn 2 True))
      \<noteq> gs_creds (race_state 3 (race_cache 3) (RfSharedPut 1 (race_result 2)) (RfReturn 2 True))"
    by (simp add: race_state_def)
  from refresh_newer [OF race_reach step this] show ?thesis
    by (intro exI [of _ 0]) simp
qed

end
