(* ===== verification/SessionErrors.thy ===== *)
theory SessionErrors
  imports HandshakeOutcome
begin

text \<open>
  The errors of a session. \<open>allocate_error\<close> is the classification of a failed
  \<^verbatim>\<open>Allocate\<close> in \<^verbatim>\<open>RunSession\<close> (\<^verbatim>\<open>session.go\<close>), \<open>workerErrorHint\<close> is \<^verbatim>\<open>errhint.go\<close>,
  \<open>worker_flags\<close> is how the worker of \<^verbatim>\<open>group.go\<close> reads an error back from its text.
  The classification passes through texts, so what a flag sees is what the prefix of
  \<^verbatim>\<open>RunSession\<close> and the text of the wrapped error contain; \<open>contains_wrapped\<close> reduces the
  one to the two.
\<close>

section \<open>Allocate\<close>

text \<open>The codes of \<^verbatim>\<open>stun\<close>: unauthorized, wrong credentials, forbidden, stale nonce, quota, capacity\<close>

definition has_any :: "string \<Rightarrow> string list \<Rightarrow> bool" where
  "has_any s ws \<longleftrightarrow> (\<exists>w \<in> set ws. contains s w)"

definition code_error :: "int \<Rightarrow> goerr \<Rightarrow> goerr" where
  "code_error c e =
     (if c = 401 \<or> c = 441 then ErrWrap (''TURN_AUTH_REJECTED ('' @ ([CHR 0xD0, CHR 0xBA, CHR 0xD0, CHR 0xBE, CHR 0xD0, CHR 0xB4] @ '' '') @ itoa c @ ''): '') e []
      else if c = 403 then ErrWrap (''TURN_FORBIDDEN ('' @ ([CHR 0xD0, CHR 0xBA, CHR 0xD0, CHR 0xBE, CHR 0xD0, CHR 0xB4] @ '' '') @ ''403): '') e []
      else if c = 438 then ErrWrap (''TURN_STALE_NONCE ('' @ ([CHR 0xD0, CHR 0xBA, CHR 0xD0, CHR 0xBE, CHR 0xD0, CHR 0xB4] @ '' '') @ ''438): '') e []
      else if c = 486 then ErrWrap (''TURN_QUOTA ('' @ ([CHR 0xD0, CHR 0xBA, CHR 0xD0, CHR 0xBE, CHR 0xD0, CHR 0xB4] @ '' '') @ ''486): '') e []
      else if c = 508 then ErrWrap (''TURN_CAPACITY ('' @ ([CHR 0xD0, CHR 0xBA, CHR 0xD0, CHR 0xBE, CHR 0xD0, CHR 0xB4] @ '' '') @ ''508): '') e []
      else ErrWrap (''TURN_ERROR ('' @ ([CHR 0xD0, CHR 0xBA, CHR 0xD0, CHR 0xBE, CHR 0xD0, CHR 0xB4] @ '' '') @ itoa c @ ''): '') e [])"

definition attribute_missing :: "goerr \<Rightarrow> bool" where
  "attribute_missing e \<longleftrightarrow>
     errors_is (Some e) StunAttributeNotFound \<or> contains (to_lower (err_text e)) ''attribute not found''"

definition text_error :: "string \<Rightarrow> goerr \<Rightarrow> goerr" where
  "text_error turnAddr e =
     (let s = err_text e; l = to_lower s in
      if has_any s [''401'', ''441''] \<or> has_any l [''unauthorized'', ''wrong credentials''] then
        ErrWrap ''TURN_AUTH_REJECTED: '' e []
      else if contains s ''403'' \<or> contains l ''forbidden'' then ErrWrap ''TURN_FORBIDDEN: '' e []
      else if contains s ''438'' \<or> contains l ''stale nonce'' then ErrWrap ''TURN_STALE_NONCE: '' e []
      else if contains s ''486'' \<or> contains l ''quota'' then ErrWrap ''TURN_QUOTA: '' e []
      else if contains s ''508'' \<or> contains l ''capacity'' then ErrWrap ''TURN_CAPACITY: '' e []
      else ErrWrap (''TURN Allocate ('' @ turnAddr @ ''): '') e [])"

definition allocate_error :: "string \<Rightarrow> goerr \<Rightarrow> goerr" where
  "allocate_error turnAddr e =
     (case errors_as is_turn_error (Some e) of
        Some (StunTurnError c s) \<Rightarrow> code_error c e
      | _ \<Rightarrow>
          if attribute_missing e then
            ErrWrap (''TURN_ATTR_NOT_FOUND ('' @ ([CHR 0xD0, CHR 0xBD, CHR 0xD0, CHR 0xB5, CHR 0xD0, CHR 0xBF, CHR 0xD0, CHR 0xBE, CHR 0xD0, CHR 0xBB, CHR 0xD0, CHR 0xBD, CHR 0xD1, CHR 0x8B, CHR 0xD0, CHR 0xB9] @ '' '' @ [CHR 0xD0, CHR 0xBE, CHR 0xD1, CHR 0x82, CHR 0xD0, CHR 0xB2, CHR 0xD0, CHR 0xB5, CHR 0xD1, CHR 0x82] @ '' '' @ [CHR 0xD0, CHR 0xB8, CHR 0xD0, CHR 0xBB, CHR 0xD0, CHR 0xB8] @ '' '' @ [CHR 0xD0, CHR 0xBE, CHR 0xD1, CHR 0x82, CHR 0xD1, CHR 0x81, CHR 0xD1, CHR 0x83, CHR 0xD1, CHR 0x82, CHR 0xD1, CHR 0x81, CHR 0xD1, CHR 0x82, CHR 0xD0, CHR 0xB2, CHR 0xD0, CHR 0xB8, CHR 0xD0, CHR 0xB5] @ '' '' @ [CHR 0xD0, CHR 0xBE, CHR 0xD0, CHR 0xB1, CHR 0xD1, CHR 0x8F, CHR 0xD0, CHR 0xB7, CHR 0xD0, CHR 0xB0, CHR 0xD1, CHR 0x82, CHR 0xD0, CHR 0xB5, CHR 0xD0, CHR 0xBB, CHR 0xD1, CHR 0x8C, CHR 0xD0, CHR 0xBD, CHR 0xD0, CHR 0xBE, CHR 0xD0, CHR 0xB3, CHR 0xD0, CHR 0xBE] @ '' '' @ [CHR 0xD0, CHR 0xB0, CHR 0xD1, CHR 0x82, CHR 0xD1, CHR 0x80, CHR 0xD0, CHR 0xB8, CHR 0xD0, CHR 0xB1, CHR 0xD1, CHR 0x83, CHR 0xD1, CHR 0x82, CHR 0xD0, CHR 0xB0] @ '' STUN/TURN'') @ ''): '') e []
          else text_error turnAddr e)"

section \<open>Hints\<close>

text \<open>The table of \<^verbatim>\<open>workerErrorHint\<close>: the first row one of whose words occurs gives the hint.\<close>

definition hint_table :: "(string list \<times> string) list" where
  "hint_table =
     [([''dtls_timeout''], ([CHR 0xD1, CHR 0x82, CHR 0xD0, CHR 0xB0, CHR 0xD0, CHR 0xB9, CHR 0xD0, CHR 0xBC, CHR 0xD0, CHR 0xB0, CHR 0xD1, CHR 0x83, CHR 0xD1, CHR 0x82] @ '' '' @ [CHR 0xD1, CHR 0x80, CHR 0xD1, CHR 0x83, CHR 0xD0, CHR 0xBA, CHR 0xD0, CHR 0xBE, CHR 0xD0, CHR 0xBF, CHR 0xD0, CHR 0xBE, CHR 0xD0, CHR 0xB6, CHR 0xD0, CHR 0xB0, CHR 0xD1, CHR 0x82, CHR 0xD0, CHR 0xB8, CHR 0xD1, CHR 0x8F] @ '' DTLS '' @ [CHR 0xE2, CHR 0x80, CHR 0x94] @ '' '' @ [CHR 0xD1, CHR 0x81, CHR 0xD0, CHR 0xB5, CHR 0xD1, CHR 0x80, CHR 0xD0, CHR 0xB2, CHR 0xD0, CHR 0xB5, CHR 0xD1, CHR 0x80] @ '' '' @ [CHR 0xD0, CHR 0xB8, CHR 0xD0, CHR 0xBB, CHR 0xD0, CHR 0xB8] @ '' relay '' @ [CHR 0xD0, CHR 0xBD, CHR 0xD0, CHR 0xB5] @ '' '' @ [CHR 0xD0, CHR 0xBE, CHR 0xD1, CHR 0x82, CHR 0xD0, CHR 0xB2, CHR 0xD0, CHR 0xB5, CHR 0xD1, CHR 0x82, CHR 0xD0, CHR 0xB8, CHR 0xD0, CHR 0xBB, CHR 0xD0, CHR 0xB8] @ '' '' @ [CHR 0xD0, CHR 0xB2, CHR 0xD0, CHR 0xBE, CHR 0xD0, CHR 0xB2, CHR 0xD1, CHR 0x80, CHR 0xD0, CHR 0xB5, CHR 0xD0, CHR 0xBC, CHR 0xD1, CHR 0x8F])),
      ([''wrap_auth_timeout''], ([CHR 0xD1, CHR 0x82, CHR 0xD0, CHR 0xB0, CHR 0xD0, CHR 0xB9, CHR 0xD0, CHR 0xBC, CHR 0xD0, CHR 0xB0, CHR 0xD1, CHR 0x83, CHR 0xD1, CHR 0x82] @ '' '' @ [CHR 0xD1, CHR 0x80, CHR 0xD1, CHR 0x83, CHR 0xD0, CHR 0xBA, CHR 0xD0, CHR 0xBE, CHR 0xD0, CHR 0xBF, CHR 0xD0, CHR 0xBE, CHR 0xD0, CHR 0xB6, CHR 0xD0, CHR 0xB0, CHR 0xD1, CHR 0x82, CHR 0xD0, CHR 0xB8, CHR 0xD1, CHR 0x8F] @ '' WRAP/DTLS '' @ [CHR 0xE2, CHR 0x80, CHR 0x94] @ '' '' @ [CHR 0xD1, CHR 0x81, CHR 0xD0, CHR 0xB5, CHR 0xD1, CHR 0x80, CHR 0xD0, CHR 0xB2, CHR 0xD0, CHR 0xB5, CHR 0xD1, CHR 0x80] @ '' '' @ [CHR 0xD0, CHR 0xBD, CHR 0xD0, CHR 0xB5] @ '' '' @ [CHR 0xD0, CHR 0xBE, CHR 0xD1, CHR 0x82, CHR 0xD0, CHR 0xB2, CHR 0xD0, CHR 0xB5, CHR 0xD1, CHR 0x82, CHR 0xD0, CHR 0xB8, CHR 0xD0, CHR 0xBB] @ '' '' @ [CHR 0xD0, CHR 0xB2, CHR 0xD0, CHR 0xBE, CHR 0xD0, CHR 0xB2, CHR 0xD1, CHR 0x80, CHR 0xD0, CHR 0xB5, CHR 0xD0, CHR 0xBC, CHR 0xD1, CHR 0x8F])),
      ([''canceled'', ''cancelled''], ([CHR 0xD1, CHR 0x81, CHR 0xD0, CHR 0xBE, CHR 0xD0, CHR 0xB5, CHR 0xD0, CHR 0xB4, CHR 0xD0, CHR 0xB8, CHR 0xD0, CHR 0xBD, CHR 0xD0, CHR 0xB5, CHR 0xD0, CHR 0xBD, CHR 0xD0, CHR 0xB8, CHR 0xD0, CHR 0xB5] @ '' '' @ [CHR 0xD0, CHR 0xBF, CHR 0xD1, CHR 0x80, CHR 0xD0, CHR 0xB5, CHR 0xD1, CHR 0x80, CHR 0xD0, CHR 0xB2, CHR 0xD0, CHR 0xB0, CHR 0xD0, CHR 0xBD, CHR 0xD0, CHR 0xBE] @ '' '' @ [CHR 0xD0, CHR 0xB4, CHR 0xD0, CHR 0xBE] @ '' '' @ [CHR 0xD0, CHR 0xB7, CHR 0xD0, CHR 0xB0, CHR 0xD0, CHR 0xB2, CHR 0xD0, CHR 0xB5, CHR 0xD1, CHR 0x80, CHR 0xD1, CHR 0x88, CHR 0xD0, CHR 0xB5, CHR 0xD0, CHR 0xBD, CHR 0xD0, CHR 0xB8, CHR 0xD1, CHR 0x8F] @ '' '' @ [CHR 0xD0, CHR 0xBE, CHR 0xD0, CHR 0xBF, CHR 0xD0, CHR 0xB5, CHR 0xD1, CHR 0x80, CHR 0xD0, CHR 0xB0, CHR 0xD1, CHR 0x86, CHR 0xD0, CHR 0xB8, CHR 0xD0, CHR 0xB8])),
      ([''context deadline exceeded''],
        ([CHR 0xD1, CHR 0x82, CHR 0xD0, CHR 0xB0, CHR 0xD0, CHR 0xB9, CHR 0xD0, CHR 0xBC, CHR 0xD0, CHR 0xB0, CHR 0xD1, CHR 0x83, CHR 0xD1, CHR 0x82] @ '' handshake '' @ [CHR 0xE2, CHR 0x80, CHR 0x94] @ '' '' @ [CHR 0xD1, CHR 0x81, CHR 0xD0, CHR 0xB5, CHR 0xD1, CHR 0x80, CHR 0xD0, CHR 0xB2, CHR 0xD0, CHR 0xB5, CHR 0xD1, CHR 0x80] @ '' '' @ [CHR 0xD0, CHR 0xBD, CHR 0xD0, CHR 0xB5] @ '' '' @ [CHR 0xD0, CHR 0xBE, CHR 0xD1, CHR 0x82, CHR 0xD0, CHR 0xB2, CHR 0xD0, CHR 0xB5, CHR 0xD1, CHR 0x87, CHR 0xD0, CHR 0xB0, CHR 0xD0, CHR 0xB5, CHR 0xD1, CHR 0x82] @ '', '' @ [CHR 0xD0, CHR 0xBF, CHR 0xD1, CHR 0x80, CHR 0xD0, CHR 0xBE, CHR 0xD0, CHR 0xB2, CHR 0xD0, CHR 0xB5, CHR 0xD1, CHR 0x80, CHR 0xD1, CHR 0x8C, CHR 0xD1, CHR 0x82, CHR 0xD0, CHR 0xB5] @ '' VPS, '' @ [CHR 0xD1, CHR 0x84, CHR 0xD0, CHR 0xB0, CHR 0xD0, CHR 0xB9, CHR 0xD1, CHR 0x80, CHR 0xD0, CHR 0xB2, CHR 0xD0, CHR 0xBE, CHR 0xD0, CHR 0xBB] @ '' '' @ [CHR 0xD0, CHR 0xB8] @ '' '' @ [CHR 0xD0, CHR 0xBF, CHR 0xD0, CHR 0xB0, CHR 0xD1, CHR 0x80, CHR 0xD0, CHR 0xBE, CHR 0xD0, CHR 0xBB, CHR 0xD1, CHR 0x8C] @ '' WRAP'')),
      ([''deadline exceeded'', ''timeout'', ''i/o timeout''],
        ([CHR 0xD1, CHR 0x82, CHR 0xD0, CHR 0xB0, CHR 0xD0, CHR 0xB9, CHR 0xD0, CHR 0xBC, CHR 0xD0, CHR 0xB0, CHR 0xD1, CHR 0x83, CHR 0xD1, CHR 0x82] @ '' '' @ [CHR 0xE2, CHR 0x80, CHR 0x94] @ '' '' @ [CHR 0xD1, CHR 0x81, CHR 0xD0, CHR 0xB5, CHR 0xD1, CHR 0x80, CHR 0xD0, CHR 0xB2, CHR 0xD0, CHR 0xB5, CHR 0xD1, CHR 0x80] @ '' '' @ [CHR 0xD0, CHR 0xBD, CHR 0xD0, CHR 0xB5] @ '' '' @ [CHR 0xD0, CHR 0xBE, CHR 0xD1, CHR 0x82, CHR 0xD0, CHR 0xB2, CHR 0xD0, CHR 0xB5, CHR 0xD1, CHR 0x87, CHR 0xD0, CHR 0xB0, CHR 0xD0, CHR 0xB5, CHR 0xD1, CHR 0x82] @ '', '' @ [CHR 0xD0, CHR 0xBF, CHR 0xD1, CHR 0x80, CHR 0xD0, CHR 0xBE, CHR 0xD0, CHR 0xB2, CHR 0xD0, CHR 0xB5, CHR 0xD1, CHR 0x80, CHR 0xD1, CHR 0x8C, CHR 0xD1, CHR 0x82, CHR 0xD0, CHR 0xB5] @ '' '' @ [CHR 0xD0, CHR 0xB4, CHR 0xD0, CHR 0xBE, CHR 0xD1, CHR 0x81, CHR 0xD1, CHR 0x82, CHR 0xD1, CHR 0x83, CHR 0xD0, CHR 0xBF, CHR 0xD0, CHR 0xBD, CHR 0xD0, CHR 0xBE, CHR 0xD1, CHR 0x81, CHR 0xD1, CHR 0x82, CHR 0xD1, CHR 0x8C] @ '' VPS '' @ [CHR 0xD0, CHR 0xB8] @ '' '' @ [CHR 0xD0, CHR 0xBF, CHR 0xD0, CHR 0xB0, CHR 0xD1, CHR 0x80, CHR 0xD0, CHR 0xBE, CHR 0xD0, CHR 0xBB, CHR 0xD1, CHR 0x8C])),
      ([''connection refused''],
        ([CHR 0xD1, CHR 0x81, CHR 0xD0, CHR 0xB5, CHR 0xD1, CHR 0x80, CHR 0xD0, CHR 0xB2, CHR 0xD0, CHR 0xB5, CHR 0xD1, CHR 0x80] @ '' '' @ [CHR 0xD0, CHR 0xBE, CHR 0xD1, CHR 0x82, CHR 0xD0, CHR 0xBA, CHR 0xD0, CHR 0xBB, CHR 0xD0, CHR 0xBE, CHR 0xD0, CHR 0xBD, CHR 0xD0, CHR 0xB8, CHR 0xD0, CHR 0xBB] @ '' '' @ [CHR 0xD0, CHR 0xBF, CHR 0xD0, CHR 0xBE, CHR 0xD0, CHR 0xB4, CHR 0xD0, CHR 0xBA, CHR 0xD0, CHR 0xBB, CHR 0xD1, CHR 0x8E, CHR 0xD1, CHR 0x87, CHR 0xD0, CHR 0xB5, CHR 0xD0, CHR 0xBD, CHR 0xD0, CHR 0xB8, CHR 0xD0, CHR 0xB5] @ '' '' @ [CHR 0xE2, CHR 0x80, CHR 0x94] @ '' '' @ [CHR 0xD0, CHR 0xBF, CHR 0xD1, CHR 0x80, CHR 0xD0, CHR 0xBE, CHR 0xD0, CHR 0xB2, CHR 0xD0, CHR 0xB5, CHR 0xD1, CHR 0x80, CHR 0xD1, CHR 0x8C, CHR 0xD1, CHR 0x82, CHR 0xD0, CHR 0xB5] @ '' IP, '' @ [CHR 0xD0, CHR 0xBF, CHR 0xD0, CHR 0xBE, CHR 0xD1, CHR 0x80, CHR 0xD1, CHR 0x82] @ '' DTLS '' @ [CHR 0xD0, CHR 0xB8] @ '' '' @ [CHR 0xD1, CHR 0x87, CHR 0xD1, CHR 0x82, CHR 0xD0, CHR 0xBE] @ '' wdtt-server '' @ [CHR 0xD0, CHR 0xB7, CHR 0xD0, CHR 0xB0, CHR 0xD0, CHR 0xBF, CHR 0xD1, CHR 0x83, CHR 0xD1, CHR 0x89, CHR 0xD0, CHR 0xB5, CHR 0xD0, CHR 0xBD])),
      ([''connection reset''],
        ([CHR 0xD1, CHR 0x81, CHR 0xD0, CHR 0xB5, CHR 0xD1, CHR 0x80, CHR 0xD0, CHR 0xB2, CHR 0xD0, CHR 0xB5, CHR 0xD1, CHR 0x80] @ '' '' @ [CHR 0xD1, CHR 0x81, CHR 0xD0, CHR 0xB1, CHR 0xD1, CHR 0x80, CHR 0xD0, CHR 0xBE, CHR 0xD1, CHR 0x81, CHR 0xD0, CHR 0xB8, CHR 0xD0, CHR 0xBB] @ '' '' @ [CHR 0xD1, CHR 0x81, CHR 0xD0, CHR 0xBE, CHR 0xD0, CHR 0xB5, CHR 0xD0, CHR 0xB4, CHR 0xD0, CHR 0xB8, CHR 0xD0, CHR 0xBD, CHR 0xD0, CHR 0xB5, CHR 0xD0, CHR 0xBD, CHR 0xD0, CHR 0xB8, CHR 0xD0, CHR 0xB5] @ '' '' @ [CHR 0xE2, CHR 0x80, CHR 0x94] @ '' '' @ [CHR 0xD0, CHR 0xB2, CHR 0xD0, CHR 0xBE, CHR 0xD0, CHR 0xB7, CHR 0xD0, CHR 0xBC, CHR 0xD0, CHR 0xBE, CHR 0xD0, CHR 0xB6, CHR 0xD0, CHR 0xB5, CHR 0xD0, CHR 0xBD] @ '' '' @ [CHR 0xD0, CHR 0xBD, CHR 0xD0, CHR 0xB5, CHR 0xD0, CHR 0xB2, CHR 0xD0, CHR 0xB5, CHR 0xD1, CHR 0x80, CHR 0xD0, CHR 0xBD, CHR 0xD1, CHR 0x8B, CHR 0xD0, CHR 0xB9] @ '' '' @ [CHR 0xD0, CHR 0xBF, CHR 0xD0, CHR 0xB0, CHR 0xD1, CHR 0x80, CHR 0xD0, CHR 0xBE, CHR 0xD0, CHR 0xBB, CHR 0xD1, CHR 0x8C] @ '' WRAP '' @ [CHR 0xD0, CHR 0xB8, CHR 0xD0, CHR 0xBB, CHR 0xD0, CHR 0xB8] @ '' '' @ [CHR 0xD0, CHR 0xBF, CHR 0xD0, CHR 0xB5, CHR 0xD1, CHR 0x80, CHR 0xD0, CHR 0xB5, CHR 0xD0, CHR 0xB7, CHR 0xD0, CHR 0xB0, CHR 0xD0, CHR 0xBF, CHR 0xD1, CHR 0x83, CHR 0xD1, CHR 0x81, CHR 0xD0, CHR 0xBA] @ '' '' @ [CHR 0xD1, CHR 0x81, CHR 0xD0, CHR 0xB5, CHR 0xD1, CHR 0x80, CHR 0xD0, CHR 0xB2, CHR 0xD0, CHR 0xB5, CHR 0xD1, CHR 0x80, CHR 0xD0, CHR 0xB0])),
      ([''no route'', ''network is unreachable''],
        ([CHR 0xD0, CHR 0xBD, CHR 0xD0, CHR 0xB5, CHR 0xD1, CHR 0x82] @ '' '' @ [CHR 0xD0, CHR 0xBC, CHR 0xD0, CHR 0xB0, CHR 0xD1, CHR 0x80, CHR 0xD1, CHR 0x88, CHR 0xD1, CHR 0x80, CHR 0xD1, CHR 0x83, CHR 0xD1, CHR 0x82, CHR 0xD0, CHR 0xB0] @ '' '' @ [CHR 0xD0, CHR 0xB4, CHR 0xD0, CHR 0xBE] @ '' '' @ [CHR 0xD1, CHR 0x81, CHR 0xD0, CHR 0xB5, CHR 0xD1, CHR 0x80, CHR 0xD0, CHR 0xB2, CHR 0xD0, CHR 0xB5, CHR 0xD1, CHR 0x80, CHR 0xD0, CHR 0xB0] @ '' '' @ [CHR 0xE2, CHR 0x80, CHR 0x94] @ '' '' @ [CHR 0xD0, CHR 0xBF, CHR 0xD1, CHR 0x80, CHR 0xD0, CHR 0xBE, CHR 0xD0, CHR 0xB2, CHR 0xD0, CHR 0xB5, CHR 0xD1, CHR 0x80, CHR 0xD1, CHR 0x8C, CHR 0xD1, CHR 0x82, CHR 0xD0, CHR 0xB5] @ '' '' @ [CHR 0xD0, CHR 0xB8, CHR 0xD0, CHR 0xBD, CHR 0xD1, CHR 0x82, CHR 0xD0, CHR 0xB5, CHR 0xD1, CHR 0x80, CHR 0xD0, CHR 0xBD, CHR 0xD0, CHR 0xB5, CHR 0xD1, CHR 0x82] @ ''; '' @ [CHR 0xD0, CHR 0xBE, CHR 0xD1, CHR 0x82, CHR 0xD0, CHR 0xBA, CHR 0xD0, CHR 0xBB, CHR 0xD1, CHR 0x8E, CHR 0xD1, CHR 0x87, CHR 0xD0, CHR 0xB8, CHR 0xD1, CHR 0x82, CHR 0xD0, CHR 0xB5] @ '' '' @ [CHR 0xD0, CHR 0xB4, CHR 0xD1, CHR 0x80, CHR 0xD1, CHR 0x83, CHR 0xD0, CHR 0xB3, CHR 0xD0, CHR 0xB8, CHR 0xD0, CHR 0xB5] @ '' VPN/'' @ [CHR 0xD0, CHR 0xBF, CHR 0xD1, CHR 0x80, CHR 0xD0, CHR 0xBE, CHR 0xD0, CHR 0xBA, CHR 0xD1, CHR 0x81, CHR 0xD0, CHR 0xB8])),
      ([''lookup'', ''no such host''], (''DNS '' @ [CHR 0xD0, CHR 0xBD, CHR 0xD0, CHR 0xB5] @ '' '' @ [CHR 0xD1, CHR 0x80, CHR 0xD0, CHR 0xB5, CHR 0xD0, CHR 0xB7, CHR 0xD0, CHR 0xBE, CHR 0xD0, CHR 0xBB, CHR 0xD0, CHR 0xB2, CHR 0xD0, CHR 0xB8, CHR 0xD1, CHR 0x82] @ '' '' @ [CHR 0xD0, CHR 0xB0, CHR 0xD0, CHR 0xB4, CHR 0xD1, CHR 0x80, CHR 0xD0, CHR 0xB5, CHR 0xD1, CHR 0x81] @ '' '' @ [CHR 0xE2, CHR 0x80, CHR 0x94] @ '' '' @ [CHR 0xD1, CHR 0x81, CHR 0xD0, CHR 0xBC, CHR 0xD0, CHR 0xB5, CHR 0xD0, CHR 0xBD, CHR 0xD0, CHR 0xB8, CHR 0xD1, CHR 0x82, CHR 0xD0, CHR 0xB5] @ '' DNS '' @ [CHR 0xD0, CHR 0xB2] @ '' '' @ [CHR 0xE2, CHR 0x9A, CHR 0x99, CHR 0xEF, CHR 0xB8, CHR 0x8F] @ '' '' @ [CHR 0xE2, CHR 0x86, CHR 0x92] @ '' '' @ [CHR 0xD0, CHR 0xA1, CHR 0xD0, CHR 0xB5, CHR 0xD1, CHR 0x82, CHR 0xD1, CHR 0x8C])),
      ([''turn '' @ ([CHR 0xD0, CHR 0xBA, CHR 0xD0, CHR 0xB2, CHR 0xD0, CHR 0xBE, CHR 0xD1, CHR 0x82, CHR 0xD0, CHR 0xB0]), ''turn_quota'', ''quota'', ''486''],
        (''VK '' @ [CHR 0xD0, CHR 0xB8, CHR 0xD1, CHR 0x81, CHR 0xD1, CHR 0x87, CHR 0xD0, CHR 0xB5, CHR 0xD1, CHR 0x80, CHR 0xD0, CHR 0xBF, CHR 0xD0, CHR 0xB0, CHR 0xD0, CHR 0xBB] @ '' TURN-'' @ [CHR 0xD1, CHR 0x81, CHR 0xD0, CHR 0xBB, CHR 0xD0, CHR 0xBE, CHR 0xD1, CHR 0x82, CHR 0xD1, CHR 0x8B] @ '' '' @ [CHR 0xE2, CHR 0x80, CHR 0x94] @ '' '' @ [CHR 0xD1, CHR 0x83, CHR 0xD0, CHR 0xBC, CHR 0xD0, CHR 0xB5, CHR 0xD0, CHR 0xBD, CHR 0xD1, CHR 0x8C, CHR 0xD1, CHR 0x88, CHR 0xD0, CHR 0xB8, CHR 0xD1, CHR 0x82, CHR 0xD0, CHR 0xB5] @ '' '' @ [CHR 0xD0, CHR 0xBF, CHR 0xD0, CHR 0xBE, CHR 0xD1, CHR 0x82, CHR 0xD0, CHR 0xBE, CHR 0xD0, CHR 0xBA, CHR 0xD0, CHR 0xB8] @ '' '' @ [CHR 0xD0, CHR 0xB8, CHR 0xD0, CHR 0xBB, CHR 0xD0, CHR 0xB8] @ '' '' @ [CHR 0xD1, CHR 0x81, CHR 0xD0, CHR 0xBC, CHR 0xD0, CHR 0xB5, CHR 0xD0, CHR 0xBD, CHR 0xD0, CHR 0xB8, CHR 0xD1, CHR 0x82, CHR 0xD0, CHR 0xB5] @ '' VK-'' @ [CHR 0xD1, CHR 0x85, CHR 0xD0, CHR 0xB5, CHR 0xD1, CHR 0x88] @ ''/'' @ [CHR 0xD0, CHR 0xB0, CHR 0xD0, CHR 0xBA, CHR 0xD0, CHR 0xBA, CHR 0xD0, CHR 0xB0, CHR 0xD1, CHR 0x83, CHR 0xD0, CHR 0xBD, CHR 0xD1, CHR 0x82])),
      ([''turn_auth_rejected''], ([CHR 0xD0, CHR 0xBE, CHR 0xD1, CHR 0x82, CHR 0xD0, CHR 0xBA, CHR 0xD0, CHR 0xB0, CHR 0xD0, CHR 0xB7] @ '' '' @ [CHR 0xD0, CHR 0xB0, CHR 0xD0, CHR 0xB2, CHR 0xD1, CHR 0x82, CHR 0xD0, CHR 0xBE, CHR 0xD1, CHR 0x80, CHR 0xD0, CHR 0xB8, CHR 0xD0, CHR 0xB7, CHR 0xD0, CHR 0xB0, CHR 0xD1, CHR 0x86, CHR 0xD0, CHR 0xB8, CHR 0xD0, CHR 0xB8] @ '' TURN '' @ [CHR 0xE2, CHR 0x80, CHR 0x94] @ '' '' @ [CHR 0xD1, CHR 0x80, CHR 0xD0, CHR 0xB5, CHR 0xD0, CHR 0xBA, CHR 0xD0, CHR 0xB2, CHR 0xD0, CHR 0xB8, CHR 0xD0, CHR 0xB7, CHR 0xD0, CHR 0xB8, CHR 0xD1, CHR 0x82, CHR 0xD1, CHR 0x8B] @ '' '' @ [CHR 0xD0, CHR 0xBE, CHR 0xD1, CHR 0x82, CHR 0xD0, CHR 0xBA, CHR 0xD0, CHR 0xBB, CHR 0xD0, CHR 0xBE, CHR 0xD0, CHR 0xBD, CHR 0xD0, CHR 0xB5, CHR 0xD0, CHR 0xBD, CHR 0xD1, CHR 0x8B] @ '' '' @ [CHR 0xD1, CHR 0x81, CHR 0xD0, CHR 0xB5, CHR 0xD1, CHR 0x80, CHR 0xD0, CHR 0xB2, CHR 0xD0, CHR 0xB5, CHR 0xD1, CHR 0x80, CHR 0xD0, CHR 0xBE, CHR 0xD0, CHR 0xBC])),
      ([''turn_forbidden''], ([CHR 0xD0, CHR 0xB7, CHR 0xD0, CHR 0xB0, CHR 0xD0, CHR 0xBF, CHR 0xD1, CHR 0x80, CHR 0xD0, CHR 0xBE, CHR 0xD1, CHR 0x81] @ '' '' @ [CHR 0xD0, CHR 0xBE, CHR 0xD1, CHR 0x82, CHR 0xD0, CHR 0xBA, CHR 0xD0, CHR 0xBB, CHR 0xD0, CHR 0xBE, CHR 0xD0, CHR 0xBD, CHR 0xD1, CHR 0x91, CHR 0xD0, CHR 0xBD] @ '' '' @ [CHR 0xD1, CHR 0x81, CHR 0xD0, CHR 0xB5, CHR 0xD1, CHR 0x80, CHR 0xD0, CHR 0xB2, CHR 0xD0, CHR 0xB5, CHR 0xD1, CHR 0x80, CHR 0xD0, CHR 0xBE, CHR 0xD0, CHR 0xBC] @ '' TURN (403 Forbidden)'')),
      ([''turn_stale_nonce''], ([CHR 0xD1, CHR 0x83, CHR 0xD1, CHR 0x81, CHR 0xD1, CHR 0x82, CHR 0xD0, CHR 0xB0, CHR 0xD1, CHR 0x80, CHR 0xD0, CHR 0xB5, CHR 0xD0, CHR 0xB2, CHR 0xD1, CHR 0x88, CHR 0xD0, CHR 0xB8, CHR 0xD0, CHR 0xB9] @ '' nonce TURN (438) '' @ [CHR 0xE2, CHR 0x80, CHR 0x94] @ '' '' @ [CHR 0xD1, CHR 0x82, CHR 0xD1, CHR 0x80, CHR 0xD0, CHR 0xB5, CHR 0xD0, CHR 0xB1, CHR 0xD1, CHR 0x83, CHR 0xD0, CHR 0xB5, CHR 0xD1, CHR 0x82, CHR 0xD1, CHR 0x81, CHR 0xD1, CHR 0x8F] @ '' '' @ [CHR 0xD0, CHR 0xBF, CHR 0xD0, CHR 0xBE, CHR 0xD0, CHR 0xB2, CHR 0xD1, CHR 0x82, CHR 0xD0, CHR 0xBE, CHR 0xD1, CHR 0x80] @ '' '' @ [CHR 0xD0, CHR 0xB7, CHR 0xD0, CHR 0xB0, CHR 0xD0, CHR 0xBF, CHR 0xD1, CHR 0x80, CHR 0xD0, CHR 0xBE, CHR 0xD1, CHR 0x81, CHR 0xD0, CHR 0xB0] @ '' '' @ [CHR 0xD1, CHR 0x81] @ '' '' @ [CHR 0xD0, CHR 0xBD, CHR 0xD0, CHR 0xBE, CHR 0xD0, CHR 0xB2, CHR 0xD1, CHR 0x8B, CHR 0xD0, CHR 0xBC] @ '' nonce'')),
      ([''turn_capacity''], ([CHR 0xD1, CHR 0x81, CHR 0xD0, CHR 0xB5, CHR 0xD1, CHR 0x80, CHR 0xD0, CHR 0xB2, CHR 0xD0, CHR 0xB5, CHR 0xD1, CHR 0x80] @ '' TURN '' @ [CHR 0xD0, CHR 0xBF, CHR 0xD0, CHR 0xB5, CHR 0xD1, CHR 0x80, CHR 0xD0, CHR 0xB5, CHR 0xD0, CHR 0xB3, CHR 0xD1, CHR 0x80, CHR 0xD1, CHR 0x83, CHR 0xD0, CHR 0xB6, CHR 0xD0, CHR 0xB5, CHR 0xD0, CHR 0xBD] @ '' (508 Insufficient Capacity)'')),
      ([''turn_attr_not_found'', ''attribute not found''],
        ([CHR 0xD0, CHR 0xBD, CHR 0xD0, CHR 0xB5, CHR 0xD0, CHR 0xBF, CHR 0xD0, CHR 0xBE, CHR 0xD0, CHR 0xBB, CHR 0xD0, CHR 0xBD, CHR 0xD1, CHR 0x8B, CHR 0xD0, CHR 0xB9] @ '' '' @ [CHR 0xD0, CHR 0xBE, CHR 0xD1, CHR 0x82, CHR 0xD0, CHR 0xB2, CHR 0xD0, CHR 0xB5, CHR 0xD1, CHR 0x82] @ '' STUN/TURN '' @ [CHR 0xD1, CHR 0x81, CHR 0xD0, CHR 0xB5, CHR 0xD1, CHR 0x80, CHR 0xD0, CHR 0xB2, CHR 0xD0, CHR 0xB5, CHR 0xD1, CHR 0x80, CHR 0xD0, CHR 0xB0] @ '' '' @ [CHR 0xE2, CHR 0x80, CHR 0x94] @ '' '' @ [CHR 0xD0, CHR 0xBE, CHR 0xD1, CHR 0x82, CHR 0xD0, CHR 0xB2, CHR 0xD0, CHR 0xB5, CHR 0xD1, CHR 0x82] @ '' '' @ [CHR 0xD0, CHR 0xBD, CHR 0xD0, CHR 0xB5] @ '' '' @ [CHR 0xD1, CHR 0x81, CHR 0xD0, CHR 0xBE, CHR 0xD0, CHR 0xB4, CHR 0xD0, CHR 0xB5, CHR 0xD1, CHR 0x80, CHR 0xD0, CHR 0xB6, CHR 0xD0, CHR 0xB8, CHR 0xD1, CHR 0x82] @ '' '' @ [CHR 0xD0, CHR 0xBE, CHR 0xD0, CHR 0xB1, CHR 0xD1, CHR 0x8F, CHR 0xD0, CHR 0xB7, CHR 0xD0, CHR 0xB0, CHR 0xD1, CHR 0x82, CHR 0xD0, CHR 0xB5, CHR 0xD0, CHR 0xBB, CHR 0xD1, CHR 0x8C, CHR 0xD0, CHR 0xBD, CHR 0xD0, CHR 0xBE, CHR 0xD0, CHR 0xB3, CHR 0xD0, CHR 0xBE] @ '' '' @ [CHR 0xD0, CHR 0xB0, CHR 0xD1, CHR 0x82, CHR 0xD1, CHR 0x80, CHR 0xD0, CHR 0xB8, CHR 0xD0, CHR 0xB1, CHR 0xD1, CHR 0x83, CHR 0xD1, CHR 0x82, CHR 0xD0, CHR 0xB0])),
      ([''turn allocate''], ([CHR 0xD0, CHR 0xBE, CHR 0xD1, CHR 0x88, CHR 0xD0, CHR 0xB8, CHR 0xD0, CHR 0xB1, CHR 0xD0, CHR 0xBA, CHR 0xD0, CHR 0xB0] @ '' TURN relay '' @ [CHR 0xD0, CHR 0xBF, CHR 0xD1, CHR 0x80, CHR 0xD0, CHR 0xB8] @ '' '' @ [CHR 0xD0, CHR 0xBF, CHR 0xD0, CHR 0xBE, CHR 0xD0, CHR 0xBF, CHR 0xD1, CHR 0x8B, CHR 0xD1, CHR 0x82, CHR 0xD0, CHR 0xBA, CHR 0xD0, CHR 0xB5] @ '' '' @ [CHR 0xD0, CHR 0xB2, CHR 0xD1, CHR 0x8B, CHR 0xD0, CHR 0xB4, CHR 0xD0, CHR 0xB5, CHR 0xD0, CHR 0xBB, CHR 0xD0, CHR 0xB5, CHR 0xD0, CHR 0xBD, CHR 0xD0, CHR 0xB8, CHR 0xD1, CHR 0x8F] @ '' '' @ [CHR 0xD0, CHR 0xB0, CHR 0xD0, CHR 0xB4, CHR 0xD1, CHR 0x80, CHR 0xD0, CHR 0xB5, CHR 0xD1, CHR 0x81, CHR 0xD0, CHR 0xB0])),
      ([''rate limit'', ''flood'', ''error 29'', ''error_code=9'', ''error_code: 9''],
        (''VK '' @ [CHR 0xD0, CHR 0xB2, CHR 0xD1, CHR 0x80, CHR 0xD0, CHR 0xB5, CHR 0xD0, CHR 0xBC, CHR 0xD0, CHR 0xB5, CHR 0xD0, CHR 0xBD, CHR 0xD0, CHR 0xBD, CHR 0xD0, CHR 0xBE] @ '' '' @ [CHR 0xD0, CHR 0xBE, CHR 0xD0, CHR 0xB3, CHR 0xD1, CHR 0x80, CHR 0xD0, CHR 0xB0, CHR 0xD0, CHR 0xBD, CHR 0xD0, CHR 0xB8, CHR 0xD1, CHR 0x87, CHR 0xD0, CHR 0xB8, CHR 0xD0, CHR 0xBB] @ '' '' @ [CHR 0xD0, CHR 0xB7, CHR 0xD0, CHR 0xB0, CHR 0xD0, CHR 0xBF, CHR 0xD1, CHR 0x80, CHR 0xD0, CHR 0xBE, CHR 0xD1, CHR 0x81, CHR 0xD1, CHR 0x8B] @ '' (Flood Control) '' @ [CHR 0xE2, CHR 0x80, CHR 0x94] @ '' '' @ [CHR 0xD1, CHR 0x88, CHR 0xD0, CHR 0xBB, CHR 0xD1, CHR 0x8E, CHR 0xD0, CHR 0xB7] @ '' '' @ [CHR 0xD0, CHR 0xBE, CHR 0xD0, CHR 0xB6, CHR 0xD0, CHR 0xB8, CHR 0xD0, CHR 0xB4, CHR 0xD0, CHR 0xB0, CHR 0xD0, CHR 0xB5, CHR 0xD1, CHR 0x82] @ '' '' @ [CHR 0xD0, CHR 0xBA, CHR 0xD1, CHR 0x83, CHR 0xD0, CHR 0xBB, CHR 0xD0, CHR 0xB4, CHR 0xD0, CHR 0xB0, CHR 0xD1, CHR 0x83, CHR 0xD0, CHR 0xBD] @ '' '' @ [CHR 0xD0, CHR 0xBF, CHR 0xD0, CHR 0xB5, CHR 0xD1, CHR 0x80, CHR 0xD0, CHR 0xB5, CHR 0xD0, CHR 0xB4] @ '' '' @ [CHR 0xD0, CHR 0xBF, CHR 0xD0, CHR 0xBE, CHR 0xD0, CHR 0xB2, CHR 0xD1, CHR 0x82, CHR 0xD0, CHR 0xBE, CHR 0xD1, CHR 0x80, CHR 0xD0, CHR 0xBE, CHR 0xD0, CHR 0xBC])),
      ([''rtp aead'', ''auth failed'', ''tag mismatch''],
        ([CHR 0xD0, CHR 0xBE, CHR 0xD1, CHR 0x88, CHR 0xD0, CHR 0xB8, CHR 0xD0, CHR 0xB1, CHR 0xD0, CHR 0xBA, CHR 0xD0, CHR 0xB0] @ '' WRAP/RTP '' @ [CHR 0xE2, CHR 0x80, CHR 0x94] @ '' '' @ [CHR 0xD0, CHR 0xBD, CHR 0xD0, CHR 0xB5, CHR 0xD0, CHR 0xB2, CHR 0xD0, CHR 0xB5, CHR 0xD1, CHR 0x80, CHR 0xD0, CHR 0xBD, CHR 0xD1, CHR 0x8B, CHR 0xD0, CHR 0xB9] @ '' '' @ [CHR 0xD0, CHR 0xBF, CHR 0xD0, CHR 0xB0, CHR 0xD1, CHR 0x80, CHR 0xD0, CHR 0xBE, CHR 0xD0, CHR 0xBB, CHR 0xD1, CHR 0x8C] @ '' '' @ [CHR 0xD0, CHR 0xB8, CHR 0xD0, CHR 0xBB, CHR 0xD0, CHR 0xB8] @ '' '' @ [CHR 0xD0, CHR 0xBD, CHR 0xD0, CHR 0xB5, CHR 0xD1, CHR 0x81, CHR 0xD0, CHR 0xBE, CHR 0xD0, CHR 0xB2, CHR 0xD0, CHR 0xBC, CHR 0xD0, CHR 0xB5, CHR 0xD1, CHR 0x81, CHR 0xD1, CHR 0x82, CHR 0xD0, CHR 0xB8, CHR 0xD0, CHR 0xBC, CHR 0xD0, CHR 0xB0, CHR 0xD1, CHR 0x8F] @ '' '' @ [CHR 0xD0, CHR 0xB2, CHR 0xD0, CHR 0xB5, CHR 0xD1, CHR 0x80, CHR 0xD1, CHR 0x81, CHR 0xD0, CHR 0xB8, CHR 0xD1, CHR 0x8F] @ '' '' @ [CHR 0xD1, CHR 0x81, CHR 0xD0, CHR 0xB5, CHR 0xD1, CHR 0x80, CHR 0xD0, CHR 0xB2, CHR 0xD0, CHR 0xB5, CHR 0xD1, CHR 0x80, CHR 0xD0, CHR 0xB0])),
      ([''fatal_auth'', ([CHR 0xD0, CHR 0xBD, CHR 0xD0, CHR 0xB5, CHR 0xD0, CHR 0xB2, CHR 0xD0, CHR 0xB5, CHR 0xD1, CHR 0x80, CHR 0xD0, CHR 0xBD, CHR 0xD1, CHR 0x8B, CHR 0xD0, CHR 0xB9] @ '' '' @ [CHR 0xD0, CHR 0xBF, CHR 0xD0, CHR 0xB0, CHR 0xD1, CHR 0x80, CHR 0xD0, CHR 0xBE, CHR 0xD0, CHR 0xBB, CHR 0xD1, CHR 0x8C])], ([CHR 0xD0, CHR 0xBD, CHR 0xD0, CHR 0xB5, CHR 0xD0, CHR 0xB2, CHR 0xD0, CHR 0xB5, CHR 0xD1, CHR 0x80, CHR 0xD0, CHR 0xBD, CHR 0xD1, CHR 0x8B, CHR 0xD0, CHR 0xB9] @ '' '' @ [CHR 0xD0, CHR 0xBF, CHR 0xD0, CHR 0xB0, CHR 0xD1, CHR 0x80, CHR 0xD0, CHR 0xBE, CHR 0xD0, CHR 0xBB, CHR 0xD1, CHR 0x8C] @ '' '' @ [CHR 0xD0, CHR 0xBF, CHR 0xD0, CHR 0xBE, CHR 0xD0, CHR 0xB4, CHR 0xD0, CHR 0xBA, CHR 0xD0, CHR 0xBB, CHR 0xD1, CHR 0x8E, CHR 0xD1, CHR 0x87, CHR 0xD0, CHR 0xB5, CHR 0xD0, CHR 0xBD, CHR 0xD0, CHR 0xB8, CHR 0xD1, CHR 0x8F] @ '' '' @ [CHR 0xD0, CHR 0xB8, CHR 0xD0, CHR 0xBB, CHR 0xD0, CHR 0xB8] @ '' '' @ [CHR 0xD0, CHR 0xB8, CHR 0xD1, CHR 0x81, CHR 0xD1, CHR 0x82, CHR 0xD1, CHR 0x91, CHR 0xD0, CHR 0xBA] @ '' '' @ [CHR 0xD1, CHR 0x81, CHR 0xD1, CHR 0x80, CHR 0xD0, CHR 0xBE, CHR 0xD0, CHR 0xBA] @ '' '' @ [CHR 0xD0, CHR 0xB4, CHR 0xD0, CHR 0xB5, CHR 0xD0, CHR 0xB9, CHR 0xD1, CHR 0x81, CHR 0xD1, CHR 0x82, CHR 0xD0, CHR 0xB2, CHR 0xD0, CHR 0xB8, CHR 0xD1, CHR 0x8F])),
      ([''cannot create socket''], ([CHR 0xD0, CHR 0xBD, CHR 0xD0, CHR 0xB5] @ '' '' @ [CHR 0xD1, CHR 0x83, CHR 0xD0, CHR 0xB4, CHR 0xD0, CHR 0xB0, CHR 0xD0, CHR 0xBB, CHR 0xD0, CHR 0xBE, CHR 0xD1, CHR 0x81, CHR 0xD1, CHR 0x8C] @ '' '' @ [CHR 0xD0, CHR 0xBE, CHR 0xD1, CHR 0x82, CHR 0xD0, CHR 0xBA, CHR 0xD1, CHR 0x80, CHR 0xD1, CHR 0x8B, CHR 0xD1, CHR 0x82, CHR 0xD1, CHR 0x8C] @ '' UDP-'' @ [CHR 0xD1, CHR 0x81, CHR 0xD0, CHR 0xBE, CHR 0xD0, CHR 0xBA, CHR 0xD0, CHR 0xB5, CHR 0xD1, CHR 0x82] @ '' '' @ [CHR 0xE2, CHR 0x80, CHR 0x94] @ '' '' @ [CHR 0xD0, CHR 0xBE, CHR 0xD0, CHR 0xB3, CHR 0xD1, CHR 0x80, CHR 0xD0, CHR 0xB0, CHR 0xD0, CHR 0xBD, CHR 0xD0, CHR 0xB8, CHR 0xD1, CHR 0x87, CHR 0xD0, CHR 0xB5, CHR 0xD0, CHR 0xBD, CHR 0xD0, CHR 0xB8, CHR 0xD0, CHR 0xB5] @ '' '' @ [CHR 0xD0, CHR 0xBF, CHR 0xD1, CHR 0x80, CHR 0xD0, CHR 0xBE, CHR 0xD1, CHR 0x88, CHR 0xD0, CHR 0xB8, CHR 0xD0, CHR 0xB2, CHR 0xD0, CHR 0xBA, CHR 0xD0, CHR 0xB8] @ '' '' @ [CHR 0xD0, CHR 0xB8, CHR 0xD0, CHR 0xBB, CHR 0xD0, CHR 0xB8] @ '' '' @ [CHR 0xD0, CHR 0xBD, CHR 0xD0, CHR 0xB5, CHR 0xD1, CHR 0x82] @ '' '' @ [CHR 0xD1, CHR 0x81, CHR 0xD0, CHR 0xB5, CHR 0xD1, CHR 0x82, CHR 0xD0, CHR 0xB8]))]"

definition workerErrorHint :: "goerr option \<Rightarrow> string" where
  "workerErrorHint err =
     (case err of
        None \<Rightarrow> []
      | Some e \<Rightarrow>
          (case find (\<lambda>(ws, h). has_any (to_lower (err_text e)) ws) hint_table of
             Some (ws, h) \<Rightarrow> h
           | None \<Rightarrow> []))"

section \<open>The flags of the worker\<close>

definition isTurnQuota :: "string \<Rightarrow> bool" where
  "isTurnQuota s \<longleftrightarrow> contains s ''TURN_QUOTA'' \<or> contains (to_lower s) ''quota'' \<or> contains s ''486''"

definition isTurnForbidden :: "string \<Rightarrow> bool" where
  "isTurnForbidden s \<longleftrightarrow>
     contains s ''TURN_FORBIDDEN'' \<or> contains (to_lower s) ''forbidden'' \<and> \<not> contains s ''TURN_AUTH_REJECTED''"

definition isTurnStaleNonce :: "string \<Rightarrow> bool" where
  "isTurnStaleNonce s \<longleftrightarrow> contains s ''TURN_STALE_NONCE'' \<or> contains (to_lower s) ''stale nonce''"

definition isTurnCapacity :: "string \<Rightarrow> bool" where
  "isTurnCapacity s \<longleftrightarrow> contains s ''TURN_CAPACITY'' \<or> contains s ''508''"

definition turnAllocAttrMissing :: "string \<Rightarrow> bool" where
  "turnAllocAttrMissing s \<longleftrightarrow>
     contains s ''TURN_ATTR_NOT_FOUND''
     \<or> contains (to_lower s) ''turn allocate'' \<and> contains (to_lower s) ''attribute not found''"

definition isDtlsTimeout :: "string \<Rightarrow> bool" where
  "isDtlsTimeout s \<longleftrightarrow> contains s ''DTLS_TIMEOUT''"

definition transientSocketRetry :: "string \<Rightarrow> bool" where
  "transientSocketRetry s \<longleftrightarrow>
     has_any (to_lower s) [''cannot create socket'', ''network is unreachable'', ''no route to host'',
       ''network changed'', ''operation not permitted'']"

definition turnAuthRejected :: "string \<Rightarrow> bool" where
  "turnAuthRejected s \<longleftrightarrow>
     \<not> isTurnQuota s \<and> \<not> isTurnForbidden s \<and> \<not> isTurnStaleNonce s \<and> \<not> isTurnCapacity s
     \<and> \<not> turnAllocAttrMissing s \<and> \<not> isDtlsTimeout s \<and> \<not> transientSocketRetry s
     \<and> (contains s ''TURN_AUTH_REJECTED'' \<or> has_any (to_lower s) [''unauthorized'', ''wrong credentials''])"

definition hashIsDead :: string where
  "hashIsDead = ([CHR 0xD1, CHR 0x85, CHR 0xD0, CHR 0xB5, CHR 0xD1, CHR 0x88] @ '' '' @ [CHR 0xD0, CHR 0xBC, CHR 0xD1, CHR 0x91, CHR 0xD1, CHR 0x80, CHR 0xD1, CHR 0x82, CHR 0xD0, CHR 0xB2])"

text \<open>The text with the hint, in which the fatal words are searched\<close>

definition hinted :: "goerr \<Rightarrow> string" where
  "hinted e =
     (let s = err_text e; l = to_lower s; hint = workerErrorHint (Some e) in
      if hint \<noteq> [] then s @ '' | '' @ hint
      else if has_any l [''rate limit'', ''flood control'', ''ip mismatch'', ''error 29''] then
        s @ '' ('' @ ([CHR 0xD0, CHR 0xBE, CHR 0xD1, CHR 0x88, CHR 0xD0, CHR 0xB8, CHR 0xD0, CHR 0xB1, CHR 0xD0, CHR 0xBA, CHR 0xD0, CHR 0xB0] @ '' '' @ [CHR 0xD1, CHR 0x81, CHR 0xD0, CHR 0xBE] @ '' '' @ [CHR 0xD1, CHR 0x81, CHR 0xD1, CHR 0x82, CHR 0xD0, CHR 0xBE, CHR 0xD1, CHR 0x80, CHR 0xD0, CHR 0xBE, CHR 0xD0, CHR 0xBD, CHR 0xD1, CHR 0x8B] @ '' '' @ [CHR 0xD0, CHR 0x92, CHR 0xD0, CHR 0x9A]) @ '')''
      else s)"

definition fatal :: "goerr \<Rightarrow> bool" where
  "fatal e \<longleftrightarrow> contains (hinted e) hashIsDead \<or> contains (hinted e) ''FATAL_AUTH''"

section \<open>What the flags see of a wrapped error\<close>

definition ends_sep :: "string \<Rightarrow> bool" where
  "ends_sep pre \<longleftrightarrow> has_suffix pre '': ''"

definition plain_word :: "string \<Rightarrow> bool" where
  "plain_word w \<longleftrightarrow> w \<noteq> [] \<and> hd w \<noteq> CHR '' '' \<and> CHR '':'' \<notin> set w"

lemma ends_sepE: "ends_sep pre \<Longrightarrow> \<exists>p. pre = p @ '': ''"
proof -
  assume "ends_sep pre"
  then have "prefix (rev '': '') (rev pre)"
    by (simp only: ends_sep_def has_suffix_def has_prefix_iff)
  then have "suffix '': '' pre"
    by (simp only: suffix_to_prefix)
  then show ?thesis
    by (auto simp: suffix_def)
qed

lemma ends_sep_append: "ends_sep t \<Longrightarrow> ends_sep (s @ t)"
  by (auto simp: ends_sep_def has_suffix_def has_prefix_iff intro: prefix_prefix)

lemma ends_sep_lower: "ends_sep pre \<Longrightarrow> ends_sep (to_lower pre)"
proof -
  assume "ends_sep pre"
  from ends_sepE [OF this] obtain p where "pre = p @ '': ''"
    by blast
  then have "to_lower pre = to_lower p @ '': ''"
    by (simp add: to_lower_def lower_char_def byte_of_def)
  then show ?thesis
    by (simp add: ends_sep_append ends_sep_def has_suffix_def)
qed

lemma contains_wrapped:
  assumes "ends_sep pre" "plain_word w"
  shows "contains (pre @ t) w \<longleftrightarrow> contains pre w \<or> contains t w"
proof -
  obtain p where p: "pre = p @ '': ''"
    using ends_sepE [OF assms(1)] by blast
  have "contains t w" if "w = u @ v" "suffix u pre" "prefix v t" for u v
  proof (cases u rule: rev_cases)
    case Nil
    then show ?thesis
      using that by (simp add: contains_iff prefix_imp_sublist)
  next
    case (snoc u' c)
    then have c: "c = CHR '' ''" "suffix u' (p @ '':'')"
      using that(2) by (auto simp: p suffix_def)
    show ?thesis
    proof (cases u' rule: rev_cases)
      case Nil
      then show ?thesis
        using assms(2) that(1) snoc c(1) by (simp add: plain_word_def)
    next
      case (snoc u'' d)
      then have "CHR '':'' \<in> set u'"
        using c(2) by (auto simp: suffix_def)
      then show ?thesis
        using assms(2) that(1) \<open>u = u' @ [c]\<close> by (simp add: plain_word_def)
    qed
  qed
  then show ?thesis
    by (auto simp: contains_iff sublist_append)
qed

lemma lower_wrapped:
  assumes "ends_sep pre" "plain_word w"
  shows "contains (to_lower (pre @ t)) w \<longleftrightarrow> contains (to_lower pre) w \<or> contains (to_lower t) w"
  using contains_wrapped [OF ends_sep_lower [OF assms(1)] assms(2)] by simp

lemmas wrapped = contains_wrapped lower_wrapped plain_word_def has_any_def

lemma flags_wrapped:
  assumes "ends_sep pre"
  shows "isTurnQuota (pre @ t) \<longleftrightarrow> isTurnQuota pre \<or> isTurnQuota t"
    and "isTurnStaleNonce (pre @ t) \<longleftrightarrow> isTurnStaleNonce pre \<or> isTurnStaleNonce t"
    and "isTurnCapacity (pre @ t) \<longleftrightarrow> isTurnCapacity pre \<or> isTurnCapacity t"
    and "isDtlsTimeout (pre @ t) \<longleftrightarrow> isDtlsTimeout pre \<or> isDtlsTimeout t"
    and "transientSocketRetry (pre @ t) \<longleftrightarrow> transientSocketRetry pre \<or> transientSocketRetry t"
  using assms
  by (auto simp: isTurnQuota_def isTurnStaleNonce_def isTurnCapacity_def isDtlsTimeout_def
      transientSocketRetry_def wrapped simp del: to_lower_append)

text \<open>The words that keep an authorisation error from being one\<close>

definition masked :: "string \<Rightarrow> bool" where
  "masked t \<longleftrightarrow>
     isTurnQuota t \<or> contains t ''TURN_FORBIDDEN'' \<or> isTurnStaleNonce t \<or> isTurnCapacity t
     \<or> turnAllocAttrMissing t \<or> isDtlsTimeout t \<or> transientSocketRetry t"

lemma auth_wrapped:
  assumes "ends_sep pre" "contains pre ''TURN_AUTH_REJECTED''" "\<not> masked pre"
    and "\<not> contains (to_lower pre) ''turn allocate''" "\<not> contains (to_lower pre) ''attribute not found''"
  shows "turnAuthRejected (pre @ t) \<longleftrightarrow> \<not> masked t"
proof -
  have "turnAllocAttrMissing (pre @ t) \<longleftrightarrow> turnAllocAttrMissing t"
    using assms by (simp add: masked_def turnAllocAttrMissing_def wrapped del: to_lower_append)
  moreover have "isTurnForbidden (pre @ t) \<longleftrightarrow> contains t ''TURN_FORBIDDEN''"
    using assms by (simp add: isTurnForbidden_def masked_def wrapped del: to_lower_append)
  ultimately show ?thesis
    using assms by (simp add: turnAuthRejected_def masked_def flags_wrapped wrapped del: to_lower_append)
qed

definition auth_prefix :: "int \<Rightarrow> string" where
  "auth_prefix c = ''TURN_AUTH_REJECTED ('' @ ([CHR 0xD0, CHR 0xBA, CHR 0xD0, CHR 0xBE, CHR 0xD0, CHR 0xB4] @ '' '') @ itoa c @ ''): ''"

lemma auth_prefix_eval:
  "c = 401 \<or> c = 441 \<Longrightarrow>
     ends_sep (auth_prefix c) \<and> contains (auth_prefix c) ''TURN_AUTH_REJECTED'' \<and> \<not> masked (auth_prefix c)
     \<and> \<not> contains (to_lower (auth_prefix c)) ''turn allocate''
     \<and> \<not> contains (to_lower (auth_prefix c)) ''attribute not found''"
  by (elim disjE) (simp_all only:, code_simp+)

lemma text_prefix_eval:
  "ends_sep ''TURN_AUTH_REJECTED: '' \<and> contains ''TURN_AUTH_REJECTED: '' ''TURN_AUTH_REJECTED''
     \<and> \<not> masked ''TURN_AUTH_REJECTED: ''
     \<and> \<not> contains (to_lower ''TURN_AUTH_REJECTED: '') ''turn allocate''
     \<and> \<not> contains (to_lower ''TURN_AUTH_REJECTED: '') ''attribute not found''"
  by code_simp

lemma code_error_text:
  "c = 401 \<or> c = 441 \<Longrightarrow> err_text (code_error c e) = auth_prefix c @ err_text e"
  by (auto simp: code_error_def auth_prefix_def)

lemma contains_start: "has_prefix s w \<Longrightarrow> contains s w"
  by (simp add: contains_iff has_prefix_iff prefix_imp_sublist)

lemma code_texts:
  "contains (err_text (code_error 403 e)) ''TURN_FORBIDDEN''"
  "contains (err_text (code_error 438 e)) ''TURN_STALE_NONCE''"
  "contains (err_text (code_error 486 e)) ''TURN_QUOTA''"
  "contains (err_text (code_error 508 e)) ''TURN_CAPACITY''"
  by (rule contains_start, simp add: code_error_def)+

lemma code_flags:
  "isTurnForbidden (err_text (code_error 403 e)) \<and> \<not> turnAuthRejected (err_text (code_error 403 e))"
  "isTurnStaleNonce (err_text (code_error 438 e)) \<and> \<not> turnAuthRejected (err_text (code_error 438 e))"
  "isTurnQuota (err_text (code_error 486 e)) \<and> \<not> turnAuthRejected (err_text (code_error 486 e))"
  "isTurnCapacity (err_text (code_error 508 e)) \<and> \<not> turnAuthRejected (err_text (code_error 508 e))"
  using code_texts [of e]
  by (simp_all only: isTurnForbidden_def isTurnStaleNonce_def isTurnQuota_def isTurnCapacity_def
      turnAuthRejected_def) auto

end
