(* ===== verification/WorkerLoop.thy ===== *)
theory WorkerLoop
  imports SessionErrors Protocol
begin

text \<open>
  The loop of one worker, the inner function of \<^verbatim>\<open>WorkerGroup\<close> in \<^verbatim>\<open>group.go\<close>. A turn of
  the loop takes the result of one session and says whether the credentials are refreshed and
  how the worker goes on. What the loop reads from outside in one turn (the context at its four
  checks, the snapshot's addresses, the session's result, \<^verbatim>\<open>rand.Intn\<close>) is a record;
  \<open>worker_run\<close> is the loop over a list of such turns.
\<close>

section \<open>One turn\<close>

record worker_loop =
  wl_attempt :: int
  wl_streak :: int
  wl_preferred :: string

record turn_input =
  ti_stopped :: bool
  ti_urls :: "string list"
  ti_established :: duration
  ti_error :: "goerr option"
  ti_stopped_error :: bool
  ti_stopped_after :: bool
  ti_stopped_wait :: bool
  ti_rand :: "nat \<Rightarrow> nat"

datatype worker_next =
    WorkerStop
  | WorkerAgain duration

record turn_output =
  to_attempt :: int
  to_preferred :: string
  to_refresh :: bool
  to_next :: worker_next

definition worker_start :: worker_loop where
  "worker_start = \<lparr>wl_attempt = 1, wl_streak = 0, wl_preferred = []\<rparr>"

text \<open>\<^verbatim>\<open>rand.Intn(n)\<close>\<close>

definition intn :: "(nat \<Rightarrow> nat) \<Rightarrow> nat \<Rightarrow> int" where
  "intn r n = int (r n mod n)"

text \<open>The address for the next attempt: another endpoint after a timeout of the handshake\<close>

definition next_preferred :: "string list \<Rightarrow> TurnParams option \<Rightarrow> goerr option \<Rightarrow> string" where
  "next_preferred urls tp err =
     (case errors_as is_dtls_timeout err of
        Some (DTLSHandshakeTimeoutError ep url e) \<Rightarrow> nextUniqueTurnURL urls tp ep
      | _ \<Rightarrow> [])"

definition next_streak :: "duration \<Rightarrow> goerr option \<Rightarrow> int \<Rightarrow> int" where
  "next_streak established err streak =
     (if err = None \<or> established \<ge> 20 * second then 0 else streak + 1)"

definition retry_delay :: "bool \<Rightarrow> bool \<Rightarrow> int \<Rightarrow> (nat \<Rightarrow> nat) \<Rightarrow> duration" where
  "retry_delay transient quotaRetry streak r =
     (if transient then
        if streak \<ge> 3 then (30 + intn r 31) * second else (1 + intn r 3) * second
      else if quotaRetry then (6 + intn r 6) * second
      else (5 + intn r 11) * second)"

definition error_has :: "(string \<Rightarrow> bool) \<Rightarrow> goerr option \<Rightarrow> bool" where
  "error_has P err \<longleftrightarrow> (case err of None \<Rightarrow> False | Some e \<Rightarrow> P (err_text e))"

definition unrecoverable :: "string \<Rightarrow> bool" where
  "unrecoverable s \<longleftrightarrow> contains (to_lower s) ''error 29''"

text \<open>What the worker does after its session, for the streak it had\<close>

definition after_session :: "turn_input \<Rightarrow> int \<Rightarrow> int \<times> bool \<times> worker_next" where
  "after_session i streak =
     (case ti_error i of
        Some e \<Rightarrow>
          if ti_stopped_error i then (streak, False, WorkerStop)
          else if fatal e then (streak, False, WorkerStop)
          else
            (let k = next_streak (ti_established i) (Some e) streak;
                 refresh = turnAuthRejected (err_text e) in
             if unrecoverable (err_text e) \<or> ti_stopped_after i \<or> ti_stopped_wait i
             then (k, refresh, WorkerStop)
             else (k, refresh, WorkerAgain (retry_delay (transientSocketRetry (err_text e))
                     (isTurnQuota (err_text e)) k (ti_rand i))))
      | None \<Rightarrow>
          if ti_stopped_after i \<or> ti_stopped_wait i then (0, False, WorkerStop)
          else (0, False, WorkerAgain (retry_delay False False 0 (ti_rand i))))"

definition worker_turn :: "TurnParams option \<Rightarrow> turn_input \<Rightarrow> worker_loop \<Rightarrow> worker_loop \<times> turn_output option" where
  "worker_turn tp i w =
     (if ti_stopped i then (w, None)
      else
        (case after_session i (wl_streak w) of
           (k, refresh, nxt) \<Rightarrow>
             (\<lparr>wl_attempt = wl_attempt w + 1, wl_streak = k,
               wl_preferred = next_preferred (ti_urls i) tp (ti_error i)\<rparr>,
              Some \<lparr>to_attempt = wl_attempt w, to_preferred = wl_preferred w, to_refresh = refresh,
                    to_next = nxt\<rparr>)))"

text \<open>The loop, over the turns of its input: the turns it made, and its state\<close>

fun worker_run :: "TurnParams option \<Rightarrow> turn_input list \<Rightarrow> worker_loop \<Rightarrow> worker_loop \<times> turn_output list" where
  "worker_run tp [] w = (w, [])"
| "worker_run tp (i # is) w =
     (case worker_turn tp i w of
        (w', None) \<Rightarrow> (w', [])
      | (w', Some out) \<Rightarrow>
          if to_next out = WorkerStop then (w', [out])
          else (case worker_run tp is w' of (w'', outs) \<Rightarrow> (w'', out # outs)))"

text \<open>Whether a turn asks for the configuration\<close>

definition wants_config :: "bool \<Rightarrow> bool option \<Rightarrow> bool" where
  "wants_config has_channel sent \<longleftrightarrow> has_channel \<and> (case sent of Some s \<Rightarrow> \<not> s | None \<Rightarrow> False)"

section \<open>Delays and counters\<close>

lemma intn_range: "0 < n \<Longrightarrow> 0 \<le> intn r n \<and> intn r n < int n"
  by (simp add: intn_def)

lemma retry_delay_range:
  "retry_delay True q streak r \<in> (if streak \<ge> 3 then {30 * second .. 60 * second} else {second .. 3 * second})"
  "retry_delay False True streak r \<in> {6 * second .. 11 * second}"
  "retry_delay False False streak r \<in> {5 * second .. 15 * second}"
  using intn_range [of 31 r] intn_range [of 3 r] intn_range [of 6 r] intn_range [of 11 r]
  by (auto simp: retry_delay_def second_def)

lemma after_session_again:
  assumes "after_session i streak = (k, refresh, WorkerAgain d)"
  shows "k = next_streak (ti_established i) (ti_error i) streak"
    and "d = retry_delay (error_has transientSocketRetry (ti_error i)) (error_has isTurnQuota (ti_error i)) k (ti_rand i)"
    and "refresh = error_has turnAuthRejected (ti_error i)"
  using assms by (auto simp: after_session_def next_streak_def error_has_def Let_def split: option.splits if_splits)

lemma after_session_refresh:
  assumes "after_session i streak = (k, refresh, nxt)" "refresh"
  shows "error_has turnAuthRejected (ti_error i)"
  using assms by (auto simp: after_session_def error_has_def Let_def split: option.splits if_splits)

lemma worker_turn_again:
  assumes "worker_turn tp i w = (w', Some out)" "to_next out = WorkerAgain d"
  shows "wl_attempt w' = wl_attempt w + 1"
    and "wl_streak w' = next_streak (ti_established i) (ti_error i) (wl_streak w)"
    and "wl_preferred w' = next_preferred (ti_urls i) tp (ti_error i)"
    and "to_attempt out = wl_attempt w" and "to_preferred out = wl_preferred w"
    and "to_refresh out = error_has turnAuthRejected (ti_error i)"
    and "d = retry_delay (error_has transientSocketRetry (ti_error i)) (error_has isTurnQuota (ti_error i))
          (wl_streak w') (ti_rand i)"
  using assms after_session_again [of i "wl_streak w"]
  by (auto simp: worker_turn_def split: if_splits prod.splits)

text \<open>The sessions of the turns that were made, and the failures that count\<close>

definition short_failure :: "turn_input \<Rightarrow> bool" where
  "short_failure i \<longleftrightarrow> ti_error i \<noteq> None \<and> ti_established i < 20 * second"

definition trailing_failures :: "turn_input list \<Rightarrow> int" where
  "trailing_failures is = int (length (takeWhile short_failure (rev is)))"

lemma next_streak_trailing:
  "next_streak (ti_established i) (ti_error i) (trailing_failures is) = trailing_failures (is @ [i])"
  by (auto simp: next_streak_def trailing_failures_def short_failure_def)

text \<open>A run whose turns all went on, from any point of a worker's life\<close>

definition went_on :: "turn_output list \<Rightarrow> bool" where
  "went_on outs \<longleftrightarrow> (\<forall>out \<in> set outs. to_next out \<noteq> WorkerStop)"

lemma worker_run_history:
  assumes "worker_run tp is w = (w', outs)" "length outs = length is" "went_on outs"
    and "wl_streak w = trailing_failures past"
  shows "wl_streak w' = trailing_failures (past @ is) \<and> wl_attempt w' = wl_attempt w + int (length is)
    \<and> map to_attempt outs = map (\<lambda>k. wl_attempt w + int k) [0 ..< length is]
    \<and> list_all2 (\<lambda>i out. to_refresh out = error_has turnAuthRejected (ti_error i)) is outs"
  using assms
proof (induction "is" arbitrary: w w' outs past)
  case Nil
  then show ?case by simp
next
  case (Cons i "is")
  obtain v out where t: "worker_turn tp i w = (v, Some out)"
    using Cons.prems(1,2) by (auto split: prod.splits option.splits)
  then obtain d where d: "to_next out = WorkerAgain d"
    using Cons.prems(1,3) by (cases "to_next out") (auto simp: went_on_def split: prod.splits)
  then obtain rest where rest: "worker_run tp is v = (w', rest)" "outs = out # rest"
    using Cons.prems(1) t by (auto split: prod.splits)
  note turn = worker_turn_again [OF t d]
  have "wl_streak v = trailing_failures (past @ [i])"
    using turn(2) Cons.prems(4) next_streak_trailing [of i past] by simp
  from Cons.IH [OF rest(1) _ _ this] Cons.prems(2,3) rest(2)
  have IH: "wl_streak w' = trailing_failures (past @ [i] @ is)"
    "wl_attempt w' = wl_attempt v + int (length is)"
    "map to_attempt rest = map (\<lambda>k. wl_attempt v + int k) [0 ..< length is]"
    "list_all2 (\<lambda>i out. to_refresh out = error_has turnAuthRejected (ti_error i)) is rest"
    by (simp_all add: went_on_def)
  have "map (\<lambda>k. wl_attempt w + int k) [0 ..< length (i # is)]
      = wl_attempt w # map (\<lambda>k. wl_attempt v + int k) [0 ..< length is]"
    by (simp add: upt_conv_Cons map_Suc_upt [symmetric] turn(1) algebra_simps del: upt_Suc)
  then show ?case
    using IH turn rest(2) by simp
qed

text \<open>
  The failure streak of a worker, which is kept turn by turn, is what a look back over all its sessions
  gives: the number of failed sessions of less than twenty seconds since the last one that ended cleanly or
  lasted longer. The attempts are numbered 1, 2, 3, ... without a gap or a restart, and in every turn the
  credentials are refreshed exactly when the error reads as a rejected authorisation.
\<close>

theorem worker_history:
  assumes "worker_run tp is worker_start = (w, outs)" "length outs = length is" "went_on outs"
  shows "wl_streak w = trailing_failures is
    \<and> map to_attempt outs = map (\<lambda>k. int k + 1) [0 ..< length is]
    \<and> list_all2 (\<lambda>i out. to_refresh out = error_has turnAuthRejected (ti_error i)) is outs"
  using worker_run_history [OF assms, of "[]"] by (simp add: worker_start_def trailing_failures_def algebra_simps)

text \<open>
  The pause before a worker's next attempt: after the loss of the local socket 1 to 3 seconds, or 30 to
  60 seconds from the third short failure in a row on; after an exhausted quota 6 to 11 seconds; otherwise 5
  to 15 seconds. So no worker retries within a second, and none sleeps longer than a minute.
\<close>

theorem worker_pause:
  assumes "worker_turn tp i w = (w', Some out)" "to_next out = WorkerAgain d"
  shows "d \<in> (if error_has transientSocketRetry (ti_error i)
              then if wl_streak w' \<ge> 3 then {30 * second .. 60 * second} else {second .. 3 * second}
              else if error_has isTurnQuota (ti_error i) then {6 * second .. 11 * second}
              else {5 * second .. 15 * second})
    \<and> second \<le> d \<and> d \<le> minute"
proof -
  have "d \<in> (if error_has transientSocketRetry (ti_error i)
              then if wl_streak w' \<ge> 3 then {30 * second .. 60 * second} else {second .. 3 * second}
              else if error_has isTurnQuota (ti_error i) then {6 * second .. 11 * second}
              else {5 * second .. 15 * second})"
    using worker_turn_again(7) [OF assms] retry_delay_range
    by (cases "error_has transientSocketRetry (ti_error i)"; cases "error_has isTurnQuota (ti_error i)") simp_all
  then show ?thesis
    by (auto simp: duration_defs split: if_splits)
qed

section \<open>What the worker makes of each error\<close>

lemma refresh_iff:
  assumes "ti_error i = Some e" "after_session i streak = (k, refresh, nxt)"
  shows "refresh \<longleftrightarrow> turnAuthRejected (err_text e) \<and> \<not> ti_stopped_error i \<and> \<not> fatal e"
  using assms by (auto simp: after_session_def Let_def split: if_splits)

lemma allocate_code:
  "errors_as is_turn_error (Some e) = Some (StunTurnError c s) \<Longrightarrow> allocate_error addr e = code_error c e"
  by (simp add: allocate_error_def)

lemma auth_code_rejected:
  assumes "c = 401 \<or> c = 441"
  shows "turnAuthRejected (err_text (code_error c e)) \<longleftrightarrow> \<not> masked (err_text e)"
proof -
  have p: "err_text (code_error c e) = auth_prefix c @ err_text e"
    using assms by (rule code_error_text)
  note pre = auth_prefix_eval [OF assms]
  show ?thesis
    unfolding p by (rule auth_wrapped) (use pre in \<open>blast+\<close>)
qed

text \<open>
  C16. What a refused TURN allocation makes the worker do, through the error's text: the reply 401 or 441
  refreshes the credentials of the group, unless the text of the reply contains one of the words that stand
  for another failure, the worker was stopped or the error is fatal; the replies 403 (policy), 438 (nonce),
  486 (quota) and 508 (capacity) never refresh them, whatever their texts say, and are recognised as what they are.
\<close>

theorem allocate_reaction:
  assumes "errors_as is_turn_error (Some e) = Some (StunTurnError c s)"
    and "ti_error i = Some (allocate_error addr e)" "after_session i streak = (k, refresh, nxt)"
  shows "(c = 401 \<or> c = 441 \<longrightarrow>
            (refresh \<longleftrightarrow> \<not> masked (err_text e) \<and> \<not> ti_stopped_error i \<and> \<not> fatal (allocate_error addr e)))
    \<and> (c \<in> {403, 438, 486, 508} \<longrightarrow> \<not> refresh)
    \<and> (c = 403 \<longrightarrow> error_has isTurnForbidden (ti_error i)) \<and> (c = 438 \<longrightarrow> error_has isTurnStaleNonce (ti_error i))
    \<and> (c = 486 \<longrightarrow> error_has isTurnQuota (ti_error i)) \<and> (c = 508 \<longrightarrow> error_has isTurnCapacity (ti_error i))"
proof -
  have e: "allocate_error addr e = code_error c e"
    using assms(1) by (rule allocate_code)
  have r: "refresh \<longleftrightarrow> turnAuthRejected (err_text (code_error c e)) \<and> \<not> ti_stopped_error i \<and> \<not> fatal (allocate_error addr e)"
    using refresh_iff [OF assms(2,3)] e by simp
  have "c = 401 \<or> c = 441 \<longrightarrow>
            (refresh \<longleftrightarrow> \<not> masked (err_text e) \<and> \<not> ti_stopped_error i \<and> \<not> fatal (allocate_error addr e))"
    using r auth_code_rejected [of c e] by blast
  moreover have "c \<in> {403, 438, 486, 508} \<longrightarrow> \<not> refresh"
    using r code_flags [of e] by auto
  ultimately show ?thesis
    using code_flags [of e] assms(2) by (simp add: error_has_def e)
qed

lemma not_auth_mask_flags: "masked s \<Longrightarrow> \<not> contains s ''TURN_FORBIDDEN'' \<Longrightarrow> \<not> turnAuthRejected s"
  by (auto simp: masked_def turnAuthRejected_def)

text \<open>
  An error of Allocate that is not a STUN reply is classified by its digits: if the text contains
  401 anywhere, in a port number or in the name of a transaction, and no word of another failure, it counts as a
  rejected authorisation and the worker gives up the credentials of the whole group.
\<close>

theorem digits_refresh:
  assumes "errors_as is_turn_error (Some e) = None" "\<not> attribute_missing e"
    and "contains (err_text e) ''401''" "\<not> masked (err_text e)"
    and "ti_error i = Some (allocate_error addr e)" "\<not> ti_stopped_error i" "\<not> fatal (allocate_error addr e)"
    and "after_session i streak = (k, refresh, nxt)"
  shows "refresh"
proof -
  have e: "allocate_error addr e = ErrWrap ''TURN_AUTH_REJECTED: '' e []"
    using assms(1-3) by (simp add: allocate_error_def text_error_def has_any_def Let_def)
  have "turnAuthRejected (''TURN_AUTH_REJECTED: '' @ err_text e)"
    using auth_wrapped [of "''TURN_AUTH_REJECTED: ''" "err_text e"] text_prefix_eval assms(4) by blast
  then show ?thesis
    using refresh_iff [OF assms(5,8)] assms(6,7) by (simp only: e err_text.simps append_Nil2 simp_thms)
qed

lemma next_url_differs:
  assumes "buildTurnEndpointCandidates urls tp = Inr cands" "2 \<le> length cands"
  shows "\<exists>c \<in> set cands. nextUniqueTurnURL urls tp cur = c_URL c \<and> \<not> equal_fold (c_Endpoint c) cur"
proof (cases "\<forall>c \<in> set cands. \<not> equal_fold (c_Endpoint c) cur")
  case True
  moreover have "cands \<noteq> []"
    using assms(2) by auto
  ultimately show ?thesis
    using assms next_from_unknown [of cands cur]
    by (intro bexI [of _ "hd cands"]) (auto simp: nextUniqueTurnURL_def url_or_empty_def)
next
  case False
  have d: "distinct (map cand_key cands)"
    using assms(1) build_loop_distinct [of tp urls "{}" "[]" cands]
    by (auto simp: buildTurnEndpointCandidates_def split: sum.splits if_splits)
  obtain i where i: "i < length cands" "equal_fold (c_Endpoint (cands ! i)) cur"
    using False by (auto simp: in_set_conv_nth)
  let ?j = "(i + 1) mod length cands"
  have j: "?j < length cands" "?j \<noteq> i"
    using i assms(2) by (auto simp: mod_Suc)
  have "\<not> equal_fold (c_Endpoint (cands ! ?j)) cur"
    using key_index_unique [OF d i(1) j(1)] i(2) j(2) by (auto simp: equal_fold_key)
  then show ?thesis
    using next_from_rotation [OF d assms(2) i(1) i(2)] assms j(1)
    by (intro bexI [of _ "cands ! ?j"]) (auto simp: nextUniqueTurnURL_def url_or_empty_def)
qed

text \<open>
  C17. A handshake that times out sends the worker to another server: the next attempt prefers a URL whose
  endpoint is not the one that timed out whenever the group has two addresses, and no preference is kept
  otherwise, and the timeout does not refresh the credentials.
\<close>

theorem timeout_moves_on:
  assumes "classifyHandshakeFailure parent sess hc hsErr cause endpoint url = (turnOutcomeTimeout, err)"
    and "ti_error i = err" "worker_turn tp i w = (w', Some out)"
    and "buildTurnEndpointCandidates (ti_urls i) tp = Inr cands"
  shows "\<not> to_refresh out
    \<and> (2 \<le> length cands \<longrightarrow>
         (\<exists>c \<in> set cands. wl_preferred w' = c_URL c \<and> \<not> equal_fold (c_Endpoint c) endpoint))
    \<and> (length cands < 2 \<longrightarrow> wl_preferred w' = [])"
proof -
  have err: "err = Some (DTLSHandshakeTimeoutError endpoint url (Some hsErr))"
    using assms(1) by (auto simp: classifyHandshakeFailure_def split: if_splits)
  have pref: "wl_preferred w' = nextUniqueTurnURL (ti_urls i) tp endpoint"
    using assms(2,3) by (auto simp: err worker_turn_def next_preferred_def errors_as_self split: if_splits prod.splits)
  have "isDtlsTimeout (err_text (DTLSHandshakeTimeoutError endpoint url (Some hsErr)))"
    by (simp add: isDtlsTimeout_def dtls_timeout_text_def contains_start)
  then have "\<not> turnAuthRejected (err_text (DTLSHandshakeTimeoutError endpoint url (Some hsErr)))"
    by (simp only: turnAuthRejected_def) blast
  moreover obtain k nxt where "after_session i (wl_streak w) = (k, to_refresh out, nxt)"
    using assms(3) by (auto simp: worker_turn_def split: if_splits prod.splits)
  ultimately have "\<not> to_refresh out"
    using refresh_iff [OF assms(2) [unfolded err]] by blast
  then show ?thesis
    using next_url_differs [OF assms(4), of endpoint] assms(4) by (auto simp: pref nextUniqueTurnURL_def)
qed

text \<open>
  A refused password ends the worker: when the server answers the request for the configuration with
  \<^verbatim>\<open>DENIED\<close>, whatever the reason, the error that the session returns stops the worker's loop without a refresh
  and without another attempt.
\<close>

theorem denied_stops_worker:
  assumes "config_reply (''DENIED:'' @ reason) = Inl e" "ti_error i = Some e"
    and "worker_turn tp i w = (w', Some out)"
  shows "to_next out = WorkerStop \<and> \<not> to_refresh out"
proof -
  have e: "e = denied_error reason"
    using assms(1) by (simp add: config_reply_def trim_prefix_def)
  have "has_prefix (err_text e) ''FATAL_AUTH''"
    by (simp add: e denied_error_def)
  then have "contains (hinted e) ''FATAL_AUTH''"
    by (auto simp: hinted_def Let_def intro: contains_appendI1 contains_start)
  then have "fatal e"
    by (simp add: fatal_def)
  then show ?thesis
    using assms(2,3) by (auto simp: worker_turn_def after_session_def split: if_splits)
qed

section \<open>Instances\<close>

definition demo_turn :: "duration \<Rightarrow> goerr option \<Rightarrow> turn_input" where
  "demo_turn d e =
     \<lparr>ti_stopped = False, ti_urls = [''a:1'', ''b:2''], ti_established = d, ti_error = e,
      ti_stopped_error = False, ti_stopped_after = False, ti_stopped_wait = False, ti_rand = (\<lambda>n. 0)\<rparr>"

definition reset_error :: goerr where
  "reset_error = NetError ''connection reset'' False"

definition denied_reply :: goerr where
  "denied_reply = StunTurnError 401 ''Allocate error response (error 401: Unauthorized)''"

definition port_error :: goerr where
  "port_error = NetError ''write udp 10.0.0.2:40123->5.180.86.4:3478: i/o timeout'' True"

lemma reset_flags:
  "\<not> fatal reset_error" "\<not> unrecoverable (err_text reset_error)" "\<not> transientSocketRetry (err_text reset_error)"
  "\<not> isTurnQuota (err_text reset_error)" "\<not> turnAuthRejected (err_text reset_error)"
  by code_simp+

lemma reset_turn:
  "worker_turn tp (demo_turn d (Some reset_error)) w =
     (\<lparr>wl_attempt = wl_attempt w + 1, wl_streak = next_streak d (Some reset_error) (wl_streak w),
       wl_preferred = []\<rparr>,
      Some \<lparr>to_attempt = wl_attempt w, to_preferred = wl_preferred w, to_refresh = False,
            to_next = WorkerAgain (5 * second)\<rparr>)"
proof -
  have "errors_as is_dtls_timeout (Some reset_error) = None"
    by code_simp
  then show ?thesis
    using reset_flags
    by (simp add: worker_turn_def demo_turn_def after_session_def Let_def next_preferred_def retry_delay_def intn_def)
qed

theorem worker_history_witness:
  "trailing_failures [demo_turn 0 (Some reset_error), demo_turn minute (Some reset_error), demo_turn 0 (Some reset_error)] = 1"
proof -
  let ?is = "[demo_turn 0 (Some reset_error), demo_turn minute (Some reset_error), demo_turn 0 (Some reset_error)]"
  obtain w outs where r: "worker_run None ?is worker_start = (w, outs)" "wl_streak w = 1" "length outs = length ?is"
    "went_on outs"
    by (simp add: reset_turn worker_start_def next_streak_def duration_defs went_on_def)
  show ?thesis
    using worker_history [OF r(1,3,4)] r(2) by simp
qed

theorem worker_pause_witness:
  "5 * second \<in> {5 * second .. 15 * second} \<and> (5 * second :: int) \<le> minute"
  using worker_pause [OF reset_turn [of None 0 worker_start]] reset_flags(3,4)
  by (simp add: demo_turn_def error_has_def)

theorem allocate_reaction_witness:
  "fst (snd (after_session (demo_turn 0 (Some (allocate_error ''a:1'' denied_reply))) 0))
     \<longleftrightarrow> \<not> masked (err_text denied_reply) \<and> \<not> fatal (allocate_error ''a:1'' denied_reply)"
proof -
  let ?i = "demo_turn 0 (Some (allocate_error ''a:1'' denied_reply))"
  have s: "errors_as is_turn_error (Some denied_reply) = Some (StunTurnError 401 ''Allocate error response (error 401: Unauthorized)'')"
    by (simp add: denied_reply_def errors_as_self)
  have e: "ti_error ?i = Some (allocate_error ''a:1'' denied_reply)" "\<not> ti_stopped_error ?i"
    by (simp_all add: demo_turn_def)
  show ?thesis
    using allocate_reaction [OF s e(1)] e(2) by (cases "after_session ?i 0") simp
qed

theorem digits_refresh_witness:
  "fst (snd (after_session (demo_turn 0 (Some (allocate_error ''a:1'' port_error))) 0))"
proof -
  let ?i = "demo_turn 0 (Some (allocate_error ''a:1'' port_error))"
  have c: "errors_as is_turn_error (Some port_error) = None" "\<not> attribute_missing port_error"
    "contains (err_text port_error) ''401''" "\<not> masked (err_text port_error)"
    "\<not> fatal (allocate_error ''a:1'' port_error)"
    by code_simp+
  have i: "ti_error ?i = Some (allocate_error ''a:1'' port_error)" "\<not> ti_stopped_error ?i"
    by (simp_all add: demo_turn_def)
  obtain k refresh nxt where a: "after_session ?i 0 = (k, refresh, nxt)"
    by (cases "after_session ?i 0")
  show ?thesis
    using digits_refresh [OF c(1-4) i c(5) a] a by simp
qed

theorem timeout_moves_on_witness:
  "wl_preferred (fst (worker_turn None (demo_turn 0 (Some (DTLSHandshakeTimeoutError ''a:1'' ''a:1'' (Some CtxDeadlineExceeded))))
     worker_start)) = ''b:2''"
proof -
  let ?err = "Some (DTLSHandshakeTimeoutError ''a:1'' ''a:1'' (Some CtxDeadlineExceeded))"
  let ?i = "demo_turn 0 ?err"
  let ?c = "[\<lparr>c_URL = ''a:1'', c_Endpoint = ''a:1''\<rparr>, \<lparr>c_URL = ''b:2'', c_Endpoint = ''b:2''\<rparr>]"
  have b: "buildTurnEndpointCandidates (ti_urls ?i) None = Inr ?c"
    by code_simp
  have e: "equal_fold ''a:1'' ''a:1''"
    by (simp add: equal_fold_def)
  have cl: "classifyHandshakeFailure (Some None) (Some None) (Some CtxDeadlineExceeded) CtxDeadlineExceeded None
      ''a:1'' ''a:1'' = (turnOutcomeTimeout, ?err)"
    by (simp add: classifyHandshakeFailure_def ctx_stopped_def errors_is_def chain_self)
  obtain w' out where t: "worker_turn None ?i worker_start = (w', Some out)"
    by (cases "worker_turn None ?i worker_start")
      (auto simp: worker_turn_def demo_turn_def split: prod.splits)
  have i: "ti_error ?i = ?err"
    by (simp add: demo_turn_def)
  show ?thesis
    using timeout_moves_on [OF cl i t b] t e by auto
qed

theorem denied_stops_worker_witness:
  "\<exists>w' out. worker_turn None (demo_turn 0 (Some (denied_error ''expired''))) worker_start = (w', Some out)
     \<and> to_next out = WorkerStop"
proof -
  have c: "config_reply (''DENIED:'' @ ''expired'') = Inl (denied_error ''expired'')"
    by (simp add: config_reply_def trim_prefix_def)
  let ?i = "demo_turn 0 (Some (denied_error ''expired''))"
  obtain w' out where t: "worker_turn None ?i worker_start = (w', Some out)"
    by (cases "worker_turn None ?i worker_start")
      (auto simp: worker_turn_def demo_turn_def split: prod.splits)
  have i: "ti_error ?i = Some (denied_error ''expired'')"
    by (simp add: demo_turn_def)
  show ?thesis
    using denied_stops_worker [OF c i t] t by blast
qed

end
