(* ===== verification/Session.thy ===== *)
theory Session
  imports SessionErrors Protocol ConfigCoordinator Dispatcher
begin

text \<open>
  One session, \<^verbatim>\<open>RunSession\<close> of \<^verbatim>\<open>session.go\<close>: from the choice of an address to the end of
  the tunnel. What the network, the scheduler and the contexts answer is the record
  \<open>session_env\<close>; what the session changes is the record \<open>session_world\<close>: the counters of
  handshakes and connections, the permit, the operation for the configuration and its coordinator, the
  dispatcher's workers, the resources that are open and the stack of deferred calls. A stage either goes on
  or returns; at the end the deferred calls run, the last one first. Other sessions change the
  counters at the same time by atomic additions, which commute with these. The packet loops that run
  between registration and the end are in \<open>SessionLoops\<close>; here they are the time until they end.
\<close>

section \<open>What a session asks and what it changes\<close>

record session_env =
  se_id :: nat
  se_urls :: "string list"
  se_tp :: "TurnParams option"
  se_preferred :: string
  se_acquire :: "string \<Rightarrow> turnEndpointCandidate list \<Rightarrow> goerr + turnEndpointCandidate"
  se_dial :: "string \<Rightarrow> goerr + bool"
  se_conn_type :: string
  se_client :: "goerr option"
  se_listen :: "goerr option"
  se_allocate :: "goerr option"
  se_prep :: "goerr option"
  se_cert :: "goerr option"
  se_dtls :: "goerr option"
  se_handshake :: "goerr option"
  se_hs_ctx :: "goerr option"
  se_parent :: ctx
  se_parent_release :: ctx
  se_sess :: ctx
  se_cause :: "goerr option"
  se_has_channel :: bool
  se_conn :: "nat \<Rightarrow> conn_turn"
  se_auth :: "nat \<Rightarrow> goerr option"
  se_localPort :: string
  se_deviceID :: string
  se_password :: string
  se_accepted :: bool
  se_now :: gotime
  se_established :: duration

datatype resource_kind =
    UdpConn
  | TurnClient
  | Relay
  | Pipes
  | DtlsConn

datatype deferred =
    ReleaseConfig
  | CancelSession
  | ReleasePermit
  | CancelPreparation
  | CloseConn
  | CloseClient
  | CloseRelay
  | Cleanup
  | StopRelay
  | CloseDtls
  | ActiveDown
  | UnregisterSlot
  | StopDtls

datatype session_event =
    PermitFinished turnHandshakeOutcome
  | ConfigRequested "string list"
  | AuthSent "string list"
  | SessionCanceled
  | SeatCooled

record session_world =
  sw_waiting :: int
  sw_inflight :: int
  sw_success :: int
  sw_timeout :: int
  sw_canceled :: int
  sw_errors :: int
  sw_active :: int
  sw_permit :: "turnEndpointCandidate option"
  sw_outcome :: turnHandshakeOutcome
  sw_released :: bool
  sw_coord :: ConfigCoordinator
  sw_op :: "(nat \<times> once) option"
  sw_channel :: "string list"
  sw_disp :: Dispatcher
  sw_errorCount :: int
  sw_open :: "resource_kind list"
  sw_defers :: "deferred list"
  sw_delivered :: bool
  sw_cleaned :: bool
  sw_log :: "session_event list"

type_synonym session_result = "bool \<times> duration \<times> goerr option"
type_synonym stage = "session_world \<Rightarrow> session_world \<times> session_result option"

definition log_event :: "session_event \<Rightarrow> session_world \<Rightarrow> session_world" where
  "log_event ev w = w\<lparr>sw_log := sw_log w @ [ev]\<rparr>"

definition defer_call :: "deferred \<Rightarrow> session_world \<Rightarrow> session_world" where
  "defer_call d w = w\<lparr>sw_defers := d # sw_defers w\<rparr>"

definition open_res :: "resource_kind \<Rightarrow> session_world \<Rightarrow> session_world" where
  "open_res r w = w\<lparr>sw_open := r # sw_open w\<rparr>"

definition close_res :: "resource_kind list \<Rightarrow> session_world \<Rightarrow> session_world" where
  "close_res rs w = w\<lparr>sw_open := filter (\<lambda>r. r \<notin> set rs) (sw_open w)\<rparr>"

definition permit_endpoint :: "session_world \<Rightarrow> string" where
  "permit_endpoint w = (case sw_permit w of None \<Rightarrow> [] | Some c \<Rightarrow> c_Endpoint c)"

definition permit_url :: "session_world \<Rightarrow> string" where
  "permit_url w = (case sw_permit w of None \<Rightarrow> [] | Some c \<Rightarrow> c_URL c)"

definition give_up :: "goerr \<Rightarrow> session_result" where
  "give_up e = (False, 0, Some e)"

section \<open>Completion of the permit and of the operation\<close>

definition releasePermit :: "session_env \<Rightarrow> session_world \<Rightarrow> session_world" where
  "releasePermit env w =
     (if sw_released w then w
      else
        (let oc = permitOutcome (se_parent_release env) (sw_outcome w) in
         log_event (PermitFinished oc) (w\<lparr>sw_released := True, sw_inflight := sw_inflight w - 1\<rparr>)))"

text \<open>The body of the operation's \<^verbatim>\<open>Once\<close> runs to its end: \<^verbatim>\<open>finishOp\<close> follows.\<close>

definition complete_op :: "nat \<Rightarrow> gotime \<Rightarrow> once \<Rightarrow> session_world \<Rightarrow> session_world" where
  "complete_op p now x w =
     (case x of
        OnceFinishing success d \<Rightarrow>
          w\<lparr>sw_op := Some (p, OnceDone), sw_coord := finishOp p success d now (sw_coord w)\<rparr>
      | _ \<Rightarrow> w\<lparr>sw_op := Some (p, x)\<rparr>)"

definition release_op :: "session_env \<Rightarrow> session_world \<Rightarrow> session_world" where
  "release_op env w =
     (case sw_op w of
        None \<Rightarrow> w
      | Some (p, x) \<Rightarrow> complete_op p (se_now env) (ReleaseWithCooldown (3 * second) x) w)"

definition deliver_op :: "session_env \<Rightarrow> string \<Rightarrow> session_world \<Rightarrow> session_world" where
  "deliver_op env conf w =
     (case sw_op w of
        None \<Rightarrow> w
      | Some (p, x) \<Rightarrow>
          (case deliver_select (se_accepted env) (deliver_begin conf (\<not> se_has_channel env) x) of
             (y, out) \<Rightarrow>
               (complete_op p (se_now env) y w)\<lparr>sw_channel := sw_channel w @ out, sw_delivered := sw_delivered w \<or> out \<noteq> []\<rparr>))"

section \<open>The deferred calls\<close>

fun run_defer :: "session_env \<Rightarrow> deferred \<Rightarrow> session_world \<Rightarrow> session_world" where
  "run_defer env ReleaseConfig w = release_op env w"
| "run_defer env CancelSession w = log_event SessionCanceled w"
| "run_defer env ReleasePermit w = releasePermit env w"
| "run_defer env CancelPreparation w = w"
| "run_defer env CloseConn w = close_res [UdpConn] w"
| "run_defer env CloseClient w = close_res [TurnClient] w"
| "run_defer env CloseRelay w = log_event SeatCooled (close_res [Relay] w)"
| "run_defer env Cleanup w =
     (if sw_cleaned w then w
      else log_event SessionCanceled ((close_res [DtlsConn, Pipes, Relay] w)\<lparr>sw_cleaned := True\<rparr>))"
| "run_defer env StopRelay w = w"
| "run_defer env CloseDtls w = close_res [DtlsConn] w"
| "run_defer env ActiveDown w = w\<lparr>sw_active := sw_active w - 1\<rparr>"
| "run_defer env UnregisterSlot w = w\<lparr>sw_disp := Unregister (se_id env) (sw_disp w)\<rparr>"
| "run_defer env StopDtls w = w"

fun run_defers :: "session_env \<Rightarrow> deferred list \<Rightarrow> session_world \<Rightarrow> session_world" where
  "run_defers env [] w = w"
| "run_defers env (d # ds) w = run_defers env ds (run_defer env d w)"

section \<open>The stages\<close>

definition preferred_url :: "session_env \<Rightarrow> string" where
  "preferred_url env =
     (if se_preferred env = [] then se_urls env ! (se_id env mod length (se_urls env)) else se_preferred env)"

definition st_acquire :: "session_env \<Rightarrow> stage" where
  "st_acquire env w =
     (case buildTurnEndpointCandidates (se_urls env) (se_tp env) of
        Inl e \<Rightarrow> (w, Some (give_up e))
      | Inr cands \<Rightarrow>
          (let w1 = w\<lparr>sw_waiting := sw_waiting w + 1\<rparr>;
               answer = se_acquire env (preferred_url env) cands;
               w2 = w1\<lparr>sw_waiting := sw_waiting w1 - 1\<rparr> in
           case answer of
             Inl e \<Rightarrow> (w2, Some (give_up (ErrWrap ([CHR 0xD0, CHR 0xBE, CHR 0xD0, CHR 0xB6, CHR 0xD0, CHR 0xB8, CHR 0xD0, CHR 0xB4, CHR 0xD0, CHR 0xB0, CHR 0xD0, CHR 0xBD, CHR 0xD0, CHR 0xB8, CHR 0xD0, CHR 0xB5] @ '' TURN endpoint: '') e [])))
           | Inr c \<Rightarrow>
               (defer_call ReleasePermit
                  (w2\<lparr>sw_inflight := sw_inflight w2 + 1, sw_permit := Some c, sw_outcome := turnOutcomeOther\<rparr>),
                None)))"

definition st_dial :: "session_env \<Rightarrow> stage" where
  "st_dial env w =
     (let w1 = defer_call CancelPreparation w in
      case se_dial env (permit_endpoint w) of
        Inl e \<Rightarrow> (w1, Some (give_up (ErrWrap ([CHR 0xD0, CHR 0xBF, CHR 0xD0, CHR 0xBE, CHR 0xD0, CHR 0xB4, CHR 0xD0, CHR 0xBA, CHR 0xD0, CHR 0xBB, CHR 0xD1, CHR 0x8E, CHR 0xD1, CHR 0x87, CHR 0xD0, CHR 0xB5, CHR 0xD0, CHR 0xBD, CHR 0xD0, CHR 0xB8, CHR 0xD0, CHR 0xB5] @ '' TURN UDP: '') e [])))
      | Inr False \<Rightarrow>
          (close_res [UdpConn] (open_res UdpConn w1), Some (give_up (ErrText ((''TURN UDP: '' @ [CHR 0xD0, CHR 0xBD, CHR 0xD0, CHR 0xB5, CHR 0xD0, CHR 0xBE, CHR 0xD0, CHR 0xB6, CHR 0xD0, CHR 0xB8, CHR 0xD0, CHR 0xB4, CHR 0xD0, CHR 0xB0, CHR 0xD0, CHR 0xBD, CHR 0xD0, CHR 0xBD, CHR 0xD1, CHR 0x8B, CHR 0xD0, CHR 0xB9] @ '' '' @ [CHR 0xD1, CHR 0x82, CHR 0xD0, CHR 0xB8, CHR 0xD0, CHR 0xBF] @ '' '' @ [CHR 0xD1, CHR 0x81, CHR 0xD0, CHR 0xBE, CHR 0xD0, CHR 0xB5, CHR 0xD0, CHR 0xB4, CHR 0xD0, CHR 0xB8, CHR 0xD0, CHR 0xBD, CHR 0xD0, CHR 0xB5, CHR 0xD0, CHR 0xBD, CHR 0xD0, CHR 0xB8, CHR 0xD1, CHR 0x8F] @ '' '') @ se_conn_type env))))
      | Inr True \<Rightarrow> (defer_call CloseConn (open_res UdpConn w1), None))"

definition st_client :: "session_env \<Rightarrow> stage" where
  "st_client env w =
     (case se_client env of
        Some e \<Rightarrow> (w, Some (give_up (ErrWrap (''TURN '' @ [CHR 0xD0, CHR 0xBA, CHR 0xD0, CHR 0xBB, CHR 0xD0, CHR 0xB8, CHR 0xD0, CHR 0xB5, CHR 0xD0, CHR 0xBD, CHR 0xD1, CHR 0x82] @ '': '') e [])))
      | None \<Rightarrow>
          (let w1 = defer_call CloseClient (open_res TurnClient w) in
           case se_listen env of
             Some e \<Rightarrow> (w1, Some (give_up (ErrWrap ''TURN Listen: '' e [])))
           | None \<Rightarrow> (w1, None)))"

text \<open>
  \<open>se_prep\<close> is the error of the preparation's context after \<^verbatim>\<open>Allocate\<close>. It is not nil
  whenever the abort function ran, so the two conditions of the code are this one. What the abort function closes, the
  deferred calls close again. A relay that was allocated nevertheless is closed at once.
\<close>

definition st_allocate :: "session_env \<Rightarrow> stage" where
  "st_allocate env w =
     (case se_prep env of
        Some prepErr \<Rightarrow>
          (if se_allocate env = None then close_res [Relay] (open_res Relay w) else w,
           Some (give_up (ErrWrap (''TURN '' @ [CHR 0xD0, CHR 0xBF, CHR 0xD0, CHR 0xBE, CHR 0xD0, CHR 0xB4, CHR 0xD0, CHR 0xB3, CHR 0xD0, CHR 0xBE, CHR 0xD1, CHR 0x82, CHR 0xD0, CHR 0xBE, CHR 0xD0, CHR 0xB2, CHR 0xD0, CHR 0xBA, CHR 0xD0, CHR 0xB0] @ '': '')
                (case se_allocate env of Some e \<Rightarrow> e | None \<Rightarrow> prepErr) [])))
      | None \<Rightarrow>
          (case se_allocate env of
             Some e \<Rightarrow> (w, Some (give_up (allocate_error (permit_endpoint w) e)))
           | None \<Rightarrow>
               (let w1 = (defer_call CloseRelay (open_res Relay w))\<lparr>sw_errorCount := 0\<rparr> in
                (defer_call StopRelay (defer_call Cleanup (open_res Pipes w1)), None))))"

definition st_dtls :: "session_env \<Rightarrow> stage" where
  "st_dtls env w =
     (case se_cert env of
        Some e \<Rightarrow> (w, Some (give_up (ErrWrap ([CHR 0xD0, CHR 0xB3, CHR 0xD0, CHR 0xB5, CHR 0xD0, CHR 0xBD, CHR 0xD0, CHR 0xB5, CHR 0xD1, CHR 0x80, CHR 0xD0, CHR 0xB0, CHR 0xD1, CHR 0x86, CHR 0xD0, CHR 0xB8, CHR 0xD1, CHR 0x8F] @ '' '' @ [CHR 0xD1, CHR 0x81, CHR 0xD0, CHR 0xB5, CHR 0xD1, CHR 0x80, CHR 0xD1, CHR 0x82, CHR 0xD0, CHR 0xB8, CHR 0xD1, CHR 0x84, CHR 0xD0, CHR 0xB8, CHR 0xD0, CHR 0xBA, CHR 0xD0, CHR 0xB0, CHR 0xD1, CHR 0x82, CHR 0xD0, CHR 0xB0] @ '': '') e [])))
      | None \<Rightarrow>
          (case se_dtls env of
             Some e \<Rightarrow>
               (let w1 = releasePermit env (w\<lparr>sw_outcome := turnOutcomeOther\<rparr>) in
                (w1\<lparr>sw_errors := sw_errors w1 + 1\<rparr>,
                 Some (give_up (ErrWrap ((''DTLS '' @ [CHR 0xD0, CHR 0xBA, CHR 0xD0, CHR 0xBB, CHR 0xD0, CHR 0xB8, CHR 0xD0, CHR 0xB5, CHR 0xD0, CHR 0xBD, CHR 0xD1, CHR 0x82] @ '' ('') @ permit_endpoint w @ ''): '') e []))))
           | None \<Rightarrow> (defer_call CloseDtls (open_res DtlsConn w), None)))"

definition count_failure :: "turnHandshakeOutcome \<Rightarrow> session_world \<Rightarrow> session_world" where
  "count_failure oc w =
     (case oc of
        turnOutcomeTimeout \<Rightarrow> w\<lparr>sw_timeout := sw_timeout w + 1\<rparr>
      | turnOutcomeCanceled \<Rightarrow> w\<lparr>sw_canceled := sw_canceled w + 1\<rparr>
      | _ \<Rightarrow> w\<lparr>sw_errors := sw_errors w + 1\<rparr>)"

definition st_handshake :: "session_env \<Rightarrow> stage" where
  "st_handshake env w =
     (case se_handshake env of
        Some e \<Rightarrow>
          (case classifyHandshakeFailure (se_parent env) (se_sess env) (se_hs_ctx env) e (se_cause env)
                  (permit_endpoint w) (permit_url w) of
             (oc, hsOut) \<Rightarrow>
               (releasePermit env (count_failure oc (w\<lparr>sw_outcome := oc\<rparr>)), Some (False, 0, hsOut)))
      | None \<Rightarrow>
          (let w1 = releasePermit env (w\<lparr>sw_outcome := turnOutcomeSuccess\<rparr>) in
           (defer_call ActiveDown (w1\<lparr>sw_success := sw_success w1 + 1, sw_active := sw_active w1 + 1\<rparr>), None)))"

definition st_config :: "session_env \<Rightarrow> stage" where
  "st_config env w =
     (if sw_op w \<noteq> None \<and> se_has_channel env then
        (case RequestConfig (se_conn env) (se_localPort env) (se_deviceID env) (se_password env) of
           (ws, r) \<Rightarrow>
             (let w1 = log_event (ConfigRequested ws) w in
              case r of
                Inl e \<Rightarrow>
                  if contains (err_text e) ''FATAL_AUTH'' then (w1, Some (False, se_established env, Some e))
                  else (release_op env w1, None)
              | Inr conf \<Rightarrow> if conf \<noteq> [] then (deliver_op env conf w1, None) else (release_op env w1, None)))
      else
        (case SendAuth (se_auth env) (se_deviceID env) (se_password env) of
           (ws, Some e) \<Rightarrow>
             (log_event (AuthSent ws) w,
              Some (False, se_established env, Some (ErrWrap (([CHR 0xD0, CHR 0xBE, CHR 0xD1, CHR 0x88, CHR 0xD0, CHR 0xB8, CHR 0xD0, CHR 0xB1, CHR 0xD0, CHR 0xBA, CHR 0xD0, CHR 0xB0] @ '' '' @ [CHR 0xD0, CHR 0xBE, CHR 0xD1, CHR 0x82, CHR 0xD0, CHR 0xBF, CHR 0xD1, CHR 0x80, CHR 0xD0, CHR 0xB0, CHR 0xD0, CHR 0xB2, CHR 0xD0, CHR 0xBA, CHR 0xD0, CHR 0xB8] @ '' '' @ [CHR 0xD0, CHR 0xB0, CHR 0xD0, CHR 0xB2, CHR 0xD1, CHR 0x82, CHR 0xD0, CHR 0xBE, CHR 0xD1, CHR 0x80, CHR 0xD0, CHR 0xB8, CHR 0xD0, CHR 0xB7, CHR 0xD0, CHR 0xB0, CHR 0xD1, CHR 0x86, CHR 0xD0, CHR 0xB8, CHR 0xD0, CHR 0xB8] @ '' (AUTH): '')) e [])))
         | (ws, None) \<Rightarrow> (log_event (AuthSent ws) w, None)))"

text \<open>The tunnel runs until its loops have ended, then \<^verbatim>\<open>cleanup\<close> is called for the first time.\<close>

definition st_serve :: "session_env \<Rightarrow> stage" where
  "st_serve env w =
     (let w1 = defer_call StopDtls (defer_call UnregisterSlot
                 (w\<lparr>sw_disp := Register (se_id env) (sw_disp w)\<rparr>)) in
      (run_defer env Cleanup w1, Some (sw_delivered w1, se_established env, None)))"

fun run_stages :: "stage list \<Rightarrow> session_world \<Rightarrow> session_world \<times> session_result" where
  "run_stages [] w = (w, (False, 0, None))"
| "run_stages (f # fs) w =
     (case f w of
        (w', Some r) \<Rightarrow> (w', r)
      | (w', None) \<Rightarrow> run_stages fs w')"

definition session_stages :: "session_env \<Rightarrow> stage list" where
  "session_stages env =
     [st_acquire env, st_dial env, st_client env, st_allocate env, st_dtls env, st_handshake env,
      st_config env, st_serve env]"

definition session_entry :: "session_world \<Rightarrow> session_world" where
  "session_entry w =
     defer_call CancelSession
       (w\<lparr>sw_permit := None, sw_outcome := turnOutcomeOther, sw_released := False, sw_open := [],
          sw_defers := (if sw_op w \<noteq> None then [ReleaseConfig] else []), sw_delivered := False,
          sw_cleaned := False, sw_log := []\<rparr>)"

definition RunSession :: "session_env \<Rightarrow> session_world \<Rightarrow> session_world \<times> session_result" where
  "RunSession env w =
     (case run_stages (session_stages env) (session_entry w) of
        (w', r) \<Rightarrow> (run_defers env (sw_defers w') w', r))"

section \<open>What is still owed\<close>

text \<open>
  \<open>owed env w0 ds w\<close>: what the world \<open>w\<close> differs in from the world \<open>w0\<close> before the session is
  exactly what the deferred calls \<open>ds\<close> undo.
\<close>

fun closes :: "deferred \<Rightarrow> resource_kind set" where
  "closes CloseConn = {UdpConn}"
| "closes CloseClient = {TurnClient}"
| "closes CloseRelay = {Relay}"
| "closes CloseDtls = {DtlsConn}"
| "closes _ = {}"

definition resources_owed :: "deferred list \<Rightarrow> session_world \<Rightarrow> bool" where
  "resources_owed ds w \<longleftrightarrow>
     (\<forall>r \<in> set (sw_open w). (\<exists>d \<in> set ds. r \<in> closes d) \<or> Cleanup \<in> set ds \<and> r = Pipes \<and> \<not> sw_cleaned w)"

definition permit_owed :: "session_world \<Rightarrow> deferred list \<Rightarrow> session_world \<Rightarrow> bool" where
  "permit_owed w0 ds w \<longleftrightarrow>
     sw_inflight w = sw_inflight w0 + (if sw_permit w \<noteq> None \<and> \<not> sw_released w then 1 else 0)
     \<and> (sw_permit w \<noteq> None \<and> \<not> sw_released w \<longrightarrow> ReleasePermit \<in> set ds)
     \<and> (ReleasePermit \<in> set ds \<longrightarrow> sw_permit w \<noteq> None)
     \<and> (sw_released w \<longrightarrow> sw_permit w \<noteq> None)
     \<and> length [ev \<leftarrow> sw_log w. \<exists>oc. ev = PermitFinished oc] = (if sw_released w then 1 else 0)"

definition op_fresh :: "session_world \<Rightarrow> nat \<Rightarrow> deferred list \<Rightarrow> session_world \<Rightarrow> bool" where
  "op_fresh w0 p ds w \<longleftrightarrow>
     sw_op w = Some (p, OnceFresh) \<and> sw_coord w = sw_coord w0 \<and> sw_channel w = sw_channel w0
     \<and> \<not> sw_delivered w \<and> ReleaseConfig \<in> set ds"

definition op_done :: "session_world \<Rightarrow> nat \<Rightarrow> session_world \<Rightarrow> bool" where
  "op_done w0 p w \<longleftrightarrow>
     sw_op w = Some (p, OnceDone) \<and> cc_activeOp (sw_coord w) \<noteq> Some p
     \<and> (cc_activeOp (sw_coord w0) = Some p \<longrightarrow>
          cc_activeOp (sw_coord w) = None
          \<and> (cc_sent (sw_coord w) \<longleftrightarrow> cc_sent (sw_coord w0) \<or> sw_delivered w))
     \<and> (sw_delivered w \<longleftrightarrow> sw_channel w \<noteq> sw_channel w0)"

definition config_owed :: "session_world \<Rightarrow> deferred list \<Rightarrow> session_world \<Rightarrow> bool" where
  "config_owed w0 ds w \<longleftrightarrow>
     (sw_op w0 = None \<longrightarrow> sw_op w = None \<and> sw_coord w = sw_coord w0)
     \<and> (\<forall>p. sw_op w0 = Some (p, OnceFresh) \<longrightarrow> op_fresh w0 p ds w \<or> op_done w0 p w)"

definition owed :: "session_env \<Rightarrow> session_world \<Rightarrow> deferred list \<Rightarrow> session_world \<Rightarrow> bool" where
  "owed env w0 ds w \<longleftrightarrow>
     sw_waiting w = sw_waiting w0 \<and> se_id env \<notin> set (d_workers (sw_disp w0))
     \<and> sw_active w = sw_active w0 + int (count_if (\<lambda>d. d = ActiveDown) ds)
     \<and> d_workers (sw_disp w) = d_workers (sw_disp w0) @ replicate (count_if (\<lambda>d. d = UnregisterSlot) ds) (se_id env)
     \<and> resources_owed ds w \<and> permit_owed w0 ds w \<and> config_owed w0 ds w"

lemmas world_defs = log_event_def defer_call_def open_res_def close_res_def

lemma sel_world [simp]:
  "sw_waiting (log_event ev w) = sw_waiting w" "sw_active (log_event ev w) = sw_active w"
  "sw_disp (log_event ev w) = sw_disp w" "sw_open (log_event ev w) = sw_open w"
  "sw_inflight (log_event ev w) = sw_inflight w" "sw_permit (log_event ev w) = sw_permit w"
  "sw_released (log_event ev w) = sw_released w" "sw_log (log_event ev w) = sw_log w @ [ev]"
  "sw_op (log_event ev w) = sw_op w" "sw_coord (log_event ev w) = sw_coord w"
  "sw_channel (log_event ev w) = sw_channel w" "sw_delivered (log_event ev w) = sw_delivered w"
  "sw_cleaned (log_event ev w) = sw_cleaned w" "sw_defers (log_event ev w) = sw_defers w"
  by (simp_all add: log_event_def)

lemma fresh_release:
  "op_fresh w0 p ds w \<Longrightarrow> op_done w0 p (release_op env w)"
  by (simp add: op_fresh_def op_done_def release_op_def complete_op_def ReleaseWithCooldown_def finishOp_def Let_def)

lemma done_release: "op_done w0 p w \<Longrightarrow> release_op env w = w"
  by (simp add: op_done_def release_op_def complete_op_def ReleaseWithCooldown_def)

lemma fresh_deliver:
  "op_fresh w0 p ds w \<Longrightarrow> conf \<noteq> [] \<Longrightarrow> op_done w0 p (deliver_op env conf w)"
  by (cases "se_accepted env"; cases "se_has_channel env")
    (simp_all add: op_fresh_def op_done_def deliver_op_def deliver_begin_def deliver_select_def complete_op_def
      finishOp_def Let_def)

lemma done_deliver: "op_done w0 p w \<Longrightarrow> deliver_op env conf w = w"
  by (simp add: op_done_def deliver_op_def deliver_begin_def deliver_select_def complete_op_def)

lemma none_op: "sw_op w = None \<Longrightarrow> release_op env w = w \<and> deliver_op env conf w = w"
  by (simp add: release_op_def deliver_op_def)

lemma release_op_config:
  "config_owed w0 ds w \<Longrightarrow> config_owed w0 ds' (release_op env w)"
  unfolding config_owed_def using fresh_release done_release none_op by metis

lemma deliver_op_config:
  "config_owed w0 ds w \<Longrightarrow> conf \<noteq> [] \<Longrightarrow> config_owed w0 ds' (deliver_op env conf w)"
  unfolding config_owed_def using fresh_deliver done_deliver none_op by metis

lemma sel_complete [simp]:
  "sw_waiting (complete_op p t x w) = sw_waiting w" "sw_active (complete_op p t x w) = sw_active w"
  "sw_disp (complete_op p t x w) = sw_disp w" "sw_open (complete_op p t x w) = sw_open w"
  "sw_inflight (complete_op p t x w) = sw_inflight w" "sw_permit (complete_op p t x w) = sw_permit w"
  "sw_released (complete_op p t x w) = sw_released w" "sw_log (complete_op p t x w) = sw_log w"
  "sw_cleaned (complete_op p t x w) = sw_cleaned w" "sw_defers (complete_op p t x w) = sw_defers w"
  by (cases x; simp add: complete_op_def)+

lemma sel_release_op [simp]:
  "sw_waiting (release_op env w) = sw_waiting w" "sw_active (release_op env w) = sw_active w"
  "sw_disp (release_op env w) = sw_disp w" "sw_open (release_op env w) = sw_open w"
  "sw_inflight (release_op env w) = sw_inflight w" "sw_permit (release_op env w) = sw_permit w"
  "sw_released (release_op env w) = sw_released w" "sw_log (release_op env w) = sw_log w"
  "sw_cleaned (release_op env w) = sw_cleaned w" "sw_defers (release_op env w) = sw_defers w"
  by (simp_all add: release_op_def split: option.splits)

lemma sel_deliver_op [simp]:
  "sw_waiting (deliver_op env conf w) = sw_waiting w" "sw_active (deliver_op env conf w) = sw_active w"
  "sw_disp (deliver_op env conf w) = sw_disp w" "sw_open (deliver_op env conf w) = sw_open w"
  "sw_inflight (deliver_op env conf w) = sw_inflight w" "sw_permit (deliver_op env conf w) = sw_permit w"
  "sw_released (deliver_op env conf w) = sw_released w" "sw_log (deliver_op env conf w) = sw_log w"
  "sw_cleaned (deliver_op env conf w) = sw_cleaned w" "sw_defers (deliver_op env conf w) = sw_defers w"
  by (simp_all add: deliver_op_def split: option.splits prod.splits)

lemma sel_permit [simp]:
  "sw_waiting (releasePermit env w) = sw_waiting w" "sw_active (releasePermit env w) = sw_active w"
  "sw_disp (releasePermit env w) = sw_disp w" "sw_open (releasePermit env w) = sw_open w"
  "sw_permit (releasePermit env w) = sw_permit w" "sw_released (releasePermit env w)"
  "sw_op (releasePermit env w) = sw_op w" "sw_coord (releasePermit env w) = sw_coord w"
  "sw_channel (releasePermit env w) = sw_channel w" "sw_delivered (releasePermit env w) = sw_delivered w"
  "sw_cleaned (releasePermit env w) = sw_cleaned w" "sw_defers (releasePermit env w) = sw_defers w"
  by (simp_all add: releasePermit_def log_event_def Let_def)

lemma config_frame:
  "config_owed w0 ds w \<Longrightarrow> sw_op w' = sw_op w \<Longrightarrow> sw_coord w' = sw_coord w \<Longrightarrow> sw_channel w' = sw_channel w \<Longrightarrow>
   sw_delivered w' = sw_delivered w \<Longrightarrow> (ReleaseConfig \<in> set ds \<Longrightarrow> ReleaseConfig \<in> set ds') \<Longrightarrow> config_owed w0 ds' w'"
  by (auto simp: config_owed_def op_fresh_def op_done_def)

lemma permit_frame:
  "permit_owed w0 ds w \<Longrightarrow> sw_inflight w' = sw_inflight w \<Longrightarrow> sw_permit w' = sw_permit w \<Longrightarrow>
   sw_released w' = sw_released w \<Longrightarrow> sw_log w' = sw_log w @ evs \<Longrightarrow> (\<forall>ev \<in> set evs. \<forall>oc. ev \<noteq> PermitFinished oc) \<Longrightarrow>
   (ReleasePermit \<in> set ds \<longleftrightarrow> ReleasePermit \<in> set ds') \<Longrightarrow> permit_owed w0 ds' w'"
  by (auto simp: permit_owed_def filter_empty_conv)

lemma permit_release:
  "permit_owed w0 ds w \<Longrightarrow> sw_permit w \<noteq> None \<Longrightarrow> set ds' \<subseteq> set ds \<Longrightarrow> permit_owed w0 ds' (releasePermit env w)"
  by (auto simp: permit_owed_def releasePermit_def log_event_def Let_def)

lemma resources_frame:
  "resources_owed ds w \<Longrightarrow> sw_open w' = sw_open w \<Longrightarrow> sw_cleaned w' = sw_cleaned w \<Longrightarrow> set ds \<subseteq> set ds' \<Longrightarrow>
   resources_owed ds' w'"
  by (auto simp: resources_owed_def)

lemma defer_open:
  "sw_open (run_defer env d w)
     = filter (\<lambda>r. r \<notin> closes d \<and> \<not> (d = Cleanup \<and> \<not> sw_cleaned w \<and> r \<in> {DtlsConn, Pipes, Relay})) (sw_open w)"
  "d \<noteq> Cleanup \<Longrightarrow> sw_cleaned (run_defer env d w) = sw_cleaned w"
  by (cases d; simp add: close_res_def)+

lemma resources_defer:
  assumes "resources_owed (d # ds) w"
  shows "resources_owed ds (run_defer env d w)"
proof (cases "d = Cleanup")
  case True
  then show ?thesis
    using assms by (auto simp: resources_owed_def defer_open(1) simp del: run_defer.simps)
next
  case False
  then show ?thesis
    using assms by (auto simp: resources_owed_def defer_open simp del: run_defer.simps)
qed

lemma workers_defer:
  assumes "d_workers (sw_disp w) = ws @ replicate (count_if (\<lambda>d. d = UnregisterSlot) (d # ds)) (se_id env)"
    and "se_id env \<notin> set ws"
  shows "d_workers (sw_disp (run_defer env d w)) = ws @ replicate (count_if (\<lambda>d. d = UnregisterSlot) ds) (se_id env)"
  using assms by (cases d) (simp_all add: close_res_def worker_list.elems_del remove1_append)

lemma defer_other:
  assumes "d \<noteq> ReleasePermit"
  shows "sw_inflight (run_defer env d w) = sw_inflight w" "sw_permit (run_defer env d w) = sw_permit w"
    "sw_released (run_defer env d w) = sw_released w"
    "\<exists>evs. sw_log (run_defer env d w) = sw_log w @ evs \<and> (\<forall>ev \<in> set evs. \<forall>oc. ev \<noteq> PermitFinished oc)"
  using assms by (cases d; simp add: close_res_def)+

lemma defer_config:
  assumes "d \<noteq> ReleaseConfig"
  shows "sw_op (run_defer env d w) = sw_op w" "sw_coord (run_defer env d w) = sw_coord w"
    "sw_channel (run_defer env d w) = sw_channel w" "sw_delivered (run_defer env d w) = sw_delivered w"
  using assms by (cases d; simp add: close_res_def)+

lemma defer_counts:
  "sw_waiting (run_defer env d w) = sw_waiting w"
  "sw_active (run_defer env d w) = sw_active w - (if d = ActiveDown then 1 else 0)"
  by (cases d; simp add: close_res_def)+

lemma run_defer_owed:
  assumes "owed env w0 (d # ds) w"
  shows "owed env w0 ds (run_defer env d w)"
proof -
  have p: "permit_owed w0 (d # ds) w" and r: "resources_owed (d # ds) w" and c: "config_owed w0 (d # ds) w"
    and n: "sw_waiting w = sw_waiting w0"
      "sw_active w = sw_active w0 + int (count_if (\<lambda>d. d = ActiveDown) (d # ds))"
      "d_workers (sw_disp w) = d_workers (sw_disp w0) @ replicate (count_if (\<lambda>d. d = UnregisterSlot) (d # ds)) (se_id env)"
    using assms by (simp_all add: owed_def)
  let ?w = "run_defer env d w"
  have "permit_owed w0 ds ?w"
  proof (cases "d = ReleasePermit")
    case True
    then show ?thesis
      using p permit_release [OF p, of ds] by (auto simp: permit_owed_def)
  next
    case False
    from defer_other [OF False] obtain evs
      where "sw_log ?w = sw_log w @ evs" "\<forall>ev \<in> set evs. \<forall>oc. ev \<noteq> PermitFinished oc"
      by blast
    from permit_frame [OF p _ _ _ this] False defer_other [OF False] show ?thesis
      by auto
  qed
  moreover have "resources_owed ds ?w"
    using r by (rule resources_defer)
  moreover have "config_owed w0 ds ?w"
  proof (cases "d = ReleaseConfig")
    case True
    then show ?thesis
      using release_op_config [OF c] by simp
  next
    case False
    from config_frame [OF c] False defer_config [OF False] show ?thesis
      by auto
  qed
  moreover have "sw_waiting ?w = sw_waiting w0"
    "sw_active ?w = sw_active w0 + int (count_if (\<lambda>d. d = ActiveDown) ds)"
    using n by (simp_all add: defer_counts)
  moreover have "d_workers (sw_disp ?w) = d_workers (sw_disp w0) @ replicate (count_if (\<lambda>d. d = UnregisterSlot) ds) (se_id env)"
    by (rule workers_defer [OF n(3)]) (use assms in \<open>simp add: owed_def\<close>)
  ultimately show ?thesis
    using assms by (simp add: owed_def)
qed

section \<open>The stages owe what they defer\<close>

definition going :: "session_env \<Rightarrow> session_world \<Rightarrow> session_world \<Rightarrow> bool" where
  "going env w0 w \<longleftrightarrow> owed env w0 (sw_defers w) w \<and> sw_permit w \<noteq> None \<and> \<not> sw_cleaned w"

definition stage_ok :: "session_env \<Rightarrow> session_world \<Rightarrow> stage \<Rightarrow> bool" where
  "stage_ok env w0 f \<longleftrightarrow>
     (\<forall>w w' r. going env w0 w \<longrightarrow> f w = (w', r) \<longrightarrow>
        owed env w0 (sw_defers w') w' \<and> (r = None \<longrightarrow> going env w0 w'))"

lemma stage_okI:
  assumes "\<And>w w' r. going env w0 w \<Longrightarrow> f w = (w', r) \<Longrightarrow> going env w0 w'"
  shows "stage_ok env w0 f"
  unfolding stage_ok_def using assms by (metis going_def)

lemma goingD:
  assumes "going env w0 w"
  shows "permit_owed w0 (sw_defers w) w" "resources_owed (sw_defers w) w" "config_owed w0 (sw_defers w) w"
    "sw_permit w \<noteq> None" "\<not> sw_cleaned w"
  using assms by (simp_all add: going_def owed_def)

lemma goingI:
  assumes "going env w0 w" "permit_owed w0 (sw_defers w') w'" "resources_owed (sw_defers w') w'"
    "config_owed w0 (sw_defers w') w'"
    and "sw_waiting w' = sw_waiting w" "sw_disp w' = sw_disp w" "sw_permit w' = sw_permit w" "sw_cleaned w' = sw_cleaned w"
    and "count_if (\<lambda>d. d = UnregisterSlot) (sw_defers w') = count_if (\<lambda>d. d = UnregisterSlot) (sw_defers w)"
    and "sw_active w' - int (count_if (\<lambda>d. d = ActiveDown) (sw_defers w'))
        = sw_active w - int (count_if (\<lambda>d. d = ActiveDown) (sw_defers w))"
  shows "going env w0 w'"
  using assms(2-4) assms(1,5-) by (simp add: going_def owed_def)

lemma going_frame:
  assumes "going env w0 w" "sw_waiting w' = sw_waiting w" "sw_active w' = sw_active w" "sw_disp w' = sw_disp w"
    and "sw_open w' = sw_open w" "sw_cleaned w' = sw_cleaned w" "sw_defers w' = sw_defers w"
    and "sw_inflight w' = sw_inflight w" "sw_permit w' = sw_permit w" "sw_released w' = sw_released w"
    and "sw_log w' = sw_log w" "sw_op w' = sw_op w" "sw_coord w' = sw_coord w" "sw_channel w' = sw_channel w"
    and "sw_delivered w' = sw_delivered w"
  shows "going env w0 w'"
proof (rule goingI [OF assms(1)])
  note g = goingD [OF assms(1)]
  show "permit_owed w0 (sw_defers w') w'"
    by (rule permit_frame [OF g(1), of _ "[]"]) (simp_all add: assms)
  show "resources_owed (sw_defers w') w'"
    by (rule resources_frame [OF g(2)]) (simp_all add: assms)
  show "config_owed w0 (sw_defers w') w'"
    by (rule config_frame [OF g(3)]) (simp_all add: assms)
qed (simp_all add: assms)

lemma sel_defer [simp]:
  "sw_waiting (defer_call d w) = sw_waiting w" "sw_active (defer_call d w) = sw_active w"
  "sw_disp (defer_call d w) = sw_disp w" "sw_open (defer_call d w) = sw_open w"
  "sw_inflight (defer_call d w) = sw_inflight w" "sw_permit (defer_call d w) = sw_permit w"
  "sw_released (defer_call d w) = sw_released w" "sw_log (defer_call d w) = sw_log w"
  "sw_op (defer_call d w) = sw_op w" "sw_coord (defer_call d w) = sw_coord w"
  "sw_channel (defer_call d w) = sw_channel w" "sw_delivered (defer_call d w) = sw_delivered w"
  "sw_cleaned (defer_call d w) = sw_cleaned w" "sw_defers (defer_call d w) = d # sw_defers w"
  by (simp_all add: defer_call_def)

lemma sel_open [simp]:
  "sw_waiting (open_res r w) = sw_waiting w" "sw_active (open_res r w) = sw_active w"
  "sw_disp (open_res r w) = sw_disp w" "sw_open (open_res r w) = r # sw_open w"
  "sw_inflight (open_res r w) = sw_inflight w" "sw_permit (open_res r w) = sw_permit w"
  "sw_released (open_res r w) = sw_released w" "sw_log (open_res r w) = sw_log w"
  "sw_op (open_res r w) = sw_op w" "sw_coord (open_res r w) = sw_coord w"
  "sw_channel (open_res r w) = sw_channel w" "sw_delivered (open_res r w) = sw_delivered w"
  "sw_cleaned (open_res r w) = sw_cleaned w" "sw_defers (open_res r w) = sw_defers w"
  by (simp_all add: open_res_def)

lemma going_defer:
  assumes "going env w0 w" "d \<notin> {ActiveDown, UnregisterSlot, ReleasePermit}"
  shows "going env w0 (defer_call d w)"
proof (rule goingI [OF assms(1)])
  note g = goingD [OF assms(1)]
  show "permit_owed w0 (sw_defers (defer_call d w)) (defer_call d w)"
    by (rule permit_frame [OF g(1), of _ "[]"]) (use assms(2) in auto)
  show "resources_owed (sw_defers (defer_call d w)) (defer_call d w)"
    by (rule resources_frame [OF g(2)]) auto
  show "config_owed w0 (sw_defers (defer_call d w)) (defer_call d w)"
    by (rule config_frame [OF g(3)]) auto
qed (use assms(2) in auto)

lemma going_open:
  assumes "going env w0 w" "d \<notin> {ActiveDown, UnregisterSlot, ReleasePermit}" "r \<in> closes d \<or> d = Cleanup \<and> r = Pipes"
  shows "going env w0 (defer_call d (open_res r w))"
proof (rule goingI [OF assms(1)])
  let ?w = "defer_call d (open_res r w)"
  note g = goingD [OF assms(1)]
  show "permit_owed w0 (sw_defers ?w) ?w"
    by (rule permit_frame [OF g(1), of _ "[]"]) (use assms(2) in auto)
  show "resources_owed (sw_defers ?w) ?w"
    using g(2,5) assms(3) by (auto simp: resources_owed_def)
  show "config_owed w0 (sw_defers ?w) ?w"
    by (rule config_frame [OF g(3)]) auto
qed (use assms(2) in auto)

lemma going_release:
  assumes "going env w0 w"
  shows "going env w0 (releasePermit env w)"
proof -
  have p: "permit_owed w0 (sw_defers w) w" and r: "resources_owed (sw_defers w) w" and c: "config_owed w0 (sw_defers w) w"
    using assms by (simp_all add: going_def owed_def)
  have "permit_owed w0 (sw_defers w) (releasePermit env w)"
    using assms permit_release [OF p] by (simp add: going_def)
  moreover have "resources_owed (sw_defers w) (releasePermit env w)"
    using resources_frame [OF r] by simp
  moreover have "config_owed w0 (sw_defers w) (releasePermit env w)"
    using config_frame [OF c] by simp
  ultimately show ?thesis
    using assms by (simp add: going_def owed_def)
qed

lemma going_log:
  assumes "going env w0 w" "\<forall>oc. ev \<noteq> PermitFinished oc"
  shows "going env w0 (log_event ev w)"
proof -
  have p: "permit_owed w0 (sw_defers w) w" and r: "resources_owed (sw_defers w) w" and c: "config_owed w0 (sw_defers w) w"
    using assms by (simp_all add: going_def owed_def)
  have "permit_owed w0 (sw_defers w) (log_event ev w)"
    using permit_frame [OF p, of "log_event ev w" "[ev]"] assms(2) by simp
  then show ?thesis
    using assms resources_frame [OF r, of "log_event ev w"] config_frame [OF c, of "log_event ev w"]
    by (simp add: going_def owed_def)
qed

lemma going_config:
  assumes "going env w0 w"
  shows "going env w0 (release_op env w)" "conf \<noteq> [] \<Longrightarrow> going env w0 (deliver_op env conf w)"
proof -
  have p: "permit_owed w0 (sw_defers w) w" and r: "resources_owed (sw_defers w) w" and c: "config_owed w0 (sw_defers w) w"
    using assms by (simp_all add: going_def owed_def)
  show "going env w0 (release_op env w)"
    using assms release_op_config [OF c] resources_frame [OF r, of "release_op env w"]
      permit_frame [OF p, of "release_op env w" "[]"]
    by (simp add: going_def owed_def)
  show "going env w0 (deliver_op env conf w)" if "conf \<noteq> []"
    using assms deliver_op_config [OF c that] resources_frame [OF r, of "deliver_op env conf w"]
      permit_frame [OF p, of "deliver_op env conf w" "[]"]
    by (simp add: going_def owed_def)
qed

text \<open>A resource that is opened and closed at once is owed to nobody.\<close>

lemma going_open_close:
  assumes "going env w0 w"
  shows "going env w0 (close_res [r] (open_res r w))"
proof (rule goingI [OF assms])
  let ?w = "close_res [r] (open_res r w)"
  note g = goingD [OF assms]
  show "permit_owed w0 (sw_defers ?w) ?w"
    by (rule permit_frame [OF g(1), of _ "[]"]) (simp_all add: close_res_def)
  show "resources_owed (sw_defers ?w) ?w"
    using g(2) by (auto simp: resources_owed_def close_res_def)
  show "config_owed w0 (sw_defers ?w) ?w"
    by (rule config_frame [OF g(3)]) (simp_all add: close_res_def)
qed (simp_all add: close_res_def)

lemma stage_dial: "stage_ok env w0 (st_dial env)"
  by (rule stage_okI)
    (auto simp: st_dial_def Let_def intro: going_open going_open_close going_defer split: sum.splits bool.splits)

lemma stage_client: "stage_ok env w0 (st_client env)"
  by (rule stage_okI) (auto simp: st_client_def Let_def intro: going_open going_defer split: option.splits)

lemma stage_allocate: "stage_ok env w0 (st_allocate env)"
proof (rule stage_okI)
  fix w w' r
  assume g: "going env w0 w" and f: "st_allocate env w = (w', r)"
  have "going env w0 (defer_call CloseRelay (open_res Relay w))"
    using g by (rule going_open) simp_all
  then have "going env w0 ((defer_call CloseRelay (open_res Relay w))\<lparr>sw_errorCount := 0\<rparr>)"
    by (rule going_frame) simp_all
  then have "going env w0 (defer_call StopRelay (defer_call Cleanup (open_res Pipes
      ((defer_call CloseRelay (open_res Relay w))\<lparr>sw_errorCount := 0\<rparr>))))"
    by (intro going_defer going_open) simp_all
  then show "going env w0 w'"
    using g f going_open_close [OF g, of Relay] by (auto simp: st_allocate_def Let_def split: option.splits if_splits)
qed

lemma stage_dtls: "stage_ok env w0 (st_dtls env)"
proof (rule stage_okI)
  fix w w' r
  assume g: "going env w0 w" and f: "st_dtls env w = (w', r)"
  have "going env w0 (releasePermit env (w\<lparr>sw_outcome := turnOutcomeOther\<rparr>))"
    by (rule going_release, rule going_frame [OF g]) simp_all
  then have "going env w0 ((releasePermit env (w\<lparr>sw_outcome := turnOutcomeOther\<rparr>))\<lparr>sw_errors := k\<rparr>)" for k
    by (rule going_frame) simp_all
  then show "going env w0 w'"
    using g f by (auto simp: st_dtls_def Let_def intro!: going_open split: option.splits)
qed

lemma stage_handshake: "stage_ok env w0 (st_handshake env)"
proof (unfold stage_ok_def, intro allI impI)
  fix w w' r
  assume g: "going env w0 w" and f: "st_handshake env w = (w', r)"
  have fail: "going env w0 (releasePermit env (count_failure oc (w\<lparr>sw_outcome := oc\<rparr>)))" for oc
    by (rule going_release, rule going_frame [OF g]) (simp_all add: count_failure_def split: turnHandshakeOutcome.splits)
  let ?s = "releasePermit env (w\<lparr>sw_outcome := turnOutcomeSuccess\<rparr>)"
  have "going env w0 ?s"
    by (rule going_release, rule going_frame [OF g]) simp_all
  note g' = this
  have "going env w0 (defer_call ActiveDown (?s\<lparr>sw_success := sw_success ?s + 1, sw_active := sw_active ?s + 1\<rparr>))"
    (is "going env w0 ?w")
  proof (rule goingI [OF g'])
    show "permit_owed w0 (sw_defers ?w) ?w"
      by (rule permit_frame [OF goingD(1) [OF g'], of _ "[]"]) auto
    show "resources_owed (sw_defers ?w) ?w"
      by (rule resources_frame [OF goingD(2) [OF g']]) auto
    show "config_owed w0 (sw_defers ?w) ?w"
      by (rule config_frame [OF goingD(3) [OF g']]) auto
  qed auto
  then have "going env w0 w'"
    using f fail by (auto simp: st_handshake_def Let_def split: option.splits prod.splits)
  then show "owed env w0 (sw_defers w') w' \<and> (r = None \<longrightarrow> going env w0 w')"
    by (simp add: going_def)
qed

lemma stage_config: "stage_ok env w0 (st_config env)"
  by (rule stage_okI)
    (auto simp: st_config_def Let_def intro!: going_config going_log split: if_splits prod.splits sum.splits option.splits)

lemma stage_serve: "stage_ok env w0 (st_serve env)"
proof (unfold stage_ok_def, intro allI impI)
  fix w w' r
  assume g: "going env w0 w" and f: "st_serve env w = (w', r)"
  define w1 where "w1 = defer_call StopDtls (defer_call UnregisterSlot
      (w\<lparr>sw_disp := Register (se_id env) (sw_disp w)\<rparr>))"
  note d = goingD [OF g]
  have "permit_owed w0 (Cleanup # sw_defers w1) w1"
    by (rule permit_frame [OF d(1), of _ "[]"]) (auto simp: w1_def)
  moreover have "resources_owed (Cleanup # sw_defers w1) w1"
    by (rule resources_frame [OF d(2)]) (auto simp: w1_def)
  moreover have "config_owed w0 (Cleanup # sw_defers w1) w1"
    by (rule config_frame [OF d(3)]) (auto simp: w1_def)
  moreover have "sw_disp w1 = Register (se_id env) (sw_disp w)"
    by (simp add: w1_def)
  ultimately have "owed env w0 (Cleanup # sw_defers w1) w1"
    using g by (simp add: going_def owed_def w1_def worker_list.elems_add replicate_append_same)
  then have "owed env w0 (sw_defers w1) (run_defer env Cleanup w1)"
    by (rule run_defer_owed)
  moreover have "w' = run_defer env Cleanup w1" "r \<noteq> None"
    using f by (auto simp: st_serve_def Let_def w1_def)
  moreover have "sw_defers (run_defer env Cleanup w1) = sw_defers w1"
    by (simp add: close_res_def)
  ultimately show "owed env w0 (sw_defers w') w' \<and> (r = None \<longrightarrow> going env w0 w')"
    by metis
qed

lemma run_stages_owed:
  assumes "\<forall>f \<in> set fs. stage_ok env w0 f" "going env w0 w" "run_stages fs w = (w', r)"
  shows "owed env w0 (sw_defers w') w'"
  using assms
proof (induction fs arbitrary: w)
  case Nil
  then show ?case
    by (simp add: going_def)
next
  case (Cons f fs)
  obtain v x where f: "f w = (v, x)"
    by (cases "f w")
  have "stage_ok env w0 f"
    using Cons.prems(1) by simp
  then have ok: "owed env w0 (sw_defers v) v" "x = None \<Longrightarrow> going env w0 v"
    using Cons.prems(2) f unfolding stage_ok_def by blast+
  then show ?case
    using Cons.IH [of v] Cons.prems(1,3) f by (cases x) auto
qed

lemma entry_owed:
  assumes "se_id env \<notin> set (d_workers (sw_disp w))"
  shows "owed env w (sw_defers (session_entry w)) (session_entry w)"
    "sw_permit (session_entry w) = None" "\<not> sw_cleaned (session_entry w)"
    "sw_waiting (session_entry w) = sw_waiting w"
  using assms
  by (auto simp: owed_def session_entry_def permit_owed_def resources_owed_def config_owed_def op_fresh_def)

lemma acquire_owed:
  assumes "owed env w0 (sw_defers w) w" "sw_permit w = None" "\<not> sw_cleaned w" "st_acquire env w = (w', r)"
  shows "owed env w0 (sw_defers w') w' \<and> (r = None \<longrightarrow> going env w0 w')"
  using assms
proof (cases "buildTurnEndpointCandidates (se_urls env) (se_tp env)")
  case (Inl e)
  then show ?thesis
    using assms by (auto simp: st_acquire_def)
next
  case (Inr cands)
  have p: "permit_owed w0 (sw_defers w) w" and r: "resources_owed (sw_defers w) w" and c: "config_owed w0 (sw_defers w) w"
    using assms(1) by (simp_all add: owed_def)
  show ?thesis
  proof (cases "se_acquire env (preferred_url env) cands")
    case (Inl e)
    then show ?thesis
      using assms Inr by (auto simp: st_acquire_def Let_def)
  next
    case a: (Inr cand)
    let ?v = "defer_call ReleasePermit (w\<lparr>sw_inflight := sw_inflight w + 1, sw_permit := Some cand, sw_outcome := turnOutcomeOther\<rparr>)"
    have w': "w' = ?v"
      using assms(4) Inr a by (simp add: st_acquire_def Let_def)
    have "permit_owed w0 (sw_defers ?v) ?v"
      using p assms(2) by (auto simp: permit_owed_def)
    moreover have "resources_owed (sw_defers ?v) ?v"
      by (rule resources_frame [OF r]) auto
    moreover have "config_owed w0 (sw_defers ?v) ?v"
      by (rule config_frame [OF c]) auto
    ultimately show ?thesis
      unfolding w' using assms(1,3) by (simp add: going_def owed_def)
  qed
qed

lemma session_owed:
  assumes "se_id env \<notin> set (d_workers (sw_disp w))" "run_stages (session_stages env) (session_entry w) = (w', r)"
  shows "owed env w (sw_defers w') w'"
proof -
  obtain v x where f: "st_acquire env (session_entry w) = (v, x)"
    by (cases "st_acquire env (session_entry w)")
  have ok: "owed env w (sw_defers v) v \<and> (x = None \<longrightarrow> going env w v)"
    using acquire_owed [OF entry_owed(1-3) [OF assms(1)] f] assms(1) by blast
  show ?thesis
  proof (cases x)
    case None
    have "run_stages (tl (session_stages env)) v = (w', r)"
      using assms(2) f None by (simp add: session_stages_def)
    moreover have "\<forall>f \<in> set (tl (session_stages env)). stage_ok env w f"
      by (simp add: session_stages_def stage_dial stage_client stage_allocate stage_dtls stage_handshake
          stage_config stage_serve)
    ultimately show ?thesis
      using run_stages_owed ok None by blast
  next
    case (Some y)
    then show ?thesis
      using assms(2) f ok by (simp add: session_stages_def)
  qed
qed

lemma run_defers_owed: "owed env w0 ds w \<Longrightarrow> owed env w0 [] (run_defers env ds w)"
  by (induction ds arbitrary: w) (auto intro: run_defer_owed simp del: run_defer.simps)

lemma session_owes_nothing:
  assumes "se_id env \<notin> set (d_workers (sw_disp w))" "RunSession env w = (w', r)"
  shows "owed env w [] w'"
proof -
  obtain v where v: "run_stages (session_stages env) (session_entry w) = (v, r)" "w' = run_defers env (sw_defers v) v"
    using assms(2) by (auto simp: RunSession_def split: prod.splits)
  show ?thesis
    using run_defers_owed [OF session_owed [OF assms(1) v(1)]] v(2) by simp
qed

text \<open>
  C6. A session leaves nothing behind, wherever it ends: after \<^verbatim>\<open>RunSession\<close> the counters of waiting and
  running handshakes and of active connections are what they were, every socket, client, relay and connection is
  closed, the worker is no longer registered with the dispatcher; a permit that was obtained has been finished exactly
  once; and an operation for the configuration has been completed, the coordinator is free again, and it counts
  the configuration as sent exactly when this session has put it into the channel.
\<close>

theorem session_balanced:
  assumes "se_id env \<notin> set (d_workers (sw_disp w))" "RunSession env w = (w', r)"
  shows "sw_waiting w' = sw_waiting w \<and> sw_inflight w' = sw_inflight w \<and> sw_active w' = sw_active w
    \<and> d_workers (sw_disp w') = d_workers (sw_disp w) \<and> sw_open w' = []
    \<and> length [ev \<leftarrow> sw_log w'. \<exists>oc. ev = PermitFinished oc] = (if sw_permit w' \<noteq> None then 1 else 0)
    \<and> (\<forall>p. sw_op w = Some (p, OnceFresh) \<and> cc_activeOp (sw_coord w) = Some p \<longrightarrow>
         sw_op w' = Some (p, OnceDone) \<and> cc_activeOp (sw_coord w') = None
         \<and> (cc_sent (sw_coord w') \<longleftrightarrow> cc_sent (sw_coord w) \<or> sw_delivered w')
         \<and> (sw_delivered w' \<longleftrightarrow> sw_channel w' \<noteq> sw_channel w))"
proof -
  have o: "owed env w [] w'"
    by (rule session_owes_nothing [OF assms])
  then have "permit_owed w [] w'" "resources_owed [] w'" "config_owed w [] w'"
    by (simp_all add: owed_def)
  moreover have "op_done w p w'" if "sw_op w = Some (p, OnceFresh)" for p
    using \<open>config_owed w [] w'\<close> that by (auto simp: config_owed_def op_fresh_def)
  ultimately show ?thesis
    using o by (auto simp: owed_def permit_owed_def resources_owed_def op_done_def)
qed

section \<open>What is counted and what the scheduler learns\<close>

definition tally :: "session_world \<Rightarrow> session_world \<Rightarrow> int \<times> int \<times> int \<times> int" where
  "tally w0 w =
     (sw_success w - sw_success w0, sw_timeout w - sw_timeout w0, sw_canceled w - sw_canceled w0,
      sw_errors w - sw_errors w0)"

fun finished_outcome :: "session_event \<Rightarrow> turnHandshakeOutcome list" where
  "finished_outcome (PermitFinished oc) = [oc]"
| "finished_outcome _ = []"

definition finished :: "session_world \<Rightarrow> turnHandshakeOutcome list" where
  "finished w = concat (map finished_outcome (sw_log w))"

definition quiet :: "session_world \<Rightarrow> session_world \<Rightarrow> bool" where
  "quiet w0 w \<longleftrightarrow>
     tally w0 w = (0, 0, 0, 0) \<and> finished w = [] \<and> \<not> sw_released w \<and> sw_outcome w = turnOutcomeOther"

definition settled :: "session_world \<Rightarrow> (int \<times> int \<times> int \<times> int) \<Rightarrow> turnHandshakeOutcome \<Rightarrow> session_world \<Rightarrow> bool" where
  "settled w0 t oc w \<longleftrightarrow> tally w0 w = t \<and> finished w = [oc] \<and> sw_released w"

lemma quiet_defer [simp]: "quiet w0 (defer_call d w) = quiet w0 w" "quiet w0 (open_res r w) = quiet w0 w"
  "quiet w0 (close_res rs w) = quiet w0 w"
  by (simp_all add: quiet_def tally_def finished_def defer_call_def open_res_def close_res_def)

lemma quiet_stages:
  assumes "quiet w0 w"
  shows "st_acquire env w = (w', r) \<Longrightarrow> quiet w0 w'" "st_dial env w = (w', r) \<Longrightarrow> quiet w0 w'"
    "st_client env w = (w', r) \<Longrightarrow> quiet w0 w'" "st_allocate env w = (w', r) \<Longrightarrow> quiet w0 w'"
proof -
  have e: "quiet w0 (w\<lparr>sw_errorCount := k\<rparr>) = quiet w0 w" for k w
    by (simp add: quiet_def tally_def finished_def)
  have a: "quiet w0 (w\<lparr>sw_waiting := sw_waiting w, sw_inflight := i, sw_permit := c, sw_outcome := turnOutcomeOther\<rparr>)" for i c
    using assms by (simp add: quiet_def tally_def finished_def)
  show "st_acquire env w = (w', r) \<Longrightarrow> quiet w0 w'"
    using assms a by (auto simp: st_acquire_def Let_def split: sum.splits)
  show "st_dial env w = (w', r) \<Longrightarrow> quiet w0 w'"
    using assms by (auto simp: st_dial_def Let_def split: sum.splits bool.splits if_splits)
  show "st_client env w = (w', r) \<Longrightarrow> quiet w0 w'"
    using assms by (auto simp: st_client_def Let_def split: option.splits)
  show "st_allocate env w = (w', r) \<Longrightarrow> quiet w0 w'"
    using assms by (auto simp: st_allocate_def Let_def e split: option.splits if_splits)
qed

lemma quiet_release:
  assumes "quiet w0 (w\<lparr>sw_outcome := turnOutcomeOther\<rparr>)"
  shows "settled w0 (0, 0, 0, 0) (permitOutcome (se_parent_release env) oc) (releasePermit env (w\<lparr>sw_outcome := oc\<rparr>))"
  using assms by (simp add: quiet_def settled_def releasePermit_def tally_def finished_def log_event_def Let_def)

lemma quiet_outcome: "quiet w0 w \<Longrightarrow> quiet w0 (w\<lparr>sw_outcome := turnOutcomeOther\<rparr>)"
  by (simp add: quiet_def tally_def finished_def)

lemma stage_dtls_outcome:
  assumes "quiet w0 w" "st_dtls env w = (w', r)"
  shows "quiet w0 w' \<or> r \<noteq> None \<and> settled w0 (0, 0, 0, 1) (permitOutcome (se_parent_release env) turnOutcomeOther) w'"
proof -
  have "settled w0 (0, 0, 0, 0) (permitOutcome (se_parent_release env) turnOutcomeOther)
      (releasePermit env (w\<lparr>sw_outcome := turnOutcomeOther\<rparr>))"
    by (rule quiet_release) (use quiet_outcome [OF assms(1)] in simp)
  then have "settled w0 (0, 0, 0, 1) (permitOutcome (se_parent_release env) turnOutcomeOther)
      ((releasePermit env (w\<lparr>sw_outcome := turnOutcomeOther\<rparr>))
        \<lparr>sw_errors := sw_errors (releasePermit env (w\<lparr>sw_outcome := turnOutcomeOther\<rparr>)) + 1\<rparr>)"
    by (simp add: settled_def tally_def finished_def)
  then show ?thesis
    using assms by (auto simp: st_dtls_def Let_def simp del: not_None_eq split: option.splits)
qed

definition failure_tally :: "turnHandshakeOutcome \<Rightarrow> int \<times> int \<times> int \<times> int" where
  "failure_tally oc =
     (case oc of turnOutcomeTimeout \<Rightarrow> (0, 1, 0, 0) | turnOutcomeCanceled \<Rightarrow> (0, 0, 1, 0) | _ \<Rightarrow> (0, 0, 0, 1))"

lemma stage_handshake_outcome:
  assumes "quiet w0 w" "st_handshake env w = (w', r)"
  shows "r = None \<Longrightarrow> settled w0 (1, 0, 0, 0) turnOutcomeSuccess w'"
    and "r \<noteq> None \<Longrightarrow> \<exists>e oc out.
      classifyHandshakeFailure (se_parent env) (se_sess env) (se_hs_ctx env) e (se_cause env)
        (permit_endpoint w) (permit_url w) = (oc, out)
      \<and> r = Some (False, 0, out) \<and> settled w0 (failure_tally oc) (permitOutcome (se_parent_release env) oc) w'"
proof -
  have s: "settled w0 (0, 0, 0, 0) (permitOutcome (se_parent_release env) oc) (releasePermit env (w\<lparr>sw_outcome := oc\<rparr>))" for oc
    by (rule quiet_release) (use quiet_outcome [OF assms(1)] in simp)
  have f: "settled w0 (failure_tally oc) (permitOutcome (se_parent_release env) oc)
      (releasePermit env (count_failure oc (w\<lparr>sw_outcome := oc\<rparr>)))" for oc
    using assms(1)
    by (cases oc) (simp_all add: quiet_def settled_def releasePermit_def tally_def finished_def log_event_def Let_def
        count_failure_def failure_tally_def)
  show "settled w0 (1, 0, 0, 0) turnOutcomeSuccess w'" if "r = None"
    using assms(2) s [of turnOutcomeSuccess] that
    by (auto simp: st_handshake_def Let_def settled_def tally_def finished_def defer_call_def permitOutcome_def
        split: option.splits prod.splits)
  show "\<exists>e oc out. classifyHandshakeFailure (se_parent env) (se_sess env) (se_hs_ctx env) e (se_cause env)
        (permit_endpoint w) (permit_url w) = (oc, out)
      \<and> r = Some (False, 0, out) \<and> settled w0 (failure_tally oc) (permitOutcome (se_parent_release env) oc) w'"
    if "r \<noteq> None"
    using assms(2) f that by (fastforce simp: st_handshake_def Let_def split: option.splits prod.splits)
qed

lemma settled_frame:
  assumes "settled w0 t oc w" "sw_success w' = sw_success w" "sw_timeout w' = sw_timeout w"
    and "sw_canceled w' = sw_canceled w" "sw_errors w' = sw_errors w" "sw_released w' = sw_released w"
    and "sw_log w' = sw_log w @ evs" "\<forall>ev \<in> set evs. \<forall>oc. ev \<noteq> PermitFinished oc"
  shows "settled w0 t oc w'"
proof -
  have "finished_outcome ev = []" if "\<forall>oc. ev \<noteq> PermitFinished oc" for ev
    using that by (cases ev) simp_all
  then have "concat (map finished_outcome evs) = []"
    using assms(8) by simp
  then show ?thesis
    using assms by (simp add: settled_def tally_def finished_def)
qed

lemma sel_counts [simp]:
  "sw_success (complete_op p t x w) = sw_success w" "sw_timeout (complete_op p t x w) = sw_timeout w"
  "sw_canceled (complete_op p t x w) = sw_canceled w" "sw_errors (complete_op p t x w) = sw_errors w"
  by (cases x; simp add: complete_op_def)+

lemma sel_counts_op [simp]:
  "sw_success (release_op env w) = sw_success w" "sw_timeout (release_op env w) = sw_timeout w"
  "sw_canceled (release_op env w) = sw_canceled w" "sw_errors (release_op env w) = sw_errors w"
  "sw_success (deliver_op env conf w) = sw_success w" "sw_timeout (deliver_op env conf w) = sw_timeout w"
  "sw_canceled (deliver_op env conf w) = sw_canceled w" "sw_errors (deliver_op env conf w) = sw_errors w"
  by (simp_all add: release_op_def deliver_op_def split: option.splits prod.splits)

lemma settled_log:
  "settled w0 t oc w \<Longrightarrow> \<forall>oc. ev \<noteq> PermitFinished oc \<Longrightarrow> settled w0 t oc (log_event ev w)"
  by (rule settled_frame [of _ _ _ _ _ "[ev]"]) (simp_all add: log_event_def)

lemma settled_config:
  assumes "settled w0 t oc w"
  shows "settled w0 t oc (release_op env w)" "settled w0 t oc (deliver_op env conf w)"
  by (rule settled_frame [OF assms, of _ "[]"]; simp)+

lemma settled_stage_config:
  assumes "settled w0 t oc w" "st_config env w = (w', r)"
  shows "settled w0 t oc w'"
  using assms by (auto simp: st_config_def Let_def intro!: settled_config settled_log
      split: if_splits prod.splits sum.splits option.splits)

lemma settled_defer:
  assumes "settled w0 t oc w"
  shows "settled w0 t oc (run_defer env d w)"
proof (cases "d = ReleasePermit")
  case True
  then show ?thesis
    using assms by (simp add: releasePermit_def settled_def)
next
  case False
  from defer_other(4) [OF False] obtain evs
    where evs: "sw_log (run_defer env d w) = sw_log w @ evs" "\<forall>ev \<in> set evs. \<forall>oc. ev \<noteq> PermitFinished oc"
    by blast
  show ?thesis
    by (rule settled_frame [OF assms _ _ _ _ defer_other(3) [OF False] evs])
      (cases d; simp add: close_res_def log_event_def releasePermit_def)+
qed

lemma settled_defers: "settled w0 t oc w \<Longrightarrow> settled w0 t oc (run_defers env ds w)"
  by (induction ds arbitrary: w) (auto intro: settled_defer simp del: run_defer.simps)

lemma settled_stage_serve:
  assumes "settled w0 t oc w" "st_serve env w = (w', r)"
  shows "settled w0 t oc w'"
proof -
  have "settled w0 t oc (defer_call StopDtls (defer_call UnregisterSlot (w\<lparr>sw_disp := Register (se_id env) (sw_disp w)\<rparr>)))"
    by (rule settled_frame [OF assms(1), of _ "[]"]) (simp_all add: defer_call_def)
  from settled_defer [OF this, of env Cleanup] show ?thesis
    using assms(2) by (simp add: st_serve_def Let_def del: run_defer.simps)
qed

lemma quiet_defers:
  assumes "quiet w0 w"
  shows "quiet w0 (run_defers env ds w)
    \<or> settled w0 (0, 0, 0, 0) (permitOutcome (se_parent_release env) turnOutcomeOther) (run_defers env ds w)"
  using assms
proof (induction ds arbitrary: w)
  case Nil
  then show ?case
    by simp
next
  case (Cons d ds)
  show ?case
  proof (cases "d = ReleasePermit")
    case True
    have "settled w0 (0, 0, 0, 0) (permitOutcome (se_parent_release env) turnOutcomeOther) (releasePermit env w)"
      using Cons.prems
      by (simp add: quiet_def settled_def releasePermit_def tally_def finished_def log_event_def Let_def)
    then show ?thesis
      using True settled_defers by simp
  next
    case False
    from defer_other(4) [OF False] obtain evs
      where evs: "sw_log (run_defer env d w) = sw_log w @ evs" "\<forall>ev \<in> set evs. \<forall>oc. ev \<noteq> PermitFinished oc"
      by blast
    have none: "finished_outcome ev = []" if "\<forall>oc. ev \<noteq> PermitFinished oc" for ev
      using that by (cases ev) simp_all
    then have "concat (map finished_outcome evs) = []"
      using evs(2) by simp
    then have "finished (run_defer env d w) = finished w"
      using evs(1) by (simp add: finished_def)
    moreover have "tally w0 (run_defer env d w) = tally w0 w" "sw_outcome (run_defer env d w) = sw_outcome w"
      using False by (cases d; simp add: tally_def close_res_def log_event_def release_op_def complete_op_def
          split: option.splits once.splits)+
    ultimately have "quiet w0 (run_defer env d w)"
      using Cons.prems defer_other(3) [OF False] by (simp add: quiet_def)
    then show ?thesis
      using Cons.IH by simp
  qed
qed

text \<open>The five ways a session settles its permit and the counters\<close>

definition settles :: "session_env \<Rightarrow> session_world \<Rightarrow> session_world \<Rightarrow> session_result \<Rightarrow> bool" where
  "settles env w0 w r \<longleftrightarrow>
     quiet w0 w
     \<or> settled w0 (0, 0, 0, 0) (permitOutcome (se_parent_release env) turnOutcomeOther) w
     \<or> settled w0 (0, 0, 0, 1) (permitOutcome (se_parent_release env) turnOutcomeOther) w
     \<or> settled w0 (1, 0, 0, 0) turnOutcomeSuccess w
     \<or> (\<exists>e oc out. classifyHandshakeFailure (se_parent env) (se_sess env) (se_hs_ctx env) e (se_cause env)
           (permit_endpoint w) (permit_url w) = (oc, out)
         \<and> r = (False, 0, out) \<and> settled w0 (failure_tally oc) (permitOutcome (se_parent_release env) oc) w)"

lemma run_defers_permit: "sw_permit (run_defers env ds w) = sw_permit w"
proof (induction ds arbitrary: w)
  case (Cons d ds)
  have "sw_permit (run_defer env d w) = sw_permit w"
    by (cases d; simp add: close_res_def)
  then show ?case
    using Cons.IH by simp
qed simp

lemma run_settled: "settled w0 t oc w \<Longrightarrow> run_stages [st_config env, st_serve env] w = (w', r) \<Longrightarrow> settled w0 t oc w'"
  by (auto dest: settled_stage_config settled_stage_serve split: prod.splits option.splits)

lemma handshake_permit:
  "st_handshake env w = (w', r) \<Longrightarrow> sw_permit w' = sw_permit w"
  by (auto simp: st_handshake_def Let_def count_failure_def split: option.splits prod.splits turnHandshakeOutcome.splits)

lemma run_handshake:
  assumes "quiet w0 w" "run_stages [st_handshake env, st_config env, st_serve env] w = (w', r)"
  shows "settles env w0 w' r"
proof -
  obtain v x where h: "st_handshake env w = (v, x)"
    by (cases "st_handshake env w")
  show ?thesis
  proof (cases x)
    case None
    then have "run_stages [st_config env, st_serve env] v = (w', r)"
      using assms(2) h by simp
    then show ?thesis
      using run_settled stage_handshake_outcome(1) [OF assms(1) h None] unfolding settles_def by blast
  next
    case (Some y)
    then have "w' = v" "r = y"
      using assms(2) h by simp_all
    moreover have "permit_endpoint v = permit_endpoint w" "permit_url v = permit_url w"
      using handshake_permit [OF h] by (simp_all add: permit_endpoint_def permit_url_def)
    ultimately show ?thesis
      using stage_handshake_outcome(2) [OF assms(1) h] Some unfolding settles_def by auto
  qed
qed

lemma run_quiet:
  assumes "\<And>w' r. f w = (w', r) \<Longrightarrow> quiet w0 w'"
    and "\<And>v. quiet w0 v \<Longrightarrow> f w = (v, None) \<Longrightarrow> run_stages fs v = (w', r) \<Longrightarrow> settles env w0 w' r"
    and "run_stages (f # fs) w = (w', r)"
  shows "settles env w0 w' r"
  using assms by (cases "f w") (auto simp: settles_def split: option.splits)

lemma run_settles:
  assumes "quiet w0 w" "run_stages (session_stages env) w = (w', r)"
  shows "settles env w0 w' r"
proof -
  note run = assms(2) [unfolded session_stages_def]
  have dtls: "settles env w0 w' r"
    if "quiet w0 v" "run_stages [st_dtls env, st_handshake env, st_config env, st_serve env] v = (w', r)" for v
  proof -
    obtain u x where u: "st_dtls env v = (u, x)"
      by (cases "st_dtls env v")
    show ?thesis
    proof (cases x)
      case None
      then have "run_stages [st_handshake env, st_config env, st_serve env] u = (w', r)"
        using that(2) u by simp
      moreover have "quiet w0 u"
        using stage_dtls_outcome [OF that(1) u] None by blast
      ultimately show ?thesis
        using run_handshake by blast
    next
      case (Some y)
      then have "w' = u"
        using that(2) u by simp
      then show ?thesis
        using stage_dtls_outcome [OF that(1) u] unfolding settles_def by blast
    qed
  qed
  have allocate: "settles env w0 w' r"
    if "quiet w0 v" "run_stages [st_allocate env, st_dtls env, st_handshake env, st_config env, st_serve env] v = (w', r)" for v
    using quiet_stages(4) [OF that(1)] dtls that(2) by (rule run_quiet)
  have client: "settles env w0 w' r"
    if "quiet w0 v" "run_stages [st_client env, st_allocate env, st_dtls env, st_handshake env, st_config env, st_serve env] v = (w', r)" for v
    using quiet_stages(3) [OF that(1)] allocate that(2) by (rule run_quiet)
  have dial: "settles env w0 w' r"
    if "quiet w0 v" "run_stages [st_dial env, st_client env, st_allocate env, st_dtls env, st_handshake env, st_config env, st_serve env] v = (w', r)" for v
    using quiet_stages(2) [OF that(1)] client that(2) by (rule run_quiet)
  show ?thesis
    using quiet_stages(1) [OF assms(1)] dial run by (rule run_quiet)
qed

lemma settles_defers:
  assumes "settles env w0 w r"
  shows "settles env w0 (run_defers env ds w) r"
proof -
  have "permit_endpoint (run_defers env ds w) = permit_endpoint w" "permit_url (run_defers env ds w) = permit_url w"
    by (simp_all add: permit_endpoint_def permit_url_def run_defers_permit)
  then show ?thesis
    using assms quiet_defers settled_defers unfolding settles_def by metis
qed

lemma session_settles:
  assumes "RunSession env w = (w', r)"
  shows "settles env w w' r"
proof -
  obtain v where v: "run_stages (session_stages env) (session_entry w) = (v, r)" "w' = run_defers env (sw_defers v) v"
    using assms by (auto simp: RunSession_def split: prod.splits)
  have "quiet w (session_entry w)"
    by (simp add: quiet_def tally_def finished_def session_entry_def defer_call_def)
  then show ?thesis
    using run_settles [OF _ v(1)] settles_defers v(2) by blast
qed

lemma permitOutcome_other:
  "permitOutcome c turnOutcomeOther = turnOutcomeOther \<or> permitOutcome c turnOutcomeOther = turnOutcomeCanceled"
  "oc \<noteq> turnOutcomeOther \<Longrightarrow> permitOutcome c oc = oc"
  by (auto simp: permitOutcome_def)

text \<open>
  C8. What a session counts and what it tells the scheduler agree. The scheduler gets at most one outcome. It is
  a success exactly when one more successful handshake was counted, and a timeout exactly when one more timeout was
  counted; then the session ends with the error that names the endpoint and the URL that timed out. A session that counts
  neither, as one that fails before its handshake, tells the scheduler nothing, or that it was cancelled, or that it ended
  otherwise; and where a cancelled handshake was counted it tells that. At most one counter grows, by one.
\<close>

theorem session_outcome:
  assumes "RunSession env w = (w', r)"
  shows "length (finished w') \<le> 1
    \<and> tally w w' \<in> {(0, 0, 0, 0), (1, 0, 0, 0), (0, 1, 0, 0), (0, 0, 1, 0), (0, 0, 0, 1)}
    \<and> (finished w' = [turnOutcomeSuccess] \<longleftrightarrow> tally w w' = (1, 0, 0, 0))
    \<and> (finished w' = [turnOutcomeTimeout] \<longleftrightarrow> tally w w' = (0, 1, 0, 0))
    \<and> (tally w w' = (0, 0, 1, 0) \<longrightarrow> finished w' = [turnOutcomeCanceled])
    \<and> (tally w w' \<in> {(0, 0, 0, 0), (0, 0, 0, 1)} \<longrightarrow> finished w' \<in> {[], [turnOutcomeCanceled], [turnOutcomeOther]})
    \<and> (finished w' = [turnOutcomeTimeout] \<longrightarrow>
         (\<exists>e. r = (False, 0, Some (DTLSHandshakeTimeoutError (permit_endpoint w') (permit_url w') (Some e)))))"
proof -
  have "settles env w w' r"
    using assms by (rule session_settles)
  then consider "quiet w w'"
    | t where "settled w t (permitOutcome (se_parent_release env) turnOutcomeOther) w'"
        "t \<in> {(0, 0, 0, 0), (0, 0, 0, 1)}"
    | "settled w (1, 0, 0, 0) turnOutcomeSuccess w'"
    | e oc out where "classifyHandshakeFailure (se_parent env) (se_sess env) (se_hs_ctx env) e (se_cause env)
           (permit_endpoint w') (permit_url w') = (oc, out)"
        "r = (False, 0, out)" "settled w (failure_tally oc) (permitOutcome (se_parent_release env) oc) w'"
    unfolding settles_def by blast
  then show ?thesis
  proof cases
    case 1
    then show ?thesis
      by (simp add: quiet_def)
  next
    case 2
    then show ?thesis
      using permitOutcome_other(1) [of "se_parent_release env"] by (auto simp: settled_def)
  next
    case 3
    then show ?thesis
      by (simp add: settled_def)
  next
    case 4
    have oc: "oc \<noteq> turnOutcomeSuccess"
      "oc = turnOutcomeTimeout \<Longrightarrow> out = Some (DTLSHandshakeTimeoutError (permit_endpoint w') (permit_url w') (Some e))"
      using 4(1) by (auto simp: classifyHandshakeFailure_def split: if_splits)
    show ?thesis
      using 4(2,3) oc permitOutcome_other(2) [of oc "se_parent_release env"] permitOutcome_other(1) [of "se_parent_release env"]
      by (cases oc) (auto simp: settled_def failure_tally_def)
  qed
qed

section \<open>Instances\<close>

definition demo_world :: session_world where
  "demo_world =
     \<lparr>sw_waiting = 0, sw_inflight = 2, sw_success = 5, sw_timeout = 1, sw_canceled = 0, sw_errors = 0, sw_active = 4,
      sw_permit = None, sw_outcome = turnOutcomeOther, sw_released = False,
      sw_coord = NewConfigCoordinator\<lparr>cc_currentOpID := 1, cc_activeOp := Some 0\<rparr>, sw_op = Some (0, OnceFresh),
      sw_channel = [], sw_disp = NewDispatcher, sw_errorCount = 3, sw_open = [], sw_defers = [],
      sw_delivered = False, sw_cleaned = False, sw_log = []\<rparr>"

definition demo_session :: session_env where
  "demo_session =
     \<lparr>se_id = 7, se_urls = [''a:1'', ''b:2''], se_tp = None, se_preferred = [],
      se_acquire = (\<lambda>url cands. Inr (hd cands)), se_dial = (\<lambda>ep. Inr True), se_conn_type = [],
      se_client = None, se_listen = None, se_allocate = None, se_prep = None, se_cert = None, se_dtls = None,
      se_handshake = Some CtxDeadlineExceeded, se_hs_ctx = Some CtxDeadlineExceeded, se_parent = Some None,
      se_parent_release = Some None, se_sess = Some None, se_cause = None, se_has_channel = True,
      se_conn = (\<lambda>k. \<lparr>ct_write = None, ct_deadline = None, ct_read = Inr ''[Interface]''\<rparr>),
      se_auth = (\<lambda>k. None), se_localPort = ''9000'', se_deviceID = ''d'', se_password = ''p'',
      se_accepted = True, se_now = 100, se_established = minute\<rparr>"

definition good_session :: session_env where
  "good_session = demo_session\<lparr>se_handshake := None\<rparr>"

lemma demo_timeout: "finished (fst (RunSession demo_session demo_world)) = [turnOutcomeTimeout]"
  by code_simp

lemma good_run:
  "sw_delivered (fst (RunSession good_session demo_world))
    \<and> sw_log (fst (RunSession good_session demo_world))
      = [PermitFinished turnOutcomeSuccess, ConfigRequested [''GETCONF:9000|d|p''], SessionCanceled, SeatCooled,
         SessionCanceled]"
  by code_simp

theorem session_balanced_witness:
  "cc_activeOp (sw_coord (fst (RunSession good_session demo_world))) = None
    \<and> cc_sent (sw_coord (fst (RunSession good_session demo_world)))
    \<and> sw_active (fst (RunSession good_session demo_world)) = 4"
proof -
  obtain w' r where s: "RunSession good_session demo_world = (w', r)"
    by (cases "RunSession good_session demo_world")
  have n: "se_id good_session \<notin> set (d_workers (sw_disp demo_world))"
    by (simp add: demo_world_def NewDispatcher_def)
  show ?thesis
    using session_balanced [OF n s] s good_run by (simp add: demo_world_def)
qed

theorem session_outcome_witness:
  "tally demo_world (fst (RunSession demo_session demo_world)) = (0, 1, 0, 0)
    \<and> (\<exists>e. snd (snd (snd (RunSession demo_session demo_world)))
          = Some (DTLSHandshakeTimeoutError (permit_endpoint (fst (RunSession demo_session demo_world)))
              (permit_url (fst (RunSession demo_session demo_world))) (Some e)))"
proof -
  obtain w' r where s: "RunSession demo_session demo_world = (w', r)"
    by (cases "RunSession demo_session demo_world")
  show ?thesis
    using session_outcome [OF s] demo_timeout s by auto
qed

end
