(* ===== verification/SessionLoops.thy ===== *)
theory SessionLoops
  imports Session Obfs "HOL-Library.Signed_Division"
begin

text \<open>
  The loops of a session in \<^verbatim>\<open>session.go\<close>: the two between the TURN relay and the DTLS pipe,
  which mask and unmask the packets, and the reader and the writer between DTLS and the dispatcher, and
  the phases of the keepalives. A loop is a function of the results of its calls in the order in
  which they happen; it ends at its first error, and a list that is used up stands for a loop that
  is still waiting.
\<close>

section \<open>Keepalive\<close>

definition keepaliveStaggerSlots :: int where
  "keepaliveStaggerSlots = 2000"

definition keepaliveStagger :: "int \<Rightarrow> int \<Rightarrow> duration" where
  "keepaliveStagger sessionID salt =
     (let v = (sessionID * 137 + salt * 503) smod keepaliveStaggerSlots;
          v = (if v < 0 then - v else v)
      in v * millisecond)"

definition keepaliveByte :: byte where
  "keepaliveByte = 0xFF"

section \<open>Relay to pipe\<close>

datatype relay_event =
    RelayPacket "byte list" "goerr option"
  | RelayFailed goerr

text \<open>
  What a read into a buffer of \<open>n\<close> bytes returns of the packet that is next: the relay of the TURN library and the
  pipe between the loops are imported code, so \<open>rd\<close> is an argument of the loops. Of it they rely on this alone: a packet that
  fits in the buffer is returned whole. What becomes of a longer one is open; the relay reports a short buffer.
\<close>

type_synonym packet_read = "nat \<Rightarrow> byte list \<Rightarrow> goerr + byte list"

definition reads_whole :: "packet_read \<Rightarrow> bool" where
  "reads_whole rd \<longleftrightarrow> (\<forall>n wire. length wire \<le> n \<longrightarrow> rd n wire = Inr wire)"

definition short_read :: packet_read where
  "short_read n wire = (if length wire \<le> n then Inr wire else Inl (ErrText ''short buffer''))"

lemma reads_whole_fits: "reads_whole rd \<Longrightarrow> length wire \<le> n \<Longrightarrow> rd n wire = Inr wire"
  by (simp add: reads_whole_def)

lemma short_read_whole: "reads_whole short_read"
  by (simp add: reads_whole_def short_read_def)

text \<open>What one packet is for the pipe: nothing, or the payload\<close>

definition unmask :: "unseal \<Rightarrow> byte list \<Rightarrow> byte list \<Rightarrow> byte list option" where
  "unmask open key wire =
     (if length key = wrapKeyLen then
        if \<not> obfsIsRTPPacket wire then None
        else (case obfsUnwrapPacket open key wire readBufSize of Inl e \<Rightarrow> None | Inr plain \<Rightarrow> Some plain)
      else Some wire)"

definition relay_read_error :: "goerr \<Rightarrow> goerr" where
  "relay_read_error e = ErrWrap ([CHR 0xD1, CHR 0x87, CHR 0xD1, CHR 0x82, CHR 0xD0, CHR 0xB5, CHR 0xD0, CHR 0xBD, CHR 0xD0, CHR 0xB8, CHR 0xD0, CHR 0xB5] @ '' TURN relay: '') e []"

definition pipe_read_error :: "goerr \<Rightarrow> goerr" where
  "pipe_read_error e = ErrWrap ([CHR 0xD1, CHR 0x87, CHR 0xD1, CHR 0x82, CHR 0xD0, CHR 0xB5, CHR 0xD0, CHR 0xBD, CHR 0xD0, CHR 0xB8, CHR 0xD0, CHR 0xB5] @ '' DTLS pipe: '') e []"

text \<open>
  The events are the packets that arrive at the relay, each with the result of the write to the pipe that may follow, and the
  failures of the relay itself.
\<close>

fun relay_to_pipe :: "packet_read \<Rightarrow> unseal \<Rightarrow> byte list \<Rightarrow> relay_event list \<Rightarrow> byte list list \<times> goerr option" where
  "relay_to_pipe rd open key [] = ([], None)"
| "relay_to_pipe rd open key (RelayFailed e # evs) = ([], Some (relay_read_error e))"
| "relay_to_pipe rd open key (RelayPacket wire werr # evs) =
     (case rd relayReadBuf wire of
        Inl e \<Rightarrow> ([], Some (relay_read_error e))
      | Inr got \<Rightarrow>
          (case unmask open key got of
             None \<Rightarrow> relay_to_pipe rd open key evs
           | Some payload \<Rightarrow>
               (case werr of
                  Some e \<Rightarrow> ([], Some (ErrWrap ([CHR 0xD0, CHR 0xB7, CHR 0xD0, CHR 0xB0, CHR 0xD0, CHR 0xBF, CHR 0xD0, CHR 0xB8, CHR 0xD1, CHR 0x81, CHR 0xD1, CHR 0x8C] @ '' '' @ [CHR 0xD0, CHR 0xB2] @ '' DTLS pipe: '') e []))
                | None \<Rightarrow> (case relay_to_pipe rd open key evs of (ps, t) \<Rightarrow> (payload # ps, t)))))"

section \<open>Pipe to relay\<close>

datatype pipe_event =
    PipePacket "byte list" byte "nat \<Rightarrow> byte list" "goerr option"
  | PipeFailed goerr

definition mask_packet ::
  "seal \<Rightarrow> byte \<Rightarrow> (nat \<Rightarrow> byte list) \<Rightarrow> byte list \<Rightarrow> byte list \<Rightarrow> ObfsConfig \<Rightarrow> ObfsState \<Rightarrow>
   (goerr + byte list) \<times> ObfsState"
where
  "mask_packet seal rnd fill key payload cfg st =
     (if length key = wrapKeyLen then
        (case obfsWrapPacket seal rnd fill key payload (Some cfg) (Some st) of
           (r, st') \<Rightarrow> (r, case st' of Some s \<Rightarrow> s | None \<Rightarrow> st))
      else (Inr payload, st))"

text \<open>A packet that cannot be masked ends the loop without a cause for the teardown.\<close>

fun pipe_to_relay ::
  "packet_read \<Rightarrow> seal \<Rightarrow> byte list \<Rightarrow> ObfsConfig \<Rightarrow> pipe_event list \<Rightarrow> ObfsState \<Rightarrow> byte list list \<times> goerr option"
where
  "pipe_to_relay rd seal key cfg [] st = ([], None)"
| "pipe_to_relay rd seal key cfg (PipeFailed e # evs) st = ([], Some (pipe_read_error e))"
| "pipe_to_relay rd seal key cfg (PipePacket sent rnd fill werr # evs) st =
     (case rd readBufSize sent of
        Inl e \<Rightarrow> ([], Some (pipe_read_error e))
      | Inr payload \<Rightarrow>
          (case mask_packet seal rnd fill key payload cfg st of
             (Inl e, st') \<Rightarrow> ([], None)
           | (Inr out, st') \<Rightarrow>
               (case werr of
                  Some e \<Rightarrow> ([], Some (ErrWrap ([CHR 0xD0, CHR 0xB7, CHR 0xD0, CHR 0xB0, CHR 0xD0, CHR 0xBF, CHR 0xD0, CHR 0xB8, CHR 0xD1, CHR 0x81, CHR 0xD1, CHR 0x8C] @ '' '' @ [CHR 0xD0, CHR 0xB2] @ '' TURN relay: '') e []))
                | None \<Rightarrow> (case pipe_to_relay rd seal key cfg evs st' of (ws, t) \<Rightarrow> (out # ws, t)))))"

section \<open>Reader and writer\<close>

text \<open>
  One read from the DTLS connection: a packet, with whether the dispatcher took it before the
  session was cancelled, or an error, with whether the session was cancelled.
\<close>

datatype dtls_event =
    DtlsPacket "byte list" bool
  | DtlsFailed goerr bool

fun dtls_reader :: "dtls_event list \<Rightarrow> byte list list \<times> bool" where
  "dtls_reader [] = ([], False)"
| "dtls_reader (DtlsFailed e stopped # evs) =
     (if stopped then ([], True)
      else if is_net_error e \<and> net_timeout e then dtls_reader evs
      else ([], True))"
| "dtls_reader (DtlsPacket pkt taken # evs) =
     (if pkt = [keepaliveByte] then dtls_reader evs
      else if \<not> taken then ([], True)
      else (case dtls_reader evs of (ps, b) \<Rightarrow> (pkt # ps, b)))"

text \<open>
  The writer takes packets from the worker's channel: \<open>Some\<close> a packet and the result of its
  write, \<open>None\<close> when the session was cancelled or the channel closed.
\<close>

fun dtls_writer :: "(byte list \<times> goerr option) option list \<Rightarrow> byte list list \<times> bool" where
  "dtls_writer [] = ([], False)"
| "dtls_writer (None # evs) = ([], True)"
| "dtls_writer (Some (pkt, Some e) # evs) = ([], True)"
| "dtls_writer (Some (pkt, None) # evs) = (case dtls_writer evs of (ps, b) \<Rightarrow> (pkt # ps, b))"

section \<open>The tunnel is transparent\<close>

text \<open>The longest payload whose packet fits in the buffer of the relay whatever the padding\<close>

definition payload_limit :: "string \<Rightarrow> nat" where
  "payload_limit mode = (if normalizeObfsMode mode = ''video'' then 1592 else readBufSize)"

lemma payload_limit_le: "payload_limit mode \<le> readBufSize"
  by (simp add: payload_limit_def readBufSize_def)

lemma relay_all:
  "reads_whole rd \<Longrightarrow> \<forall>w \<in> set ws. length w \<le> relayReadBuf \<Longrightarrow>
   relay_to_pipe rd open key (map (\<lambda>w. RelayPacket w None) ws) = (List.map_filter (unmask open key) ws, None)"
  by (induction ws) (simp_all add: List.map_filter_def reads_whole_fits split: option.splits)

lemma obfs_config_ok:
  "0 < oc_PaddingMax (NewObfsConfig rnd mode) \<and> oc_PaddingMax (NewObfsConfig rnd mode) < 256
   \<and> (oc_PayloadType (NewObfsConfig rnd mode) = 111 \<or> oc_PayloadType (NewObfsConfig rnd mode) = 96)"
  by (simp add: NewObfsConfig_def)

lemma packet_fits:
  "length payload \<le> payload_limit mode \<Longrightarrow>
   int (length payload) + 28 + oc_PaddingMax (NewObfsConfig r mode) \<le> int relayReadBuf"
  by (auto simp: payload_limit_def NewObfsConfig_def relayReadBuf_def readBufSize_def split: if_splits)

lemma masked_packet:
  assumes "aead_laws seal open" "\<forall>n. length (fill n) = n" "length key = wrapKeyLen"
    and "os_aead st = None \<or> os_aead st = Some key" "payload \<noteq> []" "length payload \<le> payload_limit mode"
    and cfg: "cfg = NewObfsConfig r mode"
  shows "\<exists>out st'. mask_packet seal rnd fill key payload cfg st = (Inr out, st') \<and> obfsIsRTPPacket out
    \<and> unmask open key out = Some payload \<and> os_aead st' = Some key \<and> length out \<le> relayReadBuf"
proof -
  obtain out st' where w: "obfsWrapPacket seal rnd fill key payload (Some cfg) (Some st) = (Inr out, st')"
    using wrap_succeeds [OF assms(3,5)] by blast
  from wrap_result [OF w] assms(4) obtain s where s: "st' = Some s" "os_aead s = Some key"
    by auto
  have "length payload \<le> readBufSize"
    using assms(6) payload_limit_le le_trans by blast
  then have "obfsIsRTPPacket out \<and> obfsUnwrapPacket open key out readBufSize = Inr payload
      \<and> int (length out) \<le> int (length payload) + 28 + oc_PaddingMax cfg"
    using wrap_reversible [OF assms(1,2) w assms(4)] obfs_config_ok [of r mode] by (simp add: cfg)
  then show ?thesis
    using w s assms(3) packet_fits [OF assms(6), of r] by (simp add: mask_packet_def unmask_def cfg)
qed

fun pipe_payload :: "pipe_event \<Rightarrow> byte list" where
  "pipe_payload (PipePacket payload rnd fill werr) = payload"
| "pipe_payload (PipeFailed e) = []"

text \<open>A packet of the pipe that is not empty, is at most \<open>n\<close> bytes long and whose write to the relay succeeds\<close>

fun good_packet :: "nat \<Rightarrow> pipe_event \<Rightarrow> bool" where
  "good_packet n (PipePacket payload rnd fill werr) \<longleftrightarrow>
     payload \<noteq> [] \<and> length payload \<le> n \<and> (\<forall>k. length (fill k) = k) \<and> werr = None"
| "good_packet n (PipeFailed e) \<longleftrightarrow> False"

lemma pipe_packets:
  assumes "reads_whole rd" "aead_laws seal open" "length key = wrapKeyLen" "os_aead st = None \<or> os_aead st = Some key"
    and "\<forall>ev \<in> set evs. good_packet (payload_limit mode) ev" "cfg = NewObfsConfig r mode"
  shows "\<exists>outs. pipe_to_relay rd seal key cfg evs st = (outs, None)
    \<and> (\<forall>out \<in> set outs. obfsIsRTPPacket out \<and> length out \<le> relayReadBuf)
    \<and> map (unmask open key) outs = map (\<lambda>ev. Some (pipe_payload ev)) evs"
  using assms(4,5)
proof (induction evs arbitrary: st)
  case Nil
  then show ?case by simp
next
  case (Cons ev evs)
  obtain payload rnd fill where ev: "ev = PipePacket payload rnd fill None" "payload \<noteq> []"
    "length payload \<le> payload_limit mode" "\<forall>n. length (fill n) = n"
    using Cons.prems(2) by (cases ev) auto
  obtain out st' where m: "mask_packet seal rnd fill key payload cfg st = (Inr out, st')" "obfsIsRTPPacket out"
    "unmask open key out = Some payload" "os_aead st' = Some key" "length out \<le> relayReadBuf"
    using masked_packet [OF assms(2) ev(4) assms(3) Cons.prems(1) ev(2,3) assms(6)] by blast
  have "rd readBufSize payload = Inr payload"
    using reads_whole_fits [OF assms(1)] ev(3) payload_limit_le le_trans by blast
  moreover obtain outs where "pipe_to_relay rd seal key cfg evs st' = (outs, None)"
    "\<forall>out \<in> set outs. obfsIsRTPPacket out \<and> length out \<le> relayReadBuf"
    "map (unmask open key) outs = map (\<lambda>ev. Some (pipe_payload ev)) evs"
    using Cons.IH [of st'] m(4) Cons.prems(2) by auto
  ultimately show ?case
    using m ev(1) by (intro exI [of _ "out # outs"]) simp
qed

lemma map_filter_somes: "map f xs = map (\<lambda>y. Some (g y)) ys \<Longrightarrow> List.map_filter f xs = map g ys"
  by (induction xs arbitrary: ys) (auto simp: List.map_filter_def Cons_eq_map_conv)

lemma map_filter_skip:
  "\<forall>x. \<not> P x \<longrightarrow> f x = None \<Longrightarrow> List.map_filter f (filter P xs) = List.map_filter f xs"
  by (induction xs) (auto simp: List.map_filter_def)

text \<open>
  C7. The relay is transparent: what the loop from the DTLS pipe to the relay sends is, after the loop from the relay to
  the pipe of an endpoint with the same key, the sequence of the packets of the pipe, complete and in order, however
  many packets of other senders that do not look like RTP and fit in the 1680-byte buffer arrive in between, and neither loop
  ends. It holds for every choice of the random padding, in audio mode for every packet of 1 to 1600 bytes and in video
  mode for every packet of 1 to 1592 bytes, lengths for which every packet, masked or not, fits in the buffer it is read into.
\<close>

theorem tunnel_transparent:
  assumes "reads_whole rd" "aead_laws seal open" "length key = wrapKeyLen"
    and "\<forall>ev \<in> set evs. good_packet (payload_limit mode) ev"
    and "pipe_to_relay rd seal key (NewObfsConfig r mode) evs (NewObfsState r') = (sent, cause)"
    and "[w \<leftarrow> arrived. obfsIsRTPPacket w] = sent" "\<forall>w \<in> set arrived. \<not> obfsIsRTPPacket w \<longrightarrow> length w \<le> relayReadBuf"
  shows "relay_to_pipe rd open key (map (\<lambda>w. RelayPacket w None) arrived) = (map pipe_payload evs, None)
    \<and> cause = None \<and> length sent = length evs"
proof -
  have "os_aead (NewObfsState r') = None \<or> os_aead (NewObfsState r') = Some key"
    by (simp add: NewObfsState_def)
  from pipe_packets [OF assms(1,2,3) this assms(4) refl, of r]
  have p: "cause = None" "map (unmask open key) sent = map (\<lambda>ev. Some (pipe_payload ev)) evs"
    "\<forall>w \<in> set sent. length w \<le> relayReadBuf"
    using assms(5) by auto
  have fits: "\<forall>w \<in> set arrived. length w \<le> relayReadBuf"
    using p(3) assms(6,7) by auto
  have "List.map_filter (unmask open key) arrived = List.map_filter (unmask open key) sent"
    using map_filter_skip [of obfsIsRTPPacket "unmask open key" arrived] assms(3,6) by (simp add: unmask_def)
  also have "\<dots> = map pipe_payload evs"
    by (rule map_filter_somes [OF p(2)])
  finally show ?thesis
    using p map_eq_imp_length_eq [OF p(2)] by (simp add: relay_all [OF assms(1) fits])
qed

text \<open>
  The buffer is a real limit: a packet that does not fit ends the loop of the session, with the error of the relay as its cause,
  and nothing that arrives afterwards reaches the pipe.
\<close>

lemma overlong_packet_ends_relay:
  "relayReadBuf < length wire \<Longrightarrow>
   relay_to_pipe short_read open key (RelayPacket wire werr # evs)
     = ([], Some (relay_read_error (ErrText ''short buffer'')))"
  by (simp add: short_read_def)

section \<open>What the reader delivers\<close>

text \<open>An event at which the reader's loop ends, and the packets before it that are not keepalives\<close>

fun ends_reader :: "dtls_event \<Rightarrow> bool" where
  "ends_reader (DtlsFailed e stopped) \<longleftrightarrow> stopped \<or> \<not> (is_net_error e \<and> net_timeout e)"
| "ends_reader (DtlsPacket pkt taken) \<longleftrightarrow> pkt \<noteq> [keepaliveByte] \<and> \<not> taken"

definition carried :: "dtls_event list \<Rightarrow> byte list list" where
  "carried evs = [pkt. DtlsPacket pkt taken \<leftarrow> evs, pkt \<noteq> [keepaliveByte]]"

text \<open>
  The reader between DTLS and the dispatcher: it delivers, in order, exactly the packets that arrive before the first
  event that ends it and that are not the one-byte keepalive; a read that times out does not end it, any other error, the
  end of the session and a dispatcher that does not take a packet do, and nothing is delivered afterwards.
\<close>

theorem reader_delivers:
  "dtls_reader evs = (carried (takeWhile (\<lambda>ev. \<not> ends_reader ev) evs), list_ex ends_reader evs)"
  by (induction evs rule: dtls_reader.induct) (auto simp: carried_def)

section \<open>Phases\<close>

lemma stagger_nonneg:
  "0 \<le> i \<Longrightarrow> 0 \<le> salt \<Longrightarrow> keepaliveStagger i salt = ((i * 137 + salt * 503) mod 2000) * millisecond"
  by (simp add: keepaliveStagger_def keepaliveStaggerSlots_def Let_def smod_int_alt_def sgn_if)

lemma stagger_range: "0 \<le> keepaliveStagger i salt \<and> keepaliveStagger i salt < 2 * second"
proof -
  have "abs ((i * 137 + salt * 503) smod 2000) < 2000"
    using smod_int_range [of 2000 "i * 137 + salt * 503"] by auto
  then show ?thesis
    by (auto simp: keepaliveStagger_def keepaliveStaggerSlots_def Let_def duration_defs)
qed

text \<open>
  The phases of the keepalives: every phase is at least zero and less than two seconds; two workers whose numbers
  differ by less than 2000, as all workers of a client do, never share a phase for the same kind of keepalive, so their
  packets do not leave in one burst; and the TURN and the DTLS keepalive of one worker have different phases.
\<close>

theorem keepalive_phases:
  assumes "0 \<le> i" "0 \<le> j" "0 \<le> salt" "abs (i - j) < 2000"
  shows "0 \<le> keepaliveStagger i salt \<and> keepaliveStagger i salt < 2 * second
    \<and> (keepaliveStagger i salt = keepaliveStagger j salt \<longleftrightarrow> i = j)
    \<and> keepaliveStagger i 0 \<noteq> keepaliveStagger i 1"
proof -
  have "i = j" if "(i * 137 + salt * 503) mod 2000 = (j * 137 + salt * 503) mod 2000"
  proof -
    have "(2000 :: int) dvd (i * 137 + salt * 503) - (j * 137 + salt * 503)"
      using that by (simp add: mod_eq_dvd_iff)
    then have "(2000 :: int) dvd (i - j) * 137"
      by (simp add: algebra_simps)
    moreover have "coprime (2000 :: int) 137"
      by code_simp
    ultimately have "(2000 :: int) dvd i - j"
      using coprime_dvd_mult_left_iff by blast
    then show ?thesis
      using assms(4) dvd_imp_le_int [of "i - j" 2000] by auto
  qed
  moreover have "(i * 137 + 0 * 503) mod 2000 \<noteq> (i * 137 + 1 * 503) mod (2000 :: int)"
    by (simp add: mod_eq_dvd_iff)
  ultimately show ?thesis
    using stagger_range [of i salt] assms(1-3) by (auto simp: stagger_nonneg millisecond_def)
qed

section \<open>Instances\<close>

definition demo_key :: "byte list" where
  "demo_key = replicate 32 9"

definition demo_events :: "pipe_event list" where
  "demo_events = [PipePacket [1, 2, 3] 30 (\<lambda>n. replicate n 1) None, PipePacket [4] 7 (\<lambda>n. replicate n 2) None]"

theorem tunnel_transparent_witness:
  "\<exists>sent. fst (relay_to_pipe short_read toy_open demo_key (map (\<lambda>w. RelayPacket w None) ([1, 2] # sent))) = [[1, 2, 3], [4]]"
proof -
  obtain sent cause where s: "pipe_to_relay short_read toy_seal demo_key (NewObfsConfig [1, 2, 3, 4] ''video'') demo_events
      (NewObfsState [1, 2, 3, 4, 5, 6]) = (sent, cause)"
    by (cases "pipe_to_relay short_read toy_seal demo_key (NewObfsConfig [1, 2, 3, 4] ''video'') demo_events
      (NewObfsState [1, 2, 3, 4, 5, 6])")
  have laws: "aead_laws toy_seal toy_open" "length demo_key = wrapKeyLen"
    by (simp_all add: aead_laws_def toy_seal_def toy_open_def demo_key_def wrapKeyLen_def)
  have good: "\<forall>ev \<in> set demo_events. good_packet (payload_limit ''video'') ev"
    by (simp add: demo_events_def readBufSize_def payload_limit_def)
  have "os_aead (NewObfsState [1, 2, 3, 4, 5, 6]) = None \<or> os_aead (NewObfsState [1, 2, 3, 4, 5, 6]) = Some demo_key"
    by (simp add: NewObfsState_def)
  from pipe_packets [OF short_read_whole laws this good refl, of "[1, 2, 3, 4]"]
  have rtp: "\<forall>w \<in> set sent. obfsIsRTPPacket w"
    using s by auto
  then have "[w \<leftarrow> [1, 2] # sent. obfsIsRTPPacket w] = sent"
    by (simp add: obfsIsRTPPacket_def filter_id_conv)
  moreover have "\<forall>w \<in> set ([1, 2] # sent). \<not> obfsIsRTPPacket w \<longrightarrow> length w \<le> relayReadBuf"
    using rtp by (simp add: relayReadBuf_def)
  ultimately have "relay_to_pipe short_read toy_open demo_key (map (\<lambda>w. RelayPacket w None) ([1, 2] # sent))
      = (map pipe_payload demo_events, None)"
    using tunnel_transparent [OF short_read_whole laws good s] by blast
  then have "fst (relay_to_pipe short_read toy_open demo_key (map (\<lambda>w. RelayPacket w None) ([1, 2] # sent))) = [[1, 2, 3], [4]]"
    by (simp only: fst_conv) (simp add: demo_events_def)
  then show ?thesis
    by blast
qed

theorem keepalive_phases_witness:
  "keepaliveStagger 1 0 \<noteq> keepaliveStagger 108 0"
  using keepalive_phases [of 1 108 0] by simp

end
