(* ===== verification/WorkerGroups.thy ===== *)
theory WorkerGroups
  imports Prelude "HOL-Library.Signed_Division"
begin

text \<open>
  How the workers are started: \<^verbatim>\<open>main.go\<close> and \<^verbatim>\<open>ios_bridge.go\<close> bring the number of workers
  into its bounds and divide the workers into groups, and \<^verbatim>\<open>WorkerGroup\<close> of \<^verbatim>\<open>group.go\<close> starts one
  group after another: a group waits for the signal of the one before it, fetches its credentials, in the
  background if the first request fails, and hands on the signal. The groups are goroutines, so
  their starts are a step relation over the list of the groups.
\<close>

section \<open>Numbers of workers\<close>

definition workersPerGroup :: int where
  "workersPerGroup = 9"

definition maxWorkers :: int where
  "maxWorkers = 108"

definition accountMaxWorkers :: int where
  "accountMaxWorkers = 4"

definition at_most :: "int \<Rightarrow> int \<Rightarrow> int" where
  "at_most m n = (if n > m then m else n)"

definition at_least :: "int \<Rightarrow> int \<Rightarrow> int" where
  "at_least m n = (if n < m then m else n)"

definition normalize_workers :: "bool \<Rightarrow> int \<Rightarrow> int" where
  "normalize_workers account numW =
     (let n = at_most maxWorkers numW in
      if account then at_least 1 (at_most accountMaxWorkers n)
      else (at_least workersPerGroup n sdiv workersPerGroup) * workersPerGroup)"

section \<open>Groups of workers\<close>

definition numGroups :: "int \<Rightarrow> int" where
  "numGroups numW = (numW + workersPerGroup - 1) sdiv workersPerGroup"

record worker_group =
  wg_id :: int
  wg_hash :: int
  wg_workers :: "int list"

text \<open>The loop over the groups; \<open>counter\<close> is \<^verbatim>\<open>workerIDCounter\<close>.\<close>

fun make_groups :: "int list \<Rightarrow> int \<Rightarrow> int \<Rightarrow> worker_group list" where
  "make_groups [] numW counter = []"
| "make_groups (g # gs) numW counter =
     (let startIdx = g * workersPerGroup;
          endIdx = at_most numW (startIdx + workersPerGroup);
          groupSize = endIdx - startIdx in
      if groupSize \<le> 0 then make_groups gs numW counter
      else \<lparr>wg_id = g + 1, wg_hash = g, wg_workers = [counter .. counter + groupSize - 1]\<rparr>
             # make_groups gs numW (counter + groupSize))"

definition worker_groups :: "int \<Rightarrow> worker_group list" where
  "worker_groups numW = make_groups [0 .. numGroups numW - 1] numW 1"

text \<open>The hash of a group: \<^verbatim>\<open>tp.Hashes[hashIndex % len(tp.Hashes)]\<close>\<close>

definition group_hash :: "'a list \<Rightarrow> worker_group \<Rightarrow> 'a" where
  "group_hash hashes g = hashes ! nat (wg_hash g smod int (length hashes))"

lemma normalize_bounds:
  "normalize_workers True n \<in> {1 .. 4}"
  "normalize_workers False n \<in> {9 .. 108} \<and> 9 dvd normalize_workers False n"
proof -
  show "normalize_workers True n \<in> {1 .. 4}"
    by (auto simp: normalize_workers_def at_most_def at_least_def maxWorkers_def accountMaxWorkers_def Let_def)
  have "9 \<le> m \<Longrightarrow> m \<le> 108 \<Longrightarrow> m sdiv 9 * 9 \<in> {9 .. 108} \<and> 9 dvd m sdiv 9 * 9" for m :: int
    by (auto simp: signed_divide_int_def sgn_if)
  then show "normalize_workers False n \<in> {9 .. 108} \<and> 9 dvd normalize_workers False n"
    by (auto simp: normalize_workers_def at_most_def at_least_def maxWorkers_def workersPerGroup_def Let_def)
qed

lemma sdiv_nonneg: "0 \<le> n \<Longrightarrow> 0 < m \<Longrightarrow> n sdiv m = n div m" for n m :: int
  by (cases "n = 0") (simp_all add: signed_divide_int_def sgn_if)

text \<open>The groups that are made are the ones of the numbers below \<open>numGroups\<close>, none of them empty.\<close>

definition group_size :: "int \<Rightarrow> int \<Rightarrow> int" where
  "group_size numW g = at_most numW (g * workersPerGroup + workersPerGroup) - g * workersPerGroup"

lemma make_groups_seq:
  assumes "0 < numW" "gs = [a .. numGroups numW - 1]" "0 \<le> a"
  shows "map wg_id (make_groups gs numW (a * 9 + 1)) = map (\<lambda>g. g + 1) gs
    \<and> map wg_hash (make_groups gs numW (a * 9 + 1)) = gs
    \<and> concat (map wg_workers (make_groups gs numW (a * 9 + 1))) = [a * 9 + 1 .. numW]
    \<and> (\<forall>g \<in> set (make_groups gs numW (a * 9 + 1)). length (wg_workers g) \<in> {1 .. 9})"
  using assms(2,3)
proof (induction gs arbitrary: a)
  case Nil
  then have "numGroups numW \<le> a"
    by (metis upto_empty diff_less_eq  list.distinct(1) not_less upto_rec1 zle_diff1_eq)
  then have "numW \<le> a * 9"
    using assms(1) by (simp add: numGroups_def workersPerGroup_def sdiv_nonneg)
  then show ?case
    by simp
next
  case (Cons g gs)
  then have g: "g = a" "gs = [a + 1 .. numGroups numW - 1]" "a \<le> numGroups numW - 1"
    by (metis list.inject upto_rec1 upto_Nil2 not_le list.distinct(1))+
  then have a: "a * 9 < numW"
    using assms(1) by (simp add: numGroups_def workersPerGroup_def sdiv_nonneg)
  have IH: "map wg_id (make_groups gs numW ((a + 1) * 9 + 1)) = map (\<lambda>g. g + 1) gs
    \<and> map wg_hash (make_groups gs numW ((a + 1) * 9 + 1)) = gs
    \<and> concat (map wg_workers (make_groups gs numW ((a + 1) * 9 + 1))) = [(a + 1) * 9 + 1 .. numW]
    \<and> (\<forall>g \<in> set (make_groups gs numW ((a + 1) * 9 + 1)). length (wg_workers g) \<in> {1 .. 9})"
    using Cons.IH [OF g(2)] Cons.prems(2) by simp
  show ?case
  proof (cases "a * 9 + 9 \<le> numW")
    case True
    have "[a * 9 + 1 .. a * 9 + 9] @ [a * 9 + 10 .. numW] = [a * 9 + 1 .. numW]"
    proof (cases "a * 9 + 10 \<le> numW")
      case True
      then show ?thesis
        using upto_split1 [of "a * 9 + 1" "a * 9 + 10" numW] by (simp add: algebra_simps)
    next
      case False
      then have "numW = a * 9 + 9"
        using \<open>a * 9 + 9 \<le> numW\<close> by simp
      then show ?thesis
        by simp
    qed
    then show ?thesis
      using IH True by (simp add: g(1) workersPerGroup_def at_most_def Let_def algebra_simps)
  next
    case False
    then have "gs = []"
      using assms(1) g(2) by (simp add: numGroups_def workersPerGroup_def sdiv_nonneg)
    then show ?thesis
      using False a by (simp add: g(1) workersPerGroup_def at_most_def Let_def Suc_le_eq nat_le_iff)
  qed
qed

text \<open>
  The number of workers and their groups: a requested number is brought to 1 to 4 workers in account mode and
  otherwise to a multiple of nine between 9 and 108, whatever number was asked for; the groups are then numbered from 1,
  group g uses the hash g - 1 modulo the number of hashes, no group is empty or has more than nine workers, and their
  worker numbers one after the other are 1, 2, ..., so that no worker is missing or started twice.
\<close>

theorem workers_partitioned:
  "normalize_workers True n \<in> {1 .. 4} \<and> normalize_workers False n \<in> {9 .. 108}
    \<and> 9 dvd normalize_workers False n
    \<and> (let numW = normalize_workers account n; gs = worker_groups numW in
         map wg_id gs = [1 .. numGroups numW] \<and> map wg_hash gs = [0 .. numGroups numW - 1]
         \<and> concat (map wg_workers gs) = [1 .. numW]
         \<and> list_all (\<lambda>g. length (wg_workers g) \<in> {1 .. 9}) gs)"
proof -
  have pos: "0 < normalize_workers account n"
    using normalize_bounds [of n] by (cases account) auto
  have "map (\<lambda>g. g + 1) [0 .. k - 1] = [1 .. k]" for k :: int
  proof (cases "0 \<le> k - 1")
    case True
    then show ?thesis
      by (intro nth_equalityI) auto
  qed simp
  then show ?thesis
    using make_groups_seq [OF pos refl, of 0] normalize_bounds [of n]
    by (simp add: worker_groups_def Let_def list_all_iff)
qed

section \<open>The start of the groups\<close>

datatype group_phase =
    GroupWaits
  | GroupPaused
  | GroupFetches
  | GroupSleeps duration
  | GroupRefetches duration
  | GroupRuns
  | GroupEnded

record group_start =
  gp_phase :: group_phase
  gp_released :: bool
  gp_timer :: bool
  gp_sleeps :: "duration list"

record start_state =
  st_groups :: "group_start list"
  st_paused :: bool
  st_canceled :: bool

definition new_group :: group_start where
  "new_group = \<lparr>gp_phase = GroupWaits, gp_released = False, gp_timer = False, gp_sleeps = []\<rparr>"

definition put_group :: "nat \<Rightarrow> group_start \<Rightarrow> start_state \<Rightarrow> start_state" where
  "put_group k g s = s\<lparr>st_groups := (st_groups s)[k := g]\<rparr>"

definition next_sleep :: "duration \<Rightarrow> duration" where
  "next_sleep d = (if d < 30 * second then d + 5 * second else d)"

definition go_on :: "group_phase \<Rightarrow> group_start \<Rightarrow> group_start" where
  "go_on ph g = g\<lparr>gp_phase := ph\<rparr>"

text \<open>The end of \<^verbatim>\<open>WorkerGroup\<close>: the deferred release of the signal\<close>

definition end_group :: "group_start \<Rightarrow> group_start" where
  "end_group g = g\<lparr>gp_phase := GroupEnded, gp_released := True\<rparr>"

definition first_sleep :: "group_start \<Rightarrow> group_start" where
  "first_sleep g = g\<lparr>gp_phase := GroupSleeps (10 * second), gp_released := True, gp_sleeps := [10 * second]\<rparr>"

definition sleep_again :: "duration \<Rightarrow> group_start \<Rightarrow> group_start" where
  "sleep_again d g = g\<lparr>gp_phase := GroupSleeps d, gp_sleeps := gp_sleeps g @ [d]\<rparr>"

definition run_with_timer :: "group_start \<Rightarrow> group_start" where
  "run_with_timer g = g\<lparr>gp_phase := GroupRuns, gp_timer := True\<rparr>"

definition may_start :: "nat \<Rightarrow> start_state \<Rightarrow> bool" where
  "may_start k s \<longleftrightarrow> k = 0 \<or> gp_released (st_groups s ! (k - 1))"

inductive group_move :: "start_state \<Rightarrow> nat \<Rightarrow> group_start \<Rightarrow> group_start \<Rightarrow> bool" for s k where
  gm_ready: "gp_phase g = GroupWaits \<Longrightarrow> may_start k s \<Longrightarrow> group_move s k g (go_on GroupPaused g)"
| gm_wait_cancel: "gp_phase g = GroupWaits \<Longrightarrow> st_canceled s \<Longrightarrow> group_move s k g (end_group g)"
| gm_pause_over: "gp_phase g = GroupPaused \<Longrightarrow> \<not> st_paused s \<Longrightarrow> group_move s k g (go_on GroupFetches g)"
| gm_pause_cancel: "gp_phase g = GroupPaused \<Longrightarrow> st_paused s \<Longrightarrow> st_canceled s \<Longrightarrow> group_move s k g (end_group g)"
| gm_fetched: "gp_phase g = GroupFetches \<Longrightarrow> group_move s k g (run_with_timer g)"
| gm_dead: "gp_phase g = GroupFetches \<Longrightarrow> group_move s k g (end_group g)"
| gm_failed: "gp_phase g = GroupFetches \<Longrightarrow> group_move s k g (first_sleep g)"
| gm_wake: "gp_phase g = GroupSleeps d \<Longrightarrow> group_move s k g (go_on (GroupRefetches (next_sleep d)) g)"
| gm_sleep_cancel: "gp_phase g = GroupSleeps d \<Longrightarrow> st_canceled s \<Longrightarrow> group_move s k g (end_group g)"
| gm_refetched: "gp_phase g = GroupRefetches d \<Longrightarrow> group_move s k g (go_on GroupRuns g)"
| gm_redead: "gp_phase g = GroupRefetches d \<Longrightarrow> group_move s k g (end_group g)"
| gm_refailed: "gp_phase g = GroupRefetches d \<Longrightarrow> group_move s k g (sleep_again d g)"
| gm_timer: "gp_timer g \<Longrightarrow> group_move s k g (g\<lparr>gp_timer := False, gp_released := True\<rparr>)"
| gm_timer_cancel: "gp_timer g \<Longrightarrow> st_canceled s \<Longrightarrow> group_move s k g (g\<lparr>gp_timer := False\<rparr>)"
| gm_end: "gp_phase g = GroupRuns \<Longrightarrow> group_move s k g (end_group g)"

inductive start_step :: "start_state \<Rightarrow> start_state \<Rightarrow> bool" where
  ss_move: "k < length (st_groups s) \<Longrightarrow> group_move s k (st_groups s ! k) g \<Longrightarrow> start_step s (put_group k g s)"
| ss_pause: "start_step s (s\<lparr>st_paused := b\<rparr>)"
| ss_cancel: "start_step s (s\<lparr>st_canceled := True\<rparr>)"

definition start_init :: "start_state \<Rightarrow> bool" where
  "start_init s \<longleftrightarrow> (\<exists>n. st_groups s = replicate n new_group) \<and> \<not> st_canceled s"

section \<open>The signal is always handed on\<close>

definition sleep_nth :: "nat \<Rightarrow> duration" where
  "sleep_nth i = min (30 * second) (10 * second + 5 * second * int i)"

definition sleeps_ok :: "group_start \<Rightarrow> bool" where
  "sleeps_ok g \<longleftrightarrow>
     gp_sleeps g = map sleep_nth [0 ..< length (gp_sleeps g)]
     \<and> (case gp_phase g of
          GroupSleeps d \<Rightarrow> gp_sleeps g \<noteq> [] \<and> d = sleep_nth (length (gp_sleeps g) - 1)
        | GroupRefetches d \<Rightarrow> gp_sleeps g \<noteq> [] \<and> d = sleep_nth (length (gp_sleeps g))
        | _ \<Rightarrow> True)"

definition signal_ok :: "bool \<Rightarrow> group_start \<Rightarrow> bool" where
  "signal_ok canceled g \<longleftrightarrow>
     (case gp_phase g of
        GroupEnded \<Rightarrow> gp_released g
      | GroupSleeps d \<Rightarrow> gp_released g
      | GroupRefetches d \<Rightarrow> gp_released g
      | GroupRuns \<Rightarrow> gp_released g \<or> gp_timer g \<or> canceled
      | _ \<Rightarrow> True)"

definition start_inv :: "start_state \<Rightarrow> bool" where
  "start_inv s \<longleftrightarrow> (\<forall>g \<in> set (st_groups s). sleeps_ok g \<and> signal_ok (st_canceled s) g)"

lemmas group_updates = go_on_def end_group_def first_sleep_def sleep_again_def run_with_timer_def

lemma next_sleep_nth: "next_sleep (sleep_nth i) = sleep_nth (Suc i)"
  by (auto simp: next_sleep_def sleep_nth_def second_def min_def)

lemma move_sleeps:
  assumes "group_move s k g g'" "sleeps_ok g"
  shows "sleeps_ok g'"
  using assms
proof cases
  case (gm_wake d)
  then show ?thesis
    using assms(2) next_sleep_nth [of "length (gp_sleeps g) - 1"] by (simp add: sleeps_ok_def group_updates)
next
  case (gm_refailed d)
  then show ?thesis
    using assms(2) by (simp add: sleeps_ok_def group_updates)
next
  case gm_failed
  then show ?thesis
    by (simp add: sleeps_ok_def group_updates sleep_nth_def second_def)
qed (simp_all add: sleeps_ok_def group_updates split: group_phase.splits)

lemma move_signal: "group_move s k g g' \<Longrightarrow> signal_ok (st_canceled s) g \<Longrightarrow> signal_ok (st_canceled s) g'"
  by (erule group_move.cases) (auto simp: signal_ok_def group_updates split: group_phase.splits)

lemma signal_mono: "signal_ok c g \<Longrightarrow> signal_ok True g"
  by (auto simp: signal_ok_def split: group_phase.splits)

lemma start_inv_step: "start_inv s \<Longrightarrow> start_step s t \<Longrightarrow> start_inv t"
proof (erule start_step.cases)
  fix k s' g
  assume inv: "start_inv s" and eq: "s = s'" "t = put_group k g s'" and k: "k < length (st_groups s')"
    and m: "group_move s' k (st_groups s' ! k) g"
  have "st_groups s' ! k \<in> set (st_groups s')"
    using k by simp
  then have "sleeps_ok g \<and> signal_ok (st_canceled s') g"
    using inv eq(1) move_sleeps [OF m] move_signal [OF m] by (auto simp: start_inv_def)
  then show "start_inv t"
    using inv eq set_update_subset_insert [of "st_groups s'" k g] by (auto simp: start_inv_def put_group_def)
qed (auto simp: start_inv_def intro: signal_mono)

lemma start_inv_init: "start_init s \<Longrightarrow> start_inv s"
  by (auto simp: start_init_def start_inv_def new_group_def sleeps_ok_def signal_ok_def)

interpretation start_runs: invariant_system start_init start_step start_inv
  by unfold_locales (auto intro: start_inv_init start_inv_step)

lemma first_blocked:
  assumes "k < length (st_groups s)" "gp_phase (st_groups s ! k) = GroupWaits" "\<not> may_start k s"
  shows "\<exists>j < k. \<not> gp_released (st_groups s ! j) \<and> (gp_phase (st_groups s ! j) = GroupWaits \<longrightarrow> may_start j s)"
  using assms
proof (induction k)
  case 0
  then show ?case
    by (simp add: may_start_def)
next
  case (Suc k)
  then have r: "\<not> gp_released (st_groups s ! k)"
    by (simp add: may_start_def)
  show ?case
  proof (cases "gp_phase (st_groups s ! k) = GroupWaits \<and> \<not> may_start k s")
    case True
    then show ?thesis
      using Suc by (meson Suc_lessD less_SucI)
  next
    case False
    then show ?thesis
      using r by (intro exI [of _ k]) auto
  qed
qed

text \<open>The steps a group needs at most until it hands on its signal, and the groups before the \<open>k\<close>-th together\<close>

definition until_release :: "group_start \<Rightarrow> nat" where
  "until_release g =
     (if gp_released g then 0
      else (case gp_phase g of
              GroupWaits \<Rightarrow> 4
            | GroupPaused \<Rightarrow> 3
            | GroupRuns \<Rightarrow> 1
            | GroupEnded \<Rightarrow> 0
            | _ \<Rightarrow> 2))"

definition handover_left :: "nat \<Rightarrow> start_state \<Rightarrow> nat" where
  "handover_left k s = sum_list (map until_release (take k (st_groups s)))"

lemma until_release_le: "until_release g \<le> 4"
  by (auto simp: until_release_def split: group_phase.splits)

lemma move_until_release: "group_move s k g g' \<Longrightarrow> until_release g' \<le> until_release g"
  by (erule group_move.cases) (auto simp: until_release_def group_updates split: group_phase.splits)

lemma move_nearer:
  assumes "group_move s k g g'" "\<not> gp_released g" "gp_phase g \<in> {GroupWaits, GroupPaused, GroupFetches, GroupRuns}"
    and "\<not> st_canceled s"
  shows "until_release g' < until_release g"
  using assms by cases (auto simp: until_release_def group_updates)

lemma sum_list_pointwise:
  "length xs = length ys \<Longrightarrow> (\<And>i. i < length xs \<Longrightarrow> xs ! i \<le> ys ! i) \<Longrightarrow> sum_list xs \<le> sum_list (ys :: nat list)"
proof (induction xs ys rule: list_induct2)
  case (Cons x xs y ys)
  show ?case
    using Cons.IH Cons.prems [of 0] Cons.prems [of "Suc i" for i] by (simp add: add_mono)
qed simp

lemma handover_left_le: "handover_left k s \<le> 4 * k"
proof -
  have "handover_left k s \<le> sum_list (map (\<lambda>g. 4) (take k (st_groups s)))"
    unfolding handover_left_def by (rule sum_list_mono) (rule until_release_le)
  then show ?thesis
    by (simp add: sum_list_triv)
qed

lemma handover_left_step:
  assumes "start_step s t"
  shows "handover_left k t \<le> handover_left k s"
  using assms
proof cases
  case (ss_move i g)
  have "until_release ((st_groups s)[i := g] ! j) \<le> until_release (st_groups s ! j)" if "j < length (st_groups s)" for j
    using move_until_release [OF ss_move(3)] that by (cases "j = i") auto
  then show ?thesis
    unfolding handover_left_def ss_move(1) by (intro sum_list_pointwise) (simp_all add: put_group_def)
qed (simp_all add: handover_left_def)

text \<open>A group that keeps the next one waiting and is not itself waiting for its signal can go on, without having to end.\<close>

lemma blocker_moves:
  assumes "signal_ok (st_canceled s) g" "\<not> gp_released g" "\<not> st_paused s" "\<not> st_canceled s"
    and "gp_phase g = GroupWaits \<longrightarrow> may_start j s"
  shows "(\<exists>g'. group_move s j g g' \<and> gp_phase g' \<noteq> GroupEnded) \<and> (\<forall>g'. group_move s j g g' \<longrightarrow> until_release g' < until_release g)"
proof -
  have "gp_phase g \<in> {GroupWaits, GroupPaused, GroupFetches, GroupRuns}"
    using assms(1,2) by (auto simp: signal_ok_def split: group_phase.splits)
  moreover have "\<exists>g'. group_move s j g g' \<and> gp_phase g' \<noteq> GroupEnded"
  proof (cases "gp_phase g")
    case GroupWaits
    then show ?thesis
      using gm_ready [of g j s] assms(5) by (force simp: go_on_def)
  next
    case GroupPaused
    then show ?thesis
      using gm_pause_over [of g s j] assms(3) by (force simp: go_on_def)
  next
    case GroupFetches
    then show ?thesis
      using gm_fetched [of g s j] by (force simp: run_with_timer_def)
  next
    case GroupRuns
    then have "gp_timer g"
      using assms(1,2,4) by (simp add: signal_ok_def)
    then show ?thesis
      using gm_timer [of g s j] GroupRuns by force
  qed (use assms(1,2) in \<open>auto simp: signal_ok_def\<close>)
  ultimately show ?thesis
    using move_nearer assms(2,4) by blast
qed

text \<open>
  C15. The signal to start is handed on, in every interleaving with failed requests, dead links and cancellation, while the
  client is not paused. A group that waits for it can end when the client was cancelled, and can go on when the group before it
  has handed it on. Otherwise there is a group before it that keeps the next one waiting and is not waiting itself: it has a step, which
  is not its end (a running group need not end for it: its two-second timer can fire), and each step it can take,
  whatever its request returns, brings it nearer to handing on the signal. The steps that the groups before the k-th still need are at most 4 k
  and never become more, so the wait is over after 4 k such steps. No group ends or goes to sleep without handing on the signal.
\<close>

theorem handover_live:
  assumes "reach start_init start_step s" "k < length (st_groups s)" "gp_phase (st_groups s ! k) = GroupWaits"
    and "\<not> st_paused s"
  shows "(if st_canceled s then group_move s k (st_groups s ! k) (end_group (st_groups s ! k))
      else if may_start k s then group_move s k (st_groups s ! k) (go_on GroupPaused (st_groups s ! k))
      else (\<exists>j < k. \<not> gp_released (st_groups s ! j)
        \<and> (\<exists>g. group_move s j (st_groups s ! j) g \<and> gp_phase g \<noteq> GroupEnded)
        \<and> (\<forall>g. group_move s j (st_groups s ! j) g \<longrightarrow> until_release g < until_release (st_groups s ! j))))
    \<and> handover_left k s \<le> 4 * k \<and> (\<forall>t. start_step s t \<longrightarrow> handover_left k t \<le> handover_left k s)
    \<and> (\<forall>g \<in> set (st_groups s). gp_phase g = GroupEnded \<or> (\<exists>d. gp_phase g = GroupSleeps d) \<longrightarrow> gp_released g)"
proof (intro conjI)
  have inv: "start_inv s"
    using assms(1) by (rule start_runs.reach_inv)
  then show "\<forall>g \<in> set (st_groups s). gp_phase g = GroupEnded \<or> (\<exists>d. gp_phase g = GroupSleeps d) \<longrightarrow> gp_released g"
    by (auto simp: start_inv_def signal_ok_def)
  have blocked: "\<exists>j < k. \<not> gp_released (st_groups s ! j) \<and> (gp_phase (st_groups s ! j) = GroupWaits \<longrightarrow> may_start j s)"
    if "\<not> may_start k s"
    using first_blocked [OF assms(2,3) that] that by blast
  show "if st_canceled s then group_move s k (st_groups s ! k) (end_group (st_groups s ! k))
      else if may_start k s then group_move s k (st_groups s ! k) (go_on GroupPaused (st_groups s ! k))
      else (\<exists>j < k. \<not> gp_released (st_groups s ! j)
        \<and> (\<exists>g. group_move s j (st_groups s ! j) g \<and> gp_phase g \<noteq> GroupEnded)
        \<and> (\<forall>g. group_move s j (st_groups s ! j) g \<longrightarrow> until_release g < until_release (st_groups s ! j)))"
  proof (cases "st_canceled s \<or> may_start k s")
    case True
    then show ?thesis
      using assms(3) by (auto intro: gm_wait_cancel gm_ready)
  next
    case False
    then obtain j where j: "j < k" "\<not> gp_released (st_groups s ! j)"
        "gp_phase (st_groups s ! j) = GroupWaits \<longrightarrow> may_start j s"
      using blocked by blast
    then have "signal_ok (st_canceled s) (st_groups s ! j)"
      using inv assms(2) by (simp add: start_inv_def)
    then show ?thesis
      using blocker_moves [OF _ j(2) assms(4) _ j(3)] j(1,2) False by auto
  qed
qed (use handover_left_le handover_left_step in blast)+

text \<open>
  The pauses of the background request: the n-th pause of a group that could not get its credentials is
  ten seconds and five more for each one before, at most thirty.
\<close>

theorem background_pauses:
  assumes "reach start_init start_step s" "g \<in> set (st_groups s)" "n < length (gp_sleeps g)"
  shows "gp_sleeps g ! n = min (30 * second) (10 * second + 5 * second * int n)"
proof -
  have "gp_sleeps g = map sleep_nth [0 ..< length (gp_sleeps g)]"
    using start_runs.reach_inv [OF assms(1)] assms(2) by (simp add: start_inv_def sleeps_ok_def)
  then have "gp_sleeps g ! n = map sleep_nth [0 ..< length (gp_sleeps g)] ! n"
    by simp
  then show ?thesis
    using assms(3) by (simp add: sleep_nth_def)
qed

section \<open>Instances\<close>

definition second_waits :: start_state where
  "second_waits =
     \<lparr>st_groups = [first_sleep (go_on GroupFetches (go_on GroupPaused new_group)), new_group],
      st_paused = False, st_canceled = False\<rparr>"

text \<open>The first group runs and has not handed on its signal: its timer does it.\<close>

definition first_runs :: start_state where
  "first_runs =
     \<lparr>st_groups = [run_with_timer (go_on GroupFetches (go_on GroupPaused new_group)), new_group],
      st_paused = False, st_canceled = False\<rparr>"

lemma two_groups_fetch:
  "reach start_init start_step
     \<lparr>st_groups = [go_on GroupFetches (go_on GroupPaused new_group), new_group], st_paused = False, st_canceled = False\<rparr>"
proof -
  define s0 where "s0 = \<lparr>st_groups = [new_group, new_group], st_paused = False, st_canceled = False\<rparr>"
  have r0: "reach start_init start_step s0"
    by (rule reach.reach_init) (auto simp: start_init_def s0_def numeral_2_eq_2 intro!: exI [of _ 2])
  have r1: "reach start_init start_step (put_group 0 (go_on GroupPaused new_group) s0)"
    by (rule reach.reach_step [OF r0], rule ss_move)
      (auto simp: s0_def new_group_def may_start_def intro: group_move.intros)
  have "reach start_init start_step
      (put_group 0 (go_on GroupFetches (go_on GroupPaused new_group)) (put_group 0 (go_on GroupPaused new_group) s0))"
    by (rule reach.reach_step [OF r1], rule ss_move)
      (use gm_pause_over [of "go_on GroupPaused new_group" "put_group 0 (go_on GroupPaused new_group) s0" 0]
        in \<open>simp_all add: s0_def put_group_def go_on_def\<close>)
  then show ?thesis
    by (simp add: s0_def put_group_def)
qed

lemma after_fetch:
  assumes "\<And>s. group_move s 0 (go_on GroupFetches (go_on GroupPaused new_group)) g"
  shows "reach start_init start_step \<lparr>st_groups = [g, new_group], st_paused = False, st_canceled = False\<rparr>"
  using reach.reach_step [OF two_groups_fetch ss_move [of 0 _ g]] assms by (simp add: put_group_def)

lemma second_waits_reach: "reach start_init start_step second_waits"
  unfolding second_waits_def by (intro after_fetch gm_failed) (simp add: go_on_def)

lemma first_runs_reach: "reach start_init start_step first_runs"
  unfolding first_runs_def by (intro after_fetch gm_fetched) (simp add: go_on_def)

theorem handover_live_witness:
  "\<exists>g. group_move first_runs 0 (st_groups first_runs ! 0) g \<and> gp_phase g \<noteq> GroupEnded \<and> until_release g = 0"
proof -
  have "\<not> may_start 1 first_runs" "until_release (st_groups first_runs ! 0) = 1"
    by (simp_all add: may_start_def first_runs_def run_with_timer_def go_on_def new_group_def until_release_def)
  then show ?thesis
    using handover_live [OF first_runs_reach, of 1] by (auto simp: first_runs_def new_group_def)
qed

theorem background_pauses_witness:
  "gp_sleeps (st_groups second_waits ! 0) ! 0 = 10 * second"
  using background_pauses [OF second_waits_reach, of "st_groups second_waits ! 0" 0]
  by (simp add: second_waits_def first_sleep_def second_def)

end
