(* ===== verification/IosWatchdog.thy ===== *)
theory IosWatchdog
  imports Prelude
begin

text \<open>
  The health watchdog of \<^verbatim>\<open>ios_bridge.go\<close> (\<^verbatim>\<open>runIOSHealthWatchdog\<close>): every 30 seconds it looks at
  the byte counters of the tunnel and asks for a new transport when data goes out and nothing
  comes back. \<open>evaluate\<close> and \<open>health_kick\<close> are the two cases of its loop; \<open>samples\<close> is the history
  of what they saw since the last reset, which the state is proved to summarise.
\<close>

section \<open>State\<close>

record watchdog =
  wd_previousUp :: int
  wd_previousDown :: int
  wd_lastTX :: gotime
  wd_lastRX :: gotime
  wd_bytesUpAtLastRX :: int
  wd_lastTick :: gotime

definition new_watchdog :: "gotime \<Rightarrow> watchdog" where
  "new_watchdog now =
     \<lparr>wd_previousUp = 0, wd_previousDown = 0, wd_lastTX = 0, wd_lastRX = 0, wd_bytesUpAtLastRX = 0,
      wd_lastTick = now\<rparr>"

definition resetClocks :: "gotime \<Rightarrow> int \<Rightarrow> int \<Rightarrow> watchdog \<Rightarrow> watchdog" where
  "resetClocks now up down w =
     w\<lparr>wd_previousUp := up, wd_previousDown := down, wd_lastTX := 0, wd_lastRX := now,
       wd_bytesUpAtLastRX := up\<rparr>"

definition must_reset :: "duration \<Rightarrow> int \<Rightarrow> int \<Rightarrow> watchdog \<Rightarrow> bool" where
  "must_reset gap up down w \<longleftrightarrow> gap > 35 * second \<or> up < wd_previousUp w \<or> down < wd_previousDown w"

definition take_sample :: "gotime \<Rightarrow> int \<Rightarrow> int \<Rightarrow> watchdog \<Rightarrow> watchdog" where
  "take_sample now up down w =
     (let w1 = (if wd_lastRX w = 0 then w\<lparr>wd_lastRX := now, wd_bytesUpAtLastRX := up\<rparr> else w);
          w2 = (if up > wd_previousUp w1 then w1\<lparr>wd_lastTX := now\<rparr> else w1);
          w3 = (if down > wd_previousDown w2 then w2\<lparr>wd_lastRX := now, wd_bytesUpAtLastRX := up\<rparr> else w2)
      in w3\<lparr>wd_previousUp := up, wd_previousDown := down\<rparr>)"

definition no_answer :: "gotime \<Rightarrow> int \<Rightarrow> watchdog \<Rightarrow> bool" where
  "no_answer now up w \<longleftrightarrow>
     wd_lastTX w \<noteq> 0 \<and> now - wd_lastTX w \<le> 60 * second \<and> now - wd_lastRX w \<ge> 45 * second
     \<and> up - wd_bytesUpAtLastRX w \<ge> 2048"

text \<open>
  One tick; \<open>stats\<close> is the snapshot, if there is one, and \<open>accepted\<close> what \<^verbatim>\<open>requestReconnect\<close> answers.
  The result says whether it was called.
\<close>

definition evaluate :: "gotime \<Rightarrow> (int \<times> int) option \<Rightarrow> bool \<Rightarrow> watchdog \<Rightarrow> watchdog \<times> bool" where
  "evaluate now stats accepted w =
     (let gap = now - wd_lastTick w; w1 = w\<lparr>wd_lastTick := now\<rparr> in
      case stats of
        None \<Rightarrow> (w1, False)
      | Some (up, down) \<Rightarrow>
          if must_reset gap up down w1 then (resetClocks now up down w1, False)
          else
            (let w2 = take_sample now up down w1 in
             if no_answer now up w2 then (if accepted then resetClocks now up down w2 else w2, True)
             else (w2, False)))"

definition health_kick :: "gotime \<Rightarrow> (int \<times> int) option \<Rightarrow> watchdog \<Rightarrow> watchdog" where
  "health_kick now stats w =
     (let w1 = w\<lparr>wd_lastTick := now\<rparr> in
      case stats of None \<Rightarrow> w1 | Some (up, down) \<Rightarrow> resetClocks now up down w1)"

section \<open>Histories\<close>

datatype watchdog_event =
    Tick gotime "(int \<times> int) option" bool
  | Kick gotime "(int \<times> int) option"

type_synonym sample = "gotime \<times> int \<times> int"

fun watch :: "watchdog_event \<Rightarrow> watchdog \<times> sample list \<Rightarrow> watchdog \<times> sample list" where
  "watch (Kick now stats) (w, h) =
     (health_kick now stats w, case stats of None \<Rightarrow> h | Some (up, down) \<Rightarrow> [(now, up, down)])"
| "watch (Tick now stats accepted) (w, h) =
     (fst (evaluate now stats accepted w),
      case stats of
        None \<Rightarrow> h
      | Some (up, down) \<Rightarrow>
          if must_reset (now - wd_lastTick w) up down w \<or> snd (evaluate now stats accepted w) \<and> accepted
          then [(now, up, down)] else (now, up, down) # h)"

definition watch_all :: "gotime \<Rightarrow> watchdog_event list \<Rightarrow> watchdog \<times> sample list" where
  "watch_all start evs = fold watch evs (new_watchdog start, [(start, 0, 0)])"

text \<open>At time \<open>t\<close> more bytes had been sent than at the sample before.\<close>

fun sent_at :: "gotime \<Rightarrow> sample list \<Rightarrow> bool" where
  "sent_at t ((t', u, d) # (t0, u0, d0) # h) = (t = t' \<and> u > u0 \<or> sent_at t ((t0, u0, d0) # h))"
| "sent_at t h = False"

text \<open>Since the sample of time \<open>t\<close>, when \<open>u\<close> bytes had been sent, nothing more was received than \<open>d\<close>.\<close>

definition silent_since :: "gotime \<Rightarrow> int \<Rightarrow> int \<Rightarrow> sample list \<Rightarrow> bool" where
  "silent_since t u d h \<longleftrightarrow>
     (\<exists>h1 h2. h = h1 @ (t, u, d) # h2 \<and> (\<forall>(t', u', d') \<in> set h1. d' = d))"

fun summary :: "watchdog \<Rightarrow> sample list \<Rightarrow> bool" where
  "summary w [] = False"
| "summary w ((t, u, d) # h) =
     (wd_previousUp w = u \<and> wd_previousDown w = d
      \<and> (wd_lastTX w \<noteq> 0 \<longrightarrow> sent_at (wd_lastTX w) ((t, u, d) # h))
      \<and> (wd_lastRX w \<noteq> 0 \<longrightarrow> silent_since (wd_lastRX w) (wd_bytesUpAtLastRX w) d ((t, u, d) # h)))"

lemma silent_here: "silent_since t u d ((t, u, d) # h)"
  unfolding silent_since_def by (rule exI [of _ "[]"]) simp

lemma silent_more:
  assumes "silent_since t u d h"
  shows "silent_since t u d ((t', u', d) # h)"
proof -
  obtain h1 h2 where "h = h1 @ (t, u, d) # h2" "\<forall>(t', u', d') \<in> set h1. d' = d"
    using assms by (auto simp: silent_since_def)
  then show ?thesis
    unfolding silent_since_def by (intro exI [of _ "(t', u', d) # h1"] exI [of _ h2]) simp
qed

lemma summary_reset: "summary (resetClocks now up down w) [(now, up, down)]"
  by (simp add: resetClocks_def silent_here)

lemma summary_sample:
  assumes "summary w h" "0 < now" "\<not> must_reset gap up down w"
  shows "summary (take_sample now up down w) ((now, up, down) # h)"
proof (cases h)
  case Nil
  then show ?thesis
    using assms by simp
next
  case (Cons s h')
  obtain t u d where s: "s = (t, u, d)"
    by (cases s)
  have prev: "wd_previousUp w = u" "wd_previousDown w = d"
    "wd_lastTX w \<noteq> 0 \<longrightarrow> sent_at (wd_lastTX w) h"
    "wd_lastRX w \<noteq> 0 \<longrightarrow> silent_since (wd_lastRX w) (wd_bytesUpAtLastRX w) d h"
    using assms(1) by (simp_all add: Cons s)
  have "down \<ge> d"
    using assms(3) prev by (simp add: must_reset_def)
  then have "down = d \<or> down > d"
    by linarith
  then show ?thesis
    using prev assms(2) silent_more [of "wd_lastRX w" "wd_bytesUpAtLastRX w" d h now up]
    by (auto simp: take_sample_def Let_def silent_here Cons s)
qed

lemma take_sample_RX: "0 < now \<Longrightarrow> wd_lastRX (take_sample now up down w) \<noteq> 0"
  by (simp add: take_sample_def Let_def)

lemma summary_tick [simp]: "summary (w\<lparr>wd_lastTick := t\<rparr>) h = summary w h"
  by (cases h) auto

lemma must_reset_tick [simp]: "must_reset gap up down (w\<lparr>wd_lastTick := t\<rparr>) = must_reset gap up down w"
  by (simp add: must_reset_def)

fun event_ok :: "watchdog_event \<Rightarrow> bool" where
  "event_ok (Kick now stats) \<longleftrightarrow> 0 < now"
| "event_ok (Tick now stats accepted) \<longleftrightarrow> 0 < now"

lemma summary_watch:
  assumes "summary w h" "event_ok ev" "watch ev (w, h) = (w', h')"
  shows "summary w' h'"
proof (cases ev)
  case (Kick now stats)
  then show ?thesis
    using assms summary_reset
    by (cases stats) (auto simp: health_kick_def Let_def simp del: summary.simps)
next
  case (Tick now stats accepted)
  show ?thesis
  proof (cases stats)
    case None
    then show ?thesis
      using assms Tick by (auto simp: evaluate_def Let_def simp del: summary.simps)
  next
    case (Some ud)
    obtain up down where ud: "ud = (up, down)"
      by (cases ud)
    have now: "0 < now"
      using assms(2) by (simp add: Tick)
    have eq: "w' = fst (evaluate now (Some (up, down)) accepted w)"
      "h' = (if must_reset (now - wd_lastTick w) up down w \<or> snd (evaluate now (Some (up, down)) accepted w) \<and> accepted
             then [(now, up, down)] else (now, up, down) # h)"
      using assms(3) by (auto simp: Tick Some ud)
    show ?thesis
    proof (cases "must_reset (now - wd_lastTick w) up down w")
      case True
      then show ?thesis
        by (simp add: eq evaluate_def Let_def summary_reset del: summary.simps)
    next
      case False
      have s: "summary (take_sample now up down (w\<lparr>wd_lastTick := now\<rparr>)) ((now, up, down) # h)"
        by (rule summary_sample) (use assms(1) now False in \<open>simp_all del: summary.simps\<close>)
      show ?thesis
        using False s by (simp add: eq evaluate_def Let_def summary_reset del: summary.simps)
    qed
  qed
qed

lemma summary_all:
  assumes "\<forall>ev \<in> set evs. event_ok ev" "summary w h" "fold watch evs (w, h) = (w', h')"
  shows "summary w' h'"
  using assms
proof (induction evs arbitrary: w h)
  case Nil
  then show ?case by simp
next
  case (Cons ev evs)
  obtain v k where v: "watch ev (w, h) = (v, k)"
    by (cases "watch ev (w, h)")
  have "summary v k"
    using summary_watch [OF Cons.prems(2) _ v] Cons.prems(1) by simp
  then show ?case
    using Cons.IH [of v k] Cons.prems v by simp
qed

text \<open>
  C28. The watchdog asks for a new transport only for a tunnel that is dead: at the moment of the request there is a
  sample, at least 45 seconds old, since which not a byte was received in any sample, while at least 2048 bytes were sent
  since it, and at a sample of the last 60 seconds bytes were still being sent. So an idle tunnel, a tunnel that
  receives anything, and a device that slept are never restarted by it.
\<close>

theorem watchdog_sound:
  assumes "\<forall>ev \<in> set evs. event_ok ev" "watch_all start evs = (w, h)" "event_ok (Tick now (Some (up, down)) accepted)"
    and "evaluate now (Some (up, down)) accepted w = (w', True)"
  shows "\<exists>t u t'. silent_since t u down ((now, up, down) # h) \<and> now - t \<ge> 45 * second \<and> up - u \<ge> 2048
    \<and> sent_at t' ((now, up, down) # h) \<and> now - t' \<le> 60 * second \<and> now - wd_lastTick w \<le> 35 * second"
proof -
  have s0: "summary (new_watchdog start) [(start, 0, 0)]"
    by (simp add: new_watchdog_def)
  have s: "summary w h"
    by (rule summary_all [OF assms(1) s0]) (use assms(2) in \<open>simp add: watch_all_def\<close>)
  have now: "0 < now"
    using assms(3) by simp
  have r: "\<not> must_reset (now - wd_lastTick w) up down w"
    using assms(4) by (auto simp: evaluate_def Let_def split: if_splits)
  define v where "v = take_sample now up down (w\<lparr>wd_lastTick := now\<rparr>)"
  have "summary v ((now, up, down) # h)"
    unfolding v_def by (rule summary_sample) (use s now r in \<open>simp_all del: summary.simps\<close>)
  moreover have "wd_lastRX v \<noteq> 0"
    unfolding v_def by (rule take_sample_RX [OF now])
  moreover have "no_answer now up v"
    using assms(4) r by (auto simp: evaluate_def v_def Let_def split: if_splits)
  ultimately show ?thesis
    using r by (intro exI [of _ "wd_lastRX v"] exI [of _ "wd_bytesUpAtLastRX v"] exI [of _ "wd_lastTX v"])
      (simp add: no_answer_def must_reset_def)
qed

text \<open>
  A dead tunnel is noticed: after the clocks were reset, two ticks of the timer at most 35 seconds apart, the second one
  at least 45 seconds after the reset, in which nothing was received, while bytes were still sent before the second tick and
  2048 bytes altogether, make the watchdog ask for a new transport at the second tick.
\<close>

theorem watchdog_fires:
  assumes "0 < t0" "t0 \<le> t1" "t1 \<le> t2" "t1 - t0 \<le> 35 * second" "t2 - t1 \<le> 35 * second" "t2 - t0 \<ge> 45 * second"
    and "u0 \<le> u1" "u1 < u2" "u2 - u0 \<ge> 2048"
  shows "snd (evaluate t2 (Some (u2, d)) a
          (fst (evaluate t1 (Some (u1, d)) b (health_kick t0 (Some (u0, d)) w))))"
proof -
  have "t1 - t0 < 45 * second"
    using assms(4) by (simp add: second_def)
  then have one: "fst (evaluate t1 (Some (u1, d)) b (health_kick t0 (Some (u0, d)) w))
      = (if u0 < u1 then (health_kick t0 (Some (u0, d)) w)\<lparr>wd_lastTick := t1, wd_lastTX := t1, wd_previousUp := u1\<rparr>
         else (health_kick t0 (Some (u0, d)) w)\<lparr>wd_lastTick := t1, wd_previousUp := u1\<rparr>)"
    using assms(1,2,4,7)
    by (simp add: evaluate_def health_kick_def resetClocks_def must_reset_def take_sample_def no_answer_def Let_def)
  have "0 < t2" "0 < t1"
    using assms(1-3) by linarith+
  then show ?thesis
    unfolding one using assms
    by (simp add: evaluate_def health_kick_def resetClocks_def must_reset_def take_sample_def no_answer_def Let_def
        second_def)
qed

section \<open>Instances\<close>

definition dead_tunnel :: "watchdog_event list" where
  "dead_tunnel = [Kick (100 * second) (Some (1000, 500)), Tick (130 * second) (Some (2500, 500)) True]"

theorem watchdog_sound_witness:
  "\<exists>t u t'. silent_since t u 500 ((160 * second, 4000, 500) # snd (watch_all 1 dead_tunnel)) \<and> 160 * second - t \<ge> 45 * second
    \<and> 4000 - u \<ge> 2048"
proof -
  have ok: "\<forall>ev \<in> set dead_tunnel. event_ok ev" "event_ok (Tick (160 * second) (Some (4000, 500)) True)"
    by (simp_all add: dead_tunnel_def)
  obtain w h where w: "watch_all 1 dead_tunnel = (w, h)"
    by (cases "watch_all 1 dead_tunnel")
  have "snd (evaluate (160 * second) (Some (4000, 500)) True (fst (watch_all 1 dead_tunnel)))"
    by (simp add: watch_all_def dead_tunnel_def new_watchdog_def evaluate_def health_kick_def resetClocks_def
        must_reset_def take_sample_def no_answer_def Let_def second_def)
  then obtain w' where "evaluate (160 * second) (Some (4000, 500)) True w = (w', True)"
    using w by (cases "evaluate (160 * second) (Some (4000, 500)) True w") simp
  from watchdog_sound [OF ok(1) w ok(2) this] show ?thesis
    using w by auto
qed

theorem watchdog_fires_witness:
  "snd (evaluate (160 * second) (Some (4000, 500)) True
     (fst (evaluate (130 * second) (Some (2500, 500)) True
        (health_kick (100 * second) (Some (1000, 500)) (new_watchdog 1)))))"
  by (rule watchdog_fires) (simp_all add: second_def)

end
