(* ===== verification/IosRuntime.thy ===== *)
theory IosRuntime
  imports GoStrings
begin

text \<open>
  The transport loop of the iOS extension in \<^verbatim>\<open>ios_bridge.go\<close>: \<^verbatim>\<open>runTunnelLoop\<close> starts one
  transport after another, with a growing pause after failures, while \<^verbatim>\<open>requestReconnect\<close> (called by
  the watchdog and by a change of the network) asks for a new one at any moment. The regions between the
  lock, channel and context operations of the two are the steps; callers of \<^verbatim>\<open>requestReconnect\<close> are
  goroutines of their own. \<open>ir_requests\<close> records when requests were accepted, \<open>ir_fresh\<close> whether the
  request that is pending was made since the current transport started, \<open>ir_fails\<close> how many transports have failed on
  their own since the last one that was restarted on request or ended well.
\<close>

section \<open>State\<close>

datatype reconnect_caller =
    CallerToken nat
  | CallerCancel nat
  | CallerDone

datatype loop_phase =
    LoopTop
  | LoopRuns
  | LoopEnded bool
  | LoopWaits duration bool
  | LoopDone

record ios_runtime =
  ir_canceled :: bool
  ir_reconnectRequested :: bool
  ir_lastReconnect :: gotime
  ir_reconnectWake :: bool
  ir_attempt :: nat
  ir_attemptCanceled :: bool
  ir_backoff :: duration
  ir_phase :: loop_phase
  ir_callers :: "reconnect_caller list"
  ir_resets :: nat
  ir_now :: gotime
  ir_requests :: "gotime list"
  ir_fresh :: bool
  ir_fails :: nat

definition newIOSRuntime :: "gotime \<Rightarrow> ios_runtime" where
  "newIOSRuntime now =
     \<lparr>ir_canceled = False, ir_reconnectRequested = False, ir_lastReconnect = 0, ir_reconnectWake = False,
      ir_attempt = 0, ir_attemptCanceled = False, ir_backoff = second, ir_phase = LoopTop, ir_callers = [],
      ir_resets = 0, ir_now = now, ir_requests = [], ir_fresh = False, ir_fails = 0\<rparr>"

section \<open>requestReconnect\<close>

definition reconnect_refused :: "ios_runtime \<Rightarrow> bool" where
  "reconnect_refused r \<longleftrightarrow>
     ir_canceled r \<or> ir_lastReconnect r \<noteq> 0 \<and> ir_now r - ir_lastReconnect r < 1500 * millisecond"

text \<open>The region under the lock: the request, and the transport whose cancel function is read\<close>

definition request_region :: "ios_runtime \<Rightarrow> ios_runtime" where
  "request_region r =
     (if reconnect_refused r then r
      else r\<lparr>ir_lastReconnect := ir_now r, ir_reconnectRequested := True,
             ir_callers := ir_callers r @ [CallerToken (ir_attempt r)], ir_requests := ir_now r # ir_requests r,
             ir_fresh := (case ir_phase r of LoopRuns \<Rightarrow> True | LoopEnded e \<Rightarrow> True | _ \<Rightarrow> False)\<rparr>)"

definition send_wake :: "nat \<Rightarrow> nat \<Rightarrow> ios_runtime \<Rightarrow> ios_runtime" where
  "send_wake i a r = r\<lparr>ir_reconnectWake := True, ir_callers := (ir_callers r)[i := CallerCancel a]\<rparr>"

definition cancel_attempt :: "nat \<Rightarrow> nat \<Rightarrow> ios_runtime \<Rightarrow> ios_runtime" where
  "cancel_attempt i a r =
     r\<lparr>ir_attemptCanceled := ir_attemptCanceled r \<or> a = ir_attempt r \<and> ir_phase r = LoopRuns,
       ir_callers := (ir_callers r)[i := CallerDone]\<rparr>"

section \<open>runTunnelLoop\<close>

definition start_attempt :: "ios_runtime \<Rightarrow> ios_runtime" where
  "start_attempt r =
     (if ir_canceled r then r\<lparr>ir_phase := LoopDone\<rparr>
      else r\<lparr>ir_attempt := ir_attempt r + 1, ir_attemptCanceled := False, ir_phase := LoopRuns, ir_fresh := False\<rparr>)"

definition double_backoff :: "duration \<Rightarrow> duration" where
  "double_backoff b = (let b2 = b * 2 in if b2 > 15 * second then 15 * second else b2)"

definition consumeReconnectRequest :: "ios_runtime \<Rightarrow> bool \<times> ios_runtime" where
  [simp]: "consumeReconnectRequest r = (ir_reconnectRequested r, r\<lparr>ir_reconnectRequested := False\<rparr>)"

text \<open>After the transport: the choice of the pause\<close>

definition choose_pause :: "bool \<Rightarrow> ios_runtime \<Rightarrow> ios_runtime" where
  "choose_pause failed r =
     (if ir_canceled r then r\<lparr>ir_phase := LoopDone\<rparr>
      else
        (case consumeReconnectRequest r of (requested, r1) \<Rightarrow>
         if requested then
           r1\<lparr>ir_phase := LoopWaits (350 * millisecond) (ir_fresh r), ir_backoff := second, ir_resets := ir_resets r + 1,
              ir_fails := 0\<rparr>
         else if failed then
           r1\<lparr>ir_phase := LoopWaits (ir_backoff r) False, ir_backoff := double_backoff (ir_backoff r),
              ir_fails := ir_fails r + 1\<rparr>
         else r1\<lparr>ir_phase := LoopWaits second False, ir_backoff := second, ir_fails := 0\<rparr>))"

inductive ios_step :: "ios_runtime \<Rightarrow> ios_runtime \<Rightarrow> bool" where
  is_request: "ios_step r (request_region r)"
| is_wake: "i < length (ir_callers r) \<Longrightarrow> ir_callers r ! i = CallerToken a \<Longrightarrow> ios_step r (send_wake i a r)"
| is_cancel: "i < length (ir_callers r) \<Longrightarrow> ir_callers r ! i = CallerCancel a \<Longrightarrow> ios_step r (cancel_attempt i a r)"
| is_start: "ir_phase r = LoopTop \<Longrightarrow> ios_step r (start_attempt r)"
| is_end: "ir_phase r = LoopRuns \<Longrightarrow> ios_step r (r\<lparr>ir_phase := LoopEnded failed\<rparr>)"
| is_choose: "ir_phase r = LoopEnded failed \<Longrightarrow> ios_step r (choose_pause failed r)"
| is_woken: "ir_phase r = LoopWaits d b \<Longrightarrow> ir_reconnectWake r \<Longrightarrow>
    ios_step r (r\<lparr>ir_reconnectWake := False, ir_phase := LoopTop\<rparr>)"
| is_waited: "ir_phase r = LoopWaits d b \<Longrightarrow> ios_step r (r\<lparr>ir_phase := LoopTop\<rparr>)"
| is_stopped: "ir_phase r = LoopWaits d b \<Longrightarrow> ir_canceled r \<Longrightarrow> ios_step r (r\<lparr>ir_phase := LoopDone\<rparr>)"
| is_stop: "ios_step r (r\<lparr>ir_canceled := True\<rparr>)"
| is_tick: "ir_now r \<le> t \<Longrightarrow> ios_step r (r\<lparr>ir_now := t\<rparr>)"

definition ios_init :: "ios_runtime \<Rightarrow> bool" where
  "ios_init r \<longleftrightarrow> (\<exists>now > 0. r = newIOSRuntime now)"

section \<open>Invariant\<close>

fun apart :: "duration \<Rightarrow> gotime list \<Rightarrow> bool" where
  "apart d (a # b # ts) \<longleftrightarrow> b + d \<le> a \<and> apart d (b # ts)"
| "apart d ts \<longleftrightarrow> True"

text \<open>One second, doubled \<open>n\<close> times, at most fifteen\<close>

definition grown :: "nat \<Rightarrow> duration" where
  "grown n = min (15 * second) (2 ^ n * second)"

fun pause_ok :: "nat \<Rightarrow> loop_phase \<Rightarrow> bool" where
  "pause_ok n (LoopWaits d b) \<longleftrightarrow>
     (case n of
        0 \<Rightarrow> d = 350 * millisecond \<or> d = second \<and> \<not> b
      | Suc m \<Rightarrow> d = grown m \<and> \<not> b)"
| "pause_ok n ph \<longleftrightarrow> True"

definition pauses_inv :: "ios_runtime \<Rightarrow> bool" where
  "pauses_inv r \<longleftrightarrow> ir_backoff r = grown (ir_fails r) \<and> pause_ok (ir_fails r) (ir_phase r)"

definition requests_inv :: "ios_runtime \<Rightarrow> bool" where
  "requests_inv r \<longleftrightarrow>
     0 < ir_now r \<and> apart (1500 * millisecond) (ir_requests r)
     \<and> (case ir_requests r of [] \<Rightarrow> ir_lastReconnect r = 0 | t # ts \<Rightarrow> ir_lastReconnect r = t \<and> 0 < t \<and> t \<le> ir_now r)"

text \<open>A request made while the transport ran has its wake-up in the channel, or its caller is about to put it there.\<close>

definition wake_due :: "ios_runtime \<Rightarrow> bool" where
  "wake_due r \<longleftrightarrow> ir_reconnectWake r \<or> (\<exists>a. CallerToken a \<in> set (ir_callers r))"

definition wake_inv :: "ios_runtime \<Rightarrow> bool" where
  "wake_inv r \<longleftrightarrow>
     ((ir_phase r = LoopRuns \<or> (\<exists>e. ir_phase r = LoopEnded e)) \<and> ir_fresh r \<longrightarrow> wake_due r)
     \<and> (\<forall>d. ir_phase r = LoopWaits d True \<longrightarrow> wake_due r)"

definition ios_inv :: "ios_runtime \<Rightarrow> bool" where
  "ios_inv r \<longleftrightarrow> pauses_inv r \<and> requests_inv r \<and> wake_inv r"

lemma double_grown: "double_backoff (grown n) = grown (Suc n)"
  by (auto simp: grown_def double_backoff_def second_def min_def)

lemma grown_0: "grown 0 = second"
  by (simp add: grown_def second_def)

lemma pauses_step:
  assumes "pauses_inv r" "ios_step r r'"
  shows "pauses_inv r'"
  using assms(2,1)
  by cases (auto simp: pauses_inv_def request_region_def send_wake_def cancel_attempt_def start_attempt_def
      choose_pause_def Let_def double_grown grown_0)

lemma requests_step:
  assumes "requests_inv r" "ios_step r r'"
  shows "requests_inv r'"
  using assms(2,1)
  by cases (auto simp: requests_inv_def request_region_def send_wake_def cancel_attempt_def start_attempt_def
      choose_pause_def reconnect_refused_def Let_def split: list.splits)

lemma wake_step:
  assumes "wake_inv r" "ios_step r r'"
  shows "wake_inv r'"
  using assms(2)
proof cases
  case is_request
  then show ?thesis
    using assms(1) by (auto simp: wake_inv_def wake_due_def request_region_def split: loop_phase.splits)
next
  case (is_wake i a)
  then show ?thesis
    by (auto simp: wake_inv_def wake_due_def send_wake_def)
next
  case (is_cancel i a)
  have "CallerToken b \<in> set ((ir_callers r)[i := CallerDone])" if "CallerToken b \<in> set (ir_callers r)" for b
  proof -
    obtain j where j: "j < length (ir_callers r)" "ir_callers r ! j = CallerToken b"
      using \<open>CallerToken b \<in> set (ir_callers r)\<close> by (auto simp: in_set_conv_nth)
    then have "j \<noteq> i"
      using is_cancel(3) by auto
    then show ?thesis
      using j by (metis length_list_update nth_list_update_neq nth_mem)
  qed
  then show ?thesis
    using is_cancel(1) assms(1) by (auto simp: wake_inv_def wake_due_def cancel_attempt_def)
next
  case is_choose
  then show ?thesis
    using assms(1) by (auto simp: wake_inv_def wake_due_def choose_pause_def Let_def)
qed (use assms(1) in \<open>auto simp: wake_inv_def wake_due_def start_attempt_def\<close>)

lemma ios_inv_init: "ios_init r \<Longrightarrow> ios_inv r"
  by (auto simp: ios_init_def ios_inv_def newIOSRuntime_def pauses_inv_def requests_inv_def wake_inv_def grown_0)

interpretation ios_runs: invariant_system ios_init ios_step ios_inv
  by unfold_locales (auto simp: ios_inv_def intro: pauses_step requests_step wake_step dest: ios_inv_init)


text \<open>
  The pause of 350 milliseconds after a requested restart is not made: when the loop waits after a request that was
  made while the transport ran, the token that ends the wait is already in the channel, or the caller is about to
  put it there; it is put there before the transport is cancelled.
\<close>

theorem forced_pause_skipped:
  assumes "reach ios_init ios_step r" "ir_phase r = LoopWaits d True"
  shows "d = 350 * millisecond \<and> (ir_reconnectWake r \<or> (\<exists>a. CallerToken a \<in> set (ir_callers r)))"
  using ios_runs.reach_inv [OF assms(1)] assms(2)
  by (auto simp: ios_inv_def pauses_inv_def wake_inv_def wake_due_def split: nat.splits)

section \<open>A request that is served twice\<close>

text \<open>The states of a run: a transport fails, the request comes during the pause, the next transport fails too.\<close>

definition failed_once :: ios_runtime where
  "failed_once = choose_pause True ((start_attempt (newIOSRuntime 5))\<lparr>ir_phase := LoopEnded True\<rparr>)"

definition served :: ios_runtime where
  "served = (send_wake 0 1 (request_region failed_once))\<lparr>ir_reconnectWake := False, ir_phase := LoopTop\<rparr>"

definition failed_twice :: ios_runtime where
  "failed_twice = (start_attempt served)\<lparr>ir_phase := LoopEnded True\<rparr>"

lemmas runtime_eval = failed_once_def served_def failed_twice_def newIOSRuntime_def start_attempt_def choose_pause_def
  request_region_def reconnect_refused_def send_wake_def Let_def

lemma failed_once_reach: "reach ios_init ios_step failed_once"
proof -
  have "reach ios_init ios_step (newIOSRuntime 5)"
    by (rule reach.reach_init) (auto simp: ios_init_def intro: exI [of _ 5])
  then have "reach ios_init ios_step (start_attempt (newIOSRuntime 5))"
    by (rule reach.reach_step) (rule is_start, simp add: newIOSRuntime_def)
  then have "reach ios_init ios_step ((start_attempt (newIOSRuntime 5))\<lparr>ir_phase := LoopEnded True\<rparr>)"
    by (rule reach.reach_step) (rule is_end, simp add: newIOSRuntime_def start_attempt_def)
  then show ?thesis
    unfolding failed_once_def by (rule reach.reach_step) (rule is_choose, simp)
qed

lemma served_reach: "reach ios_init ios_step served"
proof -
  have "reach ios_init ios_step (request_region failed_once)"
    using failed_once_reach by (rule reach.reach_step) (rule is_request)
  then have "reach ios_init ios_step (send_wake 0 1 (request_region failed_once))"
    by (rule reach.reach_step) (rule is_wake, simp_all add: runtime_eval)
  then show ?thesis
    unfolding served_def by (rule reach.reach_step) (rule is_woken [of _ second False], simp_all add: runtime_eval)
qed

lemma failed_twice_reach: "reach ios_init ios_step failed_twice"
proof -
  have "reach ios_init ios_step (start_attempt served)"
    using served_reach by (rule reach.reach_step) (rule is_start, simp add: served_def)
  then show ?thesis
    unfolding failed_twice_def by (rule reach.reach_step) (rule is_end, simp add: runtime_eval)
qed

text \<open>
  A request for a new transport can be served twice: if it comes during the pause, it ends the pause at once but stays
  marked, and when the transport that was started for it fails on its own, that failure is taken for the requested restart
  too: it does not increase the backoff, and it resets the scheduler's knowledge of the endpoints.
\<close>

theorem request_served_twice:
  "\<exists>r r'. reach ios_init ios_step r \<and> ios_step r r' \<and> ir_phase r = LoopEnded True \<and> ir_attempt r = 2
     \<and> \<not> ir_fresh r \<and> length (ir_requests r) = 1
     \<and> ir_phase r' = LoopWaits (350 * millisecond) False \<and> ir_resets r' = 1 \<and> ir_backoff r' = second"
proof (intro exI conjI)
  show "reach ios_init ios_step failed_twice"
    by (rule failed_twice_reach)
  show "ios_step failed_twice (choose_pause True failed_twice)"
    by (rule is_choose) (simp add: failed_twice_def)
qed (simp_all add: runtime_eval)


lemma forced_wait_reach:
  "reach ios_init ios_step (choose_pause True (request_region ((start_attempt (newIOSRuntime 5))\<lparr>ir_phase := LoopEnded True\<rparr>)))"
proof -
  have "reach ios_init ios_step (newIOSRuntime 5)"
    by (rule reach.reach_init) (auto simp: ios_init_def intro: exI [of _ 5])
  then have "reach ios_init ios_step (start_attempt (newIOSRuntime 5))"
    by (rule reach.reach_step) (rule is_start, simp add: newIOSRuntime_def)
  then have "reach ios_init ios_step ((start_attempt (newIOSRuntime 5))\<lparr>ir_phase := LoopEnded True\<rparr>)"
    by (rule reach.reach_step) (rule is_end, simp add: newIOSRuntime_def start_attempt_def)
  then have "reach ios_init ios_step (request_region ((start_attempt (newIOSRuntime 5))\<lparr>ir_phase := LoopEnded True\<rparr>))"
    by (rule reach.reach_step) (rule is_request)
  then show ?thesis
    by (rule reach.reach_step) (rule is_choose, simp add: runtime_eval)
qed

theorem forced_pause_skipped_witness:
  "\<exists>a. CallerToken a \<in> set (ir_callers
     (choose_pause True (request_region ((start_attempt (newIOSRuntime 5))\<lparr>ir_phase := LoopEnded True\<rparr>))))"
proof -
  let ?r = "choose_pause True (request_region ((start_attempt (newIOSRuntime 5))\<lparr>ir_phase := LoopEnded True\<rparr>))"
  have "ir_phase ?r = LoopWaits (350 * millisecond) True" "\<not> ir_reconnectWake ?r"
    by (simp_all add: runtime_eval)
  then show ?thesis
    using forced_pause_skipped [OF forced_wait_reach] by blast
qed

end
