(* ===== verification/IosStats.thy ===== *)
theory IosStats
  imports GoStrings
begin

text \<open>
  The second watchdog of the iOS extension, \<^verbatim>\<open>watchActiveConnections\<close> of
  \<^verbatim>\<open>stats_publish_ios.go\<close>: it is called with the number of active connections at every tick of the
  statistics, and asks for a new transport when that number stays at zero. Its package variables are
  the record; \<open>history\<close> is the list of the calls since the runtime started, newest first.
\<close>

section \<open>State\<close>

definition iOSZeroWorkerMinChecks :: int where
  "iOSZeroWorkerMinChecks = 5"

definition iOSZeroWorkerGracePeriod :: duration where
  "iOSZeroWorkerGracePeriod = 30 * second"

definition iOSZeroWorkerReconnectCooldown :: duration where
  "iOSZeroWorkerReconnectCooldown = 90 * second"

record stats_watch =
  iw_runtime :: "nat option"
  iw_hadLive :: bool
  iw_zeroSince :: gotime
  iw_zeroChecks :: int
  iw_lastReconnect :: gotime
  iw_lastActive :: int
  iw_lastBand :: int

definition new_stats_watch :: stats_watch where
  "new_stats_watch =
     \<lparr>iw_runtime = None, iw_hadLive = False, iw_zeroSince = 0, iw_zeroChecks = 0, iw_lastReconnect = 0,
      iw_lastActive = - 1, iw_lastBand = - 1\<rparr>"

definition activeWorkerBand :: "int \<Rightarrow> int" where
  "activeWorkerBand active =
     (if active \<le> 0 then 0 else if active < 18 then 1 else if active < 54 then 2 else if active < 90 then 3 else 4)"

definition for_runtime :: "nat \<Rightarrow> stats_watch \<Rightarrow> stats_watch" where
  "for_runtime rt w =
     (if iw_runtime w \<noteq> Some rt
      then \<lparr>iw_runtime = Some rt, iw_hadLive = False, iw_zeroSince = 0, iw_zeroChecks = 0, iw_lastReconnect = 0,
            iw_lastActive = - 1, iw_lastBand = - 1\<rparr>
      else w)"

text \<open>The bands only decide what is logged.\<close>

definition note_band :: "int \<Rightarrow> stats_watch \<Rightarrow> stats_watch" where
  "note_band active w =
     (let band = activeWorkerBand active in
      if iw_lastActive w < 0 then w\<lparr>iw_lastActive := active, iw_lastBand := band\<rparr>
      else if band \<noteq> iw_lastBand w then w\<lparr>iw_lastBand := band, iw_lastActive := active\<rparr>
      else w\<lparr>iw_lastActive := active\<rparr>)"

definition zero_seen :: "gotime \<Rightarrow> stats_watch \<Rightarrow> stats_watch" where
  "zero_seen now w =
     (if iw_zeroSince w = 0 then w\<lparr>iw_zeroSince := now, iw_zeroChecks := 1\<rparr>
      else w\<lparr>iw_zeroChecks := iw_zeroChecks w + 1\<rparr>)"

definition zero_confirmed :: "gotime \<Rightarrow> stats_watch \<Rightarrow> bool" where
  "zero_confirmed now w \<longleftrightarrow>
     iw_zeroChecks w \<ge> iOSZeroWorkerMinChecks \<and> now - iw_zeroSince w \<ge> iOSZeroWorkerGracePeriod"

definition cooldown_ready :: "gotime \<Rightarrow> stats_watch \<Rightarrow> bool" where
  "cooldown_ready now w \<longleftrightarrow>
     iw_lastReconnect w = 0 \<or> now - iw_lastReconnect w \<ge> iOSZeroWorkerReconnectCooldown"

text \<open>
  One call for the running runtime \<open>rt\<close> at the time \<open>now\<close>. \<open>accepted\<close> is what \<^verbatim>\<open>requestReconnect\<close> answers, \<open>later\<close>
  the time after it. The result says whether it was called.
\<close>

definition watchActiveConnections ::
  "nat \<Rightarrow> gotime \<Rightarrow> int \<Rightarrow> bool \<Rightarrow> gotime \<Rightarrow> stats_watch \<Rightarrow> stats_watch \<times> bool"
where
  "watchActiveConnections rt now active accepted later w =
     (let w1 = note_band active (for_runtime rt w) in
      if active > 0 then (w1\<lparr>iw_hadLive := True, iw_zeroSince := 0, iw_zeroChecks := 0\<rparr>, False)
      else if iw_hadLive w1 then
        (let w2 = zero_seen now w1 in
         if zero_confirmed now w2 \<and> cooldown_ready now w2 then
           (let w3 = w2\<lparr>iw_zeroSince := now, iw_zeroChecks := 0\<rparr> in
            (if accepted then w3\<lparr>iw_lastReconnect := later\<rparr> else w3, True))
         else (w2, False))
      else (w1, False))"

section \<open>Histories\<close>

record stats_call =
  sc_now :: gotime
  sc_active :: int
  sc_accepted :: bool
  sc_later :: gotime

fun call_watch :: "nat \<Rightarrow> stats_call list \<Rightarrow> stats_watch \<times> bool" where
  "call_watch rt [] = (new_stats_watch, False)"
| "call_watch rt (c # cs) =
     watchActiveConnections rt (sc_now c) (sc_active c) (sc_accepted c) (sc_later c) (fst (call_watch rt cs))"

fun calls_ok :: "stats_call list \<Rightarrow> bool" where
  "calls_ok [] = True"
| "calls_ok [c] = (0 < sc_now c \<and> sc_now c \<le> sc_later c)"
| "calls_ok (c # d # cs) = (sc_later d \<le> sc_now c \<and> sc_now c \<le> sc_later c \<and> calls_ok (d # cs))"

text \<open>The calls since the last one with a live connection, newest first\<close>

definition zeros :: "stats_call list \<Rightarrow> stats_call list" where
  "zeros cs = takeWhile (\<lambda>c. sc_active c \<le> 0) cs"

text \<open>The times after the accepted requests\<close>

fun accepted_requests :: "nat \<Rightarrow> stats_call list \<Rightarrow> gotime list" where
  "accepted_requests rt [] = []"
| "accepted_requests rt (c # cs) =
     (if snd (call_watch rt (c # cs)) \<and> sc_accepted c then sc_later c # accepted_requests rt cs
      else accepted_requests rt cs)"

text \<open>What the variables say about the history\<close>

definition watch_inv :: "nat \<Rightarrow> stats_call list \<Rightarrow> stats_watch \<Rightarrow> bool" where
  "watch_inv rt cs w \<longleftrightarrow>
     (iw_runtime w = (if cs = [] then None else Some rt))
     \<and> (iw_hadLive w \<longleftrightarrow> (\<exists>c \<in> set cs. sc_active c > 0))
     \<and> (iw_zeroSince w \<noteq> 0 \<longrightarrow> (\<exists>c \<in> set (zeros cs). sc_now c = iw_zeroSince w))
     \<and> iw_zeroChecks w \<le> int (length (zeros cs))
     \<and> (case accepted_requests rt cs of [] \<Rightarrow> iw_lastReconnect w = 0 | t # ts \<Rightarrow> iw_lastReconnect w = t)"

lemma note_band_sel [simp]:
  "iw_runtime (note_band a w) = iw_runtime w" "iw_hadLive (note_band a w) = iw_hadLive w"
  "iw_zeroSince (note_band a w) = iw_zeroSince w" "iw_zeroChecks (note_band a w) = iw_zeroChecks w"
  "iw_lastReconnect (note_band a w) = iw_lastReconnect w"
  by (simp_all add: note_band_def Let_def)

lemma for_runtime_sel:
  assumes "watch_inv rt cs w"
  shows "iw_runtime (for_runtime rt w) = Some rt" "iw_hadLive (for_runtime rt w) = iw_hadLive w"
    "iw_zeroSince (for_runtime rt w) = iw_zeroSince w"
    "iw_zeroChecks (for_runtime rt w) \<le> int (length (zeros cs))"
    "iw_lastReconnect (for_runtime rt w) = iw_lastReconnect w"
  using assms by (cases cs; auto simp: watch_inv_def for_runtime_def zeros_def)+

lemma calls_ok_tl: "calls_ok (c # cs) \<Longrightarrow> calls_ok cs"
  by (cases cs) auto

lemma calls_ok_pos: "calls_ok (c # cs) \<Longrightarrow> 0 < sc_now c \<and> sc_now c \<le> sc_later c"
proof (induction cs arbitrary: c)
  case (Cons d cs)
  then show ?case
    by fastforce
qed simp

lemma watch_inv_call:
  assumes "watch_inv rt cs (fst (call_watch rt cs))" "calls_ok (c # cs)"
  shows "watch_inv rt (c # cs) (fst (call_watch rt (c # cs)))"
proof -
  define w where "w = fst (call_watch rt cs)"
  note s = for_runtime_sel [OF assms(1), folded w_def]
  have inv: "watch_inv rt cs w"
    using assms(1) by (simp add: w_def)
  have pos: "0 < sc_now c" "0 < sc_later c"
    using calls_ok_pos [OF assms(2)] by auto
  show ?thesis
  proof (cases "sc_active c > 0")
    case True
    then show ?thesis
      using inv s pos
      by (auto simp: watch_inv_def watchActiveConnections_def Let_def w_def [symmetric] zeros_def split: list.splits)
  next
    case zero: False
    then have z: "zeros (c # cs) = c # zeros cs"
      by (simp add: zeros_def)
    show ?thesis
    proof (cases "iw_hadLive w")
      case True
      then show ?thesis
        using inv s zero pos z
        by (auto simp: watch_inv_def watchActiveConnections_def Let_def w_def [symmetric] zero_seen_def
            split: list.splits)
    next
      case False
      then show ?thesis
        using inv s zero pos z
        by (auto simp: watch_inv_def watchActiveConnections_def Let_def w_def [symmetric] split: list.splits)
    qed
  qed
qed

lemma watch_inv_all: "calls_ok cs \<Longrightarrow> watch_inv rt cs (fst (call_watch rt cs))"
proof (induction cs)
  case Nil
  then show ?case
    by (simp add: watch_inv_def new_stats_watch_def zeros_def)
next
  case (Cons c cs)
  then show ?case
    using watch_inv_call calls_ok_tl by blast
qed

text \<open>
  The transport is not restarted because of a short gap: when the zero-worker watchdog asks for a new transport, the
  tunnel had a live connection before, this call and at least four before it, without a live one in between, saw no
  connection, the first of them at least 30 seconds ago, and the last accepted request was at least 90 seconds ago.
\<close>

theorem zero_watchdog_sound:
  assumes "calls_ok (c # cs)" "snd (call_watch rt (c # cs))"
  shows "(\<exists>d \<in> set cs. sc_active d > 0) \<and> length (zeros (c # cs)) \<ge> 5
    \<and> (\<exists>d \<in> set (zeros (c # cs)). sc_now c - sc_now d \<ge> 30 * second)
    \<and> (\<forall>t ts. accepted_requests rt cs = t # ts \<and> t \<noteq> 0 \<longrightarrow> sc_now c - t \<ge> 90 * second)"
proof -
  define w where "w = fst (call_watch rt cs)"
  have inv: "watch_inv rt cs w"
    using watch_inv_all calls_ok_tl [OF assms(1)] by (simp add: w_def)
  note s = for_runtime_sel [OF inv]
  let ?w1 = "note_band (sc_active c) (for_runtime rt w)"
  have req: "\<not> sc_active c > 0" "iw_hadLive ?w1" "zero_confirmed (sc_now c) (zero_seen (sc_now c) ?w1)"
    "cooldown_ready (sc_now c) (zero_seen (sc_now c) ?w1)"
    using assms(2) by (auto simp: watchActiveConnections_def Let_def w_def split: if_splits)
  have z: "zeros (c # cs) = c # zeros cs"
    using req(1) by (simp add: zeros_def)
  have since: "iw_zeroSince ?w1 \<noteq> 0"
    using req(3) by (auto simp: zero_confirmed_def zero_seen_def iOSZeroWorkerMinChecks_def)
  then obtain d where d: "d \<in> set (zeros cs)" "sc_now d = iw_zeroSince w"
    using inv s(3) by (auto simp: watch_inv_def)
  have "5 \<le> iw_zeroChecks ?w1 + 1" "30 * second \<le> sc_now c - iw_zeroSince ?w1"
    using req(3) since by (auto simp: zero_confirmed_def zero_seen_def iOSZeroWorkerMinChecks_def iOSZeroWorkerGracePeriod_def)
  moreover have "iw_lastReconnect w = 0 \<or> sc_now c - iw_lastReconnect w \<ge> 90 * second"
    using req(4) s(5)
    by (auto simp: cooldown_ready_def zero_seen_def iOSZeroWorkerReconnectCooldown_def split: if_splits)
  ultimately show ?thesis
    using inv s d req(2) z by (auto simp: watch_inv_def intro: bexI [of _ d])
qed

definition dead_calls :: "stats_call list" where
  "dead_calls =
     map (\<lambda>t. \<lparr>sc_now = t * second, sc_active = (if t = 2 then 3 else 0), sc_accepted = True, sc_later = t * second\<rparr>)
       [34, 20, 16, 12, 8, 4, 2]"

theorem zero_watchdog_sound_witness:
  "length (zeros dead_calls) \<ge> 5 \<and> sc_now (hd dead_calls) - 4 * second \<ge> 30 * second"
proof -
  have eq: "dead_calls = hd dead_calls # tl dead_calls"
    by (simp add: dead_calls_def)
  have "calls_ok dead_calls" "snd (call_watch 1 dead_calls)"
    by code_simp+
  then show ?thesis
    using zero_watchdog_sound [of "hd dead_calls" "tl dead_calls" 1] eq by (simp add: dead_calls_def second_def)
qed

end
