(* ===== verification/WgConfig.thy ===== *)
theory WgConfig
  imports Obfs
begin

text \<open>
  The WireGuard configuration the server sends: \<^verbatim>\<open>parseWgQuick\<close> and \<^verbatim>\<open>ipcRequest\<close> of
  \<^verbatim>\<open>socks_wg.go\<close>, \<^verbatim>\<open>ensureIOSMTU\<close> and \<^verbatim>\<open>extractIOSNetworkConfigJSON\<close> of
  \<^verbatim>\<open>ios_bridge.go\<close> and the MTU line of \<^verbatim>\<open>main.go\<close>. The decoders of base64 keys and of
  IP addresses are the parameters \<open>b64\<close>, \<open>parse_prefix\<close> and \<open>parse_addr\<close>; nothing is assumed of them.
  The lemmas say what every accepted configuration looks like and that its values stay in their lines.
\<close>

section \<open>The parsed configuration\<close>

record 'a wgQuickConfig =
  wc_privateKeyHex :: string
  wc_addresses :: "'a list"
  wc_dns :: "'a list"
  wc_mtu :: int
  wc_peerPublicHex :: string
  wc_allowedIPs :: "string list"
  wc_endpoint :: string
  wc_keepalive :: int

definition b64KeyToHex :: "(string \<Rightarrow> goerr + byte list) \<Rightarrow> string \<Rightarrow> goerr + string" where
  "b64KeyToHex b64 s =
     (case b64 (trim_space s) of
        Inl e \<Rightarrow> Inl e
      | Inr raw \<Rightarrow>
          if length raw \<noteq> 32
          then Inl (ErrText (''wireguard key must be 32 bytes, got '' @ itoa (int (length raw))))
          else Inr (hex_string raw))"

definition empty_config :: "'a wgQuickConfig" where
  "empty_config =
     \<lparr>wc_privateKeyHex = [], wc_addresses = [], wc_dns = [], wc_mtu = 1280, wc_peerPublicHex = [],
      wc_allowedIPs = [], wc_endpoint = [], wc_keepalive = 25\<rparr>"

text \<open>The parts of a list of values, trimmed, without the empty ones\<close>

definition comma_parts :: "string \<Rightarrow> string list" where
  "comma_parts val = [p \<leftarrow> map trim_space (split_at CHR '','' val). p \<noteq> []]"

fun parse_addresses ::
  "(string \<Rightarrow> goerr + 'a \<times> int) \<Rightarrow> (string \<Rightarrow> goerr + 'a) \<Rightarrow> string list \<Rightarrow> 'a list \<Rightarrow> goerr + 'a list"
where
  "parse_addresses pp pa [] acc = Inr acc"
| "parse_addresses pp pa (part # parts) acc =
     (case pp part of
        Inr (addr, bits) \<Rightarrow> parse_addresses pp pa parts (acc @ [addr])
      | Inl e \<Rightarrow>
          (case pa part of
             Inl e2 \<Rightarrow> Inl (ErrWrap (''Address '' @ go_quote part @ '': '') e [])
           | Inr addr \<Rightarrow> parse_addresses pp pa parts (acc @ [addr])))"

fun parse_dns :: "(string \<Rightarrow> goerr + 'a) \<Rightarrow> string list \<Rightarrow> 'a list \<Rightarrow> goerr + 'a list" where
  "parse_dns pa [] acc = Inr acc"
| "parse_dns pa (part # parts) acc =
     (case pa part of
        Inl e \<Rightarrow> Inl (ErrWrap (''DNS '' @ go_quote part @ '': '') e [])
      | Inr addr \<Rightarrow> parse_dns pa parts (acc @ [addr]))"

record 'a ip_parsers =
  ip_b64 :: "string \<Rightarrow> goerr + byte list"
  ip_prefix :: "string \<Rightarrow> goerr + 'a \<times> int"
  ip_addr :: "string \<Rightarrow> goerr + 'a"

definition interface_key ::
  "'a ip_parsers \<Rightarrow> string \<Rightarrow> string \<Rightarrow> 'a wgQuickConfig \<Rightarrow> goerr + 'a wgQuickConfig"
where
  "interface_key P key val cfg =
     (if key = ''privatekey'' then
        (case b64KeyToHex (ip_b64 P) val of
           Inl e \<Rightarrow> Inl (ErrWrap ''PrivateKey: '' e [])
         | Inr h \<Rightarrow> Inr (cfg\<lparr>wc_privateKeyHex := h\<rparr>))
      else if key = ''address'' then
        (case parse_addresses (ip_prefix P) (ip_addr P) (comma_parts val) (wc_addresses cfg) of
           Inl e \<Rightarrow> Inl e
         | Inr addrs \<Rightarrow> Inr (cfg\<lparr>wc_addresses := addrs\<rparr>))
      else if key = ''dns'' then
        (case parse_dns (ip_addr P) (comma_parts val) (wc_dns cfg) of
           Inl e \<Rightarrow> Inl e
         | Inr addrs \<Rightarrow> Inr (cfg\<lparr>wc_dns := addrs\<rparr>))
      else if key = ''mtu'' then
        (case atoi val of
           (mtu, ok) \<Rightarrow>
             if \<not> ok \<or> mtu < 576 then Inl (ErrText (''MTU '' @ go_quote val @ '': invalid''))
             else Inr (cfg\<lparr>wc_mtu := mtu\<rparr>))
      else Inr cfg)"

definition peer_key ::
  "'a ip_parsers \<Rightarrow> string \<Rightarrow> string \<Rightarrow> 'a wgQuickConfig \<Rightarrow> goerr + 'a wgQuickConfig"
where
  "peer_key P key val cfg =
     (if key = ''publickey'' then
        (case b64KeyToHex (ip_b64 P) val of
           Inl e \<Rightarrow> Inl (ErrWrap ''PublicKey: '' e [])
         | Inr h \<Rightarrow> Inr (cfg\<lparr>wc_peerPublicHex := h\<rparr>))
      else if key = ''allowedips'' then Inr (cfg\<lparr>wc_allowedIPs := wc_allowedIPs cfg @ comma_parts val\<rparr>)
      else if key = ''endpoint'' then Inr (cfg\<lparr>wc_endpoint := val\<rparr>)
      else if key = ''persistentkeepalive'' then
        (case atoi val of
           (n, ok) \<Rightarrow>
             if \<not> ok \<or> n < 0 \<or> n > 65535
             then Inl (ErrText (''PersistentKeepalive '' @ go_quote val @ '': invalid''))
             else Inr (cfg\<lparr>wc_keepalive := n\<rparr>))
      else Inr cfg)"

definition is_comment :: "string \<Rightarrow> bool" where
  "is_comment line \<longleftrightarrow> line = [] \<or> has_prefix line ''#'' \<or> has_prefix line '';''"

definition section_name :: "string \<Rightarrow> string option" where
  "section_name line =
     (if has_prefix line ''['' \<and> has_suffix line '']''
      then Some (to_lower (trim_space (butlast (tl line)))) else None)"

definition parse_line ::
  "'a ip_parsers \<Rightarrow> string \<Rightarrow> string \<times> 'a wgQuickConfig \<Rightarrow> goerr + (string \<times> 'a wgQuickConfig)"
where
  "parse_line P raw sc =
     (case sc of (sect, cfg) \<Rightarrow>
        let line = trim_space raw in
        if is_comment line then Inr (sect, cfg)
        else
          (case section_name line of
             Some s \<Rightarrow> Inr (s, cfg)
           | None \<Rightarrow>
               (case cut_at CHR ''='' line of
                  None \<Rightarrow> Inr (sect, cfg)
                | Some (k, v) \<Rightarrow>
                    let key = trim_space (to_lower k); val = trim_space v;
                        r = (if sect = ''interface'' then interface_key P key val cfg
                             else if sect = ''peer'' then peer_key P key val cfg
                             else Inr cfg) in
                    (case r of Inl e \<Rightarrow> Inl e | Inr cfg' \<Rightarrow> Inr (sect, cfg')))))"

fun parse_lines ::
  "'a ip_parsers \<Rightarrow> string list \<Rightarrow> string \<times> 'a wgQuickConfig \<Rightarrow> goerr + 'a wgQuickConfig"
where
  "parse_lines P [] (sect, cfg) = Inr cfg"
| "parse_lines P (raw # lines) sc =
     (case parse_line P raw sc of Inl e \<Rightarrow> Inl e | Inr sc' \<Rightarrow> parse_lines P lines sc')"

text \<open>The checks and defaults at the end; \<open>default_dns\<close> is the address 1.1.1.1.\<close>

definition finish_config :: "'a \<Rightarrow> 'a wgQuickConfig \<Rightarrow> goerr + 'a wgQuickConfig" where
  "finish_config default_dns cfg =
     (if wc_privateKeyHex cfg = [] \<or> wc_peerPublicHex cfg = []
      then Inl (ErrText ''config missing PrivateKey or Peer PublicKey'')
      else if wc_addresses cfg = [] then Inl (ErrText ''config missing Address'')
      else if wc_endpoint cfg = [] then Inl (ErrText ''config missing Endpoint'')
      else
        (let c1 = (if wc_allowedIPs cfg = [] then cfg\<lparr>wc_allowedIPs := [''0.0.0.0/0'']\<rparr> else cfg)
         in Inr (if wc_dns c1 = [] then c1\<lparr>wc_dns := [default_dns]\<rparr> else c1)))"

definition parseWgQuick :: "'a ip_parsers \<Rightarrow> 'a \<Rightarrow> string \<Rightarrow> goerr + 'a wgQuickConfig" where
  "parseWgQuick P default_dns conf =
     (case parse_lines P (split_at (CHR 0x0A) conf) ([], empty_config) of
        Inl e \<Rightarrow> Inl e
      | Inr cfg \<Rightarrow> finish_config default_dns cfg)"

definition ipc_lines :: "'a wgQuickConfig \<Rightarrow> string list" where
  "ipc_lines c =
     [''private_key='' @ wc_privateKeyHex c, ''public_key='' @ wc_peerPublicHex c, ''endpoint='' @ wc_endpoint c,
      ''persistent_keepalive_interval='' @ itoa (wc_keepalive c)]
     @ map (\<lambda>ip. ''allowed_ip='' @ ip) (wc_allowedIPs c)"

definition ipcRequest :: "'a wgQuickConfig \<Rightarrow> string" where
  "ipcRequest c = concat (map (\<lambda>l. l @ [CHR 0x0A]) (ipc_lines c))"


definition mtu_line :: string where
  "mtu_line = ''MTU = 1280''"

text \<open>The loop of \<^verbatim>\<open>ensureIOSMTU\<close> (equal up to case) and of \<^verbatim>\<open>main.go\<close> (equal)\<close>

definition insert_mtu :: "(string \<Rightarrow> bool) \<Rightarrow> string list \<Rightarrow> string list" where
  "insert_mtu is_head lines = concat (map (\<lambda>l. if is_head (trim_space l) then [l, mtu_line] else [l]) lines)"

definition ensureIOSMTU :: "string \<Rightarrow> string" where
  "ensureIOSMTU conf =
     (if contains (to_lower conf) ''mtu ='' then conf
      else join [CHR 0x0A]
             (insert_mtu (\<lambda>l. equal_fold l ''[Interface]'') (split_at (CHR 0x0A) conf)))"

definition desktop_config :: "string \<Rightarrow> string" where
  "desktop_config conf =
     (if contains conf ''MTU ='' then conf
      else join [CHR 0x0A] (insert_mtu (\<lambda>l. l = ''[Interface]'') (split_at (CHR 0x0A) conf)))"

section \<open>The settings of the iOS network extension\<close>

record iosNetworkConfig =
  nc_IPv4Address :: string
  nc_IPv4Prefix :: int
  nc_IPv6Address :: string
  nc_IPv6Prefix :: int
  nc_DNSServers :: "string list"
  nc_MTU :: int

text \<open>Of an address the code asks its family and its text.\<close>

record 'a addr_view =
  av_is4 :: "'a \<Rightarrow> bool"
  av_is6 :: "'a \<Rightarrow> bool"
  av_text :: "'a \<Rightarrow> string"

definition take_address :: "'a addr_view \<Rightarrow> 'a \<Rightarrow> int \<Rightarrow> int \<Rightarrow> iosNetworkConfig \<Rightarrow> iosNetworkConfig" where
  "take_address A addr bits4 bits6 c =
     (if av_is4 A addr \<and> nc_IPv4Address c = []
      then c\<lparr>nc_IPv4Address := av_text A addr, nc_IPv4Prefix := bits4\<rparr>
      else if av_is6 A addr \<and> nc_IPv6Address c = []
      then c\<lparr>nc_IPv6Address := av_text A addr, nc_IPv6Prefix := bits6\<rparr>
      else c)"

definition take_item :: "'a ip_parsers \<Rightarrow> 'a addr_view \<Rightarrow> string \<Rightarrow> iosNetworkConfig \<Rightarrow> iosNetworkConfig" where
  "take_item P A item c =
     (case ip_prefix P item of
        Inr (addr, bits) \<Rightarrow> take_address A addr bits bits c
      | Inl _ \<Rightarrow>
          (case ip_addr P item of
             Inr addr \<Rightarrow> take_address A addr 32 128 c
           | Inl _ \<Rightarrow> c))"

definition network_key ::
  "'a ip_parsers \<Rightarrow> 'a addr_view \<Rightarrow> string \<Rightarrow> string \<Rightarrow> iosNetworkConfig \<Rightarrow> iosNetworkConfig"
where
  "network_key P A key val c =
     (if key = ''address'' then fold (take_item P A) (comma_parts val) c
      else if key = ''dns'' then c\<lparr>nc_DNSServers := nc_DNSServers c @ comma_parts val\<rparr>
      else if key = ''mtu'' then
        (case atoi val of (mtu, ok) \<Rightarrow> if ok \<and> 576 \<le> mtu \<and> mtu \<le> 9000 then c\<lparr>nc_MTU := mtu\<rparr> else c)
      else c)"

definition network_line ::
  "'a ip_parsers \<Rightarrow> 'a addr_view \<Rightarrow> string \<Rightarrow> string \<times> iosNetworkConfig \<Rightarrow> string \<times> iosNetworkConfig"
where
  "network_line P A raw sc =
     (case sc of (sect, c) \<Rightarrow>
        let line = trim_space raw in
        if is_comment line then sc
        else
          (case section_name line of
             Some s \<Rightarrow> (s, c)
           | None \<Rightarrow>
               if sect \<noteq> ''interface'' then sc
               else
                 (case cut_at CHR ''='' line of
                    None \<Rightarrow> sc
                  | Some (k, v) \<Rightarrow> (sect, network_key P A (to_lower (trim_space k)) (trim_space v) c))))"

text \<open>\<^verbatim>\<open>extractIOSNetworkConfigJSON\<close> up to the value it marshals\<close>

definition extractIOSNetworkConfig :: "'a ip_parsers \<Rightarrow> 'a addr_view \<Rightarrow> string \<Rightarrow> iosNetworkConfig" where
  "extractIOSNetworkConfig P A conf =
     (let c = snd (fold (network_line P A) (split_at (CHR 0x0A) conf)
                ([], \<lparr>nc_IPv4Address = [], nc_IPv4Prefix = 0, nc_IPv6Address = [], nc_IPv6Prefix = 0,
                      nc_DNSServers = [], nc_MTU = 1280\<rparr>))
      in if nc_DNSServers c = [] then c\<lparr>nc_DNSServers := [''1.1.1.1'', ''8.8.8.8'']\<rparr> else c)"

section \<open>What an accepted configuration looks like\<close>

definition good_key :: "string \<Rightarrow> bool" where
  "good_key k \<longleftrightarrow> length k = 64 \<and> set k \<subseteq> hex_digits"

lemma b64KeyToHex_good: "b64KeyToHex b64 s = Inr h \<Longrightarrow> good_key h"
  by (auto simp: b64KeyToHex_def good_key_def hex_string_length dest: subsetD [OF hex_string_digits]
      split: sum.splits if_splits)

text \<open>A value of a line: on one line, without white space around it\<close>

definition clean :: "string \<Rightarrow> bool" where
  "clean v \<longleftrightarrow> CHR 0x0A \<notin> set v \<and> trim_space v = v"

definition partial_ok :: "'a wgQuickConfig \<Rightarrow> bool" where
  "partial_ok c \<longleftrightarrow>
     (wc_privateKeyHex c = [] \<or> good_key (wc_privateKeyHex c)) \<and>
     (wc_peerPublicHex c = [] \<or> good_key (wc_peerPublicHex c)) \<and>
     576 \<le> wc_mtu c \<and> 0 \<le> wc_keepalive c \<and> wc_keepalive c \<le> 65535 \<and>
     clean (wc_endpoint c) \<and> (\<forall>ip \<in> set (wc_allowedIPs c). clean ip \<and> ip \<noteq> [])"

lemma trim_space_set: "c \<in> set (trim_space s) \<Longrightarrow> c \<in> set s"
  using trim_with_set unfolding trim_space_def by blast

lemma clean_trim: "CHR 0x0A \<notin> set v \<Longrightarrow> clean (trim_space v)"
  by (auto simp: clean_def dest: trim_space_set)

lemma split_at_set: "w \<in> set (split_at d s) \<Longrightarrow> set w \<subseteq> set s"
proof (induction s arbitrary: w)
  case (Cons c s)
  then show ?case by (cases "split_at d s") (fastforce split: if_splits)+
qed simp

lemma comma_parts_clean:
  "CHR 0x0A \<notin> set val \<Longrightarrow> p \<in> set (comma_parts val) \<Longrightarrow> clean p \<and> p \<noteq> []"
  by (auto simp: comma_parts_def intro!: clean_trim dest: split_at_set)

lemma partial_ok_update:
  "partial_ok c \<Longrightarrow> good_key h \<Longrightarrow> partial_ok (c\<lparr>wc_privateKeyHex := h\<rparr>)"
  "partial_ok c \<Longrightarrow> good_key h \<Longrightarrow> partial_ok (c\<lparr>wc_peerPublicHex := h\<rparr>)"
  "partial_ok c \<Longrightarrow> partial_ok (c\<lparr>wc_addresses := as\<rparr>)"
  "partial_ok c \<Longrightarrow> partial_ok (c\<lparr>wc_dns := as\<rparr>)"
  "partial_ok c \<Longrightarrow> 576 \<le> m \<Longrightarrow> partial_ok (c\<lparr>wc_mtu := m\<rparr>)"
  "partial_ok c \<Longrightarrow> 0 \<le> m \<Longrightarrow> m \<le> 65535 \<Longrightarrow> partial_ok (c\<lparr>wc_keepalive := m\<rparr>)"
  "partial_ok c \<Longrightarrow> clean v \<Longrightarrow> partial_ok (c\<lparr>wc_endpoint := v\<rparr>)"
  "partial_ok c \<Longrightarrow> CHR 0x0A \<notin> set v \<Longrightarrow>
     partial_ok (c\<lparr>wc_allowedIPs := wc_allowedIPs c @ comma_parts v\<rparr>)"
  using comma_parts_clean [of v] by (auto simp: partial_ok_def)

lemma interface_key_ok:
  assumes "interface_key P key val c = Inr c'" and ok: "partial_ok c"
  shows "partial_ok c'"
  using assms(1)
  by (simp add: interface_key_def split: if_split_asm sum.split_asm prod.split_asm)
    (use ok in \<open>auto intro: partial_ok_update dest: b64KeyToHex_good\<close>)

lemma peer_key_ok:
  assumes "peer_key P key val c = Inr c'" and v: "clean val" and ok: "partial_ok c"
  shows "partial_ok c'"
  using assms(1)
  by (simp add: peer_key_def split: if_split_asm sum.split_asm prod.split_asm)
    (use ok v in \<open>auto intro!: partial_ok_update simp: clean_def dest: b64KeyToHex_good\<close>)

lemma cut_at_sub: "cut_at d s = Some (a, b) \<Longrightarrow> set b \<subseteq> set s"
  by (auto simp: cut_at_Some_iff)

lemma parse_line_ok:
  assumes "parse_line P raw (sect, c) = Inr (sect', c')" and nl: "CHR 0x0A \<notin> set raw" and "partial_ok c"
  shows "partial_ok c'"
proof -
  have "CHR 0x0A \<notin> set (trim_space raw)" using nl by (auto dest: trim_space_set)
  then have v: "clean (trim_space v)" if "cut_at d (trim_space raw) = Some (k, v)" for d k v
    using that by (auto intro!: clean_trim dest: cut_at_sub)
  show ?thesis
    using assms(1)
    by (simp add: parse_line_def Let_def split: if_split_asm option.split_asm sum.split_asm prod.split_asm)
      (use \<open>partial_ok c\<close> v in \<open>auto intro: interface_key_ok peer_key_ok\<close>)
qed

lemma parse_lines_ok:
  "parse_lines P lines sc = Inr c' \<Longrightarrow> \<forall>l \<in> set lines. CHR 0x0A \<notin> set l \<Longrightarrow> partial_ok (snd sc) \<Longrightarrow>
   partial_ok c'"
  by (induction P lines sc rule: parse_lines.induct) (auto split: sum.splits dest: parse_line_ok)

lemma empty_config_ok: "partial_ok empty_config"
  by (simp add: partial_ok_def empty_config_def clean_def trim_space_def trim_with_def)

definition well_formed_config :: "'a wgQuickConfig \<Rightarrow> bool" where
  "well_formed_config c \<longleftrightarrow>
     good_key (wc_privateKeyHex c) \<and> good_key (wc_peerPublicHex c) \<and> wc_addresses c \<noteq> [] \<and>
     wc_dns c \<noteq> [] \<and> 576 \<le> wc_mtu c \<and> 0 \<le> wc_keepalive c \<and> wc_keepalive c \<le> 65535 \<and>
     wc_endpoint c \<noteq> [] \<and> clean (wc_endpoint c) \<and> wc_allowedIPs c \<noteq> [] \<and>
     (\<forall>ip \<in> set (wc_allowedIPs c). clean ip \<and> ip \<noteq> [])"

lemma clean_default: "clean ''0.0.0.0/0''"
  by code_simp

lemma finish_config_ok:
  assumes fin: "finish_config d c = Inr c'" and ok: "partial_ok c"
  shows "well_formed_config c'"
proof -
  define ips where "ips = (if wc_allowedIPs c = [] then [''0.0.0.0/0''] else wc_allowedIPs c)"
  have ips: "ips \<noteq> [] \<and> (\<forall>ip \<in> set ips. clean ip \<and> ip \<noteq> [])"
    using ok by (simp add: ips_def partial_ok_def clean_default)
  have filled: "wc_privateKeyHex c \<noteq> []" "wc_peerPublicHex c \<noteq> []" "wc_addresses c \<noteq> []" "wc_endpoint c \<noteq> []"
    using fin by (auto simp: finish_config_def split: if_split_asm)
  then have "finish_config d c = Inr (c\<lparr>wc_allowedIPs := ips, wc_dns := (if wc_dns c = [] then [d] else wc_dns c)\<rparr>)"
    by (simp add: finish_config_def ips_def Let_def)
  with fin have "c' = c\<lparr>wc_allowedIPs := ips, wc_dns := (if wc_dns c = [] then [d] else wc_dns c)\<rparr>" by simp
  then show ?thesis using filled ips ok by (simp add: well_formed_config_def partial_ok_def)
qed

lemma parsed_config:
  assumes "parseWgQuick P d conf = Inr c"
  shows "well_formed_config c"
proof -
  obtain c0 where p: "parse_lines P (split_at (CHR 0x0A) conf) ([], empty_config) = Inr c0"
    and f: "finish_config d c0 = Inr c"
    using assms by (auto simp: parseWgQuick_def split: sum.splits)
  have "partial_ok c0"
    by (rule parse_lines_ok [OF p]) (auto simp: empty_config_ok dest: split_at_no_sep)
  then show ?thesis by (rule finish_config_ok [OF f])
qed


section \<open>The request to the WireGuard device\<close>

lemma nat_digits_no_newline: "CHR 0x0A \<notin> set (nat_digits n)"
  using nat_digits_correct [of n] by (auto simp: list_all_iff is_digit_def byte_of_def)

lemma good_key_no_newline: "good_key k \<Longrightarrow> CHR 0x0A \<notin> set k"
  by (auto simp: good_key_def hex_digits_def is_digit_def byte_of_def)

lemma ipc_lines_clean:
  assumes "well_formed_config c"
  shows "\<forall>l \<in> set (ipc_lines c). CHR 0x0A \<notin> set l"
proof -
  have "CHR 0x0A \<notin> set (wc_privateKeyHex c)" "CHR 0x0A \<notin> set (wc_peerPublicHex c)"
    and "CHR 0x0A \<notin> set (wc_endpoint c)" "\<forall>ip \<in> set (wc_allowedIPs c). CHR 0x0A \<notin> set ip"
    using assms unfolding well_formed_config_def clean_def by (blast dest: good_key_no_newline)+
  moreover have "CHR 0x0A \<notin> set (itoa (wc_keepalive c))" by (simp add: itoa_def nat_digits_no_newline)
  ultimately show ?thesis by (simp add: ipc_lines_def)
qed

lemma split_at_lines:
  "\<forall>l \<in> set ls. d \<notin> set l \<Longrightarrow> split_at d (concat (map (\<lambda>l. l @ [d]) ls)) = ls @ [[]]"
  by (induction ls) (simp_all add: split_at_append)

text \<open>The key and the value a reader of the line gets\<close>

lemma ipc_line_keys:
  "map (cut_at CHR ''='') (ipc_lines c) =
     [Some (''private_key'', wc_privateKeyHex c), Some (''public_key'', wc_peerPublicHex c),
      Some (''endpoint'', wc_endpoint c), Some (''persistent_keepalive_interval'', itoa (wc_keepalive c))]
     @ map (\<lambda>ip. Some (''allowed_ip'', ip)) (wc_allowedIPs c)"
  by (simp add: ipc_lines_def)

section \<open>The inserted MTU line\<close>

lemma lower_char_non_letter: "\<not> (97 \<le> byte_of c \<and> byte_of c \<le> 122) \<Longrightarrow> lower_char d = c \<Longrightarrow> d = c"
  by (auto simp: lower_char_def split: if_splits)

lemma is_space_lower [simp]: "is_space (lower_char c) = is_space c"
  by (auto simp: is_space_def lower_char_def Let_def)

lemma section_of_header:
  assumes "to_lower l = ''[interface]''"
  shows "section_name l = Some ''interface''"
proof -
  obtain x ys z where l: "l = x # ys @ [z]" and lo: "lower_char x = CHR ''[''" "to_lower ys = ''interface''" "lower_char z = CHR '']''"
    using assms
    by (cases l; cases "tl l" rule: rev_cases) (auto simp: to_lower_def append_eq_Cons_conv Cons_eq_append_conv)
  have x: "x = CHR ''[''" "z = CHR '']''"
    using lower_char_non_letter [OF _ lo(1)] lower_char_non_letter [OF _ lo(3)] by (simp_all add: byte_of_def)
  have "ys \<noteq> []" using lo(2) by (auto simp: to_lower_def)
  have "\<not> is_space (hd ys)" "\<not> is_space (last ys)"
    using lo(2) \<open>ys \<noteq> []\<close> is_space_lower [of "hd ys"] is_space_lower [of "last ys"]
    by (simp_all add: to_lower_def is_space_def byte_of_def flip: hd_map last_map)
  then have "trim_space ys = ys" by (simp add: trim_space_def trim_with_id)
  then show ?thesis using x lo(2) by (simp add: l section_name_def has_suffix_def)
qed

definition interface_headers :: "string list \<Rightarrow> nat" where
  "interface_headers lines =
     length [l \<leftarrow> lines. \<not> is_comment (trim_space l) \<and> section_name (trim_space l) = Some ''interface'']"

lemma not_comment_section: "section_name l = Some s \<Longrightarrow> \<not> is_comment l"
  by (cases l) (auto simp: section_name_def is_comment_def split: if_splits)

lemma insert_nothing:
  assumes "\<And>l. is_head l \<Longrightarrow> section_name l = Some ''interface''"
  shows "interface_headers lines = 0 \<Longrightarrow> insert_mtu is_head lines = lines"
  by (induction lines)
    (auto simp: interface_headers_def insert_mtu_def split: if_splits dest!: assms dest: not_comment_section)

lemma peer_key_mtu: "peer_key P key val c = Inr c' \<Longrightarrow> wc_mtu c' = wc_mtu c"
  by (simp add: peer_key_def split: if_split_asm sum.split_asm prod.split_asm) auto

lemma mtu_line_value: "trim_space mtu_line = mtu_line" "is_comment mtu_line = False" "section_name mtu_line = None"
  "cut_at CHR ''='' mtu_line = Some (''MTU '', '' 1280'')" "trim_space (to_lower ''MTU '') = ''mtu''"
  "trim_space '' 1280'' = ''1280''" "atoi ''1280'' = (1280, True)"
  by code_simp+

lemma parse_mtu_line:
  "parse_line P mtu_line (''interface'', c) = Inr (''interface'', c\<lparr>wc_mtu := 1280\<rparr>)"
  by (simp add: parse_line_def mtu_line_value interface_key_def Let_def)

lemma insert_mtu_same_config:
  assumes head: "\<And>l. is_head l \<Longrightarrow> section_name l = Some ''interface''"
  shows "interface_headers lines \<le> 1 \<Longrightarrow> fst sc \<noteq> ''interface'' \<Longrightarrow> wc_mtu (snd sc) = 1280 \<Longrightarrow>
     parse_lines P (insert_mtu is_head lines) sc = parse_lines P lines sc"
proof (induction lines arbitrary: sc)
  case Nil
  then show ?case by (simp add: insert_mtu_def)
next
  case (Cons l lines)
  obtain s c where sc: "sc = (s, c)" by (cases sc)
  show ?case
  proof (cases "\<not> is_comment (trim_space l) \<and> section_name (trim_space l) = Some ''interface''")
    case True
    then have "insert_mtu is_head lines = lines"
      using Cons.prems(1) by (intro insert_nothing head) (auto simp: interface_headers_def)
    moreover have "parse_line P l sc = Inr (''interface'', c)" using True by (simp add: sc parse_line_def)
    moreover have "c\<lparr>wc_mtu := 1280\<rparr> = c" using Cons.prems(3) by (simp add: sc)
    ultimately show ?thesis by (simp add: insert_mtu_def parse_mtu_line)
  next
    case False
    then have "\<not> is_head (trim_space l)" using head not_comment_section by blast
    moreover have "interface_headers lines \<le> 1" using Cons.prems(1) False by (simp add: interface_headers_def)
    moreover have "fst sc' \<noteq> ''interface'' \<and> wc_mtu (snd sc') = 1280" if "parse_line P l sc = Inr sc'" for sc'
      using that False Cons.prems(2,3)
      by (auto simp: sc parse_line_def Let_def dest: peer_key_mtu
          split: if_split_asm option.split_asm sum.split_asm prod.split_asm)
    ultimately show ?thesis
      using Cons.IH by (auto simp: insert_mtu_def split: sum.split)
  qed
qed

lemma insert_mtu_lines:
  assumes "\<forall>l \<in> set lines. CHR 0x0A \<notin> set l" "lines \<noteq> []"
  shows "split_at (CHR 0x0A) (join [CHR 0x0A] (insert_mtu is_head lines)) = insert_mtu is_head lines"
proof (rule split_at_join)
  show "insert_mtu is_head lines \<noteq> []" using assms(2) by (cases lines) (auto simp: insert_mtu_def)
  have "CHR 0x0A \<notin> set mtu_line" by (simp add: mtu_line_def)
  then show "\<forall>w \<in> set (insert_mtu is_head lines). CHR 0x0A \<notin> set w"
    using assms(1) by (auto simp: insert_mtu_def split: if_splits)
qed

lemma inserted_config_same:
  assumes "\<And>l. is_head l \<Longrightarrow> section_name l = Some ''interface''"
    and "interface_headers (split_at (CHR 0x0A) conf) \<le> 1"
  shows "parseWgQuick P d (join [CHR 0x0A] (insert_mtu is_head (split_at (CHR 0x0A) conf))) = parseWgQuick P d conf"
proof -
  have "split_at (CHR 0x0A) (join [CHR 0x0A] (insert_mtu is_head (split_at (CHR 0x0A) conf))) =
      insert_mtu is_head (split_at (CHR 0x0A) conf)"
    by (rule insert_mtu_lines) (auto dest: split_at_no_sep)
  moreover have "parse_lines P (insert_mtu is_head (split_at (CHR 0x0A) conf)) ([], empty_config) =
      parse_lines P (split_at (CHR 0x0A) conf) ([], empty_config)"
    using assms by (intro insert_mtu_same_config) (auto simp: empty_config_def)
  ultimately show ?thesis by (simp add: parseWgQuick_def)
qed

lemma fold_header: "equal_fold l ''[Interface]'' \<Longrightarrow> section_name l = Some ''interface''"
proof (rule section_of_header)
  have "to_lower ''[Interface]'' = ''[interface]''" by code_simp
  then show "equal_fold l ''[Interface]'' \<Longrightarrow> to_lower l = ''[interface]''" by (simp add: equal_fold_def)
qed

section \<open>The properties\<close>

text \<open>
  C27. A configuration \<^verbatim>\<open>parseWgQuick\<close> accepts has two keys of 64 hexadecimal digits, at least one
  address, one DNS server and one allowed network, an endpoint, an MTU of at least 576 and a keepalive
  interval that fits in the \<^verbatim>\<open>uint16\<close> it is stored in, whatever text the server sent.
\<close>

theorem config_well_formed:
  assumes "parseWgQuick P default_dns conf = Inr c"
  shows "length (wc_privateKeyHex c) = 64 \<and> length (wc_peerPublicHex c) = 64 \<and>
     set (wc_privateKeyHex c @ wc_peerPublicHex c) \<subseteq> hex_digits \<and>
     wc_addresses c \<noteq> [] \<and> wc_dns c \<noteq> [] \<and> wc_allowedIPs c \<noteq> [] \<and> wc_endpoint c \<noteq> [] \<and>
     576 \<le> wc_mtu c \<and> 0 \<le> wc_keepalive c \<and> wc_keepalive c < 2 ^ 16"
  using parsed_config [OF assms] by (auto simp: well_formed_config_def good_key_def)

definition demo_parsers :: "string ip_parsers" where
  "demo_parsers =
     \<lparr>ip_b64 = (\<lambda>s. Inr (replicate 32 0)), ip_prefix = (\<lambda>s. Inl (ErrText s)),
      ip_addr = (\<lambda>s. Inr s)\<rparr>"

definition demo_conf :: string where
  "demo_conf = concat (map (\<lambda>l. l @ [CHR 0x0A])
     [''[Interface]'', ''PrivateKey = k'', ''Address = a,'', ''[Peer]'', ''PublicKey = pk'',
      ''AllowedIPs = ::/0'', ''Endpoint = h:9''])"

definition demo_config :: "string wgQuickConfig" where
  "demo_config =
     \<lparr>wc_privateKeyHex = concat (replicate 32 ''00''), wc_addresses = [''a''], wc_dns = [''1.1.1.1''],
      wc_mtu = 1280, wc_peerPublicHex = concat (replicate 32 ''00''), wc_allowedIPs = [''::/0''],
      wc_endpoint = ''h:9'', wc_keepalive = 25\<rparr>"

lemma demo_parsed: "parseWgQuick demo_parsers ''1.1.1.1'' demo_conf = Inr demo_config"
  by code_simp

theorem config_well_formed_witness:
  "length (wc_privateKeyHex demo_config) = 64 \<and> wc_mtu demo_config \<ge> 576"
  using config_well_formed [OF demo_parsed] by simp

text \<open>
  C26. The request to the WireGuard device has exactly the lines of the configuration: a reader that cuts it
  at the newlines, and each line at its first \<^verbatim>\<open>=\<close>, gets the two keys, the endpoint, the keepalive and the
  allowed networks, in this order. No value the server sent can start a line of its own.
\<close>

theorem ipc_request_faithful:
  assumes "parseWgQuick P default_dns conf = Inr c"
  shows "map (cut_at CHR ''='') (split_at (CHR 0x0A) (ipcRequest c)) =
     [Some (''private_key'', wc_privateKeyHex c), Some (''public_key'', wc_peerPublicHex c),
      Some (''endpoint'', wc_endpoint c), Some (''persistent_keepalive_interval'', itoa (wc_keepalive c))]
     @ map (\<lambda>ip. Some (''allowed_ip'', ip)) (wc_allowedIPs c) @ [None]"
proof -
  have "split_at (CHR 0x0A) (ipcRequest c) = ipc_lines c @ [[]]"
    unfolding ipcRequest_def by (rule split_at_lines [OF ipc_lines_clean [OF parsed_config [OF assms]]])
  then show ?thesis by (simp add: ipc_line_keys)
qed

theorem ipc_request_faithful_witness:
  "map (cut_at CHR ''='') (split_at (CHR 0x0A) (ipcRequest demo_config)) =
     [Some (''private_key'', wc_privateKeyHex demo_config), Some (''public_key'', wc_peerPublicHex demo_config),
      Some (''endpoint'', ''h:9''), Some (''persistent_keepalive_interval'', itoa 25),
      Some (''allowed_ip'', ''::/0''), None]"
  using ipc_request_faithful [OF demo_parsed] by (simp add: demo_config_def)

text \<open>
  The line \<^verbatim>\<open>MTU = 1280\<close> that the client inserts into a configuration without one, on iOS and on the
  desktop, does not change what the configuration means: with at most one interface section, the parser
  gives the same configuration, or the same error, for the text with the line and without it. A text that
  writes its MTU differently (\<^verbatim>\<open>MTU=1400\<close>) keeps its value.
\<close>

theorem mtu_line_harmless:
  assumes "interface_headers (split_at (CHR 0x0A) conf) \<le> 1"
  shows "parseWgQuick P default_dns (ensureIOSMTU conf) = parseWgQuick P default_dns conf \<and>
     parseWgQuick P default_dns (desktop_config conf) = parseWgQuick P default_dns conf"
  using inserted_config_same [OF fold_header assms, where P = P and d = default_dns]
    inserted_config_same [where is_head = "\<lambda>l. l = ''[Interface]''", OF _ assms, where P = P and d = default_dns]
    fold_header [of "''[Interface]''"]
  by (simp add: ensureIOSMTU_def desktop_config_def equal_fold_def)

theorem mtu_line_harmless_witness:
  "parseWgQuick demo_parsers ''1.1.1.1'' (ensureIOSMTU demo_conf) = Inr demo_config \<and>
   ensureIOSMTU demo_conf \<noteq> demo_conf"
proof -
  have "interface_headers (split_at (CHR 0x0A) demo_conf) \<le> 1" by code_simp
  moreover have "ensureIOSMTU demo_conf \<noteq> demo_conf" by code_simp
  ultimately show ?thesis
    using mtu_line_harmless [where conf = demo_conf and P = demo_parsers and default_dns = "''1.1.1.1''"] demo_parsed by simp
qed

lemma network_key_mtu: "576 \<le> nc_MTU c \<and> nc_MTU c \<le> 9000 \<Longrightarrow>
   576 \<le> nc_MTU (network_key P A key val c) \<and> nc_MTU (network_key P A key val c) \<le> 9000"
proof -
  have "nc_MTU (fold (take_item P A) items c) = nc_MTU c" for items
    by (induction items arbitrary: c) (simp_all add: take_item_def take_address_def split: sum.split prod.split)
  then show "576 \<le> nc_MTU c \<and> nc_MTU c \<le> 9000 \<Longrightarrow> ?thesis"
    by (simp add: network_key_def split: prod.split)
qed

lemma network_line_keeps:
  "(\<And>key val. Q (network_key P A key val (snd sc))) \<Longrightarrow> Q (snd sc) \<Longrightarrow> Q (snd (network_line P A l sc))"
  by (cases sc) (simp add: network_line_def Let_def split: prod.split option.split)

lemma network_mtu:
  "576 \<le> nc_MTU (snd sc) \<and> nc_MTU (snd sc) \<le> 9000 \<Longrightarrow>
   576 \<le> nc_MTU (snd (fold (network_line P A) lines sc)) \<and> nc_MTU (snd (fold (network_line P A) lines sc)) \<le> 9000"
proof (induction lines arbitrary: sc)
  case (Cons l lines)
  have "576 \<le> nc_MTU (snd (network_line P A l sc)) \<and> nc_MTU (snd (network_line P A l sc)) \<le> 9000"
    using Cons.prems by (intro network_line_keeps [where Q = "\<lambda>c. 576 \<le> nc_MTU c \<and> nc_MTU c \<le> 9000"] network_key_mtu)
  then show ?case using Cons.IH by simp
qed simp

text \<open>
  The network settings handed to iOS always name a DNS server and an MTU the system takes, for every text.
\<close>

theorem network_settings_bounds:
  "nc_DNSServers (extractIOSNetworkConfig P A conf) \<noteq> [] \<and>
   576 \<le> nc_MTU (extractIOSNetworkConfig P A conf) \<and> nc_MTU (extractIOSNetworkConfig P A conf) \<le> 9000"
  using network_mtu [of "([], \<lparr>nc_IPv4Address = [], nc_IPv4Prefix = 0, nc_IPv6Address = [], nc_IPv6Prefix = 0,
      nc_DNSServers = [], nc_MTU = 1280\<rparr>)" P A "split_at (CHR 0x0A) conf"]
  by (simp add: extractIOSNetworkConfig_def Let_def)

end
