(* ===== verification/Doh.thy ===== *)
theory Doh
  imports Obfs
begin

text \<open>
  Name resolution for the requests to VK: \<^verbatim>\<open>go_client/doh.go\<close> and the DNS part of \<^verbatim>\<open>creds.go\<close>.
  Go's resolver speaks DNS over a stream (a length of two bytes, then the message) to a \<^verbatim>\<open>dohConn\<close>,
  which sends the message in an HTTP request and hands the answer back as a stream. The abstract
  connection is the rest of the answer; the refinement lemma says that reads, writes and \<^verbatim>\<open>Close\<close> in any
  order behave as on it. The HTTP client and the dialer are functions of a world \<open>'w\<close>; what the code
  asks of a parsed URL is the record \<open>url_view\<close>; nothing is assumed of them.
\<close>

section \<open>Settings\<close>

definition goDNSIsDoH :: "string \<Rightarrow> bool" where
  "goDNSIsDoH arg =
     (let a = to_lower (trim_space arg) in has_prefix a ''doh:'' \<or> has_prefix a ''doh-'')"

definition goDoHEndpointsForPreset :: "string \<Rightarrow> string list" where
  "goDoHEndpointsForPreset preset =
     (let p = to_lower (trim_space preset) in
      if p = ''doh-cloudflare'' then
        [''https://1.1.1.1/dns-query'', ''https://cloudflare-dns.com/dns-query'']
      else if p = ''doh-google'' then
        [''https://8.8.8.8/dns-query'', ''https://dns.google/dns-query'']
      else [''https://77.88.8.8/dns-query'', ''https://common.dot.dns.yandex.net/dns-query''])"

record 'u url_view =
  uv_parse :: "string \<Rightarrow> 'u option"
  uv_scheme :: "'u \<Rightarrow> string"
  uv_host :: "'u \<Rightarrow> string"
  uv_hostname :: "'u \<Rightarrow> string"
  uv_path :: "'u \<Rightarrow> string"
  uv_with_path :: "string \<Rightarrow> 'u \<Rightarrow> string"   \<comment> \<open>its text with this path, without query and fragment\<close>

definition normalizeDoHEndpoint :: "'u url_view \<Rightarrow> string \<Rightarrow> string option" where
  "normalizeDoHEndpoint U raw0 =
     (let raw = trim_space raw0 in
      if raw = [] then None
      else if \<not> has_prefix (to_lower raw) ''https://'' then None
      else
        (case uv_parse U raw of
           None \<Rightarrow> None
         | Some u \<Rightarrow>
             if uv_scheme U u \<noteq> ''https'' \<or> uv_host U u = [] then None
             else
               (let path = trim_space (uv_path U u);
                    path' = (if path = [] \<or> path = ''/'' then ''/dns-query'' else path)
                in Some (uv_with_path U path' u))))"

definition list_parts :: "string \<Rightarrow> string list" where
  "list_parts raw = [p \<leftarrow> map trim_space (split_at CHR '','' raw). p \<noteq> []]"

definition goDoHEndpointsForArg :: "'u url_view \<Rightarrow> string \<Rightarrow> string list" where
  "goDoHEndpointsForArg U arg0 =
     (let arg = trim_space arg0 in
      if has_prefix arg ''doh:'' then
        (let out = List.map_filter (normalizeDoHEndpoint U) (list_parts (trim_prefix arg ''doh:'')) in
         if out \<noteq> [] then out else goDoHEndpointsForPreset ''doh-yandex'')
      else goDoHEndpointsForPreset arg)"

definition host_header_of :: "string \<Rightarrow> string" where
  "host_header_of host =
     (if host = ''1.1.1.1'' \<or> host = ''1.0.0.1'' then ''cloudflare-dns.com''
      else if host = ''8.8.8.8'' \<or> host = ''8.8.4.4'' then ''dns.google''
      else if host = ''77.88.8.8'' \<or> host = ''77.88.8.1'' then ''common.dot.dns.yandex.net''
      else [])"

text \<open>\<open>is_ip\<close> is \<^verbatim>\<open>net.ParseIP(host) != nil\<close>.\<close>

definition dohHostHeader :: "'u url_view \<Rightarrow> (string \<Rightarrow> bool) \<Rightarrow> string \<Rightarrow> string" where
  "dohHostHeader U is_ip endpoint =
     (case uv_parse U endpoint of
        None \<Rightarrow> []
      | Some u \<Rightarrow> if \<not> is_ip (uv_hostname U u) then [] else host_header_of (uv_hostname U u))"

definition dohEndpointLabel :: "'u url_view \<Rightarrow> (string \<Rightarrow> bool) \<Rightarrow> string \<Rightarrow> string" where
  "dohEndpointLabel U is_ip endpoint =
     (let host = dohHostHeader U is_ip endpoint in
      if host \<noteq> [] then host
      else
        (case uv_parse U endpoint of
           None \<Rightarrow> endpoint
         | Some u \<Rightarrow>
             (let path = trim_set ''/'' (uv_path U u) in
              if path \<noteq> [] \<and> path \<noteq> ''dns-query'' then uv_hostname U u @ ''/'' @ path
              else uv_hostname U u)))"

fun collect_labels :: "string set \<Rightarrow> string list \<Rightarrow> string list" where
  "collect_labels seen [] = []"
| "collect_labels seen (l # ls) =
     (if l = [] \<or> l \<in> seen then collect_labels seen ls else l # collect_labels (insert l seen) ls)"

definition formatDoHEndpoints :: "'u url_view \<Rightarrow> (string \<Rightarrow> bool) \<Rightarrow> string list \<Rightarrow> string" where
  "formatDoHEndpoints U is_ip endpoints =
     join '', '' (collect_labels {} (map (dohEndpointLabel U is_ip) endpoints))"

section \<open>The framing of DNS over a stream\<close>

definition stripDNSWireFrame :: "byte list \<Rightarrow> byte list" where
  "stripDNSWireFrame payload =
     (if length payload < 4 then payload
      else
        (let ln = push_bit 8 (uint (payload ! 0)) OR uint (payload ! 1) in
         if ln > 0 \<and> ln + 2 = int (length payload) then drop 2 payload else payload))"

definition frameDNSForTCP :: "byte list \<Rightarrow> byte list" where
  "frameDNSForTCP payload =
     [of_nat (drop_bit 8 (length payload)), of_nat (length payload)] @ payload"

section \<open>The connection\<close>

record dohConn =
  dc_endpoints :: "string list"
  dc_response :: "byte list"
  dc_readPos :: nat
  dc_closed :: bool

definition newDohConn :: "string list \<Rightarrow> dohConn" where
  "newDohConn endpoints = \<lparr>dc_endpoints = endpoints, dc_response = [], dc_readPos = 0, dc_closed = False\<rparr>"

definition net_closed :: goerr where
  "net_closed = Sentinel ''use of closed network connection''"

definition io_EOF :: goerr where
  "io_EOF = Sentinel ''EOF''"

text \<open>\<^verbatim>\<open>Read\<close> into a buffer of \<open>cap\<close> bytes: the bytes copied and the error\<close>

definition doh_read :: "nat \<Rightarrow> dohConn \<Rightarrow> (byte list \<times> goerr option) \<times> dohConn" where
  "doh_read cap c =
     (if dc_closed c then (([], Some net_closed), c)
      else if dc_response c = [] then (([], Some (ErrText ''doh: read before write'')), c)
      else if length (dc_response c) \<le> dc_readPos c then (([], Some io_EOF), c)
      else
        (let d = take cap (drop (dc_readPos c) (dc_response c))
         in ((d, None), c\<lparr>dc_readPos := dc_readPos c + length d\<rparr>)))"

text \<open>
  What an HTTP request gives: a failure before the headers, or a status and the body, whose reading up to
  the limit may fail.
\<close>

datatype http_outcome = HttpFailed goerr | HttpAnswer int "goerr + byte list"

record 'w doh_env =
  de_http :: "string \<Rightarrow> byte list \<Rightarrow> 'w \<Rightarrow> http_outcome \<times> 'w"

definition answer_body :: "string \<Rightarrow> http_outcome \<Rightarrow> goerr + byte list" where
  "answer_body endpoint out =
     (case out of
        HttpFailed e \<Rightarrow> Inl e
      | HttpAnswer status rd \<Rightarrow>
          if status < 200 \<or> status \<ge> 300
          then Inl (ErrText (''doh: HTTP '' @ itoa status @ '' from '' @ endpoint))
          else
            (case rd of
               Inl e \<Rightarrow> Inl e
             | Inr bytes \<Rightarrow>
                 (let body = take 65535 bytes in
                  if length body < 12 then Inl (ErrText (''doh: short response from '' @ endpoint))
                  else Inr body)))"

definition exchange :: "'w doh_env \<Rightarrow> string \<Rightarrow> byte list \<Rightarrow> 'w \<Rightarrow> (goerr + byte list) \<times> 'w" where
  "exchange E endpoint query w =
     (case de_http E endpoint query w of (out, w') \<Rightarrow> (answer_body endpoint out, w'))"

fun ask_endpoints ::
  "'w doh_env \<Rightarrow> string list \<Rightarrow> byte list \<Rightarrow> goerr option \<Rightarrow> 'w \<Rightarrow> (goerr + byte list) \<times> 'w"
where
  "ask_endpoints E [] query lastErr w =
     (Inl (case lastErr of None \<Rightarrow> ErrText ''no DoH endpoints available'' | Some e \<Rightarrow> e), w)"
| "ask_endpoints E (ep # eps) query lastErr w =
     (case exchange E ep query w of
        (Inr body, w') \<Rightarrow> (Inr body, w')
      | (Inl e, w') \<Rightarrow> ask_endpoints E eps query (Some e) w')"

definition doh_write ::
  "'w doh_env \<Rightarrow> byte list \<Rightarrow> dohConn \<Rightarrow> 'w \<Rightarrow> (nat \<times> goerr option) \<times> dohConn \<times> 'w"
where
  "doh_write E b c w =
     (if dc_closed c then ((0, Some net_closed), c, w)
      else
        (case ask_endpoints E (dc_endpoints c) (stripDNSWireFrame b) None w of
           (Inr body, w') \<Rightarrow>
             ((length b, None), c\<lparr>dc_response := frameDNSForTCP body, dc_readPos := 0\<rparr>, w')
         | (Inl e, w') \<Rightarrow> ((0, Some e), c, w')))"

definition doh_close :: "dohConn \<Rightarrow> dohConn" where
  "doh_close c = c\<lparr>dc_closed := True, dc_response := [], dc_readPos := 0\<rparr>"

section \<open>The abstract connection\<close>

datatype conn_view = ClosedConn | NoAnswer | Answer "byte list"

definition view_of :: "dohConn \<Rightarrow> conn_view" where
  "view_of c =
     (if dc_closed c then ClosedConn
      else if dc_response c = [] then NoAnswer
      else Answer (drop (dc_readPos c) (dc_response c)))"

fun spec_read :: "nat \<Rightarrow> conn_view \<Rightarrow> (byte list \<times> goerr option) \<times> conn_view" where
  "spec_read cap ClosedConn = (([], Some net_closed), ClosedConn)"
| "spec_read cap NoAnswer = (([], Some (ErrText ''doh: read before write'')), NoAnswer)"
| "spec_read cap (Answer rest) =
     (if rest = [] then (([], Some io_EOF), Answer []) else ((take cap rest, None), Answer (drop cap rest)))"

definition spec_write ::
  "'w doh_env \<Rightarrow> string list \<Rightarrow> byte list \<Rightarrow> conn_view \<Rightarrow> 'w \<Rightarrow> (nat \<times> goerr option) \<times> conn_view \<times> 'w"
where
  "spec_write E eps b v w =
     (if v = ClosedConn then ((0, Some net_closed), v, w)
      else
        (case ask_endpoints E eps (stripDNSWireFrame b) None w of
           (Inr body, w') \<Rightarrow> ((length b, None), Answer (frameDNSForTCP body), w')
         | (Inl e, w') \<Rightarrow> ((0, Some e), v, w')))"

text \<open>A session with the connection: the calls of its user and what each returns\<close>

datatype conn_call = CallRead nat | CallWrite "byte list" | CallClose

datatype conn_result = ReadResult "byte list" "goerr option" | WriteResult nat "goerr option" | CloseResult

fun run_calls :: "'w doh_env \<Rightarrow> conn_call list \<Rightarrow> dohConn \<Rightarrow> 'w \<Rightarrow> conn_result list" where
  "run_calls E [] c w = []"
| "run_calls E (CallRead cap # cs) c w =
     (case doh_read cap c of ((d, e), c') \<Rightarrow> ReadResult d e # run_calls E cs c' w)"
| "run_calls E (CallWrite b # cs) c w =
     (case doh_write E b c w of ((n, e), c', w') \<Rightarrow> WriteResult n e # run_calls E cs c' w')"
| "run_calls E (CallClose # cs) c w = CloseResult # run_calls E cs (doh_close c) w"

fun spec_calls :: "'w doh_env \<Rightarrow> string list \<Rightarrow> conn_call list \<Rightarrow> conn_view \<Rightarrow> 'w \<Rightarrow> conn_result list" where
  "spec_calls E eps [] v w = []"
| "spec_calls E eps (CallRead cap # cs) v w =
     (case spec_read cap v of ((d, e), v') \<Rightarrow> ReadResult d e # spec_calls E eps cs v' w)"
| "spec_calls E eps (CallWrite b # cs) v w =
     (case spec_write E eps b v w of ((n, e), v', w') \<Rightarrow> WriteResult n e # spec_calls E eps cs v' w')"
| "spec_calls E eps (CallClose # cs) v w = CloseResult # spec_calls E eps cs ClosedConn w"

lemma drop_taken: "drop (n + length (take cap (drop n xs))) xs = drop cap (drop n xs)"
  by (cases "cap \<le> length xs - n") (simp_all add: add.commute)

lemma read_refines: "doh_read cap c = (r, c') \<Longrightarrow> spec_read cap (view_of c) = (r, view_of c')"
  by (cases "dc_closed c"; cases "dc_response c = []"; cases "length (dc_response c) \<le> dc_readPos c")
    (auto simp: doh_read_def view_of_def Let_def drop_taken simp del: length_take drop_drop)

lemma read_keeps: "doh_read cap c = (r, c') \<Longrightarrow> dc_endpoints c' = dc_endpoints c"
  by (auto simp: doh_read_def Let_def split: if_split_asm)

lemma frame_not_Nil [simp]: "frameDNSForTCP p \<noteq> []"
  by (simp add: frameDNSForTCP_def)

lemma write_refines:
  "doh_write E b c w = (r, c', w') \<Longrightarrow>
   spec_write E (dc_endpoints c) b (view_of c) w = (r, view_of c', w') \<and> dc_endpoints c' = dc_endpoints c"
  by (auto simp: doh_write_def spec_write_def view_of_def split: if_split_asm prod.split_asm sum.split_asm)

lemma close_refines: "view_of (doh_close c) = ClosedConn" "dc_endpoints (doh_close c) = dc_endpoints c"
  by (simp_all add: doh_close_def view_of_def)


lemma calls_refine: "run_calls E cs c w = spec_calls E (dc_endpoints c) cs (view_of c) w"
proof (induction E cs c w rule: run_calls.induct)
  case (2 E cap cs c w)
  obtain d e c' where r: "doh_read cap c = ((d, e), c')" by (metis prod.exhaust)
  show ?case
    using 2 [OF r [symmetric] refl] by (simp add: r read_refines [OF r] read_keeps [OF r])
next
  case (3 E b cs c w)
  then show ?case
    by (auto split: prod.split dest!: write_refines)
qed (simp_all add: close_refines)

section \<open>The resolver's side\<close>

text \<open>
  \<^verbatim>\<open>io.ReadFull\<close> on the connection, and the exchange of Go's resolver over a stream: one write of the
  framed message, two bytes of length, then as many bytes.
\<close>

lemma doh_read_progress:
  "doh_read cap c = ((d, None), c') \<Longrightarrow> 0 < cap \<Longrightarrow> 0 < length d \<and> length d \<le> cap"
  by (auto simp: doh_read_def Let_def split: if_split_asm)

function read_full :: "nat \<Rightarrow> dohConn \<Rightarrow> goerr + (byte list \<times> dohConn)" where
  "read_full n c =
     (if n = 0 then Inr ([], c)
      else
        (case doh_read n c of
           ((d, Some e), c') \<Rightarrow> Inl e
         | ((d, None), c') \<Rightarrow>
             (case read_full (n - length d) c' of
                Inl e \<Rightarrow> Inl e
              | Inr (d', c'') \<Rightarrow> Inr (d @ d', c''))))"
  by pat_completeness auto
termination
  by (relation "measure fst") (auto dest: doh_read_progress [OF sym])

declare read_full.simps [simp del]

definition length_prefix :: "byte list \<Rightarrow> nat" where
  "length_prefix p = nat (push_bit 8 (uint (p ! 0)) OR uint (p ! 1))"

definition resolve_stream ::
  "'w doh_env \<Rightarrow> byte list \<Rightarrow> dohConn \<Rightarrow> 'w \<Rightarrow> (goerr + byte list) \<times> 'w"
where
  "resolve_stream E msg c w =
     (case doh_write E (frameDNSForTCP msg) c w of
        ((n, Some e), c', w') \<Rightarrow> (Inl e, w')
      | ((n, None), c', w') \<Rightarrow>
          ((case read_full 2 c' of
              Inl e \<Rightarrow> Inl e
            | Inr (hdr, c2) \<Rightarrow>
                (case read_full (length_prefix hdr) c2 of
                   Inl e \<Rightarrow> Inl e
                 | Inr (body, c3) \<Rightarrow> Inr body)), w'))"

lemma prefix_value:
  assumes "n < 2 ^ 16"
  shows "push_bit 8 (uint (of_nat (drop_bit 8 n) :: byte)) OR uint (of_nat n :: byte) = int n"
proof -
  let ?hi = "uint (of_nat (drop_bit 8 n) :: byte)" and ?lo = "uint (of_nat n :: byte)"
  have "push_bit 8 ?hi + ?lo = push_bit 8 ?hi OR ?lo"
    by (rule disjunctive_add) (auto simp: bit_push_bit_iff bit_uint_iff)
  moreover have "?hi = int (n div 256)"
    using assms by (simp add: drop_bit_eq_div unsigned_of_nat take_bit_nat_eq_self_iff flip: of_nat_take_bit)
  moreover have "?lo = int (n mod 256)"
    by (simp add: unsigned_of_nat take_bit_eq_mod flip: of_nat_take_bit)
  moreover have "int (n div 256) * 256 + int (n mod 256) = int n"
    by (metis div_mult_mod_eq of_nat_add of_nat_mult of_nat_numeral)
  ultimately show ?thesis by (simp add: push_bit_eq_mult)
qed

lemma length_prefix_frame: "length p < 2 ^ 16 \<Longrightarrow> length_prefix (frameDNSForTCP p) = length p"
  using prefix_value [of "length p"] by (simp add: length_prefix_def frameDNSForTCP_def)

lemma strip_frame:
  assumes "2 \<le> length p" "length p < 2 ^ 16"
  shows "stripDNSWireFrame (frameDNSForTCP p) = p"
  using assms prefix_value [of "length p"]
  by (cases p) (auto simp: stripDNSWireFrame_def frameDNSForTCP_def Let_def)

lemma read_full_answer:
  "view_of c = Answer (d @ rest) \<Longrightarrow> \<exists>c'. read_full (length d) c = Inr (d, c') \<and> view_of c' = Answer rest"
proof (induction "length d" arbitrary: d c rule: less_induct)
  case less
  show ?case
  proof (cases "d = []")
    case True
    then show ?thesis using less.prems by (simp add: read_full.simps)
  next
    case False
    obtain r c1 where r: "doh_read (length d) c = (r, c1)" by (cases "doh_read (length d) c")
    with read_refines [OF r] less.prems False
    have "r = (d, None)" and "view_of c1 = Answer rest" by auto
    then show ?thesis using r False by (simp add: read_full.simps [of "length d"] read_full.simps [of 0])
  qed
qed

text \<open>The answer of the first endpoint that has one\<close>

definition asked_endpoint :: "'w doh_env \<Rightarrow> byte list \<Rightarrow> string \<Rightarrow> 'w \<Rightarrow> 'w" where
  "asked_endpoint E q ep w = snd (exchange E ep q w)"

lemma ask_first_answer:
  assumes "\<forall>i < length eps1. \<exists>e. fst (exchange E (eps1 ! i) q (fold (asked_endpoint E q) (take i eps1) w)) = Inl e"
    and "exchange E ep q (fold (asked_endpoint E q) eps1 w) = (Inr body, w')"
  shows "ask_endpoints E (eps1 @ ep # eps2) q lastErr w = (Inr body, w')"
  using assms
proof (induction eps1 arbitrary: w lastErr)
  case Nil
  then show ?case by simp
next
  case (Cons a eps1)
  obtain r w1 where a: "exchange E a q w = (r, w1)" by (cases "exchange E a q w")
  obtain e where "r = Inl e" using Cons.prems(1) a by force
  have w1: "asked_endpoint E q a w = w1" using a by (simp add: asked_endpoint_def)
  have "\<exists>e. fst (exchange E (eps1 ! i) q (fold (asked_endpoint E q) (take i eps1) w1)) = Inl e"
    if "i < length eps1" for i
    using Cons.prems(1) [rule_format, of "Suc i"] that by (simp add: w1)
  then show ?case
    using Cons.IH [of w1 "Some e"] Cons.prems(2) a \<open>r = Inl e\<close> by (simp add: w1)
qed


section \<open>Plain DNS servers\<close>

definition goDNSServersForPreset :: "string \<Rightarrow> string list" where
  "goDNSServersForPreset preset =
     (let p = to_lower (trim_space preset) in
      if p = ''cloudflare'' then [''1.1.1.1:53'', ''1.0.0.1:53'']
      else if p = ''google'' then [''8.8.8.8:53'', ''8.8.4.4:53'']
      else [''77.88.8.8:53'', ''77.88.8.1:53''])"

definition isLoopbackDNSAddress :: "string \<Rightarrow> bool" where
  "isLoopbackDNSAddress address =
     (let h = (case split_host_port address of Inl e \<Rightarrow> address | Inr (host, port) \<Rightarrow> host);
          host = trim_set ''[]'' h
      in host = ''127.0.0.1'' \<or> host = ''::1'' \<or> host = ''localhost'' \<or> host = ''0.0.0.0'')"

definition with_port :: "string \<Rightarrow> string" where
  "with_port part = (if contains part '':'' then part else part @ '':53'')"

definition goDNSServersForArg :: "string \<Rightarrow> string list" where
  "goDNSServersForArg arg0 =
     (let arg = trim_space arg0 in
      if has_prefix arg ''custom:'' then
        (let out = map with_port (list_parts (trim_prefix arg ''custom:'')) in
         if out \<noteq> [] then out else goDNSServersForPreset ''yandex'')
      else goDNSServersForPreset arg)"

definition goDNSLabel :: "string \<Rightarrow> string" where
  "goDNSLabel arg0 =
     (let arg = trim_space arg0; a = to_lower arg in
      if has_prefix arg ''custom:'' then ([CHR 0xD0, CHR 0xA1, CHR 0xD0, CHR 0xB2, CHR 0xD0, CHR 0xBE, CHR 0xD0, CHR 0xB9] @ '' DNS'')
      else if has_prefix arg ''doh:'' then ([CHR 0xD0, CHR 0xA1, CHR 0xD0, CHR 0xB2, CHR 0xD0, CHR 0xBE, CHR 0xD0, CHR 0xB9] @ '' DoH'')
      else if a = ''cloudflare'' then ''Cloudflare''
      else if a = ''google'' then ''Google DNS''
      else if a = ''doh-cloudflare'' then ''Cloudflare DoH''
      else if a = ''doh-google'' then ''Google DoH''
      else if a = ''doh-yandex'' then ([CHR 0xD0, CHR 0xAF, CHR 0xD0, CHR 0xBD, CHR 0xD0, CHR 0xB4, CHR 0xD0, CHR 0xB5, CHR 0xD0, CHR 0xBA, CHR 0xD1, CHR 0x81] @ '' DoH'')
      else ([CHR 0xD0, CHR 0xAF, CHR 0xD0, CHR 0xBD, CHR 0xD0, CHR 0xB4, CHR 0xD0, CHR 0xB5, CHR 0xD0, CHR 0xBA, CHR 0xD1, CHR 0x81] @ '' DNS''))"

definition server_label :: "string \<Rightarrow> string" where
  "server_label s =
     (case split_host_port s of Inl e \<Rightarrow> s | Inr (host, port) \<Rightarrow> if port = ''53'' then host else s)"

definition formatGoDNSServers :: "string list \<Rightarrow> string" where
  "formatGoDNSServers servers = join '', '' (map server_label servers)"

text \<open>
  The \<^verbatim>\<open>Dial\<close> functions the two resolvers install; \<open>dl_dial\<close> is \<^verbatim>\<open>dialer.DialContext\<close> with a
  connection of type \<open>'k\<close>.
\<close>

record ('w, 'k) dial_env =
  dl_dial :: "string \<Rightarrow> string \<Rightarrow> 'w \<Rightarrow> (goerr + 'k) \<times> 'w"

fun dial_servers ::
  "('w, 'k) dial_env \<Rightarrow> string list \<Rightarrow> goerr option \<Rightarrow> 'w \<Rightarrow> (goerr option + 'k) \<times> 'w"
where
  "dial_servers D [] lastErr w = (Inl lastErr, w)"
| "dial_servers D (dns # rest) lastErr w =
     (case dl_dial D ''udp'' dns w of
        (Inr conn, w1) \<Rightarrow> (Inr conn, w1)
      | (Inl e1, w1) \<Rightarrow>
          (case dl_dial D ''tcp'' dns w1 of
             (Inr conn, w2) \<Rightarrow> (Inr conn, w2)
           | (Inl e2, w2) \<Rightarrow> dial_servers D rest (Some e2) w2))"

definition resolver_dial ::
  "('w, 'k) dial_env \<Rightarrow> string \<Rightarrow> string list \<Rightarrow> string \<Rightarrow> string \<Rightarrow> 'w \<Rightarrow> (goerr + 'k) \<times> 'w"
where
  "resolver_dial D arg servers network address0 w =
     (case dial_servers D servers None w of
        (Inr conn, w1) \<Rightarrow> (Inr conn, w1)
      | (Inl lastErr, w1) \<Rightarrow>
          (let address = trim_space address0;
               none = (case lastErr of
                         Some e \<Rightarrow> Inl e
                       | None \<Rightarrow> Inl (ErrText (''no DNS servers available for '' @ go_quote arg))) in
           if address \<noteq> [] \<and> \<not> isLoopbackDNSAddress address then
             (case dl_dial D network address w1 of
                (Inr conn, w2) \<Rightarrow> (Inr conn, w2)
              | (Inl e, w2) \<Rightarrow> (Inl e, w2))
           else (none, w1)))"

definition doh_dial :: "string \<Rightarrow> string list \<Rightarrow> goerr + dohConn" where
  "doh_dial arg endpoints =
     (if endpoints = []
      then Inl (ErrText (''no DoH endpoints configured for '' @ go_quote arg))
      else Inr (newDohConn endpoints))"

text \<open>\<^verbatim>\<open>setupGlobalResolver\<close>: which of the two is installed, with its servers\<close>

datatype resolver_kind = DohResolver string "string list" | PlainResolver string "string list"

definition setupGlobalResolver :: "'u url_view \<Rightarrow> string \<Rightarrow> resolver_kind" where
  "setupGlobalResolver U arg0 =
     (let arg = trim_space arg0 in
      if goDNSIsDoH arg then DohResolver arg (goDoHEndpointsForArg U arg)
      else PlainResolver arg (goDNSServersForArg arg))"

text \<open>The attempts of a dial as one list\<close>

definition dial_order :: "string list \<Rightarrow> string \<Rightarrow> string \<Rightarrow> (string \<times> string) list" where
  "dial_order servers network address =
     concat (map (\<lambda>s. [(''udp'', s), (''tcp'', s)]) servers)
     @ (if address \<noteq> [] \<and> \<not> isLoopbackDNSAddress address then [(network, address)] else [])"

fun try_dials ::
  "('w, 'k) dial_env \<Rightarrow> (string \<times> string) list \<Rightarrow> goerr \<Rightarrow> 'w \<Rightarrow> (goerr + 'k) \<times> 'w"
where
  "try_dials D [] e w = (Inl e, w)"
| "try_dials D ((net, addr) # as) e w =
     (case dl_dial D net addr w of
        (Inr conn, w') \<Rightarrow> (Inr conn, w')
      | (Inl e', w') \<Rightarrow> try_dials D as e' w')"

lemma try_dials_append:
  "try_dials D (xs @ ys) e w =
     (case try_dials D xs e w of (Inr k, w') \<Rightarrow> (Inr k, w') | (Inl e', w') \<Rightarrow> try_dials D ys e' w')"
  by (induction D xs e w rule: try_dials.induct) (auto split: prod.split sum.split)

lemma dial_servers_order:
  "dial_servers D servers (Some e) w =
     (case try_dials D (concat (map (\<lambda>s. [(''udp'', s), (''tcp'', s)]) servers)) e w of
        (Inr k, w') \<Rightarrow> (Inr k, w') | (Inl e', w') \<Rightarrow> (Inl (Some e'), w'))"
  by (induction servers arbitrary: e w) (simp_all split: prod.split sum.split)

lemma dial_servers_last: "servers \<noteq> [] \<Longrightarrow> dial_servers D servers l w = dial_servers D servers l' w"
  by (cases servers) simp_all

lemma resolver_dial_order:
  assumes "servers \<noteq> []"
  shows "resolver_dial D arg servers network address w =
     try_dials D (dial_order servers network (trim_space address)) e w"
  by (simp add: resolver_dial_def dial_order_def try_dials_append dial_servers_order Let_def
      dial_servers_last [OF assms, where l = None and l' = "Some e"] split: prod.split sum.split)

lemma goDNSServersForArg_not_Nil: "goDNSServersForArg arg \<noteq> []"
  by (simp add: goDNSServersForArg_def goDNSServersForPreset_def Let_def)

lemma goDoHEndpointsForArg_not_Nil: "goDoHEndpointsForArg U arg \<noteq> []"
  by (simp add: goDoHEndpointsForArg_def goDoHEndpointsForPreset_def Let_def)

section \<open>The properties\<close>

text \<open>
  C23. A \<^verbatim>\<open>dohConn\<close> behaves as the stream of the last answer: for every sequence of \<^verbatim>\<open>Read\<close>, \<^verbatim>\<open>Write\<close> and
  \<^verbatim>\<open>Close\<close> calls, with buffers of any size, each call returns what it returns on the abstract connection,
  where a read takes the next bytes of the framed answer, the end of the answer is \<^verbatim>\<open>io.EOF\<close>, a failed
  write leaves the old answer in place and nothing is read or written after \<^verbatim>\<open>Close\<close>.
\<close>

theorem doh_stream_refinement:
  "run_calls E cs (newDohConn endpoints) w = spec_calls E endpoints cs NoAnswer w"
  using calls_refine [of E cs "newDohConn endpoints" w] by (simp add: newDohConn_def view_of_def)

text \<open>
  C24. Go's resolver gets through the connection exactly the DNS message an endpoint answered: the message
  it writes with its length before it reaches the endpoint without that prefix, the endpoints are
  asked in their order, the first one that answers counts, and the length and the body read back are
  those of its answer.
\<close>

theorem doh_roundtrip:
  assumes "2 \<le> length msg" "length msg < 2 ^ 16"
    and "\<forall>i < length eps1. \<exists>e. fst (exchange E (eps1 ! i) msg (fold (asked_endpoint E msg) (take i eps1) w)) = Inl e"
    and "exchange E ep msg (fold (asked_endpoint E msg) eps1 w) = (Inr body, w')"
  shows "resolve_stream E msg (newDohConn (eps1 @ ep # eps2)) w = (Inr body, w')"
proof -
  let ?c = "newDohConn (eps1 @ ep # eps2)"
  have len: "length body < 2 ^ 16"
    using assms(4) by (auto simp: exchange_def answer_body_def Let_def split: prod.splits http_outcome.splits sum.splits if_splits)
  have asked: "ask_endpoints E (eps1 @ ep # eps2) msg None w = (Inr body, w')"
    by (rule ask_first_answer [OF assms(3,4)])
  obtain c1 where wr: "doh_write E (frameDNSForTCP msg) ?c w = ((length (frameDNSForTCP msg), None), c1, w')"
    and v: "view_of c1 = Answer (frameDNSForTCP body)"
    using asked by (simp add: doh_write_def newDohConn_def strip_frame [OF assms(1,2)] view_of_def)
  let ?hdr = "take 2 (frameDNSForTCP body)"
  have hdr: "frameDNSForTCP body = ?hdr @ body" "length ?hdr = 2" by (simp_all add: frameDNSForTCP_def)
  obtain c2 where r1: "read_full 2 c1 = Inr (?hdr, c2)" and v2: "view_of c2 = Answer body"
    using read_full_answer [of c1 ?hdr body] v hdr by metis
  obtain c3 where r2: "read_full (length body) c2 = Inr (body, c3)"
    using read_full_answer [of c2 body "[]"] v2 by auto
  have "length_prefix ?hdr = length body"
    using length_prefix_frame [OF len] by (simp add: length_prefix_def frameDNSForTCP_def)
  then show ?thesis using wr r1 r2 by (simp add: resolve_stream_def)
qed


definition demo_http :: "nat doh_env" where
  "demo_http =
     \<lparr>de_http = (\<lambda>ep q n. (if ep = ''a'' then HttpAnswer 503 (Inr []) else HttpAnswer 200 (Inr (q @ q)), Suc n))\<rparr>"

definition demo_msg :: "byte list" where
  "demo_msg = [1, 2, 3, 4, 5, 6]"

theorem doh_roundtrip_witness:
  "resolve_stream demo_http demo_msg (newDohConn [''a'', ''b'', ''c'']) 0 = (Inr (demo_msg @ demo_msg), 2)"
proof -
  have "exchange demo_http ''b'' demo_msg (fold (asked_endpoint demo_http demo_msg) [''a''] 0) = (Inr (demo_msg @ demo_msg), 2)"
    by (simp add: exchange_def demo_http_def answer_body_def asked_endpoint_def demo_msg_def)
  moreover have "\<exists>e. fst (exchange demo_http ''a'' demo_msg 0) = Inl e"
    by (simp add: exchange_def demo_http_def answer_body_def)
  ultimately show ?thesis
    using doh_roundtrip [of demo_msg "[''a'']" demo_http 0 "''b''" "demo_msg @ demo_msg" 2 "[''c'']"]
    by (simp add: demo_msg_def)
qed

text \<open>
  Whatever the setting, a resolver with at least one server is installed, and for plain DNS a dial tries
  every server in order, first over UDP and then over TCP, then the address the system asked for unless
  it is a loopback one, and gives the first connection made or the error of the last attempt.
\<close>

theorem resolver_always_tries:
  "case setupGlobalResolver U arg of
     DohResolver a eps \<Rightarrow> goDNSIsDoH arg \<and> doh_dial a eps = Inr (newDohConn eps) \<and> eps \<noteq> []
   | PlainResolver a servers \<Rightarrow> \<not> goDNSIsDoH arg \<and> servers \<noteq> [] \<and>
       (\<forall>D network address w. resolver_dial D a servers network address w =
          try_dials D (dial_order servers network (trim_space address)) (ErrText []) w)"
  by (auto simp: setupGlobalResolver_def Let_def goDNSServersForArg_not_Nil goDoHEndpointsForArg_not_Nil
      doh_dial_def goDNSIsDoH_def intro!: resolver_dial_order)

text \<open>
  Two settings a user can write do not work as written: a custom DoH list whose prefix is not in lower
  case is taken for DoH but answered by the preset of Yandex, and a custom DNS server given as an IPv6
  address gets no port, so its text cannot be split into host and port by any dial.
\<close>

theorem custom_dns_pitfalls:
  "setupGlobalResolver U ''DOH:https://dns.example/q'' =
     DohResolver ''DOH:https://dns.example/q'' (goDoHEndpointsForPreset ''doh-yandex'') \<and>
   setupGlobalResolver U ''custom:fd00::1'' = PlainResolver ''custom:fd00::1'' [''fd00::1''] \<and>
   split_host_port ''fd00::1'' = Inl too_many_colons"
proof -
  have "trim_space ''DOH:https://dns.example/q'' = ''DOH:https://dns.example/q''" "goDNSIsDoH ''DOH:https://dns.example/q''"
    "\<not> has_prefix ''DOH:https://dns.example/q'' ''doh:''"
    "goDoHEndpointsForPreset ''DOH:https://dns.example/q'' = goDoHEndpointsForPreset ''doh-yandex''"
    by code_simp+
  moreover have "trim_space ''custom:fd00::1'' = ''custom:fd00::1''" "\<not> goDNSIsDoH ''custom:fd00::1''"
    "goDNSServersForArg ''custom:fd00::1'' = [''fd00::1'']" "split_host_port ''fd00::1'' = Inl too_many_colons"
    by code_simp+
  ultimately show ?thesis by (simp add: setupGlobalResolver_def goDoHEndpointsForArg_def Let_def)
qed

end
