(* ===== verification/CaptchaSlider.thy ===== *)
theory CaptchaSlider
  imports VkReplies "HOL-Library.Multiset" "HOL-Library.Product_Lexorder"
begin

text \<open>
  The tile puzzle of \<^verbatim>\<open>captcha_v2_slider.go\<close>: reading the steps of a puzzle, the arrangement of the
  tiles after a number of swaps, the seam scores of an arrangement and the order of the candidates. The
  image is its bounds and the colour at a point. The text score is a sum of floating-point weights: it is
  the parameter \<open>weigh\<close> of the arrangement, with values in any linear order, so the facts do not
  depend on its arithmetic. The second stage is scored by parallel goroutines; \<open>arrival\<close> is the order in
  which their results arrive.
\<close>

section \<open>The steps\<close>

definition splitSliderStepsV2 :: "int list \<Rightarrow> goerr + int \<times> int list \<times> int" where
  "splitSliderStepsV2 steps =
     (if length steps < 3 then Inl (ErrText ''slider steps payload too short'')
      else
        (let size = hd steps in
         if size \<le> 0 then Inl (ErrText (''invalid slider size: '' @ itoa size))
         else
           (let whole = tl steps;
                (tail, attempts) = (if odd (length whole) then (butlast whole, last whole) else (whole, 4));
                attempts' = (if attempts \<le> 0 then 4 else attempts)
            in if tail = [] \<or> odd (length tail) then Inl (ErrText ''invalid slider swap payload'')
               else Inr (size, tail, attempts'))))"

section \<open>Arrangements\<close>

definition activeSwapsForIndexV2 :: "int list \<Rightarrow> int \<Rightarrow> int list" where
  "activeSwapsForIndexV2 swaps index =
     (if index \<le> 0 then [] else take (nat (index * 2)) swaps)"

fun swap_tiles :: "int \<Rightarrow> int list \<Rightarrow> int list \<Rightarrow> goerr + int list" where
  "swap_tiles n (left # right # rest) m =
     (if left < 0 \<or> right < 0 \<or> left \<ge> n \<or> right \<ge> n
      then Inl (ErrText (''slider step out of range: '' @ itoa left @ '','' @ itoa right))
      else swap_tiles n rest (m[nat left := m ! nat right, nat right := m ! nat left]))"
| "swap_tiles n _ m = Inr m"

definition applySliderSwapsV2 :: "int \<Rightarrow> int list \<Rightarrow> goerr + int list" where
  "applySliderSwapsV2 gridSize swaps =
     (let tileCount = wrap64 (gridSize * gridSize) in
      if tileCount \<le> 0 then Inl (ErrText (''invalid slider tile count: '' @ itoa tileCount))
      else if odd (length swaps)
      then Inl (ErrText (''invalid slider swaps length: '' @ itoa (int (length swaps))))
      else swap_tiles tileCount swaps (map int [0..<nat tileCount]))"

section \<open>Seam scores\<close>

record rectangle =
  re_x0 :: int
  re_y0 :: int
  re_x1 :: int
  re_y1 :: int

definition rect_dx :: "rectangle \<Rightarrow> int" where "rect_dx r = re_x1 r - re_x0 r"
definition rect_dy :: "rectangle \<Rightarrow> int" where "rect_dy r = re_y1 r - re_y0 r"

text \<open>A colour is what \<^verbatim>\<open>RGBA()\<close> gives, without the alpha value.\<close>

record slider_image =
  si_bounds :: rectangle
  si_at :: "int \<Rightarrow> int \<Rightarrow> nat \<times> nat \<times> nat"

definition sliderTileRect :: "rectangle \<Rightarrow> int \<Rightarrow> int \<Rightarrow> rectangle" where
  "sliderTileRect b gridSize index =
     (let col = index mod gridSize; row = index div gridSize in
      \<lparr>re_x0 = re_x0 b + (col * rect_dx b) div gridSize,
       re_y0 = re_y0 b + (row * rect_dy b) div gridSize,
       re_x1 = re_x0 b + ((col + 1) * rect_dx b) div gridSize,
       re_y1 = re_y0 b + ((row + 1) * rect_dy b) div gridSize\<rparr>)"

text \<open>
  The quotients are of numbers of the same sign, or by 1 where a tile has no width, so rounding down is
  what the code does.
\<close>

definition sampleColorMappedV2 ::
  "slider_image \<Rightarrow> rectangle \<Rightarrow> rectangle \<Rightarrow> int \<Rightarrow> int \<Rightarrow> nat \<times> nat \<times> nat"
where
  "sampleColorMappedV2 img dst src x y =
     (let dx = max 1 (rect_dx dst); dy = max 1 (rect_dy dst) in
      si_at img (re_x0 src + ((x - re_x0 dst) * rect_dx src) div dx)
                (re_y0 src + ((y - re_y0 dst) * rect_dy src) div dy))"

definition sampleLumaMappedV2 ::
  "slider_image \<Rightarrow> rectangle \<Rightarrow> rectangle \<Rightarrow> int \<Rightarrow> int \<Rightarrow> int"
where
  "sampleLumaMappedV2 img dst src x y =
     (case sampleColorMappedV2 img dst src x y of
        (r, g, b) \<Rightarrow> int ((299 * drop_bit 8 r + 587 * drop_bit 8 g + 114 * drop_bit 8 b) div 1000 mod 256))"

definition pixelDiff :: "nat \<times> nat \<times> nat \<Rightarrow> nat \<times> nat \<times> nat \<Rightarrow> int" where
  "pixelDiff p q =
     (case (p, q) of ((ar, ag, ab), (br, bg, bb)) \<Rightarrow>
        \<bar>int (drop_bit 8 ar) - int (drop_bit 8 br)\<bar> + \<bar>int (drop_bit 8 ag) - int (drop_bit 8 bg)\<bar>
        + \<bar>int (drop_bit 8 ab) - int (drop_bit 8 bb)\<bar>)"

definition int_range :: "int \<Rightarrow> int list" where
  "int_range n = map int [0..<nat n]"

text \<open>The seams of an arrangement: a measure \<open>d\<close> of two neighbouring points, summed over all of them\<close>

definition vertical_seam ::
  "(rectangle \<Rightarrow> rectangle \<Rightarrow> int \<Rightarrow> int \<Rightarrow> 'c) \<Rightarrow> ('c \<Rightarrow> 'c \<Rightarrow> int) \<Rightarrow>
   rectangle \<Rightarrow> int \<Rightarrow> int list \<Rightarrow> int \<Rightarrow> int \<Rightarrow> int"
where
  "vertical_seam sample d b gridSize mapping row col =
     (let leftIdx = row * gridSize + col; rightIdx = leftIdx + 1;
          leftDst = sliderTileRect b gridSize leftIdx; rightDst = sliderTileRect b gridSize rightIdx;
          leftSrc = sliderTileRect b gridSize (mapping ! nat leftIdx);
          rightSrc = sliderTileRect b gridSize (mapping ! nat rightIdx)
      in \<Sum>y \<leftarrow> int_range (min (rect_dy leftDst) (rect_dy rightDst)).
           d (sample leftDst leftSrc (re_x1 leftDst - 1) (re_y0 leftDst + y))
             (sample rightDst rightSrc (re_x0 rightDst) (re_y0 leftDst + y)))"

definition horizontal_seam ::
  "(rectangle \<Rightarrow> rectangle \<Rightarrow> int \<Rightarrow> int \<Rightarrow> 'c) \<Rightarrow> ('c \<Rightarrow> 'c \<Rightarrow> int) \<Rightarrow>
   rectangle \<Rightarrow> int \<Rightarrow> int list \<Rightarrow> int \<Rightarrow> int \<Rightarrow> int"
where
  "horizontal_seam sample d b gridSize mapping row col =
     (let topIdx = row * gridSize + col; bottomIdx = (row + 1) * gridSize + col;
          topDst = sliderTileRect b gridSize topIdx; bottomDst = sliderTileRect b gridSize bottomIdx;
          topSrc = sliderTileRect b gridSize (mapping ! nat topIdx);
          bottomSrc = sliderTileRect b gridSize (mapping ! nat bottomIdx)
      in \<Sum>x \<leftarrow> int_range (min (rect_dx topDst) (rect_dx bottomDst)).
           d (sample topDst topSrc (re_x0 topDst + x) (re_y1 topDst - 1))
             (sample bottomDst bottomSrc (re_x0 topDst + x) (re_y0 bottomDst)))"

definition seam_score ::
  "(rectangle \<Rightarrow> rectangle \<Rightarrow> int \<Rightarrow> int \<Rightarrow> 'c) \<Rightarrow> ('c \<Rightarrow> 'c \<Rightarrow> int) \<Rightarrow>
   rectangle \<Rightarrow> int \<Rightarrow> int list \<Rightarrow> int"
where
  "seam_score sample d b gridSize mapping =
     (\<Sum>row \<leftarrow> int_range gridSize. \<Sum>col \<leftarrow> int_range (gridSize - 1).
        vertical_seam sample d b gridSize mapping row col)
     + (\<Sum>row \<leftarrow> int_range (gridSize - 1). \<Sum>col \<leftarrow> int_range gridSize.
        horizontal_seam sample d b gridSize mapping row col)"

definition seamScoreLumaV2 :: "slider_image \<Rightarrow> int \<Rightarrow> int list \<Rightarrow> int" where
  "seamScoreLumaV2 img gridSize mapping =
     seam_score (sampleLumaMappedV2 img) (\<lambda>a b. \<bar>a - b\<bar>) (si_bounds img) gridSize mapping"

text \<open>The first value of \<^verbatim>\<open>seamScoreRGBTextV2\<close>\<close>

definition seamScoreRGBV2 :: "slider_image \<Rightarrow> int \<Rightarrow> int list \<Rightarrow> int" where
  "seamScoreRGBV2 img gridSize mapping =
     seam_score (sampleColorMappedV2 img) pixelDiff (si_bounds img) gridSize mapping"

section \<open>The order of the candidates\<close>

record 'f sliderGuessV2 =
  sg_Index :: int
  sg_Swaps :: "int list"
  sg_ScoreLuma :: int
  sg_ScoreRGB :: int
  sg_ScoreText :: 'f
  sg_ConsensusRank :: int

fun collect :: "(goerr + 'a) list \<Rightarrow> goerr + 'a list" where
  "collect [] = Inr []"
| "collect (Inl e # rs) = Inl e"
| "collect (Inr x # rs) = (case collect rs of Inl e \<Rightarrow> Inl e | Inr xs \<Rightarrow> Inr (x # xs))"

definition first_guess :: "slider_image \<Rightarrow> int \<Rightarrow> int list \<Rightarrow> int \<Rightarrow> goerr + 'f::zero sliderGuessV2" where
  "first_guess img gridSize swaps idx =
     (let active = activeSwapsForIndexV2 swaps idx in
      case applySliderSwapsV2 gridSize active of
        Inl e \<Rightarrow> Inl e
      | Inr mapping \<Rightarrow>
          Inr \<lparr>sg_Index = idx, sg_Swaps = active, sg_ScoreLuma = seamScoreLumaV2 img gridSize mapping,
               sg_ScoreRGB = 0, sg_ScoreText = 0, sg_ConsensusRank = 0\<rparr>)"

definition first_guesses :: "slider_image \<Rightarrow> int \<Rightarrow> int list \<Rightarrow> goerr + 'f::zero sliderGuessV2 list" where
  "first_guesses img gridSize swaps =
     collect (map (first_guess img gridSize swaps) (map int [1..<Suc (length swaps div 2)]))"

definition luma_order :: "'f sliderGuessV2 list \<Rightarrow> 'f sliderGuessV2 list" where
  "luma_order gs = sort_key (\<lambda>g. (sg_ScoreLuma g, sg_Index g)) gs"

definition stage2_set :: "'f sliderGuessV2 list \<Rightarrow> int set" where
  "stage2_set gs = set (map sg_Index (take (min (length gs) 12) (luma_order gs)))"

text \<open>A lookup in a rank map: the position of the guess with this index\<close>

fun rank_of :: "'f sliderGuessV2 list \<Rightarrow> int \<Rightarrow> int" where
  "rank_of [] i = 0"
| "rank_of (g # gs) i = (if sg_Index g = i then 0 else 1 + rank_of gs i)"

text \<open>One job of the second stage, and the loop over the results\<close>

definition stage2_job ::
  "(int list \<Rightarrow> 'f) \<Rightarrow> slider_image \<Rightarrow> int \<Rightarrow> 'f sliderGuessV2 list \<Rightarrow> int \<Rightarrow> goerr + int \<times> int \<times> 'f"
where
  "stage2_job weigh img gridSize gs index =
     (case applySliderSwapsV2 gridSize (sg_Swaps (gs ! nat (index - 1))) of
        Inl e \<Rightarrow> Inl e
      | Inr mapping \<Rightarrow> Inr (index, seamScoreRGBV2 img gridSize mapping, weigh mapping))"

definition store_result :: "int \<times> int \<times> 'f \<Rightarrow> 'f sliderGuessV2 list \<Rightarrow> 'f sliderGuessV2 list" where
  "store_result r gs =
     (case r of (index, rgb, txt) \<Rightarrow>
        gs[nat (index - 1) := (gs ! nat (index - 1))\<lparr>sg_ScoreRGB := rgb, sg_ScoreText := txt\<rparr>])"

text \<open>The ranks and the final order; \<open>gs0\<close> are the guesses after the first stage, \<open>gs\<close> after the second.\<close>

definition consensus ::
  "'f::linorder sliderGuessV2 list \<Rightarrow> 'f sliderGuessV2 list \<Rightarrow> 'f sliderGuessV2 list"
where
  "consensus gs0 gs =
     (let S = stage2_set gs0;
          stage2 = [g \<leftarrow> gs. sg_Index g \<in> S];
          rgbOrder = sort_key (\<lambda>g. (sg_ScoreRGB g, sg_Index g)) stage2;
          textOrder = sort_key (\<lambda>g. (sg_ScoreText g, sg_Index g)) stage2;
          ranked = map (\<lambda>g. g\<lparr>sg_ConsensusRank :=
             rank_of (luma_order gs0) (sg_Index g)
             + (if sg_Index g \<in> S then rank_of rgbOrder (sg_Index g) + rank_of textOrder (sg_Index g)
                else int (length gs))\<rparr>) gs
      in sort_key (\<lambda>g. (sg_ConsensusRank g, sg_ScoreLuma g, sg_Index g)) ranked)"

definition rankSliderGuessesV2 ::
  "(int list \<Rightarrow> 'f) \<Rightarrow> slider_image \<Rightarrow> int \<Rightarrow> int list \<Rightarrow> int list \<Rightarrow>
   goerr + 'f::{linorder,zero} sliderGuessV2 list"
where
  "rankSliderGuessesV2 weigh img gridSize swaps arrival =
     (if length swaps div 2 = 0 then Inl (ErrText ''slider has no candidates'')
      else
        (case first_guesses img gridSize swaps of
           Inl e \<Rightarrow> Inl e
         | Inr gs \<Rightarrow>
             (case collect (map (stage2_job weigh img gridSize gs) arrival) of
                Inl e \<Rightarrow> Inl e
              | Inr results \<Rightarrow> Inr (consensus gs (fold store_result results gs)))))"


section \<open>Facts about arrangements\<close>

lemma swap_tiles_mset:
  "swap_tiles n swaps m = Inr m' \<Longrightarrow> n = int (length m) \<Longrightarrow> mset m' = mset m"
proof (induction n swaps m rule: swap_tiles.induct)
  case (1 n left right rest m)
  let ?m = "m[nat left := m ! nat right, nat right := m ! nat left]"
  have ok: "0 \<le> left" "0 \<le> right" "left < n" "right < n" and rec: "swap_tiles n rest ?m = Inr m'"
    using "1.prems"(1) by (simp_all split: if_split_asm)
  have "mset m' = mset ?m" using "1.IH" [OF _ rec] ok "1.prems"(2) by simp
  also have "mset ?m = mset m"
    by (rule mset_swap) (use ok "1.prems"(2) in simp_all)
  finally show ?case .
qed auto

lemma slider_mapping:
  "applySliderSwapsV2 gridSize swaps = Inr m \<Longrightarrow>
     mset m = mset (map int [0..<nat (wrap64 (gridSize * gridSize))]) \<and> 0 < wrap64 (gridSize * gridSize)"
  by (auto simp: applySliderSwapsV2_def Let_def split: if_split_asm dest!: swap_tiles_mset)

section \<open>Facts about the order\<close>

lemma collect_Inr: "collect rs = Inr xs \<longleftrightarrow> rs = map Inr xs"
proof (induction rs arbitrary: xs rule: collect.induct)
  case (3 x rs)
  then show ?case by (cases "collect rs") (auto simp: Cons_eq_map_conv simp flip: 3)
qed auto

text \<open>\<open>arrival\<close> has every candidate of the second stage once.\<close>

definition arrives :: "'f sliderGuessV2 list \<Rightarrow> int list \<Rightarrow> bool" where
  "arrives gs arrival \<longleftrightarrow> distinct arrival \<and> set arrival = stage2_set gs"

lemma first_guess_fields:
  "first_guess img gridSize swaps idx = Inr g \<Longrightarrow>
     sg_Index g = idx \<and> sg_Swaps g = activeSwapsForIndexV2 swaps idx
     \<and> (\<exists>m. applySliderSwapsV2 gridSize (sg_Swaps g) = Inr m)"
  by (auto simp: first_guess_def Let_def split: sum.split_asm)

lemma first_guesses_fields:
  assumes "first_guesses img gridSize swaps = Inr gs"
  shows "length gs = length swaps div 2"
    and "i < length gs \<Longrightarrow> sg_Index (gs ! i) = int i + 1"
    and "i < length gs \<Longrightarrow> sg_Swaps (gs ! i) = activeSwapsForIndexV2 swaps (int i + 1)"
    and "i < length gs \<Longrightarrow> \<exists>m. applySliderSwapsV2 gridSize (sg_Swaps (gs ! i)) = Inr m"
proof -
  have m: "map (first_guess img gridSize swaps) (map int [1..<Suc (length swaps div 2)]) = map Inr gs"
    using assms by (simp add: first_guesses_def collect_Inr)
  show len: "length gs = length swaps div 2" using arg_cong [OF m, of length] by (simp del: upt_Suc)
  have f: "first_guess img gridSize swaps (int i + 1) = Inr (gs ! i)" if "i < length gs" for i
    using arg_cong [OF m, of "\<lambda>l. l ! i"] that len by (simp add: add.commute del: upt_Suc)
  show "i < length gs \<Longrightarrow> sg_Index (gs ! i) = int i + 1"
    and "i < length gs \<Longrightarrow> sg_Swaps (gs ! i) = activeSwapsForIndexV2 swaps (int i + 1)"
    and "i < length gs \<Longrightarrow> \<exists>m. applySliderSwapsV2 gridSize (sg_Swaps (gs ! i)) = Inr m"
    using first_guess_fields [OF f] by blast+
qed

lemma guess_indexes:
  assumes "first_guesses img gridSize swaps = Inr gs"
  shows "map sg_Index gs = map int [1..<Suc (length gs)]"
  by (rule nth_equalityI) (simp_all add: first_guesses_fields [OF assms] del: upt_Suc)

lemma stage2_range:
  assumes "first_guesses img gridSize swaps = Inr gs" "j \<in> stage2_set gs"
  shows "1 \<le> j \<and> j \<le> int (length gs)"
proof -
  have "j \<in> sg_Index ` set (luma_order gs)"
    using assms(2) by (auto simp: stage2_set_def dest: in_set_takeD)
  then have "j \<in> set (map sg_Index gs)" by (simp add: luma_order_def)
  then show ?thesis using guess_indexes [OF assms(1)] by auto
qed

text \<open>What the second stage makes of a guess\<close>

definition scored :: "(int list \<Rightarrow> 'f) \<Rightarrow> slider_image \<Rightarrow> int \<Rightarrow> 'f sliderGuessV2 \<Rightarrow> 'f sliderGuessV2" where
  "scored weigh img gridSize g =
     (case applySliderSwapsV2 gridSize (sg_Swaps g) of
        Inl e \<Rightarrow> g
      | Inr m \<Rightarrow> g\<lparr>sg_ScoreRGB := seamScoreRGBV2 img gridSize m, sg_ScoreText := weigh m\<rparr>)"

lemma scored_sel [simp]:
  "sg_Index (scored weigh img gridSize g) = sg_Index g" "sg_Swaps (scored weigh img gridSize g) = sg_Swaps g"
  "sg_ScoreLuma (scored weigh img gridSize g) = sg_ScoreLuma g"
  by (simp_all add: scored_def split: sum.split)

lemma store_results:
  assumes gs: "first_guesses img gridSize swaps = Inr gs"
    and "distinct arrival" "set arrival \<subseteq> {1 .. int (length gs)}"
  shows "\<exists>results. collect (map (stage2_job weigh img gridSize gs) arrival) = Inr results \<and>
     fold store_result results gs = map (\<lambda>g. if sg_Index g \<in> set arrival then scored weigh img gridSize g else g) gs"
  using assms(2,3)
proof (induction arrival rule: rev_induct)
  case Nil
  then show ?case by simp
next
  case (snoc j arrival)
  let ?gs = "\<lambda>A. map (\<lambda>g. if sg_Index g \<in> A then scored weigh img gridSize g else g) gs"
  obtain results where r: "collect (map (stage2_job weigh img gridSize gs) arrival) = Inr results"
    "fold store_result results gs = ?gs (set arrival)"
    using snoc by auto
  define i where "i = nat (j - 1)"
  have i: "i < length gs" "j = int i + 1" using snoc.prems(2) by (auto simp: i_def)
  have idx: "sg_Index (gs ! k) = int k + 1" if "k < length gs" for k
    using first_guesses_fields(2) [OF gs that] .
  obtain m where m: "applySliderSwapsV2 gridSize (sg_Swaps (gs ! i)) = Inr m"
    using first_guesses_fields(4) [OF gs i(1)] by blast
  have job: "stage2_job weigh img gridSize gs j = Inr (j, seamScoreRGBV2 img gridSize m, weigh m)"
    using m by (simp add: stage2_job_def i_def)
  have "store_result (j, seamScoreRGBV2 img gridSize m, weigh m) (?gs (set arrival)) = ?gs (insert j (set arrival))"
  proof (rule nth_equalityI)
    fix k assume "k < length (store_result (j, seamScoreRGBV2 img gridSize m, weigh m) (?gs (set arrival)))"
    then have k: "k < length gs" by (simp add: store_result_def)
    show "store_result (j, seamScoreRGBV2 img gridSize m, weigh m) (?gs (set arrival)) ! k = ?gs (insert j (set arrival)) ! k"
      using snoc.prems(1) k i idx [OF k] idx [OF i(1)] m
      by (auto simp: store_result_def i_def [symmetric] nth_list_update scored_def)
  qed (simp add: store_result_def)
  moreover have "collect (map (stage2_job weigh img gridSize gs) (arrival @ [j])) =
      Inr (results @ [(j, seamScoreRGBV2 img gridSize m, weigh m)])"
    using r(1) job by (simp add: collect_Inr)
  ultimately show ?case using r(2) by simp
qed

lemma consensus_facts:
  fixes gs :: "'f::linorder sliderGuessV2 list"
  shows "image_mset sg_Index (mset (consensus gs0 gs)) = mset (map sg_Index gs)"
    and "image_mset (\<lambda>g. (sg_Index g, sg_Swaps g)) (mset (consensus gs0 gs)) =
      mset (map (\<lambda>g. (sg_Index g, sg_Swaps g)) gs)"
    and "sorted (map (\<lambda>g. (sg_ConsensusRank g, sg_ScoreLuma g, sg_Index g)) (consensus gs0 gs))"
  by (simp_all add: consensus_def Let_def image_mset.compositionality comp_def)


lemma rank_in_order:
  fixes gs :: "'f::{linorder,zero} sliderGuessV2 list" and weigh :: "int list \<Rightarrow> 'f"
  assumes "first_guesses img gridSize swaps = Inr gs" "arrives gs arrival" "2 \<le> length swaps"
  shows "rankSliderGuessesV2 weigh img gridSize swaps arrival =
     Inr (consensus gs (map (\<lambda>g. if sg_Index g \<in> stage2_set gs then scored weigh img gridSize g else g) gs))"
proof -
  have "distinct arrival" "set arrival \<subseteq> {1 .. int (length gs)}"
    using assms(2) stage2_range [OF assms(1)] by (auto simp: arrives_def)
  from store_results [OF assms(1) this, of weigh] show ?thesis
    using assms by (auto simp: rankSliderGuessesV2_def arrives_def del: upt_Suc)
qed

section \<open>The property\<close>

text \<open>
  C34. The candidates of a tile puzzle are put in an order that does not depend on how the parallel second
  stage runs: if the first stage gives a score to every candidate, the second never fails, for any two orders
  in which its results arrive the list is the same, it has every number of swaps from one to all of them once,
  with exactly these swaps, which rearrange the tiles without losing one, and it is sorted by the consensus
  rank, then the brightness score, then the number.
\<close>

theorem slider_ranking:
  fixes gs :: "'f::{linorder,zero} sliderGuessV2 list" and weigh :: "int list \<Rightarrow> 'f"
  assumes "first_guesses img gridSize swaps = Inr gs" "2 \<le> length swaps"
    and "arrives gs arrival" "arrives gs arrival'"
  shows "\<exists>out. rankSliderGuessesV2 weigh img gridSize swaps arrival = Inr out
     \<and> rankSliderGuessesV2 weigh img gridSize swaps arrival' = Inr out
     \<and> mset (map sg_Index out) = mset (map int [1..<Suc (length swaps div 2)])
     \<and> (\<forall>g \<in> set out. sg_Swaps g = take (nat (2 * sg_Index g)) swaps
          \<and> (\<exists>m. applySliderSwapsV2 gridSize (sg_Swaps g) = Inr m
               \<and> mset m = mset (map int [0..<nat (wrap64 (gridSize * gridSize))])))
     \<and> sorted (map (\<lambda>g. (sg_ConsensusRank g, sg_ScoreLuma g, sg_Index g)) out)"
proof -
  let ?gs = "map (\<lambda>g. if sg_Index g \<in> stage2_set gs then scored weigh img gridSize g else g) gs"
  let ?out = "consensus gs ?gs"
  have same: "map sg_Index ?gs = map sg_Index gs"
    "map (\<lambda>g. (sg_Index g, sg_Swaps g)) ?gs = map (\<lambda>g. (sg_Index g, sg_Swaps g)) gs" by simp_all
  have "mset (map sg_Index ?out) = mset (map int [1..<Suc (length swaps div 2)])"
    using consensus_facts(1) [of gs ?gs]
    by (simp only: same mset_map [symmetric] guess_indexes [OF assms(1)] first_guesses_fields(1) [OF assms(1)])
  moreover have "sg_Swaps g = take (nat (2 * sg_Index g)) swaps
          \<and> (\<exists>m. applySliderSwapsV2 gridSize (sg_Swaps g) = Inr m
               \<and> mset m = mset (map int [0..<nat (wrap64 (gridSize * gridSize))]))" if "g \<in> set ?out" for g
  proof -
    have "(sg_Index g, sg_Swaps g) \<in># image_mset (\<lambda>g. (sg_Index g, sg_Swaps g)) (mset ?out)" using that by simp
    then have "(sg_Index g, sg_Swaps g) \<in> set (map (\<lambda>g. (sg_Index g, sg_Swaps g)) gs)"
      by (simp only: consensus_facts(2) same set_mset_mset)
    then obtain i where i: "i < length gs" "sg_Index g = sg_Index (gs ! i)" "sg_Swaps g = sg_Swaps (gs ! i)"
      by (auto simp: in_set_conv_nth)
    then show ?thesis
      using first_guesses_fields(2-4) [OF assms(1), of i]
      by (auto simp: activeSwapsForIndexV2_def mult.commute simp del: mset_map dest: slider_mapping)
  qed
  ultimately show ?thesis
    using rank_in_order [OF assms(1) assms(3) assms(2)] rank_in_order [OF assms(1) assms(4) assms(2)]
      consensus_facts(3) [of gs ?gs] by blast
qed

lemma seam_score_flat:
  "(\<And>dst src x y. sample dst src x y = c) \<Longrightarrow> d c c = 0 \<Longrightarrow> seam_score sample d b gridSize mapping = 0"
  by (simp add: seam_score_def vertical_seam_def horizontal_seam_def Let_def comp_def)

definition demo_image :: slider_image where
  "demo_image = \<lparr>si_bounds = \<lparr>re_x0 = 0, re_y0 = 0, re_x1 = 4, re_y1 = 4\<rparr>, si_at = (\<lambda>x y. (65535, 65535, 65535))\<rparr>"

definition demo_guesses :: "int sliderGuessV2 list" where
  "demo_guesses =
     [\<lparr>sg_Index = 1, sg_Swaps = [0, 1], sg_ScoreLuma = 0, sg_ScoreRGB = 0, sg_ScoreText = 0, sg_ConsensusRank = 0\<rparr>,
      \<lparr>sg_Index = 2, sg_Swaps = [0, 1, 2, 3], sg_ScoreLuma = 0, sg_ScoreRGB = 0, sg_ScoreText = 0, sg_ConsensusRank = 0\<rparr>]"

theorem slider_ranking_witness:
  "\<exists>out. rankSliderGuessesV2 (\<lambda>m. 0) demo_image 2 [0, 1, 2, 3] [1, 2] = Inr (out :: int sliderGuessV2 list)
     \<and> rankSliderGuessesV2 (\<lambda>m. 0) demo_image 2 [0, 1, 2, 3] [2, 1] = Inr out
     \<and> mset (map sg_Index out) = {#1, 2#}"
proof -
  have flat: "seamScoreLumaV2 demo_image gridSize m = 0" for gridSize m
    unfolding seamScoreLumaV2_def
    by (rule seam_score_flat [where c = 255]) (simp_all add: sampleLumaMappedV2_def sampleColorMappedV2_def demo_image_def Let_def)
  have idx: "map int [1..<Suc (length [0::int, 1, 2, 3] div 2)] = [1, 2]" by code_simp
  have "applySliderSwapsV2 2 [0, 1] = Inr [1, 0, 2, 3]" "applySliderSwapsV2 2 [0, 1, 2, 3] = Inr [1, 0, 3, 2]"
    by code_simp+
  then have "first_guesses demo_image 2 [0, 1, 2, 3] = Inr demo_guesses"
    unfolding first_guesses_def idx by (simp add: first_guess_def activeSwapsForIndexV2_def flat demo_guesses_def)
  moreover have "stage2_set demo_guesses = {1, 2}" by code_simp
  ultimately show ?thesis
    using slider_ranking [of demo_image 2 "[0, 1, 2, 3]" demo_guesses "[1, 2]" "[2, 1]" "\<lambda>m. 0"]
    unfolding idx by (auto simp: arrives_def)
qed

text \<open>
  The size of the grid is taken from the reply without an upper bound: a size of \<open>2 ^ 31\<close> is accepted, and the
  arrangement would have \<open>2 ^ 62\<close> tiles; for \<open>2 ^ 32\<close> the product wraps around to 0.
\<close>

lemma slider_grid_unbounded:
  "splitSliderStepsV2 [2 ^ 31, 0, 1] = Inr (2 ^ 31, [0, 1], 4)" "wrap64 (2 ^ 31 * 2 ^ 31) = 2 ^ 62"
  "applySliderSwapsV2 (2 ^ 32) [0, 1] = Inl (ErrText ''invalid slider tile count: 0'')"
proof -
  have "itoa 0 = ''0''" by code_simp
  then show "applySliderSwapsV2 (2 ^ 32) [0, 1] = Inl (ErrText ''invalid slider tile count: 0'')"
    by (simp add: applySliderSwapsV2_def wrap64_def)
qed (simp_all add: splitSliderStepsV2_def wrap64_def)

end
