(* ===== verification/CaptchaSolver.thy ===== *)
theory CaptchaSolver
  imports VkLegacy Obfs CaptchaSlider
begin

text \<open>
  One attempt of the automatic captcha solver, \<^verbatim>\<open>solveOnce\<close> of \<^verbatim>\<open>captcha_v2.go\<close> with
  \<^verbatim>\<open>solveSliderCaptcha\<close> of \<^verbatim>\<open>captcha_v2_slider.go\<close>: the page, the proof of work, the requests, and the
  loop over the kinds of captcha. The world \<open>'w\<close> answers the HTTP requests; what the regular expressions
  find in a page, the hash function, the decoders, the path of the cursor (\<^verbatim>\<open>SliderCursor\<close>) and the values drawn at random are
  fields of the environment; the identity of the session and the headers of its requests are in \<^verbatim>\<open>CaptchaIdentity\<close>, the scores of
  the pictures in \<^verbatim>\<open>SliderScore\<close>. The loop over the kinds has no bound in the code: it is a partial function here, and the
  property says that it returns.
\<close>

section \<open>The environment\<close>

record captchaV2Init =
  ci_ShowCaptchaType :: string
  ci_CaptchaSettings :: "(string \<times> string) list"   \<comment> \<open>type and settings\<close>

text \<open>The regular expressions: what each finds in a text\<close>

record page_patterns =
  pp_IIFEArgs :: "string \<Rightarrow> (string \<times> string) option"
  pp_PowInput :: "string \<Rightarrow> string option"
  pp_Difficulty :: "string \<Rightarrow> string option"
  pp_GlobalStart :: "string \<Rightarrow> nat option"            \<comment> \<open>the end of the match\<close>
  pp_GlobalUUID :: "string \<Rightarrow> string option"
  pp_GlobalLang :: "string \<Rightarrow> string option"
  pp_Telemetry :: "string \<Rightarrow> bool"
  pp_WindowInit :: "string \<Rightarrow> string option"
  pp_ScriptSrc :: "string \<Rightarrow> string option"
  pp_DebugInfo :: "string \<Rightarrow> string option"

record ('w, 'f) solver_env =
  ce_raw :: "string \<Rightarrow> string option \<Rightarrow> 'w \<Rightarrow> (goerr + string) \<times> 'w"
  ce_json :: "string \<Rightarrow> goerr + jmap"
  ce_init :: "string \<Rightarrow> captchaV2Init option"
  ce_base64 :: "string \<Rightarrow> string"
  ce_image :: "string \<Rightarrow> goerr + slider_image"          \<comment> \<open>base64, then the image\<close>
  ce_sha256 :: "string \<Rightarrow> byte list"
  ce_fmt :: "rat \<Rightarrow> string"
  ce_patterns :: page_patterns
  ce_weigh :: "int list \<Rightarrow> 'f"
  ce_arrival :: "'f sliderGuessV2 list \<Rightarrow> int list"
  ce_cursor :: "int \<Rightarrow> int \<Rightarrow> 'w \<Rightarrow> string \<times> 'w"
  ce_rand :: "nat \<Rightarrow> 'w \<Rightarrow> nat \<times> 'w"
  ce_wait :: "duration \<Rightarrow> 'w \<Rightarrow> goerr option \<times> 'w"
  ce_done :: "'w \<Rightarrow> int \<Rightarrow> bool"                           \<comment> \<open>the context has ended at this nonce\<close>
  ce_millis :: "'w \<Rightarrow> int"
  ce_browserFP :: "'w \<Rightarrow> (goerr + string) \<times> 'w"
  ce_cached :: "string \<Rightarrow> 'w \<Rightarrow> string option"          \<comment> \<open>\<^verbatim>\<open>captchaV2DebugCache\<close>\<close>
  ce_store :: "string \<Rightarrow> string \<Rightarrow> 'w \<Rightarrow> 'w"

record captchaV2Session =
  cs_domain :: string
  cs_deviceJSON :: string
  cs_BrowserFp :: string

datatype captcha_fail = CaptchaFailed goerr | ShowTypeError string

definition errCaptchaV2Bot :: goerr where
  "errCaptchaV2Bot = Sentinel ''captcha bot challenge''"

definition captcha_text_error :: "string \<Rightarrow> captcha_fail + 'a" where
  "captcha_text_error s = Inl (CaptchaFailed (ErrText s))"

section \<open>Forms\<close>

definition captchaV2QueryEscape :: "string \<Rightarrow> string" where
  "captchaV2QueryEscape s =
     concat (map (\<lambda>c. if c = CHR '' '' then ''+'' else if unreserved c then [c]
       else [CHR 0x25, upper_hex (byte_of c div 16), upper_hex (byte_of c mod 16)]) s)"

definition captchaV2EncodeForm :: "(string \<times> string) list \<Rightarrow> string" where
  "captchaV2EncodeForm values =
     join ''&'' (map (\<lambda>(k, v). captchaV2QueryEscape k @ ''='' @ captchaV2QueryEscape v) values)"

definition captchaV2APIVersion :: string where
  "captchaV2APIVersion = ''5.131''"

text \<open>An error of the world, with a text in front\<close>

definition lift_raw :: "string \<Rightarrow> ('w \<Rightarrow> (goerr + 'a) \<times> 'w) \<Rightarrow> 'w \<Rightarrow> (captcha_fail + 'a) \<times> 'w" where
  "lift_raw what f w =
     (case f w of
        (Inl e, w') \<Rightarrow> (Inl (CaptchaFailed (if what = [] then e else ErrWrap what e [])), w')
      | (Inr x, w') \<Rightarrow> (Inr x, w'))"

definition captchaRequest ::
  "('w, 'f) solver_env \<Rightarrow> string \<Rightarrow> (string \<times> string) list \<Rightarrow> 'w \<Rightarrow> (goerr + jmap) \<times> 'w"
where
  "captchaRequest ce method form =
     bindE (ce_raw ce (''https://api.vk.ru/method/'' @ method @ ''?v='' @ captchaV2APIVersion)
              (Some (captchaV2EncodeForm form)))
       (\<lambda>body. withE (case ce_json ce body of
          Inl e \<Rightarrow> Inl (ErrWrap ''captcha api decode: '' e [])
        | Inr m \<Rightarrow> Inr m))"

definition captchaV2BaseValues :: "string \<Rightarrow> string \<Rightarrow> (string \<times> string) list" where
  "captchaV2BaseValues sessionToken domain =
     [(''session_token'', sessionToken), (''domain'', domain), (''adFp'', []), (''access_token'', [])]"

fun captchaV2StringifyAny :: "(rat \<Rightarrow> string) \<Rightarrow> json \<Rightarrow> string" where
  "captchaV2StringifyAny fmt JNull = []"
| "captchaV2StringifyAny fmt (JStr s) = s"
| "captchaV2StringifyAny fmt (JNum x) = num_text fmt x"
| "captchaV2StringifyAny fmt (JBool b) = (if b then ''true'' else ''false'')"
| "captchaV2StringifyAny fmt v = marshal fmt v"

section \<open>The check\<close>

record captchaV2Check =
  ck_Status :: string
  ck_SuccessToken :: string
  ck_ShowType :: string

definition parseCaptchaV2Check :: "(rat \<Rightarrow> string) \<Rightarrow> jmap \<Rightarrow> captcha_fail + captchaV2Check" where
  "parseCaptchaV2Check fmt raw =
     (case as_obj (jget raw ''response'') of
        None \<Rightarrow> captcha_text_error (''invalid captcha check response: '' @ show_json fmt (JObj raw))
      | Some resp \<Rightarrow>
          (let out = \<lparr>ck_Status = captchaV2StringifyAny fmt (jget resp ''status''),
                      ck_SuccessToken = captchaV2StringifyAny fmt (jget resp ''success_token''),
                      ck_ShowType = captchaV2StringifyAny fmt (jget resp ''show_captcha_type'')\<rparr>
           in if ck_Status out = []
              then captcha_text_error (''captcha check status missing: '' @ show_json fmt (JObj raw))
              else Inr out))"

definition performCaptchaCheck ::
  "('w, 'f) solver_env \<Rightarrow> captchaV2Session \<Rightarrow> string \<Rightarrow> string \<Rightarrow> string \<Rightarrow> string \<Rightarrow> string \<Rightarrow> string \<Rightarrow>
   'w \<Rightarrow> (captcha_fail + captchaV2Check) \<times> 'w"
where
  "performCaptchaCheck ce s token browserFP hash answerJSON cursor debugInfo =
     bindE (lift_raw ''captcha check failed: '' (captchaRequest ce ''captchaNotRobot.check''
        [(''session_token'', token), (''domain'', cs_domain s), (''adFp'', []), (''accelerometer'', ''[]''),
         (''gyroscope'', ''[]''), (''motion'', ''[]''), (''cursor'', cursor), (''taps'', ''[]''),
         (''browser_fp'', browserFP), (''hash'', hash), (''answer'', ce_base64 ce answerJSON),
         (''debug_info'', debugInfo), (''access_token'', [])]))
       (\<lambda>resp. withE (parseCaptchaV2Check (ce_fmt ce) resp))"

section \<open>The checkbox\<close>

definition pause_of :: "('w, 'f) solver_env \<Rightarrow> nat \<Rightarrow> nat \<Rightarrow> 'w \<Rightarrow> (captcha_fail + unit) \<times> 'w" where
  "pause_of ce base spread w =
     (case ce_rand ce spread w of (k, w1) \<Rightarrow>
        (case ce_wait ce ((int base + int k) * millisecond) w1 of
           (Some e, w2) \<Rightarrow> (Inl (CaptchaFailed e), w2)
         | (None, w2) \<Rightarrow> (Inr (), w2)))"

definition component_done ::
  "('w, 'f) solver_env \<Rightarrow> captchaV2Session \<Rightarrow> string \<Rightarrow> string \<Rightarrow> 'w \<Rightarrow> (captcha_fail + jmap) \<times> 'w"
where
  "component_done ce s token browserFP =
     lift_raw ''captcha componentDone failed: '' (captchaRequest ce ''captchaNotRobot.componentDone''
        [(''session_token'', token), (''domain'', cs_domain s), (''adFp'', []), (''browser_fp'', browserFP),
         (''device'', cs_deviceJSON s), (''access_token'', [])])"

definition checkbox_result :: "captchaV2Check \<Rightarrow> captcha_fail + string" where
  "checkbox_result check =
     (if ck_ShowType check \<noteq> [] \<and> \<not> equal_fold (ck_ShowType check) ''checkbox''
      then Inl (ShowTypeError (ck_ShowType check))
      else if equal_fold (ck_Status check) ''error_limit'' then Inl (CaptchaFailed errCaptchaV2RateLimit)
      else if equal_fold (ck_Status check) ''bot''
      then Inl (CaptchaFailed (ErrWrap [] errCaptchaV2Bot ('': checkbox captcha rejected: status='' @ ck_Status check)))
      else if \<not> equal_fold (ck_Status check) ''ok''
      then captcha_text_error (''checkbox captcha rejected: status='' @ ck_Status check)
      else if ck_SuccessToken check = [] then captcha_text_error ''captcha success token not found''
      else Inr (ck_SuccessToken check))"

definition solveCheckboxCaptcha ::
  "('w, 'f) solver_env \<Rightarrow> captchaV2Session \<Rightarrow> string \<Rightarrow> string \<Rightarrow> string \<Rightarrow> string \<Rightarrow>
   'w \<Rightarrow> (captcha_fail + string) \<times> 'w"
where
  "solveCheckboxCaptcha ce s token browserFP hash debugInfo =
     bindE (component_done ce s token browserFP) (\<lambda>_.
     bindE (pause_of ce 800 500) (\<lambda>_.
     bindE (performCaptchaCheck ce s token browserFP hash ''{}'' ''[]'' debugInfo) (\<lambda>check.
       withE (checkbox_result check))))"

section \<open>The tile puzzle\<close>

record sliderPuzzleV2 =
  sp_Image :: slider_image
  sp_Size :: int
  sp_Swaps :: "int list"
  sp_Attempts :: int

definition captchaV2MaxSliderChecks :: int where
  "captchaV2MaxSliderChecks = 2"

text \<open>One element of \<^verbatim>\<open>steps\<close>\<close>

fun slider_step :: "(rat \<Rightarrow> string) \<Rightarrow> json \<Rightarrow> goerr + int" where
  "slider_step fmt (JNum x) = Inr (go_int x)"
| "slider_step fmt (JStr v) =
     (case atoi (trim_space v) of
        (n, ok) \<Rightarrow> if ok then Inr n else Inl (ErrText (''invalid numeric value: '' @ v)))"
| "slider_step fmt v = Inl (ErrText (''invalid numeric value: '' @ show_json fmt v))"

definition parseSliderPuzzleV2 ::
  "('w, 'f) solver_env \<Rightarrow> jmap \<Rightarrow> goerr + sliderPuzzleV2"
where
  "parseSliderPuzzleV2 ce raw =
     (case as_obj (jget raw ''response'') of
        None \<Rightarrow> Inl (ErrText (''invalid slider content response: '' @ show_json (ce_fmt ce) (JObj raw)))
      | Some resp \<Rightarrow>
          (let status = captchaV2StringifyAny (ce_fmt ce) (jget resp ''status'');
               rawImage = captchaV2StringifyAny (ce_fmt ce) (jget resp ''image'') in
           if \<not> equal_fold status ''ok'' then
             (if equal_fold status ''error'' \<or> equal_fold status ''error_limit''
              then Inl errCaptchaV2RateLimit
              else Inl (ErrText (''slider getContent status: '' @ status)))
           else if rawImage = [] then Inl (ErrText ''slider image missing'')
           else
             (case as_arr (jget resp ''steps'') of
                None \<Rightarrow> Inl (ErrText ''slider steps missing'')
              | Some rawSteps \<Rightarrow>
                  (case collect (map (slider_step (ce_fmt ce)) rawSteps) of
                     Inl e \<Rightarrow> Inl e
                   | Inr steps \<Rightarrow>
                       (case splitSliderStepsV2 steps of
                          Inl e \<Rightarrow> Inl e
                        | Inr (sz, swaps, attempts) \<Rightarrow>
                            (case ce_image ce rawImage of
                               Inl e \<Rightarrow> Inl (ErrWrap ''decode slider image: '' e [])
                             | Inr img \<Rightarrow>
                                 Inr \<lparr>sp_Image = img, sp_Size = sz, sp_Swaps = swaps, sp_Attempts = attempts\<rparr>))))))"

definition answer_json :: "(rat \<Rightarrow> string) \<Rightarrow> int list \<Rightarrow> string" where
  "answer_json fmt swaps = marshal fmt (JObj [(''value'', JArr (map (\<lambda>i. JNum (of_int i)) swaps))])"

text \<open>The loop over the guesses within the limit; there is no pause after the last one.\<close>

fun slider_attempts ::
  "('w, 'f) solver_env \<Rightarrow> captchaV2Session \<Rightarrow> string \<Rightarrow> string \<Rightarrow> string \<Rightarrow> string \<Rightarrow> int \<Rightarrow>
   'f sliderGuessV2 list \<Rightarrow> 'w \<Rightarrow> (captcha_fail + string) \<times> 'w"
where
  "slider_attempts ce s token browserFP hash debugInfo cands [] w =
     (captcha_text_error ''slider guesses exhausted'', w)"
| "slider_attempts ce s token browserFP hash debugInfo cands (g # rest) w =
     (case ce_cursor ce (sg_Index g) cands w of
        (cursor, w1) \<Rightarrow>
          (case performCaptchaCheck ce s token browserFP hash (answer_json (ce_fmt ce) (sg_Swaps g)) cursor debugInfo w1 of
             (Inl e, w2) \<Rightarrow> (Inl e, w2)
           | (Inr check, w2) \<Rightarrow>
               if equal_fold (ck_Status check) ''ok'' then
                 (if ck_SuccessToken check = [] then (captcha_text_error ''captcha success token not found'', w2)
                  else (Inr (ck_SuccessToken check), w2))
               else if equal_fold (ck_Status check) ''error_limit''
               then (Inl (CaptchaFailed errCaptchaV2RateLimit), w2)
               else if rest = [] then slider_attempts ce s token browserFP hash debugInfo cands rest w2
               else
                 (case pause_of ce 350 300 w2 of
                    (Inl e, w3) \<Rightarrow> (Inl e, w3)
                  | (Inr u, w3) \<Rightarrow> slider_attempts ce s token browserFP hash debugInfo cands rest w3)))"

definition ranked_guesses ::
  "('w, 'f::{linorder,zero}) solver_env \<Rightarrow> sliderPuzzleV2 \<Rightarrow> goerr + 'f sliderGuessV2 list"
where
  "ranked_guesses ce p =
     rankSliderGuessesV2 (ce_weigh ce) (sp_Image p) (sp_Size p) (sp_Swaps p)
       (case first_guesses (sp_Image p) (sp_Size p) (sp_Swaps p) of Inl e \<Rightarrow> [] | Inr gs \<Rightarrow> ce_arrival ce gs)"

definition slider_limit :: "sliderPuzzleV2 \<Rightarrow> 'f sliderGuessV2 list \<Rightarrow> int" where
  "slider_limit p guesses = min (min (sp_Attempts p) captchaV2MaxSliderChecks) (int (length guesses))"

definition as_fail :: "goerr + 'a \<Rightarrow> captcha_fail + 'a" where
  "as_fail r = (case r of Inl e \<Rightarrow> Inl (CaptchaFailed e) | Inr x \<Rightarrow> Inr x)"

definition solveSliderCaptcha ::
  "('w, 'f::{linorder,zero}) solver_env \<Rightarrow> captchaV2Session \<Rightarrow> string \<Rightarrow> string \<Rightarrow> string \<Rightarrow> string \<Rightarrow> string \<Rightarrow>
   'w \<Rightarrow> (captcha_fail + string) \<times> 'w"
where
  "solveSliderCaptcha ce s token browserFP hash settings debugInfo =
     bindE (lift_raw ''slider getContent failed: '' (captchaRequest ce ''captchaNotRobot.getContent''
        [(''session_token'', token), (''domain'', cs_domain s), (''adFp'', []), (''access_token'', []),
         (''captcha_settings'', settings)])) (\<lambda>resp.
     bindE (withE (as_fail (parseSliderPuzzleV2 ce resp))) (\<lambda>puzzle.
     bindE (withE (as_fail (ranked_guesses ce puzzle))) (\<lambda>guesses.
       if slider_limit puzzle guesses \<le> 0
       then withE (captcha_text_error ''slider has no attempts available'')
       else
         bindE (lift_raw ''captcha componentDone failed: '' (captchaRequest ce ''captchaNotRobot.componentDone''
            [(''session_token'', token), (''domain'', cs_domain s), (''adFp'', []), (''access_token'', []),
             (''browser_fp'', browserFP), (''device'', cs_deviceJSON s)])) (\<lambda>_.
           slider_attempts ce s token browserFP hash debugInfo (int (length guesses))
             (take (nat (slider_limit puzzle guesses)) guesses)))))"

section \<open>The proof of work\<close>

text \<open>The digest of a nonce in hexadecimal, and the search\<close>

definition pow_digest :: "('w, 'f) solver_env \<Rightarrow> string \<Rightarrow> int \<Rightarrow> string" where
  "pow_digest ce input nonce = hex_string (ce_sha256 ce (input @ itoa nonce))"

definition pow_limit :: int where
  "pow_limit = 10000000"

function pow_search ::
  "('w, 'f) solver_env \<Rightarrow> (int \<Rightarrow> bool) \<Rightarrow> string \<Rightarrow> string \<Rightarrow> int \<Rightarrow> (string \<times> int) option"
where
  "pow_search ce ended input target nonce =
     (if nonce > pow_limit then None
      else if nonce mod 4096 = 0 \<and> ended nonce then None
      else if has_prefix (pow_digest ce input nonce) target then Some (pow_digest ce input nonce, nonce)
      else pow_search ce ended input target (nonce + 1))"
  by pat_completeness auto
termination
  by (relation "measure (\<lambda>(ce, ended, input, target, nonce). nat (pow_limit + 1 - nonce))") auto

declare pow_search.simps [simp del]

definition solveCaptchaPoWV2 ::
  "('w, 'f) solver_env \<Rightarrow> string \<Rightarrow> int \<Rightarrow> 'w \<Rightarrow> (string \<times> int) option"
where
  "solveCaptchaPoWV2 ce input difficulty w =
     (if input = [] \<or> difficulty \<le> 0 then None
      else pow_search ce (ce_done ce w) input (replicate (nat difficulty) CHR ''0'') 1)"

text \<open>A quotation mark\<close>

definition q :: string where
  "q = [CHR 0x22]"

definition buildPowResult :: "('w, 'f) solver_env \<Rightarrow> bool \<Rightarrow> string \<Rightarrow> int \<Rightarrow> int \<Rightarrow> string" where
  "buildPowResult ce hasTelemetry hexHash nonce durationMs =
     ''v2.'' @ ce_base64 ce
       (''{'' @ q @ ''hash'' @ q @ '':'' @ q @ hexHash @ q @ '','' @ q @ ''nonce'' @ q @ '':'' @ itoa nonce @ '','' @
        q @ ''duration_ms'' @ q @ '':'' @ itoa durationMs @
        (if hasTelemetry then '','' @ q @ ''telemetry'' @ q @ '':{},'' @ q @ ''tel_hash'' @ q @ '':'' @ q @ q else []) @ ''}'')"


section \<open>The page\<close>

text \<open>
  The end of the braces that open a text, outside of quoted strings: \<open>d\<close> is the depth, \<open>inStr\<close> the
  quotation mark of the string the position is in.
\<close>

fun block_end :: "int \<Rightarrow> char option \<Rightarrow> string \<Rightarrow> nat option" where
  "block_end d inStr [] = None"
| "block_end d (Some m) (c # s) =
     (if c = CHR 0x5C then (case s of [] \<Rightarrow> None | _ # s' \<Rightarrow> map_option (\<lambda>n. n + 2) (block_end d (Some m) s'))
      else if c = m then map_option Suc (block_end d None s)
      else map_option Suc (block_end d (Some m) s))"
| "block_end d None (c # s) =
     (if c = CHR 0x22 \<or> c = CHR 0x27 then map_option Suc (block_end d (Some c) s)
      else if c = CHR 0x7B then map_option Suc (block_end (d + 1) None s)
      else if c = CHR 0x7D then (if d - 1 = 0 then Some 1 else map_option Suc (block_end (d - 1) None s))
      else map_option Suc (block_end d None s))"

definition vkGlobalBlock :: "page_patterns \<Rightarrow> string \<Rightarrow> string" where
  "vkGlobalBlock pp html =
     (case pp_GlobalStart pp html of
        None \<Rightarrow> []
      | Some m \<Rightarrow>
          (let s = drop (m - 1) html in case block_end 0 None s of None \<Rightarrow> [] | Some n \<Rightarrow> take n s))"

definition parseVKGlobal :: "page_patterns \<Rightarrow> string \<Rightarrow> string \<times> string" where
  "parseVKGlobal pp html =
     (let block = vkGlobalBlock pp html in
      if block = [] then ([], [])
      else (case pp_GlobalUUID pp block of Some u \<Rightarrow> u | None \<Rightarrow> [],
            case pp_GlobalLang pp block of Some l \<Rightarrow> l | None \<Rightarrow> []))"

record captchaV2Page =
  pg_PowInput :: string
  pg_PowDifficulty :: int
  pg_ScriptURL :: string
  pg_Init :: "captchaV2Init option"
  pg_DebugInfo :: string
  pg_Lang :: string
  pg_HasTelemetry :: bool

text \<open>The two places of the task: the arguments of the script, then the constants\<close>

definition page_pow :: "page_patterns \<Rightarrow> string \<Rightarrow> string \<times> int" where
  "page_pow pp html =
     (let first = (case pp_IIFEArgs pp html of
             None \<Rightarrow> ([], 0)
           | Some (input, diff) \<Rightarrow>
               (case atoi diff of (d, ok) \<Rightarrow> if ok \<and> d > 0 \<and> d \<le> 8 then (input, d) else ([], 0)))
      in if fst first \<noteq> [] then first
         else
           (let input = (case pp_PowInput pp html of Some i \<Rightarrow> i | None \<Rightarrow> []);
                d0 = (case pp_Difficulty pp html of
                        None \<Rightarrow> snd first
                      | Some t \<Rightarrow> (case atoi t of (d, ok) \<Rightarrow> if ok \<and> d > 0 then d else snd first))
            in (input, if d0 = 0 then 2 else d0)))"

definition parseCaptchaV2Page :: "('w, 'f) solver_env \<Rightarrow> string \<Rightarrow> captchaV2Page" where
  "parseCaptchaV2Page ce html =
     (let pp = ce_patterns ce; (debugInfo, lang) = parseVKGlobal pp html; (input, d) = page_pow pp html in
      \<lparr>pg_PowInput = input, pg_PowDifficulty = d,
       pg_ScriptURL = (case pp_ScriptSrc pp html of Some u \<Rightarrow> u | None \<Rightarrow> []),
       pg_Init = (case pp_WindowInit pp html of None \<Rightarrow> None | Some t \<Rightarrow> ce_init ce t),
       pg_DebugInfo = debugInfo, pg_Lang = lang, pg_HasTelemetry = pp_Telemetry pp html\<rparr>)"

definition fetchDebugInfo :: "('w, 'f) solver_env \<Rightarrow> string \<Rightarrow> 'w \<Rightarrow> (goerr + string) \<times> 'w" where
  "fetchDebugInfo ce url w =
     (case ce_cached ce url w of
        Some v \<Rightarrow> (Inr v, w)
      | None \<Rightarrow>
          (case ce_raw ce url None w of
             (Inl e, w1) \<Rightarrow> (Inl e, w1)
           | (Inr body, w1) \<Rightarrow>
               (case pp_DebugInfo (ce_patterns ce) body of
                  None \<Rightarrow> (Inl (ErrText ''debug_info match not found''), w1)
                | Some v \<Rightarrow> (Inr v, ce_store ce url v w1))))"

definition fallback_debug_info :: string where
  "fallback_debug_info = ''4b277ff8f4a13d71e220897914e6d4ff104b281f9b37ff9091104e12e75e9f85''"

definition debug_info ::
  "('w, 'f) solver_env \<Rightarrow> captchaV2Page \<Rightarrow> 'w \<Rightarrow> string \<times> 'w"
where
  "debug_info ce page w =
     (case (if pg_DebugInfo page = [] \<and> pg_ScriptURL page \<noteq> []
            then (case fetchDebugInfo ce (pg_ScriptURL page) w of
                    (Inl e, w1) \<Rightarrow> (fallback_debug_info, w1) | (Inr v, w1) \<Rightarrow> (v, w1))
            else (pg_DebugInfo page, w)) of
        (v, w1) \<Rightarrow> (if v = [] then fallback_debug_info else v, w1))"

section \<open>The session\<close>

text \<open>The settings of the tile puzzle in the list of a reply; the last one counts.\<close>

definition content_setting :: "json \<Rightarrow> string \<Rightarrow> string" where
  "content_setting item acc =
     (case as_obj item of
        None \<Rightarrow> acc
      | Some m \<Rightarrow>
          if str_or_empty (jget m ''type'') = ''slider'' then
            (if str_or_empty (jget m ''settings_key'') \<noteq> [] then str_or_empty (jget m ''settings_key'')
             else if str_or_empty (jget m ''settings'') \<noteq> [] then str_or_empty (jget m ''settings'')
             else acc)
          else acc)"

definition initSession ::
  "('w, 'f) solver_env \<Rightarrow> captchaV2Session \<Rightarrow> string \<Rightarrow> string \<Rightarrow> 'w \<Rightarrow> (goerr + string \<times> string) \<times> 'w"
where
  "initSession ce s token lang =
     bindE (captchaRequest ce ''captchaNotRobot.initSession''
        [(''session_token'', token), (''domain'', cs_domain s), (''lang'', if lang = [] then ''0'' else lang),
         (''access_token'', [])])
       (\<lambda>resp. withE (Inr
          (case as_obj (jget resp ''response'') of
             None \<Rightarrow> ([], [])
           | Some r \<Rightarrow>
               (str_or_empty (jget r ''show_captcha_type''),
                case as_arr (jget r ''content_settings'') of
                  None \<Rightarrow> [] | Some raw \<Rightarrow> fold content_setting raw []))))"

text \<open>
  The loop over the kinds. Each round solves one; the result decides whether there is another round.
\<close>

definition solve_kind ::
  "('w, 'f::{linorder,zero}) solver_env \<Rightarrow> captchaV2Session \<Rightarrow> string \<Rightarrow> string \<Rightarrow> string \<Rightarrow> string \<Rightarrow> string \<Rightarrow>
   string \<Rightarrow> 'w \<Rightarrow> (captcha_fail + string) \<times> 'w"
where
  "solve_kind ce s token browserFP hash sliderSettings debugInfo showType =
     (if showType = ''slider'' then solveSliderCaptcha ce s token browserFP hash sliderSettings debugInfo
      else solveCheckboxCaptcha ce s token browserFP hash debugInfo)"

fun is_bot :: "captcha_fail \<Rightarrow> bool" where
  "is_bot (CaptchaFailed e) = errors_is (Some e) errCaptchaV2Bot"
| "is_bot (ShowTypeError t) = False"

fun fail_error :: "captcha_fail \<Rightarrow> goerr" where
  "fail_error (CaptchaFailed e) = e"
| "fail_error (ShowTypeError t) = ErrText (''captcha show type mismatch: '' @ t)"

definition next_kind :: "string \<Rightarrow> string \<Rightarrow> captcha_fail \<Rightarrow> string option" where
  "next_kind sliderSettings showType e =
     (if is_bot e \<and> \<not> equal_fold showType ''slider'' \<and> sliderSettings \<noteq> [] then Some ''slider''
      else (case e of ShowTypeError t \<Rightarrow> if t = [] then None else Some t | CaptchaFailed _ \<Rightarrow> None))"

partial_function (option) solve_loop ::
  "('w, 'f::{linorder,zero}) solver_env \<Rightarrow> captchaV2Session \<Rightarrow> string \<Rightarrow> string \<Rightarrow> string \<Rightarrow> string \<Rightarrow> string \<Rightarrow>
   string \<Rightarrow> 'w \<Rightarrow> ((goerr + string) \<times> 'w) option"
where
  "solve_loop ce s token browserFP hash sliderSettings debugInfo showType w =
     (if showType \<noteq> ''slider'' \<and> showType \<noteq> ''checkbox'' \<and> showType \<noteq> []
      then Some (Inl (ErrText (''unsupported captcha type: '' @ showType)), w)
      else
        (case solve_kind ce s token browserFP hash sliderSettings debugInfo showType w of
           (Inr t, w') \<Rightarrow> Some (Inr t, w')
         | (Inl e, w') \<Rightarrow>
             (case next_kind sliderSettings showType e of
                None \<Rightarrow> Some (Inl (fail_error e), w')
              | Some k \<Rightarrow> solve_loop ce s token browserFP hash sliderSettings debugInfo k w')))"

text \<open>What the page and the first reply decide: the kind and the settings of the tile puzzle\<close>

definition page_slider :: "captchaV2Page \<Rightarrow> string" where
  "page_slider page =
     (case pg_Init page of
        None \<Rightarrow> []
      | Some i \<Rightarrow> fold (\<lambda>(t, v) acc. if t = ''slider'' then v else acc) (ci_CaptchaSettings i) [])"

definition page_show_type :: "captchaV2Page \<Rightarrow> string" where
  "page_show_type page = (case pg_Init page of None \<Rightarrow> [] | Some i \<Rightarrow> ci_ShowCaptchaType i)"

definition chosen_kind ::
  "('w, 'f) solver_env \<Rightarrow> captchaV2Session \<Rightarrow> string \<Rightarrow> captchaV2Page \<Rightarrow> 'w \<Rightarrow> (string \<times> string) \<times> 'w"
where
  "chosen_kind ce s token page w =
     (case initSession ce s token (pg_Lang page) w of
        (Inl e, w1) \<Rightarrow> ((page_show_type page, page_slider page), w1)
      | (Inr (t, sl), w1) \<Rightarrow>
          ((if t \<noteq> [] then t else page_show_type page, if sl \<noteq> [] then sl else page_slider page), w1))"

definition browser_fp :: "('w, 'f) solver_env \<Rightarrow> captchaV2Session \<Rightarrow> 'w \<Rightarrow> (goerr + string) \<times> 'w" where
  "browser_fp ce s w =
     (if trim_space (cs_BrowserFp s) \<noteq> [] then (Inr (trim_space (cs_BrowserFp s)), w) else ce_browserFP ce w)"

text \<open>The last request; its error is only logged.\<close>

definition end_session ::
  "('w, 'f) solver_env \<Rightarrow> captchaV2Session \<Rightarrow> string \<Rightarrow> 'w \<Rightarrow> 'w"
where
  "end_session ce s token w =
     snd (captchaRequest ce ''captchaNotRobot.endSession'' (captchaV2BaseValues token (cs_domain s)) w)"

definition solveOnce ::
  "('w, 'f::{linorder,zero}) solver_env \<Rightarrow> captchaV2Session \<Rightarrow> VkCaptcha \<Rightarrow> 'w \<Rightarrow> ((goerr + string) \<times> 'w) option"
where
  "solveOnce ce s c w0 =
     (case ce_raw ce (vc_RedirectURI c) None w0 of
        (Inl e, w1) \<Rightarrow> Some (Inl e, w1)
      | (Inr html, w1) \<Rightarrow>
          (let page = parseCaptchaV2Page ce html; token = vc_SessionToken c in
           if pg_PowInput page = [] then Some (Inl (ErrText ''failed to find PoW settings''), w1)
           else
             (case chosen_kind ce s token page w1 of
                ((showType, sliderSettings), w2) \<Rightarrow>
                  if showType = ''slider'' \<and> sliderSettings = []
                  then Some (Inl (ErrText ''failed to find slider captcha settings''), w2)
                  else
                    (case solveCaptchaPoWV2 ce (pg_PowInput page) (pg_PowDifficulty page) w2 of
                       None \<Rightarrow> Some (Inl (ErrText ''captcha pow failed''), w2)
                     | Some (hexHash, nonce) \<Rightarrow>
                         (let hash = buildPowResult ce (pg_HasTelemetry page) hexHash nonce (ce_millis ce w2) in
                          case captchaRequest ce ''captchaNotRobot.settings'' (captchaV2BaseValues token (cs_domain s)) w2 of
                            (Inl e, w3) \<Rightarrow> Some (Inl (ErrWrap ''captcha settings failed: '' e []), w3)
                          | (Inr r, w3) \<Rightarrow>
                              (case browser_fp ce s w3 of
                                 (Inl e, w4) \<Rightarrow> Some (Inl e, w4)
                               | (Inr fp, w4) \<Rightarrow>
                                   (case debug_info ce page w4 of
                                      (info, w5) \<Rightarrow>
                                        (case solve_loop ce s token fp hash sliderSettings info showType w5 of
                                           None \<Rightarrow> None
                                         | Some (Inl e, w6) \<Rightarrow> Some (Inl e, w6)
                                         | Some (Inr t, w6) \<Rightarrow> Some (Inr t, end_session ce s token w6)))))))))"


section \<open>The loop returns\<close>

lemma lift_raw_Inl: "lift_raw what f w = (Inl e, w') \<Longrightarrow> \<exists>x. e = CaptchaFailed x"
  by (auto simp: lift_raw_def split: prod.split_asm sum.split_asm)

lemma captcha_text_error_Inl: "captcha_text_error t = Inl e \<Longrightarrow> \<exists>x. e = CaptchaFailed x"
  by (auto simp: captcha_text_error_def)

lemma as_fail_Inl: "as_fail r = Inl e \<Longrightarrow> \<exists>x. e = CaptchaFailed x"
  by (auto simp: as_fail_def split: sum.split_asm)

lemma parse_check_Inl: "parseCaptchaV2Check fmt raw = Inl e \<Longrightarrow> \<exists>x. e = CaptchaFailed x"
  by (auto simp: parseCaptchaV2Check_def Let_def dest: captcha_text_error_Inl split: option.split_asm if_split_asm)

lemma perform_check_Inl:
  "performCaptchaCheck ce s token fp hash a cur d w = (Inl e, w') \<Longrightarrow> \<exists>x. e = CaptchaFailed x"
  unfolding performCaptchaCheck_def bindE_Inl withE_simps by (blast dest: lift_raw_Inl parse_check_Inl)

lemma pause_Inl: "pause_of ce a b w = (Inl e, w') \<Longrightarrow> \<exists>x. e = CaptchaFailed x"
  by (auto simp: pause_of_def split: prod.split_asm option.split_asm)

lemma slider_attempts_Inl:
  "slider_attempts ce s token fp hash d n gs w = (Inl e, w') \<Longrightarrow> \<exists>x. e = CaptchaFailed x"
proof (induction gs arbitrary: w)
  case Nil
  then show ?case by (auto dest: captcha_text_error_Inl)
next
  case (Cons g gs)
  show ?case
    using Cons.prems
    by (auto split: prod.split_asm sum.split_asm if_split_asm
        dest: Cons.IH perform_check_Inl pause_Inl captcha_text_error_Inl)
qed

lemma slider_fails_plainly:
  assumes "solveSliderCaptcha ce s token fp hash st d w = (Inl e, w')"
  shows "\<exists>x. e = CaptchaFailed x"
  using assms unfolding solveSliderCaptcha_def bindE_Inl withE_simps
  by (auto simp: bindE_Inl split: if_split_asm
      dest: lift_raw_Inl as_fail_Inl captcha_text_error_Inl slider_attempts_Inl)

lemma checkbox_other_kind:
  assumes "solveCheckboxCaptcha ce s token fp hash d w = (Inl (ShowTypeError t), w')"
  shows "t \<noteq> [] \<and> \<not> equal_fold t ''checkbox''"
proof -
  have "checkbox_result check = Inl (ShowTypeError t) \<Longrightarrow> t \<noteq> [] \<and> \<not> equal_fold t ''checkbox''" for check
    by (auto simp: checkbox_result_def captcha_text_error_def split: if_split_asm)
  then show ?thesis
    using assms unfolding solveCheckboxCaptcha_def component_done_def bindE_Inl withE_simps
    by (auto simp: bindE_Inl dest: lift_raw_Inl pause_Inl perform_check_Inl)
qed

lemma slider_last: "next_kind st ''slider'' (CaptchaFailed x) = None"
  by (simp add: next_kind_def equal_fold_def)

text \<open>From a checkbox the loop goes to the tile puzzle or ends.\<close>

lemma next_after_checkbox:
  assumes "solveCheckboxCaptcha ce s token fp hash d w = (Inl e, w')" "next_kind st showType e = Some k"
  shows "k \<noteq> [] \<and> k \<noteq> ''checkbox''"
  using assms checkbox_other_kind [of ce s token fp hash d w _ w']
  by (cases e) (auto simp: next_kind_def equal_fold_def split: if_split_asm)

section \<open>The number of requests\<close>

definition counts_raw :: "('w \<Rightarrow> nat) \<Rightarrow> ('w, 'f) solver_env \<Rightarrow> bool" where
  "counts_raw cnt ce \<longleftrightarrow>
     (\<forall>u b w. cnt (snd (ce_raw ce u b w)) \<le> Suc (cnt w)) \<and> (\<forall>i n w. cnt (snd (ce_cursor ce i n w)) \<le> cnt w)
     \<and> (\<forall>n w. cnt (snd (ce_rand ce n w)) \<le> cnt w) \<and> (\<forall>d w. cnt (snd (ce_wait ce d w)) \<le> cnt w)
     \<and> (\<forall>w. cnt (snd (ce_browserFP ce w)) \<le> cnt w) \<and> (\<forall>u v w. cnt (ce_store ce u v w) \<le> cnt w)"

lemma costs_mono: "costs m a f \<Longrightarrow> a \<le> b \<Longrightarrow> costs m b f"
  by (force simp: costs_def intro: order_trans)

lemma lift_raw_cost: "costs m n f \<Longrightarrow> costs m n (lift_raw what f)"
  by (auto simp: costs_def lift_raw_def split: prod.split sum.split) (metis snd_conv)+

lemma captcha_request_cost: "counts_raw cnt ce \<Longrightarrow> costs cnt 1 (captchaRequest ce method form)"
proof -
  assume "counts_raw cnt ce"
  then have "costs cnt (Suc 0) (ce_raw ce u b)" for u b by (simp add: costs_def counts_raw_def)
  then show ?thesis unfolding captchaRequest_def One_nat_def by (intro costs_intros)
qed

lemmas request_cost = lift_raw_cost [OF captcha_request_cost]

lemma check_cost:
  assumes "counts_raw cnt ce"
  shows "costs cnt 1 (performCaptchaCheck ce s token fp hash a cur d)"
proof -
  have "costs cnt (1 + 0) (performCaptchaCheck ce s token fp hash a cur d)"
    unfolding performCaptchaCheck_def by (intro costs_bindE request_cost assms costs_withE)
  then show ?thesis by (rule costs_mono) simp
qed

lemma pause_cost:
  assumes "counts_raw cnt ce"
  shows "costs cnt 0 (pause_of ce a b)"
proof -
  have "cnt (snd (ce_rand ce n w)) \<le> cnt w" "cnt (snd (ce_wait ce d w)) \<le> cnt w" for n d w
    using assms by (simp_all add: counts_raw_def)
  then show ?thesis
    by (auto simp: costs_def pause_of_def split: prod.split option.split) (metis order_trans snd_conv)+
qed

lemma checkbox_cost:
  assumes "counts_raw cnt ce"
  shows "costs cnt 2 (solveCheckboxCaptcha ce s token fp hash d)"
proof -
  have "costs cnt (1 + (0 + (1 + 0))) (solveCheckboxCaptcha ce s token fp hash d)"
    unfolding solveCheckboxCaptcha_def component_done_def
    by (intro costs_bindE request_cost pause_cost check_cost assms costs_withE)
  then show ?thesis by (rule costs_mono) simp
qed

lemma slider_attempts_cost:
  assumes "counts_raw cnt ce"
  shows "costs cnt (length gs) (slider_attempts ce s token fp hash d n gs)"
proof (induction gs)
  case Nil
  then show ?case by (simp add: costs_def)
next
  case (Cons g gs)
  show ?case
    unfolding costs_def
  proof
    fix w
    obtain cur w1 where 1: "ce_cursor ce (sg_Index g) n w = (cur, w1)" by fastforce
    obtain r w2 where 2: "performCaptchaCheck ce s token fp hash (answer_json (ce_fmt ce) (sg_Swaps g)) cur d w1 = (r, w2)"
      by fastforce
    obtain p w3 where 3: "pause_of ce 350 300 w2 = (p, w3)" by fastforce
    have "cnt w1 \<le> cnt w" using assms 1 by (auto simp: counts_raw_def) (metis snd_conv)
    moreover have "cnt w2 \<le> cnt w1 + 1" using costsD [OF check_cost [OF assms] 2] .
    moreover have "cnt w3 \<le> cnt w2" using costsD [OF pause_cost [OF assms] 3] by simp
    moreover have "cnt (snd (slider_attempts ce s token fp hash d n gs v)) \<le> cnt v + length gs" for v
      using Cons.IH by (simp add: costs_def)
    note this [of w2] this [of w3]
    ultimately show "cnt (snd (slider_attempts ce s token fp hash d n (g # gs) w)) \<le> cnt w + length (g # gs)"
      by (auto simp: 1 2 3 split: sum.split)
  qed
qed

lemma slider_cost:
  assumes "counts_raw cnt ce"
  shows "costs cnt 4 (solveSliderCaptcha ce s token fp hash st d)"
proof -
  have tries: "costs cnt 2 (slider_attempts ce s token fp hash d n (take (nat (slider_limit p gs)) gs'))" for n p gs gs'
    by (rule costs_mono [OF slider_attempts_cost [OF assms]]) (auto simp: slider_limit_def captchaV2MaxSliderChecks_def)
  have cond: "costs cnt n f \<Longrightarrow> costs cnt n g \<Longrightarrow> costs cnt n (if b then f else g)" for n b and f g :: "'a \<Rightarrow> (captcha_fail + string) \<times> 'a"
    by simp
  have "costs cnt (1 + (0 + (0 + (1 + 2)))) (solveSliderCaptcha ce s token fp hash st d)"
    unfolding solveSliderCaptcha_def
    by (intro costs_bindE [where a = 1] costs_bindE [where a = 0] cond request_cost assms costs_withE tries)
  then show ?thesis by (rule costs_mono) simp
qed

text \<open>At most three rounds, and with them at most six requests\<close>

lemma slider_attempts_token: "slider_attempts ce s token fp hash d n gs w = (Inr t, w') \<Longrightarrow> t \<noteq> []"
proof (induction gs arbitrary: w)
  case (Cons g gs)
  then show ?case by (auto simp: captcha_text_error_def split: prod.split_asm sum.split_asm if_split_asm)
qed (simp add: captcha_text_error_def)

lemma solved_token: "solve_kind ce s token fp hash st d showType w = (Inr t, w') \<Longrightarrow> t \<noteq> []"
proof -
  have "checkbox_result check = Inr t \<Longrightarrow> t \<noteq> []" for check
    by (auto simp: checkbox_result_def captcha_text_error_def split: if_split_asm)
  then show "solve_kind ce s token fp hash st d showType w = (Inr t, w') \<Longrightarrow> t \<noteq> []"
    unfolding solve_kind_def solveSliderCaptcha_def solveCheckboxCaptcha_def
    by (auto simp: bindE_Inr captcha_text_error_def split: if_split_asm dest: slider_attempts_token)
qed

lemma solve_loop_slider:
  assumes "counts_raw cnt ce"
  shows "\<exists>r w'. solve_loop ce s token fp hash st d ''slider'' w = Some (r, w') \<and> cnt w' \<le> cnt w + 4
     \<and> r \<noteq> Inr []"
proof -
  obtain r w' where k: "solveSliderCaptcha ce s token fp hash st d w = (r, w')" by fastforce
  have "cnt w' \<le> cnt w + 4" using costsD [OF slider_cost [OF assms] k] .
  moreover have "next_kind st ''slider'' e = None" if "r = Inl e" for e
    using slider_fails_plainly [of ce s token fp hash st d w e w'] k that slider_last by auto
  ultimately show ?thesis
    using k solved_token [of ce s token fp hash st d "''slider''" w _ w']
    by (cases r) (simp_all add: solve_loop.simps [of _ _ _ _ _ _ _ "''slider''"] solve_kind_def)
qed

lemma solve_loop_returns:
  assumes "counts_raw cnt ce"
  shows "\<exists>r w'. solve_loop ce s token fp hash st d showType w = Some (r, w') \<and> cnt w' \<le> cnt w + 6
     \<and> r \<noteq> Inr []"
proof (cases "showType = ''checkbox'' \<or> showType = []")
  case False
  show ?thesis
  proof (cases "showType = ''slider''")
    case True
    then show ?thesis using solve_loop_slider [OF assms, of s token fp hash st d w] by force
  next
    case no: False
    then show ?thesis using False by (simp add: solve_loop.simps)
  qed
next
  case True
  obtain r w1 where k: "solveCheckboxCaptcha ce s token fp hash d w = (r, w1)" by fastforce
  have c: "cnt w1 \<le> cnt w + 2" using costsD [OF checkbox_cost [OF assms] k] .
  have kind: "solve_kind ce s token fp hash st d showType w = (r, w1)"
    using True k by (auto simp: solve_kind_def)
  have "\<exists>r' w'. solve_loop ce s token fp hash st d k' w1 = Some (r', w') \<and> cnt w' \<le> cnt w1 + 4 \<and> r' \<noteq> Inr []"
    if "r = Inl e" "next_kind st showType e = Some k'" for e k'
    using next_after_checkbox [OF k [unfolded that(1)] that(2)] solve_loop_slider [OF assms, of s token fp hash st d w1]
    by (cases "k' = ''slider''") (auto simp: solve_loop.simps [of _ _ _ _ _ _ _ k'])
  then show ?thesis
    using True c kind solved_token [of ce s token fp hash st d showType w _ w1]
    by (cases r) (force simp: solve_loop.simps [of _ _ _ _ _ _ _ showType] split: option.split)+
qed


lemma solve_once_returns:
  assumes c: "counts_raw cnt ce"
  shows "\<exists>r w'. solveOnce ce s x w = Some (r, w') \<and> cnt w' \<le> cnt w + 11 \<and> r \<noteq> Inr []"
proof -
  have raw: "cnt (snd (ce_raw ce u b v)) \<le> Suc (cnt v)" for u b v using c by (simp add: counts_raw_def)
  have req: "cnt (snd (captchaRequest ce m f v)) \<le> cnt v + 1" for m f v
    using captcha_request_cost [OF c] by (simp add: costs_def)
  have kind: "cnt (snd (chosen_kind ce s tk pg v)) \<le> cnt v + 1" for tk pg v
  proof -
    have "costs cnt (1 + 0) (initSession ce s tk (pg_Lang pg))"
      unfolding initSession_def by (intro costs_bindE captcha_request_cost c costs_withE)
    then show ?thesis
      by (auto simp: chosen_kind_def costs_def split: prod.split sum.split) (metis snd_conv)+
  qed
  have fp: "cnt (snd (browser_fp ce s v)) \<le> cnt v" for v
    using c by (simp add: browser_fp_def counts_raw_def)
  have info: "cnt (snd (debug_info ce pg v)) \<le> cnt v + 1" for pg v
  proof -
    have "cnt (snd (fetchDebugInfo ce u v)) \<le> cnt v + 1" for u
      using raw [of u None v] c
      by (auto simp: fetchDebugInfo_def counts_raw_def split: option.split prod.split sum.split)
        (metis order_trans snd_conv)+
    from this [of "pg_ScriptURL pg"] show ?thesis
      by (auto simp: debug_info_def split: prod.split sum.split)
  qed
  obtain r1 w1 where 1: "ce_raw ce (vc_RedirectURI x) None w = (r1, w1)" by fastforce
  let ?pg = "parseCaptchaV2Page ce (projr r1)" and ?tk = "vc_SessionToken x"
  obtain t sl w2 where 2: "chosen_kind ce s ?tk ?pg w1 = ((t, sl), w2)" by (metis prod.exhaust)
  obtain r3 w3 where 3: "captchaRequest ce ''captchaNotRobot.settings'' (captchaV2BaseValues ?tk (cs_domain s)) w2 = (r3, w3)" by fastforce
  obtain r4 w4 where 4: "browser_fp ce s w3 = (r4, w4)" by fastforce
  obtain i w5 where 5: "debug_info ce ?pg w4 = (i, w5)" by fastforce
  have n: "cnt w1 \<le> cnt w + 1" "cnt w2 \<le> cnt w1 + 1" "cnt w3 \<le> cnt w2 + 1" "cnt w4 \<le> cnt w3" "cnt w5 \<le> cnt w4 + 1"
    using raw [of "vc_RedirectURI x" None w] kind [of ?tk ?pg w1]
      req [of "''captchaNotRobot.settings''" "captchaV2BaseValues ?tk (cs_domain s)" w2]
      fp [of w3] info [of ?pg w4] by (simp_all add: 1 2 3 4 5)
  show ?thesis
  proof (cases r1)
    case (Inl e)
    then show ?thesis using n by (simp add: solveOnce_def 1)
  next
    case html: (Inr html)
    have last: "cnt (end_session ce s ?tk v) \<le> cnt v + 1" for v
      using req by (simp add: end_session_def)
    show ?thesis
    proof (cases "solveCaptchaPoWV2 ce (pg_PowInput ?pg) (pg_PowDifficulty ?pg) w2")
      case None
      then show ?thesis using n by (simp add: solveOnce_def 1 html 2 [unfolded html, simplified] Let_def)
    next
      case (Some hn)
      obtain h k where hn: "hn = (h, k)" by fastforce
      obtain r6 w6 where 6: "solve_loop ce s ?tk (projr r4) (buildPowResult ce (pg_HasTelemetry ?pg) h k (ce_millis ce w2)) sl i t w5 = Some (r6, w6)"
        "cnt w6 \<le> cnt w5 + 6" "r6 \<noteq> Inr []"
        using solve_loop_returns [OF c] by blast
      show ?thesis
        using n 6 [unfolded html, simplified] last [of w6] Some hn
        by (cases r3; cases r4; cases r6)
          (simp_all add: solveOnce_def 1 html 2 [unfolded html, simplified] 3 4 5 [unfolded html, simplified] Let_def)
    qed
  qed
qed

section \<open>The property\<close>

text \<open>
  C33. One attempt of the captcha solver always ends, although its loop over the kinds of captcha has no
  bound in the code, and it costs at most eleven HTTP requests, whatever the server answers: a checkbox can
  lead to a tile puzzle or to an error, a tile puzzle to neither, and at most two arrangements are tried. A success
  gives a token that is not empty.
\<close>

theorem solver_terminates:
  assumes "counts_raw cnt ce"
  shows "\<exists>r w'. solveOnce ce s captcha w = Some (r, w') \<and> cnt w' \<le> cnt w + 11 \<and> r \<noteq> Inr []"
  by (rule solve_once_returns [OF assms])

definition demo_patterns :: page_patterns where
  "demo_patterns =
     \<lparr>pp_IIFEArgs = (\<lambda>_. None), pp_PowInput = (\<lambda>h. Some h), pp_Difficulty = (\<lambda>_. None), pp_GlobalStart = (\<lambda>_. None),
      pp_GlobalUUID = (\<lambda>_. None), pp_GlobalLang = (\<lambda>_. None), pp_Telemetry = (\<lambda>_. False), pp_WindowInit = (\<lambda>_. None),
      pp_ScriptSrc = (\<lambda>_. None), pp_DebugInfo = (\<lambda>_. None)\<rparr>"

definition demo_solver :: "(nat, int) solver_env" where
  "demo_solver =
     \<lparr>ce_raw = (\<lambda>u b n. (Inr u, Suc n)),
      ce_json = (\<lambda>b. Inr [(''response'', JObj [(''status'', JStr ''ok''), (''success_token'', JStr ''tok'')])]),
      ce_init = (\<lambda>_. None), ce_base64 = (\<lambda>s. s), ce_image = (\<lambda>s. Inl (ErrText s)), ce_sha256 = (\<lambda>_. replicate 32 0),
      ce_fmt = (\<lambda>_. []), ce_patterns = demo_patterns, ce_weigh = (\<lambda>_. 0), ce_arrival = (\<lambda>_. []),
      ce_cursor = (\<lambda>_ _ n. ([], n)), ce_rand = (\<lambda>_ n. (0, n)), ce_wait = (\<lambda>_ n. (None, n)), ce_done = (\<lambda>_ _. False),
      ce_millis = (\<lambda>_. 0), ce_browserFP = (\<lambda>n. (Inr ''fp'', n)), ce_cached = (\<lambda>_ _. None), ce_store = (\<lambda>_ _ n. n)\<rparr>"

definition demo_captcha :: VkCaptcha where
  "demo_captcha =
     \<lparr>vc_ErrorCode = 14, vc_ErrorMsg = [], vc_CaptchaSid = ''1'', vc_CaptchaImg = [], vc_RedirectURI = ''u'',
      vc_SessionToken = ''s'', vc_CaptchaTs = [], vc_CaptchaAttempt = []\<rparr>"

theorem solver_terminates_witness:
  "\<exists>r w'. solveOnce demo_solver \<lparr>cs_domain = ''vk.com'', cs_deviceJSON = ''{}'', cs_BrowserFp = []\<rparr> demo_captcha 0 = Some (r, w')
     \<and> w' \<le> 11 \<and> r \<noteq> Inr []"
proof -
  have "counts_raw (\<lambda>n. n) demo_solver" by (simp add: counts_raw_def demo_solver_def)
  from solver_terminates [OF this] show ?thesis by fastforce
qed

text \<open>The escaping of the form is that of the standard library.\<close>

lemma captcha_escape_standard: "captchaV2QueryEscape s = query_escape s"
proof -
  have "\<not> unreserved CHR '' ''" by code_simp
  then show ?thesis by (auto simp: captchaV2QueryEscape_def query_escape_def intro!: arg_cong [where f = concat])
qed

text \<open>The search of the proof of work finds the least nonce within its limit.\<close>

lemma pow_search_least:
  "pow_search ce ended input target nonce = Some (h, k) \<Longrightarrow>
     nonce \<le> k \<and> k \<le> pow_limit \<and> h = pow_digest ce input k \<and> has_prefix h target
     \<and> (\<forall>j. nonce \<le> j \<and> j < k \<longrightarrow> \<not> has_prefix (pow_digest ce input j) target)"
proof (induction ce ended input target nonce rule: pow_search.induct)
  case (1 ce ended input target nonce)
  show ?case
  proof (cases "has_prefix (pow_digest ce input nonce) target")
    case True
    then show ?thesis using "1.prems" by (auto simp: pow_search.simps [of ce ended input target nonce] split: if_split_asm)
  next
    case False
    have step: "\<not> nonce > pow_limit" "\<not> (nonce mod 4096 = 0 \<and> ended nonce)"
      "pow_search ce ended input target (nonce + 1) = Some (h, k)"
      using "1.prems" False by (auto simp: pow_search.simps [of ce ended input target nonce] split: if_split_asm)
    from "1.IH" [OF step(1,2) False step(3)] False show ?thesis
      by (auto simp: int_one_le_iff_zero_less) (metis add1_zle_eq order_le_less)
  qed
qed

end
