(* ===== verification/IosBridge.thy ===== *)
theory IosBridge
  imports WgConfig WorkerGroups
begin

text \<open>
  The bridge between the iOS extension and the transport, \<^verbatim>\<open>ios_bridge.go\<close>: the exported functions,
  the generations of the tunnel they start and stop, and one transport attempt (\<^verbatim>\<open>runOnce\<close>) with the
  goroutine that waits for the configuration and opens WireGuard. A generation is the record of its \<^verbatim>\<open>iosRuntime\<close>
  (the fields that pace reconnects are in \<open>IosRuntime\<close>) and of the local variables of the attempt that runs; the main
  goroutine and the configuration goroutine of a generation take the steps of \<open>gen_event\<close>, callers of the exported
  functions the others. A caller reads the pointer \<^verbatim>\<open>iosCurrent\<close> under its lock and uses it later, so every
  generation that was started can be the target of its call at any time. Which device the kernel
  opens, whether that works, when workers end and what they report is free. \<open>gn_open\<close> are the WireGuard
  devices of the generation that are open.
\<close>

section \<open>The arguments of a start\<close>

record TunnelParams =
  tu_Peer :: string
  tu_VkHashes :: "string list"
  tu_ConnectionPassword :: string
  tu_Port :: int
  tu_WorkersPerHash :: int
  tu_DeviceID :: string
  tu_GoDnsArg :: string
  tu_ObfsMode :: string
  tu_VkAnonPath :: string
  tu_VkAuthMode :: string

definition is_list_separator :: "char \<Rightarrow> bool" where
  "is_list_separator c \<longleftrightarrow> c = CHR '','' \<or> c = CHR 0x0A \<or> c = CHR '' '' \<or> c = CHR 0x09"

definition parseHashes :: "string \<Rightarrow> string list" where
  "parseHashes raw = filter (\<lambda>p. p \<noteq> []) (map trim_space (fields_func is_list_separator raw))"

definition obfsModeDisplay :: "string \<Rightarrow> string" where
  "obfsModeDisplay mode =
     (let m = to_lower mode in
      if m = ''none'' then ([CHR 0xD0, CHR 0x91, CHR 0xD0, CHR 0xB5, CHR 0xD0, CHR 0xB7] @ '' '' @ [CHR 0xD0, CHR 0xBC, CHR 0xD0, CHR 0xB0, CHR 0xD1, CHR 0x81, CHR 0xD0, CHR 0xBA, CHR 0xD0, CHR 0xB8, CHR 0xD1, CHR 0x80, CHR 0xD0, CHR 0xBE, CHR 0xD0, CHR 0xB2, CHR 0xD0, CHR 0xBA, CHR 0xD0, CHR 0xB8]) else if m = ''tls'' then ''TLS'' else if m = ''http'' then ''HTTP'' else mode)"

text \<open>The number of workers as \<^verbatim>\<open>runOnce\<close> computes it, and as \<^verbatim>\<open>main\<close> does\<close>

definition iosMemoryTestWorkers :: int where
  "iosMemoryTestWorkers = 108"

definition ios_workers :: "bool \<Rightarrow> TunnelParams \<Rightarrow> int" where
  "ios_workers account p =
     (let n = at_most maxWorkers (tu_WorkersPerHash p * int (length (tu_VkHashes p))) in
      if account then at_least 1 (at_most accountMaxWorkers n)
      else (at_least workersPerGroup (at_most iosMemoryTestWorkers n) sdiv workersPerGroup) * workersPerGroup)"

lemma ios_workers_main: "ios_workers account p = normalize_workers account (tu_WorkersPerHash p * int (length (tu_VkHashes p)))"
  by (simp add: ios_workers_def normalize_workers_def at_most_def iosMemoryTestWorkers_def maxWorkers_def)

section \<open>The set-up of an attempt\<close>

record 'p run_env =
  re_derive :: "string \<Rightarrow> goerr + byte list"
  re_resolve :: "string \<Rightarrow> goerr + 'p"
  re_listen :: "string \<Rightarrow> goerr option"

record 'p run_setup =
  rs_peer :: 'p
  rs_Hashes :: "string list"
  rs_WrapKey :: "byte list"
  rs_ObfsMode :: string
  rs_listenAddr :: string
  rs_localPort :: string
  rs_groups :: "worker_group list"

definition default_port :: "string \<Rightarrow> string" where
  "default_port peer = (if contains peer '':'' then peer else peer @ '':443'')"

definition listen_address :: "int \<Rightarrow> string" where
  "listen_address port = (if port = 0 then ''127.0.0.1:9000'' else ''127.0.0.1:'' @ itoa port)"

text \<open>The groups of workers; they are made as on the desktop.\<close>

definition ios_groups :: "TunnelParams \<Rightarrow> worker_group list" where
  "ios_groups p = worker_groups (ios_workers (tu_VkAuthMode p = ''account'') p)"

definition setup_run :: "'p run_env \<Rightarrow> TunnelParams \<Rightarrow> goerr + 'p run_setup" where
  "setup_run E p =
     (if tu_VkHashes p = [] then Inl (ErrText ([CHR 0xD0, CHR 0xBD, CHR 0xD0, CHR 0xB5, CHR 0xD1, CHR 0x82] @ '' VK-'' @ [CHR 0xD1, CHR 0x85, CHR 0xD0, CHR 0xB5, CHR 0xD1, CHR 0x88, CHR 0xD0, CHR 0xB5, CHR 0xD0, CHR 0xB9]))
      else
        (case re_derive E (tu_ConnectionPassword p) of
           Inl e \<Rightarrow> Inl (ErrText (''WRAP key derive error: '' @ err_text e))
         | Inr key \<Rightarrow>
             (case re_resolve E (default_port (tu_Peer p)) of
                Inl e \<Rightarrow> Inl (ErrText (''Peer resolve error: '' @ err_text e))
              | Inr peer \<Rightarrow>
                  (let addr = listen_address (tu_Port p) in
                   case re_listen E addr of
                     Some e \<Rightarrow> Inl (ErrText (''Listen error: '' @ err_text e))
                   | None \<Rightarrow>
                       Inr \<lparr>rs_peer = peer, rs_Hashes = tu_VkHashes p, rs_WrapKey = key,
                            rs_ObfsMode = normalizeObfsMode (tu_ObfsMode p), rs_listenAddr = addr,
                            rs_localPort = (case split_host_port addr of Inr (h, port) \<Rightarrow> port | Inl e \<Rightarrow> []),
                            rs_groups = ios_groups p\<rparr>))))"

section \<open>Generations\<close>

text \<open>Where the configuration goroutine of the attempt is: what it has received and done so far\<close>

datatype conf_phase =
    ConfReceive
  | ConfGot string
  | ConfReady string string
  | ConfActivate string string
  | ConfStart string string
  | ConfOwn nat string
  | ConfSet nat string
  | ConfSignal
  | ConfDone

text \<open>Where \<^verbatim>\<open>runOnce\<close> is after it has started the workers\<close>

datatype run_phase =
    RunWorkers
  | RunCancel
  | RunClose
  | RunJoin
  | RunShutdown
  | RunClear
  | RunCloseDevice
  | RunReturn

datatype main_phase =
    MainSetup
  | MainTop
  | MainRun run_phase
  | MainEnded "goerr option"
  | MainPause
  | MainLeft
  | MainCleared
  | MainExited

record attempt =
  at_ctxCanceled :: bool
  at_runCanceled :: bool
  at_configCh :: "string list"
  at_closed :: bool
  at_conf :: conf_phase
  at_wgDevice :: "nat option"

record generation =
  gn_params :: TunnelParams
  gn_canceled :: bool
  gn_done :: bool
  gn_ready :: bool
  gn_activate :: bool
  gn_wgReady :: bool
  gn_healthKick :: bool
  gn_networkConfigJSON :: string
  gn_stats :: bool
  gn_wgDev :: "(nat \<times> string) option"
  gn_main :: main_phase
  gn_attempt :: attempt
  gn_open :: "nat list"
  gn_devices :: nat

definition new_attempt :: attempt where
  "new_attempt =
     \<lparr>at_ctxCanceled = False, at_runCanceled = False, at_configCh = [], at_closed = False, at_conf = ConfReceive,
      at_wgDevice = None\<rparr>"

definition new_generation :: "TunnelParams \<Rightarrow> generation" where
  "new_generation p =
     \<lparr>gn_params = p, gn_canceled = False, gn_done = False, gn_ready = False, gn_activate = False, gn_wgReady = False,
      gn_healthKick = False, gn_networkConfigJSON = [], gn_stats = False, gn_wgDev = None, gn_main = MainSetup,
      gn_attempt = new_attempt, gn_open = [], gn_devices = 0\<rparr>"

definition attempt_upd :: "(attempt \<Rightarrow> attempt) \<Rightarrow> generation \<Rightarrow> generation" where
  "attempt_upd f g = g\<lparr>gn_attempt := f (gn_attempt g)\<rparr>"

text \<open>\<^verbatim>\<open>ctx.Err() != nil\<close> of the attempt and of \<^verbatim>\<open>runCtx\<close>\<close>

definition ctx_done :: "generation \<Rightarrow> bool" where
  "ctx_done g \<longleftrightarrow> gn_canceled g \<or> at_ctxCanceled (gn_attempt g)"

definition run_done :: "generation \<Rightarrow> bool" where
  "run_done g \<longleftrightarrow> ctx_done g \<or> at_runCanceled (gn_attempt g)"

section \<open>The steps of one generation\<close>

record 'a bridge_env =
  be_parsers :: "'a ip_parsers"
  be_dns :: 'a
  be_view :: "'a addr_view"
  be_json :: "iosNetworkConfig \<Rightarrow> string"

definition parse_conf :: "'a bridge_env \<Rightarrow> string \<Rightarrow> goerr + 'a wgQuickConfig" where
  "parse_conf E conf = parseWgQuick (be_parsers E) (be_dns E) conf"

text \<open>\<^verbatim>\<open>extractIOSNetworkConfigJSON\<close>; the encoder is the parameter\<close>

definition extractIOSNetworkConfigJSON :: "'a bridge_env \<Rightarrow> string \<Rightarrow> string" where
  "extractIOSNetworkConfigJSON E conf = be_json E (extractIOSNetworkConfig (be_parsers E) (be_view E) conf)"

text \<open>The operations of the runtime, each under its mutex\<close>

definition setWireGuard :: "nat \<Rightarrow> string \<Rightarrow> generation \<Rightarrow> generation" where
  "setWireGuard dev peerHex g = g\<lparr>gn_wgDev := Some (dev, peerHex)\<rparr>"

definition clearWireGuard :: "generation \<Rightarrow> generation" where
  "clearWireGuard g = g\<lparr>gn_wgDev := None\<rparr>"

definition setNetworkConfigJSON :: "string \<Rightarrow> generation \<Rightarrow> generation" where
  "setNetworkConfigJSON v g = g\<lparr>gn_networkConfigJSON := v\<rparr>"

definition setStats :: "bool \<Rightarrow> generation \<Rightarrow> generation" where
  "setStats v g = g\<lparr>gn_stats := v\<rparr>"

definition kickHealthCheck :: "generation \<Rightarrow> generation" where
  "kickHealthCheck g = g\<lparr>gn_healthKick := True\<rparr>"

definition cancelAttempt :: "generation \<Rightarrow> generation" where
  "cancelAttempt g = attempt_upd (\<lambda>a. a\<lparr>at_ctxCanceled := True\<rparr>) g"

definition cancel_runtime :: "generation \<Rightarrow> generation" where
  "cancel_runtime g = g\<lparr>gn_canceled := True\<rparr>"

definition activate_wireguard :: "generation \<Rightarrow> generation" where
  "activate_wireguard g = g\<lparr>gn_activate := True\<rparr>"

definition conf_upd :: "conf_phase \<Rightarrow> generation \<Rightarrow> generation" where
  "conf_upd c = attempt_upd (\<lambda>a. a\<lparr>at_conf := c\<rparr>)"

definition run_cancel :: "generation \<Rightarrow> generation" where
  "run_cancel = attempt_upd (\<lambda>a. a\<lparr>at_runCanceled := True\<rparr>)"

text \<open>
  The configuration goroutine. \<open>conf_take\<close>, \<open>conf_closed\<close> and \<open>conf_stop\<close> are the cases of its first
  \<^verbatim>\<open>select\<close>; the configuration is stored before the channel \<^verbatim>\<open>ready\<close> is closed.
\<close>

definition conf_take :: "generation \<Rightarrow> generation option" where
  "conf_take g =
     (case at_configCh (gn_attempt g) of
        [] \<Rightarrow> None
      | raw # rest \<Rightarrow>
          Some (conf_upd (if raw = [] then ConfDone else ConfGot raw) (attempt_upd (\<lambda>a. a\<lparr>at_configCh := rest\<rparr>) g)))"

definition conf_closed :: "generation \<Rightarrow> generation option" where
  "conf_closed g =
     (if at_configCh (gn_attempt g) = [] \<and> at_closed (gn_attempt g) then Some (conf_upd ConfDone g) else None)"

definition conf_stop :: "generation \<Rightarrow> generation option" where
  "conf_stop g = (if run_done g then Some (conf_upd ConfDone g) else None)"

definition conf_parse :: "'a bridge_env \<Rightarrow> string \<Rightarrow> generation \<Rightarrow> generation" where
  "conf_parse E raw g =
     (let final = ensureIOSMTU raw in
      case parse_conf E final of
        Inl e \<Rightarrow> conf_upd ConfDone (run_cancel g)
      | Inr c \<Rightarrow>
          conf_upd (ConfReady final (wc_peerPublicHex c))
            (setNetworkConfigJSON (extractIOSNetworkConfigJSON E final) g))"

text \<open>\<^verbatim>\<open>startUserspaceWireGuard\<close>: on success a new device is open\<close>

definition conf_start :: "bool \<Rightarrow> string \<Rightarrow> generation \<Rightarrow> generation" where
  "conf_start ok pk g =
     (if ok then
        conf_upd (ConfOwn (gn_devices g) pk)
          (g\<lparr>gn_open := gn_devices g # gn_open g, gn_devices := gn_devices g + 1\<rparr>)
      else conf_upd ConfDone (run_cancel g))"

datatype conf_move =
    EvTake
  | EvClosed
  | EvStop
  | EvNext
  | EvStart bool

fun conf_event :: "'a bridge_env \<Rightarrow> conf_move \<Rightarrow> conf_phase \<Rightarrow> generation \<Rightarrow> generation option" where
  "conf_event E EvTake ConfReceive g = conf_take g"
| "conf_event E EvClosed ConfReceive g = conf_closed g"
| "conf_event E EvStop ConfReceive g = conf_stop g"
| "conf_event E EvNext (ConfGot raw) g = Some (conf_parse E raw g)"
| "conf_event E EvNext (ConfReady final pk) g = Some (conf_upd (ConfActivate final pk) (g\<lparr>gn_ready := True\<rparr>))"
| "conf_event E EvNext (ConfActivate final pk) g =
     (if gn_activate g then Some (conf_upd (ConfStart final pk) g) else None)"
| "conf_event E EvStop (ConfActivate final pk) g = conf_stop g"
| "conf_event E (EvStart ok) (ConfStart final pk) g = Some (conf_start ok pk g)"
| "conf_event E EvNext (ConfOwn d pk) g = Some (conf_upd (ConfSet d pk) (attempt_upd (\<lambda>a. a\<lparr>at_wgDevice := Some d\<rparr>) g))"
| "conf_event E EvNext (ConfSet d pk) g = Some (conf_upd ConfSignal (setWireGuard d pk g))"
| "conf_event E EvNext ConfSignal g = Some (conf_upd ConfDone (g\<lparr>gn_wgReady := True\<rparr>))"
| "conf_event E ev c g = None"

text \<open>\<^verbatim>\<open>runOnce\<close> from \<^verbatim>\<open>wg.Wait\<close> on: workers first, then the configuration goroutine, then WireGuard\<close>

fun run_next :: "run_phase \<Rightarrow> generation \<Rightarrow> generation option" where
  "run_next RunWorkers g = Some (g\<lparr>gn_main := MainRun RunCancel\<rparr>)"
| "run_next RunCancel g = Some (run_cancel (g\<lparr>gn_main := MainRun RunClose\<rparr>))"
| "run_next RunClose g = Some (attempt_upd (\<lambda>a. a\<lparr>at_closed := True\<rparr>) (g\<lparr>gn_main := MainRun RunJoin\<rparr>))"
| "run_next RunJoin g =
     (if at_conf (gn_attempt g) = ConfDone then Some (g\<lparr>gn_main := MainRun RunShutdown\<rparr>) else None)"
| "run_next RunShutdown g =
     Some (g\<lparr>gn_main := MainRun (if at_wgDevice (gn_attempt g) = None then RunReturn else RunClear)\<rparr>)"
| "run_next RunClear g = Some ((clearWireGuard g)\<lparr>gn_main := MainRun RunCloseDevice\<rparr>)"
| "run_next RunCloseDevice g =
     Some (g\<lparr>gn_open := (case at_wgDevice (gn_attempt g) of None \<Rightarrow> gn_open g | Some d \<Rightarrow> remove1 d (gn_open g)),
             gn_main := MainRun RunReturn\<rparr>)"
| "run_next RunReturn g = None"

definition all_workers_ended :: goerr where
  "all_workers_ended = ErrText ([CHR 0xD0, CHR 0xB2, CHR 0xD1, CHR 0x81, CHR 0xD0, CHR 0xB5] @ '' '' @ [CHR 0xD0, CHR 0xB2, CHR 0xD0, CHR 0xBE, CHR 0xD1, CHR 0x80, CHR 0xD0, CHR 0xBA, CHR 0xD0, CHR 0xB5, CHR 0xD1, CHR 0x80, CHR 0xD1, CHR 0x8B] @ '' '' @ [CHR 0xD0, CHR 0xB7, CHR 0xD0, CHR 0xB0, CHR 0xD0, CHR 0xB2, CHR 0xD0, CHR 0xB5, CHR 0xD1, CHR 0x80, CHR 0xD1, CHR 0x88, CHR 0xD0, CHR 0xB8, CHR 0xD0, CHR 0xBB, CHR 0xD0, CHR 0xB8, CHR 0xD1, CHR 0x81, CHR 0xD1, CHR 0x8C] @ '' '' @ [CHR 0xD0, CHR 0xB8, CHR 0xD0, CHR 0xBB, CHR 0xD0, CHR 0xB8] @ '' '' @ [CHR 0xD0, CHR 0xBD, CHR 0xD0, CHR 0xB5] @ '' '' @ [CHR 0xD1, CHR 0x81, CHR 0xD0, CHR 0xBC, CHR 0xD0, CHR 0xBE, CHR 0xD0, CHR 0xB3, CHR 0xD0, CHR 0xBB, CHR 0xD0, CHR 0xB8] @ '' '' @ [CHR 0xD0, CHR 0xBF, CHR 0xD0, CHR 0xBE, CHR 0xD0, CHR 0xB4, CHR 0xD0, CHR 0xBA, CHR 0xD0, CHR 0xBB, CHR 0xD1, CHR 0x8E, CHR 0xD1, CHR 0x87, CHR 0xD0, CHR 0xB8, CHR 0xD1, CHR 0x82, CHR 0xD1, CHR 0x8C, CHR 0xD1, CHR 0x81, CHR 0xD1, CHR 0x8F])"

definition run_result :: "bool \<Rightarrow> int \<Rightarrow> goerr option" where
  "run_result canceled active =
     (if canceled then Some CtxCanceled else if active = 0 then Some all_workers_ended else None)"

text \<open>The main goroutine: \<^verbatim>\<open>runTunnelLoop\<close> and the deferred functions of \<^verbatim>\<open>WDTT_Start\<close>\<close>

definition begin_attempt :: "goerr option \<Rightarrow> generation \<Rightarrow> generation" where
  "begin_attempt failed g =
     (let g1 = g\<lparr>gn_attempt := new_attempt\<rparr> in
      case failed of
        Some e \<Rightarrow> g1\<lparr>gn_main := MainEnded (Some e)\<rparr>
      | None \<Rightarrow> (setStats True g1)\<lparr>gn_main := MainRun RunWorkers\<rparr>)"

datatype main_move =
    MvNext
  | MvTop "goerr option"
  | MvReturn int
  | MvStop

fun main_event :: "main_move \<Rightarrow> main_phase \<Rightarrow> generation \<Rightarrow> generation option" where
  "main_event MvNext MainSetup g = Some (g\<lparr>gn_main := MainTop\<rparr>)"
| "main_event (MvTop failed) MainTop g =
     Some (if gn_canceled g then g\<lparr>gn_main := MainLeft\<rparr> else begin_attempt failed g)"
| "main_event MvNext (MainRun r) g = run_next r g"
| "main_event (MvReturn active) (MainRun RunReturn) g =
     Some ((setStats False g)\<lparr>gn_main := MainEnded (run_result (ctx_done g) active)\<rparr>)"
| "main_event MvNext (MainEnded e) g = Some (g\<lparr>gn_main := (if gn_canceled g then MainLeft else MainPause)\<rparr>)"
| "main_event MvNext MainPause g = Some (g\<lparr>gn_main := MainTop\<rparr>)"
| "main_event MvStop MainPause g = (if gn_canceled g then Some (g\<lparr>gn_main := MainLeft\<rparr>) else None)"
| "main_event MvNext MainLeft g = Some (g\<lparr>gn_main := MainCleared\<rparr>)"
| "main_event MvNext MainCleared g = Some (g\<lparr>gn_done := True, gn_main := MainExited\<rparr>)"
| "main_event mv m g = None"

datatype gen_move =
    EvCancel
  | EvCancelAttempt
  | EvActivate
  | EvKick
  | EvKicked
  | EvConfig string
  | EvMain main_move
  | EvConf conf_move

fun gen_event :: "'a bridge_env \<Rightarrow> gen_move \<Rightarrow> generation \<Rightarrow> generation option" where
  "gen_event E EvCancel g = Some (cancel_runtime g)"
| "gen_event E EvCancelAttempt g = Some (cancelAttempt g)"
| "gen_event E EvActivate g = Some (activate_wireguard g)"
| "gen_event E EvKick g = Some (kickHealthCheck g)"
| "gen_event E EvKicked g = (if gn_healthKick g then Some (g\<lparr>gn_healthKick := False\<rparr>) else None)"
| "gen_event E (EvConfig conf) g =
     (if gn_main g = MainRun RunWorkers \<and> at_configCh (gn_attempt g) = []
      then Some (attempt_upd (\<lambda>a. a\<lparr>at_configCh := [conf]\<rparr>) g) else None)"
| "gen_event E (EvConf ev) g =
     (case gn_main g of MainRun r \<Rightarrow> conf_event E ev (at_conf (gn_attempt g)) g | _ \<Rightarrow> None)"
| "gen_event E (EvMain mv) g = main_event mv (gn_main g) g"

section \<open>The bridge\<close>

record bridge =
  br_current :: "nat option"
  br_gens :: "generation list"

definition empty_bridge :: bridge where
  "empty_bridge = \<lparr>br_current = None, br_gens = []\<rparr>"

definition current_generation :: "bridge \<Rightarrow> generation option" where
  "current_generation b = map_option (\<lambda>i. br_gens b ! i) (br_current b)"

text \<open>The region of \<^verbatim>\<open>WDTT_Start\<close> under \<^verbatim>\<open>iosMu\<close>\<close>

definition start_region :: "TunnelParams \<Rightarrow> bridge \<Rightarrow> int \<times> bridge" where
  "start_region p b =
     (case current_generation b of
        Some g \<Rightarrow>
          if \<not> gn_canceled g then (-1, b)
          else (0, b\<lparr>br_current := Some (length (br_gens b)), br_gens := br_gens b @ [new_generation p]\<rparr>)
      | None \<Rightarrow> (0, b\<lparr>br_current := Some (length (br_gens b)), br_gens := br_gens b @ [new_generation p]\<rparr>))"

record start_args =
  sa_peer :: string
  sa_vkHashes :: string
  sa_password :: string
  sa_port :: int
  sa_workers :: int
  sa_deviceID :: string
  sa_goDns :: string
  sa_obfsMode :: string
  sa_vkAnonPath :: string

definition start_params :: "start_args \<Rightarrow> TunnelParams" where
  "start_params a =
     \<lparr>tu_Peer = sa_peer a, tu_VkHashes = parseHashes (sa_vkHashes a), tu_ConnectionPassword = sa_password a,
      tu_Port = sa_port a, tu_WorkersPerHash = sa_workers a, tu_DeviceID = sa_deviceID a, tu_GoDnsArg = sa_goDns a,
      tu_ObfsMode = sa_obfsMode a, tu_VkAnonPath = sa_vkAnonPath a, tu_VkAuthMode = ''anonymous''\<rparr>"

definition WDTT_Start :: "start_args \<Rightarrow> bridge \<Rightarrow> int \<times> bridge" where
  "WDTT_Start a b =
     (if parseHashes (sa_vkHashes a) = [] then (-2, b)
      else if sa_password a = [] then (-3, b)
      else start_region (start_params a) b)"

text \<open>The other exported functions, each on the generation the caller has read\<close>

definition WDTT_CopyNetworkConfig :: "bridge \<Rightarrow> string option" where
  "WDTT_CopyNetworkConfig b =
     (case current_generation b of
        None \<Rightarrow> None
      | Some g \<Rightarrow> if gn_networkConfigJSON g = [] then None else Some (gn_networkConfigJSON g))"

definition WDTT_IsRunning :: "bridge \<Rightarrow> int" where
  "WDTT_IsRunning b =
     (case current_generation b of Some g \<Rightarrow> if \<not> gn_canceled g then 1 else 0 | None \<Rightarrow> 0)"

definition on_current :: "(generation \<Rightarrow> generation) \<Rightarrow> bridge \<Rightarrow> bridge" where
  "on_current f b =
     (case br_current b of None \<Rightarrow> b | Some i \<Rightarrow> b\<lparr>br_gens := (br_gens b)[i := f (br_gens b ! i)]\<rparr>)"

definition WDTT_ActivateWireGuard :: "bridge \<Rightarrow> int \<times> bridge" where
  "WDTT_ActivateWireGuard b =
     (case current_generation b of
        None \<Rightarrow> (-1, b)
      | Some g \<Rightarrow> if gn_canceled g then (-1, b) else (0, on_current activate_wireguard b))"

text \<open>The part of \<^verbatim>\<open>WDTT_Stop\<close> before its wait\<close>

definition WDTT_Stop :: "bridge \<Rightarrow> bridge" where
  "WDTT_Stop b = on_current (\<lambda>g. cancelAttempt (cancel_runtime g)) b"

text \<open>\<open>accepted\<close> is the answer of \<^verbatim>\<open>requestReconnect\<close>, which \<open>IosRuntime\<close> models.\<close>

definition WDTT_RequestReconnect :: "bool \<Rightarrow> bridge \<Rightarrow> int \<times> bridge" where
  "WDTT_RequestReconnect accepted b =
     (case current_generation b of
        None \<Rightarrow> (0, b)
      | Some g \<Rightarrow>
          if gn_canceled g then (0, b) else if accepted then (1, on_current cancelAttempt b) else (0, b))"

text \<open>
  \<^verbatim>\<open>waitIOSSignal\<close>: the times are counted from the call, \<open>None\<close> is never. A \<^verbatim>\<open>select\<close> of which several cases
  are ready takes any of them.
\<close>

definition earliest :: "duration option list \<Rightarrow> duration" where
  "earliest ts = Min (set (map (max 0) (List.map_filter id ts)))"

definition waitIOSSignal :: "duration option \<Rightarrow> duration option \<Rightarrow> duration \<Rightarrow> (duration \<times> int) set" where
  "waitIOSSignal signal done timeout =
     (if timeout \<le> 0 then {(0, if \<exists>t. signal = Some t \<and> t \<le> 0 then 1 else 0)}
      else
        (let t = earliest [signal, done, Some timeout] in
         (if \<exists>s. signal = Some s \<and> s \<le> t then {(t, 1)} else {})
         \<union> (if (\<exists>d. done = Some d \<and> d \<le> t) \<or> timeout \<le> t then {(t, 0)} else {})))"

definition WDTT_WaitReady :: "duration option \<Rightarrow> duration option \<Rightarrow> int \<Rightarrow> bridge \<Rightarrow> (duration \<times> int) set" where
  "WDTT_WaitReady signal done ms b =
     (case current_generation b of None \<Rightarrow> {(0, 0)} | Some g \<Rightarrow> waitIOSSignal signal done (ms * millisecond))"

definition WDTT_WaitWireGuardReady :: "duration option \<Rightarrow> duration option \<Rightarrow> int \<Rightarrow> bridge \<Rightarrow> (duration \<times> int) set" where
  "WDTT_WaitWireGuardReady wgReady done ms b =
     (case current_generation b of None \<Rightarrow> {(0, 0)} | Some g \<Rightarrow> waitIOSSignal wgReady done (ms * millisecond))"

text \<open>How long \<^verbatim>\<open>WDTT_Stop\<close> waits for the generation it has cancelled\<close>

definition stop_wait :: "duration option \<Rightarrow> duration" where
  "stop_wait done = earliest [done, Some (2500 * millisecond)]"

text \<open>
  \<^verbatim>\<open>rekeyWireGuard\<close>: the device that is asked for a new handshake; \<open>from_hex\<close> and \<open>lookup\<close> are the
  library's decoder of keys and its table of peers.
\<close>

definition rekeyWireGuard :: "(string \<Rightarrow> goerr + 'k) \<Rightarrow> (nat \<Rightarrow> 'k \<Rightarrow> bool) \<Rightarrow> generation \<Rightarrow> nat option" where
  "rekeyWireGuard from_hex lookup g =
     (case gn_wgDev g of
        None \<Rightarrow> None
      | Some (dev, peerHex) \<Rightarrow>
          if peerHex = [] then None
          else
            (case from_hex peerHex of
               Inl e \<Rightarrow> None
             | Inr pk \<Rightarrow> if lookup dev pk then Some dev else None))"

text \<open>
  A step of the bridge: a call of \<^verbatim>\<open>WDTT_Start\<close>, or a step of a generation. When the main goroutine has left its loop,
  the deferred function takes the pointer \<^verbatim>\<open>iosCurrent\<close> back if it is still its own.
\<close>

datatype bridge_move = SysStart start_args | SysGen nat gen_move

definition clear_current :: "nat \<Rightarrow> generation \<Rightarrow> generation \<Rightarrow> nat option \<Rightarrow> nat option" where
  "clear_current i g g' cur = (if gn_main g = MainLeft \<and> gn_main g' = MainCleared \<and> cur = Some i then None else cur)"

fun bridge_event :: "'a bridge_env \<Rightarrow> bridge_move \<Rightarrow> bridge \<Rightarrow> bridge option" where
  "bridge_event E (SysStart a) b = Some (snd (WDTT_Start a b))"
| "bridge_event E (SysGen i ev) b =
     (if i < length (br_gens b) then
        (case gen_event E ev (br_gens b ! i) of
           None \<Rightarrow> None
         | Some g \<Rightarrow>
             Some (b\<lparr>br_current := clear_current i (br_gens b ! i) g (br_current b), br_gens := (br_gens b)[i := g]\<rparr>))
      else None)"

text \<open>The device that is asked, and the token for the watchdog\<close>

definition WDTT_WakeHealthCheck ::
  "(string \<Rightarrow> goerr + 'k) \<Rightarrow> (nat \<Rightarrow> 'k \<Rightarrow> bool) \<Rightarrow> bridge \<Rightarrow> nat option \<times> bridge"
where
  "WDTT_WakeHealthCheck from_hex lookup b =
     (case current_generation b of
        None \<Rightarrow> (None, b)
      | Some g \<Rightarrow> (rekeyWireGuard from_hex lookup g, on_current kickHealthCheck b))"

inductive bridge_step :: "'a bridge_env \<Rightarrow> bridge \<Rightarrow> bridge \<Rightarrow> bool" for E where
  bridge_step: "bridge_event E ev b = Some b' \<Longrightarrow> bridge_step E b b'"

definition bridge_init :: "bridge \<Rightarrow> bool" where
  "bridge_init b \<longleftrightarrow> b = empty_bridge"

section \<open>Callbacks of the application\<close>

text \<open>What the application is called with; a callback that is not set gets nothing.\<close>

datatype swift_call = LogLine string bool | StatsLine string

definition iosLog :: "bool \<Rightarrow> string \<Rightarrow> bool \<Rightarrow> swift_call list" where
  "iosLog cb line isError = (if cb then [LogLine line isError] else [])"

definition iosStats :: "bool \<Rightarrow> string \<Rightarrow> swift_call list" where
  "iosStats cb stats = (if cb then [StatsLine stats] else [])"

definition stats_tag :: string where
  "stats_tag = (''['' @ [CHR 0xD0, CHR 0xA1, CHR 0xD0, CHR 0xA2, CHR 0xD0, CHR 0x90, CHR 0xD0, CHR 0xA2, CHR 0xD0, CHR 0x98, CHR 0xD0, CHR 0xA1, CHR 0xD0, CHR 0xA2, CHR 0xD0, CHR 0x98, CHR 0xD0, CHR 0x9A, CHR 0xD0, CHR 0x90] @ '']'')"

text \<open>The log function that \<^verbatim>\<open>runTunnelLoop\<close> gives to \<^verbatim>\<open>runOnce\<close>\<close>

definition tunnel_log :: "bool \<Rightarrow> bool \<Rightarrow> string \<Rightarrow> bool \<Rightarrow> swift_call list" where
  "tunnel_log logCb statsCb line isErr =
     (if contains line stats_tag then iosStats statsCb (trim_space (trim_prefix line stats_tag)) else [])
     @ iosLog logCb line isErr"

definition trim_newline :: "string \<Rightarrow> string" where
  "trim_newline s = (if has_suffix s [CHR 0x0A] then butlast s else s)"

definition uiLogWriter :: "bool \<Rightarrow> string \<Rightarrow> swift_call list \<times> nat" where
  "uiLogWriter cb p = (iosLog cb (trim_newline p) False, length p)"

section \<open>The check of the name server\<close>

definition GoDnsProbeCheck :: "(string \<Rightarrow> goerr + string list) \<Rightarrow> string \<Rightarrow> bool \<times> string" where
  "GoDnsProbeCheck lookup dnsArg =
     (if dnsArg = [] then (True, ''OK'')
      else
        (case lookup ''login.vk.com'' of
           Inl e \<Rightarrow> (False, ([CHR 0xD1, CHR 0x81, CHR 0xD0, CHR 0xB1, CHR 0xD0, CHR 0xBE, CHR 0xD0, CHR 0xB9] @ '' '' @ [CHR 0xD1, CHR 0x80, CHR 0xD0, CHR 0xB5, CHR 0xD0, CHR 0xB7, CHR 0xD0, CHR 0xBE, CHR 0xD0, CHR 0xBB, CHR 0xD0, CHR 0xB2, CHR 0xD0, CHR 0xB0] @ '': '') @ err_text e)
         | Inr [] \<Rightarrow> (False, ([CHR 0xD1, CHR 0x81, CHR 0xD0, CHR 0xB1, CHR 0xD0, CHR 0xBE, CHR 0xD0, CHR 0xB9] @ '' '' @ [CHR 0xD1, CHR 0x80, CHR 0xD0, CHR 0xB5, CHR 0xD0, CHR 0xB7, CHR 0xD0, CHR 0xBE, CHR 0xD0, CHR 0xBB, CHR 0xD0, CHR 0xB2, CHR 0xD0, CHR 0xB0] @ '': '') @ nil_text)
         | Inr (addr # _) \<Rightarrow> (True, ''OK ('' @ dnsArg @ '' -> '' @ addr @ '')'')))"

definition parseDnsTarget :: "string \<Rightarrow> string" where
  "parseDnsTarget dnsArg =
     (let d = to_lower (trim_space dnsArg) in
      if d = ''cloudflare'' \<or> d = ''1.1.1.1'' then ''1.1.1.1:53''
      else if d = ''google'' \<or> d = ''8.8.8.8'' then ''8.8.8.8:53''
      else if d = ''yandex'' \<or> d = ''77.88.8.8'' then ''77.88.8.8:53''
      else if d = ''adguard'' \<or> d = ''94.140.14.14'' then ''94.140.14.14:53''
      else if has_prefix (to_lower dnsArg) ''doh:'' then ''1.1.1.1:53''
      else if \<not> contains dnsArg '':'' then join_host_port dnsArg ''53''
      else dnsArg)"

end
