(* ===== verification/IosLifecycle.thy ===== *)
theory IosLifecycle
  imports IosBridge Session
begin

text \<open>
  What the lifecycle of the iOS bridge guarantees: the invariant of a generation, the WireGuard devices it opens and
  closes, the order of the signals the application waits for, one live generation at a time, and the end
  of a generation that is stopped.
\<close>

section \<open>Invariant of a generation\<close>

definition left_loop :: "main_phase \<Rightarrow> bool" where
  "left_loop m \<longleftrightarrow> m \<in> {MainLeft, MainCleared, MainExited}"

text \<open>What the configuration goroutine holds: the device it has opened and not yet handed over\<close>

fun conf_device :: "conf_phase \<Rightarrow> nat list" where
  "conf_device (ConfOwn d pk) = [d]"
| "conf_device c = []"

fun conf_owns :: "conf_phase \<Rightarrow> bool" where
  "conf_owns ConfSignal = True"
| "conf_owns ConfDone = True"
| "conf_owns (ConfSet d pk) = True"
| "conf_owns c = False"

fun past_ready :: "conf_phase \<Rightarrow> bool" where
  "past_ready (ConfActivate f pk) = True"
| "past_ready (ConfStart f pk) = True"
| "past_ready (ConfOwn d pk) = True"
| "past_ready (ConfSet d pk) = True"
| "past_ready ConfSignal = True"
| "past_ready c = False"

fun past_activate :: "conf_phase \<Rightarrow> bool" where
  "past_activate (ConfStart f pk) = True"
| "past_activate (ConfOwn d pk) = True"
| "past_activate (ConfSet d pk) = True"
| "past_activate ConfSignal = True"
| "past_activate c = False"

text \<open>The devices that are open in each phase\<close>

definition open_devices :: "generation \<Rightarrow> nat list" where
  "open_devices g =
     (case gn_main g of
        MainRun r \<Rightarrow>
          (if r = RunReturn then []
           else conf_device (at_conf (gn_attempt g)) @ (case at_wgDevice (gn_attempt g) of None \<Rightarrow> [] | Some d \<Rightarrow> [d]))
      | _ \<Rightarrow> [])"

definition devices_inv :: "generation \<Rightarrow> bool" where
  "devices_inv g \<longleftrightarrow>
     gn_open g = open_devices g
     \<and> (gn_open g \<noteq> [] \<longrightarrow> gn_ready g \<and> gn_activate g)
     \<and> (\<forall>d pk. gn_wgDev g = Some (d, pk) \<longrightarrow> gn_open g = [d] \<and> at_conf (gn_attempt g) \<in> {ConfSignal, ConfDone})"

definition attempt_inv :: "generation \<Rightarrow> bool" where
  "attempt_inv g \<longleftrightarrow>
     (\<forall>r. gn_main g = MainRun r \<longrightarrow>
        (r \<in> {RunShutdown, RunClear, RunCloseDevice, RunReturn} \<longrightarrow> at_conf (gn_attempt g) = ConfDone)
        \<and> (r \<in> {RunClear, RunCloseDevice} \<longrightarrow> at_wgDevice (gn_attempt g) \<noteq> None)
        \<and> (r \<notin> {RunWorkers, RunCancel} \<longrightarrow> at_runCanceled (gn_attempt g))
        \<and> (r \<notin> {RunWorkers, RunCancel, RunClose} \<longrightarrow> at_closed (gn_attempt g))
        \<and> (at_wgDevice (gn_attempt g) \<noteq> None \<longrightarrow> conf_owns (at_conf (gn_attempt g)))
        \<and> (\<forall>d pk. at_conf (gn_attempt g) = ConfSet d pk \<longrightarrow> at_wgDevice (gn_attempt g) = Some d)
        \<and> (past_ready (at_conf (gn_attempt g)) \<longrightarrow> gn_ready g)
        \<and> (past_activate (at_conf (gn_attempt g)) \<longrightarrow> gn_activate g)
        \<and> (r \<in> {RunCloseDevice, RunReturn} \<longrightarrow> (\<forall>d pk. gn_wgDev g \<noteq> Some (d, pk))))"

definition phase_inv :: "generation \<Rightarrow> bool" where
  "phase_inv g \<longleftrightarrow>
     (gn_done g \<longleftrightarrow> gn_main g = MainExited)
     \<and> (left_loop (gn_main g) \<longrightarrow> gn_canceled g)
     \<and> (gn_stats g \<longleftrightarrow> (\<exists>r. gn_main g = MainRun r))
     \<and> (gn_wgReady g \<longrightarrow> gn_ready g \<and> gn_activate g)"

text \<open>What the application can read was made from a configuration that was accepted.\<close>

definition config_inv :: "'a bridge_env \<Rightarrow> generation \<Rightarrow> bool" where
  "config_inv E g \<longleftrightarrow>
     (gn_ready g \<longrightarrow>
        (\<exists>raw c. parse_conf E (ensureIOSMTU raw) = Inr c
           \<and> gn_networkConfigJSON g = extractIOSNetworkConfigJSON E (ensureIOSMTU raw)))
     \<and> (\<forall>final pk. at_conf (gn_attempt g) = ConfReady final pk \<longrightarrow>
        (\<exists>raw c. parse_conf E (ensureIOSMTU raw) = Inr c
           \<and> gn_networkConfigJSON g = extractIOSNetworkConfigJSON E (ensureIOSMTU raw)))"

fun conf_key :: "conf_phase \<Rightarrow> string option" where
  "conf_key (ConfReady f pk) = Some pk"
| "conf_key (ConfActivate f pk) = Some pk"
| "conf_key (ConfStart f pk) = Some pk"
| "conf_key (ConfOwn d pk) = Some pk"
| "conf_key (ConfSet d pk) = Some pk"
| "conf_key c = None"

definition key_inv :: "generation \<Rightarrow> bool" where
  "key_inv g \<longleftrightarrow>
     (\<forall>pk. conf_key (at_conf (gn_attempt g)) = Some pk \<longrightarrow> good_key pk)
     \<and> (\<forall>d pk. gn_wgDev g = Some (d, pk) \<longrightarrow> good_key pk)"

definition gen_inv :: "'a bridge_env \<Rightarrow> generation \<Rightarrow> bool" where
  "gen_inv E g \<longleftrightarrow> devices_inv g \<and> attempt_inv g \<and> phase_inv g \<and> config_inv E g \<and> key_inv g"

lemmas gen_invs = devices_inv_def attempt_inv_def phase_inv_def config_inv_def key_inv_def open_devices_def left_loop_def

lemmas gen_updates = Let_def setWireGuard_def clearWireGuard_def setNetworkConfigJSON_def setStats_def
  kickHealthCheck_def cancelAttempt_def cancel_runtime_def activate_wireguard_def conf_upd_def attempt_upd_def run_cancel_def new_attempt_def begin_attempt_def

lemma new_generation_inv: "gen_inv E (new_generation p)"
  by (simp add: gen_inv_def gen_invs new_generation_def new_attempt_def)


fun_cases conf_event_SomeE: "conf_event E ev c g = Some g'"
fun_cases run_next_SomeE: "run_next r g = Some g'"
fun_cases main_event_SomeE: "main_event mv m g = Some g'"

lemma parsed_key: "parse_conf E conf = Inr c \<Longrightarrow> good_key (wc_peerPublicHex c)"
  unfolding parse_conf_def by (drule parsed_config) (simp add: well_formed_config_def)

lemma conf_parse_sel:
  "gn_main (conf_parse E raw g) = gn_main g" "gn_open (conf_parse E raw g) = gn_open g"
  "gn_wgDev (conf_parse E raw g) = gn_wgDev g" "gn_canceled (conf_parse E raw g) = gn_canceled g"
  "gn_ready (conf_parse E raw g) = gn_ready g" "gn_activate (conf_parse E raw g) = gn_activate g"
  "at_wgDevice (gn_attempt (conf_parse E raw g)) = at_wgDevice (gn_attempt g)"
  by (simp_all add: conf_parse_def Let_def gen_updates split: sum.splits)

lemma conf_event_devices:
  assumes "devices_inv g" "attempt_inv g" "gn_main g = MainRun r"
    "conf_event E ev (at_conf (gn_attempt g)) g = Some g'"
  shows "devices_inv g'"
  using assms(4)
proof (rule conf_event_SomeE)
  fix raw assume "at_conf (gn_attempt g) = ConfGot raw" "g' = conf_parse E raw g"
  then show ?thesis
    using assms(1-3) by (simp add: conf_parse_def Let_def gen_invs gen_updates split: sum.splits)
qed (use assms(1-3) in \<open>auto simp: conf_take_def conf_closed_def conf_stop_def conf_start_def
      gen_updates gen_invs split: list.splits if_splits\<close>)


lemma conf_event_attempt:
  assumes "devices_inv g" "attempt_inv g" "gn_main g = MainRun r"
    "conf_event E ev (at_conf (gn_attempt g)) g = Some g'"
  shows "attempt_inv g'"
  using assms(4)
proof (rule conf_event_SomeE)
  fix raw assume "at_conf (gn_attempt g) = ConfGot raw" "g' = conf_parse E raw g"
  then show ?thesis
    using assms(1-3) by (auto simp: conf_parse_def Let_def attempt_inv_def gen_updates split: sum.splits)
qed (use assms(1-3) in \<open>auto simp: conf_take_def conf_closed_def conf_stop_def conf_start_def
      gen_updates attempt_inv_def split: list.splits if_splits\<close>)

lemma conf_event_phase:
  assumes "phase_inv g" "attempt_inv g" "gn_main g = MainRun r"
    "conf_event E ev (at_conf (gn_attempt g)) g = Some g'"
  shows "phase_inv g'"
  using assms(4)
proof (rule conf_event_SomeE)
  fix raw assume "at_conf (gn_attempt g) = ConfGot raw" "g' = conf_parse E raw g"
  then show ?thesis
    using assms(1-3) by (auto simp: conf_parse_def Let_def phase_inv_def left_loop_def gen_updates split: sum.splits)
qed (use assms(1-3) in \<open>auto simp: conf_take_def conf_closed_def conf_stop_def conf_start_def
      gen_updates phase_inv_def attempt_inv_def left_loop_def split: list.splits if_splits\<close>)

lemma conf_event_config:
  assumes "config_inv E g" "key_inv g" "conf_event E ev (at_conf (gn_attempt g)) g = Some g'"
  shows "config_inv E g' \<and> key_inv g'"
  using assms(3)
proof (rule conf_event_SomeE)
  fix raw assume "at_conf (gn_attempt g) = ConfGot raw" "g' = conf_parse E raw g"
  then show ?thesis
    using assms(1,2) parsed_key [of E "ensureIOSMTU raw"]
    by (auto simp: conf_parse_def Let_def config_inv_def key_inv_def gen_updates split: sum.splits)
qed (use assms(1,2) in \<open>auto simp: conf_take_def conf_closed_def conf_stop_def conf_start_def
      gen_updates config_inv_def key_inv_def split: list.splits if_splits\<close>)

lemma conf_event_inv:
  assumes "gen_inv E g" "gn_main g = MainRun r" "conf_event E ev (at_conf (gn_attempt g)) g = Some g'"
  shows "gen_inv E g'"
  using assms conf_event_devices [OF _ _ assms(2,3)] conf_event_attempt [OF _ _ assms(2,3)]
    conf_event_phase [OF _ _ assms(2,3)] conf_event_config [OF _ _ assms(3)]
  by (simp add: gen_inv_def)

text \<open>The steps of the main goroutine, one part of the invariant at a time\<close>

lemma run_next_devices:
  assumes "gen_inv E g" "gn_main g = MainRun r" "run_next r g = Some g'"
  shows "devices_inv g'"
  using assms(3)
proof (rule run_next_SomeE)
qed (use assms(1,2) in \<open>auto simp: gen_inv_def devices_inv_def attempt_inv_def open_devices_def gen_updates split: if_splits option.splits\<close>)

lemma run_next_attempt:
  assumes "gen_inv E g" "gn_main g = MainRun r" "run_next r g = Some g'"
  shows "attempt_inv g'"
  using assms(3)
proof (rule run_next_SomeE)
qed (use assms(1,2) in \<open>auto simp: gen_inv_def devices_inv_def attempt_inv_def open_devices_def gen_updates split: if_splits option.splits\<close>)

lemma run_next_phase:
  assumes "gen_inv E g" "gn_main g = MainRun r" "run_next r g = Some g'"
  shows "phase_inv g'"
  using assms(3)
proof (rule run_next_SomeE)
qed (use assms(1,2) in \<open>auto simp: gen_inv_def phase_inv_def left_loop_def gen_updates split: if_splits option.splits\<close>)

lemma run_next_config:
  assumes "gen_inv E g" "gn_main g = MainRun r" "run_next r g = Some g'"
  shows "config_inv E g'"
  using assms(3)
proof (rule run_next_SomeE)
qed (use assms(1,2) in \<open>auto simp: gen_inv_def config_inv_def gen_updates split: if_splits option.splits\<close>)

lemma run_next_key:
  assumes "gen_inv E g" "gn_main g = MainRun r" "run_next r g = Some g'"
  shows "key_inv g'"
  using assms(3)
proof (rule run_next_SomeE)
qed (use assms(1,2) in \<open>auto simp: gen_inv_def key_inv_def gen_updates split: if_splits option.splits\<close>)

lemmas run_next_parts = run_next_devices run_next_attempt run_next_phase run_next_config run_next_key

lemma run_next_inv: "gen_inv E g \<Longrightarrow> gn_main g = MainRun r \<Longrightarrow> run_next r g = Some g' \<Longrightarrow> gen_inv E g'"
  unfolding gen_inv_def [of E g'] by (blast intro: run_next_parts)

lemma main_event_devices:
  assumes "gen_inv E g" "main_event mv (gn_main g) g = Some g'" "\<nexists>r. mv = MvNext \<and> gn_main g = MainRun r"
  shows "devices_inv g'"
  using assms(2)
proof (rule main_event_SomeE)
qed (use assms(1,3) in \<open>auto simp: gen_inv_def devices_inv_def attempt_inv_def open_devices_def gen_updates split: if_splits option.splits\<close>)

lemma main_event_attempt:
  assumes "gen_inv E g" "main_event mv (gn_main g) g = Some g'" "\<nexists>r. mv = MvNext \<and> gn_main g = MainRun r"
  shows "attempt_inv g'"
  using assms(2)
proof (rule main_event_SomeE)
qed (use assms(1,3) in \<open>auto simp: gen_inv_def devices_inv_def attempt_inv_def open_devices_def gen_updates split: if_splits option.splits\<close>)

lemma main_event_phase:
  assumes "gen_inv E g" "main_event mv (gn_main g) g = Some g'" "\<nexists>r. mv = MvNext \<and> gn_main g = MainRun r"
  shows "phase_inv g'"
  using assms(2)
proof (rule main_event_SomeE)
qed (use assms(1,3) in \<open>auto simp: gen_inv_def phase_inv_def left_loop_def gen_updates split: if_splits option.splits\<close>)

lemma main_event_config:
  assumes "gen_inv E g" "main_event mv (gn_main g) g = Some g'" "\<nexists>r. mv = MvNext \<and> gn_main g = MainRun r"
  shows "config_inv E g'"
  using assms(2)
proof (rule main_event_SomeE)
qed (use assms(1,3) in \<open>auto simp: gen_inv_def config_inv_def gen_updates split: if_splits option.splits\<close>)

lemma main_event_key:
  assumes "gen_inv E g" "main_event mv (gn_main g) g = Some g'" "\<nexists>r. mv = MvNext \<and> gn_main g = MainRun r"
  shows "key_inv g'"
  using assms(2)
proof (rule main_event_SomeE)
qed (use assms(1,3) in \<open>auto simp: gen_inv_def key_inv_def gen_updates split: if_splits option.splits\<close>)

lemmas main_event_parts = main_event_devices main_event_attempt main_event_phase main_event_config main_event_key

lemma main_event_inv:
  assumes "gen_inv E g" "main_event mv (gn_main g) g = Some g'"
  shows "gen_inv E g'"
proof (cases "\<exists>r. mv = MvNext \<and> gn_main g = MainRun r")
  case True
  then show ?thesis
    using assms run_next_inv by auto
next
  case False
  then show ?thesis
    unfolding gen_inv_def [of E g'] using assms by (blast intro: main_event_parts)
qed


lemma gen_inv_mono:
  assumes "gen_inv E g"
    and "gn_open g' = gn_open g" "gn_wgDev g' = gn_wgDev g" "gn_main g' = gn_main g" "gn_ready g' = gn_ready g"
      "gn_done g' = gn_done g" "gn_stats g' = gn_stats g" "gn_wgReady g' = gn_wgReady g"
      "gn_networkConfigJSON g' = gn_networkConfigJSON g"
    and "at_conf (gn_attempt g') = at_conf (gn_attempt g)" "at_wgDevice (gn_attempt g') = at_wgDevice (gn_attempt g)"
      "at_runCanceled (gn_attempt g') = at_runCanceled (gn_attempt g)" "at_closed (gn_attempt g') = at_closed (gn_attempt g)"
    and "gn_canceled g \<longrightarrow> gn_canceled g'" "gn_activate g \<longrightarrow> gn_activate g'"
  shows "gen_inv E g'"
proof -
  have "open_devices g' = open_devices g"
    using assms(4,10,11) by (cases "gn_main g") (simp_all add: open_devices_def)
  moreover have "devices_inv g"
    using assms(1) by (simp add: gen_inv_def)
  ultimately have "devices_inv g'"
    unfolding devices_inv_def assms(2,3,5,10) using assms(15) by metis
  moreover have "attempt_inv g'"
    using assms(1) assms(2-) by (simp add: gen_inv_def attempt_inv_def)
  moreover have "phase_inv g'"
    using assms(1) assms(2-) by (simp add: gen_inv_def phase_inv_def)
  moreover have "config_inv E g'" "key_inv g'"
    using assms(1) assms(2-) by (simp_all add: gen_inv_def config_inv_def key_inv_def)
  ultimately show ?thesis by (simp add: gen_inv_def)
qed

lemma gen_event_inv:
  assumes "gen_inv E g" "gen_event E ev g = Some g'"
  shows "gen_inv E g'"
proof (cases ev)
  case (EvMain mv)
  then show ?thesis
    using assms main_event_inv by simp
next
  case (EvConf cv)
  then show ?thesis
    using assms conf_event_inv by (simp split: main_phase.splits)
qed (use assms(2) in \<open>auto simp: gen_updates split: if_splits intro!: gen_inv_mono [OF assms(1)]\<close>)

section \<open>Invariant of the bridge\<close>

definition bridge_inv :: "'a bridge_env \<Rightarrow> bridge \<Rightarrow> bool" where
  "bridge_inv E b \<longleftrightarrow>
     (\<forall>g \<in> set (br_gens b). gen_inv E g)
     \<and> (\<forall>i < length (br_gens b). \<not> gn_canceled (br_gens b ! i) \<longrightarrow> br_current b = Some i)
     \<and> (\<forall>i. br_current b = Some i \<longrightarrow> i < length (br_gens b))"

lemma bridge_inv_gens: "bridge_inv E b \<Longrightarrow> i < length (br_gens b) \<Longrightarrow> gen_inv E (br_gens b ! i)"
  unfolding bridge_inv_def using nth_mem by blast

lemma bridge_inv_live: "bridge_inv E b \<Longrightarrow> i < length (br_gens b) \<Longrightarrow> \<not> gn_canceled (br_gens b ! i) \<Longrightarrow> br_current b = Some i"
  unfolding bridge_inv_def by blast

lemma bridge_inv_current: "bridge_inv E b \<Longrightarrow> br_current b = Some i \<Longrightarrow> i < length (br_gens b)"
  unfolding bridge_inv_def by blast

lemma bridge_invI:
  "\<forall>g \<in> set (br_gens b). gen_inv E g \<Longrightarrow>
   (\<And>i. i < length (br_gens b) \<Longrightarrow> \<not> gn_canceled (br_gens b ! i) \<Longrightarrow> br_current b = Some i) \<Longrightarrow>
   (\<And>i. br_current b = Some i \<Longrightarrow> i < length (br_gens b)) \<Longrightarrow> bridge_inv E b"
  unfolding bridge_inv_def by blast

lemma conf_keeps_canceled: "conf_event E ev c g = Some g' \<Longrightarrow> gn_canceled g' = gn_canceled g"
  by (erule conf_event_SomeE)
    (auto simp: conf_take_def conf_closed_def conf_stop_def conf_start_def conf_parse_sel gen_updates
      split: list.splits if_splits)

lemma run_keeps_canceled: "run_next r g = Some g' \<Longrightarrow> gn_canceled g' = gn_canceled g"
  by (erule run_next_SomeE) (auto simp: gen_updates split: if_splits)

lemma main_keeps_canceled: "main_event mv m g = Some g' \<Longrightarrow> gn_canceled g' = gn_canceled g"
  by (erule main_event_SomeE) (auto simp: gen_updates run_keeps_canceled split: if_splits option.splits)

lemma keeps_canceled: "gen_event E ev g = Some g' \<Longrightarrow> gn_canceled g \<Longrightarrow> gn_canceled g'"
  by (cases ev) (auto simp: gen_updates split: if_splits main_phase.splits dest: conf_keeps_canceled main_keeps_canceled)

lemma cleared_canceled: "gen_inv E g \<Longrightarrow> gn_main g = MainLeft \<Longrightarrow> gn_canceled g"
  by (simp add: gen_inv_def phase_inv_def left_loop_def)

lemma bridge_inv_new:
  assumes "bridge_inv E b" "\<forall>i < length (br_gens b). gn_canceled (br_gens b ! i)"
  shows "bridge_inv E (b\<lparr>br_current := Some (length (br_gens b)), br_gens := br_gens b @ [new_generation p]\<rparr>)"
  unfolding bridge_inv_def using assms new_generation_inv [of E p] bridge_inv_current [OF assms(1)]
  by (auto simp: nth_append less_Suc_eq bridge_inv_gens [OF assms(1)] in_set_conv_nth)

lemma start_region_inv:
  assumes "bridge_inv E b"
  shows "bridge_inv E (snd (start_region p b))"
proof (cases "snd (start_region p b) = b")
  case False
  then have new: "snd (start_region p b) =
      b\<lparr>br_current := Some (length (br_gens b)), br_gens := br_gens b @ [new_generation p]\<rparr>"
    and dead: "\<forall>g. current_generation b = Some g \<longrightarrow> gn_canceled g"
    by (simp_all add: start_region_def split: option.splits if_splits)
  have "gn_canceled (br_gens b ! i)" if "i < length (br_gens b)" for i
    using bridge_inv_live [OF assms that] dead by (auto simp: current_generation_def)
  then show ?thesis
    using bridge_inv_new [OF assms] new by simp
qed (use assms in simp)

lemma bridge_inv_gen:
  assumes inv: "bridge_inv E b" and i: "i < length (br_gens b)" and ev: "gen_event E ev (br_gens b ! i) = Some g"
  shows "bridge_inv E (b\<lparr>br_current := clear_current i (br_gens b ! i) g (br_current b), br_gens := (br_gens b)[i := g]\<rparr>)"
    (is "bridge_inv E ?b")
proof -
  have g0: "gen_inv E (br_gens b ! i)"
    by (rule bridge_inv_gens [OF inv i])
  have "gen_inv E g"
    by (rule gen_event_inv [OF g0 ev])
  then have all: "\<forall>x \<in> set (br_gens ?b). gen_inv E x"
    using set_update_subset_insert [of "br_gens b" i g] bridge_inv_gens [OF inv] by (force simp: in_set_conv_nth)
  have live: "br_current ?b = Some k" if k: "k < length (br_gens ?b)" "\<not> gn_canceled (br_gens ?b ! k)" for k
  proof -
    have "\<not> gn_canceled (br_gens b ! k)"
      using k i keeps_canceled [OF ev] by (cases "k = i") auto
    moreover from this have "k = i \<Longrightarrow> gn_main (br_gens b ! i) \<noteq> MainLeft"
      using cleared_canceled [OF g0] by blast
    ultimately show ?thesis
      using k(1) bridge_inv_live [OF inv, of k] by (auto simp: clear_current_def)
  qed
  have "k < length (br_gens ?b)" if "br_current ?b = Some k" for k
    using that bridge_inv_current [OF inv, of k] by (simp add: clear_current_def split: if_splits)
  then show ?thesis
    using all live by (rule_tac bridge_invI)
qed

lemma bridge_inv_step: "bridge_inv E b \<Longrightarrow> bridge_step E b b' \<Longrightarrow> bridge_inv E b'"
proof (elim bridge_step.cases)
  fix ev b0 b1
  assume a: "bridge_inv E b" "b = b0" "b' = b1" "bridge_event E ev b0 = Some b1"
  show "bridge_inv E b'"
  proof (cases ev)
    case (SysStart x)
    then show ?thesis
      using a start_region_inv by (auto simp: WDTT_Start_def)
  next
    case (SysGen i gv)
    then show ?thesis
      using a bridge_inv_gen by (auto split: if_splits option.splits)
  qed
qed

interpretation bridge_runs: invariant_system bridge_init "bridge_step E" "bridge_inv E" for E
proof
  show "bridge_init b \<Longrightarrow> bridge_inv E b" for b
    by (simp add: bridge_init_def empty_bridge_def bridge_inv_def)
qed (rule bridge_inv_step)


section \<open>One live generation\<close>

text \<open>
  C9. There is never more than one tunnel that has not been stopped, whatever the order of starts, stops and the ends of
  older tunnels: it is the one \<^verbatim>\<open>iosCurrent\<close> points to, so \<^verbatim>\<open>WDTT_IsRunning\<close> reports it and a stop reaches
  it, and its transport loop has not ended. \<^verbatim>\<open>WDTT_Start\<close> with a link and a password refuses exactly when there is one.
\<close>

theorem one_live_generation:
  fixes E :: "'a bridge_env"
  assumes "reach bridge_init (bridge_step E) b"
  shows "(\<forall>i < length (br_gens b). \<not> gn_canceled (br_gens b ! i) \<longrightarrow>
       br_current b = Some i \<and> gn_main (br_gens b ! i) \<notin> {MainLeft, MainCleared, MainExited})
     \<and> (WDTT_IsRunning b = 1 \<longleftrightarrow> (\<exists>g \<in> set (br_gens b). \<not> gn_canceled g))
     \<and> (parseHashes (sa_vkHashes a) \<noteq> [] \<and> sa_password a \<noteq> [] \<longrightarrow>
         (fst (WDTT_Start a b) = -1 \<longleftrightarrow> (\<exists>g \<in> set (br_gens b). \<not> gn_canceled g)))"
proof -
  note inv = bridge_runs.reach_inv [OF assms]
  have live: "(\<exists>g \<in> set (br_gens b). \<not> gn_canceled g) \<longleftrightarrow>
    (\<exists>g. current_generation b = Some g \<and> \<not> gn_canceled g)"
  proof
    assume "\<exists>g \<in> set (br_gens b). \<not> gn_canceled g"
    then show "\<exists>g. current_generation b = Some g \<and> \<not> gn_canceled g"
      using bridge_inv_live [OF inv] by (force simp: in_set_conv_nth current_generation_def)
  next
    assume "\<exists>g. current_generation b = Some g \<and> \<not> gn_canceled g"
    then show "\<exists>g \<in> set (br_gens b). \<not> gn_canceled g"
      using bridge_inv_current [OF inv] by (auto simp: current_generation_def)
  qed
  have "\<not> gn_canceled (br_gens b ! i) \<Longrightarrow> gn_main (br_gens b ! i) \<notin> {MainLeft, MainCleared, MainExited}"
    if "i < length (br_gens b)" for i
    using bridge_inv_gens [OF inv that] by (auto simp: gen_inv_def phase_inv_def left_loop_def)
  then show ?thesis
    using bridge_inv_live [OF inv] live
    by (auto simp: WDTT_IsRunning_def WDTT_Start_def start_region_def split: option.splits)
qed

section \<open>WireGuard devices\<close>

text \<open>
  C10. WireGuard devices do not leak and are not used after their end: a generation has at most one open device, only
  while a transport attempt runs and after the application has read the network settings and installed
  them; the device that a wake-up asks for a new handshake is open when it is read, and its key has 64 hexadecimal digits, so
  the key is never refused; the settings the application reads once \<^verbatim>\<open>ready\<close> is signalled come from a configuration that
  was accepted, with the MTU line added; and \<^verbatim>\<open>wgReady\<close> is never signalled before \<^verbatim>\<open>ready\<close> and \<^verbatim>\<open>activate\<close>.
\<close>

theorem wireguard_lifecycle:
  assumes "reach bridge_init (bridge_step E) b" "g \<in> set (br_gens b)"
  shows "length (gn_open g) \<le> 1
     \<and> (gn_open g \<noteq> [] \<longrightarrow> (\<exists>r. gn_main g = MainRun r) \<and> gn_ready g \<and> gn_activate g)
     \<and> (\<forall>from_hex lookup d. rekeyWireGuard from_hex lookup g = Some d \<longrightarrow> d \<in> set (gn_open g))
     \<and> (\<forall>d pk. gn_wgDev g = Some (d, pk) \<longrightarrow> length pk = 64 \<and> set pk \<subseteq> hex_digits)
     \<and> (gn_wgReady g \<longrightarrow> gn_ready g \<and> gn_activate g)
     \<and> (gn_ready g \<longrightarrow> (\<exists>raw c. parse_conf E (ensureIOSMTU raw) = Inr c
          \<and> gn_networkConfigJSON g = extractIOSNetworkConfigJSON E (ensureIOSMTU raw)))"
proof -
  have inv: "gen_inv E g"
    using bridge_runs.reach_inv [OF assms(1)] assms(2) unfolding bridge_inv_def by blast
  have d: "devices_inv g" and a: "attempt_inv g"
    using inv by (simp_all add: gen_inv_def)
  have "length (open_devices g) \<le> 1 \<and> (open_devices g \<noteq> [] \<longrightarrow> (\<exists>r. gn_main g = MainRun r))"
    using a by (cases "gn_main g"; cases "at_conf (gn_attempt g)")
      (auto simp: open_devices_def attempt_inv_def split: option.splits)
  moreover have "rekeyWireGuard from_hex lookup g = Some d \<Longrightarrow> d \<in> set (gn_open g)"
    for d and from_hex :: "string \<Rightarrow> goerr + 'k" and lookup
    using d by (auto simp: rekeyWireGuard_def devices_inv_def split: option.splits if_splits sum.splits)
  ultimately show ?thesis
    using d inv by (auto simp: gen_inv_def devices_inv_def phase_inv_def config_inv_def key_inv_def good_key_def)
qed


section \<open>The end of a stopped generation\<close>

text \<open>
  The work that is left to the goroutines of a generation that was stopped: the phase of its main goroutine and,
  while an attempt runs, of its configuration goroutine
\<close>

fun run_rank :: "run_phase \<Rightarrow> nat" where
  "run_rank RunWorkers = 13"
| "run_rank RunCancel = 12"
| "run_rank RunClose = 11"
| "run_rank RunJoin = 10"
| "run_rank RunShutdown = 9"
| "run_rank RunClear = 8"
| "run_rank RunCloseDevice = 7"
| "run_rank RunReturn = 6"

fun main_rank :: "main_phase \<Rightarrow> nat" where
  "main_rank (MainRun r) = run_rank r"
| "main_rank (MainEnded e) = 5"
| "main_rank MainPause = 4"
| "main_rank MainSetup = 4"
| "main_rank MainTop = 3"
| "main_rank MainLeft = 2"
| "main_rank MainCleared = 1"
| "main_rank MainExited = 0"

fun conf_rank :: "conf_phase \<Rightarrow> nat" where
  "conf_rank ConfReceive = 8"
| "conf_rank (ConfGot raw) = 7"
| "conf_rank (ConfReady f pk) = 6"
| "conf_rank (ConfActivate f pk) = 5"
| "conf_rank (ConfStart f pk) = 4"
| "conf_rank (ConfOwn d pk) = 3"
| "conf_rank (ConfSet d pk) = 2"
| "conf_rank ConfSignal = 1"
| "conf_rank ConfDone = 0"

definition rank :: "generation \<Rightarrow> nat" where
  "rank g = main_rank (gn_main g) + (case gn_main g of MainRun r \<Rightarrow> conf_rank (at_conf (gn_attempt g)) | _ \<Rightarrow> 0)"

text \<open>The steps of the two goroutines, in contrast to calls from outside\<close>

fun own_move :: "gen_move \<Rightarrow> bool" where
  "own_move (EvMain mv) = True"
| "own_move (EvConf cv) = True"
| "own_move ev = False"

lemma rank_bound: "rank g \<le> 21"
proof -
  have "run_rank r \<le> 13" for r by (cases r) simp_all
  moreover have "conf_rank c \<le> 8" for c by (cases c) simp_all
  ultimately have "run_rank r + conf_rank c \<le> 21" for r c
    using add_mono [of "run_rank r" 13 "conf_rank c" 8] by simp
  then show ?thesis
    by (cases "gn_main g") (simp_all add: rank_def)
qed

lemma conf_rank_less: "conf_event E ev (at_conf (gn_attempt g)) g = Some g' \<Longrightarrow> gn_main g = MainRun r \<Longrightarrow> rank g' < rank g"
  by (erule conf_event_SomeE)
    (auto simp: rank_def conf_take_def conf_closed_def conf_stop_def conf_start_def conf_parse_def gen_updates
      split: list.splits if_splits sum.splits)

lemma run_rank_less: "run_next r g = Some g' \<Longrightarrow> gn_main g = MainRun r \<Longrightarrow> rank g' < rank g"
  by (erule run_next_SomeE) (auto simp: rank_def gen_updates split: if_splits)

lemma main_rank_less: "main_event mv (gn_main g) g = Some g' \<Longrightarrow> gn_canceled g \<Longrightarrow> rank g' < rank g"
  by (erule main_event_SomeE) (auto simp: run_rank_less, auto simp: rank_def gen_updates split: if_splits)

lemma own_rank_less: "gen_event E ev g = Some g' \<Longrightarrow> own_move ev \<Longrightarrow> gn_canceled g \<Longrightarrow> rank g' < rank g"
  by (cases ev) (auto simp: main_rank_less conf_rank_less split: main_phase.splits)

lemma other_rank_same: "gen_event E ev g = Some g' \<Longrightarrow> \<not> own_move ev \<Longrightarrow> rank g' = rank g"
  by (cases ev) (auto simp: rank_def gen_updates split: if_splits main_phase.splits)

text \<open>A goroutine of a stopped generation can always go on\<close>

lemma conf_can_go:
  assumes "gn_canceled g" "c \<noteq> ConfDone"
  shows "\<exists>cv g'. conf_event E cv c g = Some g'"
proof -
  have "run_done g"
    using assms(1) by (simp add: run_done_def ctx_done_def)
  then have stop: "conf_stop g \<noteq> None"
    by (simp add: conf_stop_def)
  show ?thesis
  proof (cases c)
    case ConfReceive
    with stop have "conf_event E EvStop c g \<noteq> None" by simp
    then show ?thesis by blast
  next
    case (ConfActivate f pk)
    with stop have "conf_event E EvStop c g \<noteq> None" by simp
    then show ?thesis by blast
  next
    case (ConfStart f pk)
    then have "conf_event E (EvStart True) c g \<noteq> None" by simp
    then show ?thesis by blast
  qed (use assms(2) in \<open>auto intro: exI [of _ EvNext]\<close>)
qed

lemma can_go:
  assumes "gn_canceled g" "gn_main g \<noteq> MainExited"
  shows "\<exists>ev g'. own_move ev \<and> gen_event E ev g = Some g'"
proof (cases "\<exists>mv g'. main_event mv (gn_main g) g = Some g'")
  case True
  then obtain mv g' where "gen_event E (EvMain mv) g = Some g'" by auto
  then show ?thesis
    by (intro exI [of _ "EvMain mv"]) auto
next
  case False
  then have no: "main_event mv (gn_main g) g = None" for mv by auto
  have "\<exists>r. gn_main g = MainRun r \<and> at_conf (gn_attempt g) \<noteq> ConfDone"
    using assms(2) no [of MvNext] no [of "MvTop None"] no [of "MvReturn 0"]
    by (cases "gn_main g") (auto elim!: run_next.elims split: if_splits)
  then obtain r where r: "gn_main g = MainRun r" "at_conf (gn_attempt g) \<noteq> ConfDone" by blast
  then obtain cv g' where "gen_event E (EvConf cv) g = Some g'"
    using conf_can_go [OF assms(1) r(2), where E = E] by auto
  then show ?thesis
    by (intro exI [of _ "EvConf cv"]) auto
qed

text \<open>
  C18. A stop ends the tunnel: once a generation is stopped, its two goroutines can take at most 21 steps more, whatever the
  application calls meanwhile, and as long as the channel \<^verbatim>\<open>done\<close> is not closed one of them can take a step
  (the end of the workers, which watch the same context, is one of these steps); none waits for the other
  in a circle, also when WireGuard is just being started or the application never activates it. When no
  step is left, WireGuard is closed and \<^verbatim>\<open>WDTT_Stop\<close> returns.
\<close>

theorem stop_ends_tunnel:
  assumes "reach bridge_init (bridge_step E) b" "g \<in> set (br_gens b)" "gn_canceled g"
  shows "rank g \<le> 21
     \<and> (\<forall>ev g'. gen_event E ev g = Some g' \<longrightarrow>
          gn_canceled g' \<and> (if own_move ev then rank g' < rank g else rank g' = rank g))
     \<and> (\<not> gn_done g \<longrightarrow> (\<exists>ev g'. own_move ev \<and> gen_event E ev g = Some g'))
     \<and> (gn_done g \<longrightarrow> gn_open g = [] \<and> rank g = 0)"
proof -
  have inv: "devices_inv g" "phase_inv g"
    using bridge_runs.reach_inv [OF assms(1)] assms(2) unfolding bridge_inv_def gen_inv_def by blast+
  have "gn_done g \<longrightarrow> gn_open g = [] \<and> rank g = 0"
    using inv by (auto simp: devices_inv_def phase_inv_def open_devices_def rank_def)
  moreover have "gn_main g = MainExited \<longleftrightarrow> gn_done g"
    using inv(2) by (simp add: phase_inv_def)
  ultimately show ?thesis
    using rank_bound [of g] can_go [OF assms(3)] keeps_canceled assms(3)
      own_rank_less [OF _ _ assms(3), of E] other_rank_same [of E] by metis
qed


section \<open>Bounded waits\<close>

lemma in_times: "x \<in> set (List.map_filter id ts) \<longleftrightarrow> Some x \<in> set ts"
  by (force simp: List.map_filter_def)

lemma earliest_le: "Some t \<in> set ts \<Longrightarrow> earliest ts \<le> max 0 t"
  unfolding earliest_def by (rule Min_le) (auto simp: in_times)

lemma earliest_nonneg: "Some t \<in> set ts \<Longrightarrow> 0 \<le> earliest ts"
proof -
  assume t: "Some t \<in> set ts"
  have "x \<in> set (map (max 0) (List.map_filter id ts)) \<Longrightarrow> 0 \<le> x" for x :: int
    by auto
  moreover have "set (map (max 0) (List.map_filter id ts)) \<noteq> {}"
    using t in_times [of t ts] by (metis empty_iff image_is_empty list.set_map)
  ultimately show ?thesis
    unfolding earliest_def using Min_in by blast
qed

text \<open>
  The exported functions return in time: \<^verbatim>\<open>WDTT_Stop\<close> waits at most 2.5 seconds, a wait for a signal at most its timeout,
  and it always has a result; it is 1 only if the signal was given by then.
\<close>

theorem waits_bounded:
  "0 \<le> stop_wait d \<and> stop_wait d \<le> 2500 * millisecond
   \<and> waitIOSSignal signal d timeout \<noteq> {}
   \<and> (\<forall>(t, r) \<in> waitIOSSignal signal d timeout.
        0 \<le> t \<and> t \<le> max 0 timeout \<and> r \<in> {0, 1} \<and> (r = 1 \<longrightarrow> (\<exists>s. signal = Some s \<and> s \<le> t)))"
proof -
  have s: "0 \<le> stop_wait d" "stop_wait d \<le> 2500 * millisecond"
    using earliest_le [of "2500 * millisecond" "[d, Some (2500 * millisecond)]"]
      earliest_nonneg [of "2500 * millisecond" "[d, Some (2500 * millisecond)]"]
    by (simp_all add: stop_wait_def millisecond_def)
  let ?ts = "[signal, d, Some timeout]"
  have e: "0 \<le> earliest ?ts" "earliest ?ts \<le> max 0 timeout"
    using earliest_le [of timeout ?ts] earliest_nonneg [of timeout ?ts] by auto
  have "timeout \<in> set (List.map_filter id ?ts)"
    unfolding in_times by simp
  then have "earliest ?ts \<in> set (map (max 0) (List.map_filter id ?ts))"
    unfolding earliest_def by (intro Min_in) (auto simp del: List.map_filter_simps)
  then obtain x where "x \<in> set (List.map_filter id ?ts)" "earliest ?ts = max 0 x"
    by (auto simp del: List.map_filter_simps)
  then have "Some x \<in> set ?ts" "x \<le> earliest ?ts"
    unfolding in_times by simp_all
  then have "(\<exists>x. signal = Some x \<and> x \<le> earliest ?ts) \<or> (\<exists>x. d = Some x \<and> x \<le> earliest ?ts) \<or> timeout \<le> earliest ?ts"
    by auto
  then have "waitIOSSignal signal d timeout \<noteq> {}"
    by (auto simp: waitIOSSignal_def Let_def)
  then show ?thesis
    using s e by (auto simp: waitIOSSignal_def Let_def)
qed

section \<open>Runs\<close>

fun run_bridge :: "'a bridge_env \<Rightarrow> bridge_move list \<Rightarrow> bridge \<Rightarrow> bridge option" where
  "run_bridge E [] b = Some b"
| "run_bridge E (ev # evs) b = (case bridge_event E ev b of None \<Rightarrow> None | Some b' \<Rightarrow> run_bridge E evs b')"

lemma run_bridge_reach:
  "reach bridge_init (bridge_step E) b \<Longrightarrow> run_bridge E evs b = Some b' \<Longrightarrow> reach bridge_init (bridge_step E) b'"
proof (induction evs arbitrary: b)
  case (Cons ev evs)
  then obtain b1 where "bridge_event E ev b = Some b1" "run_bridge E evs b1 = Some b'"
    by (auto split: option.splits)
  then show ?case
    using Cons.IH [of b1] reach.reach_step [OF Cons.prems(1) bridge_step.intros] by blast
qed simp

lemma started_reach: "run_bridge E evs empty_bridge = Some b \<Longrightarrow> reach bridge_init (bridge_step E) b"
  by (rule run_bridge_reach [rotated]) (auto simp: bridge_init_def intro: reach.reach_init)

definition demo_bridge_env :: "string bridge_env" where
  "demo_bridge_env =
     \<lparr>be_parsers = demo_parsers, be_dns = ''1.1.1.1'',
      be_view = \<lparr>av_is4 = (\<lambda>a. True), av_is6 = (\<lambda>a. False), av_text = (\<lambda>a. a)\<rparr>, be_json = nc_IPv4Address\<rparr>"

definition demo_args :: start_args where
  "demo_args =
     \<lparr>sa_peer = ''h'', sa_vkHashes = ''abc'', sa_password = ''pw'', sa_port = 0, sa_workers = 9, sa_deviceID = ''d'',
      sa_goDns = [], sa_obfsMode = ''audio'', sa_vkAnonPath = ''vkcalls''\<rparr>"

definition start_moves :: "nat \<Rightarrow> bridge_move list" where
  "start_moves i = [SysStart demo_args, SysGen i (EvMain MvNext), SysGen i (EvMain (MvTop None))]"

definition wireguard_moves :: "bridge_move list" where
  "wireguard_moves = start_moves 0 @ map (SysGen 0)
     [EvConfig demo_conf, EvConf EvTake, EvConf EvNext, EvConf EvNext, EvActivate, EvConf EvNext, EvConf (EvStart True),
      EvConf EvNext, EvConf EvNext, EvConf EvNext]"

lemma wireguard_run:
  "map_option (\<lambda>b. (br_current b, map (\<lambda>g. (gn_open g, gn_wgReady g, gn_canceled g, gn_networkConfigJSON g)) (br_gens b)))
     (run_bridge demo_bridge_env wireguard_moves empty_bridge) = Some (Some 0, [([0], True, False, ''a'')])"
  by code_simp

lemma two_tunnels_run:
  "map_option (\<lambda>b. map (\<lambda>g. (gn_main g, gn_canceled g)) (br_gens b))
     (run_bridge demo_bridge_env (start_moves 0 @ [SysGen 0 EvCancel] @ start_moves 1) empty_bridge)
     = Some [(MainRun RunWorkers, True), (MainRun RunWorkers, False)]"
  by code_simp

lemma two_tunnels:
  obtains b g h where "reach bridge_init (bridge_step demo_bridge_env) b" "br_gens b = [g, h]"
    "gn_canceled g" "gn_main g = MainRun RunWorkers" "\<not> gn_canceled h" "gn_main h = MainRun RunWorkers"
proof -
  obtain b where b: "run_bridge demo_bridge_env (start_moves 0 @ [SysGen 0 EvCancel] @ start_moves 1) empty_bridge = Some b"
    and "map (\<lambda>g. (gn_main g, gn_canceled g)) (br_gens b) = [(MainRun RunWorkers, True), (MainRun RunWorkers, False)]"
    using two_tunnels_run by auto
  then show ?thesis
    using that [OF started_reach [OF b]] by auto
qed

text \<open>
  Two tunnels can run at the same time: \<^verbatim>\<open>WDTT_Stop\<close> gives up waiting after 2.5 seconds, and the next start looks only at
  whether the old tunnel was told to stop, not at whether it has ended. The old transport, its workers and its
  WireGuard device then share the global scheduler and the local port with the new one until they end.
\<close>

theorem tunnels_overlap:
  "\<exists>b g h. reach bridge_init (bridge_step demo_bridge_env) b \<and> br_gens b = [g, h]
     \<and> gn_canceled g \<and> gn_main g = MainRun RunWorkers \<and> \<not> gn_canceled h \<and> gn_main h = MainRun RunWorkers"
  by (rule two_tunnels) blast

lemma wireguard_up:
  obtains b g where "reach bridge_init (bridge_step demo_bridge_env) b" "br_gens b = [g]" "gn_open g = [0]"
    "gn_wgReady g" "\<not> gn_canceled g" "br_current b = Some 0"
proof -
  obtain b where b: "run_bridge demo_bridge_env wireguard_moves empty_bridge = Some b"
    and "br_current b = Some 0"
    and "map (\<lambda>g. (gn_open g, gn_wgReady g, gn_canceled g, gn_networkConfigJSON g)) (br_gens b) = [([0], True, False, ''a'')]"
    using wireguard_run by auto
  then show ?thesis
    using that [OF started_reach [OF b]] by auto
qed

theorem one_live_generation_witness:
  "\<exists>b. reach bridge_init (bridge_step demo_bridge_env) b \<and> WDTT_IsRunning b = 1 \<and> fst (WDTT_Start demo_args b) = -1"
proof (rule wireguard_up)
  fix b g
  assume b: "reach bridge_init (bridge_step demo_bridge_env) b" "br_gens b = [g]" "\<not> gn_canceled g"
  have "parseHashes (sa_vkHashes demo_args) \<noteq> []" "sa_password demo_args \<noteq> []"
    by code_simp+
  then have "WDTT_IsRunning b = 1 \<and> fst (WDTT_Start demo_args b) = -1"
    using one_live_generation [OF b(1), of demo_args] b(2,3) by simp
  then show ?thesis
    using b(1) by blast
qed

theorem wireguard_lifecycle_witness:
  "\<exists>b g. reach bridge_init (bridge_step demo_bridge_env) b \<and> g \<in> set (br_gens b) \<and> gn_open g = [0]
     \<and> gn_ready g \<and> gn_activate g \<and> gn_wgReady g"
proof (rule wireguard_up)
  fix b g
  assume b: "reach bridge_init (bridge_step demo_bridge_env) b" "br_gens b = [g]" "gn_open g = [0]" "gn_wgReady g"
  then have g: "g \<in> set (br_gens b)" by simp
  then have "gn_ready g \<and> gn_activate g"
    using wireguard_lifecycle [OF b(1) g] b(4) by blast
  then show ?thesis
    using b g by blast
qed

theorem stop_ends_tunnel_witness:
  "\<exists>b g ev g'. reach bridge_init (bridge_step demo_bridge_env) b \<and> g \<in> set (br_gens b) \<and> gn_canceled g
     \<and> gen_event demo_bridge_env ev g = Some g' \<and> rank g' < rank g \<and> rank g \<le> 21"
proof (rule two_tunnels)
  fix b g h
  assume b: "reach bridge_init (bridge_step demo_bridge_env) b" "br_gens b = [g, h]" "gn_canceled g"
    "gn_main g = MainRun RunWorkers"
  then have g: "g \<in> set (br_gens b)" by simp
  have "gen_event demo_bridge_env (EvMain MvNext) g = Some (g\<lparr>gn_main := MainRun RunCancel\<rparr>)"
    using b(4) by simp
  then show ?thesis
    using stop_ends_tunnel [OF b(1) g b(3)] b(1,3) g by (metis own_move.simps(1))
qed

section \<open>The result of an attempt\<close>

text \<open>
  The sessions of an attempt, in any order; their additions to the counter \<^verbatim>\<open>ActiveConnections\<close> are atomic and
  commute, so the order does not matter for it.
\<close>

definition run_sessions :: "session_env list \<Rightarrow> session_world \<Rightarrow> session_world" where
  "run_sessions envs w = fold (\<lambda>env v. fst (RunSession env v)) envs w"

lemma run_sessions_active:
  "d_workers (sw_disp w) = [] \<Longrightarrow>
   sw_active (run_sessions envs w) = sw_active w \<and> d_workers (sw_disp (run_sessions envs w)) = []"
proof (induction envs arbitrary: w)
  case (Cons env envs)
  obtain v r where v: "RunSession env w = (v, r)" by (cases "RunSession env w")
  have "owed env w [] v"
    by (rule session_owes_nothing [OF _ v]) (simp add: Cons.prems)
  then have "sw_active v = sw_active w \<and> d_workers (sw_disp v) = []"
    by (simp add: owed_def Cons.prems)
  then show ?case
    using Cons.IH [of v] v by (simp add: run_sessions_def)
qed (simp add: run_sessions_def)

text \<open>
  An attempt never ends well: \<^verbatim>\<open>runOnce\<close> looks at the number of active connections after all its workers have returned, and
  every session has given its connection back by then, so the number is zero and the result is an error, also when the
  transport worked for hours. The branch of \<^verbatim>\<open>runTunnelLoop\<close> that resets the pause after a good attempt is never
  taken: only a requested reconnect resets it.
\<close>

theorem attempt_ends_in_error:
  assumes "sw_active w = 0" "d_workers (sw_disp w) = []"
  shows "run_result canceled (sw_active (run_sessions envs w)) \<noteq> None
     \<and> (\<not> canceled \<longrightarrow> run_result canceled (sw_active (run_sessions envs w)) = Some all_workers_ended)"
  using run_sessions_active [OF assms(2), of envs] assms(1) by (simp add: run_result_def)


theorem attempt_ends_in_error_witness:
  "run_result False (sw_active (run_sessions [good_session, demo_session] (demo_world\<lparr>sw_active := 0\<rparr>))) = Some all_workers_ended"
proof -
  have "sw_active (demo_world\<lparr>sw_active := 0\<rparr>) = 0" "d_workers (sw_disp (demo_world\<lparr>sw_active := 0\<rparr>)) = []"
    by (simp_all add: demo_world_def NewDispatcher_def)
  then show ?thesis
    by (rule attempt_ends_in_error [THEN conjunct2, rule_format]) simp
qed

end
