(* ===== verification/CaptchaExchange.thy ===== *)
theory CaptchaExchange
  imports VkLegacy
begin

text \<open>
  How a captcha reaches the application and its answer comes back. The client prints a line with the
  request and waits on \<^verbatim>\<open>CaptchaResultChan\<close>, a channel with room for one text (\<^verbatim>\<open>requestWebViewCaptcha\<close> of
  \<^verbatim>\<open>creds.go\<close>). On iOS the standard output is a pipe that \<^verbatim>\<open>captcha_ipc_ios.go\<close> reads: it hands a request to the
  application through a file and polls for a file with the answer. The files and the clock are the record
  \<open>ios_files\<close>. The exchange of the two goroutines is a step relation; its requests are numbered only in the
  model.
\<close>

section \<open>Reading a request\<close>

text \<open>\<^verbatim>\<open>strings.SplitN\<close> at a one-byte separator\<close>

fun split_n :: "nat \<Rightarrow> char \<Rightarrow> string \<Rightarrow> string list" where
  "split_n 0 d s = []"
| "split_n (Suc 0) d s = [s]"
| "split_n (Suc (Suc n)) d s =
     (case cut_at d s of None \<Rightarrow> [s] | Some (a, b) \<Rightarrow> a # split_n (Suc n) d b)"

lemma split_n_cons: "d \<notin> set a \<Longrightarrow> split_n (Suc (Suc n)) d (a @ d # b) = a # split_n (Suc n) d b"
  using cut_at_Some_iff [of d "a @ d # b" a b] by simp

record solve_request =
  sr_mode :: string
  sr_uri :: string
  sr_token :: string

definition parse_solve_line :: "string \<Rightarrow> string + solve_request" where
  "parse_solve_line line =
     (case split_n 4 (CHR ''|'') line of
        [p0, p1, p2, p3] \<Rightarrow>
          (let uri = trim_space p2; token = trim_space p3 in
           if uri = [] \<or> token = [] then Inl ''error:invalid captcha request''
           else Inr \<lparr>sr_mode = to_lower (trim_space p1), sr_uri = uri, sr_token = token\<rparr>)
      | _ \<Rightarrow> Inl ''error:invalid CAPTCHA_SOLVE format'')"

definition ios_wait :: "string \<Rightarrow> duration" where
  "ios_wait mode =
     (if mode = ''manual'' then 60 * second else if mode = ''selected'' then 120 * second else 10 * second)"

section \<open>The request and result files\<close>

record ios_files =
  fs_dir :: string
  fs_mkdir :: bool
  fs_write :: bool
  fs_requestID :: string
  fs_start :: gotime
  fs_clock :: "nat \<Rightarrow> gotime"
  fs_result :: "nat \<Rightarrow> (string \<times> string) option"

text \<open>
  The polling loop: turn \<open>k\<close> looks at the clock and at the result file (\<open>None\<close>: no file, or one that
  cannot be decoded). \<open>Some v\<close> is the answer with this request's number, \<open>None\<close> the end of the time.
\<close>

definition answer_value :: "string \<Rightarrow> string" where
  "answer_value res = (let v = trim_space res in if v = [] then ''error:empty captcha result'' else v)"

definition poll_answer :: "ios_files \<Rightarrow> nat \<Rightarrow> string option" where
  "poll_answer fs k =
     (case fs_result fs k of
        Some (i, res) \<Rightarrow> if i = fs_requestID fs then Some (answer_value res) else None
      | None \<Rightarrow> None)"

partial_function (option) poll_result :: "ios_files \<Rightarrow> gotime \<Rightarrow> nat \<Rightarrow> (nat \<times> string option) option" where
  "poll_result fs deadline k =
     (if fs_clock fs k < deadline then
        (case poll_answer fs k of
           Some v \<Rightarrow> Some (k, Some v)
         | None \<Rightarrow> poll_result fs deadline (k + 1))
      else Some (k, None))"

text \<open>
  What the handler puts into the channel: \<open>TrySend\<close> is dropped when the channel is full, \<open>Send\<close> waits for room.
  The outer option is \<open>None\<close> when the polling loop does not end.
\<close>

datatype captcha_reply = TrySend string | Send string

definition storage_unavailable :: string where
  "storage_unavailable = ''error:iOS App Group storage unavailable''"

text \<open>The end of the polling: a quarter of a second before the wait of the mode is over\<close>

definition poll_deadline :: "ios_files \<Rightarrow> solve_request \<Rightarrow> gotime" where
  "poll_deadline fs r = fs_start fs + (ios_wait (sr_mode r) - 250 * millisecond)"

definition handleIOSCaptchaSolveLine :: "ios_files \<Rightarrow> string \<Rightarrow> captcha_reply option" where
  "handleIOSCaptchaSolveLine fs line =
     (case parse_solve_line line of
        Inl e \<Rightarrow> Some (TrySend e)
      | Inr r \<Rightarrow>
          if fs_dir fs = [] \<or> \<not> fs_mkdir fs then Some (TrySend storage_unavailable)
          else if \<not> fs_write fs then Some (TrySend ''error:iOS captcha request write failed'')
          else
            (case poll_result fs (poll_deadline fs r) 0 of
               None \<Rightarrow> None
             | Some (k, None) \<Rightarrow> Some (TrySend ''error:timeout'')
             | Some (k, Some v) \<Rightarrow> Some (Send v)))"

text \<open>One line of the intercepted output: a request for the handler, or a line for the log\<close>

definition consume_line :: "string \<Rightarrow> string + string option" where
  "consume_line text0 =
     (let line = trim_space text0 in
      if has_prefix line ''CAPTCHA_SOLVE|'' then Inl line
      else Inr (if line \<noteq> [] then Some (''[GO] '' @ line) else None))"

text \<open>
  The scanner of \<^verbatim>\<open>consumeIOSStdout\<close> cuts what was printed so far into lines, each without its newline and a carriage return
  before it. The rest without a newline waits for more. Its buffer holds 256 KiB with the newline: at a longer line
  the scanner stops, and with it the reader. The lines of the protocol and of the log come out in order.
\<close>

definition scan_limit :: nat where
  "scan_limit = 256 * 1024"

definition newline :: char where
  "newline = char_of (10::nat)"

definition drop_cr :: "string \<Rightarrow> string" where
  "drop_cr s = (if s \<noteq> [] \<and> last s = char_of (13::nat) then butlast s else s)"

function scan_lines :: "string \<Rightarrow> string list" where
  "scan_lines s =
     (case cut_at newline s of
        None \<Rightarrow> []
      | Some (l, rest) \<Rightarrow> if length l < scan_limit then drop_cr l # scan_lines rest else [])"
  by pat_completeness auto
termination
  by (relation "measure length") (auto simp: cut_at_Some_iff)

declare scan_lines.simps [simp del]

definition consumeIOSStdout :: "string \<Rightarrow> (string + string option) list" where
  "consumeIOSStdout printed = map consume_line (scan_lines printed)"

section \<open>The request arrives as it was sent\<close>

definition printed_line :: "string \<Rightarrow> bool" where
  "printed_line l \<longleftrightarrow> newline \<notin> set l \<and> length l < scan_limit"

lemma scan_line: "printed_line l \<Longrightarrow> scan_lines (l @ newline # rest) = drop_cr l # scan_lines rest"
  using cut_at_Some_iff [of newline "l @ newline # rest" l rest] by (simp add: printed_line_def scan_lines.simps [of "l @ newline # rest"])

lemma scan_more:
  "\<forall>l \<in> set ls. printed_line l \<Longrightarrow>
   scan_lines (concat (map (\<lambda>l. l @ [newline]) ls) @ rest) = map drop_cr ls @ scan_lines rest"
  by (induction ls) (simp_all add: scan_line)

lemma overlong_line_stops: "newline \<notin> set l \<Longrightarrow> scan_limit \<le> length l \<Longrightarrow> consumeIOSStdout (l @ newline # rest) = []"
  using cut_at_Some_iff [of newline "l @ newline # rest" l rest]
  by (simp add: consumeIOSStdout_def scan_lines.simps [of "l @ newline # rest"])

lemma webview_mode_cases: "webview_mode m \<in> {''auto'', ''manual'', ''selected''}"
  by (simp add: webview_mode_def Let_def)

lemma webview_mode_clean:
  "CHR ''|'' \<notin> set (webview_mode m)" "to_lower (trim_space (webview_mode m)) = webview_mode m"
proof -
  have "\<forall>x \<in> {''auto'', ''manual'', ''selected''}. CHR ''|'' \<notin> set x \<and> to_lower (trim_space x) = x"
    by code_simp
  then show "CHR ''|'' \<notin> set (webview_mode m)" "to_lower (trim_space (webview_mode m)) = webview_mode m"
    using webview_mode_cases [of m] by blast+
qed

lemma solve_line_ends:
  assumes "vc_SessionToken c \<noteq> []" "trim_space (vc_SessionToken c) = vc_SessionToken c"
  shows "trim_space (solve_line mode c) = solve_line mode c" "drop_cr (solve_line mode c) = solve_line mode c"
proof -
  have last: "\<not> is_space (last (vc_SessionToken c))"
    using trim_with_ends [of is_space "vc_SessionToken c"] assms by (simp add: trim_space_def)
  moreover have "\<not> is_space (hd (solve_line mode c))"
    by (simp add: solve_line_def is_space_def byte_of_def Let_def)
  ultimately show "trim_space (solve_line mode c) = solve_line mode c"
    using assms(1) unfolding trim_space_def by (intro trim_with_id) (simp add: solve_line_def)
  have "is_space (char_of (13::nat))"
    by code_simp
  then show "drop_cr (solve_line mode c) = solve_line mode c"
    using last assms(1) by (auto simp: drop_cr_def solve_line_def)
qed

lemma solve_line_one_line:
  assumes "newline \<notin> set (vc_RedirectURI c)" "newline \<notin> set (vc_SessionToken c)"
  shows "newline \<notin> set (solve_line mode c)"
proof -
  have "\<forall>x \<in> {''auto'', ''manual'', ''selected'', ''CAPTCHA_SOLVE|'', ''|''}. newline \<notin> set x"
    by code_simp
  then have "newline \<notin> set (webview_mode mode)" "newline \<notin> set ''CAPTCHA_SOLVE|''" "newline \<notin> set ''|''"
    using webview_mode_cases [of mode] by blast+
  then show ?thesis
    using assms by (auto simp: solve_line_def)
qed

text \<open>
  C25. The captcha request survives its way through the pipe: whatever lines were printed before it, none of them too long for the
  scanner, and whatever is printed after it, the reader takes the line of the request as a request for the handler and each other
  line as its own, in order; and the line cut at the bars gives the mode, the address and the session token that were
  sent, whatever bars the token has. It holds for an address and a token without newlines and white space at their ends, an
  address without a bar, and a request below 256 KiB. In each mode the reader looks for an answer until a quarter of a
  second before the time the client waits in this mode is over, counted from the start of its request.
\<close>

theorem captcha_request_roundtrip:
  assumes "vc_RedirectURI c \<noteq> []" "CHR ''|'' \<notin> set (vc_RedirectURI c)" "trim_space (vc_RedirectURI c) = vc_RedirectURI c"
    and "vc_SessionToken c \<noteq> []" "trim_space (vc_SessionToken c) = vc_SessionToken c"
    and "newline \<notin> set (vc_RedirectURI c)" "newline \<notin> set (vc_SessionToken c)"
    and "length (solve_line mode c) < scan_limit" "\<forall>l \<in> set before. printed_line l"
  shows "consumeIOSStdout (concat (map (\<lambda>l. l @ [newline]) before) @ solve_line mode c @ newline # after)
       = map (\<lambda>l. consume_line (drop_cr l)) before @ Inl (solve_line mode c) # consumeIOSStdout after
     \<and> parse_solve_line (solve_line mode c)
         = Inr \<lparr>sr_mode = webview_mode mode, sr_uri = vc_RedirectURI c, sr_token = vc_SessionToken c\<rparr>
     \<and> poll_deadline fs \<lparr>sr_mode = ''auto'', sr_uri = u, sr_token = t\<rparr>
         = fs_start fs + captchaAutoWebViewTimeout - 250 * millisecond
     \<and> poll_deadline fs \<lparr>sr_mode = ''manual'', sr_uri = u, sr_token = t\<rparr>
         = fs_start fs + captchaManualWebViewTimeout - 250 * millisecond
     \<and> poll_deadline fs \<lparr>sr_mode = ''selected'', sr_uri = u, sr_token = t\<rparr>
         = fs_start fs + captchaSelectedWebViewTimeout - 250 * millisecond"
proof -
  let ?l = "solve_line mode c"
  note ends = solve_line_ends [OF assms(4,5), of mode]
  have "printed_line ?l"
    using solve_line_one_line [OF assms(6,7)] assms(8) by (simp add: printed_line_def)
  moreover have "consume_line ?l = Inl ?l"
    using ends(1) by (simp add: consume_line_def Let_def) (simp add: solve_line_def)
  ultimately have "consumeIOSStdout (concat (map (\<lambda>l. l @ [newline]) before) @ ?l @ newline # after)
       = map (\<lambda>l. consume_line (drop_cr l)) before @ Inl ?l # consumeIOSStdout after"
    using scan_more [OF assms(9), of "?l @ newline # after"] scan_line [of ?l after] ends(2)
    by (simp add: consumeIOSStdout_def)
  moreover have "split_n 4 (CHR ''|'') ?l = [''CAPTCHA_SOLVE'', webview_mode mode, vc_RedirectURI c, vc_SessionToken c]"
    using split_n_cons [of "CHR ''|''" "''CAPTCHA_SOLVE''"] split_n_cons [of "CHR ''|''" "webview_mode mode"]
      split_n_cons [of "CHR ''|''" "vc_RedirectURI c"] assms(2) webview_mode_clean(1) [of mode]
    by (simp add: solve_line_def numeral_eq_Suc del: split_n.simps(3))
  then have "parse_solve_line ?l
       = Inr \<lparr>sr_mode = webview_mode mode, sr_uri = vc_RedirectURI c, sr_token = vc_SessionToken c\<rparr>"
    using assms(1,3,4,5) webview_mode_clean(2) [of mode] by (simp add: parse_solve_line_def Let_def)
  ultimately show ?thesis
    by (simp add: poll_deadline_def ios_wait_def captchaAutoWebViewTimeout_def captchaManualWebViewTimeout_def
        captchaSelectedWebViewTimeout_def)
qed


section \<open>The reader answers in time\<close>

definition clock_runs :: "ios_files \<Rightarrow> bool" where
  "clock_runs fs \<longleftrightarrow> fs_start fs \<le> fs_clock fs 0 \<and> (\<forall>k. fs_clock fs k + 100 * millisecond \<le> fs_clock fs (Suc k))"

lemma clock_runs_linear: "clock_runs fs \<Longrightarrow> fs_start fs + int k * (100 * millisecond) \<le> fs_clock fs k"
proof (induction k)
  case (Suc k)
  then have "fs_clock fs k + 100 * millisecond \<le> fs_clock fs (Suc k)"
    by (simp add: clock_runs_def)
  then show ?case
    using Suc by (simp add: algebra_simps)
qed (simp add: clock_runs_def)

text \<open>The loop ends; before its last turn no file had the number, and the last turn has one or is after the deadline.\<close>

lemma poll_ends:
  assumes "clock_runs fs"
  shows "\<exists>j v. poll_result fs deadline k = Some (j, v)
    \<and> (\<forall>i. k \<le> i \<and> i < j \<longrightarrow> fs_clock fs i < deadline \<and> poll_answer fs i = None)
    \<and> (case v of Some a \<Rightarrow> fs_clock fs j < deadline \<and> poll_answer fs j = Some a | None \<Rightarrow> deadline \<le> fs_clock fs j)"
proof (induction "nat (deadline - fs_clock fs k)" arbitrary: k rule: less_induct)
  case less
  show ?case
  proof (cases "fs_clock fs k < deadline \<and> poll_answer fs k = None")
    case True
    have "fs_clock fs k + 100 * millisecond \<le> fs_clock fs (Suc k)"
      using assms by (simp add: clock_runs_def)
    then have "fs_clock fs k < fs_clock fs (Suc k)"
      by (simp add: millisecond_def)
    with True have "nat (deadline - fs_clock fs (Suc k)) < nat (deadline - fs_clock fs k)" by simp
    then obtain j v where jv: "poll_result fs deadline (Suc k) = Some (j, v)"
        "\<forall>i. Suc k \<le> i \<and> i < j \<longrightarrow> fs_clock fs i < deadline \<and> poll_answer fs i = None"
        "case v of Some a \<Rightarrow> fs_clock fs j < deadline \<and> poll_answer fs j = Some a | None \<Rightarrow> deadline \<le> fs_clock fs j"
      using less [of "Suc k"] by blast
    moreover have "poll_result fs deadline k = Some (j, v)"
      using jv(1) True by (subst poll_result.simps) simp
    ultimately show ?thesis
      using True by (metis Suc_leI le_neq_implies_less)
  next
    case False
    then show ?thesis
      by (subst poll_result.simps) (auto split: option.splits)
  qed
qed

lemma poll_answer_iff: "poll_answer fs k = Some v \<longleftrightarrow> (\<exists>res. fs_result fs k = Some (fs_requestID fs, res) \<and> v = answer_value res)"
  by (auto simp: poll_answer_def split: option.splits)

lemma poll_answer_None: "poll_answer fs k = None \<longleftrightarrow> (\<forall>res. fs_result fs k \<noteq> Some (fs_requestID fs, res))"
  by (auto simp: poll_answer_def split: option.splits)

text \<open>How often a loop that is not over before turn \<open>j\<close> looks at the file\<close>

lemma poll_turns:
  assumes "clock_runs fs" "\<forall>i < j. fs_clock fs i < fs_start fs + (w - 250 * millisecond)" "0 < w"
  shows "int j * (100 * millisecond) < w"
proof (cases j)
  case (Suc i)
  then have "fs_start fs + int i * (100 * millisecond) < fs_start fs + (w - 250 * millisecond)"
    using assms(2) clock_runs_linear [OF assms(1), of i] by (meson lessI order.strict_trans1)
  then show ?thesis
    by (simp add: Suc algebra_simps millisecond_def)
qed (simp add: assms(3))

lemma ios_wait_pos: "0 < ios_wait mode"
  by (simp add: ios_wait_def second_def)

lemma parse_error_texts:
  "parse_solve_line line = Inl e \<Longrightarrow> e \<noteq> ''error:timeout''"
  by (auto simp: parse_solve_line_def Let_def split: list.splits if_splits)

text \<open>
  C32. The reader of the pipe comes to the end of every request, so it can go on to the next line, with a clock that advances by the
  100 milliseconds of the pause. What it then sends as the answer of the application was in the result file with the number of this
  request, trimmed, or is the text for an empty answer; the file was read more than a quarter of a second before
  the wait of the mode is over, and no earlier turn had a file with this number. When it reports that the time is over, no turn
  before the deadline had one. In both cases it polls fewer than ten times per second of the wait. An answer is sent
  with a blocking send, the errors are not; \<open>answers_match\<close> says when the channel has room.
\<close>

theorem captcha_reader_returns:
  assumes "clock_runs fs"
  shows "\<exists>r. handleIOSCaptchaSolveLine fs line = Some r
     \<and> (\<forall>v. r = Send v \<longrightarrow>
          (\<exists>q k res. parse_solve_line line = Inr q \<and> fs_result fs k = Some (fs_requestID fs, res)
             \<and> v = (if trim_space res = [] then ''error:empty captcha result'' else trim_space res)
             \<and> (\<forall>j < k. \<forall>res. fs_result fs j \<noteq> Some (fs_requestID fs, res))
             \<and> fs_clock fs k < fs_start fs + (ios_wait (sr_mode q) - 250 * millisecond)
             \<and> int k * (100 * millisecond) < ios_wait (sr_mode q)))
     \<and> (r = TrySend ''error:timeout'' \<longrightarrow>
          (\<exists>q k. parse_solve_line line = Inr q
             \<and> (\<forall>j < k. \<forall>res. fs_result fs j \<noteq> Some (fs_requestID fs, res))
             \<and> fs_start fs + (ios_wait (sr_mode q) - 250 * millisecond) \<le> fs_clock fs k
             \<and> int k * (100 * millisecond) < ios_wait (sr_mode q)))"
proof (cases "parse_solve_line line")
  case (Inl e)
  then show ?thesis
    using parse_error_texts by (auto simp: handleIOSCaptchaSolveLine_def)
next
  case (Inr q)
  define d where "d = fs_start fs + (ios_wait (sr_mode q) - 250 * millisecond)"
  obtain k v where p: "poll_result fs d 0 = Some (k, v)"
    and before: "\<forall>i < k. fs_clock fs i < d" "\<forall>i < k. \<forall>res. fs_result fs i \<noteq> Some (fs_requestID fs, res)"
    and last: "case v of Some a \<Rightarrow> fs_clock fs k < d \<and> poll_answer fs k = Some a | None \<Rightarrow> d \<le> fs_clock fs k"
    using poll_ends [OF assms, of d 0] by (auto simp: poll_answer_None)
  have turns: "int k * (100 * millisecond) < ios_wait (sr_mode q)"
    using poll_turns [OF assms, of k] before(1) ios_wait_pos by (simp add: d_def)
  have h: "handleIOSCaptchaSolveLine fs line =
      (if fs_dir fs = [] \<or> \<not> fs_mkdir fs then Some (TrySend storage_unavailable)
       else if \<not> fs_write fs then Some (TrySend ''error:iOS captcha request write failed'')
       else Some (case v of None \<Rightarrow> TrySend ''error:timeout'' | Some a \<Rightarrow> Send a))"
    using Inr p by (simp add: handleIOSCaptchaSolveLine_def poll_deadline_def d_def split: option.splits)
  show ?thesis
  proof (cases v)
    case None
    then show ?thesis
      unfolding h using Inr before(2) last turns by (auto simp: storage_unavailable_def d_def)
  next
    case (Some a)
    then obtain res where res: "fs_result fs k = Some (fs_requestID fs, res)" "a = answer_value res" "fs_clock fs k < d"
      using last by (auto simp: poll_answer_iff)
    have "\<exists>q k res. parse_solve_line line = Inr q \<and> fs_result fs k = Some (fs_requestID fs, res)
             \<and> a = (if trim_space res = [] then ''error:empty captcha result'' else trim_space res)
             \<and> (\<forall>j < k. \<forall>res. fs_result fs j \<noteq> Some (fs_requestID fs, res))
             \<and> fs_clock fs k < fs_start fs + (ios_wait (sr_mode q) - 250 * millisecond)
             \<and> int k * (100 * millisecond) < ios_wait (sr_mode q)"
      using Inr res before(2) turns by (intro exI [of _ q] exI [of _ k] exI [of _ res]) (simp add: answer_value_def Let_def d_def)
    then show ?thesis
      unfolding h using Some by (auto simp: storage_unavailable_def)
  qed
qed


section \<open>Requests and answers in every interleaving\<close>

text \<open>
  The client asks one captcha at a time (requests to VK hold a lock): it empties the channel, prints the line and
  waits for a text or for its time to end. The reader takes the lines in order and puts one text into the channel for
  each. The texts carry no number; \<open>ex_chan\<close> remembers which request the reader was working on, \<open>ex_got\<close> the
  pairs of a request and the request its answer was made for. With \<open>timely\<close>, the client's time
  does not end before the reader has finished, as \<open>captcha_reader_returns\<close> gives for a reader that starts at once.
\<close>

datatype asker = AskIdle | AskDrained | AskWaiting nat

record captcha_exchange =
  ex_chan :: "(nat \<times> string) option"
  ex_pipe :: "nat list"
  ex_reader :: "nat option"
  ex_asker :: asker
  ex_next :: nat
  ex_got :: "(nat \<times> nat) list"

definition drainCaptchaResult :: "captcha_exchange \<Rightarrow> captcha_exchange" where
  "drainCaptchaResult x = x\<lparr>ex_chan := None\<rparr>"

definition exchange_start :: captcha_exchange where
  "exchange_start = \<lparr>ex_chan = None, ex_pipe = [], ex_reader = None, ex_asker = AskIdle, ex_next = 0, ex_got = []\<rparr>"

definition send_reply :: "nat \<Rightarrow> captcha_reply \<Rightarrow> captcha_exchange \<Rightarrow> captcha_exchange option" where
  "send_reply m r x =
     (case (r, ex_chan x) of
        (Send v, Some c) \<Rightarrow> None
      | (Send v, None) \<Rightarrow> Some (x\<lparr>ex_chan := Some (m, v), ex_reader := None\<rparr>)
      | (TrySend v, Some c) \<Rightarrow> Some (x\<lparr>ex_reader := None\<rparr>)
      | (TrySend v, None) \<Rightarrow> Some (x\<lparr>ex_chan := Some (m, v), ex_reader := None\<rparr>))"

inductive exchange_step :: "bool \<Rightarrow> captcha_exchange \<Rightarrow> captcha_exchange \<Rightarrow> bool" for timely where
  x_drain: "ex_asker x = AskIdle \<Longrightarrow> exchange_step timely x ((drainCaptchaResult x)\<lparr>ex_asker := AskDrained\<rparr>)"
| x_print: "ex_asker x = AskDrained \<Longrightarrow>
    exchange_step timely x (x\<lparr>ex_pipe := ex_pipe x @ [ex_next x], ex_asker := AskWaiting (ex_next x), ex_next := ex_next x + 1\<rparr>)"
| x_receive: "ex_asker x = AskWaiting n \<Longrightarrow> ex_chan x = Some (m, v) \<Longrightarrow>
    exchange_step timely x (x\<lparr>ex_chan := None, ex_asker := AskIdle, ex_got := (n, m) # ex_got x\<rparr>)"
| x_timeout: "ex_asker x = AskWaiting n \<Longrightarrow> timely \<longrightarrow> ex_reader x = None \<and> ex_pipe x = [] \<Longrightarrow>
    exchange_step timely x (x\<lparr>ex_asker := AskIdle\<rparr>)"
| x_take: "ex_reader x = None \<Longrightarrow> ex_pipe x = m # ms \<Longrightarrow>
    exchange_step timely x (x\<lparr>ex_pipe := ms, ex_reader := Some m\<rparr>)"
| x_reply: "ex_reader x = Some m \<Longrightarrow> send_reply m r x = Some x' \<Longrightarrow> exchange_step timely x x'"

definition exchange_init :: "captcha_exchange \<Rightarrow> bool" where
  "exchange_init x \<longleftrightarrow> x = exchange_start"

text \<open>With answers in time the one request that is open is in the pipe, with the reader, or in the channel.\<close>

definition exchange_inv :: "captcha_exchange \<Rightarrow> bool" where
  "exchange_inv x \<longleftrightarrow>
     (\<forall>(n, m) \<in> set (ex_got x). n = m)
     \<and> (case ex_asker x of
          AskWaiting n \<Rightarrow>
            ex_pipe x = [n] \<and> ex_reader x = None \<and> ex_chan x = None
            \<or> ex_pipe x = [] \<and> ex_reader x = Some n \<and> ex_chan x = None
            \<or> ex_pipe x = [] \<and> ex_reader x = None \<and> (\<exists>v. ex_chan x = Some (n, v))
        | AskDrained \<Rightarrow> ex_pipe x = [] \<and> ex_reader x = None \<and> ex_chan x = None
        | AskIdle \<Rightarrow> ex_pipe x = [] \<and> ex_reader x = None)"

lemma exchange_inv_step:
  assumes "exchange_inv x" "exchange_step True x x'"
  shows "exchange_inv x'"
  using assms(2,1)
  by cases (auto simp: exchange_inv_def drainCaptchaResult_def send_reply_def
      split: asker.splits captcha_reply.splits option.splits)

interpretation exchange_runs: invariant_system exchange_init "exchange_step True" exchange_inv
proof
  show "exchange_init x \<Longrightarrow> exchange_inv x" for x
    by (simp add: exchange_init_def exchange_start_def exchange_inv_def)
qed (rule exchange_inv_step)

text \<open>
  C19. Answers belong to their requests as long as they come in time: if no request is given up while the reader still
  has it, every answer the client takes was made for the request it is waiting for, the channel never holds an answer
  when a request is printed, and the reader never waits for room in the channel.
\<close>

theorem answers_match:
  assumes "reach exchange_init (exchange_step True) x"
  shows "(\<forall>(n, m) \<in> set (ex_got x). n = m)
     \<and> (ex_asker x = AskDrained \<longrightarrow> ex_chan x = None)
     \<and> (\<forall>m r. ex_reader x = Some m \<longrightarrow> send_reply m r x \<noteq> None)"
proof -
  have inv: "exchange_inv x"
    by (rule exchange_runs.reach_inv [OF assms])
  then have "ex_reader x \<noteq> None \<longrightarrow> ex_chan x = None"
    by (auto simp: exchange_inv_def split: asker.splits)
  then have "ex_reader x = Some m \<longrightarrow> send_reply m r x \<noteq> None" for m r
    by (cases r) (auto simp: send_reply_def)
  then show ?thesis
    using inv by (simp add: exchange_inv_def split: asker.splits)
qed

section \<open>A late answer\<close>

definition late_run :: "captcha_exchange list" where
  "late_run =
     (let x1 = (drainCaptchaResult exchange_start)\<lparr>ex_asker := AskDrained\<rparr>;
          x2 = x1\<lparr>ex_pipe := [0], ex_asker := AskWaiting 0, ex_next := 1\<rparr>;
          x3 = x2\<lparr>ex_pipe := [], ex_reader := Some 0\<rparr>;
          x4 = x3\<lparr>ex_asker := AskIdle\<rparr>;
          x5 = (drainCaptchaResult x4)\<lparr>ex_asker := AskDrained\<rparr>;
          x6 = x5\<lparr>ex_pipe := [1], ex_asker := AskWaiting 1, ex_next := 2\<rparr>;
          x7 = x6\<lparr>ex_chan := Some (0, ''token''), ex_reader := None\<rparr>;
          x8 = x7\<lparr>ex_chan := None, ex_asker := AskIdle, ex_got := [(1, 0)]\<rparr>
      in [exchange_start, x1, x2, x3, x4, x5, x6, x7, x8])"


lemma late_run_steps: "successively (exchange_step False) late_run"
proof -
  note late = late_run_def Let_def drainCaptchaResult_def exchange_start_def
  have "exchange_step False (late_run ! 0) (late_run ! 1)"
    using x_drain [of exchange_start False] by (simp add: late)
  moreover have "exchange_step False (late_run ! 1) (late_run ! 2)"
    using x_print [of "late_run ! 1" False] by (simp add: late)
  moreover have "exchange_step False (late_run ! 2) (late_run ! 3)"
    using x_take [of "late_run ! 2" 0 "[]" False] by (simp add: late)
  moreover have "exchange_step False (late_run ! 3) (late_run ! 4)"
    using x_timeout [of "late_run ! 3" 0 False] by (simp add: late)
  moreover have "exchange_step False (late_run ! 4) (late_run ! 5)"
    using x_drain [of "late_run ! 4" False] by (simp add: late)
  moreover have "exchange_step False (late_run ! 5) (late_run ! 6)"
    using x_print [of "late_run ! 5" False] by (simp add: late numeral_2_eq_2)
  moreover have "exchange_step False (late_run ! 6) (late_run ! 7)"
    using x_reply [of "late_run ! 6" 0 "Send ''token''" "late_run ! 7" False] by (simp add: late send_reply_def)
  moreover have "exchange_step False (late_run ! 7) (late_run ! 8)"
    using x_receive [of "late_run ! 7" 1 0 "''token''" False] by (simp add: late)
  ultimately show ?thesis
    by (simp add: late_run_def Let_def)
qed

text \<open>
  An answer that comes late is taken for the answer of another request: if a request is given up while the reader still
  has it, and the next one empties the channel and waits before the late answer arrives, the client accepts it: nothing
  in the channel says which request it belongs to.
\<close>

theorem late_answer_accepted:
  "\<exists>x. reach exchange_init (exchange_step False) x \<and> ex_got x = [(1, 0)]"
proof -
  have "reach exchange_init (exchange_step False) exchange_start"
    by (rule reach.reach_init) (simp add: exchange_init_def)
  then have "reach exchange_init (exchange_step False) (last (exchange_start # tl late_run))"
    by (rule reach_path) (use late_run_steps in \<open>simp add: late_run_def Let_def\<close>)
  then show ?thesis
    by (intro exI [of _ "last (exchange_start # tl late_run)"]) (simp add: late_run_def Let_def)
qed

section \<open>Examples\<close>

definition demo_captcha :: VkCaptcha where
  "demo_captcha =
     \<lparr>vc_ErrorCode = 14, vc_ErrorMsg = [], vc_CaptchaSid = ''1'', vc_CaptchaImg = [],
      vc_RedirectURI = ''https://id.vk.com/x'', vc_SessionToken = ''s|t'', vc_CaptchaTs = [], vc_CaptchaAttempt = []\<rparr>"

theorem captcha_request_roundtrip_witness:
  "consumeIOSStdout (''ready'' @ newline # solve_line ''manual'' demo_captcha @ newline # [])
       = [Inr (Some ''[GO] ready''), Inl (solve_line ''manual'' demo_captcha)]
   \<and> parse_solve_line (solve_line ''manual'' demo_captcha)
       = Inr \<lparr>sr_mode = webview_mode ''manual'', sr_uri = ''https://id.vk.com/x'', sr_token = ''s|t''\<rparr>"
proof -
  have "vc_RedirectURI demo_captcha \<noteq> []" "CHR ''|'' \<notin> set (vc_RedirectURI demo_captcha)"
    "trim_space (vc_RedirectURI demo_captcha) = vc_RedirectURI demo_captcha" "vc_SessionToken demo_captcha \<noteq> []"
    "trim_space (vc_SessionToken demo_captcha) = vc_SessionToken demo_captcha"
    "newline \<notin> set (vc_RedirectURI demo_captcha)" "newline \<notin> set (vc_SessionToken demo_captcha)"
    by code_simp+
  moreover have "length (solve_line ''manual'' demo_captcha) < 100" "newline \<notin> set ''ready''"
    by code_simp+
  then have "length (solve_line ''manual'' demo_captcha) < scan_limit" "\<forall>l \<in> set [''ready'']. printed_line l"
    by (simp_all add: scan_limit_def printed_line_def)
  moreover have "consume_line (drop_cr ''ready'') = Inr (Some ''[GO] ready'')" "consumeIOSStdout [] = []"
    by (code_simp, simp add: consumeIOSStdout_def scan_lines.simps)
  ultimately show ?thesis
    using captcha_request_roundtrip [of demo_captcha "''manual''" "[''ready'']" "[]"] by (simp add: demo_captcha_def)
qed

definition demo_files :: ios_files where
  "demo_files =
     \<lparr>fs_dir = ''d'', fs_mkdir = True, fs_write = True, fs_requestID = ''7'', fs_start = 1000 * second,
      fs_clock = (\<lambda>k. 1000 * second + int k * (100 * millisecond)),
      fs_result = (\<lambda>k. if k = 0 then None else if k = 1 then Some (''6'', ''old'') else Some (''7'', '' tok''))\<rparr>"

theorem captcha_reader_returns_witness:
  "\<exists>r. handleIOSCaptchaSolveLine demo_files (solve_line ''auto'' demo_captcha) = Some r
     \<and> (\<forall>v. r = Send v \<longrightarrow> v \<noteq> ''old'')"
proof -
  have "clock_runs demo_files"
    by (simp add: clock_runs_def demo_files_def algebra_simps)
  moreover have "res \<noteq> ''old'' \<and> trim_space res = ''tok''" if "fs_result demo_files k = Some (fs_requestID demo_files, res)" for k res
  proof -
    have "res = '' tok''"
      using that by (auto simp: demo_files_def split: if_splits)
    then show ?thesis
      by simp code_simp
  qed
  ultimately show ?thesis
    using captcha_reader_returns [of demo_files "solve_line ''auto'' demo_captcha"] by fastforce
qed

lemma poll_example: "poll_result demo_files (1001 * second) 0 = Some (2, Some ''tok'')"
proof -
  have a: "poll_answer demo_files 0 = None" "poll_answer demo_files (Suc 0) = None"
      "poll_answer demo_files (Suc (Suc 0)) = Some ''tok''"
    by code_simp+
  have "fs_clock demo_files k < 1001 * second" if "k \<le> 2" for k
    using that by (simp add: demo_files_def second_def millisecond_def)
  then show ?thesis
    using a by (simp add: poll_result.simps [of demo_files _ 0] poll_result.simps [of demo_files _ "Suc 0"]
        poll_result.simps [of demo_files _ "Suc (Suc 0)"] numeral_2_eq_2)
qed

definition timely_run :: "captcha_exchange list" where
  "timely_run =
     (let x1 = (drainCaptchaResult exchange_start)\<lparr>ex_asker := AskDrained\<rparr>;
          x2 = x1\<lparr>ex_pipe := [0], ex_asker := AskWaiting 0, ex_next := 1\<rparr>;
          x3 = x2\<lparr>ex_pipe := [], ex_reader := Some 0\<rparr>;
          x4 = x3\<lparr>ex_chan := Some (0, ''token''), ex_reader := None\<rparr>;
          x5 = x4\<lparr>ex_chan := None, ex_asker := AskIdle, ex_got := [(0, 0)]\<rparr>
      in [exchange_start, x1, x2, x3, x4, x5])"

lemma timely_run_steps: "successively (exchange_step True) timely_run"
proof -
  note timely = timely_run_def Let_def drainCaptchaResult_def exchange_start_def
  have "exchange_step True (timely_run ! 0) (timely_run ! 1)"
    using x_drain [of exchange_start True] by (simp add: timely)
  moreover have "exchange_step True (timely_run ! 1) (timely_run ! 2)"
    using x_print [of "timely_run ! 1" True] by (simp add: timely)
  moreover have "exchange_step True (timely_run ! 2) (timely_run ! 3)"
    using x_take [of "timely_run ! 2" 0 "[]" True] by (simp add: timely)
  moreover have "exchange_step True (timely_run ! 3) (timely_run ! 4)"
    using x_reply [of "timely_run ! 3" 0 "Send ''token''" "timely_run ! 4" True] by (simp add: timely send_reply_def)
  moreover have "exchange_step True (timely_run ! 4) (timely_run ! 5)"
    using x_receive [of "timely_run ! 4" 0 0 "''token''" True] by (simp add: timely)
  ultimately show ?thesis
    by (simp add: timely_run_def Let_def)
qed

theorem answers_match_witness:
  "\<exists>x. reach exchange_init (exchange_step True) x \<and> ex_got x = [(0, 0)] \<and> (\<forall>(n, m) \<in> set (ex_got x). n = m)"
proof -
  have "reach exchange_init (exchange_step True) exchange_start"
    by (rule reach.reach_init) (simp add: exchange_init_def)
  then have r: "reach exchange_init (exchange_step True) (last (exchange_start # tl timely_run))"
    by (rule reach_path) (use timely_run_steps in \<open>simp add: timely_run_def Let_def\<close>)
  then show ?thesis
    using answers_match [OF r] by (intro exI [of _ "last (exchange_start # tl timely_run)"]) (simp add: timely_run_def Let_def)
qed

end
