(* ===== verification/Startup.thy ===== *)
theory Startup
  imports Hashes AccountCreds WgConfig WorkerGroups
begin

text \<open>
  The start of the desktop client, \<^verbatim>\<open>main\<close> of \<^verbatim>\<open>main.go\<close>: the checks of the flags, the check of the links,
  the measurement of the delay, the lines that the application writes to the standard input, the signals, and what
  happens with the configuration. Flags are given already parsed; logging is left out. The files, the
  resolver, HKDF and the listener are the record \<open>start_env\<close>.
\<close>

section \<open>Flags\<close>

record flags =
  fl_turn :: string
  fl_port :: string
  fl_listen :: string
  fl_vk :: string
  fl_peer :: string
  fl_n :: int
  fl_ping_only :: bool
  fl_device_id :: string
  fl_password :: string
  fl_captcha_mode :: string
  fl_vk_auth :: string
  fl_vk_anon_path :: string
  fl_vk_creds_file :: string
  fl_go_dns :: string
  fl_obfs :: string
  fl_check_hashes :: bool
  fl_mode :: string
  fl_socks :: string

text \<open>The values of the flags that are not given\<close>

definition default_flags :: flags where
  "default_flags =
     \<lparr>fl_turn = [], fl_port = [], fl_listen = ''127.0.0.1:9000'', fl_vk = [], fl_peer = [], fl_n = 24,
      fl_ping_only = False, fl_device_id = ''unknown'', fl_password = [], fl_captcha_mode = ''auto'',
      fl_vk_auth = ''anonymous'', fl_vk_anon_path = ''vkcalls'', fl_vk_creds_file = [], fl_go_dns = ''yandex'',
      fl_obfs = ''audio'', fl_check_hashes = False, fl_mode = ''vpn'', fl_socks = ''127.0.0.1:1080''\<rparr>"

definition active_mode :: "string \<Rightarrow> string" where
  "active_mode mode = (if to_lower (trim_space mode) \<noteq> ''socks'' then ''vpn'' else ''socks'')"

section \<open>The checks\<close>

record 'p start_env =
  st_creds_file :: "string \<Rightarrow> goerr + (string \<times> turnCredsPayload) list"
  st_resolve :: "string \<Rightarrow> goerr + 'p"
  st_derive :: "string \<Rightarrow> goerr + byte list"
  st_listen :: "string \<Rightarrow> goerr option"
  st_now :: gotime

record 'p client =
  cl_peer :: 'p
  cl_Host :: string
  cl_Port :: string
  cl_Hashes :: "string list"
  cl_WrapKey :: "byte list"
  cl_ObfsMode :: string
  cl_localPort :: string
  cl_mode :: string
  cl_groups :: "worker_group list"

datatype 'p start_result =
    Fatal string
  | CheckHashes "string list" AccountState
  | PingOnly "'p client" AccountState
  | RunClient "'p client" AccountState

definition local_port :: "string \<Rightarrow> string" where
  "local_port listen =
     (let p = (case split_host_port listen of Inr (h, port) \<Rightarrow> port | Inl e \<Rightarrow> []) in if p = [] then ''9000'' else p)"

definition client_of :: "flags \<Rightarrow> string list \<Rightarrow> 'p \<Rightarrow> byte list \<Rightarrow> AccountState \<Rightarrow> 'p client" where
  "client_of f hashes peer key a =
     \<lparr>cl_peer = peer, cl_Host = fl_turn f, cl_Port = fl_port f, cl_Hashes = hashes, cl_WrapKey = key,
      cl_ObfsMode = normalizeObfsMode (fl_obfs f), cl_localPort = local_port (fl_listen f),
      cl_mode = active_mode (fl_mode f),
      cl_groups = worker_groups (normalize_workers (getVkAuthMode a = ''account'') (fl_n f))\<rparr>"

definition start_client :: "'p start_env \<Rightarrow> flags \<Rightarrow> string list \<Rightarrow> AccountState \<Rightarrow> 'p start_result" where
  "start_client E f hashes a =
     (if fl_peer f = [] \<or> fl_vk f = [] then Fatal ([CHR 0xD0, CHR 0x9D, CHR 0xD1, CHR 0x83, CHR 0xD0, CHR 0xB6, CHR 0xD0, CHR 0xBD, CHR 0xD1, CHR 0x8B] @ '' -peer '' @ [CHR 0xD0, CHR 0xB8] @ '' -vk'')
      else
        (case st_resolve E (fl_peer f) of
           Inl e \<Rightarrow> Fatal (([CHR 0xD0, CHR 0x9E, CHR 0xD1, CHR 0x88, CHR 0xD0, CHR 0xB8, CHR 0xD0, CHR 0xB1, CHR 0xD0, CHR 0xBA, CHR 0xD0, CHR 0xB0] @ '' '' @ [CHR 0xD1, CHR 0x80, CHR 0xD0, CHR 0xB0, CHR 0xD0, CHR 0xB7, CHR 0xD0, CHR 0xB1, CHR 0xD0, CHR 0xBE, CHR 0xD1, CHR 0x80, CHR 0xD0, CHR 0xB0] @ '' '' @ [CHR 0xD0, CHR 0xBF, CHR 0xD0, CHR 0xB8, CHR 0xD1, CHR 0x80, CHR 0xD0, CHR 0xB0] @ '': '') @ err_text e)
         | Inr peer \<Rightarrow>
             if hashes = [] then Fatal ([CHR 0xD0, CHR 0x9D, CHR 0xD0, CHR 0xB5, CHR 0xD1, CHR 0x82] @ '' '' @ [CHR 0xD1, CHR 0x85, CHR 0xD0, CHR 0xB5, CHR 0xD1, CHR 0x88, CHR 0xD0, CHR 0xB5, CHR 0xD0, CHR 0xB9] @ '' VK'')
             else if fl_password f = [] then Fatal ([CHR 0xD0, CHR 0x9D, CHR 0xD1, CHR 0x83, CHR 0xD0, CHR 0xB6, CHR 0xD0, CHR 0xB5, CHR 0xD0, CHR 0xBD] @ '' -password: WRAP '' @ [CHR 0xD0, CHR 0xBA, CHR 0xD0, CHR 0xBB, CHR 0xD1, CHR 0x8E, CHR 0xD1, CHR 0x87] @ '' '' @ [CHR 0xD1, CHR 0x82, CHR 0xD0, CHR 0xB5, CHR 0xD0, CHR 0xBF, CHR 0xD0, CHR 0xB5, CHR 0xD1, CHR 0x80, CHR 0xD1, CHR 0x8C] @ '' '' @ [CHR 0xD0, CHR 0xB2, CHR 0xD1, CHR 0x8B, CHR 0xD0, CHR 0xB2, CHR 0xD0, CHR 0xBE, CHR 0xD0, CHR 0xB4, CHR 0xD0, CHR 0xB8, CHR 0xD1, CHR 0x82, CHR 0xD1, CHR 0x81, CHR 0xD1, CHR 0x8F] @ '' '' @ [CHR 0xD0, CHR 0xB8, CHR 0xD0, CHR 0xB7] @ '' '' @ [CHR 0xD0, CHR 0xBF, CHR 0xD0, CHR 0xB0, CHR 0xD1, CHR 0x80, CHR 0xD0, CHR 0xBE, CHR 0xD0, CHR 0xBB, CHR 0xD1, CHR 0x8F] @ '' '' @ [CHR 0xD0, CHR 0xBF, CHR 0xD0, CHR 0xBE, CHR 0xD0, CHR 0xB4, CHR 0xD0, CHR 0xBA, CHR 0xD0, CHR 0xBB, CHR 0xD1, CHR 0x8E, CHR 0xD1, CHR 0x87, CHR 0xD0, CHR 0xB5, CHR 0xD0, CHR 0xBD, CHR 0xD0, CHR 0xB8, CHR 0xD1, CHR 0x8F])
             else
               (case st_derive E (fl_password f) of
                  Inl e \<Rightarrow> Fatal (''WRAP key derive: '' @ err_text e)
                | Inr key \<Rightarrow>
                    if fl_ping_only f then PingOnly (client_of f hashes peer key a) a
                    else
                      (case st_listen E (fl_listen f) of
                         Some e \<Rightarrow> Fatal (([CHR 0xD0, CHR 0x9E, CHR 0xD1, CHR 0x88, CHR 0xD0, CHR 0xB8, CHR 0xD0, CHR 0xB1, CHR 0xD0, CHR 0xBA, CHR 0xD0, CHR 0xB0] @ '' '' @ [CHR 0xD1, CHR 0x81, CHR 0xD0, CHR 0xBB, CHR 0xD1, CHR 0x83, CHR 0xD1, CHR 0x88, CHR 0xD0, CHR 0xB0, CHR 0xD1, CHR 0x82, CHR 0xD0, CHR 0xB5, CHR 0xD0, CHR 0xBB, CHR 0xD1, CHR 0x8F] @ '' '') @ fl_listen f @ '': '' @ err_text e)
                       | None \<Rightarrow> RunClient (client_of f hashes peer key a) a))))"

definition start_main :: "'p start_env \<Rightarrow> flags \<Rightarrow> AccountState \<Rightarrow> 'p start_result" where
  "start_main E f a0 =
     (let a1 = snd (setVkAuthMode (fl_vk_auth f) a0); a2 = snd (setVkAnonPath (fl_vk_anon_path f) a1) in
      case loadVkCredsFile (st_now E) (fl_vk_creds_file f) (st_creds_file E (fl_vk_creds_file f)) a2 of
        (Some e, a3) \<Rightarrow> Fatal (([CHR 0xD0, CHR 0x9E, CHR 0xD1, CHR 0x88, CHR 0xD0, CHR 0xB8, CHR 0xD0, CHR 0xB1, CHR 0xD0, CHR 0xBA, CHR 0xD0, CHR 0xB0] @ '' '' @ [CHR 0xD1, CHR 0x87, CHR 0xD1, CHR 0x82, CHR 0xD0, CHR 0xB5, CHR 0xD0, CHR 0xBD, CHR 0xD0, CHR 0xB8, CHR 0xD1, CHR 0x8F] @ '' vk-creds-file: '') @ err_text e)
      | (None, a3) \<Rightarrow>
          (let hashes = ParseHashes (fl_vk f) in
           if fl_check_hashes f then
             (if hashes = [] then Fatal ([CHR 0xD0, CHR 0x9D, CHR 0xD1, CHR 0x83, CHR 0xD0, CHR 0xB6, CHR 0xD0, CHR 0xB5, CHR 0xD0, CHR 0xBD] @ '' -vk '' @ [CHR 0xD1, CHR 0x81, CHR 0xD0, CHR 0xBE] @ '' '' @ [CHR 0xD1, CHR 0x81, CHR 0xD0, CHR 0xBF, CHR 0xD0, CHR 0xB8, CHR 0xD1, CHR 0x81, CHR 0xD0, CHR 0xBA, CHR 0xD0, CHR 0xBE, CHR 0xD0, CHR 0xBC] @ '' '' @ [CHR 0xD1, CHR 0x85, CHR 0xD0, CHR 0xB5, CHR 0xD1, CHR 0x88, CHR 0xD0, CHR 0xB5, CHR 0xD0, CHR 0xB9]) else CheckHashes hashes a3)
           else start_client E f hashes a3))"

section \<open>The measurement of the delay\<close>

text \<open>
  The loop over the links: \<open>creds\<close> is \<^verbatim>\<open>GetCreds\<close>, \<open>ping\<close> is \<^verbatim>\<open>RunPing\<close> on the state of the process. The
  result is the line that is printed and the exit code.
\<close>

fun ping_hashes ::
  "(string \<Rightarrow> 'w \<Rightarrow> (goerr + grant) \<times> 'w) \<Rightarrow> (grant \<Rightarrow> 'w \<Rightarrow> (goerr + int) \<times> 'w) \<Rightarrow> nat \<Rightarrow> goerr option \<Rightarrow>
   string list \<Rightarrow> 'w \<Rightarrow> (string \<times> int) \<times> 'w"
where
  "ping_hashes creds ping i lastErr [] w =
     ((''PING_ERROR|All hashes failed. Last error: '' @ (case lastErr of None \<Rightarrow> nil_text | Some e \<Rightarrow> err_text e), 1), w)"
| "ping_hashes creds ping i lastErr (hash # hashes) w =
     (case creds hash w of
        (Inl e, w1) \<Rightarrow>
          ping_hashes creds ping (i + 1)
            (Some (ErrText (''GetCreds hash '' @ itoa (int i) @ '': '' @ err_text e))) hashes w1
      | (Inr g, w1) \<Rightarrow>
          (case ping g w1 of
             (Inl e, w2) \<Rightarrow>
               ping_hashes creds ping (i + 1)
                 (Some (ErrText (''RunPing hash '' @ itoa (int i) @ '': '' @ err_text e))) hashes w2
           | (Inr rtt, w2) \<Rightarrow> ((''PING_RESULT|'' @ itoa rtt, 0), w2)))"

section \<open>Lines from the application\<close>

text \<open>
  The goroutine that reads the standard input. \<open>sd_captcha\<close> is \<^verbatim>\<open>CaptchaResultChan\<close>: this goroutine is the only one
  that sends, and it empties the channel first, so it never waits.
\<close>

record stdin_state =
  sd_pauseFlag :: bool
  sd_canceled :: bool
  sd_reading :: bool
  sd_captcha :: "string option"
  sd_account :: AccountState

definition stdin_line ::
  "(string \<Rightarrow> turnCredsPayload option) \<Rightarrow> gotime \<Rightarrow> string \<Rightarrow> stdin_state \<Rightarrow> stdin_state"
where
  "stdin_line decode now text0 s =
     (let line = trim_space text0 in
      if \<not> sd_reading s then s
      else if line = ''PAUSE'' then s\<lparr>sd_pauseFlag := True\<rparr>
      else if line = ''RESUME'' then s\<lparr>sd_pauseFlag := False\<rparr>
      else if line = ''STOP'' then s\<lparr>sd_canceled := True, sd_reading := False\<rparr>
      else if has_prefix line ''CAPTCHA_RESULT|'' then s\<lparr>sd_captcha := Some (trim_prefix line ''CAPTCHA_RESULT|'')\<rparr>
      else if has_prefix line ''TURN_CREDS|'' then
        s\<lparr>sd_account := handleTurnCredsStdinLine decode now line (sd_account s)\<rparr>
      else s)"

definition stdin_lines ::
  "(string \<Rightarrow> turnCredsPayload option) \<Rightarrow> (gotime \<times> string) list \<Rightarrow> stdin_state \<Rightarrow> stdin_state"
where
  "stdin_lines decode lines s = fold (\<lambda>(now, l). stdin_line decode now l) lines s"

text \<open>The signals: the first cancels, the second ends the process.\<close>

datatype signal_state = SignalWait | SignalCanceled | SignalExit | SignalDone

fun on_signal :: "signal_state \<Rightarrow> signal_state" where
  "on_signal SignalWait = SignalCanceled"
| "on_signal SignalCanceled = SignalExit"
| "on_signal s = s"

section \<open>The configuration\<close>

datatype config_effect =
    SaveFile string
  | StartWireGuard string
  | ServeSocks string
  | CloseWireGuard

text \<open>
  The goroutine that takes the configuration: \<open>None\<close> is a closed channel. \<open>wg\<close> says whether WireGuard starts. The
  device is closed when the SOCKS server returns.
\<close>

definition take_config :: "string \<Rightarrow> string \<Rightarrow> bool \<Rightarrow> string option \<Rightarrow> config_effect list" where
  "take_config mode socks wg conf =
     (case conf of
        None \<Rightarrow> []
      | Some raw \<Rightarrow>
          if raw = [] then []
          else
            (let final = desktop_config raw in
             SaveFile (final @ [CHR 0x0A])
             # (if mode = ''socks'' then
                  StartWireGuard final # (if wg then [ServeSocks socks, CloseWireGuard] else [])
                else [])))"


section \<open>What a start needs\<close>

lemma local_port_not_Nil: "local_port listen \<noteq> []"
  by (simp add: local_port_def Let_def)

text \<open>
  The client starts only with everything it needs: when the checks of \<^verbatim>\<open>main\<close> pass, there is a link, a password and the key
  derived from it, a resolved address of the server, a listener and a local port, and the number of workers is in the bounds of
  the mode of authorisation; a wrong or missing value ends the program with a message, and the order of the checks does not depend on the
  values of the later ones. The measurement of the delay needs the same, except for the listener.
\<close>

theorem start_complete:
  assumes "start_main E f a0 = RunClient c a \<or> start_main E f a0 = PingOnly c a"
  shows "cl_Hashes c = ParseHashes (fl_vk f) \<and> cl_Hashes c \<noteq> [] \<and> fl_peer f \<noteq> [] \<and> fl_password f \<noteq> []
     \<and> st_resolve E (fl_peer f) = Inr (cl_peer c) \<and> st_derive E (fl_password f) = Inr (cl_WrapKey c)
     \<and> cl_localPort c \<noteq> [] \<and> cl_mode c \<in> {''vpn'', ''socks''} \<and> cl_ObfsMode c \<in> {''audio'', ''video''}
     \<and> (\<exists>n \<in> (if getVkAuthMode a = ''account'' then {1 .. 4} else {9 .. 108}). cl_groups c = worker_groups n)
     \<and> (start_main E f a0 = RunClient c a \<longrightarrow> st_listen E (fl_listen f) = None)"
proof -
  define hashes where "hashes = ParseHashes (fl_vk f)"
  have s: "start_main E f a0 = start_client E f hashes a"
    using assms by (auto simp: start_main_def start_client_def hashes_def Let_def split: prod.splits option.splits if_splits sum.splits)
  obtain peer key where k: "st_resolve E (fl_peer f) = Inr peer" "st_derive E (fl_password f) = Inr key"
      "c = client_of f hashes peer key a" "hashes \<noteq> []" "fl_peer f \<noteq> []" "fl_password f \<noteq> []"
    using assms unfolding s by (auto simp: start_client_def split: if_splits sum.splits option.splits)
  have "start_main E f a0 = RunClient c a \<longrightarrow> st_listen E (fl_listen f) = None"
    unfolding s by (auto simp: start_client_def split: if_splits sum.splits option.splits)
  moreover have "normalize_workers (getVkAuthMode a = ''account'') (fl_n f)
      \<in> (if getVkAuthMode a = ''account'' then {1 .. 4} else {9 .. 108})"
    using normalize_bounds [of "fl_n f"] by (cases "getVkAuthMode a = ''account''") auto
  moreover have "active_mode m \<in> {''vpn'', ''socks''}" "normalizeObfsMode m \<in> {''audio'', ''video''}" for m
    by (simp_all add: active_mode_def normalizeObfsMode_def)
  ultimately show ?thesis
    using k local_port_not_Nil by (auto simp: client_of_def hashes_def)
qed

section \<open>The commands of the application\<close>

definition told :: "string list \<Rightarrow> string list \<Rightarrow> string option" where
  "told cmds ls = find (\<lambda>l. l \<in> set cmds) (rev ls)"

definition captcha_results :: "string list \<Rightarrow> string list" where
  "captcha_results ls = filter (\<lambda>l. has_prefix l ''CAPTCHA_RESULT|'') ls"

lemma find_append: "find P (xs @ ys) = (case find P xs of None \<Rightarrow> find P ys | Some x \<Rightarrow> Some x)"
  by (induction xs) auto

lemma told_Cons: "told cmds (l # ls) = (case told cmds ls of None \<Rightarrow> if l \<in> set cmds then Some l else None | Some x \<Rightarrow> Some x)"
  by (simp add: told_def find_append split: option.splits)

lemma captcha_results_Cons:
  "captcha_results (l # ls) = (if has_prefix l ''CAPTCHA_RESULT|'' then l # captcha_results ls else captcha_results ls)"
  by (simp add: captcha_results_def)

lemma stdin_not_reading: "\<not> sd_reading s \<Longrightarrow> stdin_lines decode lines s = s"
  by (induction lines) (auto simp: stdin_lines_def stdin_line_def)

text \<open>
  The application's commands mean what they say, in any mixture: the workers pause exactly if the last \<^verbatim>\<open>PAUSE\<close> or \<^verbatim>\<open>RESUME\<close>
  before a \<^verbatim>\<open>STOP\<close> was \<^verbatim>\<open>PAUSE\<close>, the client is cancelled exactly if a \<^verbatim>\<open>STOP\<close> came, nothing after it has an effect, and
  the captcha channel holds the last result, not the first.
\<close>

theorem stdin_commands:
  assumes "sd_reading s" "\<not> sd_canceled s"
  defines "before lines \<equiv> takeWhile (\<lambda>l. l \<noteq> ''STOP'') (map (\<lambda>(t, l). trim_space l) lines)"
  shows "sd_pauseFlag (stdin_lines decode lines s)
       = (case told [''PAUSE'', ''RESUME''] (before lines) of None \<Rightarrow> sd_pauseFlag s | Some l \<Rightarrow> l = ''PAUSE'')
     \<and> (sd_canceled (stdin_lines decode lines s) \<longleftrightarrow> ''STOP'' \<in> set (map (\<lambda>(t, l). trim_space l) lines))
     \<and> sd_captcha (stdin_lines decode lines s)
         = (if captcha_results (before lines) = [] then sd_captcha s
            else Some (trim_prefix (last (captcha_results (before lines))) ''CAPTCHA_RESULT|''))"
  using assms(1,2)
proof (induction lines arbitrary: s)
  case Nil
  then show ?case
    by (simp add: stdin_lines_def before_def told_def captcha_results_def)
next
  case (Cons tl ls)
  obtain t l where tl: "tl = (t, l)" by (cases tl)
  define s1 where "s1 = stdin_line decode t l s"
  have step: "stdin_lines decode (tl # ls) s = stdin_lines decode ls s1"
    by (simp add: stdin_lines_def tl s1_def)
  show ?case
  proof (cases "trim_space l = ''STOP''")
    case True
    then have "s1 = s\<lparr>sd_canceled := True, sd_reading := False\<rparr>"
      using Cons.prems(1) by (simp add: s1_def stdin_line_def Let_def)
    then show ?thesis
      using True unfolding step by (simp add: stdin_not_reading before_def told_def captcha_results_def tl)
  next
    case False
    then have s1: "sd_reading s1" "\<not> sd_canceled s1"
      using Cons.prems by (simp_all add: s1_def stdin_line_def Let_def)
    have p: "sd_pauseFlag s1 = (if trim_space l \<in> {''PAUSE'', ''RESUME''} then trim_space l = ''PAUSE'' else sd_pauseFlag s)"
      using Cons.prems(1) False by (simp add: s1_def stdin_line_def Let_def)
    have "\<not> has_prefix ''PAUSE'' ''CAPTCHA_RESULT|''" "\<not> has_prefix ''RESUME'' ''CAPTCHA_RESULT|''"
      by simp_all
    then have c: "sd_captcha s1 = (if has_prefix (trim_space l) ''CAPTCHA_RESULT|''
        then Some (trim_prefix (trim_space l) ''CAPTCHA_RESULT|'') else sd_captcha s)"
      using Cons.prems(1) False by (auto simp: s1_def stdin_line_def Let_def)
    have b: "before (tl # ls) = trim_space l # before ls"
      using False by (simp add: before_def tl)
    show ?thesis
      using Cons.IH [OF s1] False p c unfolding step b told_Cons captcha_results_Cons
      by (auto simp: tl split: option.splits)
  qed
qed

definition demo_stdin :: stdin_state where
  "demo_stdin =
     \<lparr>sd_pauseFlag = False, sd_canceled = False, sd_reading = True, sd_captcha = None, sd_account = account_start\<rparr>"

theorem stdin_commands_witness:
  "let s = stdin_lines (\<lambda>raw. None) [(1, ''PAUSE''), (2, ''CAPTCHA_RESULT|a''), (3, ''CAPTCHA_RESULT|b''), (4, ''STOP''), (5, ''RESUME'')]
       demo_stdin
   in sd_pauseFlag s \<and> sd_canceled s \<and> sd_captcha s = Some ''b''"
proof -
  have "sd_reading demo_stdin" "\<not> sd_canceled demo_stdin"
    by (simp_all add: demo_stdin_def)
  note p = stdin_commands [OF this, of "\<lambda>raw. None"
      "[(1, ''PAUSE''), (2, ''CAPTCHA_RESULT|a''), (3, ''CAPTCHA_RESULT|b''), (4, ''STOP''), (5, ''RESUME'')]"]
  have "trim_space ''PAUSE'' = ''PAUSE''" "trim_space ''CAPTCHA_RESULT|a'' = ''CAPTCHA_RESULT|a''"
    "trim_space ''CAPTCHA_RESULT|b'' = ''CAPTCHA_RESULT|b''" "trim_space ''STOP'' = ''STOP''" "trim_space ''RESUME'' = ''RESUME''"
    by code_simp+
  then show ?thesis
    using p by (simp add: told_def captcha_results_def trim_prefix_def Let_def)
qed

definition demo_start_env :: "string start_env" where
  "demo_start_env =
     \<lparr>st_creds_file = (\<lambda>p. Inr []), st_resolve = (\<lambda>p. Inr p), st_derive = (\<lambda>p. Inr [1]), st_listen = (\<lambda>a. None),
      st_now = 1\<rparr>"

definition demo_flags :: flags where
  "demo_flags = default_flags\<lparr>fl_vk := ''abc'', fl_peer := ''h:1'', fl_password := ''pw''\<rparr>"

lemma demo_starts: "\<exists>c a. start_main demo_start_env demo_flags account_start = RunClient c a"
proof -
  have "(case start_main demo_start_env demo_flags account_start of RunClient c a \<Rightarrow> True | _ \<Rightarrow> False)"
    by code_simp
  then show ?thesis by (simp split: start_result.splits)
qed

theorem start_complete_witness:
  "\<exists>c a. start_main demo_start_env demo_flags account_start = RunClient c a \<and> cl_Hashes c = ParseHashes ''abc''"
proof -
  obtain c a where r: "start_main demo_start_env demo_flags account_start = RunClient c a"
    using demo_starts by blast
  then have "cl_Hashes c = ParseHashes (fl_vk demo_flags)"
    using start_complete [of demo_start_env demo_flags account_start c a] by blast
  then show ?thesis
    using r by (auto simp: demo_flags_def)
qed

end
