(* ===== verification/Ping.thy ===== *)
theory Ping
  imports SessionLoops
begin

text \<open>
  The measurement of the delay, \<^verbatim>\<open>RunPing\<close> of \<^verbatim>\<open>session.go\<close>: one relay and one DTLS handshake through it. The calls that
  can fail are a list of stages in the order of the code, each with the resources that its success opens; the
  deferred calls close what was opened, the last one first. The two loops between the relay and the pipe differ from
  those of a session: they ignore errors of their writes.
\<close>

section \<open>Stages\<close>

datatype ping_resource = PingUdp | PingClient | PingRelay | PingPipeA | PingPipeB | PingSession | PingDtls | PingDeadline

record 'p ping_env =
  pe_resolve :: "string \<Rightarrow> goerr + 'p"
  pe_dial :: "'p \<Rightarrow> goerr option"
  pe_client :: "goerr option"
  pe_listen :: "goerr option"
  pe_allocate :: "goerr option"
  pe_cert :: "goerr option"
  pe_dtls :: "goerr option"
  pe_handshake :: "goerr option"
  pe_start :: gotime
  pe_end :: gotime

definition ping_address :: "TurnParams \<Rightarrow> string \<Rightarrow> goerr + string" where
  "ping_address tp url =
     (case split_host_port url of
        Inl e \<Rightarrow> Inl (ErrText (addr_error_text url e))
      | Inr (host, port) \<Rightarrow>
          Inr (join_host_port (if tp_Host tp \<noteq> [] then tp_Host tp else host)
                 (if tp_Port tp \<noteq> [] then tp_Port tp else port)))"

type_synonym ping_stage = "goerr option \<times> ping_resource list"

text \<open>The stages after the address is resolved; the resources are given in the order of their deferred calls.\<close>

definition ping_stages :: "'p ping_env \<Rightarrow> 'p \<Rightarrow> ping_stage list" where
  "ping_stages E addr =
     [(pe_dial E addr, [PingUdp]), (pe_client E, [PingClient]), (pe_listen E, []),
      (pe_allocate E, [PingRelay, PingPipeA, PingPipeB, PingSession]), (pe_cert E, []), (pe_dtls E, [PingDtls]),
      (None, [PingDeadline]), (pe_handshake E, [])]"

datatype ping_event = Opened ping_resource | Closed ping_resource

text \<open>The result of the stages: the first error, and what was opened, in order\<close>

fun run_ping_stages :: "ping_stage list \<Rightarrow> goerr option \<times> ping_resource list" where
  "run_ping_stages [] = (None, [])"
| "run_ping_stages ((Some e, rs) # stages) = (Some e, [])"
| "run_ping_stages ((None, rs) # stages) = (case run_ping_stages stages of (r, os) \<Rightarrow> (r, rs @ os))"

definition RunPing :: "'p ping_env \<Rightarrow> TurnParams \<Rightarrow> string list \<Rightarrow> (goerr + int) \<times> ping_event list" where
  "RunPing E tp urls =
     (case urls of
        [] \<Rightarrow> (Inl (ErrText ([CHR 0xD0, CHR 0xBD, CHR 0xD0, CHR 0xB5, CHR 0xD1, CHR 0x82] @ '' TURN URL'')), [])
      | url # _ \<Rightarrow>
          (case ping_address tp url of
             Inl e \<Rightarrow> (Inl e, [])
           | Inr turnAddr \<Rightarrow>
               (case pe_resolve E turnAddr of
                  Inl e \<Rightarrow> (Inl e, [])
                | Inr addr \<Rightarrow>
                    (case run_ping_stages (ping_stages E addr) of
                       (r, os) \<Rightarrow>
                         (case r of
                            Some e \<Rightarrow> Inl e
                          | None \<Rightarrow> Inr ((pe_end E - pe_start E) sdiv millisecond),
                          map Opened os @ map Closed (rev os))))))"

section \<open>Loops\<close>

fun ping_relay_to_pipe :: "packet_read \<Rightarrow> unseal \<Rightarrow> byte list \<Rightarrow> relay_event list \<Rightarrow> byte list list" where
  "ping_relay_to_pipe rd open key [] = []"
| "ping_relay_to_pipe rd open key (RelayFailed e # evs) = []"
| "ping_relay_to_pipe rd open key (RelayPacket wire werr # evs) =
     (case rd relayReadBuf wire of
        Inl e \<Rightarrow> []
      | Inr got \<Rightarrow>
          (case unmask open key got of
             None \<Rightarrow> ping_relay_to_pipe rd open key evs
           | Some payload \<Rightarrow>
               (if werr = None then [payload] else []) @ ping_relay_to_pipe rd open key evs))"

fun ping_pipe_to_relay ::
  "packet_read \<Rightarrow> seal \<Rightarrow> byte list \<Rightarrow> ObfsConfig \<Rightarrow> pipe_event list \<Rightarrow> ObfsState \<Rightarrow> byte list list"
where
  "ping_pipe_to_relay rd seal key cfg [] st = []"
| "ping_pipe_to_relay rd seal key cfg (PipeFailed e # evs) st = []"
| "ping_pipe_to_relay rd seal key cfg (PipePacket sent rnd fill werr # evs) st =
     (case rd readBufSize sent of
        Inl e \<Rightarrow> []
      | Inr payload \<Rightarrow>
          (case mask_packet seal rnd fill key payload cfg st of
             (Inl e, st') \<Rightarrow> []
           | (Inr out, st') \<Rightarrow> (if werr = None then [out] else []) @ ping_pipe_to_relay rd seal key cfg evs st'))"

section \<open>What the measurement leaves behind\<close>

lemma stages_opened: "run_ping_stages stages = (r, os) \<Longrightarrow> prefix os (concat (map snd stages))"
proof (induction stages arbitrary: r os)
  case (Cons x stages)
  then show ?case
    by (cases x rule: prod.exhaust; cases "fst x") (auto split: prod.splits)
qed simp

lemma stages_result: "fst (run_ping_stages stages) = None \<longleftrightarrow> (\<forall>(e, rs) \<in> set stages. e = None)"
  by (induction stages rule: run_ping_stages.induct) (auto split: prod.splits)

lemma ping_run:
  obtains e where "RunPing E tp urls = (Inl e, [])"
  | addr r os where "run_ping_stages (ping_stages E addr) = (r, os)"
      "snd (RunPing E tp urls) = map Opened os @ map Closed (rev os)" "(\<exists>ms. fst (RunPing E tp urls) = Inr ms) \<longrightarrow> r = None"
proof (cases "\<exists>e. RunPing E tp urls = (Inl e, [])")
  case False
  then obtain url us turnAddr addr where "urls = url # us" "ping_address tp url = Inr turnAddr" "pe_resolve E turnAddr = Inr addr"
    by (auto simp: RunPing_def split: list.splits sum.splits)
  then show ?thesis
    using that(2) [of addr "fst (run_ping_stages (ping_stages E addr))" "snd (run_ping_stages (ping_stages E addr))"]
    by (cases "run_ping_stages (ping_stages E addr)"; cases "fst (run_ping_stages (ping_stages E addr))")
      (simp_all add: RunPing_def)
next
  case True
  then show ?thesis
    using that(1) by blast
qed

text \<open>
  The measurement leaves nothing open: wherever it ends, it closes exactly what it opened, each thing once and in the
  opposite order; it gives a time only if every stage succeeded.
\<close>

theorem ping_closes_all:
  "\<exists>os. snd (RunPing E tp urls) = map Opened os @ map Closed (rev os)
     \<and> prefix os [PingUdp, PingClient, PingRelay, PingPipeA, PingPipeB, PingSession, PingDtls, PingDeadline]
     \<and> (\<forall>ms. fst (RunPing E tp urls) = Inr ms \<longrightarrow>
          os = [PingUdp, PingClient, PingRelay, PingPipeA, PingPipeB, PingSession, PingDtls, PingDeadline]
          \<and> pe_handshake E = None)"
proof (cases rule: ping_run [of E tp urls])
  case 1
  then show ?thesis
    by (intro exI [of _ "[]"]) auto
next
  case (2 addr r os)
  have "prefix os [PingUdp, PingClient, PingRelay, PingPipeA, PingPipeB, PingSession, PingDtls, PingDeadline]"
    using stages_opened [OF 2(1)] by (simp add: ping_stages_def)
  moreover have "r = None \<Longrightarrow>
      os = [PingUdp, PingClient, PingRelay, PingPipeA, PingPipeB, PingSession, PingDtls, PingDeadline] \<and> pe_handshake E = None"
    using 2(1) stages_result [of "ping_stages E addr"] by (auto simp: ping_stages_def)
  ultimately show ?thesis
    using 2(2,3) by (intro exI [of _ os]) auto
qed

end
