(* ===== verification/IosTun.thy ===== *)
theory IosTun
  imports WgConfig "HOL-Library.Sublist"
begin

text \<open>
  The ways of packets between the system and WireGuard: \<^verbatim>\<open>startUserspaceWireGuard\<close> of \<^verbatim>\<open>socks_wg_ios.go\<close> and of
  \<^verbatim>\<open>socks_wg_desktop.go\<close>, and the older path through the application, the bounded channel of
  \<^verbatim>\<open>ios_cbridge.go\<close> with the device of \<^verbatim>\<open>tun_ios.go\<close>, which the code keeps but no longer opens. What the
  kernel and the library answer is the record \<open>tun_env\<close>; a descriptor that a file, a TUN device or a WireGuard
  device owns is closed with it.
\<close>

section \<open>Starting WireGuard\<close>

definition iosTunFDScanLimit :: nat where
  "iosTunFDScanLimit = 1024"

fun scan_tun :: "(nat \<Rightarrow> string option) \<Rightarrow> nat list \<Rightarrow> (nat \<times> string) option" where
  "scan_tun ifname [] = None"
| "scan_tun ifname (fd # fds) =
     (case ifname fd of
        Some name \<Rightarrow> if has_prefix name ''utun'' then Some (fd, name) else scan_tun ifname fds
      | None \<Rightarrow> scan_tun ifname fds)"

definition findIOSTunFileDescriptor :: "(nat \<Rightarrow> string option) \<Rightarrow> goerr + nat \<times> string" where
  "findIOSTunFileDescriptor ifname =
     (case scan_tun ifname [0 ..< Suc iosTunFDScanLimit] of
        None \<Rightarrow> Inl (ErrText ''utun file descriptor not found'')
      | Some r \<Rightarrow> Inr r)"

record tun_env =
  tn_ifname :: "nat \<Rightarrow> string option"
  tn_dup :: "nat \<Rightarrow> goerr + nat"
  tn_nonblock :: "nat \<Rightarrow> goerr option"
  tn_file :: "nat \<Rightarrow> bool"
  tn_create :: "nat \<Rightarrow> goerr option"
  tn_ipcSet :: "string \<Rightarrow> goerr option"
  tn_up :: "goerr option"

text \<open>The result is the descriptor of the device that runs; \<open>fds\<close> are the descriptors of the process.\<close>

definition attach_tun :: "tun_env \<Rightarrow> string \<Rightarrow> nat \<Rightarrow> string \<Rightarrow> nat list \<Rightarrow> (goerr + nat) \<times> nat list" where
  "attach_tun E request tunFD tunName fds =
     (case tn_dup E tunFD of
        Inl e \<Rightarrow> (Inl (ErrWrap (''dup iOS TUN fd '' @ itoa (int tunFD) @ '': '') e []), fds)
      | Inr dupFD \<Rightarrow>
          (let opened = dupFD # fds; closed = remove1 dupFD opened in
           case tn_nonblock E dupFD of
             Some e \<Rightarrow> (Inl (ErrWrap ''set iOS TUN nonblock: '' e []), closed)
           | None \<Rightarrow>
               if \<not> tn_file E dupFD then (Inl (ErrText (''wrap iOS TUN fd '' @ itoa (int dupFD))), closed)
               else
                 (case tn_create E dupFD of
                    Some e \<Rightarrow> (Inl (ErrWrap (''CreateTUNFromFile('' @ tunName @ ''): '') e []), closed)
                  | None \<Rightarrow>
                      (case tn_ipcSet E request of
                         Some e \<Rightarrow> (Inl (ErrWrap ''IpcSet: '' e []), closed)
                       | None \<Rightarrow>
                           (case tn_up E of
                              Some e \<Rightarrow> (Inl (ErrWrap ''Up: '' e []), closed)
                            | None \<Rightarrow> (Inr dupFD, opened))))))"

definition startUserspaceWireGuard ::
  "'a ip_parsers \<Rightarrow> 'a \<Rightarrow> tun_env \<Rightarrow> string \<Rightarrow> nat list \<Rightarrow> (goerr + nat) \<times> nat list"
where
  "startUserspaceWireGuard P dns E conf fds =
     (case parseWgQuick P dns conf of
        Inl e \<Rightarrow> (Inl e, fds)
      | Inr cfg \<Rightarrow>
          (case findIOSTunFileDescriptor (tn_ifname E) of
             Inl e \<Rightarrow> (Inl (ErrWrap ''find iOS TUN: '' e []), fds)
           | Inr (tunFD, tunName) \<Rightarrow> attach_tun E (ipcRequest cfg) tunFD tunName fds))"

text \<open>The desktop opens a network stack of its own; \<open>devs\<close> are the devices that are open.\<close>

record 'a netstack_env =
  ns_create :: "'a list \<Rightarrow> 'a list \<Rightarrow> int \<Rightarrow> goerr option"
  ns_ipcSet :: "string \<Rightarrow> goerr option"
  ns_up :: "goerr option"

definition start_netstack ::
  "'a ip_parsers \<Rightarrow> 'a \<Rightarrow> 'a netstack_env \<Rightarrow> string \<Rightarrow> nat list \<Rightarrow> nat \<Rightarrow> (goerr + nat) \<times> nat list"
where
  "start_netstack P dns E conf devs d =
     (case parseWgQuick P dns conf of
        Inl e \<Rightarrow> (Inl e, devs)
      | Inr cfg \<Rightarrow>
          (case ns_create E (wc_addresses cfg) (wc_dns cfg) (wc_mtu cfg) of
             Some e \<Rightarrow> (Inl e, devs)
           | None \<Rightarrow>
               (case ns_ipcSet E (ipcRequest cfg) of
                  Some e \<Rightarrow> (Inl (ErrWrap ''IpcSet: '' e []), remove1 d (d # devs))
                | None \<Rightarrow>
                    (case ns_up E of
                       Some e \<Rightarrow> (Inl (ErrWrap ''Up: '' e []), remove1 d (d # devs))
                     | None \<Rightarrow> (Inr d, d # devs)))))"

lemma scan_tun_first:
  "scan_tun ifname [m ..< n] = Some (fd, name) \<Longrightarrow>
   fd < n \<and> ifname fd = Some name \<and> has_prefix name ''utun''
     \<and> (\<forall>f. m \<le> f \<and> f < fd \<longrightarrow> (\<forall>x. ifname f = Some x \<longrightarrow> \<not> has_prefix x ''utun''))"
proof (induction "n - m" arbitrary: m)
  case (Suc k)
  then have m: "m < n" by simp
  then have u: "[m ..< n] = m # [Suc m ..< n]" by (rule upt_conv_Cons)
  show ?case
  proof (cases "\<exists>x. ifname m = Some x \<and> has_prefix x ''utun''")
    case True
    then show ?thesis
      using Suc.prems u m by auto
  next
    case False
    then have "scan_tun ifname [Suc m ..< n] = Some (fd, name)"
      using Suc.prems u by (auto split: option.splits if_splits)
    moreover have "k = n - Suc m"
      using Suc.hyps(2) by simp
    ultimately have "fd < n \<and> ifname fd = Some name \<and> has_prefix name ''utun''"
        "\<forall>f. Suc m \<le> f \<and> f < fd \<longrightarrow> (\<forall>x. ifname f = Some x \<longrightarrow> \<not> has_prefix x ''utun'')"
      using Suc.hyps(1) [of "Suc m"] by blast+
    moreover have "m \<le> f \<Longrightarrow> f = m \<or> Suc m \<le> f" for f
      by auto
    ultimately show ?thesis
      using False by metis
  qed
qed simp

text \<open>
  C39. Starting WireGuard on iOS leaves no descriptor behind: a failure closes the duplicate it made, and only that, so the
  descriptor of the network extension stays open; a success keeps one duplicate, of the first descriptor below 1025 that is an utun
  interface, and the device got the request of the parsed configuration.
\<close>

theorem start_leaves_no_descriptor:
  "case startUserspaceWireGuard P dns E conf fds of
     (Inl e, fds') \<Rightarrow> fds' = fds
   | (Inr d, fds') \<Rightarrow> fds' = d # fds \<and>
       (\<exists>cfg fd name. parseWgQuick P dns conf = Inr cfg \<and> tn_ipcSet E (ipcRequest cfg) = None \<and> tn_dup E fd = Inr d
          \<and> fd \<le> 1024 \<and> tn_ifname E fd = Some name \<and> has_prefix name ''utun''
          \<and> (\<forall>f < fd. \<forall>n. tn_ifname E f = Some n \<longrightarrow> \<not> has_prefix n ''utun''))"
proof -
  have attach: "case attach_tun E request fd name fds of
      (Inl e, fds') \<Rightarrow> fds' = fds | (Inr d, fds') \<Rightarrow> fds' = d # fds \<and> tn_ipcSet E request = None \<and> tn_dup E fd = Inr d"
    for request fd name
    by (simp add: attach_tun_def Let_def split: sum.splits option.splits)
  show ?thesis
  proof (cases "parseWgQuick P dns conf")
    case (Inr cfg)
    show ?thesis
    proof (cases "scan_tun (tn_ifname E) [0 ..< Suc iosTunFDScanLimit]")
      case (Some r)
      obtain fd name where r: "r = (fd, name)" by (cases r)
      then have f: "fd \<le> 1024" "tn_ifname E fd = Some name" "has_prefix name ''utun''"
          "\<forall>f < fd. \<forall>n. tn_ifname E f = Some n \<longrightarrow> \<not> has_prefix n ''utun''"
        using scan_tun_first [of "tn_ifname E" 0 "Suc iosTunFDScanLimit" fd name] Some
        by (auto simp: iosTunFDScanLimit_def simp del: upt_Suc)
      have "startUserspaceWireGuard P dns E conf fds = attach_tun E (ipcRequest cfg) fd name fds"
        using Inr Some r by (simp add: startUserspaceWireGuard_def findIOSTunFileDescriptor_def del: upt_Suc)
      then show ?thesis
        using Inr f attach [of "ipcRequest cfg" fd name] by (auto split: prod.splits sum.splits)
    qed (simp add: startUserspaceWireGuard_def findIOSTunFileDescriptor_def Inr del: upt_Suc)
  qed (simp add: startUserspaceWireGuard_def)
qed


definition demo_tun :: tun_env where
  "demo_tun =
     \<lparr>tn_ifname = (\<lambda>fd. if fd = 2 then Some ''ipsec0'' else if fd = 3 then Some ''utun4'' else None), tn_dup = (\<lambda>fd. Inr (fd + 40)),
      tn_nonblock = (\<lambda>fd. None), tn_file = (\<lambda>fd. True), tn_create = (\<lambda>fd. None), tn_ipcSet = (\<lambda>r. None), tn_up = None\<rparr>"

lemma demo_scan: "findIOSTunFileDescriptor (tn_ifname demo_tun) = Inr (3, ''utun4'')"
proof -
  have "[0 ..< n] = 0 # Suc 0 # 2 # 3 # [4 ..< n]" if "3 < n" for n
    using that upt_conv_Cons [of 0 n] upt_conv_Cons [of 1 n] upt_conv_Cons [of 2 n] upt_conv_Cons [of 3 n]
    by (simp add: eval_nat_numeral)
  then have u: "[0 ..< Suc iosTunFDScanLimit] = 0 # Suc 0 # 2 # 3 # [4 ..< Suc iosTunFDScanLimit]"
    by (simp add: iosTunFDScanLimit_def del: upt_Suc)
  show ?thesis
    unfolding findIOSTunFileDescriptor_def u by (simp add: demo_tun_def)
qed

theorem start_leaves_no_descriptor_witness:
  "startUserspaceWireGuard demo_parsers ''1.1.1.1'' demo_tun demo_conf [3] = (Inr 43, [43, 3])"
proof -
  obtain r fds where s: "startUserspaceWireGuard demo_parsers ''1.1.1.1'' demo_tun demo_conf [3] = (r, fds)"
    by (metis prod.collapse)
  then have r: "r = Inr 43"
    by (simp add: startUserspaceWireGuard_def demo_parsed demo_scan attach_tun_def) (simp add: demo_tun_def)
  have "fds = [43, 3]"
    using start_leaves_no_descriptor [where P = demo_parsers and dns = "''1.1.1.1''" and E = demo_tun and conf = demo_conf
        and fds = "[3]"]
    unfolding s r by simp
  then show ?thesis
    using s r by simp
qed

section \<open>Packets through the application\<close>

text \<open>
  The channel from the application holds 1024 packets. A device of \<^verbatim>\<open>tun_ios.go\<close> reads from it and writes to the
  callback. \<open>pb_accepted\<close> are the packets that were put into the channel, \<open>pb_taken\<close> what became of those that were
  taken out: \<open>Some t\<close> was given to device \<open>t\<close>, \<open>None\<close> was thrown away; \<open>pb_sent\<close> the packets of the devices for the application.
\<close>

datatype tun_event = EventUp | EventDown

record native_tun =
  nt_events :: "tun_event list"
  nt_mtu :: int
  nt_closed :: bool

record packet_bridge =
  pb_callback :: bool
  pb_packets :: "byte list list"
  pb_tuns :: "native_tun list"
  pb_accepted :: "byte list list"
  pb_taken :: "(byte list \<times> nat option) list"
  pb_sent :: "(nat \<times> byte list) list"

definition packet_room :: nat where
  "packet_room = 1024"

definition WDTT_SetWriteCallback :: "bool \<Rightarrow> packet_bridge \<Rightarrow> packet_bridge" where
  "WDTT_SetWriteCallback cb b = b\<lparr>pb_callback := cb\<rparr>"

text \<open>\<open>data\<close> is \<open>None\<close> for a null pointer; the length is the one the caller gives.\<close>

definition WDTT_WritePacket :: "byte list option \<Rightarrow> int \<Rightarrow> packet_bridge \<Rightarrow> packet_bridge" where
  "WDTT_WritePacket data len b =
     (case data of
        None \<Rightarrow> b
      | Some d \<Rightarrow>
          if len \<le> 0 then b
          else if length (pb_packets b) < packet_room then
            b\<lparr>pb_packets := pb_packets b @ [take (nat len) d], pb_accepted := pb_accepted b @ [take (nat len) d]\<rparr>
          else b)"

definition sendPacketToSwift :: "nat \<Rightarrow> byte list \<Rightarrow> packet_bridge \<Rightarrow> packet_bridge" where
  "sendPacketToSwift t data b =
     (if data = [] then b else if pb_callback b then b\<lparr>pb_sent := pb_sent b @ [(t, data)]\<rparr> else b)"

definition take_packet :: "nat option \<Rightarrow> packet_bridge \<Rightarrow> packet_bridge" where
  "take_packet who b =
     (case pb_packets b of [] \<Rightarrow> b | p # ps \<Rightarrow> b\<lparr>pb_packets := ps, pb_taken := pb_taken b @ [(p, who)]\<rparr>)"

text \<open>\<^verbatim>\<open>drainPacketsFromSwift\<close> takes packets until it finds the channel empty.\<close>

function drainPacketsFromSwift :: "packet_bridge \<Rightarrow> packet_bridge" where
  "drainPacketsFromSwift b = (if pb_packets b = [] then b else drainPacketsFromSwift (take_packet None b))"
  by pat_completeness auto
termination
  by (relation "measure (\<lambda>b. length (pb_packets b))") (auto simp: take_packet_def split: list.splits)

declare drainPacketsFromSwift.simps [simp del]

definition NewNativeTun :: "int \<Rightarrow> native_tun" where
  "NewNativeTun mtu = \<lparr>nt_events = [EventUp], nt_mtu = mtu, nt_closed = False\<rparr>"

text \<open>
  \<^verbatim>\<open>NativeTun.Read\<close> with a packet: the number of packets, the buffers and the sizes. A packet that does not fit into the first
  buffer is lost.
\<close>

definition read_packet_into ::
  "byte list list \<Rightarrow> nat list \<Rightarrow> nat \<Rightarrow> byte list \<Rightarrow> nat \<times> byte list list \<times> nat list"
where
  "read_packet_into bufs sizes offset pkt =
     (case (bufs, sizes) of
        (b # bs, s # ss) \<Rightarrow>
          if length b < offset + length pkt then (0, bufs, sizes)
          else (1, (take offset b @ pkt @ drop (offset + length pkt) b) # bs, length pkt # ss)
      | _ \<Rightarrow> (0, bufs, sizes))"

definition fits :: "byte list list \<Rightarrow> nat list \<Rightarrow> nat \<Rightarrow> byte list \<Rightarrow> bool" where
  "fits bufs sizes offset pkt \<longleftrightarrow> bufs \<noteq> [] \<and> sizes \<noteq> [] \<and> offset + length pkt \<le> length (hd bufs)"

definition tun_read :: "nat \<Rightarrow> byte list list \<Rightarrow> nat list \<Rightarrow> nat \<Rightarrow> packet_bridge \<Rightarrow> packet_bridge" where
  "tun_read t bufs sizes offset b =
     take_packet (if fst (read_packet_into bufs sizes offset (hd (pb_packets b))) = 1 then Some t else None) b"

text \<open>\<^verbatim>\<open>NativeTun.Write\<close>: an error and no packet from a closed device\<close>

definition tun_write :: "nat \<Rightarrow> byte list list \<Rightarrow> nat \<Rightarrow> packet_bridge \<Rightarrow> (goerr + nat) \<times> packet_bridge" where
  "tun_write t bufs offset b =
     (if nt_closed (pb_tuns b ! t) then (Inl (Sentinel ''file already closed''), b)
      else (Inr (length bufs),
            fold (\<lambda>buf b. if offset < length buf then sendPacketToSwift t (drop offset buf) b else b) bufs b))"

definition tun_close :: "native_tun \<Rightarrow> native_tun" where
  "tun_close t =
     (if nt_closed t then t
      else t\<lparr>nt_events := (if length (nt_events t) < 5 then nt_events t @ [EventDown] else nt_events t), nt_closed := True\<rparr>)"

inductive packet_step :: "packet_bridge \<Rightarrow> packet_bridge \<Rightarrow> bool" where
  ps_callback: "packet_step b (WDTT_SetWriteCallback cb b)"
| ps_write: "packet_step b (WDTT_WritePacket data len b)"
| ps_drain: "packet_step b (take_packet None b)"
| ps_open: "packet_step b (b\<lparr>pb_tuns := pb_tuns b @ [NewNativeTun mtu]\<rparr>)"
| ps_read: "t < length (pb_tuns b) \<Longrightarrow> pb_packets b \<noteq> [] \<Longrightarrow> packet_step b (tun_read t bufs sizes offset b)"
| ps_send: "t < length (pb_tuns b) \<Longrightarrow> packet_step b (snd (tun_write t bufs offset b))"
| ps_close: "t < length (pb_tuns b) \<Longrightarrow> packet_step b (b\<lparr>pb_tuns := (pb_tuns b)[t := tun_close (pb_tuns b ! t)]\<rparr>)"

definition packet_init :: "packet_bridge \<Rightarrow> bool" where
  "packet_init b \<longleftrightarrow>
     b = \<lparr>pb_callback = False, pb_packets = [], pb_tuns = [], pb_accepted = [], pb_taken = [], pb_sent = []\<rparr>"

definition packet_inv :: "packet_bridge \<Rightarrow> bool" where
  "packet_inv b \<longleftrightarrow>
     pb_accepted b = map fst (pb_taken b) @ pb_packets b \<and> length (pb_packets b) \<le> packet_room
     \<and> (\<forall>(t, p) \<in> set (pb_sent b). p \<noteq> [])"

lemma take_packet_inv: "packet_inv b \<Longrightarrow> packet_inv (take_packet who b)"
  by (auto simp: packet_inv_def take_packet_def split: list.splits)

lemma send_packet_inv: "packet_inv b \<Longrightarrow> packet_inv (sendPacketToSwift t d b)"
  by (auto simp: packet_inv_def sendPacketToSwift_def)

lemma tun_write_inv: "packet_inv b \<Longrightarrow> packet_inv (snd (tun_write t bufs offset b))"
proof -
  have "packet_inv b \<Longrightarrow>
      packet_inv (fold (\<lambda>buf b. if offset < length buf then sendPacketToSwift t (drop offset buf) b else b) bufs b)" for b
    by (induction bufs arbitrary: b) (auto simp: send_packet_inv)
  then show "packet_inv b \<Longrightarrow> packet_inv (snd (tun_write t bufs offset b))"
    by (simp add: tun_write_def)
qed

lemma packet_inv_step:
  assumes "packet_inv b" "packet_step b b'"
  shows "packet_inv b'"
  using assms(2)
proof cases
  case (ps_read t bufs sizes offset)
  then show ?thesis
    unfolding tun_read_def using take_packet_inv [OF assms(1)] by simp
next
  case (ps_send t bufs offset)
  then show ?thesis
    using tun_write_inv [OF assms(1)] by simp
next
  case ps_drain
  then show ?thesis
    using take_packet_inv [OF assms(1)] by simp
qed (use assms(1) in \<open>auto simp: WDTT_SetWriteCallback_def WDTT_WritePacket_def packet_inv_def packet_room_def
      split: option.splits\<close>)

interpretation packet_runs: invariant_system packet_init packet_step packet_inv
proof
  show "packet_init b \<Longrightarrow> packet_inv b" for b
    by (auto simp: packet_init_def packet_inv_def packet_room_def)
qed (rule packet_inv_step)

text \<open>
  The channel is first in, first out in every interleaving, and never holds more than 1024 packets; a packet that a device takes out but that does
  not fit its buffer is lost.
\<close>

lemma packets_in_order:
  assumes "reach packet_init packet_step b"
  shows "pb_accepted b = map fst (pb_taken b) @ pb_packets b \<and> length (pb_packets b) \<le> 1024
     \<and> subseq (map fst (filter (\<lambda>(p, who). who = Some t) (pb_taken b))) (pb_accepted b)"
proof -
  have "packet_inv b"
    by (rule packet_runs.reach_inv [OF assms])
  then have "pb_accepted b = map fst (pb_taken b) @ pb_packets b" "length (pb_packets b) \<le> 1024"
    by (simp_all add: packet_inv_def packet_room_def)
  moreover have "subseq (map fst (filter (\<lambda>(p, who). who = Some t) (pb_taken b))) (map fst (pb_taken b))"
    by (intro subseq_map) simp
  ultimately show ?thesis
    using list_emb_append_mono [of "(=)" _ _ "[]" "pb_packets b"] by fastforce
qed

text \<open>What a device reads is the packet, at the offset, and the rest of the buffer stays.\<close>

lemma read_packet_exact:
  "fits bufs sizes offset pkt \<Longrightarrow>
   (case read_packet_into bufs sizes offset pkt of (n, bufs', sizes') \<Rightarrow>
      n = 1 \<and> hd sizes' = length pkt \<and> take (length pkt) (drop offset (hd bufs')) = pkt
      \<and> length (hd bufs') = length (hd bufs) \<and> take offset (hd bufs') = take offset (hd bufs) \<and> tl bufs' = tl bufs)"
  by (cases bufs; cases sizes) (auto simp: read_packet_into_def fits_def)

lemma drained: "pb_packets (drainPacketsFromSwift b) = []"
  by (induction b rule: drainPacketsFromSwift.induct) (subst drainPacketsFromSwift.simps, simp)

end
