(* ===== verification/HttpClients.thy ===== *)
theory HttpClients
  imports Prelude
begin

text \<open>
  The list of HTTP clients of running requests, \<^verbatim>\<open>active_http.go\<close>: a request registers its client and takes it back at
  its end, and a change of the network closes the idle connections of all of them at once. Clients are pointers, a
  nil client is \<open>None\<close>. \<open>hc_closed\<close> are the clients whose connections were closed, in order.
\<close>

record http_clients =
  hc_active :: "nat list"
  hc_closed :: "nat list"

definition registerActiveHttpClient :: "nat option \<Rightarrow> http_clients \<Rightarrow> http_clients" where
  "registerActiveHttpClient c s = (case c of None \<Rightarrow> s | Some p \<Rightarrow> s\<lparr>hc_active := hc_active s @ [p]\<rparr>)"

definition unregisterActiveHttpClient :: "nat option \<Rightarrow> http_clients \<Rightarrow> http_clients" where
  "unregisterActiveHttpClient c s = (case c of None \<Rightarrow> s | Some p \<Rightarrow> s\<lparr>hc_active := remove1 p (hc_active s)\<rparr>)"

definition RotateVKHttpClients :: "http_clients \<Rightarrow> http_clients" where
  "RotateVKHttpClients s = s\<lparr>hc_active := [], hc_closed := hc_closed s @ hc_active s\<rparr>"

interpretation http_list: registry "\<lambda>p. registerActiveHttpClient (Some p)" "\<lambda>p. unregisterActiveHttpClient (Some p)" hc_active
  by unfold_locales (simp_all add: registerActiveHttpClient_def unregisterActiveHttpClient_def)

text \<open>The life of a client: a request registers it, the network may change, the request ends\<close>

datatype http_event = RequestStarts nat | RequestEnds nat | NetworkChanges

fun http_apply :: "http_event \<Rightarrow> http_clients \<Rightarrow> http_clients" where
  "http_apply (RequestStarts p) s = registerActiveHttpClient (Some p) s"
| "http_apply (RequestEnds p) s = unregisterActiveHttpClient (Some p) s"
| "http_apply NetworkChanges s = RotateVKHttpClients s"

text \<open>The requests that are running: every request has a client of its own.\<close>

fun running :: "http_event list \<Rightarrow> nat set" where
  "running [] = {}"
| "running (RequestStarts p # evs) = insert p (running evs)"
| "running (RequestEnds p # evs) = running evs - {p}"
| "running (NetworkChanges # evs) = running evs"

fun fresh_clients :: "http_event list \<Rightarrow> bool" where
  "fresh_clients [] = True"
| "fresh_clients (RequestStarts p # evs) = (RequestStarts p \<notin> set evs \<and> fresh_clients evs)"
| "fresh_clients (ev # evs) = fresh_clients evs"

text \<open>The history is given with the last event first.\<close>

definition history :: "http_event list \<Rightarrow> http_clients" where
  "history evs = foldr http_apply evs \<lparr>hc_active = [], hc_closed = []\<rparr>"

lemma running_started: "p \<in> running evs \<Longrightarrow> RequestStarts p \<in> set evs"
  by (induction evs rule: running.induct) auto

lemma history_inv:
  "fresh_clients evs \<Longrightarrow> distinct (hc_active (history evs)) \<and> set (hc_active (history evs)) \<subseteq> running evs"
proof (induction evs)
  case (Cons ev evs)
  have IH: "distinct (hc_active (history evs))" "set (hc_active (history evs)) \<subseteq> running evs"
    using Cons by (cases ev; auto)+
  show ?case
  proof (cases ev)
    case (RequestStarts p)
    then have "p \<notin> set (hc_active (history evs))"
      using Cons.prems IH(2) running_started by auto
    then show ?thesis
      using IH RequestStarts http_list.add_distinct [of "history evs" p]
      by (auto simp: history_def http_list.elems_add)
  next
    case (RequestEnds p)
    then show ?thesis
      using IH http_list.del_distinct [of "history evs" p] http_list.del_gone [of "history evs" p]
      by (auto simp: history_def http_list.elems_del)
  next
    case NetworkChanges
    then show ?thesis
      by (simp add: history_def RotateVKHttpClients_def)
  qed
qed (simp add: history_def)

text \<open>
  A change of the network closes only connections of requests that are running, each once, and empties the list; a request
  that ends later takes nothing of another request away.
\<close>

theorem rotation_closes_running:
  assumes "fresh_clients evs"
  shows "\<exists>cs. hc_closed (history (NetworkChanges # evs)) = hc_closed (history evs) @ cs
      \<and> distinct cs \<and> set cs \<subseteq> running evs
      \<and> hc_active (history (NetworkChanges # evs)) = []
      \<and> hc_active (history (RequestEnds p # NetworkChanges # evs)) = []"
  using history_inv [OF assms]
  by (intro exI [of _ "hc_active (history evs)"])
    (simp add: history_def RotateVKHttpClients_def unregisterActiveHttpClient_def)

theorem rotation_closes_running_witness:
  "hc_active (history [NetworkChanges, RequestEnds 1, RequestStarts 2, RequestStarts 1]) = []"
proof -
  have "fresh_clients [RequestEnds 1, RequestStarts 2, RequestStarts 1]" by simp
  then show ?thesis
    using rotation_closes_running [of "[RequestEnds 1, RequestStarts 2, RequestStarts 1]" 2] by blast
qed

end
