(* ===== verification/IosMemory.thy ===== *)
theory IosMemory
  imports Prelude Complex_Main
begin

text \<open>
  The memory diagnostics of the iOS extension, \<^verbatim>\<open>ios_memory_diagnostics.go\<close>: with every tick of the statistics a sample of the
  process is taken, at most one per second, and three thresholds of its footprint are reported once each per
  runtime. The rates of the log line are rationals, before they are printed with one digit; the footprint in megabytes is
  compared as bytes, which is the same: the division by \<open>2^20\<close> is exact for a footprint below \<open>2^53\<close> bytes.
\<close>

definition iosMemoryDiagnosticInterval :: duration where
  "iosMemoryDiagnosticInterval = 1 * second"

definition iosMemoryAllocSpikeBytes :: nat where
  "iosMemoryAllocSpikeBytes = 5 * 1024 * 1024"

record memory_diag =
  md_runtime :: "nat option"
  md_lastSample :: gotime
  md_previousHeap :: nat
  md_previousObjects :: nat
  md_previousGC :: nat
  md_previousUp :: int
  md_previousDown :: int
  md_warned35 :: bool
  md_warned40 :: bool
  md_warned45 :: bool

record memory_sample =
  ms_footprint :: nat
  ms_HeapAlloc :: nat
  ms_HeapObjects :: nat
  ms_NumGC :: nat
  ms_up :: int
  ms_down :: int

definition fresh_diag :: "nat option \<Rightarrow> memory_diag" where
  "fresh_diag rt =
     \<lparr>md_runtime = rt, md_lastSample = 0, md_previousHeap = 0, md_previousObjects = 0, md_previousGC = 0,
      md_previousUp = 0, md_previousDown = 0, md_warned35 = False, md_warned40 = False, md_warned45 = False\<rparr>"

definition megabytes :: "nat \<Rightarrow> nat" where
  "megabytes n = n * 1024 * 1024"

definition alloc_spike :: "nat \<Rightarrow> nat \<Rightarrow> bool" where
  "alloc_spike previous heap \<longleftrightarrow> 0 < previous \<and> previous < heap \<and> iosMemoryAllocSpikeBytes \<le> heap - previous"

text \<open>The thresholds, the highest first; 0 is no warning\<close>

definition warn_threshold :: "nat \<Rightarrow> memory_diag \<Rightarrow> nat \<times> memory_diag" where
  "warn_threshold footprint d =
     (if footprint = 0 then (0, d)
      else if megabytes 45 \<le> footprint \<and> \<not> md_warned45 d then
        (45, d\<lparr>md_warned35 := True, md_warned40 := True, md_warned45 := True\<rparr>)
      else if megabytes 40 \<le> footprint \<and> \<not> md_warned40 d then (40, d\<lparr>md_warned35 := True, md_warned40 := True\<rparr>)
      else if megabytes 35 \<le> footprint \<and> \<not> md_warned35 d then (35, d\<lparr>md_warned35 := True\<rparr>)
      else (0, d))"

text \<open>
  The rates since the last sample; the number of collections is a 32-bit counter, so its difference wraps around.
\<close>

record memory_rates =
  ra_upMbit :: rat
  ra_downMbit :: rat
  ra_objects :: rat
  ra_gc :: rat

definition no_rates :: memory_rates where
  "no_rates = \<lparr>ra_upMbit = 0, ra_downMbit = 0, ra_objects = 0, ra_gc = 0\<rparr>"

definition seconds_of :: "duration \<Rightarrow> rat" where
  "seconds_of d = of_int d / 10 ^ 9"

definition memory_rates_of :: "memory_diag \<Rightarrow> gotime \<Rightarrow> memory_sample \<Rightarrow> memory_rates" where
  "memory_rates_of d now m =
     (let elapsed = seconds_of (now - md_lastSample d) in
      if md_lastSample d \<noteq> 0 \<and> 0 < elapsed then
        \<lparr>ra_upMbit = of_int (ms_up m - md_previousUp d) * 8 / elapsed / 10 ^ 6,
         ra_downMbit = of_int (ms_down m - md_previousDown d) * 8 / elapsed / 10 ^ 6,
         ra_objects = of_int (wrap64 (int (ms_HeapObjects m) - int (md_previousObjects d))) / elapsed,
         ra_gc = of_int ((int (ms_NumGC m) - int (md_previousGC d)) mod 2 ^ 32) / elapsed\<rparr>
      else no_rates)"

record memory_report =
  mr_sampled :: bool
  mr_rates :: memory_rates
  mr_spike :: bool
  mr_warning :: nat

definition no_report :: memory_report where
  "no_report = \<lparr>mr_sampled = False, mr_rates = no_rates, mr_spike = False, mr_warning = 0\<rparr>"

text \<open>\<open>rt\<close> is the current runtime if there is one that was not stopped.\<close>

definition maybeLogIOSMemoryDiagnostics ::
  "nat option \<Rightarrow> gotime \<Rightarrow> memory_sample \<Rightarrow> memory_diag \<Rightarrow> memory_report \<times> memory_diag"
where
  "maybeLogIOSMemoryDiagnostics rt now m d =
     (if rt = None then (no_report, d)
      else
        (let d1 = (if md_runtime d \<noteq> rt then fresh_diag rt else d) in
         if md_lastSample d1 \<noteq> 0 \<and> now - md_lastSample d1 < iosMemoryDiagnosticInterval then (no_report, d1)
         else
           (case warn_threshold (ms_footprint m)
                   (d1\<lparr>md_lastSample := now, md_previousHeap := ms_HeapAlloc m, md_previousObjects := ms_HeapObjects m,
                       md_previousGC := ms_NumGC m, md_previousUp := ms_up m, md_previousDown := ms_down m\<rparr>) of
              (w, d2) \<Rightarrow>
                (\<lparr>mr_sampled = True, mr_rates = memory_rates_of d1 now m,
                  mr_spike = alloc_spike (md_previousHeap d1) (ms_HeapAlloc m), mr_warning = w\<rparr>, d2))))"

fun memory_calls :: "nat \<Rightarrow> (gotime \<times> memory_sample) list \<Rightarrow> memory_diag \<Rightarrow> memory_report list" where
  "memory_calls rt [] d = []"
| "memory_calls rt ((now, m) # calls) d =
     (case maybeLogIOSMemoryDiagnostics (Some rt) now m d of (r, d') \<Rightarrow> r # memory_calls rt calls d')"

definition warnings :: "memory_report list \<Rightarrow> nat list" where
  "warnings rs = filter (\<lambda>w. w \<noteq> 0) (map mr_warning rs)"

text \<open>The highest threshold that was reported\<close>

definition level :: "memory_diag \<Rightarrow> nat" where
  "level d = (if md_warned45 d then 45 else if md_warned40 d then 40 else if md_warned35 d then 35 else 0)"

definition flags_ok :: "memory_diag \<Rightarrow> bool" where
  "flags_ok d \<longleftrightarrow> (md_warned45 d \<longrightarrow> md_warned40 d) \<and> (md_warned40 d \<longrightarrow> md_warned35 d)"

lemma warn_threshold_level:
  assumes "flags_ok d" "warn_threshold f d = (w, d')"
  shows "flags_ok d' \<and> md_runtime d' = md_runtime d \<and> (w = 0 \<and> level d' = level d \<or> level d < w \<and> level d' = w \<and> w \<in> {35, 40, 45}
     \<and> megabytes w \<le> f)"
  using assms by (auto simp: warn_threshold_def flags_ok_def level_def split: if_splits)

lemma sample_level:
  assumes "flags_ok d" "md_runtime d = Some rt" "maybeLogIOSMemoryDiagnostics (Some rt) now m d = (r, d')"
  shows "flags_ok d' \<and> md_runtime d' = Some rt
     \<and> (mr_warning r = 0 \<and> level d' = level d
        \<or> level d < mr_warning r \<and> level d' = mr_warning r \<and> mr_warning r \<in> {35, 40, 45}
          \<and> megabytes (mr_warning r) \<le> ms_footprint m)"
proof (cases "md_lastSample d \<noteq> 0 \<and> now - md_lastSample d < iosMemoryDiagnosticInterval")
  case False
  let ?d = "d\<lparr>md_lastSample := now, md_previousHeap := ms_HeapAlloc m, md_previousObjects := ms_HeapObjects m,
    md_previousGC := ms_NumGC m, md_previousUp := ms_up m, md_previousDown := ms_down m\<rparr>"
  obtain w d2 where w: "warn_threshold (ms_footprint m) ?d = (w, d2)"
    by (cases "warn_threshold (ms_footprint m) ?d")
  have "flags_ok ?d"
    using assms(1) by (simp add: flags_ok_def)
  note l = warn_threshold_level [OF this w]
  have "mr_warning r = w" "d' = d2"
    using assms(2,3) False w by (auto simp: maybeLogIOSMemoryDiagnostics_def)
  moreover have "level ?d = level d" "md_runtime ?d = Some rt"
    using assms(2) by (simp_all add: level_def)
  ultimately show ?thesis
    using l by metis
qed (use assms in \<open>auto simp: maybeLogIOSMemoryDiagnostics_def no_report_def\<close>)

lemma warnings_above:
  "flags_ok d \<Longrightarrow> md_runtime d = Some rt \<Longrightarrow>
   sorted_wrt (<) (warnings (memory_calls rt calls d)) \<and> (\<forall>w \<in> set (warnings (memory_calls rt calls d)). level d < w \<and> w \<in> {35, 40, 45})"
proof (induction calls arbitrary: d)
  case (Cons c calls)
  obtain now m where c: "c = (now, m)" by (cases c)
  obtain r d' where r: "maybeLogIOSMemoryDiagnostics (Some rt) now m d = (r, d')"
    by (cases "maybeLogIOSMemoryDiagnostics (Some rt) now m d")
  note s = sample_level [OF Cons.prems r]
  then have IH: "sorted_wrt (<) (warnings (memory_calls rt calls d'))"
      "\<forall>w \<in> set (warnings (memory_calls rt calls d')). level d' < w \<and> w \<in> {35, 40, 45}"
    using Cons.IH [of d'] by blast+
  have ws: "warnings (memory_calls rt (c # calls) d) =
      (if mr_warning r = 0 then [] else [mr_warning r]) @ warnings (memory_calls rt calls d')"
    using c r by (simp add: warnings_def)
  show ?case
  proof (cases "mr_warning r = 0")
    case True
    then have "level d' = level d"
      using s by auto
    then show ?thesis
      using IH True ws by simp
  next
    case False
    then have l: "level d < mr_warning r" "level d' = mr_warning r" "mr_warning r \<in> {35, 40, 45}"
      using s by auto
    then have "\<forall>w \<in> set (warnings (memory_calls rt calls d')). level d < w"
      using IH(2) by force
    then show ?thesis
      unfolding ws using IH l False by simp
  qed
qed (simp add: warnings_def)

text \<open>
  Every threshold is reported at most once per runtime, and in rising order: a footprint that jumps over several thresholds is
  reported with the highest, the lower ones not after it; so a runtime has at most three warnings, and each is true
  when it is given.
\<close>

theorem memory_warnings_once:
  "sorted_wrt (<) (warnings (memory_calls rt calls (fresh_diag (Some rt))))
   \<and> set (warnings (memory_calls rt calls (fresh_diag (Some rt)))) \<subseteq> {35, 40, 45}
   \<and> length (warnings (memory_calls rt calls (fresh_diag (Some rt)))) \<le> 3"
proof -
  let ?w = "warnings (memory_calls rt calls (fresh_diag (Some rt)))"
  have w: "sorted_wrt (<) ?w" "set ?w \<subseteq> {35, 40, 45}"
    using warnings_above [of "fresh_diag (Some rt)" rt calls] by (auto simp: fresh_diag_def flags_ok_def)
  then have "distinct ?w"
    by (simp add: strict_sorted_iff)
  then have "length ?w = card (set ?w)"
    by (simp add: distinct_card)
  also have "\<dots> \<le> card {35, 40, 45 :: nat}"
    using w(2) by (intro card_mono) auto
  finally show ?thesis
    using w by simp
qed

text \<open>
  The printed rates are those of the traffic between two samples: times the seconds between them they give the megabits that went
  through, and the first sample of a runtime, which has nothing to compare with, prints none.
\<close>

theorem rates_of_traffic:
  "memory_rates_of (fresh_diag rt) now m = no_rates
   \<and> (0 < md_lastSample d \<and> md_lastSample d < now \<longrightarrow>
        ra_upMbit (memory_rates_of d now m) * seconds_of (now - md_lastSample d) = of_int (8 * (ms_up m - md_previousUp d)) / 10 ^ 6
        \<and> ra_downMbit (memory_rates_of d now m) * seconds_of (now - md_lastSample d) = of_int (8 * (ms_down m - md_previousDown d)) / 10 ^ 6
        \<and> 0 \<le> ra_gc (memory_rates_of d now m))"
proof -
  have "seconds_of (now - md_lastSample d) > 0" if "md_lastSample d < now"
    using that by (simp add: seconds_of_def)
  then show ?thesis
    by (auto simp: memory_rates_of_def fresh_diag_def no_rates_def Let_def)
qed

end
