(* ===== verification/Socks.thy ===== *)
theory Socks
  imports GoErrors
begin

text \<open>
  The SOCKS5 server of the desktop client, \<^verbatim>\<open>socks5.go\<close>: the imported server calls a resolver, a rule and a dialer that
  let only IPv4 pass, since the tunnel has no IPv6 routes, and a filter keeps the noise of refused addresses out of the
  log. The parser of addresses, the conversion to IPv4 and the network stack are the record \<open>socks_env\<close>.
\<close>

record ('ip, 'c) socks_env =
  so_lookup :: "string \<Rightarrow> goerr + string list"
  so_ParseIP :: "string \<Rightarrow> 'ip option"
  so_To4 :: "'ip \<Rightarrow> 'ip option"
  so_dial :: "string \<Rightarrow> string \<Rightarrow> goerr + 'c"

section \<open>Resolver, rule and dialer\<close>

fun first_ipv4 :: "('ip, 'c) socks_env \<Rightarrow> string list \<Rightarrow> 'ip option" where
  "first_ipv4 E [] = None"
| "first_ipv4 E (a # as) =
     (case so_ParseIP E a of
        None \<Rightarrow> first_ipv4 E as
      | Some ip \<Rightarrow> (case so_To4 E ip of Some v4 \<Rightarrow> Some v4 | None \<Rightarrow> first_ipv4 E as))"

definition Resolve :: "('ip, 'c) socks_env \<Rightarrow> string \<Rightarrow> goerr + 'ip" where
  "Resolve E name =
     (case so_lookup E name of
        Inl e \<Rightarrow> Inl e
      | Inr addrs \<Rightarrow>
          (case first_ipv4 E addrs of
             Some ip \<Rightarrow> Inr ip
           | None \<Rightarrow> Inl (ErrText (''no IPv4 addresses for '' @ name))))"

text \<open>A request without a destination (\<open>None\<close>), or with one that is only a name (\<open>Some None\<close>), passes.\<close>

definition Allow :: "('ip, 'c) socks_env \<Rightarrow> 'ip option option \<Rightarrow> bool" where
  "Allow E dest =
     (case dest of
        None \<Rightarrow> True
      | Some None \<Rightarrow> True
      | Some (Some ip) \<Rightarrow> so_To4 E ip \<noteq> None)"

definition dialIPv4Only :: "('ip, 'c) socks_env \<Rightarrow> string \<Rightarrow> string \<Rightarrow> goerr + 'c" where
  "dialIPv4Only E network addr =
     (case split_host_port addr of
        Inr (host, port) \<Rightarrow>
          (case so_ParseIP E host of
             Some ip \<Rightarrow> if so_To4 E ip = None then Inl (ErrText ''IPv6 skipped'') else so_dial E network addr
           | None \<Rightarrow> so_dial E network addr)
      | Inl e \<Rightarrow> so_dial E network addr)"

section \<open>The log\<close>

definition isBenignSocksNoise :: "string \<Rightarrow> bool" where
  "isBenignSocksNoise msg =
     (let lower = to_lower msg in
      if contains lower ''blocked by rules'' then True
      else if contains lower ''ipv6'' then True
      else if contains msg ''['' \<and> contains msg '']'' \<and> contains msg '':''
              \<and> (contains lower ''no route'' \<or> contains lower ''connect to'') then True
      else contains msg ''::'' \<and> (contains lower ''no route'' \<or> contains lower ''failed''))"

definition trim_line_end :: "string \<Rightarrow> string" where
  "trim_line_end s = rev (dropWhile (\<lambda>c. c = CHR 0x0D \<or> c = CHR 0x0A) (rev s))"

text \<open>\<^verbatim>\<open>socksLogFilter.Write\<close>: the line that goes to the log, and the number of bytes it reports\<close>

definition socks_log :: "string \<Rightarrow> string option \<times> nat" where
  "socks_log msg = (if isBenignSocksNoise msg then (None, length msg) else (Some (trim_line_end msg), length msg))"

section \<open>The server\<close>

definition closed_text :: string where
  "closed_text = ''use of closed network connection''"

text \<open>\<^verbatim>\<open>runSocks5Server\<close>: the errors of the server's configuration, of the listener and of the accepting loop\<close>

definition runSocks5Server :: "goerr option \<Rightarrow> string \<Rightarrow> goerr option \<Rightarrow> goerr option \<Rightarrow> bool \<Rightarrow> goerr option" where
  "runSocks5Server new_err addr listen_err serve_err canceled =
     (case new_err of
        Some e \<Rightarrow> Some e
      | None \<Rightarrow>
          (case listen_err of
             Some e \<Rightarrow> Some (ErrWrap (''listen '' @ addr @ '': '') e [])
           | None \<Rightarrow>
               if canceled then None
               else
                 (case serve_err of
                    Some e \<Rightarrow> if contains (err_text e) closed_text then None else Some e
                  | None \<Rightarrow> None)))"

lemma first_ipv4_is4:
  "first_ipv4 E as = Some v4 \<Longrightarrow> \<exists>a \<in> set as. \<exists>ip. so_ParseIP E a = Some ip \<and> so_To4 E ip = Some v4"
  by (induction as) (auto split: option.splits)

lemma first_ipv4_none:
  "first_ipv4 E as = None \<longleftrightarrow> (\<forall>a \<in> set as. \<forall>ip. so_ParseIP E a = Some ip \<longrightarrow> so_To4 E ip = None)"
  by (induction as) (auto split: option.splits)

text \<open>
  No IPv6 connection is opened: a name resolves to an IPv4 address whenever it has one and to an error if not, a destination that is an
  IPv6 address is refused by the rule, and an IPv6 address that reaches the dialer all the same is not dialled: the result does not
  depend on the network stack.
\<close>

theorem socks_ipv4_only:
  "(\<forall>ip. Resolve E name = Inr ip \<longrightarrow> (\<exists>ip0. so_To4 E ip0 = Some ip))
   \<and> (\<forall>addrs a ip v4. so_lookup E name = Inr addrs \<and> a \<in> set addrs \<and> so_ParseIP E a = Some ip \<and> so_To4 E ip = Some v4
        \<longrightarrow> (\<exists>r. Resolve E name = Inr r))
   \<and> (\<forall>ip. so_To4 E ip = None \<longrightarrow> \<not> Allow E (Some (Some ip)))
   \<and> (\<forall>host port ip. CHR '':'' \<notin> set port \<and> CHR ''['' \<notin> set host \<and> CHR '']'' \<notin> set host \<and> CHR ''['' \<notin> set port \<and> CHR '']'' \<notin> set port
        \<and> so_ParseIP E host = Some ip \<and> so_To4 E ip = None
        \<longrightarrow> dialIPv4Only E network (join_host_port host port) = Inl (ErrText ''IPv6 skipped''))"
proof (intro conjI allI impI)
  fix ip assume "Resolve E name = Inr ip"
  then show "\<exists>ip0. so_To4 E ip0 = Some ip"
    by (auto simp: Resolve_def split: sum.splits option.splits dest!: first_ipv4_is4)
next
  fix addrs a ip v4
  assume a: "so_lookup E name = Inr addrs \<and> a \<in> set addrs \<and> so_ParseIP E a = Some ip \<and> so_To4 E ip = Some v4"
  then have "first_ipv4 E addrs \<noteq> None"
    by (auto simp: first_ipv4_none)
  then show "\<exists>r. Resolve E name = Inr r"
    using a by (auto simp: Resolve_def)
next
  fix ip assume "so_To4 E ip = None"
  then show "\<not> Allow E (Some (Some ip))"
    by (simp add: Allow_def)
next
  fix host port ip
  assume "CHR '':'' \<notin> set port \<and> CHR ''['' \<notin> set host \<and> CHR '']'' \<notin> set host \<and> CHR ''['' \<notin> set port \<and> CHR '']'' \<notin> set port
    \<and> so_ParseIP E host = Some ip \<and> so_To4 E ip = None"
  then show "dialIPv4Only E network (join_host_port host port) = Inl (ErrText ''IPv6 skipped'')"
    by (simp add: dialIPv4Only_def split_join_host_port)
qed

end
