(* ===== verification/Names.thy ===== *)
theory Names
  imports GoStrings
begin

text \<open>
  The names that callers give themselves, \<^verbatim>\<open>namegen.go\<close>: first names of both genders, last names that take the
  female form, both in UTF-8. The random choices are arguments.
\<close>

definition maleFirstNames :: "string list" where
  "maleFirstNames = [([CHR 0xD0, CHR 0x90, CHR 0xD0, CHR 0xBB, CHR 0xD0, CHR 0xB5, CHR 0xD0, CHR 0xBA, CHR 0xD1, CHR 0x81, CHR 0xD0, CHR 0xB0, CHR 0xD0, CHR 0xBD, CHR 0xD0, CHR 0xB4, CHR 0xD1, CHR 0x80]),
     ([CHR 0xD0, CHR 0x90, CHR 0xD0, CHR 0xBB, CHR 0xD0, CHR 0xB5, CHR 0xD0, CHR 0xBA, CHR 0xD1, CHR 0x81, CHR 0xD0, CHR 0xB5, CHR 0xD0, CHR 0xB9]),
     ([CHR 0xD0, CHR 0x90, CHR 0xD0, CHR 0xBD, CHR 0xD0, CHR 0xB4, CHR 0xD1, CHR 0x80, CHR 0xD0, CHR 0xB5, CHR 0xD0, CHR 0xB9]),
     ([CHR 0xD0, CHR 0x90, CHR 0xD0, CHR 0xBD, CHR 0xD1, CHR 0x82, CHR 0xD0, CHR 0xBE, CHR 0xD0, CHR 0xBD]),
     ([CHR 0xD0, CHR 0x90, CHR 0xD1, CHR 0x80, CHR 0xD1, CHR 0x81, CHR 0xD0, CHR 0xB5, CHR 0xD0, CHR 0xBD, CHR 0xD0, CHR 0xB8, CHR 0xD0, CHR 0xB9]),
     ([CHR 0xD0, CHR 0x90, CHR 0xD1, CHR 0x80, CHR 0xD1, CHR 0x82, CHR 0xD1, CHR 0x83, CHR 0xD1, CHR 0x80]),
     ([CHR 0xD0, CHR 0x90, CHR 0xD1, CHR 0x80, CHR 0xD1, CHR 0x82, CHR 0xD1, CHR 0x91, CHR 0xD0, CHR 0xBC]),
     ([CHR 0xD0, CHR 0x91, CHR 0xD0, CHR 0xBE, CHR 0xD0, CHR 0xB3, CHR 0xD0, CHR 0xB4, CHR 0xD0, CHR 0xB0, CHR 0xD0, CHR 0xBD]),
     ([CHR 0xD0, CHR 0x92, CHR 0xD0, CHR 0xB0, CHR 0xD0, CHR 0xBB, CHR 0xD0, CHR 0xB5, CHR 0xD1, CHR 0x80, CHR 0xD0, CHR 0xB8, CHR 0xD0, CHR 0xB9]),
     ([CHR 0xD0, CHR 0x92, CHR 0xD0, CHR 0xB0, CHR 0xD1, CHR 0x81, CHR 0xD0, CHR 0xB8, CHR 0xD0, CHR 0xBB, CHR 0xD0, CHR 0xB8, CHR 0xD0, CHR 0xB9]),
     ([CHR 0xD0, CHR 0x92, CHR 0xD0, CHR 0xB8, CHR 0xD0, CHR 0xBA, CHR 0xD1, CHR 0x82, CHR 0xD0, CHR 0xBE, CHR 0xD1, CHR 0x80]),
     ([CHR 0xD0, CHR 0x92, CHR 0xD0, CHR 0xBB, CHR 0xD0, CHR 0xB0, CHR 0xD0, CHR 0xB4, CHR 0xD0, CHR 0xB8, CHR 0xD1, CHR 0x81, CHR 0xD0, CHR 0xBB, CHR 0xD0, CHR 0xB0, CHR 0xD0, CHR 0xB2]),
     ([CHR 0xD0, CHR 0x93, CHR 0xD0, CHR 0xBB, CHR 0xD0, CHR 0xB5, CHR 0xD0, CHR 0xB1]),
     ([CHR 0xD0, CHR 0x93, CHR 0xD1, CHR 0x80, CHR 0xD0, CHR 0xB8, CHR 0xD0, CHR 0xB3, CHR 0xD0, CHR 0xBE, CHR 0xD1, CHR 0x80, CHR 0xD0, CHR 0xB8, CHR 0xD0, CHR 0xB9]),
     ([CHR 0xD0, CHR 0x94, CHR 0xD0, CHR 0xB0, CHR 0xD0, CHR 0xBD, CHR 0xD0, CHR 0xB8, CHR 0xD0, CHR 0xB8, CHR 0xD0, CHR 0xBB]),
     ([CHR 0xD0, CHR 0x94, CHR 0xD0, CHR 0xB5, CHR 0xD0, CHR 0xBD, CHR 0xD0, CHR 0xB8, CHR 0xD1, CHR 0x81]),
     ([CHR 0xD0, CHR 0x94, CHR 0xD0, CHR 0xBC, CHR 0xD0, CHR 0xB8, CHR 0xD1, CHR 0x82, CHR 0xD1, CHR 0x80, CHR 0xD0, CHR 0xB8, CHR 0xD0, CHR 0xB9]),
     ([CHR 0xD0, CHR 0x95, CHR 0xD0, CHR 0xB2, CHR 0xD0, CHR 0xB3, CHR 0xD0, CHR 0xB5, CHR 0xD0, CHR 0xBD, CHR 0xD0, CHR 0xB8, CHR 0xD0, CHR 0xB9]),
     ([CHR 0xD0, CHR 0x95, CHR 0xD0, CHR 0xB3, CHR 0xD0, CHR 0xBE, CHR 0xD1, CHR 0x80]),
     ([CHR 0xD0, CHR 0x98, CHR 0xD0, CHR 0xB2, CHR 0xD0, CHR 0xB0, CHR 0xD0, CHR 0xBD]),
     ([CHR 0xD0, CHR 0x98, CHR 0xD0, CHR 0xB3, CHR 0xD0, CHR 0xBE, CHR 0xD1, CHR 0x80, CHR 0xD1, CHR 0x8C]),
     ([CHR 0xD0, CHR 0x98, CHR 0xD0, CHR 0xBB, CHR 0xD1, CHR 0x8C, CHR 0xD1, CHR 0x8F]),
     ([CHR 0xD0, CHR 0x9A, CHR 0xD0, CHR 0xB8, CHR 0xD1, CHR 0x80, CHR 0xD0, CHR 0xB8, CHR 0xD0, CHR 0xBB, CHR 0xD0, CHR 0xBB]),
     ([CHR 0xD0, CHR 0x9B, CHR 0xD0, CHR 0xB5, CHR 0xD0, CHR 0xBE, CHR 0xD0, CHR 0xBD, CHR 0xD0, CHR 0xB8, CHR 0xD0, CHR 0xB4]),
     ([CHR 0xD0, CHR 0x9C, CHR 0xD0, CHR 0xB0, CHR 0xD0, CHR 0xBA, CHR 0xD1, CHR 0x81, CHR 0xD0, CHR 0xB8, CHR 0xD0, CHR 0xBC]),
     ([CHR 0xD0, CHR 0x9C, CHR 0xD0, CHR 0xB0, CHR 0xD1, CHR 0x80, CHR 0xD0, CHR 0xBA]),
     ([CHR 0xD0, CHR 0x9C, CHR 0xD0, CHR 0xB0, CHR 0xD1, CHR 0x82, CHR 0xD0, CHR 0xB2, CHR 0xD0, CHR 0xB5, CHR 0xD0, CHR 0xB9]),
     ([CHR 0xD0, CHR 0x9C, CHR 0xD0, CHR 0xB8, CHR 0xD1, CHR 0x85, CHR 0xD0, CHR 0xB0, CHR 0xD0, CHR 0xB8, CHR 0xD0, CHR 0xBB]),
     ([CHR 0xD0, CHR 0x9D, CHR 0xD0, CHR 0xB8, CHR 0xD0, CHR 0xBA, CHR 0xD0, CHR 0xB8, CHR 0xD1, CHR 0x82, CHR 0xD0, CHR 0xB0]),
     ([CHR 0xD0, CHR 0x9D, CHR 0xD0, CHR 0xB8, CHR 0xD0, CHR 0xBA, CHR 0xD0, CHR 0xBE, CHR 0xD0, CHR 0xBB, CHR 0xD0, CHR 0xB0, CHR 0xD0, CHR 0xB9]),
     ([CHR 0xD0, CHR 0x9E, CHR 0xD0, CHR 0xBB, CHR 0xD0, CHR 0xB5, CHR 0xD0, CHR 0xB3]),
     ([CHR 0xD0, CHR 0x9F, CHR 0xD0, CHR 0xB0, CHR 0xD0, CHR 0xB2, CHR 0xD0, CHR 0xB5, CHR 0xD0, CHR 0xBB]),
     ([CHR 0xD0, CHR 0x9F, CHR 0xD1, CHR 0x91, CHR 0xD1, CHR 0x82, CHR 0xD1, CHR 0x80]),
     ([CHR 0xD0, CHR 0xA0, CHR 0xD0, CHR 0xBE, CHR 0xD0, CHR 0xBC, CHR 0xD0, CHR 0xB0, CHR 0xD0, CHR 0xBD]),
     ([CHR 0xD0, CHR 0xA0, CHR 0xD1, CHR 0x83, CHR 0xD1, CHR 0x81, CHR 0xD0, CHR 0xBB, CHR 0xD0, CHR 0xB0, CHR 0xD0, CHR 0xBD]),
     ([CHR 0xD0, CHR 0xA1, CHR 0xD0, CHR 0xB5, CHR 0xD1, CHR 0x80, CHR 0xD0, CHR 0xB3, CHR 0xD0, CHR 0xB5, CHR 0xD0, CHR 0xB9]),
     ([CHR 0xD0, CHR 0xA1, CHR 0xD1, CHR 0x82, CHR 0xD0, CHR 0xB0, CHR 0xD0, CHR 0xBD, CHR 0xD0, CHR 0xB8, CHR 0xD1, CHR 0x81, CHR 0xD0, CHR 0xBB, CHR 0xD0, CHR 0xB0, CHR 0xD0, CHR 0xB2]),
     ([CHR 0xD0, CHR 0xA2, CHR 0xD0, CHR 0xB8, CHR 0xD0, CHR 0xBC, CHR 0xD0, CHR 0xBE, CHR 0xD1, CHR 0x84, CHR 0xD0, CHR 0xB5, CHR 0xD0, CHR 0xB9]),
     ([CHR 0xD0, CHR 0xA4, CHR 0xD1, CHR 0x91, CHR 0xD0, CHR 0xB4, CHR 0xD0, CHR 0xBE, CHR 0xD1, CHR 0x80])]"

definition femaleFirstNames :: "string list" where
  "femaleFirstNames = [([CHR 0xD0, CHR 0x90, CHR 0xD0, CHR 0xBB, CHR 0xD0, CHR 0xB8, CHR 0xD0, CHR 0xBD, CHR 0xD0, CHR 0xB0]),
     ([CHR 0xD0, CHR 0x90, CHR 0xD0, CHR 0xBB, CHR 0xD1, CHR 0x91, CHR 0xD0, CHR 0xBD, CHR 0xD0, CHR 0xB0]),
     ([CHR 0xD0, CHR 0x90, CHR 0xD0, CHR 0xBD, CHR 0xD0, CHR 0xB0, CHR 0xD1, CHR 0x81, CHR 0xD1, CHR 0x82, CHR 0xD0, CHR 0xB0, CHR 0xD1, CHR 0x81, CHR 0xD0, CHR 0xB8, CHR 0xD1, CHR 0x8F]),
     ([CHR 0xD0, CHR 0x90, CHR 0xD0, CHR 0xBD, CHR 0xD0, CHR 0xB3, CHR 0xD0, CHR 0xB5, CHR 0xD0, CHR 0xBB, CHR 0xD0, CHR 0xB8, CHR 0xD0, CHR 0xBD, CHR 0xD0, CHR 0xB0]),
     ([CHR 0xD0, CHR 0x90, CHR 0xD0, CHR 0xBD, CHR 0xD0, CHR 0xBD, CHR 0xD0, CHR 0xB0]),
     ([CHR 0xD0, CHR 0x92, CHR 0xD0, CHR 0xB5, CHR 0xD1, CHR 0x80, CHR 0xD0, CHR 0xB0]),
     ([CHR 0xD0, CHR 0x92, CHR 0xD0, CHR 0xB5, CHR 0xD1, CHR 0x80, CHR 0xD0, CHR 0xBE, CHR 0xD0, CHR 0xBD, CHR 0xD0, CHR 0xB8, CHR 0xD0, CHR 0xBA, CHR 0xD0, CHR 0xB0]),
     ([CHR 0xD0, CHR 0x92, CHR 0xD0, CHR 0xB8, CHR 0xD0, CHR 0xBA, CHR 0xD1, CHR 0x82, CHR 0xD0, CHR 0xBE, CHR 0xD1, CHR 0x80, CHR 0xD0, CHR 0xB8, CHR 0xD1, CHR 0x8F]),
     ([CHR 0xD0, CHR 0x94, CHR 0xD0, CHR 0xB0, CHR 0xD1, CHR 0x80, CHR 0xD1, CHR 0x8C, CHR 0xD1, CHR 0x8F]),
     ([CHR 0xD0, CHR 0x95, CHR 0xD0, CHR 0xB2, CHR 0xD0, CHR 0xB0]),
     ([CHR 0xD0, CHR 0x95, CHR 0xD0, CHR 0xBA, CHR 0xD0, CHR 0xB0, CHR 0xD1, CHR 0x82, CHR 0xD0, CHR 0xB5, CHR 0xD1, CHR 0x80, CHR 0xD0, CHR 0xB8, CHR 0xD0, CHR 0xBD, CHR 0xD0, CHR 0xB0]),
     ([CHR 0xD0, CHR 0x95, CHR 0xD0, CHR 0xBB, CHR 0xD0, CHR 0xB5, CHR 0xD0, CHR 0xBD, CHR 0xD0, CHR 0xB0]),
     ([CHR 0xD0, CHR 0x95, CHR 0xD0, CHR 0xBB, CHR 0xD0, CHR 0xB8, CHR 0xD0, CHR 0xB7, CHR 0xD0, CHR 0xB0, CHR 0xD0, CHR 0xB2, CHR 0xD0, CHR 0xB5, CHR 0xD1, CHR 0x82, CHR 0xD0, CHR 0xB0]),
     ([CHR 0xD0, CHR 0x98, CHR 0xD1, CHR 0x80, CHR 0xD0, CHR 0xB8, CHR 0xD0, CHR 0xBD, CHR 0xD0, CHR 0xB0]),
     ([CHR 0xD0, CHR 0x9A, CHR 0xD0, CHR 0xB8, CHR 0xD1, CHR 0x80, CHR 0xD0, CHR 0xB0]),
     ([CHR 0xD0, CHR 0x9A, CHR 0xD1, CHR 0x80, CHR 0xD0, CHR 0xB8, CHR 0xD1, CHR 0x81, CHR 0xD1, CHR 0x82, CHR 0xD0, CHR 0xB8, CHR 0xD0, CHR 0xBD, CHR 0xD0, CHR 0xB0]),
     ([CHR 0xD0, CHR 0x9A, CHR 0xD1, CHR 0x81, CHR 0xD0, CHR 0xB5, CHR 0xD0, CHR 0xBD, CHR 0xD0, CHR 0xB8, CHR 0xD1, CHR 0x8F]),
     ([CHR 0xD0, CHR 0x9B, CHR 0xD1, CHR 0x8E, CHR 0xD0, CHR 0xB1, CHR 0xD0, CHR 0xBE, CHR 0xD0, CHR 0xB2, CHR 0xD1, CHR 0x8C]),
     ([CHR 0xD0, CHR 0x9C, CHR 0xD0, CHR 0xB0, CHR 0xD1, CHR 0x80, CHR 0xD0, CHR 0xB3, CHR 0xD0, CHR 0xB0, CHR 0xD1, CHR 0x80, CHR 0xD0, CHR 0xB8, CHR 0xD1, CHR 0x82, CHR 0xD0, CHR 0xB0]),
     ([CHR 0xD0, CHR 0x9C, CHR 0xD0, CHR 0xB0, CHR 0xD1, CHR 0x80, CHR 0xD0, CHR 0xB8, CHR 0xD0, CHR 0xBD, CHR 0xD0, CHR 0xB0]),
     ([CHR 0xD0, CHR 0x9C, CHR 0xD0, CHR 0xB0, CHR 0xD1, CHR 0x80, CHR 0xD0, CHR 0xB8, CHR 0xD1, CHR 0x8F]),
     ([CHR 0xD0, CHR 0x9C, CHR 0xD0, CHR 0xB8, CHR 0xD0, CHR 0xBB, CHR 0xD0, CHR 0xB0, CHR 0xD0, CHR 0xBD, CHR 0xD0, CHR 0xB0]),
     ([CHR 0xD0, CHR 0x9D, CHR 0xD0, CHR 0xB0, CHR 0xD0, CHR 0xB4, CHR 0xD0, CHR 0xB5, CHR 0xD0, CHR 0xB6, CHR 0xD0, CHR 0xB4, CHR 0xD0, CHR 0xB0]),
     ([CHR 0xD0, CHR 0x9D, CHR 0xD0, CHR 0xB0, CHR 0xD1, CHR 0x82, CHR 0xD0, CHR 0xB0, CHR 0xD0, CHR 0xBB, CHR 0xD1, CHR 0x8C, CHR 0xD1, CHR 0x8F]),
     ([CHR 0xD0, CHR 0x9E, CHR 0xD0, CHR 0xBB, CHR 0xD1, CHR 0x8C, CHR 0xD0, CHR 0xB3, CHR 0xD0, CHR 0xB0]),
     ([CHR 0xD0, CHR 0x9F, CHR 0xD0, CHR 0xBE, CHR 0xD0, CHR 0xBB, CHR 0xD0, CHR 0xB8, CHR 0xD0, CHR 0xBD, CHR 0xD0, CHR 0xB0]),
     ([CHR 0xD0, CHR 0xA1, CHR 0xD0, CHR 0xB2, CHR 0xD0, CHR 0xB5, CHR 0xD1, CHR 0x82, CHR 0xD0, CHR 0xBB, CHR 0xD0, CHR 0xB0, CHR 0xD0, CHR 0xBD, CHR 0xD0, CHR 0xB0]),
     ([CHR 0xD0, CHR 0xA1, CHR 0xD0, CHR 0xBE, CHR 0xD1, CHR 0x84, CHR 0xD0, CHR 0xB8, CHR 0xD1, CHR 0x8F]),
     ([CHR 0xD0, CHR 0xA2, CHR 0xD0, CHR 0xB0, CHR 0xD1, CHR 0x82, CHR 0xD1, CHR 0x8C, CHR 0xD1, CHR 0x8F, CHR 0xD0, CHR 0xBD, CHR 0xD0, CHR 0xB0]),
     ([CHR 0xD0, CHR 0xAE, CHR 0xD0, CHR 0xBB, CHR 0xD0, CHR 0xB8, CHR 0xD1, CHR 0x8F]),
     ([CHR 0xD0, CHR 0xAF, CHR 0xD0, CHR 0xBD, CHR 0xD0, CHR 0xB0])]"

definition lastNames :: "string list" where
  "lastNames = [([CHR 0xD0, CHR 0x90, CHR 0xD0, CHR 0xBB, CHR 0xD0, CHR 0xB5, CHR 0xD0, CHR 0xBA, CHR 0xD1, CHR 0x81, CHR 0xD0, CHR 0xB5, CHR 0xD0, CHR 0xB5, CHR 0xD0, CHR 0xB2]),
     ([CHR 0xD0, CHR 0x90, CHR 0xD0, CHR 0xBD, CHR 0xD0, CHR 0xB4, CHR 0xD1, CHR 0x80, CHR 0xD0, CHR 0xB5, CHR 0xD0, CHR 0xB5, CHR 0xD0, CHR 0xB2]),
     ([CHR 0xD0, CHR 0x90, CHR 0xD0, CHR 0xBD, CHR 0xD1, CHR 0x82, CHR 0xD0, CHR 0xBE, CHR 0xD0, CHR 0xBD, CHR 0xD0, CHR 0xBE, CHR 0xD0, CHR 0xB2]),
     ([CHR 0xD0, CHR 0x91, CHR 0xD0, CHR 0xB0, CHR 0xD1, CHR 0x80, CHR 0xD0, CHR 0xB0, CHR 0xD0, CHR 0xBD, CHR 0xD0, CHR 0xBE, CHR 0xD0, CHR 0xB2]),
     ([CHR 0xD0, CHR 0x91, CHR 0xD0, CHR 0xB5, CHR 0xD0, CHR 0xBB, CHR 0xD0, CHR 0xBE, CHR 0xD0, CHR 0xB2]),
     ([CHR 0xD0, CHR 0x91, CHR 0xD0, CHR 0xB5, CHR 0xD0, CHR 0xBB, CHR 0xD1, CHR 0x8B, CHR 0xD0, CHR 0xB9]),
     ([CHR 0xD0, CHR 0x91, CHR 0xD0, CHR 0xB5, CHR 0xD0, CHR 0xBB, CHR 0xD1, CHR 0x8C, CHR 0xD1, CHR 0x81, CHR 0xD0, CHR 0xBA, CHR 0xD0, CHR 0xB8, CHR 0xD0, CHR 0xB9]),
     ([CHR 0xD0, CHR 0x91, CHR 0xD0, CHR 0xB5, CHR 0xD0, CHR 0xBB, CHR 0xD1, CHR 0x8F, CHR 0xD0, CHR 0xB5, CHR 0xD0, CHR 0xB2]),
     ([CHR 0xD0, CHR 0x91, CHR 0xD0, CHR 0xBE, CHR 0xD1, CHR 0x80, CHR 0xD0, CHR 0xB8, CHR 0xD1, CHR 0x81, CHR 0xD0, CHR 0xBE, CHR 0xD0, CHR 0xB2]),
     ([CHR 0xD0, CHR 0x92, CHR 0xD0, CHR 0xB0, CHR 0xD1, CHR 0x81, CHR 0xD0, CHR 0xB8, CHR 0xD0, CHR 0xBB, CHR 0xD1, CHR 0x8C, CHR 0xD0, CHR 0xB5, CHR 0xD0, CHR 0xB2]),
     ([CHR 0xD0, CHR 0x92, CHR 0xD0, CHR 0xB5, CHR 0xD0, CHR 0xBB, CHR 0xD0, CHR 0xB8, CHR 0xD0, CHR 0xBA, CHR 0xD0, CHR 0xB8, CHR 0xD0, CHR 0xB9]),
     ([CHR 0xD0, CHR 0x92, CHR 0xD0, CHR 0xBE, CHR 0xD0, CHR 0xBB, CHR 0xD0, CHR 0xBA, CHR 0xD0, CHR 0xBE, CHR 0xD0, CHR 0xB2]),
     ([CHR 0xD0, CHR 0x92, CHR 0xD0, CHR 0xBE, CHR 0xD1, CHR 0x80, CHR 0xD0, CHR 0xBE, CHR 0xD0, CHR 0xB1, CHR 0xD1, CHR 0x8C, CHR 0xD1, CHR 0x91, CHR 0xD0, CHR 0xB2]),
     ([CHR 0xD0, CHR 0x93, CHR 0xD1, CHR 0x80, CHR 0xD0, CHR 0xB8, CHR 0xD0, CHR 0xB3, CHR 0xD0, CHR 0xBE, CHR 0xD1, CHR 0x80, CHR 0xD1, CHR 0x8C, CHR 0xD0, CHR 0xB5, CHR 0xD0, CHR 0xB2]),
     ([CHR 0xD0, CHR 0x94, CHR 0xD0, CHR 0xB0, CHR 0xD0, CHR 0xB2, CHR 0xD1, CHR 0x8B, CHR 0xD0, CHR 0xB4, CHR 0xD0, CHR 0xBE, CHR 0xD0, CHR 0xB2]),
     ([CHR 0xD0, CHR 0x95, CHR 0xD0, CHR 0xB3, CHR 0xD0, CHR 0xBE, CHR 0xD1, CHR 0x80, CHR 0xD0, CHR 0xBE, CHR 0xD0, CHR 0xB2]),
     ([CHR 0xD0, CHR 0x96, CHR 0xD1, CHR 0x83, CHR 0xD0, CHR 0xBA, CHR 0xD0, CHR 0xBE, CHR 0xD0, CHR 0xB2]),
     ([CHR 0xD0, CHR 0x97, CHR 0xD0, CHR 0xB0, CHR 0xD0, CHR 0xB9, CHR 0xD1, CHR 0x86, CHR 0xD0, CHR 0xB5, CHR 0xD0, CHR 0xB2]),
     ([CHR 0xD0, CHR 0x97, CHR 0xD0, CHR 0xB0, CHR 0xD1, CHR 0x85, CHR 0xD0, CHR 0xB0, CHR 0xD1, CHR 0x80, CHR 0xD0, CHR 0xBE, CHR 0xD0, CHR 0xB2]),
     ([CHR 0xD0, CHR 0x98, CHR 0xD0, CHR 0xB2, CHR 0xD0, CHR 0xB0, CHR 0xD0, CHR 0xBD, CHR 0xD0, CHR 0xBE, CHR 0xD0, CHR 0xB2]),
     ([CHR 0xD0, CHR 0x9A, CHR 0xD0, CHR 0xB0, CHR 0xD0, CHR 0xBB, CHR 0xD0, CHR 0xB8, CHR 0xD0, CHR 0xBD, CHR 0xD0, CHR 0xB8, CHR 0xD0, CHR 0xBD]),
     ([CHR 0xD0, CHR 0x9A, CHR 0xD0, CHR 0xBE, CHR 0xD0, CHR 0xB2, CHR 0xD0, CHR 0xB0, CHR 0xD0, CHR 0xBB, CHR 0xD1, CHR 0x91, CHR 0xD0, CHR 0xB2]),
     ([CHR 0xD0, CHR 0x9A, CHR 0xD0, CHR 0xBE, CHR 0xD0, CHR 0xB7, CHR 0xD0, CHR 0xBB, CHR 0xD0, CHR 0xBE, CHR 0xD0, CHR 0xB2]),
     ([CHR 0xD0, CHR 0x9A, CHR 0xD0, CHR 0xBE, CHR 0xD0, CHR 0xBC, CHR 0xD0, CHR 0xB0, CHR 0xD1, CHR 0x80, CHR 0xD0, CHR 0xBE, CHR 0xD0, CHR 0xB2]),
     ([CHR 0xD0, CHR 0x9A, CHR 0xD1, CHR 0x80, CHR 0xD0, CHR 0xB0, CHR 0xD0, CHR 0xBC, CHR 0xD1, CHR 0x81, CHR 0xD0, CHR 0xBA, CHR 0xD0, CHR 0xBE, CHR 0xD0, CHR 0xB9]),
     ([CHR 0xD0, CHR 0x9A, CHR 0xD1, CHR 0x83, CHR 0xD0, CHR 0xB7, CHR 0xD0, CHR 0xBD, CHR 0xD0, CHR 0xB5, CHR 0xD1, CHR 0x86, CHR 0xD0, CHR 0xBE, CHR 0xD0, CHR 0xB2]),
     ([CHR 0xD0, CHR 0x9A, CHR 0xD1, CHR 0x83, CHR 0xD0, CHR 0xB7, CHR 0xD1, CHR 0x8C, CHR 0xD0, CHR 0xBC, CHR 0xD0, CHR 0xB8, CHR 0xD0, CHR 0xBD]),
     ([CHR 0xD0, CHR 0x9B, CHR 0xD0, CHR 0xB5, CHR 0xD0, CHR 0xB1, CHR 0xD0, CHR 0xB5, CHR 0xD0, CHR 0xB4, CHR 0xD0, CHR 0xB5, CHR 0xD0, CHR 0xB2]),
     ([CHR 0xD0, CHR 0x9C, CHR 0xD0, CHR 0xB0, CHR 0xD0, CHR 0xBA, CHR 0xD0, CHR 0xB0, CHR 0xD1, CHR 0x80, CHR 0xD0, CHR 0xBE, CHR 0xD0, CHR 0xB2]),
     ([CHR 0xD0, CHR 0x9C, CHR 0xD0, CHR 0xB5, CHR 0xD0, CHR 0xB4, CHR 0xD0, CHR 0xB2, CHR 0xD0, CHR 0xB5, CHR 0xD0, CHR 0xB4, CHR 0xD0, CHR 0xB5, CHR 0xD0, CHR 0xB2]),
     ([CHR 0xD0, CHR 0x9C, CHR 0xD0, CHR 0xB8, CHR 0xD1, CHR 0x85, CHR 0xD0, CHR 0xB0, CHR 0xD0, CHR 0xB9, CHR 0xD0, CHR 0xBB, CHR 0xD0, CHR 0xBE, CHR 0xD0, CHR 0xB2]),
     ([CHR 0xD0, CHR 0x9C, CHR 0xD0, CHR 0xBE, CHR 0xD1, CHR 0x80, CHR 0xD0, CHR 0xBE, CHR 0xD0, CHR 0xB7, CHR 0xD0, CHR 0xBE, CHR 0xD0, CHR 0xB2]),
     ([CHR 0xD0, CHR 0x9D, CHR 0xD0, CHR 0xB8, CHR 0xD0, CHR 0xBA, CHR 0xD0, CHR 0xB8, CHR 0xD1, CHR 0x82, CHR 0xD0, CHR 0xB8, CHR 0xD0, CHR 0xBD]),
     ([CHR 0xD0, CHR 0x9D, CHR 0xD0, CHR 0xB8, CHR 0xD0, CHR 0xBA, CHR 0xD0, CHR 0xBE, CHR 0xD0, CHR 0xBB, CHR 0xD0, CHR 0xB0, CHR 0xD0, CHR 0xB5, CHR 0xD0, CHR 0xB2]),
     ([CHR 0xD0, CHR 0x9D, CHR 0xD0, CHR 0xBE, CHR 0xD0, CHR 0xB2, CHR 0xD0, CHR 0xB8, CHR 0xD0, CHR 0xBA, CHR 0xD0, CHR 0xBE, CHR 0xD0, CHR 0xB2]),
     ([CHR 0xD0, CHR 0x9E, CHR 0xD1, CHR 0x80, CHR 0xD0, CHR 0xBB, CHR 0xD0, CHR 0xBE, CHR 0xD0, CHR 0xB2]),
     ([CHR 0xD0, CHR 0x9E, CHR 0xD1, CHR 0x81, CHR 0xD1, CHR 0x82, CHR 0xD1, CHR 0x80, CHR 0xD0, CHR 0xBE, CHR 0xD0, CHR 0xB2, CHR 0xD1, CHR 0x81, CHR 0xD0, CHR 0xBA, CHR 0xD0, CHR 0xB8, CHR 0xD0, CHR 0xB9]),
     ([CHR 0xD0, CHR 0x9F, CHR 0xD0, CHR 0xB0, CHR 0xD0, CHR 0xB2, CHR 0xD0, CHR 0xBB, CHR 0xD0, CHR 0xBE, CHR 0xD0, CHR 0xB2]),
     ([CHR 0xD0, CHR 0x9F, CHR 0xD0, CHR 0xB5, CHR 0xD1, CHR 0x82, CHR 0xD1, CHR 0x80, CHR 0xD0, CHR 0xBE, CHR 0xD0, CHR 0xB2]),
     ([CHR 0xD0, CHR 0x9F, CHR 0xD0, CHR 0xBE, CHR 0xD0, CHR 0xBA, CHR 0xD1, CHR 0x80, CHR 0xD0, CHR 0xBE, CHR 0xD0, CHR 0xB2, CHR 0xD1, CHR 0x81, CHR 0xD0, CHR 0xBA, CHR 0xD0, CHR 0xB8, CHR 0xD0, CHR 0xB9]),
     ([CHR 0xD0, CHR 0x9F, CHR 0xD0, CHR 0xBE, CHR 0xD0, CHR 0xBF, CHR 0xD0, CHR 0xBE, CHR 0xD0, CHR 0xB2]),
     ([CHR 0xD0, CHR 0xA0, CHR 0xD0, CHR 0xB0, CHR 0xD0, CHR 0xB5, CHR 0xD0, CHR 0xB2, CHR 0xD1, CHR 0x81, CHR 0xD0, CHR 0xBA, CHR 0xD0, CHR 0xB8, CHR 0xD0, CHR 0xB9]),
     ([CHR 0xD0, CHR 0xA0, CHR 0xD0, CHR 0xBE, CHR 0xD0, CHR 0xBC, CHR 0xD0, CHR 0xB0, CHR 0xD0, CHR 0xBD, CHR 0xD0, CHR 0xBE, CHR 0xD0, CHR 0xB2]),
     ([CHR 0xD0, CHR 0xA1, CHR 0xD0, CHR 0xB5, CHR 0xD0, CHR 0xBC, CHR 0xD1, CHR 0x91, CHR 0xD0, CHR 0xBD, CHR 0xD0, CHR 0xBE, CHR 0xD0, CHR 0xB2]),
     ([CHR 0xD0, CHR 0xA1, CHR 0xD0, CHR 0xB5, CHR 0xD1, CHR 0x80, CHR 0xD0, CHR 0xB3, CHR 0xD0, CHR 0xB5, CHR 0xD0, CHR 0xB5, CHR 0xD0, CHR 0xB2]),
     ([CHR 0xD0, CHR 0xA1, CHR 0xD0, CHR 0xBC, CHR 0xD0, CHR 0xB8, CHR 0xD1, CHR 0x80, CHR 0xD0, CHR 0xBD, CHR 0xD0, CHR 0xBE, CHR 0xD0, CHR 0xB2]),
     ([CHR 0xD0, CHR 0xA1, CHR 0xD0, CHR 0xBE, CHR 0xD0, CHR 0xBA, CHR 0xD0, CHR 0xBE, CHR 0xD0, CHR 0xBB, CHR 0xD0, CHR 0xBE, CHR 0xD0, CHR 0xB2]),
     ([CHR 0xD0, CHR 0xA1, CHR 0xD0, CHR 0xBE, CHR 0xD0, CHR 0xBB, CHR 0xD0, CHR 0xBE, CHR 0xD0, CHR 0xB2, CHR 0xD1, CHR 0x8C, CHR 0xD1, CHR 0x91, CHR 0xD0, CHR 0xB2]),
     ([CHR 0xD0, CHR 0xA1, CHR 0xD1, CHR 0x82, CHR 0xD0, CHR 0xB5, CHR 0xD0, CHR 0xBF, CHR 0xD0, CHR 0xB0, CHR 0xD0, CHR 0xBD, CHR 0xD0, CHR 0xBE, CHR 0xD0, CHR 0xB2]),
     ([CHR 0xD0, CHR 0xA2, CHR 0xD0, CHR 0xB0, CHR 0xD1, CHR 0x80, CHR 0xD0, CHR 0xB0, CHR 0xD1, CHR 0x81, CHR 0xD0, CHR 0xBE, CHR 0xD0, CHR 0xB2]),
     ([CHR 0xD0, CHR 0xA2, CHR 0xD0, CHR 0xB8, CHR 0xD1, CHR 0x82, CHR 0xD0, CHR 0xBE, CHR 0xD0, CHR 0xB2]),
     ([CHR 0xD0, CHR 0xA2, CHR 0xD0, CHR 0xBE, CHR 0xD0, CHR 0xBB, CHR 0xD1, CHR 0x81, CHR 0xD1, CHR 0x82, CHR 0xD0, CHR 0xBE, CHR 0xD0, CHR 0xB9]),
     ([CHR 0xD0, CHR 0xA2, CHR 0xD1, CHR 0x80, CHR 0xD1, CHR 0x83, CHR 0xD0, CHR 0xB1, CHR 0xD0, CHR 0xB5, CHR 0xD1, CHR 0x86, CHR 0xD0, CHR 0xBA, CHR 0xD0, CHR 0xBE, CHR 0xD0, CHR 0xB9]),
     ([CHR 0xD0, CHR 0xA4, CHR 0xD0, CHR 0xB8, CHR 0xD0, CHR 0xBB, CHR 0xD0, CHR 0xB8, CHR 0xD0, CHR 0xBF, CHR 0xD0, CHR 0xBF, CHR 0xD0, CHR 0xBE, CHR 0xD0, CHR 0xB2]),
     ([CHR 0xD0, CHR 0xA4, CHR 0xD1, CHR 0x80, CHR 0xD0, CHR 0xBE, CHR 0xD0, CHR 0xBB, CHR 0xD0, CHR 0xBE, CHR 0xD0, CHR 0xB2]),
     ([CHR 0xD0, CHR 0xA4, CHR 0xD1, CHR 0x91, CHR 0xD0, CHR 0xB4, CHR 0xD0, CHR 0xBE, CHR 0xD1, CHR 0x80, CHR 0xD0, CHR 0xBE, CHR 0xD0, CHR 0xB2]),
     ([CHR 0xD0, CHR 0xA7, CHR 0xD0, CHR 0xB0, CHR 0xD0, CHR 0xB9, CHR 0xD0, CHR 0xBA, CHR 0xD0, CHR 0xBE, CHR 0xD0, CHR 0xB2, CHR 0xD1, CHR 0x81, CHR 0xD0, CHR 0xBA, CHR 0xD0, CHR 0xB8, CHR 0xD0, CHR 0xB9]),
     ([CHR 0xD0, CHR 0xA7, CHR 0xD0, CHR 0xB5, CHR 0xD1, CHR 0x80, CHR 0xD0, CHR 0xBD, CHR 0xD1, CHR 0x8B, CHR 0xD0, CHR 0xB9]),
     ([CHR 0xD0, CHR 0xAF, CHR 0xD0, CHR 0xBA, CHR 0xD0, CHR 0xBE, CHR 0xD0, CHR 0xB2, CHR 0xD0, CHR 0xBB, CHR 0xD0, CHR 0xB5, CHR 0xD0, CHR 0xB2])]"

definition convertToFemaleSurname :: "string \<Rightarrow> string" where
  "convertToFemaleSurname surname =
     (if has_suffix surname ([CHR 0xD0, CHR 0xB8, CHR 0xD0, CHR 0xB9]) \<or> has_suffix surname ([CHR 0xD1, CHR 0x8B, CHR 0xD0, CHR 0xB9]) \<or> has_suffix surname ([CHR 0xD0, CHR 0xBE, CHR 0xD0, CHR 0xB9])
      then take (length surname - 4) surname @ ([CHR 0xD0, CHR 0xB0, CHR 0xD1, CHR 0x8F])
      else if has_suffix surname ([CHR 0xD0, CHR 0xBE, CHR 0xD0, CHR 0xB2]) \<or> has_suffix surname ([CHR 0xD0, CHR 0xB5, CHR 0xD0, CHR 0xB2]) \<or> has_suffix surname ([CHR 0xD0, CHR 0xB8, CHR 0xD0, CHR 0xBD]) \<or> has_suffix surname ([CHR 0xD1, CHR 0x8B, CHR 0xD0, CHR 0xBD])
              \<or> has_suffix surname ([CHR 0xD1, CHR 0x91, CHR 0xD0, CHR 0xB2])
      then surname @ ([CHR 0xD0, CHR 0xB0])
      else surname)"

text \<open>The choices: the gender, the first name, whether there is a last name, the last name\<close>

definition generateName :: "bool \<Rightarrow> nat \<Rightarrow> bool \<Rightarrow> nat \<Rightarrow> string" where
  "generateName isFemale i onlyFirst j =
     (let fn = (if isFemale then femaleFirstNames ! i else maleFirstNames ! i) in
      if onlyFirst then fn
      else fn @ '' '' @ (if isFemale then convertToFemaleSurname (lastNames ! j) else lastNames ! j))"

text \<open>
  Every last name of the table has a female form of its own, which ends like one, and no name has a space or is empty, so a
  generated name is one word or two.
\<close>

theorem names_agree:
  "(\<forall>n \<in> set lastNames. convertToFemaleSurname n \<noteq> n
      \<and> (has_suffix (convertToFemaleSurname n) ([CHR 0xD0, CHR 0xBE, CHR 0xD0, CHR 0xB2, CHR 0xD0, CHR 0xB0]) \<or> has_suffix (convertToFemaleSurname n) ([CHR 0xD0, CHR 0xB5, CHR 0xD0, CHR 0xB2, CHR 0xD0, CHR 0xB0])
         \<or> has_suffix (convertToFemaleSurname n) ([CHR 0xD1, CHR 0x91, CHR 0xD0, CHR 0xB2, CHR 0xD0, CHR 0xB0]) \<or> has_suffix (convertToFemaleSurname n) ([CHR 0xD0, CHR 0xB8, CHR 0xD0, CHR 0xBD, CHR 0xD0, CHR 0xB0])
         \<or> has_suffix (convertToFemaleSurname n) ([CHR 0xD0, CHR 0xB0, CHR 0xD1, CHR 0x8F])))
   \<and> (\<forall>n \<in> set (maleFirstNames @ femaleFirstNames @ lastNames). n \<noteq> [] \<and> CHR '' '' \<notin> set n)"
  by code_simp

end
