(* ===== verification/Profiles.thy ===== *)
theory Profiles
  imports GoErrors
begin

text \<open>
  The browser profiles of requests and of the captcha solver, \<^verbatim>\<open>profiles.go\<close>: the table of paired headers, the saved
  profile of the captcha solver and its rotation. The encoder, the random source, the joining of paths and the file
  system are the record \<open>profile_env\<close>.
\<close>

record Profile =
  pr_UserAgent :: string
  pr_SecChUa :: string
  pr_SecChUaMobile :: string
  pr_SecChUaPlatform :: string

record SavedProfile =
  sp_Profile :: Profile
  sp_DeviceJSON :: string
  sp_BrowserFp :: string

definition profileList :: "Profile list" where
  "profileList =
     [\<lparr>pr_UserAgent = ''Mozilla/5.0 (Windows NT 10.0; Win64; x64) AppleWebKit/537.36 (KHTML, like Gecko) Chrome/146.0.0.0 Safari/537.36'',
       pr_SecChUa = ([CHR 0x22] @ ''Chromium'' @ [CHR 0x22] @ '';v='' @ [CHR 0x22] @ ''146'' @ [CHR 0x22] @ '', '' @ [CHR 0x22] @ ''Not-A.Brand'' @ [CHR 0x22] @ '';v='' @ [CHR 0x22] @ ''24'' @ [CHR 0x22] @ '', '' @ [CHR 0x22] @ ''Google Chrome'' @ [CHR 0x22] @ '';v='' @ [CHR 0x22] @ ''146'' @ [CHR 0x22]),
       pr_SecChUaMobile = ''?0'', pr_SecChUaPlatform = ([CHR 0x22] @ ''Windows'' @ [CHR 0x22])\<rparr>,
      \<lparr>pr_UserAgent = ''Mozilla/5.0 (Windows NT 10.0; Win64; x64) AppleWebKit/537.36 (KHTML, like Gecko) Chrome/145.0.0.0 Safari/537.36'',
       pr_SecChUa = ([CHR 0x22] @ ''Chromium'' @ [CHR 0x22] @ '';v='' @ [CHR 0x22] @ ''145'' @ [CHR 0x22] @ '', '' @ [CHR 0x22] @ ''Not-A.Brand'' @ [CHR 0x22] @ '';v='' @ [CHR 0x22] @ ''99'' @ [CHR 0x22] @ '', '' @ [CHR 0x22] @ ''Google Chrome'' @ [CHR 0x22] @ '';v='' @ [CHR 0x22] @ ''145'' @ [CHR 0x22]),
       pr_SecChUaMobile = ''?0'', pr_SecChUaPlatform = ([CHR 0x22] @ ''Windows'' @ [CHR 0x22])\<rparr>,
      \<lparr>pr_UserAgent = ''Mozilla/5.0 (Windows NT 10.0; Win64; x64) AppleWebKit/537.36 (KHTML, like Gecko) Chrome/144.0.0.0 Safari/537.36'',
       pr_SecChUa = ([CHR 0x22] @ ''Chromium'' @ [CHR 0x22] @ '';v='' @ [CHR 0x22] @ ''144'' @ [CHR 0x22] @ '', '' @ [CHR 0x22] @ ''Not-A.Brand'' @ [CHR 0x22] @ '';v='' @ [CHR 0x22] @ ''8'' @ [CHR 0x22] @ '', '' @ [CHR 0x22] @ ''Google Chrome'' @ [CHR 0x22] @ '';v='' @ [CHR 0x22] @ ''144'' @ [CHR 0x22]),
       pr_SecChUaMobile = ''?0'', pr_SecChUaPlatform = ([CHR 0x22] @ ''Windows'' @ [CHR 0x22])\<rparr>,
      \<lparr>pr_UserAgent = ''Mozilla/5.0 (Windows NT 10.0; Win64; x64) AppleWebKit/537.36 (KHTML, like Gecko) Chrome/146.0.0.0 Safari/537.36 Edg/146.0.0.0'',
       pr_SecChUa = ([CHR 0x22] @ ''Chromium'' @ [CHR 0x22] @ '';v='' @ [CHR 0x22] @ ''146'' @ [CHR 0x22] @ '', '' @ [CHR 0x22] @ ''Not-A.Brand'' @ [CHR 0x22] @ '';v='' @ [CHR 0x22] @ ''24'' @ [CHR 0x22] @ '', '' @ [CHR 0x22] @ ''Microsoft Edge'' @ [CHR 0x22] @ '';v='' @ [CHR 0x22] @ ''146'' @ [CHR 0x22]),
       pr_SecChUaMobile = ''?0'', pr_SecChUaPlatform = ([CHR 0x22] @ ''Windows'' @ [CHR 0x22])\<rparr>,
      \<lparr>pr_UserAgent = ''Mozilla/5.0 (Windows NT 10.0; Win64; x64) AppleWebKit/537.36 (KHTML, like Gecko) Chrome/145.0.0.0 Safari/537.36 Edg/145.0.0.0'',
       pr_SecChUa = ([CHR 0x22] @ ''Chromium'' @ [CHR 0x22] @ '';v='' @ [CHR 0x22] @ ''145'' @ [CHR 0x22] @ '', '' @ [CHR 0x22] @ ''Not-A.Brand'' @ [CHR 0x22] @ '';v='' @ [CHR 0x22] @ ''99'' @ [CHR 0x22] @ '', '' @ [CHR 0x22] @ ''Microsoft Edge'' @ [CHR 0x22] @ '';v='' @ [CHR 0x22] @ ''145'' @ [CHR 0x22]),
       pr_SecChUaMobile = ''?0'', pr_SecChUaPlatform = ([CHR 0x22] @ ''Windows'' @ [CHR 0x22])\<rparr>,
      \<lparr>pr_UserAgent = ''Mozilla/5.0 (Macintosh; Intel Mac OS X 10_15_7) AppleWebKit/537.36 (KHTML, like Gecko) Chrome/146.0.0.0 Safari/537.36'',
       pr_SecChUa = ([CHR 0x22] @ ''Chromium'' @ [CHR 0x22] @ '';v='' @ [CHR 0x22] @ ''146'' @ [CHR 0x22] @ '', '' @ [CHR 0x22] @ ''Not-A.Brand'' @ [CHR 0x22] @ '';v='' @ [CHR 0x22] @ ''24'' @ [CHR 0x22] @ '', '' @ [CHR 0x22] @ ''Google Chrome'' @ [CHR 0x22] @ '';v='' @ [CHR 0x22] @ ''146'' @ [CHR 0x22]),
       pr_SecChUaMobile = ''?0'', pr_SecChUaPlatform = ([CHR 0x22] @ ''macOS'' @ [CHR 0x22])\<rparr>,
      \<lparr>pr_UserAgent = ''Mozilla/5.0 (Macintosh; Intel Mac OS X 10_15_7) AppleWebKit/537.36 (KHTML, like Gecko) Chrome/145.0.0.0 Safari/537.36'',
       pr_SecChUa = ([CHR 0x22] @ ''Chromium'' @ [CHR 0x22] @ '';v='' @ [CHR 0x22] @ ''145'' @ [CHR 0x22] @ '', '' @ [CHR 0x22] @ ''Not-A.Brand'' @ [CHR 0x22] @ '';v='' @ [CHR 0x22] @ ''99'' @ [CHR 0x22] @ '', '' @ [CHR 0x22] @ ''Google Chrome'' @ [CHR 0x22] @ '';v='' @ [CHR 0x22] @ ''145'' @ [CHR 0x22]),
       pr_SecChUaMobile = ''?0'', pr_SecChUaPlatform = ([CHR 0x22] @ ''macOS'' @ [CHR 0x22])\<rparr>,
      \<lparr>pr_UserAgent = ''Mozilla/5.0 (X11; Linux x86_64) AppleWebKit/537.36 (KHTML, like Gecko) Chrome/146.0.0.0 Safari/537.36'',
       pr_SecChUa = ([CHR 0x22] @ ''Chromium'' @ [CHR 0x22] @ '';v='' @ [CHR 0x22] @ ''146'' @ [CHR 0x22] @ '', '' @ [CHR 0x22] @ ''Not-A.Brand'' @ [CHR 0x22] @ '';v='' @ [CHR 0x22] @ ''24'' @ [CHR 0x22] @ '', '' @ [CHR 0x22] @ ''Google Chrome'' @ [CHR 0x22] @ '';v='' @ [CHR 0x22] @ ''146'' @ [CHR 0x22]),
       pr_SecChUaMobile = ''?0'', pr_SecChUaPlatform = ([CHR 0x22] @ ''Linux'' @ [CHR 0x22])\<rparr>,
      \<lparr>pr_UserAgent = ''Mozilla/5.0 (X11; Ubuntu; Linux x86_64) AppleWebKit/537.36 (KHTML, like Gecko) Chrome/144.0.0.0 Safari/537.36'',
       pr_SecChUa = ([CHR 0x22] @ ''Chromium'' @ [CHR 0x22] @ '';v='' @ [CHR 0x22] @ ''144'' @ [CHR 0x22] @ '', '' @ [CHR 0x22] @ ''Not-A.Brand'' @ [CHR 0x22] @ '';v='' @ [CHR 0x22] @ ''8'' @ [CHR 0x22] @ '', '' @ [CHR 0x22] @ ''Google Chrome'' @ [CHR 0x22] @ '';v='' @ [CHR 0x22] @ ''144'' @ [CHR 0x22]),
       pr_SecChUaMobile = ''?0'', pr_SecChUaPlatform = ([CHR 0x22] @ ''Linux'' @ [CHR 0x22])\<rparr>]"

definition getRandomProfile :: "nat \<Rightarrow> Profile" where
  "getRandomProfile r = profileList ! r"

section \<open>Storage\<close>

record profile_env =
  pv_storage :: string
  pv_join :: "string \<Rightarrow> string \<Rightarrow> string"
  pv_mkdir :: "string \<Rightarrow> goerr option"
  pv_write :: "string \<Rightarrow> string \<Rightarrow> goerr option"
  pv_browserFP :: "goerr + string"
  pv_rand :: nat
  pv_device :: string
  pv_marshal :: "SavedProfile \<Rightarrow> goerr + string"

definition profileStorageDirectory :: "profile_env \<Rightarrow> string" where
  "profileStorageDirectory E = trim_space (pv_storage E)"

definition profileStoragePath :: "profile_env \<Rightarrow> string \<Rightarrow> string" where
  "profileStoragePath E name =
     (let dir = profileStorageDirectory E in if dir \<noteq> [] then pv_join E dir name else name)"

definition ensureProfileStorageDirectory :: "profile_env \<Rightarrow> goerr option" where
  "ensureProfileStorageDirectory E =
     (let dir = profileStorageDirectory E in if dir \<noteq> [] then pv_mkdir E dir else None)"

definition profileFile :: string where
  "profileFile = ''vk_profile.json''"

definition captchaBrowserFpFile :: string where
  "captchaBrowserFpFile = ''captcha_browser_fp''"

definition LoadProfileFromDisk :: "profile_env \<Rightarrow> (string \<Rightarrow> goerr + string) \<Rightarrow> (string \<Rightarrow> goerr + SavedProfile) \<Rightarrow> goerr + SavedProfile" where
  "LoadProfileFromDisk E read decode =
     (case read (profileStoragePath E profileFile) of Inl e \<Rightarrow> Inl e | Inr data \<Rightarrow> decode data)"

text \<open>The result, and the files that were written\<close>

definition rotateCaptchaProfile :: "profile_env \<Rightarrow> (goerr + SavedProfile) \<times> (string \<times> string) list" where
  "rotateCaptchaProfile E =
     (case pv_browserFP E of
        Inl e \<Rightarrow> (Inl e, [])
      | Inr fp \<Rightarrow>
          (let sp = \<lparr>sp_Profile = getRandomProfile (pv_rand E), sp_DeviceJSON = pv_device E, sp_BrowserFp = fp\<rparr> in
           case pv_marshal E sp of
             Inl e \<Rightarrow> (Inl e, [])
           | Inr data \<Rightarrow>
               (case ensureProfileStorageDirectory E of
                  Some e \<Rightarrow> (Inl e, [])
                | None \<Rightarrow>
                    (let f1 = (profileStoragePath E profileFile, data);
                         f2 = (profileStoragePath E captchaBrowserFpFile, fp) in
                     case pv_write E (fst f1) (snd f1) of
                       Some e \<Rightarrow> (Inl e, [])
                     | None \<Rightarrow>
                         (case pv_write E (fst f2) (snd f2) of
                            Some e \<Rightarrow> (Inl e, [f1])
                          | None \<Rightarrow> (Inr sp, [f1, f2]))))))"

section \<open>The headers belong together\<close>

definition quoted :: "string \<Rightarrow> string" where
  "quoted s = [CHR 0x22] @ s @ [CHR 0x22]"

definition versions :: "string list" where
  "versions = [''144'', ''145'', ''146'']"

text \<open>The client hints name the version, the brand and the system of the user agent.\<close>

definition paired :: "Profile \<Rightarrow> bool" where
  "paired p \<longleftrightarrow>
     list_ex (\<lambda>v. contains (pr_UserAgent p) (''Chrome/'' @ v @ ''.0.0.0'')
       \<and> contains (pr_SecChUa p) (quoted ''Chromium'' @ '';v='' @ quoted v)
       \<and> contains (pr_SecChUa p)
           (quoted (if contains (pr_UserAgent p) ''Edg/'' then ''Microsoft Edge'' else ''Google Chrome'') @ '';v='' @ quoted v)) versions
     \<and> pr_SecChUaMobile p = ''?0''
     \<and> pr_SecChUaPlatform p =
         quoted (if contains (pr_UserAgent p) ''Windows'' then ''Windows''
                 else if contains (pr_UserAgent p) ''Macintosh'' then ''macOS'' else ''Linux'')"

lemma table_paired: "\<forall>p \<in> set profileList. paired p"
  by code_simp

text \<open>
  Every profile of the table is consistent: the hints of a request agree with its user agent in version, brand and system. A rotation
  that succeeds has written both files, with the profile that it returns, and its fingerprint.
\<close>

theorem profiles_paired:
  "(\<forall>p \<in> set profileList. paired p)
   \<and> (\<forall>sp fs. rotateCaptchaProfile E = (Inr sp, fs) \<and> pv_rand E < length profileList \<longrightarrow>
        paired (sp_Profile sp) \<and> (\<exists>data. pv_marshal E sp = Inr data
          \<and> fs = [(profileStoragePath E profileFile, data), (profileStoragePath E captchaBrowserFpFile, sp_BrowserFp sp)]))"
proof -
  have "rotateCaptchaProfile E = (Inr sp, fs) \<Longrightarrow> sp_Profile sp = profileList ! pv_rand E \<and> (\<exists>data. pv_marshal E sp = Inr data
      \<and> fs = [(profileStoragePath E profileFile, data), (profileStoragePath E captchaBrowserFpFile, sp_BrowserFp sp)])" for sp fs
    by (auto simp: rotateCaptchaProfile_def getRandomProfile_def Let_def split: sum.splits option.splits)
  then show ?thesis
    using table_paired by (metis nth_mem)
qed

end
