(* ===== verification/NetworkChange.thy ===== *)
theory NetworkChange
  imports HttpClients TurnScheduler IosRuntime IosBridge
begin

text \<open>
  What a change of the physical network does, \<^verbatim>\<open>WDTT_NotifyNetworkChange\<close> of \<^verbatim>\<open>ios_bridge.go\<close>: the three parts it calls one
  after another, the registry of HTTP clients, the TURN scheduler and the transport loop of the current generation.
\<close>

section \<open>The handler\<close>

text \<open>
  \<^verbatim>\<open>requestReconnect\<close> without an interruption: the region under the lock, the token for the loop, the cancel function of
  the attempt.
\<close>

definition requestReconnect :: "ios_runtime \<Rightarrow> bool \<times> ios_runtime" where
  "requestReconnect r =
     (if reconnect_refused r then (False, r)
      else (let i = length (ir_callers r) in
            (True, cancel_attempt i (ir_attempt r) (send_wake i (ir_attempt r) (request_region r)))))"

text \<open>The loop of generation \<open>i\<close> is the \<open>i\<close>-th of the list.\<close>

record network_parts =
  nc_clients :: http_clients
  nc_scheduler :: turnScheduler
  nc_bridge :: bridge
  nc_loops :: "ios_runtime list"

definition request_current :: "network_parts \<Rightarrow> network_parts" where
  "request_current s =
     (case br_current (nc_bridge s) of
        None \<Rightarrow> s
      | Some i \<Rightarrow> s\<lparr>nc_loops := (nc_loops s)[i := snd (requestReconnect (nc_loops s ! i))],
                    nc_bridge := (if fst (requestReconnect (nc_loops s ! i))
                                  then on_current cancelAttempt (nc_bridge s) else nc_bridge s)\<rparr>)"

definition WDTT_NotifyNetworkChange :: "network_parts \<Rightarrow> network_parts" where
  "WDTT_NotifyNetworkChange s =
     request_current
       (s\<lparr>nc_clients := RotateVKHttpClients (nc_clients s), nc_scheduler := ts_Reset (nc_scheduler s)\<rparr>)"

section \<open>What it does\<close>

text \<open>The uninterrupted call is three steps of the loop's system, so it keeps what holds of every reachable loop.\<close>

lemma requestReconnect_reach:
  assumes "reach ios_init ios_step r"
  shows "reach ios_init ios_step (snd (requestReconnect r))"
proof (cases "reconnect_refused r")
  case True
  then show ?thesis
    using assms by (simp add: requestReconnect_def)
next
  case False
  let ?i = "length (ir_callers r)" and ?a = "ir_attempt r"
  have "reach ios_init ios_step (request_region r)"
    using assms by (rule reach.reach_step) (rule is_request)
  then have "reach ios_init ios_step (send_wake ?i ?a (request_region r))"
    by (rule reach.reach_step) (rule is_wake, use False in \<open>simp_all add: request_region_def\<close>)
  then have "reach ios_init ios_step (cancel_attempt ?i ?a (send_wake ?i ?a (request_region r)))"
    by (rule reach.reach_step) (rule is_cancel, use False in \<open>simp_all add: request_region_def send_wake_def\<close>)
  then show ?thesis
    using False by (simp add: requestReconnect_def Let_def)
qed

lemma reset_clean:
  assumes "(k, l) \<in> set (ts_endpoints (ts_Reset s))"
  shows "(k, l) \<in> set (ts_endpoints s) \<and> ep_active (ts_heap s l) > 0
    \<and> ts_heap (ts_Reset s) l = reset_state (ts_heap s l)"
  using assms by (force simp: ts_Reset_def signalLocked_def in_use_def image_iff)

text \<open>
  A change of the network forgets what was learned on the old one: no HTTP client is left to be reused, only endpoints
  with a handshake in progress stay in the scheduler, without failures and pauses, and waiting goroutines are woken. A
  transport that runs is cancelled and the loop finds the request and a token that ends its pause, unless the last
  request was less than 1.5 seconds ago or the tunnel is stopped. Other generations are not touched.
\<close>

theorem network_change_restarts:
  assumes "br_current (nc_bridge s) = Some i" "i < length (nc_loops s)" "reach ios_init ios_step (nc_loops s ! i)"
  defines "r \<equiv> nc_loops s ! i" and "r' \<equiv> nc_loops (WDTT_NotifyNetworkChange s) ! i"
  shows "hc_active (nc_clients (WDTT_NotifyNetworkChange s)) = []
    \<and> (\<forall>(k, l) \<in> set (ts_endpoints (nc_scheduler (WDTT_NotifyNetworkChange s))).
         ep_active (ts_heap (nc_scheduler s) l) > 0
         \<and> ts_heap (nc_scheduler (WDTT_NotifyNetworkChange s)) l = reset_state (ts_heap (nc_scheduler s) l))
    \<and> ts_notify (nc_scheduler (WDTT_NotifyNetworkChange s)) = Suc (ts_notify (nc_scheduler s))
    \<and> reach ios_init ios_step r'
    \<and> (\<forall>j. j \<noteq> i \<longrightarrow> nc_loops (WDTT_NotifyNetworkChange s) ! j = nc_loops s ! j)
    \<and> (if reconnect_refused r then r' = r
       else ir_reconnectRequested r' \<and> ir_reconnectWake r' \<and> (ir_phase r = LoopRuns \<longrightarrow> ir_attemptCanceled r'))"
proof -
  have r': "r' = snd (requestReconnect r)"
    using assms by (simp add: WDTT_NotifyNetworkChange_def request_current_def)
  have sched: "nc_scheduler (WDTT_NotifyNetworkChange s) = ts_Reset (nc_scheduler s)"
    and clients: "nc_clients (WDTT_NotifyNetworkChange s) = RotateVKHttpClients (nc_clients s)"
    and loops: "nc_loops (WDTT_NotifyNetworkChange s) = (nc_loops s)[i := snd (requestReconnect r)]"
    using assms(1) by (simp_all add: WDTT_NotifyNetworkChange_def request_current_def r_def)
  have "reach ios_init ios_step r'"
    using requestReconnect_reach [OF assms(3)] by (simp add: r' r_def)
  moreover have "if reconnect_refused r then r' = r
      else ir_reconnectRequested r' \<and> ir_reconnectWake r' \<and> (ir_phase r = LoopRuns \<longrightarrow> ir_attemptCanceled r')"
    by (simp add: r' requestReconnect_def Let_def cancel_attempt_def send_wake_def request_region_def)
  moreover have "ts_notify (ts_Reset (nc_scheduler s)) = Suc (ts_notify (nc_scheduler s))"
    by (simp add: ts_Reset_def signalLocked_def)
  ultimately show ?thesis
    using reset_clean by (auto simp: sched clients loops RotateVKHttpClients_def)
qed

end
