(* ===== verification/SliderCursor.thy ===== *)
theory SliderCursor
  imports VkReplies
begin

text \<open>
  The path of the cursor that goes with an answer to a tile puzzle, \<^verbatim>\<open>buildSliderCursorV2\<close> of \<^verbatim>\<open>captcha_v2_slider.go\<close>: some
  points at the start, an arc, an approach, and points at the target. Random numbers come from \<open>cu_rand\<close>
  in the order of the calls. The two expressions that are computed with \<^verbatim>\<open>float64\<close> and rounded are the fields \<open>cu_bezier\<close> and
  \<open>cu_lerp\<close>; \<open>floats_close\<close> says how near they are to the exact values, which are written out.
\<close>

section \<open>The code\<close>

record 'w cursor_env =
  cu_rand :: "nat \<Rightarrow> 'w \<Rightarrow> nat \<times> 'w"
  cu_bezier :: "int \<Rightarrow> int \<Rightarrow> int \<Rightarrow> nat \<Rightarrow> nat \<Rightarrow> int"    \<comment> \<open>start, offset, target, step, steps\<close>
  cu_lerp :: "int \<Rightarrow> nat \<Rightarrow> nat \<Rightarrow> int"                  \<comment> \<open>distance, step, steps\<close>

type_synonym point = "int \<times> int"

text \<open>\<^verbatim>\<open>mathrand.Intn(n) + d\<close>\<close>

definition draw :: "'w cursor_env \<Rightarrow> nat \<Rightarrow> int \<Rightarrow> 'w \<Rightarrow> int \<times> 'w" where
  "draw CE n d w = (case cu_rand CE n w of (r, w') \<Rightarrow> (int r + d, w'))"

definition draw_point :: "'w cursor_env \<Rightarrow> nat \<Rightarrow> int \<Rightarrow> int \<Rightarrow> int \<Rightarrow> 'w \<Rightarrow> point \<times> 'w" where
  "draw_point CE n d x y w =
     (case draw CE n d w of (a, w1) \<Rightarrow> case draw CE n d w1 of (b, w2) \<Rightarrow> ((x + a, y + b), w2))"

fun draw_points :: "('i \<Rightarrow> 'w \<Rightarrow> point \<times> 'w) \<Rightarrow> 'i list \<Rightarrow> 'w \<Rightarrow> point list \<times> 'w" where
  "draw_points f [] w = ([], w)"
| "draw_points f (i # is) w =
     (case f i w of (p, w1) \<Rightarrow> case draw_points f is w1 of (ps, w2) \<Rightarrow> (p # ps, w2))"

text \<open>The condition of the first loop draws a new bound before every turn.\<close>

partial_function (option) start_points ::
  "'w cursor_env \<Rightarrow> int \<Rightarrow> int \<Rightarrow> nat \<Rightarrow> 'w \<Rightarrow> (point list \<times> 'w) option"
where
  "start_points CE x y i w =
     (case cu_rand CE 3 w of (r, w1) \<Rightarrow>
        if i < 1 + r then
          (case draw_point CE 5 (-2) x y w1 of (p, w2) \<Rightarrow>
             Option.bind (start_points CE x y (i + 1) w2) (\<lambda>(ps, w3). Some (p # ps, w3)))
        else Some ([], w1))"

definition base_target :: "int \<Rightarrow> int \<Rightarrow> int" where
  "base_target index count = 734 + (937 - 734) * (index - 1) div max 1 (count - 1)"

definition transit_jitter :: "nat \<Rightarrow> nat \<Rightarrow> nat" where
  "transit_jitter i steps = nat \<lfloor>(1 - of_nat i / of_nat (steps + 1) :: rat) * 8\<rfloor> + 2"

definition transit_point ::
  "'w cursor_env \<Rightarrow> point \<Rightarrow> point \<Rightarrow> point \<Rightarrow> nat \<Rightarrow> nat \<Rightarrow> 'w \<Rightarrow> point \<times> 'w"
where
  "transit_point CE start off target steps i w =
     (let j = transit_jitter i steps in
      draw_point CE (j * 2 + 1) (- int j)
        (cu_bezier CE (fst start) (fst off) (fst target) i steps)
        (cu_bezier CE (snd start) (snd off) (snd target) i steps) w)"

definition approach_point :: "'w cursor_env \<Rightarrow> point \<Rightarrow> point \<Rightarrow> nat \<Rightarrow> nat \<Rightarrow> 'w \<Rightarrow> point \<times> 'w" where
  "approach_point CE prev target steps i w =
     draw_point CE 5 (-2) (fst prev + cu_lerp CE (fst target - fst prev) i steps)
       (snd prev + cu_lerp CE (snd target - snd prev) i steps) w"

text \<open>Everything after the first points\<close>

definition cursor_rest :: "'w cursor_env \<Rightarrow> point \<Rightarrow> point \<Rightarrow> point list \<Rightarrow> 'w \<Rightarrow> point list \<times> 'w" where
  "cursor_rest CE start target ps w =
     (case cu_rand CE 3 w of (r, w1) \<Rightarrow>
      case draw CE 60 (-30) w1 of (ax, w2) \<Rightarrow>
      case cu_rand CE 30 w2 of (ay, w3) \<Rightarrow>
      case draw_points (transit_point CE start (ax, - (int ay + 10)) target (2 + r)) [1..<Suc (2 + r)] w3 of (ts, w4) \<Rightarrow>
      case cu_rand CE 4 w4 of (a, w5) \<Rightarrow>
      case draw_points (approach_point CE (last (ps @ ts)) target (4 + a)) [1..<Suc (4 + a)] w5 of (as, w6) \<Rightarrow>
      case cu_rand CE 5 w6 of (s, w7) \<Rightarrow>
      case draw_points (\<lambda>i. draw_point CE 7 (-3) (fst target) (snd target)) [0..<3 + s] w7 of (ss, w8) \<Rightarrow>
        (ps @ ts @ as @ ss, w8))"

definition cursor_points :: "'w cursor_env \<Rightarrow> int \<Rightarrow> int \<Rightarrow> 'w \<Rightarrow> (point list \<times> 'w) option" where
  "cursor_points CE index count w =
     (case draw CE 40 570 w of (sx, w1) \<Rightarrow>
      case draw CE 30 875 w1 of (sy, w2) \<Rightarrow>
      case draw CE 10 (base_target index count - 5) w2 of (tx, w3) \<Rightarrow>
      case draw CE 14 655 w3 of (ty, w4) \<Rightarrow>
      (case start_points CE sx sy 0 w4 of
         None \<Rightarrow> None
       | Some (ps, w5) \<Rightarrow> Some (cursor_rest CE (sx, sy) (tx, ty) ps w5)))"

definition point_json :: "point \<Rightarrow> string" where
  "point_json p = ''{'' @ json_string ''x'' @ '':'' @ itoa (fst p) @ '','' @ json_string ''y'' @ '':'' @ itoa (snd p) @ ''}''"

definition buildSliderCursorV2 :: "'w cursor_env \<Rightarrow> int \<Rightarrow> int \<Rightarrow> 'w \<Rightarrow> (string \<times> 'w) option" where
  "buildSliderCursorV2 CE candidateIndex candidateCount w =
     (if candidateCount \<le> 0 then Some (''[]'', w)
      else
        (case cursor_points CE (min (max 1 candidateIndex) candidateCount) candidateCount w of
           None \<Rightarrow> None
         | Some (ps, w') \<Rightarrow> Some (''['' @ join '','' (map point_json ps) @ '']'', w')))"

section \<open>The path\<close>

text \<open>\<^verbatim>\<open>Intn(n)\<close> is below \<open>n\<close>.\<close>

definition rand_in_range :: "'w cursor_env \<Rightarrow> bool" where
  "rand_in_range CE \<longleftrightarrow> (\<forall>n w. 0 < n \<longrightarrow> fst (cu_rand CE n w) < n)"

definition bezier_exact :: "int \<Rightarrow> int \<Rightarrow> int \<Rightarrow> nat \<Rightarrow> nat \<Rightarrow> rat" where
  "bezier_exact start off target i steps =
     (let t = of_nat i / of_nat (steps + 1); c = of_int (start + target) / 2 + of_int off in
      (1 - t) * (1 - t) * of_int start + 2 * t * (1 - t) * c + t * t * of_int target)"

text \<open>Rounding to an integer, and less than a thousandth for the errors of the floating-point operations\<close>

definition floats_close :: "'w cursor_env \<Rightarrow> bool" where
  "floats_close CE \<longleftrightarrow>
     (\<forall>start off target i steps.
        \<bar>of_int (cu_bezier CE start off target i steps) - bezier_exact start off target i steps\<bar> \<le> 1 / 2 + 1 / 1000)
     \<and> (\<forall>d i steps. \<bar>of_int (cu_lerp CE d i steps) - of_nat i / of_nat steps * (of_int d :: rat)\<bar> \<le> 1 / 2 + 1 / 1000)"

lemma base_target_range:
  assumes "1 \<le> index" "index \<le> count"
  shows "734 \<le> base_target index count \<and> base_target index count \<le> 937"
proof -
  have "203 * (index - 1) \<le> 203 * max 1 (count - 1)"
    using assms by (simp add: max_def)
  then have "203 * (index - 1) div max 1 (count - 1) \<le> 203"
    using zdiv_mono1 [of "203 * (index - 1)" "203 * max 1 (count - 1)" "max 1 (count - 1)"] by simp
  moreover have "0 \<le> 203 * (index - 1) div max 1 (count - 1)"
    using assms by (intro pos_imp_zdiv_nonneg_iff [THEN iffD2]) auto
  ultimately show ?thesis
    by (simp add: base_target_def)
qed

lemma base_target_mono: "index \<le> index' \<Longrightarrow> base_target index count \<le> base_target index' count"
  by (auto simp: base_target_def intro!: zdiv_mono1)

lemma draw_range:
  assumes "rand_in_range CE" "0 < n" "draw CE n d w = (x, w')"
  shows "d \<le> x \<and> x < d + int n"
  using assms by (auto simp: draw_def rand_in_range_def split: prod.splits) (metis fst_conv of_nat_less_iff)

lemma draw_point_range:
  assumes "rand_in_range CE" "0 < n" "draw_point CE n d x y w = (p, w')"
  shows "d \<le> fst p - x \<and> fst p - x < d + int n \<and> d \<le> snd p - y \<and> snd p - y < d + int n"
  using assms(3) draw_range [OF assms(1,2), of d] by (fastforce simp: draw_point_def split: prod.splits)

lemma draw_points_length: "draw_points f is w = (ps, w') \<Longrightarrow> length ps = length is"
  by (induction "is" arbitrary: w ps w') (auto split: prod.splits)

lemma draw_points_all:
  assumes "\<And>i w p w'. i \<in> set is \<Longrightarrow> f i w = (p, w') \<Longrightarrow> P p" "draw_points f is w = (ps, w')"
  shows "\<forall>p \<in> set ps. P p"
  using assms
proof (induction "is" arbitrary: w ps w')
  case (Cons i "is")
  obtain p w1 qs where p: "f i w = (p, w1)" "draw_points f is w1 = (qs, w')" "ps = p # qs"
    using Cons.prems(2) by (auto split: prod.splits)
  have "P p" if "j \<in> set is" "f j w = (p, w')" for j w p w'
    using Cons.prems(1) [of j w p w'] that by simp
  then have "\<forall>p \<in> set qs. P p"
    by (rule Cons.IH [OF _ p(2)])
  then show ?case
    using Cons.prems(1) [OF _ p(1)] p(3) by simp
qed simp

lemma draw_points_last:
  "draw_points f (is @ [i]) w = (ps, w') \<Longrightarrow> \<exists>qs p v. ps = qs @ [p] \<and> f i v = (p, w')"
  by (induction "is" arbitrary: w ps w') (fastforce split: prod.splits)+

text \<open>The first loop draws at most three points, so it ends.\<close>

lemma start_points_end:
  assumes "rand_in_range CE" "i \<le> 3"
  shows "\<exists>ps w'. start_points CE x y i w = Some (ps, w') \<and> length ps \<le> 3 - i \<and> (i = 0 \<longrightarrow> ps \<noteq> [])"
  using assms(2)
proof (induction "3 - i" arbitrary: i w)
  case 0
  obtain r w1 where r: "cu_rand CE 3 w = (r, w1)"
    by fastforce
  then have "r < 3"
    using assms(1) by (auto simp: rand_in_range_def dest: spec [where x = 3] split: prod.splits) (metis fst_conv zero_less_numeral)
  then show ?case
    using 0 r by (subst start_points.simps) simp
next
  case (Suc k)
  obtain r w1 where r: "cu_rand CE 3 w = (r, w1)"
    by fastforce
  obtain p w2 where p: "draw_point CE 5 (-2) x y w1 = (p, w2)"
    by fastforce
  obtain ps w3 where "start_points CE x y (i + 1) w2 = Some (ps, w3)" "length ps \<le> 3 - (i + 1)"
    using Suc.hyps(1) [of "i + 1" w2] Suc.hyps(2) Suc.prems by fastforce
  then show ?case
    using r p Suc.hyps(2) by (subst start_points.simps) auto
qed

text \<open>The last point of the approach is computed with the factor 1.\<close>

lemma lerp_end:
  assumes "floats_close CE" "0 < n"
  shows "cu_lerp CE d n n = d"
proof -
  have "\<bar>of_int (cu_lerp CE d n n) - of_nat n / of_nat n * (of_int d :: rat)\<bar> \<le> 1 / 2 + 1 / 1000"
    using assms(1) unfolding floats_close_def by blast
  then have "\<bar>of_int (cu_lerp CE d n n - d) :: rat\<bar> < 1"
    using assms(2) by simp
  then have "\<bar>cu_lerp CE d n n - d\<bar> < 1"
    by (metis of_int_abs of_int_less_1_iff)
  then show ?thesis
    by simp
qed

text \<open>Where the points after the first ones are: their number, and the end at the target\<close>

lemma cursor_rest_shape:
  assumes "rand_in_range CE" "floats_close CE" "cursor_rest CE start target ps w = (qs, w')"
  shows "\<exists>ts as ss. qs = ps @ ts @ as @ ss \<and> length ts \<in> {2 .. 4} \<and> length as \<in> {4 .. 7} \<and> length ss \<in> {3 .. 7}
     \<and> (\<forall>p \<in> set (last as # ss). \<bar>fst p - fst target\<bar> \<le> 3 \<and> \<bar>snd p - snd target\<bar> \<le> 3)"
proof -
  obtain r w1 where 1: "cu_rand CE 3 w = (r, w1)" by fastforce
  obtain ax w2 where 2: "draw CE 60 (-30) w1 = (ax, w2)" by fastforce
  obtain ay w3 where 3: "cu_rand CE 30 w2 = (ay, w3)" by fastforce
  obtain ts w4 where 4: "draw_points (transit_point CE start (ax, - (int ay + 10)) target (2 + r)) [1..<Suc (2 + r)] w3 = (ts, w4)"
    by fastforce
  obtain a w5 where 5: "cu_rand CE 4 w4 = (a, w5)" by fastforce
  obtain as w6 where 6: "draw_points (approach_point CE (last (ps @ ts)) target (4 + a)) [1..<Suc (4 + a)] w5 = (as, w6)"
    by fastforce
  obtain s w7 where 7: "cu_rand CE 5 w6 = (s, w7)" by fastforce
  obtain ss w8 where 8: "draw_points (\<lambda>i. draw_point CE 7 (-3) (fst target) (snd target)) [0..<3 + s] w7 = (ss, w8)"
    by fastforce
  have qs: "qs = ps @ ts @ as @ ss"
    using assms(3) 1 2 3 4 5 6 7 8 by (simp add: cursor_rest_def del: upt_Suc)
  have rs: "r < 3" "a < 4" "s < 5"
    using assms(1) 1 5 7 unfolding rand_in_range_def by (metis fst_conv zero_less_numeral)+
  have "length ts = 2 + r" "length as = 4 + a" "length ss = 3 + s"
    using draw_points_length [OF 4] draw_points_length [OF 6] draw_points_length [OF 8] by simp_all
  then have lengths: "length ts \<in> {2 .. 4}" "length as \<in> {4 .. 7}" "length ss \<in> {3 .. 7}"
    using rs by simp_all
  have "\<forall>p \<in> set ss. \<bar>fst p - fst target\<bar> \<le> 3 \<and> \<bar>snd p - snd target\<bar> \<le> 3"
    by (rule draw_points_all [OF _ 8]) (auto dest!: draw_point_range [OF assms(1), rotated])
  moreover have "[1..<Suc (4 + a)] = [1..<4 + a] @ [4 + a]"
    by (rule upt_Suc_append) simp
  then obtain bs p v where p: "as = bs @ [p]" "approach_point CE (last (ps @ ts)) target (4 + a) (4 + a) v = (p, w6)"
    using draw_points_last [of "approach_point CE (last (ps @ ts)) target (4 + a)" "[1..<4 + a]" "4 + a" w5 as w6] 6
    by (metis (no_types))
  then have "\<bar>fst p - fst target\<bar> \<le> 3 \<and> \<bar>snd p - snd target\<bar> \<le> 3"
    using draw_point_range [OF assms(1) _ p(2) [unfolded approach_point_def]] lerp_end [OF assms(2), of "4 + a"]
    by (simp add: abs_le_iff)
  ultimately show ?thesis
    using qs lengths p(1) by (intro exI [of _ ts] exI [of _ as] exI [of _ ss]) simp
qed

text \<open>
  C37. The path of the cursor is well formed for every candidate and all random numbers: the loop with the changing bound ends; the
  path has between 10 and 21 points, which fit in the capacity of 28; its last four points are within 3
  points of a target that is at most 5 away from the place of the candidate, which is between 734 and 937, whatever
  index is asked for. With no candidates the path is empty.
\<close>

theorem cursor_path:
  assumes "rand_in_range CE" "floats_close CE"
  shows "(count \<le> 0 \<longrightarrow> buildSliderCursorV2 CE index count w = Some (''[]'', w))
     \<and> (count > 0 \<longrightarrow>
          (\<exists>ps w' place. cursor_points CE (min (max 1 index) count) count w = Some (ps, w')
             \<and> buildSliderCursorV2 CE index count w = Some (''['' @ join '','' (map point_json ps) @ '']'', w')
             \<and> length ps \<in> {10 .. 21} \<and> place = base_target (min (max 1 index) count) count \<and> place \<in> {734 .. 937}
             \<and> (\<forall>p \<in> set (drop (length ps - 4) ps). \<bar>fst p - place\<bar> \<le> 8 \<and> snd p \<in> {652 .. 671})))"
proof (cases "count \<le> 0")
  case False
  let ?i = "min (max 1 index) count" and ?b = "base_target (min (max 1 index) count) count"
  obtain sx w1 where 1: "draw CE 40 570 w = (sx, w1)" by fastforce
  obtain sy w2 where 2: "draw CE 30 875 w1 = (sy, w2)" by fastforce
  obtain tx w3 where 3: "draw CE 10 (?b - 5) w2 = (tx, w3)" by fastforce
  obtain ty w4 where 4: "draw CE 14 655 w3 = (ty, w4)" by fastforce
  obtain qs w5 where 5: "start_points CE sx sy 0 w4 = Some (qs, w5)" "length qs \<le> 3" "qs \<noteq> []"
    using start_points_end [OF assms(1), of 0 sx sy w4] by auto
  obtain ps w6 where 6: "cursor_rest CE (sx, sy) (tx, ty) qs w5 = (ps, w6)" by fastforce
  obtain ts as ss where ps: "ps = qs @ ts @ as @ ss" "length ts \<in> {2 .. 4}" "length as \<in> {4 .. 7}" "length ss \<in> {3 .. 7}"
      and near: "\<forall>p \<in> set (last as # ss). \<bar>fst p - tx\<bar> \<le> 3 \<and> \<bar>snd p - ty\<bar> \<le> 3"
    using cursor_rest_shape [OF assms 6] by auto
  have path: "cursor_points CE ?i count w = Some (ps, w6)"
    using 1 2 3 4 5(1) 6 by (simp add: cursor_points_def)
  have "length qs \<ge> 1"
    using 5(3) by (cases qs) auto
  then have len: "length ps \<in> {10 .. 21}"
    using ps 5(2) by auto
  have t: "\<bar>tx - ?b\<bar> \<le> 5" "ty \<in> {655 .. 668}"
    using draw_range [OF assms(1) _ 3] draw_range [OF assms(1) _ 4] by auto
  have "as = butlast as @ [last as]"
    using ps(3) by (cases as rule: rev_cases) auto
  then have "ps = (qs @ ts @ butlast as) @ (last as # ss)"
    using ps(1) by (metis append.assoc append_Cons append_Nil)
  then obtain xs where whole: "ps = xs @ (last as # ss)"
    by blast
  then have "length ps - 4 = length xs + (length ss - 3)"
    using ps(4) by simp
  then have "drop (length ps - 4) ps = drop (length ss - 3) (last as # ss)"
    using whole by simp
  then have "set (drop (length ps - 4) ps) \<subseteq> set (last as # ss)"
    by (metis set_drop_subset)
  then have "\<bar>fst p - ?b\<bar> \<le> 8 \<and> snd p \<in> {652 .. 671}" if "p \<in> set (drop (length ps - 4) ps)" for p
  proof -
    have "\<bar>fst p - tx\<bar> \<le> 3" "\<bar>snd p - ty\<bar> \<le> 3"
      using near that \<open>set (drop (length ps - 4) ps) \<subseteq> set (last as # ss)\<close> by blast+
    then show ?thesis
      using t unfolding atLeastAtMost_iff by linarith
  qed
  moreover have "?b \<in> {734 .. 937}"
    using base_target_range [of ?i count] False by simp
  ultimately show ?thesis
    using False path len by (auto simp: buildSliderCursorV2_def)
qed (simp add: buildSliderCursorV2_def)

section \<open>Witness\<close>

definition demo_cursor :: "nat cursor_env" where
  "demo_cursor =
     \<lparr>cu_rand = (\<lambda>n w. (w mod n, w + 1)),
      cu_bezier = (\<lambda>start off target i steps. \<lfloor>bezier_exact start off target i steps + 1 / 2\<rfloor>),
      cu_lerp = (\<lambda>d i steps. \<lfloor>of_nat i / of_nat steps * (of_int d :: rat) + 1 / 2\<rfloor>)\<rparr>"

lemma floor_close: "\<bar>of_int \<lfloor>x + 1 / 2\<rfloor> - x\<bar> \<le> 1 / 2 + 1 / (1000 :: rat)"
  using floor_correct [of "x + 1 / 2"] by linarith

theorem cursor_path_witness:
  "\<exists>ps w'. cursor_points demo_cursor 2 5 7 = Some (ps, w') \<and> length ps \<in> {10 .. 21}
     \<and> (\<forall>p \<in> set (drop (length ps - 4) ps). \<bar>fst p - 784\<bar> \<le> 8)"
proof -
  have "rand_in_range demo_cursor" "floats_close demo_cursor"
    using floor_close by (simp_all add: rand_in_range_def floats_close_def demo_cursor_def)
  moreover have "base_target 2 5 = 784"
    by code_simp
  ultimately show ?thesis
    using cursor_path [of demo_cursor 5 2 7] by auto
qed

end
