(* ===== verification/SliderScore.thy ===== *)
theory SliderScore
  imports CaptchaSlider Complex_Main
begin

text \<open>
  The scores of an arrangement of a tile puzzle by colour, \<^verbatim>\<open>seamScoreRGBTextV2\<close> of \<^verbatim>\<open>captcha_v2_slider.go\<close>: the difference of the
  colours along the seams, and the difference of the blue parts, weighted by the distance from the three lines where
  the text is. The code computes the weights with \<^verbatim>\<open>float64\<close>; here they are real numbers.
\<close>

section \<open>The code\<close>

definition text_centers :: "rectangle \<Rightarrow> real list" where
  "text_centers b =
     (let y0 = real_of_int (re_y0 b); height = real_of_int (rect_dy b) in
      [y0 + 2 / 10 * height, y0 + 5 / 10 * height, y0 + 8 / 10 * height])"

definition text_sigma :: "rectangle \<Rightarrow> real" where
  "text_sigma b = (let sigma = real_of_int (rect_dy b) * (14 / 100) in if sigma < 1 then 1 else sigma)"

text \<open>The distance to the nearest line, in the order of the loop\<close>

definition nearest_center :: "rectangle \<Rightarrow> int \<Rightarrow> real" where
  "nearest_center b y =
     fold (\<lambda>c best. let d = \<bar>real_of_int y - c\<bar> in if d < best then d else best)
       (tl (text_centers b)) \<bar>real_of_int y - hd (text_centers b)\<bar>"

definition text_weight :: "rectangle \<Rightarrow> int \<Rightarrow> real" where
  "text_weight b y =
     (let best = nearest_center b y; sigma = text_sigma b in 1 + 3 * exp (- (best * best) / (2 * sigma * sigma)))"

definition blue_diff :: "nat \<times> nat \<times> nat \<Rightarrow> nat \<times> nat \<times> nat \<Rightarrow> int" where
  "blue_diff p q = \<bar>int (drop_bit 8 (snd (snd p))) - int (drop_bit 8 (snd (snd q)))\<bar>"

definition text_vertical :: "slider_image \<Rightarrow> int \<Rightarrow> int list \<Rightarrow> int \<Rightarrow> int \<Rightarrow> real" where
  "text_vertical img gridSize mapping row col =
     (let b = si_bounds img; leftIdx = row * gridSize + col; rightIdx = leftIdx + 1;
          leftDst = sliderTileRect b gridSize leftIdx; rightDst = sliderTileRect b gridSize rightIdx;
          leftSrc = sliderTileRect b gridSize (mapping ! nat leftIdx);
          rightSrc = sliderTileRect b gridSize (mapping ! nat rightIdx)
      in \<Sum>y \<leftarrow> int_range (min (rect_dy leftDst) (rect_dy rightDst)).
           text_weight b (re_y0 leftDst + y)
           * real_of_int (blue_diff (sampleColorMappedV2 img leftDst leftSrc (re_x1 leftDst - 1) (re_y0 leftDst + y))
                            (sampleColorMappedV2 img rightDst rightSrc (re_x0 rightDst) (re_y0 leftDst + y))))"

definition text_horizontal :: "slider_image \<Rightarrow> int \<Rightarrow> int list \<Rightarrow> int \<Rightarrow> int \<Rightarrow> real" where
  "text_horizontal img gridSize mapping row col =
     (let b = si_bounds img; topIdx = row * gridSize + col; bottomIdx = (row + 1) * gridSize + col;
          topDst = sliderTileRect b gridSize topIdx; bottomDst = sliderTileRect b gridSize bottomIdx;
          topSrc = sliderTileRect b gridSize (mapping ! nat topIdx);
          bottomSrc = sliderTileRect b gridSize (mapping ! nat bottomIdx)
      in \<Sum>x \<leftarrow> int_range (min (rect_dx topDst) (rect_dx bottomDst)).
           65 / 100
           * real_of_int (blue_diff (sampleColorMappedV2 img topDst topSrc (re_x0 topDst + x) (re_y1 topDst - 1))
                            (sampleColorMappedV2 img bottomDst bottomSrc (re_x0 topDst + x) (re_y0 bottomDst))))"

text \<open>The two values; the first is \<open>seamScoreRGBV2\<close>\<close>

definition seamScoreRGBTextV2 :: "slider_image \<Rightarrow> int \<Rightarrow> int list \<Rightarrow> int \<times> real" where
  "seamScoreRGBTextV2 img gridSize mapping =
     (seamScoreRGBV2 img gridSize mapping,
      (\<Sum>row \<leftarrow> int_range gridSize. \<Sum>col \<leftarrow> int_range (gridSize - 1). text_vertical img gridSize mapping row col)
      + (\<Sum>row \<leftarrow> int_range (gridSize - 1). \<Sum>col \<leftarrow> int_range gridSize. text_horizontal img gridSize mapping row col))"

section \<open>The weights\<close>

lemma text_weight_range: "1 < text_weight b y \<and> text_weight b y \<le> 4"
proof -
  have "0 < text_sigma b"
    by (simp add: text_sigma_def Let_def)
  then have "- (nearest_center b y * nearest_center b y) / (2 * text_sigma b * text_sigma b) \<le> 0"
    by (simp add: divide_nonpos_pos)
  then show ?thesis
    by (simp add: text_weight_def Let_def)
qed

text \<open>On a line the weight is the greatest.\<close>

lemma text_weight_center: "real_of_int y \<in> set (text_centers b) \<Longrightarrow> text_weight b y = 4"
proof -
  assume "real_of_int y \<in> set (text_centers b)"
  then have "nearest_center b y = 0"
    by (auto simp: nearest_center_def text_centers_def Let_def)
  then show ?thesis
    by (simp add: text_weight_def)
qed

section \<open>The scores\<close>

lemma of_int_sum_list: "real_of_int (\<Sum>x \<leftarrow> xs. f x) = (\<Sum>x \<leftarrow> xs. real_of_int (f x))"
  by (induction xs) simp_all

text \<open>A weighted sum is between the sums with the least and the greatest weight.\<close>

lemma weighted_sum:
  fixes f :: "'a \<Rightarrow> real"
  assumes "\<And>x. x \<in> set xs \<Longrightarrow> 0 \<le> g x \<and> f x \<in> {lo * g x .. hi * g x}"
  shows "(\<Sum>x \<leftarrow> xs. f x) \<in> {lo * (\<Sum>x \<leftarrow> xs. g x) .. hi * (\<Sum>x \<leftarrow> xs. g x)} \<and> 0 \<le> (\<Sum>x \<leftarrow> xs. g x)"
  using assms by (induction xs) (auto simp: distrib_left intro: add_mono)

definition blue_score :: "slider_image \<Rightarrow> int \<Rightarrow> int list \<Rightarrow> int" where
  "blue_score img gridSize mapping = seam_score (sampleColorMappedV2 img) blue_diff (si_bounds img) gridSize mapping"

lemma blue_le_pixel: "0 \<le> blue_diff p q \<and> blue_diff p q \<le> pixelDiff p q"
  by (cases p; cases q) (auto simp: blue_diff_def pixelDiff_def)

lemma blue_le_rgb: "blue_score img gridSize mapping \<le> seamScoreRGBV2 img gridSize mapping"
  unfolding blue_score_def seamScoreRGBV2_def seam_score_def vertical_seam_def horizontal_seam_def Let_def
  by (intro add_mono sum_list_mono) (simp_all add: blue_le_pixel)

lemma text_vertical_range:
  "text_vertical img gridSize mapping row col
     \<in> {65 / 100 * real_of_int (vertical_seam (sampleColorMappedV2 img) blue_diff (si_bounds img) gridSize mapping row col)
        .. 4 * real_of_int (vertical_seam (sampleColorMappedV2 img) blue_diff (si_bounds img) gridSize mapping row col)}
   \<and> 0 \<le> real_of_int (vertical_seam (sampleColorMappedV2 img) blue_diff (si_bounds img) gridSize mapping row col)"
proof -
  have "65 / 100 * r \<le> text_weight b y * r \<and> text_weight b y * r \<le> 4 * r" if "0 \<le> r" for b y r
    using text_weight_range [of b y] that by (intro conjI mult_right_mono) auto
  then show ?thesis
    unfolding text_vertical_def vertical_seam_def Let_def of_int_sum_list
    by (intro weighted_sum) (simp add: blue_le_pixel)
qed

lemma text_horizontal_range:
  "text_horizontal img gridSize mapping row col
     \<in> {65 / 100 * real_of_int (horizontal_seam (sampleColorMappedV2 img) blue_diff (si_bounds img) gridSize mapping row col)
        .. 4 * real_of_int (horizontal_seam (sampleColorMappedV2 img) blue_diff (si_bounds img) gridSize mapping row col)}
   \<and> 0 \<le> real_of_int (horizontal_seam (sampleColorMappedV2 img) blue_diff (si_bounds img) gridSize mapping row col)"
  unfolding text_horizontal_def horizontal_seam_def Let_def of_int_sum_list
  by (intro weighted_sum) (simp add: blue_le_pixel)

lemma nested_range:
  assumes "\<And>r c. f r c \<in> {65 / 100 * real_of_int (g r c) .. 4 * real_of_int (g r c)} \<and> 0 \<le> real_of_int (g r c)"
  shows "(\<Sum>r \<leftarrow> rs. \<Sum>c \<leftarrow> cs. f r c)
      \<in> {65 / 100 * real_of_int (\<Sum>r \<leftarrow> rs. \<Sum>c \<leftarrow> cs. g r c) .. 4 * real_of_int (\<Sum>r \<leftarrow> rs. \<Sum>c \<leftarrow> cs. g r c)}"
proof -
  have "(\<Sum>c \<leftarrow> cs. f r c) \<in> {65 / 100 * (\<Sum>c \<leftarrow> cs. real_of_int (g r c)) .. 4 * (\<Sum>c \<leftarrow> cs. real_of_int (g r c))}
      \<and> 0 \<le> (\<Sum>c \<leftarrow> cs. real_of_int (g r c))" for r
    using assms by (intro weighted_sum) auto
  then show ?thesis
    unfolding of_int_sum_list by (intro conjunct1 [OF weighted_sum]) blast
qed

text \<open>
  The weighted score is never far from the plain one: it is between 0.65 and 4 times the difference of the blue parts along the
  seams, which is at most the difference of the colours. So an arrangement whose seams match has both scores 0, and the
  weights only order arrangements that differ along the seams. A row on a text line weighs 4, no row less than 1.
\<close>

theorem text_score_bounds:
  "snd (seamScoreRGBTextV2 img gridSize mapping)
     \<in> {65 / 100 * real_of_int (blue_score img gridSize mapping) .. 4 * real_of_int (blue_score img gridSize mapping)}
   \<and> snd (seamScoreRGBTextV2 img gridSize mapping) \<le> 4 * real_of_int (fst (seamScoreRGBTextV2 img gridSize mapping))
   \<and> (fst (seamScoreRGBTextV2 img gridSize mapping) = 0 \<longrightarrow> snd (seamScoreRGBTextV2 img gridSize mapping) = 0)"
proof -
  let ?b = "blue_score img gridSize mapping" and ?t = "snd (seamScoreRGBTextV2 img gridSize mapping)"
  have sum: "x + y \<in> {65 / 100 * real_of_int (i + j) .. 4 * real_of_int (i + j)}"
    if "x \<in> {65 / 100 * real_of_int i .. 4 * real_of_int i}" "y \<in> {65 / 100 * real_of_int j .. 4 * real_of_int j}" for x y i j
    using that by auto
  have t: "?t \<in> {65 / 100 * real_of_int ?b .. 4 * real_of_int ?b}"
    unfolding seamScoreRGBTextV2_def snd_conv blue_score_def seam_score_def
    by (intro sum nested_range text_vertical_range text_horizontal_range)
  have "0 \<le> ?b"
    unfolding blue_score_def seam_score_def vertical_seam_def horizontal_seam_def Let_def
    by (intro add_nonneg_nonneg sum_list_nonneg) (auto simp: blue_le_pixel intro!: sum_list_nonneg)
  moreover have "?b \<le> fst (seamScoreRGBTextV2 img gridSize mapping)"
    by (simp add: seamScoreRGBTextV2_def blue_le_rgb)
  ultimately show ?thesis
    using t by auto
qed

text \<open>
  The ranking of \<^verbatim>\<open>rankSliderGuessesV2\<close> with the scores of the code: what \<open>CaptchaSlider\<close> proves for any scores holds for these.
\<close>

definition rank_by_code :: "slider_image \<Rightarrow> int \<Rightarrow> int list \<Rightarrow> int list \<Rightarrow> goerr + real sliderGuessV2 list" where
  "rank_by_code img gridSize = rankSliderGuessesV2 (\<lambda>mapping. snd (seamScoreRGBTextV2 img gridSize mapping)) img gridSize"

end
