(* ===== verification/CaptchaIdentity.thy ===== *)
theory CaptchaIdentity
  imports VkReplies Profiles "HOL-Library.AList" "HOL-Library.Multiset"
begin

text \<open>
  The identity of an attempt of the captcha solver, in \<^verbatim>\<open>captcha_v2.go\<close>: every attempt takes another browser profile, a new
  fingerprint and a varied description of the device, and its requests carry the headers of the profile. Random numbers, the
  JSON decoder and the formatting of floating-point numbers are the record \<open>identity_env\<close>; a panic of Go is the result \<open>None\<close>.
\<close>

section \<open>The description of the device\<close>

record 'w identity_env =
  ie_rand :: "nat \<Rightarrow> 'w \<Rightarrow> nat \<times> 'w"
  ie_browserFP :: "'w \<Rightarrow> (goerr + string) \<times> 'w"
  ie_decode :: "string \<Rightarrow> goerr + jmap option"    \<comment> \<open>\<^verbatim>\<open>null\<close> gives the map that is nil\<close>
  ie_fmt :: "rat \<Rightarrow> string"

definition captchaV2DeviceInfo :: jmap where
  "captchaV2DeviceInfo =
     [(''screenWidth'', JNum 1920), (''screenHeight'', JNum 1080), (''screenAvailWidth'', JNum 1920),
      (''screenAvailHeight'', JNum 1080), (''innerWidth'', JNum 1920), (''innerHeight'', JNum 951),
      (''devicePixelRatio'', JNum 1), (''language'', JStr ''en-US''), (''languages'', JArr [JStr ''en-US'', JStr ''en'']),
      (''webdriver'', JBool False), (''hardwareConcurrency'', JNum 8), (''notificationsPermission'', JStr ''denied'')]"

text \<open>The text of the constant has the keys in this order.\<close>

definition device_info_text :: string where
  "device_info_text =
     ''{'' @ join '','' (map (\<lambda>(k, j). json_string k @ '':'' @ marshal (\<lambda>x. []) j) captchaV2DeviceInfo) @ ''}''"

definition captchaV2DeviceJSON :: "SavedProfile option \<Rightarrow> string" where
  "captchaV2DeviceJSON saved =
     (case saved of
        Some sp \<Rightarrow> if trim_space (sp_DeviceJSON sp) \<noteq> [] then sp_DeviceJSON sp else device_info_text
      | None \<Rightarrow> device_info_text)"

definition jitterInt :: "'w identity_env \<Rightarrow> string \<times> nat \<Rightarrow> jmap \<times> 'w \<Rightarrow> jmap \<times> 'w" where
  "jitterInt IE kd s =
     (case (kd, s) of ((key, delta), (m, w)) \<Rightarrow>
        (case as_num (jget m key) of
           None \<Rightarrow> (m, w)
         | Some v \<Rightarrow>
             (case ie_rand IE (delta * 2 + 1) w of (r, w') \<Rightarrow>
                (let n = go_int v + int r - int delta in
                 (AList.update key (JNum (of_int (if n < 320 then 320 else n))) m, w')))))"

definition dimensions :: "(string \<times> nat) list" where
  "dimensions =
     [(''screenWidth'', 18), (''screenHeight'', 24), (''screenAvailWidth'', 18), (''screenAvailHeight'', 24),
      (''innerWidth'', 18), (''innerHeight'', 20)]"

definition pixel_ratios :: "rat list" where
  "pixel_ratios = [1, 5 / 4, 3 / 2, 2, 5 / 2, 3]"

text \<open>The value that is stored: one that is a number stays in a third of the cases\<close>

definition pixel_ratio :: "'w identity_env \<Rightarrow> jmap \<Rightarrow> 'w \<Rightarrow> rat \<times> 'w" where
  "pixel_ratio IE m w =
     (case as_num (jget m ''devicePixelRatio'') of
        None \<Rightarrow> (case ie_rand IE 6 w of (r, w1) \<Rightarrow> (pixel_ratios ! r, w1))
      | Some dpr \<Rightarrow>
          (case ie_rand IE 3 w of (k, w1) \<Rightarrow>
             if k = 0 then (dpr, w1) else (case ie_rand IE 6 w1 of (r, w2) \<Rightarrow> (pixel_ratios ! r, w2))))"

definition languages :: "string list list" where
  "languages = [[''ru-RU'', ''ru'', ''en-US''], [''ru-RU'', ''ru''], [''en-US'', ''en'', ''ru-RU'']]"

definition permissions :: "string list" where
  "permissions = [''default'', ''denied'', ''granted'']"

definition varied_map :: "'w identity_env \<Rightarrow> jmap \<Rightarrow> 'w \<Rightarrow> jmap \<times> 'w" where
  "varied_map IE m w =
     (case fold (jitterInt IE) dimensions (m, w) of (m1, w1) \<Rightarrow>
      case pixel_ratio IE m1 w1 of (dpr, w2) \<Rightarrow>
      case ie_rand IE 5 w2 of (hc, w3) \<Rightarrow>
      case ie_rand IE 3 w3 of (l, w4) \<Rightarrow>
      case ie_rand IE 3 w4 of (p, w5) \<Rightarrow>
        (AList.update ''notificationsPermission'' (JStr (permissions ! p))
           (AList.update ''languages'' (JArr (map JStr (languages ! l)))
             (AList.update ''language'' (JStr (hd (languages ! l)))
               (AList.update ''hardwareConcurrency'' (JNum (of_nat (4 + hc)))
                 (AList.update ''devicePixelRatio'' (JNum dpr) m1)))), w5))"

text \<open>
  A text that is no object stays as it is. The text \<^verbatim>\<open>null\<close> is decoded without an error into a nil map, and the first
  assignment to it panics.
\<close>

definition captchaV2VariedDeviceJSON :: "'w identity_env \<Rightarrow> string \<Rightarrow> 'w \<Rightarrow> (string \<times> 'w) option" where
  "captchaV2VariedDeviceJSON IE base w =
     (case ie_decode IE base of
        Inl e \<Rightarrow> Some (base, w)
      | Inr None \<Rightarrow> None
      | Inr (Some m) \<Rightarrow> (case varied_map IE m w of (m', w') \<Rightarrow> Some (marshal (ie_fmt IE) (JObj m'), w')))"

section \<open>The identity of the session\<close>

text \<open>
  \<open>id_base\<close> is the profile the caller passed; the session points to the same profile, so it changes it, and makes
  one of its own, \<open>id_own\<close>, when the caller has none.
\<close>

record identity =
  id_profile :: Profile
  id_base :: "SavedProfile option"
  id_own :: "SavedProfile option"
  id_variedDeviceJSON :: string

definition savedProfile :: "identity \<Rightarrow> SavedProfile option" where
  "savedProfile s = (case id_base s of Some sp \<Rightarrow> Some sp | None \<Rightarrow> id_own s)"

definition no_profile :: SavedProfile where
  "no_profile =
     \<lparr>sp_Profile = \<lparr>pr_UserAgent = [], pr_SecChUa = [], pr_SecChUaMobile = [], pr_SecChUaPlatform = []\<rparr>,
      sp_DeviceJSON = [], sp_BrowserFp = []\<rparr>"

definition save_identity :: "string \<Rightarrow> identity \<Rightarrow> identity" where
  "save_identity fp s =
     (let sp = (case savedProfile s of Some sp \<Rightarrow> sp | None \<Rightarrow> no_profile);
          sp' = sp\<lparr>sp_Profile := id_profile s, sp_BrowserFp := fp\<rparr> in
      if id_base s = None then s\<lparr>id_own := Some sp'\<rparr> else s\<lparr>id_base := Some sp'\<rparr>)"

definition rotateCaptchaV2Identity :: "'w identity_env \<Rightarrow> identity \<Rightarrow> 'w \<Rightarrow> (identity \<times> 'w) option" where
  "rotateCaptchaV2Identity IE s w =
     (case ie_rand IE (length profileList) w of (r, w1) \<Rightarrow>
        let s1 = s\<lparr>id_profile := getRandomProfile r\<rparr> in
        (case ie_browserFP IE w1 of
           (Inl e, w2) \<Rightarrow> Some (s1, w2)
         | (Inr fp, w2) \<Rightarrow>
             (let s2 = save_identity fp s1 in
              (case captchaV2VariedDeviceJSON IE (captchaV2DeviceJSON (id_base s2)) w2 of
                 None \<Rightarrow> None
               | Some (d, w3) \<Rightarrow> Some (s2\<lparr>id_variedDeviceJSON := d\<rparr>, w3)))))"

definition deviceJSON :: "identity \<Rightarrow> string" where
  "deviceJSON s =
     (if trim_space (id_variedDeviceJSON s) \<noteq> [] then id_variedDeviceJSON s else captchaV2DeviceJSON (savedProfile s))"

definition truncateUA :: "string \<Rightarrow> string" where
  "truncateUA ua = (if length ua \<le> 48 then ua else take 48 ua @ ''...'')"

fun rotations :: "'w identity_env \<Rightarrow> nat \<Rightarrow> identity \<Rightarrow> 'w \<Rightarrow> (identity \<times> 'w) option" where
  "rotations IE 0 s w = Some (s, w)"
| "rotations IE (Suc n) s w =
     (case rotations IE n s w of None \<Rightarrow> None | Some (s', w') \<Rightarrow> rotateCaptchaV2Identity IE s' w')"

text \<open>\<open>query\<close> is \<^verbatim>\<open>url.Parse\<close> with \<^verbatim>\<open>Query().Get\<close>.\<close>

definition captchaDomainFromRedirectURI :: "(string \<Rightarrow> (string \<Rightarrow> string) option) \<Rightarrow> string \<Rightarrow> string" where
  "captchaDomainFromRedirectURI query uri =
     (case query uri of
        None \<Rightarrow> ''vk.com''
      | Some get \<Rightarrow> (let domain = trim_space (get ''domain'') in if domain = [] then ''vk.com'' else domain))"

section \<open>Headers\<close>

definition captchaV2AcceptLanguage :: "Profile \<Rightarrow> string" where
  "captchaV2AcceptLanguage p =
     (if contains (pr_SecChUaMobile p) ''?1'' then ''ru-RU,ru;q=0.9,en-US;q=0.8,en;q=0.7'' else ''en-US,en;q=0.9'')"

text \<open>\<^verbatim>\<open>Header.Set\<close>; \<open>canon\<close> gives the name under which a header is stored.\<close>

definition header_set :: "(string \<Rightarrow> string) \<Rightarrow> string \<times> string \<Rightarrow> (string \<times> string) list \<Rightarrow> (string \<times> string) list" where
  "header_set canon kv h = AList.update (canon (fst kv)) (snd kv) h"

definition profile_headers :: "Profile \<Rightarrow> (string \<times> string) list" where
  "profile_headers p =
     [(''User-Agent'', pr_UserAgent p), (''sec-ch-ua'', pr_SecChUa p), (''sec-ch-ua-mobile'', pr_SecChUaMobile p),
      (''sec-ch-ua-platform'', pr_SecChUaPlatform p), (''Accept-Language'', captchaV2AcceptLanguage p), (''DNT'', ''1'')]"

definition applyBrowserProfileFhttp ::
  "(string \<Rightarrow> string) \<Rightarrow> Profile \<Rightarrow> (string \<times> string) list \<Rightarrow> (string \<times> string) list"
where
  "applyBrowserProfileFhttp canon p h = fold (header_set canon) (profile_headers p) h"

definition default_headers :: "bool \<Rightarrow> (string \<times> string) list" where
  "default_headers form =
     [(''Accept'', ''*/*''), (''Sec-Fetch-Site'', ''same-site''), (''Sec-Fetch-Mode'', ''cors''), (''Sec-Fetch-Dest'', ''empty''),
      (''Origin'', ''https://vk.com''), (''Referer'', ''https://vk.com/'')]
     @ (if form then [(''Content-Type'', ''application/x-www-form-urlencoded'')] else [])"

text \<open>The headers of \<^verbatim>\<open>doRaw\<close>: those of the profile, the usual ones, then those of the caller, in any order\<close>

definition raw_headers ::
  "(string \<Rightarrow> string) \<Rightarrow> Profile \<Rightarrow> bool \<Rightarrow> (string \<times> string) list \<Rightarrow> (string \<times> string) list"
where
  "raw_headers canon p form extra =
     fold (header_set canon) extra (fold (header_set canon) (default_headers form) (applyBrowserProfileFhttp canon p []))"

section \<open>What an identity is\<close>

definition in_range :: "'w identity_env \<Rightarrow> bool" where
  "in_range IE \<longleftrightarrow> (\<forall>n w. 0 < n \<longrightarrow> fst (ie_rand IE n w) < n)"

text \<open>A number that is at most \<open>delta\<close> away, or 320 when that is less than 320; what is no number stays.\<close>

definition jittered :: "nat \<Rightarrow> json \<Rightarrow> json \<Rightarrow> bool" where
  "jittered delta j j' \<longleftrightarrow>
     (case as_num j of
        None \<Rightarrow> j' = j
      | Some v \<Rightarrow> \<exists>u. \<bar>u - go_int v\<bar> \<le> int delta \<and> j' = JNum (of_int (max 320 u)))"

definition touched :: "string set" where
  "touched = fst ` set dimensions
     \<union> {''devicePixelRatio'', ''hardwareConcurrency'', ''language'', ''languages'', ''notificationsPermission''}"

definition varied_ok :: "jmap \<Rightarrow> jmap \<Rightarrow> bool" where
  "varied_ok m m' \<longleftrightarrow>
     (\<forall>(k, d) \<in> {(''screenWidth'', 18), (''screenHeight'', 24), (''screenAvailWidth'', 18), (''screenAvailHeight'', 24),
        (''innerWidth'', 18), (''innerHeight'', 20)}. jittered d (jget m k) (jget m' k))
     \<and> (\<exists>x. jget m' ''devicePixelRatio'' = JNum x \<and> (x \<in> set pixel_ratios \<or> jget m ''devicePixelRatio'' = JNum x))
     \<and> (\<exists>n \<in> {4 .. 8 :: nat}. jget m' ''hardwareConcurrency'' = JNum (of_nat n))
     \<and> (\<exists>l \<in> set languages. jget m' ''language'' = JStr (hd l) \<and> jget m' ''languages'' = JArr (map JStr l))
     \<and> (\<exists>p \<in> set permissions. jget m' ''notificationsPermission'' = JStr p)
     \<and> (\<forall>k. k \<notin> touched \<longrightarrow> jget m' k = jget m k)"

lemma jget_update [simp]: "jget (AList.update k v m) k' = (if k' = k then v else jget m k')"
  by (simp add: jget_def update_conv')

lemma in_rangeD: "in_range IE \<Longrightarrow> ie_rand IE n w = (r, w') \<Longrightarrow> 0 < n \<Longrightarrow> r < n"
  unfolding in_range_def by (metis fst_conv)

lemma jitter_step:
  assumes "in_range IE" "jitterInt IE (k, d) (m, w) = (m', w')"
  shows "jittered d (jget m k) (jget m' k) \<and> (\<forall>k'. k' \<noteq> k \<longrightarrow> jget m' k' = jget m k')"
proof (cases "as_num (jget m k)")
  case (Some v)
  obtain r w1 where r: "ie_rand IE (d * 2 + 1) w = (r, w1)"
    by fastforce
  then have "r < d * 2 + 1"
    using in_rangeD [OF assms(1)] by simp
  then have "\<bar>go_int v + int r - int d - go_int v\<bar> \<le> int d"
    by simp
  moreover have clamp: "(if n < 320 then 320 else n) = max 320 n" for n :: int
    by simp
  have "m' = AList.update k (JNum (of_int (max 320 (go_int v + int r - int d)))) m"
    using assms(2) Some r by (simp add: jitterInt_def Let_def clamp)
  ultimately show ?thesis
    using Some by (auto simp: jittered_def intro!: exI [of _ "go_int v + int r - int d"])
qed (use assms in \<open>auto simp: jitterInt_def jittered_def\<close>)

lemma jitter_all:
  assumes "in_range IE" "distinct (map fst ks)" "fold (jitterInt IE) ks (m, w) = (m', w')"
  shows "(\<forall>(k, d) \<in> set ks. jittered d (jget m k) (jget m' k)) \<and> (\<forall>k. k \<notin> fst ` set ks \<longrightarrow> jget m' k = jget m k)"
  using assms(2,3)
proof (induction ks arbitrary: m w)
  case (Cons kd ks)
  obtain k d where kd: "kd = (k, d)" by fastforce
  obtain m1 w1 where 1: "jitterInt IE (k, d) (m, w) = (m1, w1)" by fastforce
  have rest: "fold (jitterInt IE) ks (m1, w1) = (m', w')"
    using Cons.prems(2) kd 1 by simp
  note s = jitter_step [OF assms(1) 1] and IH = Cons.IH [OF _ rest]
  have "k \<notin> fst ` set ks"
    using Cons.prems(1) kd by simp
  moreover have "jget m1 k' = jget m k'" if "(k', d') \<in> set ks" for k' d'
    using s \<open>k \<notin> fst ` set ks\<close> that by (metis fst_conv image_eqI)
  ultimately show ?case
    using s IH Cons.prems(1) kd by fastforce
qed simp

lemma pixel_ratio_ok:
  assumes "in_range IE" "pixel_ratio IE m w = (x, w')"
  shows "x \<in> set pixel_ratios \<or> jget m ''devicePixelRatio'' = JNum x"
proof -
  have "pixel_ratios ! r \<in> set pixel_ratios" if "r < 6" for r
    using that by (intro nth_mem) (simp add: pixel_ratios_def)
  moreover have "j = JNum y" if "as_num j = Some y" for j y
    using that by (cases j) auto
  ultimately show ?thesis
    using assms in_rangeD [OF assms(1)]
    by (auto simp: pixel_ratio_def split: option.splits prod.splits if_splits)
qed

lemma varied_map_ok:
  assumes "in_range IE" "varied_map IE m w = (m', w')"
  shows "varied_ok m m'"
proof -
  obtain m1 w1 where 1: "fold (jitterInt IE) dimensions (m, w) = (m1, w1)" by fastforce
  obtain x w2 where 2: "pixel_ratio IE m1 w1 = (x, w2)" by fastforce
  obtain hc w3 where 3: "ie_rand IE 5 w2 = (hc, w3)" by fastforce
  obtain l w4 where 4: "ie_rand IE 3 w3 = (l, w4)" by fastforce
  obtain p w5 where 5: "ie_rand IE 3 w4 = (p, w5)" by fastforce
  have m': "m' = AList.update ''notificationsPermission'' (JStr (permissions ! p))
      (AList.update ''languages'' (JArr (map JStr (languages ! l)))
        (AList.update ''language'' (JStr (hd (languages ! l)))
          (AList.update ''hardwareConcurrency'' (JNum (of_nat (4 + hc))) (AList.update ''devicePixelRatio'' (JNum x) m1))))"
    using assms(2) 1 2 3 4 5 by (simp add: varied_map_def)
  have "distinct (map fst dimensions)"
    by (simp add: dimensions_def)
  note j = jitter_all [OF assms(1) this 1]
  have "l < length languages" "p < length permissions" "4 + hc \<in> {4 .. 8}"
    using in_rangeD [OF assms(1) 4] in_rangeD [OF assms(1) 5] in_rangeD [OF assms(1) 3]
    by (auto simp: languages_def permissions_def)
  then have "languages ! l \<in> set languages" "permissions ! p \<in> set permissions" "4 + hc \<in> {4 .. 8}"
    by simp_all
  moreover have "x \<in> set pixel_ratios \<or> jget m ''devicePixelRatio'' = JNum x"
    using pixel_ratio_ok [OF assms(1) 2] j by (auto simp: dimensions_def)
  moreover have "\<forall>(k, d) \<in> set dimensions. jget m' k = jget m1 k"
    by (auto simp: m' dimensions_def)
  then have "\<forall>(k, d) \<in> set dimensions. jittered d (jget m k) (jget m' k)"
    using j by force
  moreover have "\<forall>k. k \<notin> touched \<longrightarrow> jget m' k = jget m k"
    using j by (auto simp: m' touched_def)
  ultimately show ?thesis
    by (auto simp: varied_ok_def m' dimensions_def intro: bexI [where x = "4 + hc"])
qed

section \<open>Rotation\<close>

lemma device_cong: "map_option sp_DeviceJSON a = map_option sp_DeviceJSON b \<Longrightarrow> captchaV2DeviceJSON a = captchaV2DeviceJSON b"
  by (cases a; cases b) (simp_all add: captchaV2DeviceJSON_def)

lemma save_device: "map_option sp_DeviceJSON (id_base (save_identity fp s)) = map_option sp_DeviceJSON (id_base s)"
  by (cases "id_base s") (simp_all add: save_identity_def savedProfile_def Let_def)

lemma rotate_base:
  assumes "rotateCaptchaV2Identity IE s w = Some (s', w')"
  shows "map_option sp_DeviceJSON (id_base s') = map_option sp_DeviceJSON (id_base s)"
proof -
  obtain r w1 where r: "ie_rand IE (length profileList) w = (r, w1)" by fastforce
  obtain x w2 where x: "ie_browserFP IE w1 = (x, w2)" by fastforce
  show ?thesis
  proof (cases x)
    case (Inl e)
    then show ?thesis
      using assms r x by (auto simp: rotateCaptchaV2Identity_def Let_def)
  next
    case (Inr fp)
    then obtain d where "s' = save_identity fp (s\<lparr>id_profile := getRandomProfile r\<rparr>)\<lparr>id_variedDeviceJSON := d\<rparr>"
      using assms r x by (auto simp: rotateCaptchaV2Identity_def Let_def split: option.splits)
    then show ?thesis
      using save_device [of fp "s\<lparr>id_profile := getRandomProfile r\<rparr>"] by simp
  qed
qed

lemma rotations_base:
  "rotations IE n s w = Some (s', w') \<Longrightarrow> map_option sp_DeviceJSON (id_base s') = map_option sp_DeviceJSON (id_base s)"
  by (induction n arbitrary: s' w') (auto dest!: rotate_base split: option.splits prod.splits)

lemma marshal_object_not_blank: "trim_space (marshal fmt (JObj m)) \<noteq> []"
proof -
  have "\<not> is_space (CHR ''{'')"
    by code_simp
  then show ?thesis
    by (auto simp: trim_space_def trim_with_def dropWhile_eq_Nil_conv)
qed

text \<open>
  C36. The identity of an attempt is consistent, and the variation does not accumulate: after any number of rotations the device is described
  by a variation of the original description, every dimension at most its own bound of 18, 24 or 20 pixels away from the original one
  and, when that would be below 320, raised to 320, with
  languages that agree and all other keys as they were; the headers and the saved profile name the same
  browser, one of the table; and the description that the caller saved is not changed.
\<close>

theorem identity_consistent:
  assumes "in_range IE" "\<forall>w. \<exists>fp. fst (ie_browserFP IE w) = Inr fp" "rotations IE (Suc n) s w = Some (s', w')"
    and "ie_decode IE (captchaV2DeviceJSON (id_base s)) = Inr (Some m)"
  shows "(\<exists>m'. deviceJSON s' = marshal (ie_fmt IE) (JObj m') \<and> varied_ok m m')
     \<and> paired (id_profile s') \<and> map_option sp_Profile (savedProfile s') = Some (id_profile s')
     \<and> map_option sp_DeviceJSON (id_base s') = map_option sp_DeviceJSON (id_base s)"
proof -
  obtain t v where t: "rotations IE n s w = Some (t, v)" "rotateCaptchaV2Identity IE t v = Some (s', w')"
    using assms(3) by (auto split: option.splits)
  obtain r v1 where r: "ie_rand IE (length profileList) v = (r, v1)" by fastforce
  obtain fp v2 where fp: "ie_browserFP IE v1 = (Inr fp, v2)"
    using assms(2) by (metis prod.collapse)
  let ?s = "save_identity fp (t\<lparr>id_profile := getRandomProfile r\<rparr>)"
  obtain m' w3 where m': "varied_map IE m v2 = (m', w3)" by fastforce
  have dev: "captchaV2DeviceJSON (id_base ?s) = captchaV2DeviceJSON (id_base s)"
    by (rule device_cong) (use rotations_base [OF t(1)] save_device in simp)
  have s': "s' = ?s\<lparr>id_variedDeviceJSON := marshal (ie_fmt IE) (JObj m')\<rparr>"
    using t(2) r fp m' dev assms(4)
    by (auto simp: rotateCaptchaV2Identity_def captchaV2VariedDeviceJSON_def Let_def simp del: marshal.simps)
  have "r < length profileList"
    using in_rangeD [OF assms(1) r] by (simp add: profileList_def)
  moreover have "\<forall>p \<in> set profileList. paired p"
    by (rule table_paired)
  ultimately have "paired (id_profile s')"
    by (auto simp: s' save_identity_def getRandomProfile_def Let_def)
  moreover have "map_option sp_Profile (savedProfile s') = Some (id_profile s')"
    by (cases "id_base t") (simp_all add: s' save_identity_def savedProfile_def Let_def)
  moreover have "deviceJSON s' = marshal (ie_fmt IE) (JObj m')"
    using marshal_object_not_blank [of "ie_fmt IE" m'] by (simp add: s' deviceJSON_def del: marshal.simps)
  moreover have "map_option sp_DeviceJSON (id_base s') = map_option sp_DeviceJSON (id_base s)"
    using rotations_base [OF assms(3)] by simp
  ultimately show ?thesis
    using varied_map_ok [OF assms(1) m'] by metis
qed

text \<open>
  A saved description that is the text \<^verbatim>\<open>null\<close> stops the client: the decoder accepts it, and the map is nil.
\<close>

theorem null_device_panics:
  "ie_decode IE (captchaV2DeviceJSON (id_base s)) = Inr None \<Longrightarrow> (\<And>w. \<exists>fp. fst (ie_browserFP IE w) = Inr fp) \<Longrightarrow>
   rotateCaptchaV2Identity IE s w = None"
proof -
  assume null: "ie_decode IE (captchaV2DeviceJSON (id_base s)) = Inr None"
    and fp: "\<And>w. \<exists>fp. fst (ie_browserFP IE w) = Inr fp"
  obtain r w1 where r: "ie_rand IE (length profileList) w = (r, w1)" by fastforce
  obtain f w2 where f: "ie_browserFP IE w1 = (Inr f, w2)"
    using fp by (metis prod.collapse)
  have "captchaV2DeviceJSON (id_base (save_identity f (s\<lparr>id_profile := getRandomProfile r\<rparr>))) = captchaV2DeviceJSON (id_base s)"
    by (rule device_cong) (use save_device [of f "s\<lparr>id_profile := getRandomProfile r\<rparr>"] in simp)
  then show ?thesis
    using null r f by (simp add: rotateCaptchaV2Identity_def captchaV2VariedDeviceJSON_def Let_def)
qed

section \<open>The headers of a request\<close>

definition header_names :: "string set" where
  "header_names = {''User-Agent'', ''sec-ch-ua'', ''sec-ch-ua-mobile'', ''sec-ch-ua-platform'', ''Accept-Language'', ''DNT'',
     ''Accept'', ''Sec-Fetch-Site'', ''Sec-Fetch-Mode'', ''Sec-Fetch-Dest'', ''Origin'', ''Referer'', ''Content-Type''}"

lemma headers_fold:
  "map_of (fold (header_set canon) kvs h) = map_of h ++ map_of (rev (map (\<lambda>(k, v). (canon k, v)) kvs))"
proof (induction kvs arbitrary: h)
  case (Cons kv kvs)
  then show ?case
    by (cases kv) (auto simp: header_set_def update_conv' map_add_def fun_eq_iff split: option.splits)
qed simp

text \<open>
  The headers of a request do not depend on the order in which Go walks through the map of the caller's headers; what
  the caller sets wins over the usual value, and the request names the browser of the profile.
\<close>

theorem raw_headers_determined:
  assumes "inj_on canon (header_names \<union> fst ` set extra)" "distinct (map fst extra)" "mset extra' = mset extra"
  shows "map_of (raw_headers canon p form extra') = map_of (raw_headers canon p form extra)
     \<and> (\<forall>(k, v) \<in> set extra. map_of (raw_headers canon p form extra) (canon k) = Some v)
     \<and> (\<forall>(k, v) \<in> set (profile_headers p @ default_headers form). k \<notin> fst ` set extra \<longrightarrow>
          map_of (raw_headers canon p form extra) (canon k) = Some v)"
proof -
  let ?c = "map (\<lambda>(k, v). (canon k, v))"
  let ?all = "profile_headers p @ default_headers form"
  have names: "fst ` set ?all \<subseteq> header_names" "distinct (map fst ?all)"
    by (auto simp: profile_headers_def default_headers_def header_names_def)
  have all: "map_of (raw_headers canon p form x) = map_of (rev (?c ?all)) ++ map_of (rev (?c x))" for x
    by (simp add: raw_headers_def applyBrowserProfileFhttp_def headers_fold map_add_assoc)
  have keys: "distinct (map fst (rev (?c x)))" if "inj_on canon (fst ` set x)" "distinct (map fst x)" for x :: "(string \<times> string) list"
  proof -
    have "map fst (?c x) = map canon (map fst x)"
      by auto
    then show ?thesis
      using that by (simp add: rev_map [symmetric] distinct_map del: map_map)
  qed
  have same: "set extra' = set extra"
    using assms(3) by (metis set_mset_mset)
  have "mset (map fst extra') = mset (map fst extra)"
    using assms(3) by simp
  then have distinct: "distinct (map fst extra')"
    using assms(2) mset_eq_imp_distinct_iff by blast
  have inj: "inj_on canon (fst ` set extra)" "inj_on canon (fst ` set extra')" "inj_on canon (fst ` set ?all)"
    using assms(1) names(1) same by (auto intro: inj_on_subset)
  have "map_of (rev (?c extra')) = map_of (rev (?c extra))"
    using keys inj same distinct assms(2) by (subst map_of_inject_set) auto
  moreover have set_extra: "map_of (rev (?c extra)) (canon k) = Some v" if "(k, v) \<in> set extra" for k v
    using keys [OF inj(1) assms(2)] that by (auto intro!: map_of_is_SomeI)
  moreover have "map_of (rev (?c ?all)) (canon k) = Some v" if "(k, v) \<in> set ?all" for k v
    using keys [OF inj(3) names(2)] that by (force intro!: map_of_is_SomeI)
  moreover have "map_of (rev (?c extra)) (canon k) = None" if "(k, v) \<in> set ?all" "k \<notin> fst ` set extra" for k v
  proof -
    have "k \<in> header_names"
      using names(1) that(1) by (metis fst_conv image_eqI subsetD)
    then have "canon k \<notin> canon ` fst ` set extra"
      using that(2) inj_on_image_mem_iff [OF assms(1), of k "fst ` set extra"] by blast
    then show ?thesis
      by (auto simp: map_of_eq_None_iff image_image case_prod_beta)
  qed
  ultimately have "map_of (raw_headers canon p form extra') = map_of (raw_headers canon p form extra)"
      "\<And>k v. (k, v) \<in> set extra \<Longrightarrow> map_of (raw_headers canon p form extra) (canon k) = Some v"
      "\<And>k v. (k, v) \<in> set ?all \<Longrightarrow> k \<notin> fst ` set extra \<Longrightarrow> map_of (raw_headers canon p form extra) (canon k) = Some v"
    unfolding all map_add_Some_iff by simp_all
  then show ?thesis
    by blast
qed

section \<open>Witness\<close>

definition demo_identity_env :: "nat identity_env" where
  "demo_identity_env =
     \<lparr>ie_rand = (\<lambda>n w. (w mod n, w + 1)), ie_browserFP = (\<lambda>w. (Inr ''fp'', w)),
      ie_decode = (\<lambda>s. Inr (Some captchaV2DeviceInfo)), ie_fmt = (\<lambda>x. ''1.5'')\<rparr>"

definition demo_identity :: identity where
  "demo_identity = \<lparr>id_profile = profileList ! 0, id_base = None, id_own = None, id_variedDeviceJSON = []\<rparr>"

theorem identity_consistent_witness:
  "\<exists>s' w' m'. rotations demo_identity_env (Suc 1) demo_identity 0 = Some (s', w')
     \<and> deviceJSON s' = marshal (ie_fmt demo_identity_env) (JObj m') \<and> varied_ok captchaV2DeviceInfo m' \<and> paired (id_profile s')"
proof -
  have "captchaV2VariedDeviceJSON demo_identity_env base w \<noteq> None" for base w
    by (simp add: captchaV2VariedDeviceJSON_def demo_identity_env_def split: prod.split del: marshal.simps)
  then have some: "rotateCaptchaV2Identity demo_identity_env s w \<noteq> None" for s w
    by (auto simp: rotateCaptchaV2Identity_def Let_def split: prod.split sum.split option.split) (metis option.distinct(1))
  have "\<exists>s' w'. rotations demo_identity_env n demo_identity 0 = Some (s', w')" for n
  proof (induction n)
    case (Suc n)
    then obtain t v where "rotations demo_identity_env n demo_identity 0 = Some (t, v)"
      by blast
    then show ?case
      using some [of t v] by auto
  qed simp
  then obtain s' w' where r: "rotations demo_identity_env (Suc 1) demo_identity 0 = Some (s', w')"
    by blast
  have "in_range demo_identity_env" "\<forall>w. \<exists>fp. fst (ie_browserFP demo_identity_env w) = Inr fp"
      "ie_decode demo_identity_env (captchaV2DeviceJSON (id_base demo_identity)) = Inr (Some captchaV2DeviceInfo)"
    by (simp_all add: in_range_def demo_identity_env_def)
  then show ?thesis
    using identity_consistent [OF _ _ r] r by blast
qed

end
