(* ===== verification/StatsLoop.thy ===== *)
theory StatsLoop
  imports IosMemory IosStats IosBridge VkReplies
begin

text \<open>
  The statistics of the client: the counters and the loop of \<^verbatim>\<open>stats.go\<close>, which logs them every two seconds, and
  \<^verbatim>\<open>publishStats\<close> of \<^verbatim>\<open>stats_publish_ios.go\<close>, which sends them to the application and drives the memory diagnostics (\<^verbatim>\<open>IosMemory\<close>) and
  the zero-worker watchdog (\<^verbatim>\<open>IosStats\<close>). The log line is the record \<open>stats_line\<close> of the values that are printed with two
  digits; off iOS \<^verbatim>\<open>publishStats\<close> does nothing (\<^verbatim>\<open>stats_publish_stub.go\<close>).
\<close>

section \<open>The code\<close>

record Stats =
  sn_TotalBytesUp :: int
  sn_TotalBytesDown :: int
  sn_ActiveConnections :: int

definition NewStats :: Stats where
  "NewStats = \<lparr>sn_TotalBytesUp = 0, sn_TotalBytesDown = 0, sn_ActiveConnections = 0\<rparr>"

definition payload_field :: "string \<Rightarrow> string" where
  "payload_field k = json_string k @ '':''"

text \<open>\<^verbatim>\<open>json.Marshal\<close> of \<^verbatim>\<open>iosLiveStatsPayload\<close>, which cannot fail\<close>

definition stats_payload :: "Stats \<Rightarrow> string" where
  "stats_payload s =
     ''{'' @ payload_field ''activeConnections'' @ itoa (sn_ActiveConnections s)
     @ '','' @ payload_field ''uploadBytes'' @ itoa (sn_TotalBytesUp s)
     @ '','' @ payload_field ''downloadBytes'' @ itoa (sn_TotalBytesDown s) @ ''}''"

text \<open>
  What a tick finds: the counters, the times that the diagnostics and the watchdog read, the sample of the process, and the answer
  of \<^verbatim>\<open>requestReconnect\<close> if the watchdog asks, with the time after it
\<close>

record tick =
  tk_stats :: Stats
  tk_memoryNow :: gotime
  tk_sample :: memory_sample
  tk_call :: stats_call

record ios_published =
  ip_memory :: memory_diag
  ip_watch :: stats_watch

record published =
  po_calls :: "swift_call list"
  po_memory :: memory_report
  po_request :: bool

text \<open>\<open>rt\<close> is the current runtime if there is one that was not stopped.\<close>

definition publishStats :: "bool \<Rightarrow> nat option \<Rightarrow> tick \<Rightarrow> ios_published \<Rightarrow> published \<times> ios_published" where
  "publishStats cb rt t p =
     (case maybeLogIOSMemoryDiagnostics rt (tk_memoryNow t) (tk_sample t) (ip_memory p) of (r, d) \<Rightarrow>
      case (case rt of
              None \<Rightarrow> (ip_watch p, False)
            | Some i \<Rightarrow> watchActiveConnections i (sc_now (tk_call t)) (sn_ActiveConnections (tk_stats t))
                          (sc_accepted (tk_call t)) (sc_later (tk_call t)) (ip_watch p)) of (w, asked) \<Rightarrow>
        (\<lparr>po_calls = iosStats cb (stats_payload (tk_stats t)), po_memory = r, po_request = asked\<rparr>,
         \<lparr>ip_memory = d, ip_watch = w\<rparr>))"

record stats_line =
  sl_active :: int
  sl_downMB :: rat
  sl_upMB :: rat
  sl_totalMB :: rat

definition stats_line_of :: "Stats \<Rightarrow> stats_line" where
  "stats_line_of s =
     (let upMB = of_int (sn_TotalBytesUp s) / (1024 * 1024); downMB = of_int (sn_TotalBytesDown s) / (1024 * 1024) in
      \<lparr>sl_active = sn_ActiveConnections s, sl_downMB = downMB, sl_upMB = upMB, sl_totalMB = upMB + downMB\<rparr>)"

datatype stats_event = StatsTick tick | StatsShutdown

fun RunLoop ::
  "bool \<Rightarrow> nat option \<Rightarrow> stats_event list \<Rightarrow> ios_published \<Rightarrow> (published \<times> stats_line) list \<times> ios_published"
where
  "RunLoop cb rt [] p = ([], p)"
| "RunLoop cb rt (StatsShutdown # evs) p = ([], p)"
| "RunLoop cb rt (StatsTick t # evs) p =
     (case publishStats cb rt t p of (o1, p1) \<Rightarrow>
      case RunLoop cb rt evs p1 of (os, p2) \<Rightarrow> ((o1, stats_line_of (tk_stats t)) # os, p2))"

section \<open>What is published\<close>

fun ticks :: "stats_event list \<Rightarrow> tick list" where
  "ticks (StatsTick t # evs) = t # ticks evs"
| "ticks _ = []"

text \<open>The call of the watchdog at a tick\<close>

definition watch_call :: "tick \<Rightarrow> stats_call" where
  "watch_call t = (tk_call t)\<lparr>sc_active := sn_ActiveConnections (tk_stats t)\<rparr>"

lemma comma_split:
  "CHR '','' \<notin> set a \<Longrightarrow> CHR '','' \<notin> set b \<Longrightarrow> a @ CHR '','' # r = b @ CHR '','' # s \<Longrightarrow> a = b \<and> r = s"
proof (induction a arbitrary: b)
  case Nil
  then show ?case
    by (cases b) auto
next
  case (Cons x a)
  then show ?case
    by (cases b) auto
qed

lemma itoa_no_comma: "CHR '','' \<notin> set (itoa i)"
  using nat_digits_correct [of "nat i"] nat_digits_correct [of "nat (- i)"]
  by (auto simp: itoa_def list_all_iff is_digit_def byte_of_def)

lemma itoa_inj:
  assumes "{i, j} \<subseteq> {- (2 ^ 63) ..< 2 ^ 63}" "itoa i = itoa j"
  shows "i = j"
proof -
  have "atoi (itoa i) = (i, True)" "atoi (itoa j) = (j, True)"
    using assms(1) by (auto intro!: atoi_itoa)
  then show ?thesis
    unfolding assms(2) by (metis prod.inject)
qed

definition counters_ok :: "Stats \<Rightarrow> bool" where
  "counters_ok s \<longleftrightarrow>
     {sn_TotalBytesUp s, sn_TotalBytesDown s, sn_ActiveConnections s} \<subseteq> {- (2 ^ 63) ..< 2 ^ 63}"

lemma stats_payload_inj:
  assumes "counters_ok s" "counters_ok t" "stats_payload s = stats_payload t"
  shows "s = t"
proof -
  have eq: "itoa (sn_ActiveConnections s) @ CHR '','' # (payload_field ''uploadBytes'' @ itoa (sn_TotalBytesUp s)
        @ CHR '','' # (payload_field ''downloadBytes'' @ itoa (sn_TotalBytesDown s) @ ''}''))
      = itoa (sn_ActiveConnections t) @ CHR '','' # (payload_field ''uploadBytes'' @ itoa (sn_TotalBytesUp t)
        @ CHR '','' # (payload_field ''downloadBytes'' @ itoa (sn_TotalBytesDown t) @ ''}''))"
    using assms(3) by (simp add: stats_payload_def)
  note 1 = comma_split [OF itoa_no_comma itoa_no_comma eq]
  then have "itoa (sn_TotalBytesUp s) @ CHR '','' # (payload_field ''downloadBytes'' @ itoa (sn_TotalBytesDown s) @ ''}'')
      = itoa (sn_TotalBytesUp t) @ CHR '','' # (payload_field ''downloadBytes'' @ itoa (sn_TotalBytesDown t) @ ''}'')"
    by simp
  note 2 = comma_split [OF itoa_no_comma itoa_no_comma this]
  then have "itoa (sn_TotalBytesDown s) = itoa (sn_TotalBytesDown t)"
    by simp
  then have "sn_TotalBytesDown s = sn_TotalBytesDown t" "sn_TotalBytesUp s = sn_TotalBytesUp t"
      "sn_ActiveConnections s = sn_ActiveConnections t"
    using itoa_inj [of "sn_TotalBytesDown s" "sn_TotalBytesDown t"] itoa_inj [of "sn_TotalBytesUp s" "sn_TotalBytesUp t"]
      itoa_inj [of "sn_ActiveConnections s" "sn_ActiveConnections t"] 1 2 assms(1,2)
    by (simp_all add: counters_ok_def)
  then show ?thesis
    by simp
qed

lemma run_loop_published:
  "map (po_calls \<circ> fst) (fst (RunLoop cb rt evs p)) = map (\<lambda>t. iosStats cb (stats_payload (tk_stats t))) (ticks evs)"
  by (induction cb rt evs p rule: RunLoop.induct) (auto simp: publishStats_def split: prod.splits)

lemma run_loop_watch:
  assumes "ip_watch p = fst (call_watch i cs)"
  shows "ip_watch (snd (RunLoop cb (Some i) evs p)) = fst (call_watch i (rev (map watch_call (ticks evs)) @ cs))"
  using assms
proof (induction evs arbitrary: p cs)
  case (Cons ev evs)
  show ?case
  proof (cases ev)
    case (StatsTick t)
    obtain o1 p1 where 1: "publishStats cb (Some i) t p = (o1, p1)" by fastforce
    then have "ip_watch p1 = fst (call_watch i (watch_call t # cs))"
      using Cons.prems by (auto simp: publishStats_def watch_call_def split: prod.splits)
    then show ?thesis
      using Cons.IH [of p1 "watch_call t # cs"] StatsTick 1
      by (cases "RunLoop cb (Some i) evs p1") (simp del: call_watch.simps)
  qed (use Cons.prems in simp)
qed simp

text \<open>
  The application gets the true counters: before the shutdown every tick sends exactly one line, in order, nothing after it; two lines are
  equal only if all three counters are, so no digit is lost or moved. And the watchdog sees exactly the numbers that
  are published, so what \<^verbatim>\<open>IosStats\<close> proves of its histories holds in the loop.
\<close>

theorem stats_stream:
  assumes "ip_watch p = new_stats_watch" "\<forall>t \<in> set (ticks evs). counters_ok (tk_stats t)"
  shows "map (po_calls \<circ> fst) (fst (RunLoop True (Some i) evs p)) = map (\<lambda>t. [StatsLine (stats_payload (tk_stats t))]) (ticks evs)
     \<and> inj_on stats_payload (tk_stats ` set (ticks evs))
     \<and> ip_watch (snd (RunLoop True (Some i) evs p)) = fst (call_watch i (rev (map watch_call (ticks evs))))"
proof -
  have "inj_on stats_payload (tk_stats ` set (ticks evs))"
    using assms(2) stats_payload_inj by (auto simp: inj_on_def)
  then show ?thesis
    using run_loop_published [of True "Some i" evs p] run_loop_watch [of p i "[]" True evs] assms(1)
    by (simp add: iosStats_def)
qed

section \<open>Witness\<close>

definition demo_tick :: "int \<Rightarrow> tick" where
  "demo_tick n =
     \<lparr>tk_stats = \<lparr>sn_TotalBytesUp = 10 * n, sn_TotalBytesDown = 7, sn_ActiveConnections = n\<rparr>, tk_memoryNow = n * second,
      tk_sample = \<lparr>ms_footprint = 0, ms_HeapAlloc = 0, ms_HeapObjects = 0, ms_NumGC = 0, ms_up = 0, ms_down = 0\<rparr>,
      tk_call = \<lparr>sc_now = n * second, sc_active = n, sc_accepted = True, sc_later = n * second\<rparr>\<rparr>"

theorem stats_stream_witness:
  "length (fst (RunLoop True (Some 1) [StatsTick (demo_tick 1), StatsTick (demo_tick 2), StatsShutdown, StatsTick (demo_tick 3)]
     \<lparr>ip_memory = fresh_diag None, ip_watch = new_stats_watch\<rparr>)) = 2"
proof -
  let ?evs = "[StatsTick (demo_tick 1), StatsTick (demo_tick 2), StatsShutdown, StatsTick (demo_tick 3)]"
  let ?p = "\<lparr>ip_memory = fresh_diag None, ip_watch = new_stats_watch\<rparr>"
  have "\<forall>t \<in> set (ticks ?evs). counters_ok (tk_stats t)"
    by (simp add: demo_tick_def counters_ok_def)
  then have "map (po_calls \<circ> fst) (fst (RunLoop True (Some 1) ?evs ?p)) = map (\<lambda>t. [StatsLine (stats_payload (tk_stats t))]) (ticks ?evs)"
    using stats_stream [of ?p ?evs 1] by simp
  from arg_cong [OF this, of length] show ?thesis
    by simp
qed

end
