(* ===== verification/LoopRefinement.thy ===== *)
theory LoopRefinement
  imports IosRuntime IosLifecycle
begin

text \<open>
  Two views of the same goroutine. \<^verbatim>\<open>IosRuntime\<close> has the times, pauses and reconnect requests of \<^verbatim>\<open>runTunnelLoop\<close> and takes an attempt as
  one phase; \<^verbatim>\<open>IosBridge\<close> has the attempt with its configuration goroutine and its WireGuard device, and leaves the times
  out. The simulation says that
  every step of a generation is a run of steps of the loop, so that the two views agree on the order of the phases.
\<close>

fun phase_rel :: "main_phase \<Rightarrow> loop_phase \<Rightarrow> bool" where
  "phase_rel MainSetup l \<longleftrightarrow> l = LoopTop"
| "phase_rel MainTop l \<longleftrightarrow> l = LoopTop"
| "phase_rel (MainRun r) l \<longleftrightarrow> l = LoopRuns"
| "phase_rel (MainEnded e) l \<longleftrightarrow> l = LoopEnded (e \<noteq> None)"
| "phase_rel MainPause l \<longleftrightarrow> (case l of LoopWaits d b \<Rightarrow> True | _ \<Rightarrow> False)"
| "phase_rel MainLeft l \<longleftrightarrow> l = LoopDone"
| "phase_rel MainCleared l \<longleftrightarrow> l = LoopDone"
| "phase_rel MainExited l \<longleftrightarrow> l = LoopDone"

definition loop_rel :: "generation \<Rightarrow> ios_runtime \<Rightarrow> bool" where
  "loop_rel g r \<longleftrightarrow> gn_canceled g = ir_canceled r \<and> phase_rel (gn_main g) (ir_phase r)"

lemma conf_keeps_main: "conf_event E ev c g = Some g' \<Longrightarrow> gn_main g' = gn_main g"
  by (erule conf_event_SomeE) (auto simp: gen_updates conf_take_def conf_closed_def conf_stop_def conf_parse_def conf_start_def
      split: if_splits list.splits sum.splits)

lemma run_keeps_running: "run_next r g = Some g' \<Longrightarrow> \<exists>r'. gn_main g' = MainRun r'"
  by (erule run_next_SomeE) (auto simp: gen_updates split: if_splits)

lemma reach_more: "reach init step s \<Longrightarrow> step\<^sup>*\<^sup>* s t \<Longrightarrow> reach init step t"
  by (rotate_tac, induction rule: rtranclp_induct) (auto intro: reach.reach_step)

text \<open>The main goroutine, step by step\<close>

lemma main_simulated:
  assumes "main_event mv (gn_main g) g = Some g'" "loop_rel g r"
  shows "\<exists>r'. ios_step\<^sup>*\<^sup>* r r' \<and> loop_rel g' r'"
proof (cases "gn_main g")
  case MainTop
  then obtain failed where f: "mv = MvTop failed"
      and g': "g' = (if gn_canceled g then g\<lparr>gn_main := MainLeft\<rparr> else begin_attempt failed g)"
    using assms(1) by (cases mv) auto
  have s: "ios_step r (start_attempt r)"
    using assms(2) MainTop by (intro is_start) (simp add: loop_rel_def)
  show ?thesis
  proof (cases "\<not> gn_canceled g \<and> failed \<noteq> None")
    case True
    then have "ios_step (start_attempt r) ((start_attempt r)\<lparr>ir_phase := LoopEnded True\<rparr>)"
      using assms(2) by (intro is_end) (simp add: start_attempt_def loop_rel_def)
    moreover have "loop_rel g' ((start_attempt r)\<lparr>ir_phase := LoopEnded True\<rparr>)"
      using True g' assms(2) by (auto simp: loop_rel_def start_attempt_def begin_attempt_def Let_def)
    ultimately show ?thesis
      using s by (meson converse_rtranclp_into_rtranclp r_into_rtranclp)
  next
    case False
    then have "loop_rel g' (start_attempt r)"
      using g' assms(2) by (auto simp: loop_rel_def start_attempt_def begin_attempt_def setStats_def Let_def)
    then show ?thesis
      using s by blast
  qed
next
  case (MainRun p)
  show ?thesis
  proof (cases mv)
    case MvNext
    then have "run_next p g = Some g'"
      using assms(1) MainRun by simp
    then have "loop_rel g' r"
      using run_keeps_running run_keeps_canceled assms(2) MainRun by (fastforce simp: loop_rel_def)
    then show ?thesis
      by blast
  next
    case (MvReturn active)
    then have "g' = (setStats False g)\<lparr>gn_main := MainEnded (run_result (ctx_done g) active)\<rparr>"
      using assms(1) MainRun by (cases p) auto
    then have "loop_rel g' (r\<lparr>ir_phase := LoopEnded (run_result (ctx_done g) active \<noteq> None)\<rparr>)"
      using assms(2) by (simp add: loop_rel_def setStats_def)
    moreover have "ir_phase r = LoopRuns"
      using assms(2) MainRun by (simp add: loop_rel_def)
    ultimately show ?thesis
      using is_end by blast
  qed (use assms(1) MainRun in simp_all)
next
  case (MainEnded e)
  then have "g' = g\<lparr>gn_main := (if gn_canceled g then MainLeft else MainPause)\<rparr>"
    using assms(1) by (cases mv) auto
  moreover have p: "ir_phase r = LoopEnded (e \<noteq> None)"
    using assms(2) MainEnded by (simp add: loop_rel_def)
  ultimately have "loop_rel g' (choose_pause (e \<noteq> None) r)"
    using assms(2) by (simp add: loop_rel_def choose_pause_def Let_def)
  then show ?thesis
    using is_choose [OF p] by blast
next
  case MainPause
  then obtain d b where p: "ir_phase r = LoopWaits d b"
    using assms(2) by (auto simp: loop_rel_def split: loop_phase.splits)
  show ?thesis
  proof (cases mv)
    case MvNext
    then have "loop_rel g' (r\<lparr>ir_phase := LoopTop\<rparr>)"
      using assms MainPause by (auto simp: loop_rel_def)
    then show ?thesis
      using is_waited [OF p] by blast
  next
    case MvStop
    then have "gn_canceled g" "loop_rel g' (r\<lparr>ir_phase := LoopDone\<rparr>)"
      using assms MainPause by (auto simp: loop_rel_def split: if_splits)
    then show ?thesis
      using is_stopped [OF p] assms(2) by (auto simp: loop_rel_def)
  qed (use assms(1) MainPause in simp_all)
qed (use assms in \<open>cases mv; auto simp: loop_rel_def\<close>)+

lemma generation_simulated:
  assumes "gen_event E ev g = Some g'" "loop_rel g r"
  shows "\<exists>r'. ios_step\<^sup>*\<^sup>* r r' \<and> loop_rel g' r'"
proof (cases ev)
  case EvCancel
  then have "loop_rel g' (r\<lparr>ir_canceled := True\<rparr>)"
    using assms by (auto simp: loop_rel_def cancel_runtime_def)
  then show ?thesis
    using is_stop by blast
next
  case (EvMain mv)
  then show ?thesis
    using assms main_simulated by simp
next
  case (EvConf c)
  then obtain p where p: "gn_main g = MainRun p" "conf_event E c (at_conf (gn_attempt g)) g = Some g'"
    using assms(1) by (auto split: main_phase.splits)
  then have "loop_rel g' r"
    using conf_keeps_main [OF p(2)] conf_keeps_canceled [OF p(2)] assms(2) by (simp add: loop_rel_def)
  then show ?thesis
    by blast
next
  case (EvConfig conf)
  then have "loop_rel g' r"
    using assms by (auto simp: loop_rel_def attempt_upd_def split: if_splits)
  then show ?thesis
    by blast
qed (use assms in \<open>auto simp: loop_rel_def cancelAttempt_def attempt_upd_def activate_wireguard_def kickHealthCheck_def
      split: if_splits\<close>)

text \<open>
  Every generation of a reachable bridge corresponds to a reachable state of the transport loop with the same phase, and
  every further step of the generation is matched by steps of the loop. The relation is on phases and on the cancellation: it does
  not carry times.
\<close>

lemma bridge_refines_loop:
  assumes "reach bridge_init (bridge_step E) b" "g \<in> set (br_gens b)"
  shows "\<exists>r. reach ios_init ios_step r \<and> loop_rel g r
     \<and> (\<forall>ev g'. gen_event E ev g = Some g' \<longrightarrow> (\<exists>r'. ios_step\<^sup>*\<^sup>* r r' \<and> reach ios_init ios_step r' \<and> loop_rel g' r'))"
proof -
  have new: "\<exists>r. reach ios_init ios_step r \<and> loop_rel (new_generation p) r" for p
  proof -
    have "reach ios_init ios_step (newIOSRuntime 1)"
      by (rule reach.reach_init) (auto simp: ios_init_def intro: exI [of _ 1])
    moreover have "loop_rel (new_generation p) (newIOSRuntime 1)"
      by (simp add: loop_rel_def new_generation_def newIOSRuntime_def)
    ultimately show ?thesis
      by blast
  qed
  have "\<forall>g \<in> set (br_gens b). \<exists>r. reach ios_init ios_step r \<and> loop_rel g r"
    using assms(1)
  proof (induction rule: reach.induct)
    case (reach_init b)
    then show ?case
      by (simp add: bridge_init_def empty_bridge_def)
  next
    case (reach_step b b')
    from reach_step.hyps(2) obtain ev where "bridge_event E ev b = Some b'"
      by cases
    then show ?case
    proof (cases ev)
      case (SysStart a)
      then have "b' = snd (WDTT_Start a b)"
        using \<open>bridge_event E ev b = Some b'\<close> by simp
      then have "br_gens b' = br_gens b \<or> (\<exists>p. br_gens b' = br_gens b @ [new_generation p])"
        by (auto simp: WDTT_Start_def start_region_def Let_def split: option.splits if_splits)
      then show ?thesis
        using reach_step.IH new by auto
    next
      case (SysGen i ev')
      then obtain g' where i: "i < length (br_gens b)" "gen_event E ev' (br_gens b ! i) = Some g'" "br_gens b' = (br_gens b)[i := g']"
        using \<open>bridge_event E ev b = Some b'\<close> by (auto split: if_splits option.splits)
      then obtain r where r: "reach ios_init ios_step r" "loop_rel (br_gens b ! i) r"
        using reach_step.IH nth_mem by blast
      obtain r' where "ios_step\<^sup>*\<^sup>* r r'" "loop_rel g' r'"
        using generation_simulated [OF i(2) r(2)] by blast
      then have "\<exists>r. reach ios_init ios_step r \<and> loop_rel g' r"
        using reach_more [OF r(1)] by blast
      moreover have "h = g' \<or> h \<in> set (br_gens b)" if "h \<in> set (br_gens b')" for h
        using that i(3) set_update_subset_insert [of "br_gens b" i g'] by auto
      ultimately show ?thesis
        using reach_step.IH by blast
    qed
  qed
  then obtain r where r: "reach ios_init ios_step r" "loop_rel g r"
    using assms(2) by blast
  have "\<exists>r'. ios_step\<^sup>*\<^sup>* r r' \<and> reach ios_init ios_step r' \<and> loop_rel g' r'" if "gen_event E ev g = Some g'" for ev g'
    using generation_simulated [OF that r(2)] reach_more [OF r(1)] by blast
  then show ?thesis
    using r by blast
qed

end
