(* ===== verification/DohDial.thy ===== *)
theory DohDial
  imports Doh
begin

text \<open>
  How the HTTP client of \<^verbatim>\<open>doh.go\<close> connects to a name server: \<^verbatim>\<open>DialTLSContext\<close> of \<^verbatim>\<open>newDoHHTTPClient\<close>. A server given as an
  address is asked for the certificate of its name. The bootstrap dialer and the TLS handshake are
  functions of a world; the result carries the connections that were opened and closed.
\<close>

record ('u, 'w) doh_dialer =
  dd_urls :: "'u url_view"
  dd_is_ip :: "string \<Rightarrow> bool"
  dd_dial :: "string \<Rightarrow> string \<Rightarrow> 'w \<Rightarrow> (goerr + nat) \<times> 'w"
  dd_handshake :: "nat \<Rightarrow> string \<Rightarrow> 'w \<Rightarrow> goerr option \<times> 'w"

text \<open>\<^verbatim>\<open>newDoHBootstrapDialer\<close> and the client; times in nanoseconds\<close>

record doh_timeouts =
  to_dial :: duration
  to_keepAlive :: duration
  to_client :: duration

definition newDoHHTTPClient :: doh_timeouts where
  "newDoHHTTPClient = \<lparr>to_dial = 5 * second, to_keepAlive = 30 * second, to_client = 10 * second\<rparr>"

definition server_name :: "('u, 'w) doh_dialer \<Rightarrow> string \<Rightarrow> string" where
  "server_name D host =
     (let sni = dohHostHeader (dd_urls D) (dd_is_ip D) (''https://'' @ host @ ''/'') in if sni \<noteq> [] then sni else host)"

datatype dial_event = ConnOpened nat | ConnClosed nat

definition dialTLS ::
  "('u, 'w) doh_dialer \<Rightarrow> string \<Rightarrow> string \<Rightarrow> 'w \<Rightarrow> (goerr + nat \<times> string) \<times> dial_event list \<times> 'w"
where
  "dialTLS D network addr w =
     (case split_host_port addr of
        Inl e \<Rightarrow> (Inl (ErrText e), [], w)
      | Inr (host, port) \<Rightarrow>
          (case dd_dial D network addr w of
             (Inl e, w1) \<Rightarrow> (Inl e, [], w1)
           | (Inr c, w1) \<Rightarrow>
               (case dd_handshake D c (server_name D host) w1 of
                  (Some e, w2) \<Rightarrow> (Inl e, [ConnOpened c, ConnClosed c], w2)
                | (None, w2) \<Rightarrow> (Inr (c, server_name D host), [ConnOpened c], w2))))"

text \<open>The parser of URLs finds the host of a plain address.\<close>

definition finds_host :: "'u url_view \<Rightarrow> string \<Rightarrow> bool" where
  "finds_host U host \<longleftrightarrow> (\<exists>u. uv_parse U (''https://'' @ host @ ''/'') = Some u \<and> uv_hostname U u = host)"

text \<open>
  A connection to a name server that is not handed out is closed, and one that is handed out was verified for a name: the two
  addresses of every built-in provider are verified with the provider's name, and a server given by its name
  with that name, so the address alone is never enough for them.
\<close>

theorem dial_verifies_name:
  assumes "finds_host (dd_urls D) host" "split_host_port addr = Inr (host, port)"
  shows "(case dialTLS D network addr w of
            (Inl e, evs, w') \<Rightarrow> evs = [] \<or> (\<exists>c. evs = [ConnOpened c, ConnClosed c])
          | (Inr (c, name), evs, w') \<Rightarrow> evs = [ConnOpened c] \<and> (\<exists>w1. fst (dd_handshake D c name w1) = None)
              \<and> name = (if dd_is_ip D host \<and> host_header_of host \<noteq> [] then host_header_of host else host))
     \<and> (\<forall>h \<in> {''1.1.1.1'', ''1.0.0.1'', ''8.8.8.8'', ''8.8.4.4'', ''77.88.8.8'', ''77.88.8.1''}. host_header_of h \<noteq> [] \<and> host_header_of h \<noteq> h)"
proof -
  have "server_name D host = (if dd_is_ip D host \<and> host_header_of host \<noteq> [] then host_header_of host else host)"
    using assms(1) by (auto simp: server_name_def dohHostHeader_def finds_host_def Let_def)
  then have "case dialTLS D network addr w of
            (Inl e, evs, w') \<Rightarrow> evs = [] \<or> (\<exists>c. evs = [ConnOpened c, ConnClosed c])
          | (Inr (c, name), evs, w') \<Rightarrow> evs = [ConnOpened c] \<and> (\<exists>w1. fst (dd_handshake D c name w1) = None)
              \<and> name = (if dd_is_ip D host \<and> host_header_of host \<noteq> [] then host_header_of host else host)"
    using assms(2) by (auto simp: dialTLS_def split: sum.split prod.split option.split) (metis fst_conv)+
  moreover have "\<forall>h \<in> {''1.1.1.1'', ''1.0.0.1'', ''8.8.8.8'', ''8.8.4.4'', ''77.88.8.8'', ''77.88.8.1''}.
      host_header_of h \<noteq> [] \<and> host_header_of h \<noteq> h"
    by (simp add: host_header_of_def)
  ultimately show ?thesis
    by blast
qed

section \<open>The cache of ciphers\<close>

text \<open>
  \<^verbatim>\<open>getAEAD\<close> of \<^verbatim>\<open>obfs.go\<close>: the ciphers by key; \<open>new\<close> is the library's constructor.
\<close>

definition getAEAD ::
  "(byte list \<Rightarrow> goerr + 'c) \<Rightarrow> byte list \<Rightarrow> (byte list \<rightharpoonup> 'c) \<Rightarrow> (goerr + 'c) \<times> (byte list \<rightharpoonup> 'c)"
where
  "getAEAD new key cache =
     (if length key \<noteq> wrapKeyLen then (Inl (ErrText (''obfs: key must be '' @ itoa (int wrapKeyLen) @ '' bytes'')), cache)
      else
        (case cache key of
           Some c \<Rightarrow> (Inr c, cache)
         | None \<Rightarrow>
             (case new key of
                Inl e \<Rightarrow> (Inl e, cache)
              | Inr c \<Rightarrow> (Inr c, cache(key \<mapsto> c)))))"

fun get_all :: "(byte list \<Rightarrow> goerr + 'c) \<Rightarrow> byte list list \<Rightarrow> (byte list \<rightharpoonup> 'c) \<Rightarrow> (goerr + 'c) list" where
  "get_all new [] cache = []"
| "get_all new (k # ks) cache = (case getAEAD new k cache of (r, cache') \<Rightarrow> r # get_all new ks cache')"

text \<open>The cache cannot be seen: every call gives what the constructor gives, whatever was asked before.\<close>

lemma cached_all:
  "(\<forall>k c. cache k = Some c \<longrightarrow> new k = Inr c) \<Longrightarrow>
   get_all new keys cache = map (\<lambda>k. fst (getAEAD new k Map.empty)) keys"
proof (induction keys arbitrary: cache)
  case (Cons k keys)
  obtain r cache' where r: "getAEAD new k cache = (r, cache')"
    by fastforce
  then have "\<forall>k c. cache' k = Some c \<longrightarrow> new k = Inr c"
    using Cons.prems by (auto simp: getAEAD_def split: if_splits option.splits sum.splits)
  moreover have "r = fst (getAEAD new k Map.empty)"
    using r Cons.prems by (auto simp: getAEAD_def split: if_splits option.splits sum.splits)
  ultimately show ?case
    using Cons.IH r by simp
qed simp

theorem cipher_cache_transparent: "get_all new keys Map.empty = map (\<lambda>k. fst (getAEAD new k Map.empty)) keys"
  by (rule cached_all) simp

section \<open>Witness\<close>

definition demo_dialer :: "(string, nat) doh_dialer" where
  "demo_dialer =
     \<lparr>dd_urls = \<lparr>uv_parse = (\<lambda>s. Some s), uv_scheme = (\<lambda>u. ''https''), uv_host = (\<lambda>u. u),
                 uv_hostname = (\<lambda>u. butlast (drop 8 u)), uv_path = (\<lambda>u. ''/''), uv_with_path = (\<lambda>p u. u)\<rparr>,
      dd_is_ip = (\<lambda>h. h = ''8.8.8.8''), dd_dial = (\<lambda>n a w. (Inr 5, w)), dd_handshake = (\<lambda>c s w. (None, w))\<rparr>"

theorem dial_verifies_name_witness:
  "fst (dialTLS demo_dialer ''tcp'' ''8.8.8.8:443'' 0) = Inr (5, ''dns.google'')"
proof -
  have "finds_host (dd_urls demo_dialer) ''8.8.8.8''" "split_host_port ''8.8.8.8:443'' = Inr (''8.8.8.8'', ''443'')"
    by (simp add: finds_host_def demo_dialer_def, code_simp)
  note v = dial_verifies_name [OF this, of "''tcp''" 0]
  obtain r evs w' where r: "dialTLS demo_dialer ''tcp'' ''8.8.8.8:443'' 0 = (r, evs, w')"
    by (metis prod.collapse)
  moreover have "\<exists>n. r = Inr (5, n)"
    using r \<open>split_host_port ''8.8.8.8:443'' = Inr (''8.8.8.8'', ''443'')\<close> by (auto simp: dialTLS_def demo_dialer_def)
  ultimately show ?thesis
    using v by (auto simp: demo_dialer_def host_header_of_def)
qed

end
