(* ===== verification/Spec2Isabelle.thy ===== *)
theory Spec2Isabelle
  imports TurnSystem HandshakeOutcome VkFetch ConfigCoordinator Protocol Dispatcher Obfs CacheSystem VkLegacy GroupCreds WorkerLoop
    SessionLoops WorkerGroups IosWatchdog IosRuntime IosStats WgConfig Doh CaptchaSolver
    IosLifecycle CaptchaExchange Startup Ping IosTun HttpClients IosMemory Socks Names Profiles NetworkChange
    SliderCursor SliderScore CaptchaIdentity StatsLoop LoopRefinement DohDial
begin

text \<open>
  The Go client of the repository, \<^verbatim>\<open>src/go_client\<close>: a VPN client that carries WireGuard packets in DTLS sessions
  over TURN servers of VK calls. Many workers keep one session each; a dispatcher spreads the packets over
  them. The credentials of the TURN servers come from VK, which limits requests (flood control) and asks for
  captchas. The model follows the Go code; the Swift application around it is not modelled.

  \<^bold>\<open>How the parts interact.\<close>
  \<^verbatim>\<open>main.go\<close> (on iOS \<^verbatim>\<open>ios_bridge.go\<close>) divides the workers into groups and starts the groups one after another
  (\<^verbatim>\<open>WorkerGroups\<close>). A group gets credentials through its coordinator (\<^verbatim>\<open>GroupCreds\<close>), which reads the cache of its call
  link (\<^verbatim>\<open>CredsCache\<close>, \<^verbatim>\<open>CacheSystem\<close>); a miss makes one fetch, which passes the flood gate and the request lock
  (\<^verbatim>\<open>FloodGate\<close>, \<^verbatim>\<open>VkFetch\<close>) and asks VK on one of three paths: a signed-in account (\<^verbatim>\<open>AccountCreds\<close>), VK Calls
  (\<^verbatim>\<open>VkCalls\<close>), or the legacy chain with captchas (\<^verbatim>\<open>VkLegacy\<close>, \<^verbatim>\<open>CaptchaSolver\<close>, \<^verbatim>\<open>CaptchaSlider\<close>). A worker (\<^verbatim>\<open>WorkerLoop\<close>) runs
  sessions (\<^verbatim>\<open>Session\<close>), each with a permit of the TURN scheduler (\<^verbatim>\<open>TurnScheduler\<close>, \<^verbatim>\<open>TurnPick\<close>, \<^verbatim>\<open>TurnCandidates\<close>,
  \<^verbatim>\<open>TurnSystem\<close>); the outcome of the handshake (\<^verbatim>\<open>HandshakeOutcome\<close>) goes back to the scheduler. In a session, the
  loops of \<^verbatim>\<open>SessionLoops\<close> move packets between the relay, disguised by \<^verbatim>\<open>Obfs\<close>, and the \<^verbatim>\<open>Dispatcher\<close>; one session of
  the process asks the server for the WireGuard configuration (\<^verbatim>\<open>Protocol\<close>, \<^verbatim>\<open>ConfigCoordinator\<close>), which \<^verbatim>\<open>WgConfig\<close> parses.
  On iOS the application starts and stops generations of the tunnel (\<^verbatim>\<open>IosBridge\<close>, \<^verbatim>\<open>IosLifecycle\<close>), and a loop rebuilds the
  transport when the watchdogs or the application ask for it (\<^verbatim>\<open>IosRuntime\<close>, \<^verbatim>\<open>IosWatchdog\<close>, \<^verbatim>\<open>IosStats\<close>, \<^verbatim>\<open>NetworkChange\<close>);
  on the desktop \<^verbatim>\<open>Startup\<close> checks the flags and reads the commands. Captchas the client cannot solve go to the application
  (\<^verbatim>\<open>CaptchaExchange\<close>); decrypted packets leave through the WireGuard device (\<^verbatim>\<open>IosTun\<close>) or the SOCKS5 server (\<^verbatim>\<open>Socks\<close>).
  \<^verbatim>\<open>Doh\<close> resolves the names for the requests.

  \<^bold>\<open>Theories and code.\<close>
  \<^item> \<^verbatim>\<open>Prelude\<close>, \<^verbatim>\<open>GoStrings\<close>, \<^verbatim>\<open>GoErrors\<close>: Go's clock, strings, numbers and errors as the client uses them; counting
    lemmas; reachable states with the interface \<^verbatim>\<open>invariant_system\<close>, which every system of goroutines
    below interprets; the interfaces of a store with a view and of a list of registered elements.
  \<^item> \<^verbatim>\<open>TurnScheduler\<close>, \<^verbatim>\<open>TurnPick\<close>, \<^verbatim>\<open>TurnCandidates\<close> (\<^verbatim>\<open>turn_scheduler.go\<close>): the scheduler with its heap of endpoint
    states, the choice of an endpoint (\<^verbatim>\<open>pickLocked\<close>), the candidates; \<^verbatim>\<open>TurnSystem\<close> is the step relation of
    the goroutines that acquire, wait, are woken, cancel and finish.
  \<^item> \<^verbatim>\<open>HandshakeOutcome\<close> (\<^verbatim>\<open>handshake_classification.go\<close>), \<^verbatim>\<open>ConfigCoordinator\<close>, \<^verbatim>\<open>Dispatcher\<close>, \<^verbatim>\<open>Protocol\<close>,
    \<^verbatim>\<open>Obfs\<close> (with \<^verbatim>\<open>wrap.go\<close>), \<^verbatim>\<open>Doh\<close>: the files of these names; \<^verbatim>\<open>Doh\<close> also has the DNS part of \<^verbatim>\<open>creds.go\<close>.
  \<^item> \<^verbatim>\<open>FloodGate\<close>, \<^verbatim>\<open>VkFetch\<close> (\<^verbatim>\<open>flood_gate.go\<close>, \<^verbatim>\<open>fetchVkCredsSerialized\<close> of \<^verbatim>\<open>creds.go\<close>): the pause after flood control, the
    request lock and the pace of requests.
  \<^item> \<^verbatim>\<open>Hashes\<close> (\<^verbatim>\<open>group.go\<close>, \<^verbatim>\<open>main.go\<close>), \<^verbatim>\<open>VkReplies\<close>, \<^verbatim>\<open>VkCalls\<close>, \<^verbatim>\<open>VkLegacy\<close>, \<^verbatim>\<open>AccountCreds\<close> (\<^verbatim>\<open>creds.go\<close>, \<^verbatim>\<open>creds_vkcalls.go\<close>,
    \<^verbatim>\<open>vk_account.go\<close>, \<^verbatim>\<open>captcha_v2.go\<close>): call links, decoded replies, and the paths to credentials.
  \<^item> \<^verbatim>\<open>CaptchaSolver\<close>, \<^verbatim>\<open>CaptchaSlider\<close> (\<^verbatim>\<open>captcha_v2.go\<close>, \<^verbatim>\<open>captcha_v2_slider.go\<close>): one attempt of the solver; the order
    of the arrangements of a tile puzzle.
  \<^item> \<^verbatim>\<open>CredsCache\<close>, \<^verbatim>\<open>CacheSystem\<close> (\<^verbatim>\<open>creds.go\<close>), \<^verbatim>\<open>GroupCreds\<close> (\<^verbatim>\<open>group.go\<close>): caches by link and their operations;
    callers, fetches and invalidations as steps; the refresh of a group's credentials as steps.
  \<^item> \<^verbatim>\<open>SessionErrors\<close>, \<^verbatim>\<open>WorkerLoop\<close> (\<^verbatim>\<open>session.go\<close>, \<^verbatim>\<open>errhint.go\<close>, \<^verbatim>\<open>group.go\<close>), \<^verbatim>\<open>Session\<close>, \<^verbatim>\<open>SessionLoops\<close> (\<^verbatim>\<open>session.go\<close>),
    \<^verbatim>\<open>WorkerGroups\<close> (\<^verbatim>\<open>main.go\<close>, \<^verbatim>\<open>group.go\<close>).
  \<^item> \<^verbatim>\<open>IosRuntime\<close>, \<^verbatim>\<open>IosWatchdog\<close> (\<^verbatim>\<open>ios_bridge.go\<close>), \<^verbatim>\<open>IosStats\<close> (\<^verbatim>\<open>stats_publish_ios.go\<close>), \<^verbatim>\<open>WgConfig\<close> (\<^verbatim>\<open>socks_wg.go\<close>, \<^verbatim>\<open>main.go\<close>,
    \<^verbatim>\<open>ios_bridge.go\<close>).
  \<^item> \<^verbatim>\<open>IosBridge\<close>, \<^verbatim>\<open>IosLifecycle\<close> (\<^verbatim>\<open>ios_bridge.go\<close>, \<^verbatim>\<open>ios_reconnect_export.go\<close>): the functions the application calls; tunnel
    generations with their goroutines as steps; who closes WireGuard, what a stop reaches, when it ends. \<^verbatim>\<open>NetworkChange\<close>: what
    happens in every part when the network changes. \<^verbatim>\<open>LoopRefinement\<close>: the loop of \<^verbatim>\<open>IosRuntime\<close>, which has
    the times, and a generation, which has the goroutines, go through the same phases.
  \<^item> \<^verbatim>\<open>CaptchaExchange\<close> (\<^verbatim>\<open>captcha_ipc_ios.go\<close>): requests and answers of captchas between the client and the application. \<^verbatim>\<open>Startup\<close>
    (\<^verbatim>\<open>main.go\<close>): the checks at the start, the commands on standard input, signals. \<^verbatim>\<open>Ping\<close> (\<^verbatim>\<open>RunPing\<close> of \<^verbatim>\<open>session.go\<close>).
  \<^item> \<^verbatim>\<open>IosTun\<close> (\<^verbatim>\<open>socks_wg_ios.go\<close>, \<^verbatim>\<open>socks_wg_desktop.go\<close>, \<^verbatim>\<open>tun_ios.go\<close>, \<^verbatim>\<open>ios_cbridge.go\<close>): the start of the WireGuard device and the
    bridge of packets. \<^verbatim>\<open>Socks\<close> (\<^verbatim>\<open>socks5.go\<close>), \<^verbatim>\<open>HttpClients\<close> (\<^verbatim>\<open>active_http.go\<close>), \<^verbatim>\<open>IosMemory\<close> (\<^verbatim>\<open>ios_memory_diagnostics.go\<close>), \<^verbatim>\<open>Names\<close>
    (\<^verbatim>\<open>namegen.go\<close>), \<^verbatim>\<open>Profiles\<close> (\<^verbatim>\<open>profiles.go\<close>), \<^verbatim>\<open>StatsLoop\<close> (\<^verbatim>\<open>stats.go\<close>, \<^verbatim>\<open>stats_publish_ios.go\<close>).
  \<^item> \<^verbatim>\<open>SliderCursor\<close> (\<^verbatim>\<open>captcha_v2_slider.go\<close>): the path of the cursor; \<^verbatim>\<open>SliderScore\<close>: the scores by colour. \<^verbatim>\<open>CaptchaIdentity\<close> (\<^verbatim>\<open>captcha_v2.go\<close>): the browser an
    attempt of the solver pretends to be, and its headers. \<^verbatim>\<open>DohDial\<close> (\<^verbatim>\<open>doh.go\<close>, \<^verbatim>\<open>obfs.go\<close>): connections to name servers; the cache of ciphers.

  \<^bold>\<open>State and operations.\<close>
  A struct is a record of the same name or with a short prefix for its fields; pointers that matter
  for aliasing are addresses (the endpoint states of the scheduler, operations of the caches). An operation
  under a mutex is one function on the state. Goroutines are an inductive step relation on a record that holds
  the shared state and, per goroutine, what it does next; every region under a lock, every channel operation
  and every wake-up is a step, so the theorems about reachable states hold for every interleaving. \<^verbatim>\<open>RunSession\<close> is a
  sequence of stages with a stack of deferred calls; atomic counters commute, so other goroutines' changes
  of them are left out and the counters are what this session adds. A \<^verbatim>\<open>time.Time\<close> is the number of
  nanoseconds since Go's zero time. Machine integers are words where they wrap around (\<^verbatim>\<open>Obfs\<close>) and integers with
  \<^verbatim>\<open>wrap64\<close> where an overflow is possible; JSON numbers are rationals. Strings are bytes: \<^verbatim>\<open>ToLower\<close>, \<^verbatim>\<open>EqualFold\<close>
  and \<^verbatim>\<open>TrimSpace\<close> are modelled on ASCII. Texts in Russian are lists of their UTF-8 bytes.

  \<^bold>\<open>What the lemmas show.\<close>
  Each theory proves the invariants of its state and what every operation does on every branch; the
  properties, marked C1 to C40, are the results that matter to the users of a part. Limits: the scheduler never has more
  handshakes than permits and no waiting goroutine misses a wake-up; requests to VK are one at a time,
  paced, and stop in a flood pause; a link has one fetch at a time and an invalidated result is never
  served; a refreshed group takes newer credentials. Sessions: every resource, permit, counter and configuration operation
  is given back exactly once on every path, the outcome decides which counter moves, and the tunnel delivers the packets it is
  given, up to the size its receive buffer holds.
  Reactions: errors of \<^verbatim>\<open>Allocate\<close> and handshakes lead to the documented reaction. Formats: the disguise and
  the DNS framing round-trip, a session uses no nonce twice (each begins with its random SSRC, so
  only sessions with the same SSRC could share one), no configuration value breaks out of its line. Termination: the
  captcha loop ends, the reader of captcha requests comes back, and a stopped tunnel ends within a bounded number of its own
  steps. Generations: one live tunnel at most, no WireGuard device left open. The transport loop on
  iOS backs off within fixed bounds, and its two models agree on their phases by simulation; identities of
  the captcha solver are consistent and do not drift. A group starts fetches of credentials at least fifteen seconds of the Unix clock apart, which
  is more than fourteen seconds of time. Some theorems state what the code does
  where it does not do what it means to (named in the findings of the manifest).

  \<^bold>\<open>Parameters, bounds and fuel.\<close>
  The answers of servers, HTTP, the cipher, HKDF, SHA-256, base64, JSON decoding, regular expressions, URL and IP parsing, image
  decoding and random values are arguments. Hypotheses on them are named: \<^verbatim>\<open>aead_laws\<close> (opening gives back what was sealed, the tag
  has 16 bytes), \<^verbatim>\<open>reads_whole\<close> (a read returns a packet that fits the buffer
  whole; of a longer one nothing is assumed), \<^verbatim>\<open>counts_requests\<close> (a counter that a request raises by one and one attempt of the image
  solver by at most a given number) and \<^verbatim>\<open>counts_raw\<close> (one that only requests of the solver raise), \<^verbatim>\<open>quiet_server\<close> (replies without certain words), \<^verbatim>\<open>clock_runs\<close> (a pause of 100 milliseconds takes at least that),
  \<^verbatim>\<open>in_range\<close> and \<^verbatim>\<open>rand_in_range\<close> (a random number below n is below n), \<^verbatim>\<open>floats_close\<close> (two rounded floating-point expressions are near their
  exact values), \<^verbatim>\<open>finds_host\<close> (the parser of URLs finds a plain host); each
  has a witness. No function uses fuel: loops recurse on lists or with a measure (\<^verbatim>\<open>read_full\<close>, \<^verbatim>\<open>pow_search\<close>, \<^verbatim>\<open>anonymous_call_token\<close>), and the
  captcha loop, the poll for an answer (\<^verbatim>\<open>poll_result\<close>) and the first points of the cursor (\<^verbatim>\<open>start_points\<close>) are partial functions that are proved to return.

  \<^bold>\<open>Not modelled.\<close>
  Logging and the wording of most log lines; buffer pools and other code that only saves memory; the runtime settings of
  \<^verbatim>\<open>ios_memory_policy.go\<close>; the decoding of images; the socket option of \<^verbatim>\<open>listen.go\<close>; the imported libraries (DTLS, TURN, WireGuard, SOCKS5, HTTP), which are parameters; the Swift
  application. What the map leaves out of the modelled files is imports, constants of log texts, logging, the tables of
  regular expressions, and the assembly of the goroutines whose bodies are modelled.
\<close>

end
